(* ===== verification/Rust_Prelude.thy ===== *)
theory Rust_Prelude
  imports Main "HOL-Library.Word" "HOL-Library.Char_ord" "HOL-Library.List_Lexorder"
begin

text \<open>
  What every theory of the development shares: the Rust types that the sources use and their
  model, the result type with the control flow of the question-mark operator, the loops over slices
  and iterators, the checked integer arithmetic, and the few string operations of the standard
  library that the validators call.

  Conventions. A \<open>String\<close> or \<open>&str\<close> is a \<open>string\<close>, the list of the bytes of its UTF-8 encoding, so
  that \<open>length\<close> is \<open>str::len\<close> and the order on strings is the byte order of Rust's \<open>Ord\<close>. A
  \<open>u64\<close> or \<open>usize\<close> that counts or measures is a \<open>nat\<close>; every operation of the source that can leave
  the 64-bit range is one of the checked operations below, so the bound is written out where the code
  looks at it. A byte is an \<open>8 word\<close>, and the 32-bit frame lengths are \<open>32 word\<close>s. A \<open>Uuid\<close> is a
  \<open>128 word\<close>, ordered as its bytes are. A \<open>DateTime<Utc>\<close> is the \<open>int\<close> number of nanoseconds
  since the epoch and an \<open>Instant\<close> a \<open>nat\<close> number of nanoseconds.
\<close>

unbundle bit_operations_syntax

type_synonym byte = "8 word"
type_synonym u64 = nat
type_synonym usize = nat
type_synonym uuid = "128 word"
type_synonym datetime = int
type_synonym instant = nat
type_synonym duration = nat

named_theorems res_simps \<open>when a fallible computation succeeds\<close>

section \<open>Results and the question-mark operator\<close>

text \<open>\<open>Result<T, E>\<close> is \<open>'e + 'a\<close> with \<open>Inl\<close> the error. \<open>and_then r f\<close> is \<open>f(r?)\<close>.\<close>

definition and_then :: "'e + 'a \<Rightarrow> ('a \<Rightarrow> 'e + 'b) \<Rightarrow> 'e + 'b" where
  "and_then r f = (case r of Inl e \<Rightarrow> Inl e | Inr a \<Rightarrow> f a)"

text \<open>\<open>require b e\<close> is the guard \<open>if !b { return Err(e) }\<close>.\<close>

definition require :: "bool \<Rightarrow> 'e \<Rightarrow> 'e + unit" where
  "require b e = (if b then Inr () else Inl e)"

text \<open>\<open>map_err f r\<close> is \<open>Result::map_err\<close>, also the conversion that the question mark inserts.\<close>

definition map_err :: "('e \<Rightarrow> 'f) \<Rightarrow> 'e + 'a \<Rightarrow> 'f + 'a" where
  "map_err f r = (case r of Inl e \<Rightarrow> Inl (f e) | Inr a \<Rightarrow> Inr a)"

definition ok_or :: "'e \<Rightarrow> 'a option \<Rightarrow> 'e + 'a" where
  "ok_or e x = (case x of None \<Rightarrow> Inl e | Some a \<Rightarrow> Inr a)"

text \<open>A \<open>for\<close> loop whose body may return an error, without and with a mutable state.\<close>

fun for_each :: "('a \<Rightarrow> 'e + unit) \<Rightarrow> 'a list \<Rightarrow> 'e + unit" where
  "for_each f [] = Inr ()"
| "for_each f (x # xs) = and_then (f x) (\<lambda>_. for_each f xs)"

fun try_fold :: "('s \<Rightarrow> 'a \<Rightarrow> 'e + 's) \<Rightarrow> 's \<Rightarrow> 'a list \<Rightarrow> 'e + 's" where
  "try_fold f s [] = Inr s"
| "try_fold f s (x # xs) = and_then (f s x) (\<lambda>s'. try_fold f s' xs)"

fun try_map :: "('a \<Rightarrow> 'e + 'b) \<Rightarrow> 'a list \<Rightarrow> 'e + 'b list" where
  "try_map f [] = Inr []"
| "try_map f (x # xs) = and_then (f x) (\<lambda>y. and_then (try_map f xs) (\<lambda>ys. Inr (y # ys)))"

lemma and_then_simps [simp]:
  "and_then (Inl e) f = Inl e" "and_then (Inr a) f = f a"
  by (simp_all add: and_then_def)

lemma and_then_Inr_iff [res_simps]:
  "and_then r f = Inr b \<longleftrightarrow> (\<exists>a. r = Inr a \<and> f a = Inr b)"
  by (cases r) auto

lemma require_Inr_iff [res_simps, simp]: "require b e = Inr u \<longleftrightarrow> b"
  by (simp add: require_def)

lemma require_True [simp]: "require True e = Inr ()"
  by (simp add: require_def)

lemma require_False [simp]: "require False e = Inl e"
  by (simp add: require_def)

lemma require_Inl_iff [simp]: "require b e = Inl e' \<longleftrightarrow> \<not> b \<and> e' = e"
  by (auto simp: require_def)

lemma map_err_Inr_iff [res_simps, simp]: "map_err f r = Inr a \<longleftrightarrow> r = Inr a"
  by (cases r) (auto simp: map_err_def)

lemma map_err_simps [simp]: "map_err f (Inl e) = Inl (f e)" "map_err f (Inr a) = Inr a"
  by (simp_all add: map_err_def)

lemma ok_or_Inr_iff [res_simps, simp]: "ok_or e x = Inr a \<longleftrightarrow> x = Some a"
  by (cases x) (auto simp: ok_or_def)

lemma ok_or_simps [simp]: "ok_or e None = Inl e" "ok_or e (Some a) = Inr a"
  by (simp_all add: ok_or_def)

text \<open>\<open>st_then r f\<close> is \<open>f(r?)\<close> for an operation that changes a state: an error keeps the state reached so far.\<close>

definition st_then :: "('e + 'a) \<times> 's \<Rightarrow> ('a \<Rightarrow> 's \<Rightarrow> ('e + 'b) \<times> 's) \<Rightarrow> ('e + 'b) \<times> 's" where
  "st_then r f = (case r of (Inl e, s) \<Rightarrow> (Inl e, s) | (Inr a, s) \<Rightarrow> f a s)"

lemma st_then_simps [simp]: "st_then (Inl e, s) f = (Inl e, s)" "st_then (Inr a, s) f = f a s"
  by (simp_all add: st_then_def)

lemma st_then_Inr_iff [res_simps]:
  "st_then r f = (Inr b, t) \<longleftrightarrow> (\<exists>a s. r = (Inr a, s) \<and> f a s = (Inr b, t))"
  by (cases r; cases "fst r") (auto simp: st_then_def)

lemma for_each_Inr_iff [res_simps]: "for_each f xs = Inr u \<longleftrightarrow> (\<forall>x\<in>set xs. f x = Inr ())"
  by (induction xs) (auto simp: res_simps)

lemma for_each_Inl: "for_each f xs = Inl e \<Longrightarrow> \<exists>x\<in>set xs. f x = Inl e"
proof (induction xs)
  case (Cons x xs)
  then show ?case by (cases "f x") auto
qed simp

lemma try_fold_append:
  "try_fold f s (xs @ ys) = and_then (try_fold f s xs) (\<lambda>s'. try_fold f s' ys)"
proof (induction xs arbitrary: s)
  case (Cons x xs)
  then show ?case by (cases "f s x") auto
qed simp

lemma try_map_Inr_iff [res_simps]: "try_map f xs = Inr ys \<longleftrightarrow> list_all2 (\<lambda>x y. f x = Inr y) xs ys"
  by (induction xs arbitrary: ys) (auto simp: res_simps list_all2_Cons1)

text \<open>
  The loop the validators use to reject duplicates: a body that checks each element and inserts its
  key into a \<open>BTreeSet\<close>, failing when the key is present.
\<close>

lemma try_fold_unique:
  assumes "\<And>seen x seen'. step seen x = Inr seen' \<longleftrightarrow>
             P x \<and> key x \<notin> seen \<and> seen' = insert (key x) seen"
  shows "try_fold step S xs = Inr S' \<longleftrightarrow>
    (\<forall>x\<in>set xs. P x) \<and> distinct (map key xs) \<and> key ` set xs \<inter> S = {} \<and> S' = S \<union> key ` set xs"
proof (induction xs arbitrary: S)
  case (Cons x xs)
  show ?case by (auto simp: res_simps assms Cons.IH)
qed auto

section \<open>Checked arithmetic\<close>

definition u64_bound :: nat where
  "u64_bound = 2 ^ 64"

definition checked_add_u64 :: "u64 \<Rightarrow> u64 \<Rightarrow> u64 option" where
  "checked_add_u64 a b = (if a + b < u64_bound then Some (a + b) else None)"

lemma checked_add_u64_Some [simp]:
  "checked_add_u64 a b = Some c \<longleftrightarrow> c = a + b \<and> a + b < u64_bound"
  by (auto simp: checked_add_u64_def)

lemma checked_add_u64_None [simp]: "checked_add_u64 a b = None \<longleftrightarrow> u64_bound \<le> a + b"
  by (auto simp: checked_add_u64_def)

definition u32_try_from :: "nat \<Rightarrow> 32 word option" where
  "u32_try_from n = (if n < 2 ^ 32 then Some (of_nat n) else None)"

lemma u32_try_from_Some: "u32_try_from n = Some w \<longleftrightarrow> n < 2 ^ 32 \<and> n = unat w"
proof -
  have "n < 2 ^ 32 \<Longrightarrow> unat (of_nat n :: 32 word) = n"
    by (simp add: unat_of_nat)
  moreover have "unat w < 2 ^ 32"
    using unsigned_less [of w, where ?'a = nat] by simp
  ultimately show ?thesis
    by (auto simp: u32_try_from_def)
qed

section \<open>Fixed-width encodings of the frame lengths\<close>

definition u32_to_le_bytes :: "32 word \<Rightarrow> byte list" where
  "u32_to_le_bytes w = [ucast w, ucast (drop_bit 8 w), ucast (drop_bit 16 w), ucast (drop_bit 24 w)]"

fun u32_from_le_bytes :: "byte list \<Rightarrow> 32 word" where
  "u32_from_le_bytes [a, b, c, d] =
     ucast a OR push_bit 8 (ucast b) OR push_bit 16 (ucast c) OR push_bit 24 (ucast d)"
| "u32_from_le_bytes bs = 0"

definition u32_to_be_bytes :: "32 word \<Rightarrow> byte list" where
  "u32_to_be_bytes w = rev (u32_to_le_bytes w)"

definition u32_from_be_bytes :: "byte list \<Rightarrow> 32 word" where
  "u32_from_be_bytes bs = u32_from_le_bytes (rev bs)"

lemma length_u32_to_le_bytes [simp]: "length (u32_to_le_bytes w) = 4"
  by (simp add: u32_to_le_bytes_def)

lemma length_u32_to_be_bytes [simp]: "length (u32_to_be_bytes w) = 4"
  by (simp add: u32_to_be_bytes_def)

lemma u32_from_to_le_bytes [simp]: "u32_from_le_bytes (u32_to_le_bytes w) = w"
proof (rule bit_word_eqI)
  fix n
  assume "n < LENGTH(32)"
  then consider "n < 8" | "8 \<le> n" "n < 16" | "16 \<le> n" "n < 24" | "24 \<le> n" "n < 32"
    by force
  then show "bit (u32_from_le_bytes (u32_to_le_bytes w)) n = bit w n"
    by cases (auto simp: u32_to_le_bytes_def bit_simps)
qed

lemma u32_to_from_le_bytes:
  assumes "length bs = 4"
  shows "u32_to_le_bytes (u32_from_le_bytes bs) = bs"
proof -
  obtain a b c d where bs: "bs = [a, b, c, d]"
    using assms by (auto simp: length_Suc_conv numeral_eq_Suc)
  show ?thesis
    unfolding bs
    by (simp add: u32_to_le_bytes_def, intro conjI; rule bit_word_eqI;
        auto simp: bit_simps dest: bit_imp_le_length)
qed

lemma u32_from_to_be_bytes [simp]: "u32_from_be_bytes (u32_to_be_bytes w) = w"
  by (simp add: u32_from_be_bytes_def u32_to_be_bytes_def)

lemma u32_to_from_be_bytes: "length bs = 4 \<Longrightarrow> u32_to_be_bytes (u32_from_be_bytes bs) = bs"
  by (simp add: u32_from_be_bytes_def u32_to_be_bytes_def u32_to_from_le_bytes)

section \<open>Strings and bytes\<close>

definition as_bytes :: "string \<Rightarrow> byte list" where
  "as_bytes s = map of_char s"

lemma as_bytes_simps [simp]:
  "as_bytes [] = []" "as_bytes (c # s) = of_char c # as_bytes s"
  "as_bytes (s @ t) = as_bytes s @ as_bytes t" "length (as_bytes s) = length s"
  by (simp_all add: as_bytes_def)

lemma unat_of_char [simp]: "unat (of_char c :: byte) = of_char c"
  by (simp add: of_nat_of_char [symmetric, where ?'a = byte] unat_of_nat)

lemma of_char_byte_inj [simp]: "(of_char c :: byte) = of_char d \<longleftrightarrow> c = d"
  by (metis of_char_eq_iff unat_of_char)

lemma as_bytes_inj: "as_bytes s = as_bytes t \<longleftrightarrow> s = t"
proof
  assume "as_bytes s = as_bytes t"
  then have "map (of_char :: char \<Rightarrow> byte) s = map of_char t"
    by (simp add: as_bytes_def)
  then show "s = t"
    by (rule map_injective) (rule injI, simp)
qed simp

text \<open>The \<open>u8::is_ascii_*\<close> predicates, on the bytes of a string.\<close>

definition is_ascii_digit :: "char \<Rightarrow> bool" where
  "is_ascii_digit c \<longleftrightarrow> CHR ''0'' \<le> c \<and> c \<le> CHR ''9''"

definition is_ascii_lowercase :: "char \<Rightarrow> bool" where
  "is_ascii_lowercase c \<longleftrightarrow> CHR ''a'' \<le> c \<and> c \<le> CHR ''z''"

definition is_ascii_uppercase :: "char \<Rightarrow> bool" where
  "is_ascii_uppercase c \<longleftrightarrow> CHR ''A'' \<le> c \<and> c \<le> CHR ''Z''"

definition is_ascii_alphanumeric :: "char \<Rightarrow> bool" where
  "is_ascii_alphanumeric c \<longleftrightarrow> is_ascii_digit c \<or> is_ascii_lowercase c \<or> is_ascii_uppercase c"

definition is_ascii_hexdigit :: "char \<Rightarrow> bool" where
  "is_ascii_hexdigit c \<longleftrightarrow> is_ascii_digit c \<or> (CHR ''a'' \<le> c \<and> c \<le> CHR ''f'') \<or>
     (CHR ''A'' \<le> c \<and> c \<le> CHR ''F'')"

lemmas ascii_defs = is_ascii_digit_def is_ascii_lowercase_def is_ascii_uppercase_def
  is_ascii_alphanumeric_def is_ascii_hexdigit_def

text \<open>
  \<open>blank s\<close> is \<open>s.trim().is_empty()\<close>: every code point of the string has the Unicode property
  \<open>White_Space\<close>. The equations list the UTF-8 encodings of these code points: U+0009 to U+000D, U+0020,
  U+0085, U+00A0, U+1680, U+2000 to U+200A, U+2028, U+2029, U+202F, U+205F and U+3000.
\<close>

definition byte_in :: "nat \<Rightarrow> nat \<Rightarrow> char \<Rightarrow> bool" where
  "byte_in lo hi c \<longleftrightarrow> lo \<le> of_char c \<and> of_char c \<le> hi"

fun blank :: "string \<Rightarrow> bool" where
  "blank [] = True"
| "blank (a # s) =
     (if byte_in 9 13 a \<or> byte_in 32 32 a then blank s
      else case s of
        [] \<Rightarrow> False
      | b # t \<Rightarrow>
          if byte_in 194 194 a \<and> (byte_in 133 133 b \<or> byte_in 160 160 b) then blank t
          else (case t of
              [] \<Rightarrow> False
            | c # u \<Rightarrow>
                if byte_in 225 225 a \<and> byte_in 154 154 b \<and> byte_in 128 128 c
                 \<or> byte_in 226 226 a \<and> byte_in 128 128 b \<and>
                     (byte_in 128 138 c \<or> byte_in 168 169 c \<or> byte_in 175 175 c)
                 \<or> byte_in 226 226 a \<and> byte_in 129 129 b \<and> byte_in 159 159 c
                 \<or> byte_in 227 227 a \<and> byte_in 128 128 b \<and> byte_in 128 128 c
                then blank u else False))"

text \<open>\<open>Display\<close> for unsigned integers: the decimal digits, most significant first.\<close>

definition digit_char :: "nat \<Rightarrow> char" where
  "digit_char d = char_of (48 + d)"

fun nat_text :: "nat \<Rightarrow> string" where
  "nat_text n = (if n < 10 then [digit_char n] else nat_text (n div 10) @ [digit_char (n mod 10)])"

declare nat_text.simps [simp del]

lemma not_blank_alphanumeric:
  assumes "is_ascii_alphanumeric a"
  shows "\<not> blank (a # s)"
proof -
  have "48 \<le> (of_char a :: nat)" "(of_char a :: nat) \<le> 122"
    using assms by (auto simp: ascii_defs less_eq_char_def)
  then show ?thesis
    by (simp add: byte_in_def split: list.splits)
qed

lemma nat_text_nonempty [simp]: "nat_text n \<noteq> []" "[] \<noteq> nat_text n"
  by (simp_all add: nat_text.simps [of n])

lemma digit_char_inj: "a < 10 \<Longrightarrow> b < 10 \<Longrightarrow> digit_char a = digit_char b \<longleftrightarrow> a = b"
proof
  assume "a < 10" "b < 10" and "digit_char a = digit_char b"
  then have "(of_char (char_of (48 + a) :: char) :: nat) = of_char (char_of (48 + b) :: char)"
    by (simp add: digit_char_def)
  with \<open>a < 10\<close> \<open>b < 10\<close> show "a = b"
    by (simp only: of_char_of) simp
qed simp

lemma nat_text_digits: "c \<in> set (nat_text n) \<Longrightarrow> \<exists>d<10. c = digit_char d"
proof (induction n rule: nat_text.induct)
  case (1 n)
  show ?case
  proof (cases "n < 10")
    case True
    with "1.prems" show ?thesis by (auto simp: nat_text.simps [of n])
  next
    case False
    with "1.prems" consider "c \<in> set (nat_text (n div 10))" | "c = digit_char (n mod 10)"
      by (auto simp: nat_text.simps [of n])
    then show ?thesis using False "1.IH" by cases (auto intro: exI [of _ "n mod 10"])
  qed
qed

lemma nat_text_inj: "nat_text m = nat_text n \<longleftrightarrow> m = n"
proof
  show "nat_text m = nat_text n \<Longrightarrow> m = n"
  proof (induction m arbitrary: n rule: nat_text.induct)
    case (1 m)
    show ?case
    proof (cases "m < 10")
      case True
      with "1.prems" have "n < 10"
        by (auto simp: nat_text.simps [of m] nat_text.simps [of n] split: if_splits)
      with True "1.prems" show ?thesis
        by (simp add: nat_text.simps [of m] nat_text.simps [of n] digit_char_inj)
    next
      case False
      with "1.prems" have n: "\<not> n < 10"
        by (auto simp: nat_text.simps [of m] nat_text.simps [of n] split: if_splits)
      with False "1.prems" have "nat_text (m div 10) = nat_text (n div 10)"
        and "digit_char (m mod 10) = digit_char (n mod 10)"
        by (simp_all add: nat_text.simps [of m] nat_text.simps [of n])
      then have "m div 10 = n div 10" and "m mod 10 = n mod 10"
        using "1.IH" [OF False] by (simp_all add: digit_char_inj)
      then show ?thesis
        by (metis div_mult_mod_eq)
    qed
  qed
qed simp

end
