(* ===== verification/Sha_Digest.thy ===== *)
theory Sha_Digest
  imports Rust_Prelude
begin

text \<open>
  The digest type of \<open>baselineops-domain/src/canonical.rs\<close> and \<open>canonical/hex.rs\<close>: a
  \<open>Sha256Digest\<close> is the list of its 32 bytes, \<open>to_hex\<close> prints it and \<open>from_str\<close> parses it. The
  theory shows that the two are inverse to each other and that the parser accepts canonical
  lower-case text only.
\<close>

type_synonym digest = "byte list"

definition digest_ok :: "digest \<Rightarrow> bool" where
  "digest_ok d \<longleftrightarrow> length d = 32"

section \<open>Definitions\<close>

text \<open>The two characters of the format \<open>{byte:02x}\<close>.\<close>

definition hex_digit :: "nat \<Rightarrow> char" where
  "hex_digit n = (if n < 10 then char_of (48 + n) else char_of (87 + n))"

definition byte_hex :: "byte \<Rightarrow> string" where
  "byte_hex b = [hex_digit (unat (drop_bit 4 b)), hex_digit (unat (take_bit 4 b))]"

definition to_hex :: "digest \<Rightarrow> string" where
  "to_hex d = concat (map byte_hex d)"

definition nibble :: "byte \<Rightarrow> byte option" where
  "nibble b =
     (if 48 \<le> b \<and> b \<le> 57 then Some (b - 48)
      else if 97 \<le> b \<and> b \<le> 102 then Some (b - 97 + 10)
      else if 65 \<le> b \<and> b \<le> 70 then Some (b - 65 + 10)
      else None)"

text \<open>The loop over \<open>chunks_exact(2)\<close>; a last odd byte is ignored.\<close>

fun hex_pairs :: "byte list \<Rightarrow> string + byte list" where
  "hex_pairs (h # l # rest) =
     and_then (ok_or ''SHA-256 digest is not hexadecimal'' (nibble h)) (\<lambda>high.
     and_then (ok_or ''SHA-256 digest is not hexadecimal'' (nibble l)) (\<lambda>low.
     and_then (hex_pairs rest) (\<lambda>bs. Inr ((push_bit 4 high OR low) # bs))))"
| "hex_pairs rest = Inr []"

definition from_str :: "string \<Rightarrow> string + digest" where
  "from_str v =
     (if length v \<noteq> 64 \<or> \<not> list_all is_ascii_hexdigit v \<or> list_ex is_ascii_uppercase v
      then Inl ''SHA-256 digests must be exactly 64 lowercase hexadecimal characters''
      else hex_pairs (as_bytes v))"

section \<open>Hexadecimal round trips\<close>

lemma nibble_cases:
  fixes n :: nat
  assumes "n < 16"
  shows "n \<in> {0, 1, 2, 3, 4, 5, 6, 7, 8, 9, 10, 11, 12, 13, 14, 15}"
  using assms unfolding insert_iff empty_iff by arith

lemma of_char_hex_digit:
  "n < 16 \<Longrightarrow> (of_char (hex_digit n) :: nat) = (if n < 10 then 48 + n else 87 + n)"
  by (simp add: hex_digit_def)

lemma of_char_hex_digit_byte:
  assumes "n < 16"
  shows "(of_char (hex_digit n) :: byte) = of_nat (if n < 10 then 48 + n else 87 + n)"
  by (metis assms of_char_hex_digit of_nat_of_char)

lemma nibble_hex_digit:
  assumes "n < 16"
  shows "nibble (of_char (hex_digit n)) = Some (of_nat n)"
  using nibble_cases [OF assms] by (auto simp: of_char_hex_digit_byte nibble_def)

lemma hex_digit_ascii:
  assumes "n < 16"
  shows "is_ascii_hexdigit (hex_digit n)" "\<not> is_ascii_uppercase (hex_digit n)"
  using of_char_hex_digit [OF assms] assms by (auto simp: ascii_defs less_eq_char_def)

lemma hex_digit_cover:
  assumes "is_ascii_hexdigit c" "\<not> is_ascii_uppercase c"
  obtains n where "n < 16" "c = hex_digit n"
proof -
  let ?k = "of_char c :: nat"
  have "(48 \<le> ?k \<and> ?k \<le> 57) \<or> (97 \<le> ?k \<and> ?k \<le> 102)"
    using assms by (auto simp: ascii_defs less_eq_char_def)
  then consider "48 \<le> ?k" "?k \<le> 57" | "97 \<le> ?k" "?k \<le> 102"
    by blast
  then have "\<exists>n<16. c = hex_digit n"
  proof cases
    case 1
    then have "?k - 48 < 10" by arith
    with 1 have "c = hex_digit (?k - 48)" "?k - 48 < 16"
      by (simp_all add: hex_digit_def)
    then show ?thesis by blast
  next
    case 2
    then have "\<not> ?k - 87 < 10" "?k - 87 < 16" by arith+
    with 2 have "c = hex_digit (?k - 87)" "?k - 87 < 16"
      by (simp_all add: hex_digit_def)
    then show ?thesis by blast
  qed
  then show ?thesis using that by blast
qed

lemma unat_nibbles_less:
  fixes b :: byte
  shows "unat (drop_bit 4 b) < 16" "unat (take_bit 4 b) < 16"
proof -
  have "unat (drop_bit 4 b) = unat b div 16"
    by (simp add: drop_bit_eq_div unat_div)
  then show "unat (drop_bit 4 b) < 16"
    using unsigned_less [of b, where ?'a = nat] by simp
  have "unat (take_bit 4 b) = unat b mod 16"
    by (simp add: take_bit_eq_mod unat_mod)
  then show "unat (take_bit 4 b) < 16"
    by simp
qed

lemma join_nibbles: "push_bit 4 (drop_bit 4 b) OR take_bit 4 b = (b :: byte)"
  by (rule bit_word_eqI) (auto simp: bit_simps)

lemma split_nibbles:
  assumes "m < 16" "n < 16"
  shows "unat (drop_bit 4 (push_bit 4 (of_nat m) OR of_nat n :: byte)) = m"
    and "unat (take_bit 4 (push_bit 4 (of_nat m) OR of_nat n :: byte)) = n"
  using nibble_cases [OF assms(1)] nibble_cases [OF assms(2)]
  by (auto simp: take_bit_eq_mod drop_bit_eq_div)

lemma length_byte_hex [simp]: "length (byte_hex b) = 2"
  by (simp add: byte_hex_def)

lemma length_to_hex [simp]: "length (to_hex d) = 2 * length d"
  by (induction d) (simp_all add: to_hex_def)

lemma hex_pairs_byte_hex:
  "hex_pairs (as_bytes (byte_hex b @ s)) = and_then (hex_pairs (as_bytes s)) (\<lambda>bs. Inr (b # bs))"
  by (simp add: byte_hex_def nibble_hex_digit unat_nibbles_less join_nibbles)

lemma hex_pairs_to_hex: "hex_pairs (as_bytes (to_hex d)) = Inr d"
  by (induction d) (simp_all add: to_hex_def hex_pairs_byte_hex del: as_bytes_simps(3))

lemma to_hex_ascii: "c \<in> set (to_hex d) \<Longrightarrow> is_ascii_hexdigit c \<and> \<not> is_ascii_uppercase c"
  by (auto simp: to_hex_def byte_hex_def hex_digit_ascii unat_nibbles_less)

lemma from_str_to_hex:
  assumes "digest_ok d"
  shows "from_str (to_hex d) = Inr d"
proof -
  have "list_all is_ascii_hexdigit (to_hex d)" "\<not> list_ex is_ascii_uppercase (to_hex d)"
    using to_hex_ascii by (auto simp: list_all_iff list_ex_iff)
  then show ?thesis
    using assms by (simp add: from_str_def digest_ok_def hex_pairs_to_hex)
qed

lemma to_hex_hex_pairs:
  "\<lbrakk>list_all is_ascii_hexdigit v; \<not> list_ex is_ascii_uppercase v; even (length v);
    hex_pairs (as_bytes v) = Inr d\<rbrakk> \<Longrightarrow> to_hex d = v"
proof (induction v arbitrary: d rule: induct_list012)
  case (3 a b v)
  obtain m where m: "m < 16" "a = hex_digit m"
    using 3 by (auto elim: hex_digit_cover)
  obtain n where n: "n < 16" "b = hex_digit n"
    using 3 by (auto elim: hex_digit_cover)
  obtain d' where d': "hex_pairs (as_bytes v) = Inr d'"
    and d: "d = (push_bit 4 (of_nat m) OR of_nat n) # d'"
    using 3 m n by (auto simp: nibble_hex_digit res_simps)
  have "to_hex d' = v"
    using 3 d' by simp
  moreover have "byte_hex (push_bit 4 (of_nat m) OR of_nat n) = [a, b]"
    using m n by (simp only: byte_hex_def split_nibbles)
  ultimately show ?case
    by (simp add: d to_hex_def)
qed (auto simp: to_hex_def)

lemma from_str_Inr_iff: "from_str v = Inr d \<longleftrightarrow> digest_ok d \<and> v = to_hex d"
proof
  assume *: "from_str v = Inr d"
  then have "list_all is_ascii_hexdigit v" "\<not> list_ex is_ascii_uppercase v" "length v = 64"
    "hex_pairs (as_bytes v) = Inr d"
    by (auto simp: from_str_def split: if_splits)
  then have v: "to_hex d = v"
    by (simp add: to_hex_hex_pairs)
  then have "digest_ok d"
    using \<open>length v = 64\<close> by (auto simp: digest_ok_def)
  with v show "digest_ok d \<and> v = to_hex d" by simp
next
  assume "digest_ok d \<and> v = to_hex d"
  then show "from_str v = Inr d" by (simp add: from_str_to_hex)
qed

lemma to_hex_inj: "to_hex d = to_hex e \<longleftrightarrow> d = e"
  by (metis hex_pairs_to_hex sum.inject(2))

end
