(* ===== verification/External_Code.thy ===== *)
theory External_Code
  imports Sha_Digest
begin

text \<open>
  The crates that the workspace depends on and does not contain: \<open>serde_json\<close> (the \<open>Value\<close> type and
  the text of strings and numbers), \<open>sha2\<close>, \<open>uuid\<close> and \<open>chrono\<close>. Their data types are modelled; their
  functions are the fields of a record \<open>'h ext\<close> which every definition that reaches them takes as an
  argument. What the sources rely on is stated as predicates on that record, one for each documented
  contract, so that a theorem that needs a contract names it among its hypotheses. A concrete record
  that satisfies all of them closes the theory.
\<close>

section \<open>JSON values\<close>

text \<open>
  \<open>serde_json::Number\<close> keeps an unsigned, a negative or a floating-point number; a float is its 64-bit
  pattern. An object is a \<open>BTreeMap\<close>, given by the list of its members in key order.
\<close>

datatype jnumber = PosInt nat | NegInt int | Float "64 word"

datatype jvalue =
    JNull
  | JBool bool
  | JNumber jnumber
  | JString string
  | JArray "jvalue list"
  | JObject "(string \<times> jvalue) list"

text \<open>
  What the Rust types guarantee of a \<open>Value\<close>: the keys of an object are strictly increasing, a
  positive number fits \<open>u64\<close> and a negative one \<open>i64\<close>.
\<close>

fun jnumber_ok :: "jnumber \<Rightarrow> bool" where
  "jnumber_ok (PosInt n) \<longleftrightarrow> n < u64_bound"
| "jnumber_ok (NegInt i) \<longleftrightarrow> - (2 ^ 63) \<le> i \<and> i < 0"
| "jnumber_ok (Float w) \<longleftrightarrow> True"

fun jvalue_ok :: "jvalue \<Rightarrow> bool" where
  "jvalue_ok JNull \<longleftrightarrow> True"
| "jvalue_ok (JBool b) \<longleftrightarrow> True"
| "jvalue_ok (JNumber n) \<longleftrightarrow> jnumber_ok n"
| "jvalue_ok (JString s) \<longleftrightarrow> True"
| "jvalue_ok (JArray vs) \<longleftrightarrow> (\<forall>v\<in>set vs. jvalue_ok v)"
| "jvalue_ok (JObject ms) \<longleftrightarrow> sorted_wrt (<) (map fst ms) \<and> (\<forall>m\<in>set ms. jvalue_ok (snd m))"

section \<open>The functions of the external crates\<close>

record 'h ext =
  sha256 :: "byte list \<Rightarrow> byte list"
  h_default :: 'h
  h_update :: "'h \<Rightarrow> byte list \<Rightarrow> 'h"
  h_finalize :: "'h \<Rightarrow> byte list"
  json_string :: "string \<Rightarrow> byte list list"
  number_text :: "jnumber \<Rightarrow> string"
  uuid_text :: "uuid \<Rightarrow> string"
  time_text :: "datetime \<Rightarrow> string"

text \<open>
  \<open>sha256\<close> is the one-shot \<open>Sha256::digest\<close>; \<open>h_default\<close>, \<open>h_update\<close> and \<open>h_finalize\<close> are the incremental
  hasher. \<open>json_string s\<close> is the sequence of writes that \<open>serde_json::to_writer\<close> makes for a string.
  \<open>uuid_text\<close> is the hyphenated form of a UUID and \<open>time_text\<close> the RFC 3339 form of a timestamp.
\<close>

definition digest_contract :: "'h ext \<Rightarrow> bool" where
  "digest_contract E \<longleftrightarrow> (\<forall>bs. digest_ok (sha256 E bs))"

definition hasher_contract :: "'h ext \<Rightarrow> bool" where
  "hasher_contract E \<longleftrightarrow>
     (\<forall>cs. h_finalize E (foldl (h_update E) (h_default E) cs) = sha256 E (concat cs))"

definition json_string_bytes :: "'h ext \<Rightarrow> string \<Rightarrow> byte list" where
  "json_string_bytes E s = concat (json_string E s)"

text \<open>The bytes of JSON numbers: digits, the signs, the decimal point and the exponent letters.\<close>

definition number_byte :: "byte \<Rightarrow> bool" where
  "number_byte b \<longleftrightarrow> 48 \<le> b \<and> b \<le> 57 \<or> b = 43 \<or> b = 45 \<or> b = 46 \<or> b = 69 \<or> b = 101"

text \<open>
  A JSON string opens with a quotation mark and ends where its text says so, whatever follows; the
  text of a number is a non-empty word over the number bytes; both determine their value.
\<close>

definition string_contract :: "'h ext \<Rightarrow> bool" where
  "string_contract E \<longleftrightarrow>
     (\<forall>s. json_string_bytes E s \<noteq> [] \<and> hd (json_string_bytes E s) = 34) \<and>
     (\<forall>s t r r'. json_string_bytes E s @ r = json_string_bytes E t @ r' \<longrightarrow> s = t)"

definition number_contract :: "'h ext \<Rightarrow> bool" where
  "number_contract E \<longleftrightarrow>
     (\<forall>n. number_text E n \<noteq> [] \<and> (\<forall>b\<in>set (as_bytes (number_text E n)). number_byte b)) \<and>
     inj_on (number_text E) {n. jnumber_ok n}"

definition uuid_contract :: "'h ext \<Rightarrow> bool" where
  "uuid_contract E \<longleftrightarrow> inj (uuid_text E)"

definition time_contract :: "'h ext \<Rightarrow> bool" where
  "time_contract E \<longleftrightarrow> inj (time_text E)"

lemma json_string_bytes_nonempty:
  assumes "string_contract E"
  obtains t where "json_string_bytes E s = 34 # t"
  using assms unfolding string_contract_def by (metis list.exhaust_sel)

lemma json_string_bytes_cancel:
  assumes "string_contract E" "json_string_bytes E s @ r = json_string_bytes E t @ r'"
  shows "s = t" "r = r'"
proof -
  show "s = t" using assms unfolding string_contract_def by blast
  with assms(2) show "r = r'" by simp
qed

lemma number_text_nonempty: "number_contract E \<Longrightarrow> number_text E n \<noteq> []"
  by (simp add: number_contract_def)

lemma number_text_bytes:
  "number_contract E \<Longrightarrow> b \<in> set (as_bytes (number_text E n)) \<Longrightarrow> number_byte b"
  unfolding number_contract_def by blast

section \<open>A concrete instance\<close>

text \<open>
  The contracts can hold together: a quotation that escapes the quotation mark and the backslash, the
  decimal text of numbers, and a hash that keeps the first 32 bytes.
\<close>

definition plain_string :: "string \<Rightarrow> byte list list" where
  "plain_string s =
     [[34], concat (map (\<lambda>b. if b = 34 \<or> b = 92 then [92, b] else [b]) (as_bytes s)), [34]]"

fun plain_number :: "jnumber \<Rightarrow> string" where
  "plain_number (PosInt n) = nat_text n"
| "plain_number (NegInt i) = CHR ''-'' # nat_text (nat (- i))"
| "plain_number (Float w) = CHR ''e'' # nat_text (unat w)"

definition plain_sha :: "byte list \<Rightarrow> byte list" where
  "plain_sha bs = take 32 (bs @ replicate 32 0)"

definition plain_ext :: "byte list ext" where
  "plain_ext = \<lparr>sha256 = plain_sha, h_default = [], h_update = (@), h_finalize = plain_sha,
     json_string = plain_string, number_text = plain_number,
     uuid_text = (\<lambda>u. nat_text (unat u)),
     time_text = (\<lambda>t. (if t < 0 then ''-'' else '''') @ nat_text (nat \<bar>t\<bar>))\<rparr>"

lemma plain_ext_simps [simp]:
  "sha256 plain_ext = plain_sha" "json_string plain_ext = plain_string"
  "number_text plain_ext = plain_number" "h_default plain_ext = []" "h_update plain_ext = (@)"
  "h_finalize plain_ext = plain_sha" "uuid_text plain_ext = (\<lambda>u. nat_text (unat u))"
  by (simp_all add: plain_ext_def)

lemma plain_digest_contract: "digest_contract plain_ext"
  by (simp add: digest_contract_def digest_ok_def plain_sha_def min_def)

lemma foldl_append_concat: "foldl (@) a cs = a @ concat cs"
  by (induction cs arbitrary: a) simp_all

lemma plain_hasher_contract: "hasher_contract plain_ext"
  by (simp add: hasher_contract_def foldl_append_concat)

lemma plain_string_cancel:
  "concat (map (\<lambda>b. if b = 34 \<or> b = 92 then [92, b] else [b]) (s :: byte list)) @ 34 # r =
   concat (map (\<lambda>b. if b = 34 \<or> b = 92 then [92, b] else [b]) t) @ 34 # r' \<Longrightarrow> s = t"
proof (induction s arbitrary: t)
  case Nil
  then show ?case by (cases t) (auto split: if_splits)
next
  case (Cons a s)
  then obtain b u where t: "t = b # u" by (cases t) (auto split: if_splits)
  with Cons show ?case by (auto split: if_splits)
qed

lemma plain_string_contract: "string_contract plain_ext"
proof -
  have "s = t" if "json_string_bytes plain_ext s @ r = json_string_bytes plain_ext t @ r'" for s t r r'
    using that plain_string_cancel [of "as_bytes s" r "as_bytes t" r']
    by (simp add: json_string_bytes_def plain_string_def as_bytes_inj)
  then show ?thesis
    by (auto simp: string_contract_def json_string_bytes_def plain_string_def)
qed

lemma digit_char_byte: "d < 10 \<Longrightarrow> (of_char (digit_char d) :: byte) = of_nat (48 + d)"
  by (simp add: digit_char_def flip: of_nat_of_char [where ?'a = byte])

lemma nat_text_number_bytes: "b \<in> set (as_bytes (nat_text n)) \<Longrightarrow> number_byte b"
proof -
  assume "b \<in> set (as_bytes (nat_text n))"
  then obtain c where c: "c \<in> set (nat_text n)" "b = of_char c"
    by (auto simp: as_bytes_def)
  then obtain d where d: "d < 10" "b = of_nat (48 + d)"
    using nat_text_digits [of c n] digit_char_byte by auto
  then have "d \<in> {0, 1, 2, 3, 4, 5, 6, 7, 8, 9}"
    unfolding insert_iff empty_iff by arith
  then show ?thesis
    using d by (auto simp: number_byte_def)
qed

lemma nat_text_head: "nat_text n = c # s \<Longrightarrow> c \<noteq> CHR ''-'' \<and> c \<noteq> CHR ''e''"
proof -
  assume "nat_text n = c # s"
  then obtain d where "d < 10" "c = digit_char d"
    using nat_text_digits [of c n] by auto
  then have "of_char c = 48 + d" "d < 10"
    by (simp_all add: digit_char_def)
  then show ?thesis by auto
qed

lemma plain_number_contract: "number_contract plain_ext"
proof -
  have "inj_on plain_number {n. jnumber_ok n}"
  proof (rule inj_onI, goal_cases)
    case (1 m n)
    have neq: "nat_text k \<noteq> CHR ''-'' # s" "CHR ''-'' # s \<noteq> nat_text k"
      "nat_text k \<noteq> CHR ''e'' # s" "CHR ''e'' # s \<noteq> nat_text k" for k s
      using nat_text_head [of k] by metis+
    from 1 show ?case
      by (cases m; cases n) (auto simp: nat_text_inj neq dest: unsigned_word_eqI)
  qed
  moreover have "number_byte b" if "b \<in> set (as_bytes (plain_number n))" for n b
    using that nat_text_number_bytes by (cases n) (auto simp: number_byte_def)
  moreover have "plain_number n \<noteq> []" for n
    by (cases n) auto
  ultimately show ?thesis
    by (simp add: number_contract_def)
qed

lemma plain_uuid_contract: "uuid_contract plain_ext"
  by (auto simp: uuid_contract_def nat_text_inj intro!: injI dest: unsigned_word_eqI)

lemma plain_time_contract: "time_contract plain_ext"
proof -
  have "s = t" if "time_text plain_ext s = time_text plain_ext t" for s t
    using that nat_text_head [of "nat \<bar>s\<bar>"] nat_text_head [of "nat \<bar>t\<bar>"]
    by (auto simp: plain_ext_def nat_text_inj split: if_splits)
       (metis nat_text_head)+
  then show ?thesis
    by (auto simp: time_contract_def intro: injI)
qed

text \<open>The same with the identity in the place of the hash, which has no collision at all.\<close>

definition id_ext :: "byte list ext" where
  "id_ext = plain_ext\<lparr>sha256 := (\<lambda>bs. bs), h_finalize := (\<lambda>bs. bs)\<rparr>"

lemma id_ext_simps [simp]:
  "sha256 id_ext = (\<lambda>bs. bs)" "h_finalize id_ext = (\<lambda>bs. bs)" "h_default id_ext = []"
  "h_update id_ext = (@)" "json_string id_ext = plain_string" "number_text id_ext = plain_number"
  "uuid_text id_ext = uuid_text plain_ext" "time_text id_ext = time_text plain_ext"
  by (simp_all add: id_ext_def)

lemma id_ext_contracts:
  "hasher_contract id_ext" "string_contract id_ext" "number_contract id_ext" "uuid_contract id_ext"
  "time_contract id_ext"
proof -
  show "hasher_contract id_ext" by (simp add: hasher_contract_def foldl_append_concat)
  show "string_contract id_ext"
    using plain_string_contract by (simp add: string_contract_def json_string_bytes_def)
  show "number_contract id_ext"
    using plain_number_contract by (simp add: number_contract_def)
  show "uuid_contract id_ext" "time_contract id_ext"
    using plain_uuid_contract plain_time_contract by (simp_all add: uuid_contract_def time_contract_def)
qed

lemmas plain_contracts = plain_digest_contract plain_hasher_contract plain_string_contract
  plain_number_contract plain_uuid_contract plain_time_contract

end
