(* ===== verification/Json_Canonical.thy ===== *)
theory Json_Canonical
  imports External_Code "HOL-Library.Multiset"
begin

text \<open>
  The canonical JSON writer of \<open>baselineops-domain/src/canonical.rs\<close>: a recursive writer over an
  abstract sink, its two sinks (a byte vector and an incremental SHA-256) and the two public entry
  points. The theory shows that the writer refines a pure rendering of the value, that the streamed
  digest is the digest of the bytes, that the order of object members does not matter, and that two
  values with the same canonical bytes are the same value.
\<close>

section \<open>Errors of the domain crate\<close>

text \<open>
  \<open>DomainError\<close>. A \<open>Validation\<close> message that names UUIDs keeps them; every other one is its text.
\<close>

datatype vmessage =
    Text string
  | UnknownDependency uuid uuid
  | DependencyCycle "uuid list"

datatype domain_error =
    Read string
  | LimitExceeded string nat
  | Utf8
  | Json string
  | Validation vmessage
  | Panic

section \<open>The writer\<close>

text \<open>
  A sink is its \<open>write\<close> operation on a state; \<open>write_byte\<close> is the trait's default method. The
  \<open>SinkWriter\<close> that hands the chunks of \<open>serde_json::to_writer\<close> to the sink never fails, so neither does
  the writer.
\<close>

definition write_byte :: "('s \<Rightarrow> byte list \<Rightarrow> 's) \<Rightarrow> byte \<Rightarrow> 's \<Rightarrow> 's" where
  "write_byte w b s = w s [b]"

definition write_canonical_boolean :: "('s \<Rightarrow> byte list \<Rightarrow> 's) \<Rightarrow> bool \<Rightarrow> 's \<Rightarrow> 's" where
  "write_canonical_boolean w b s = w s (as_bytes (if b then ''true'' else ''false''))"

definition write_canonical_string ::
    "'h ext \<Rightarrow> ('s \<Rightarrow> byte list \<Rightarrow> 's) \<Rightarrow> string \<Rightarrow> 's \<Rightarrow> 's" where
  "write_canonical_string E w t s = foldl w s (json_string E t)"

lemma size_list_sort_key [simp]:
  "size_list f (sort_key k xs) = size_list (f :: 'a \<Rightarrow> nat) (xs :: 'a list)"
proof -
  have "sum_mset (image_mset f (mset (sort_key k xs))) = sum_mset (image_mset f (mset xs))"
    by simp
  then have "sum_list (map f (sort_key k xs)) = sum_list (map f xs)"
    by (metis mset_map sum_mset_sum_list)
  then show ?thesis
    by (simp add: size_list_conv_sum_list)
qed

text \<open>
  \<open>write_items\<close> and \<open>write_members\<close> are the loops of \<open>write_canonical_array\<close> and
  \<open>write_canonical_object\<close>; the flag is \<open>index != 0\<close>.
\<close>

function (sequential) write_canonical_value ::
      "'h ext \<Rightarrow> ('s \<Rightarrow> byte list \<Rightarrow> 's) \<Rightarrow> jvalue \<Rightarrow> 's \<Rightarrow> 's"
  and write_items :: "'h ext \<Rightarrow> ('s \<Rightarrow> byte list \<Rightarrow> 's) \<Rightarrow> bool \<Rightarrow> jvalue list \<Rightarrow> 's \<Rightarrow> 's"
  and write_members ::
      "'h ext \<Rightarrow> ('s \<Rightarrow> byte list \<Rightarrow> 's) \<Rightarrow> bool \<Rightarrow> (string \<times> jvalue) list \<Rightarrow> 's \<Rightarrow> 's"
where
  "write_canonical_value E w JNull s = w s (as_bytes ''null'')"
| "write_canonical_value E w (JBool b) s = write_canonical_boolean w b s"
| "write_canonical_value E w (JNumber n) s = w s (as_bytes (number_text E n))"
| "write_canonical_value E w (JString t) s = write_canonical_string E w t s"
| "write_canonical_value E w (JArray vs) s =
     (let s1 = write_byte w 91 s; s2 = write_items E w False vs s1 in write_byte w 93 s2)"
| "write_canonical_value E w (JObject ms) s =
     (let s1 = write_byte w 123 s;
          members = sort_key fst ms;
          s2 = write_members E w False members s1
      in write_byte w 125 s2)"
| "write_items E w later [] s = s"
| "write_items E w later (v # vs) s =
     (let s1 = (if later then write_byte w 44 s else s)
      in write_items E w True vs (write_canonical_value E w v s1))"
| "write_members E w later [] s = s"
| "write_members E w later ((k, v) # ms) s =
     (let s1 = (if later then write_byte w 44 s else s);
          s2 = write_canonical_string E w k s1;
          s3 = write_byte w 58 s2
      in write_members E w True ms (write_canonical_value E w v s3))"
  by pat_completeness auto
termination
  by (relation "measure (\<lambda>x. case x of
        Inl (E, w, v, s) \<Rightarrow> size v
      | Inr (Inl (E, w, l, vs, s)) \<Rightarrow> size_list size vs
      | Inr (Inr (E, w, l, ms, s)) \<Rightarrow> size_list (size_prod (\<lambda>_. 0) size) ms)") auto

section \<open>The entry points\<close>

text \<open>
  \<open>T: Serialize\<close> is the function \<open>ser\<close> that \<open>serde_json::to_value\<close> calls. The byte sink is
  \<open>extend_from_slice\<close>, the digest sink updates the hasher.
\<close>

definition canonical_json_value :: "('t \<Rightarrow> string + jvalue) \<Rightarrow> 't \<Rightarrow> domain_error + jvalue" where
  "canonical_json_value ser v = map_err Json (ser v)"

definition canonical_json_bytes ::
    "'h ext \<Rightarrow> ('t \<Rightarrow> string + jvalue) \<Rightarrow> 't \<Rightarrow> domain_error + byte list" where
  "canonical_json_bytes E ser v =
     and_then (canonical_json_value ser v) (\<lambda>j. Inr (write_canonical_value E (@) j []))"

definition canonical_json_digest ::
    "'h ext \<Rightarrow> ('t \<Rightarrow> string + jvalue) \<Rightarrow> 't \<Rightarrow> domain_error + digest" where
  "canonical_json_digest E ser v =
     and_then (canonical_json_value ser v) (\<lambda>j.
       Inr (h_finalize E (write_canonical_value E (h_update E) j (h_default E))))"

definition of_bytes :: "'h ext \<Rightarrow> byte list \<Rightarrow> digest" where
  "of_bytes E bs = sha256 E bs"

section \<open>The reference rendering\<close>

text \<open>
  The canonical text as a list of chunks: members in key order, separated by commas, no white space.
\<close>

fun commas :: "byte list list list \<Rightarrow> byte list list" where
  "commas [] = []"
| "commas [x] = x"
| "commas (x # y # xs) = x @ [44] # commas (y # xs)"

lemma size_member: "m \<in> set ms \<Longrightarrow> size (snd m) < Suc (size_list (size_prod (\<lambda>_. 0) size) ms)"
  by (induction ms) auto

function (sequential) chunks :: "'h ext \<Rightarrow> jvalue \<Rightarrow> byte list list" where
  "chunks E JNull = [as_bytes ''null'']"
| "chunks E (JBool b) = [as_bytes (if b then ''true'' else ''false'')]"
| "chunks E (JNumber n) = [as_bytes (number_text E n)]"
| "chunks E (JString t) = json_string E t"
| "chunks E (JArray vs) = [91] # commas (map (chunks E) vs) @ [[93]]"
| "chunks E (JObject ms) =
     [123] # commas (map (\<lambda>m. json_string E (fst m) @ [58] # chunks E (snd m)) (sort_key fst ms)) @ [[125]]"
  by pat_completeness auto

termination
  by (relation "measure (\<lambda>(E, v). size v)") (auto simp: size_member less_Suc_eq_le size_list_estimation')

definition render :: "'h ext \<Rightarrow> jvalue \<Rightarrow> byte list" where
  "render E v = concat (chunks E v)"

lemma commas_Cons: "commas (x # xs) = x @ concat (map (\<lambda>y. [44] # y) xs)"
  by (induction xs arbitrary: x) simp_all

lemma write_chunks:
  fixes E :: "'h ext" and w :: "'s \<Rightarrow> byte list \<Rightarrow> 's"
  shows "write_canonical_value E w v s = foldl w s (chunks E v)"
    and "write_items E w later vs s = foldl w s
           (if later then concat (map (\<lambda>v. [44] # chunks E v) vs) else commas (map (chunks E) vs))"
    and "write_members E w later ms s = foldl w s
           (if later then concat (map (\<lambda>m. [44] # json_string E (fst m) @ [58] # chunks E (snd m)) ms)
            else commas (map (\<lambda>m. json_string E (fst m) @ [58] # chunks E (snd m)) ms))"
proof (induction E w v s and E w later vs s and E w later ms s
    rule: write_canonical_value_write_items_write_members.induct)
qed (simp_all add: Let_def write_byte_def write_canonical_boolean_def write_canonical_string_def
      commas_Cons comp_def)

lemma write_bytes: "write_canonical_value E (@) v s = s @ render E v"
  by (simp add: write_chunks foldl_append_concat render_def)

text \<open>
  The digest that is streamed into the hasher while a value is being written equals the digest of
  the bytes that the byte writer returns, and both fail alike when the value cannot be serialized.
\<close>

theorem streamed_digest:
  assumes "hasher_contract E"
  shows "canonical_json_digest E ser v =
    and_then (canonical_json_bytes E ser v) (\<lambda>bytes. Inr (of_bytes E bytes))"
proof (cases "canonical_json_value ser v")
  case (Inr j)
  then show ?thesis
    using assms
    by (simp add: canonical_json_digest_def canonical_json_bytes_def write_chunks foldl_append_concat
        hasher_contract_def of_bytes_def)
qed (simp add: canonical_json_digest_def canonical_json_bytes_def)

theorem streamed_digest_witness:
  "canonical_json_digest plain_ext Inr (JArray [JNull, JBool True]) =
    and_then (canonical_json_bytes plain_ext Inr (JArray [JNull, JBool True]))
      (\<lambda>bytes. Inr (of_bytes plain_ext bytes))"
  by (rule streamed_digest [OF plain_hasher_contract])

section \<open>The canonical text determines the value\<close>

text \<open>
  After a value the text goes on with a comma, a closing bracket or nothing: no byte of a number.
\<close>

definition ended :: "byte list \<Rightarrow> bool" where
  "ended r \<longleftrightarrow> r = [] \<or> \<not> number_byte (hd r)"

lemma ended_simps [simp]: "ended []" "ended (b # r) \<longleftrightarrow> \<not> number_byte b"
  by (simp_all add: ended_def)

fun render_items :: "'h ext \<Rightarrow> jvalue list \<Rightarrow> byte list" where
  "render_items E [] = [93]"
| "render_items E (v # vs) = 44 # render E v @ render_items E vs"

fun render_members :: "'h ext \<Rightarrow> (string \<times> jvalue) list \<Rightarrow> byte list" where
  "render_members E [] = [125]"
| "render_members E (m # ms) =
     44 # json_string_bytes E (fst m) @ 58 # render E (snd m) @ render_members E ms"

lemma render_items_eq: "render_items E vs = concat (concat (map (\<lambda>v. [44] # chunks E v) vs)) @ [93]"
  by (induction vs) (simp_all add: render_def)

lemma render_members_eq:
  "render_members E ms =
     concat (concat (map (\<lambda>m. [44] # json_string E (fst m) @ [58] # chunks E (snd m)) ms)) @ [125]"
  by (induction ms) (simp_all add: render_def json_string_bytes_def)

lemma render_simps:
  "render E JNull = as_bytes ''null''"
  "render E (JBool b) = as_bytes (if b then ''true'' else ''false'')"
  "render E (JNumber n) = as_bytes (number_text E n)"
  "render E (JString t) = json_string_bytes E t"
  "render E (JArray []) = [91, 93]"
  "render E (JArray (v # vs)) = 91 # render E v @ render_items E vs"
  by (simp_all add: render_def json_string_bytes_def commas_Cons render_items_eq comp_def)

lemma sorted_wrt_less_sort_key:
  assumes "sorted_wrt (<) (map fst ms)"
  shows "sort_key fst ms = (ms :: ('a::linorder \<times> 'b) list)"
proof -
  have "sorted (map fst ms)"
    using assms strict_sorted_iff by blast
  then show ?thesis by (rule sort_key_id_if_sorted)
qed

lemma render_object:
  assumes "sorted_wrt (<) (map fst ms)"
  shows "render E (JObject ms) = (case ms of [] \<Rightarrow> [123, 125]
    | m # ms' \<Rightarrow> 123 # json_string_bytes E (fst m) @ 58 # render E (snd m) @ render_members E ms')"
  using sorted_wrt_less_sort_key [OF assms]
  by (cases ms) (simp_all add: render_def json_string_bytes_def commas_Cons render_members_eq comp_def)

text \<open>The first byte tells the constructor.\<close>

definition head_kind :: "byte \<Rightarrow> nat" where
  "head_kind b = (if b = 110 then 0 else if b = 116 \<or> b = 102 then 1 else if number_byte b then 2
     else if b = 34 then 3 else if b = 91 then 4 else 5)"

fun kind :: "jvalue \<Rightarrow> nat" where
  "kind JNull = 0" | "kind (JBool b) = 1" | "kind (JNumber n) = 2" | "kind (JString s) = 3"
| "kind (JArray vs) = 4" | "kind (JObject ms) = 5"

lemma render_head:
  assumes "string_contract E" "number_contract E" "jvalue_ok v"
  obtains b r where "render E v = b # r" "head_kind b = kind v" "b \<noteq> 93" "b \<noteq> 125"
proof (cases v)
  case (JNumber n)
  obtain b r where "as_bytes (number_text E n) = b # r"
    using number_text_nonempty [OF assms(2)] by (metis as_bytes_simps(4) length_0_conv list.exhaust)
  moreover from this have "number_byte b"
    using number_text_bytes [OF assms(2), of b n] by simp
  moreover from this have "b \<notin> {110, 116, 102, 93, 125}"
    by (auto simp: number_byte_def)
  ultimately show ?thesis
    using that JNumber by (auto simp: render_simps head_kind_def)
next
  case (JBool b)
  then show ?thesis
    using that by (cases b) (auto simp: render_simps head_kind_def)
next
  case (JString s)
  obtain t where "json_string_bytes E s = 34 # t"
    using json_string_bytes_nonempty [OF assms(1)] by metis
  with JString show ?thesis
    using that by (auto simp: render_simps head_kind_def number_byte_def)
next
  case (JArray vs)
  then show ?thesis
    using that by (cases vs) (auto simp: render_simps head_kind_def number_byte_def)
next
  case (JObject ms)
  then show ?thesis
    using that assms(3) by (cases ms) (auto simp: render_object head_kind_def number_byte_def)
qed (use that in \<open>auto simp: render_simps head_kind_def number_byte_def\<close>)

lemma number_prefix:
  assumes "number_contract E" "ended r" "ended r'"
    and "as_bytes (number_text E m) @ r = as_bytes (number_text E n) @ r'"
  shows "number_text E m = number_text E n \<and> r = r'"
proof -
  have tw: "takeWhile number_byte (as_bytes (number_text E k) @ q) = as_bytes (number_text E k)"
    if "ended q" for k q
    using that number_text_bytes [OF assms(1)]
    by (subst takeWhile_append2) (auto simp: ended_def takeWhile_eq_Nil_iff)
  have "as_bytes (number_text E m) = as_bytes (number_text E n)"
    using tw [OF assms(2), of m] tw [OF assms(3), of n] assms(4) by simp
  then show ?thesis
    using assms(4) by (simp add: as_bytes_inj)
qed

lemma render_items_ended: "ended (render_items E vs @ r)"
  by (cases vs) (simp_all add: number_byte_def)

lemma render_members_ended: "ended (render_members E ms @ r)"
  by (cases ms) (simp_all add: number_byte_def)

definition cancels :: "'h ext \<Rightarrow> jvalue \<Rightarrow> bool" where
  "cancels E v \<longleftrightarrow> (\<forall>w r r'. jvalue_ok v \<longrightarrow> jvalue_ok w \<longrightarrow> ended r \<longrightarrow> ended r' \<longrightarrow>
     render E v @ r = render E w @ r' \<longrightarrow> v = w \<and> r = r')"

lemma cancelsD:
  "\<lbrakk>cancels E v; render E v @ r = render E w @ r'; jvalue_ok v; jvalue_ok w; ended r; ended r'\<rbrakk>
    \<Longrightarrow> v = w \<and> r = r'"
  unfolding cancels_def by blast

lemma items_cancel:
  "\<lbrakk>\<forall>v\<in>set vs. cancels E v \<and> jvalue_ok v; \<forall>w\<in>set ws. jvalue_ok w;
    render_items E vs @ r = render_items E ws @ r'\<rbrakk> \<Longrightarrow> vs = ws \<and> r = r'"
proof (induction vs arbitrary: ws)
  case Nil
  then show ?case by (cases ws) simp_all
next
  case (Cons v vs)
  then obtain w ws' where ws: "ws = w # ws'" by (cases ws) simp_all
  have "v = w \<and> render_items E vs @ r = render_items E ws' @ r'"
    by (rule cancelsD [of E]) (use Cons.prems ws in \<open>simp_all add: render_items_ended\<close>)
  then show ?case using Cons.IH [of ws'] Cons.prems ws by auto
qed

lemma members_cancel:
  assumes "string_contract E"
  shows "\<lbrakk>\<forall>m\<in>set ms. cancels E (snd m) \<and> jvalue_ok (snd m); \<forall>m\<in>set ns. jvalue_ok (snd m);
    render_members E ms @ r = render_members E ns @ r'\<rbrakk> \<Longrightarrow> ms = ns \<and> r = r'"
proof (induction ms arbitrary: ns)
  case Nil
  then show ?case by (cases ns) simp_all
next
  case (Cons m ms)
  then obtain n ns' where ns: "ns = n # ns'" by (cases ns) simp_all
  have eq: "json_string_bytes E (fst m) @ 58 # render E (snd m) @ render_members E ms @ r =
      json_string_bytes E (fst n) @ 58 # render E (snd n) @ render_members E ns' @ r'"
    using Cons.prems ns by simp
  note key = json_string_bytes_cancel [OF assms eq]
  have "snd m = snd n \<and> render_members E ms @ r = render_members E ns' @ r'"
    by (rule cancelsD [of E]) (use Cons.prems ns key in \<open>simp_all add: render_members_ended\<close>)
  then show ?case using Cons.IH [of ns'] Cons.prems ns key by (auto simp: prod_eq_iff)
qed

lemma render_kind:
  assumes "string_contract E" "number_contract E" "jvalue_ok v" "jvalue_ok w"
    and "render E v @ r = render E w @ r'"
  shows "kind v = kind w"
  using assms(5) by (metis append_Cons list.inject render_head [OF assms(1,2)] assms(3,4))

lemma array_cancel:
  assumes E: "string_contract E" "number_contract E"
    and vs: "\<forall>v\<in>set vs. cancels E v \<and> jvalue_ok v" and ws: "\<forall>w\<in>set ws. jvalue_ok w"
    and eq: "render E (JArray vs) @ r = render E (JArray ws) @ r'"
  shows "vs = ws \<and> r = r'"
proof -
  have start: "\<exists>b t. render E v = b # t \<and> b \<noteq> 93" if "jvalue_ok v" for v
    using render_head [OF E that] by metis
  show ?thesis
  proof (cases vs; cases ws)
    fix v vs' w ws'
    assume *: "vs = v # vs'" "ws = w # ws'"
    have "v = w \<and> render_items E vs' @ r = render_items E ws' @ r'"
      by (rule cancelsD [of E]) (use * vs ws eq in \<open>simp_all add: render_simps render_items_ended\<close>)
    with * vs ws show ?thesis using items_cancel [of vs' E ws' r r'] by simp
  next
    fix w ws'
    assume "vs = []" "ws = w # ws'"
    then show ?thesis using eq ws start [of w] by (auto simp: render_simps)
  next
    fix v vs'
    assume "vs = v # vs'" "ws = []"
    then show ?thesis using eq vs start [of v] by (auto simp: render_simps)
  qed (use eq in \<open>simp add: render_simps\<close>)
qed

lemma object_cancel:
  assumes E: "string_contract E" "number_contract E"
    and ms: "\<forall>m\<in>set ms. cancels E (snd m)" and ok: "jvalue_ok (JObject ms)" "jvalue_ok (JObject ns)"
    and eq: "render E (JObject ms) @ r = render E (JObject ns) @ r'"
  shows "ms = ns \<and> r = r'"
proof -
  have start: "\<exists>t. json_string_bytes E k = 34 # t" for k
    using json_string_bytes_nonempty [OF E(1)] by metis
  have sorted: "sorted_wrt (<) (map fst ms)" "sorted_wrt (<) (map fst ns)"
    using ok by simp_all
  show ?thesis
  proof (cases ms; cases ns)
    fix m ms' n ns'
    assume *: "ms = m # ms'" "ns = n # ns'"
    have "json_string_bytes E (fst m) @ 58 # render E (snd m) @ render_members E ms' @ r =
        json_string_bytes E (fst n) @ 58 # render E (snd n) @ render_members E ns' @ r'"
      using eq * sorted by (simp add: render_object)
    note key = json_string_bytes_cancel [OF E(1) this]
    have "snd m = snd n \<and> render_members E ms' @ r = render_members E ns' @ r'"
      by (rule cancelsD [of E]) (use key * ms ok in \<open>simp_all add: render_members_ended\<close>)
    with key * ms ok show ?thesis
      using members_cancel [OF E(1), of ms' ns' r r'] by (simp add: prod_eq_iff)
  next
    fix n ns'
    assume *: "ms = []" "ns = n # ns'"
    then show ?thesis using eq sorted start [of "fst n"] by (auto simp: render_object)
  next
    fix m ms'
    assume *: "ms = m # ms'" "ns = []"
    then show ?thesis using eq sorted start [of "fst m"] by (auto simp: render_object)
  qed (use eq sorted in \<open>simp add: render_object\<close>)
qed

lemma render_cancels:
  assumes E: "string_contract E" "number_contract E"
  shows "cancels E v"
proof (induction v)
  case JNull
  show ?case
    unfolding cancels_def
  proof (intro allI impI)
    fix w r r'
    assume "jvalue_ok w" "render E JNull @ r = render E w @ r'"
    moreover from this have "kind w = 0" using render_kind [OF E, of JNull w] by simp
    ultimately show "JNull = w \<and> r = r'" by (cases w) (simp_all add: render_simps)
  qed
next
  case (JBool b)
  show ?case
    unfolding cancels_def
  proof (intro allI impI)
    fix w r r'
    assume "jvalue_ok w" "render E (JBool b) @ r = render E w @ r'"
    moreover from this have "kind w = 1" using render_kind [OF E, of "JBool b" w] by simp
    ultimately show "JBool b = w \<and> r = r'"
      by (cases w) (simp_all add: render_simps split: if_splits)
  qed
next
  case (JNumber n)
  show ?case
    unfolding cancels_def
  proof (intro allI impI)
    fix w r r'
    assume *: "jvalue_ok (JNumber n)" "jvalue_ok w" "ended r" "ended r'"
      "render E (JNumber n) @ r = render E w @ r'"
    then have "kind w = 2" using render_kind [OF E, of "JNumber n" w] by simp
    then obtain m where w: "w = JNumber m" by (cases w) simp_all
    then have "number_text E n = number_text E m \<and> r = r'"
      using number_prefix [OF E(2) *(3,4)] *(5) by (simp add: render_simps)
    with E(2) * w show "JNumber n = w \<and> r = r'"
      by (auto simp: number_contract_def dest: inj_onD)
  qed
next
  case (JString s)
  show ?case
    unfolding cancels_def
  proof (intro allI impI)
    fix w r r'
    assume *: "jvalue_ok (JString s)" "jvalue_ok w" "render E (JString s) @ r = render E w @ r'"
    then have "kind w = 3" using render_kind [OF E, of "JString s" w] by simp
    then obtain t where w: "w = JString t" by (cases w) simp_all
    with * show "JString s = w \<and> r = r'"
      using json_string_bytes_cancel [OF E(1), of s r t r'] by (simp add: render_simps)
  qed
next
  case (JArray vs)
  show ?case
    unfolding cancels_def
  proof (intro allI impI)
    fix w r r'
    assume *: "jvalue_ok (JArray vs)" "jvalue_ok w" "render E (JArray vs) @ r = render E w @ r'"
    then have "kind w = 4" using render_kind [OF E, of "JArray vs" w] by simp
    then obtain ws where w: "w = JArray ws" by (cases w) simp_all
    with * JArray show "JArray vs = w \<and> r = r'"
      using array_cancel [OF E, of vs ws r r'] by simp
  qed
next
  case (JObject ms)
  show ?case
    unfolding cancels_def
  proof (intro allI impI)
    fix w r r'
    assume *: "jvalue_ok (JObject ms)" "jvalue_ok w" "render E (JObject ms) @ r = render E w @ r'"
    then have "kind w = 5" using render_kind [OF E, of "JObject ms" w] by simp
    then obtain ns where w: "w = JObject ns" by (cases w) simp_all
    with * JObject show "JObject ms = w \<and> r = r'"
      using object_cancel [OF E, of ms ns r r'] by (auto simp: snds.simps)
  qed
qed

text \<open>
  C38: two well-formed JSON values with the same canonical bytes are equal, so that a digest over the
  bytes is a digest over the value.
\<close>

theorem canonical_bytes_inj:
  assumes "string_contract E" "number_contract E" "jvalue_ok v" "jvalue_ok w"
    and "canonical_json_bytes E Inr v = canonical_json_bytes E Inr w"
  shows "v = w"
  using cancelsD [OF render_cancels [OF assms(1,2)], of v "[]" w "[]"] assms(3-)
  by (simp add: canonical_json_bytes_def canonical_json_value_def write_bytes)

theorem canonical_bytes_inj_witness:
  "JObject [(''a'', JNumber (PosInt 1))] = JObject [(''a'', JNumber (PosInt 1))]"
  by (rule canonical_bytes_inj [OF plain_string_contract plain_number_contract])
     (simp_all add: u64_bound_def)

lemma canonical_json_digest_eq:
  "hasher_contract E \<Longrightarrow> canonical_json_digest E ser v =
     map_sum Json (\<lambda>j. sha256 E (render E j)) (ser v)"
  by (cases "ser v")
     (simp_all add: canonical_json_digest_def canonical_json_value_def write_chunks hasher_contract_def
       render_def)

text \<open>
  \<open>no_collision E v w\<close>: the canonical texts of \<open>v\<close> and \<open>w\<close> are not a SHA-256 collision.
\<close>

definition no_collision :: "'h ext \<Rightarrow> jvalue \<Rightarrow> jvalue \<Rightarrow> bool" where
  "no_collision E v w \<longleftrightarrow> (sha256 E (render E v) = sha256 E (render E w) \<longrightarrow> render E v = render E w)"

lemma canonical_digest_inj:
  assumes "hasher_contract E" "string_contract E" "number_contract E" "jvalue_ok v" "jvalue_ok w"
    and "no_collision E v w" "canonical_json_digest E Inr v = canonical_json_digest E Inr w"
  shows "v = w"
  using cancelsD [OF render_cancels [OF assms(2,3)], of v "[]" w "[]"] assms
  by (simp add: canonical_json_digest_eq no_collision_def)

text \<open>
  The members of an object are written in key order whatever their order in memory, so two
  objects that hold the same members have the same canonical bytes.
\<close>

theorem canonical_member_order:
  assumes "distinct (map fst ms)" "mset ms = mset ns"
  shows "canonical_json_bytes E Inr (JObject ms) = canonical_json_bytes E Inr (JObject ns)"
proof -
  have "sort_key fst ms = sort_key fst ns"
    using assms by (intro sort_key_inj_key_eq) (simp_all add: distinct_map)
  then show ?thesis
    by (simp add: canonical_json_bytes_def canonical_json_value_def)
qed

theorem canonical_member_order_witness:
  "canonical_json_bytes plain_ext Inr (JObject [(''b'', JNull), (''a'', JNull)]) =
   canonical_json_bytes plain_ext Inr (JObject [(''a'', JNull), (''b'', JNull)])"
  by (rule canonical_member_order) simp_all

end
