(* ===== verification/Json_Load.thy ===== *)
theory Json_Load
  imports Json_Canonical
begin

text \<open>
  The bounded decoder of \<open>baselineops-domain/src/load.rs\<close> and \<open>load/bounds.rs\<close>, and the traversal that
  \<open>validate.rs\<close> makes over typed parameter values. Both count the values of the document through a
  mutable counter, cut the recursion at a depth and look at every length on the way. The locale
  \<open>json_walk\<close> states what such a traversal is and proves once that it accepts exactly the values whose
  size, height and shape are within the bounds; both traversals interpret it.
\<close>

section \<open>Size, height and shape of a JSON value\<close>

fun jnodes :: "jvalue \<Rightarrow> nat" where
  "jnodes (JArray vs) = Suc (sum_list (map jnodes vs))"
| "jnodes (JObject ms) = Suc (sum_list (map (\<lambda>m. jnodes (snd m)) ms))"
| "jnodes _ = 1"

text \<open>\<open>jheight_le v h\<close>: no value inside \<open>v\<close> is nested in more than \<open>h\<close> containers of \<open>v\<close>.\<close>

fun jheight_le :: "jvalue \<Rightarrow> nat \<Rightarrow> bool" where
  "jheight_le (JArray vs) h \<longleftrightarrow> (\<forall>v\<in>set vs. 0 < h \<and> jheight_le v (h - 1))"
| "jheight_le (JObject ms) h \<longleftrightarrow> (\<forall>m\<in>set ms. 0 < h \<and> jheight_le (snd m) (h - 1))"
| "jheight_le _ h \<longleftrightarrow> True"

text \<open>
  The lengths: at most \<open>a\<close> elements in an array, at most \<open>b\<close> members in an object, and the predicates on
  string values and on property names.
\<close>

fun jshape :: "nat \<Rightarrow> nat \<Rightarrow> (string \<Rightarrow> bool) \<Rightarrow> (string \<Rightarrow> bool) \<Rightarrow> jvalue \<Rightarrow> bool" where
  "jshape a b str key (JString s) \<longleftrightarrow> str s"
| "jshape a b str key (JArray vs) \<longleftrightarrow> length vs \<le> a \<and> (\<forall>v\<in>set vs. jshape a b str key v)"
| "jshape a b str key (JObject ms) \<longleftrightarrow>
     length ms \<le> b \<and> (\<forall>m\<in>set ms. key (fst m) \<and> jshape a b str key (snd m))"
| "jshape a b str key _ \<longleftrightarrow> True"

section \<open>A bounded traversal\<close>

locale json_walk =
  fixes walk :: "nat \<Rightarrow> jvalue \<Rightarrow> nat \<Rightarrow> 'e + nat"
    and walk_list :: "nat \<Rightarrow> jvalue list \<Rightarrow> nat \<Rightarrow> 'e + nat"
    and walk_map :: "nat \<Rightarrow> (string \<times> jvalue) list \<Rightarrow> nat \<Rightarrow> 'e + nat"
    and max_n max_d max_a max_o :: nat
    and str_ok key_ok :: "string \<Rightarrow> bool"
  assumes walk_leaf: "kind v < 4 \<Longrightarrow> walk d v n = Inr n' \<longleftrightarrow>
      n' = Suc n \<and> Suc n \<le> max_n \<and> d \<le> max_d \<and> (\<forall>s. v = JString s \<longrightarrow> str_ok s)"
    and walk_array: "walk d (JArray vs) n = Inr n' \<longleftrightarrow>
      Suc n \<le> max_n \<and> d \<le> max_d \<and> length vs \<le> max_a \<and> walk_list (Suc d) vs (Suc n) = Inr n'"
    and walk_object: "walk d (JObject ms) n = Inr n' \<longleftrightarrow>
      Suc n \<le> max_n \<and> d \<le> max_d \<and> length ms \<le> max_o \<and> walk_map (Suc d) ms (Suc n) = Inr n'"
    and walk_list_Nil: "walk_list d [] n = Inr n"
    and walk_list_Cons: "walk_list d (v # vs) n = and_then (walk d v n) (walk_list d vs)"
    and walk_map_Nil: "walk_map d [] n = Inr n"
    and walk_map_Cons: "walk_map d ((k, v) # ms) n = Inr n' \<longleftrightarrow>
      key_ok k \<and> and_then (walk d v n) (walk_map d ms) = Inr n'"
begin

definition fits :: "nat \<Rightarrow> jvalue \<Rightarrow> bool" where
  "fits d v \<longleftrightarrow> d \<le> max_d \<and> jheight_le v (max_d - d) \<and> jshape max_a max_o str_ok key_ok v"

lemma walk_list_spec:
  assumes "\<forall>v\<in>set vs. \<forall>n n'. walk d v n = Inr n' \<longleftrightarrow>
    fits d v \<and> n' = n + jnodes v \<and> n' \<le> max_n"
  shows "walk_list d vs n = Inr n' \<longleftrightarrow> (\<forall>v\<in>set vs. fits d v) \<and>
    n' = n + sum_list (map jnodes vs) \<and> (vs = [] \<or> n' \<le> max_n)"
  using assms
proof (induction vs arbitrary: n)
  case (Cons v vs)
  then show ?case by (auto simp: walk_list_Cons res_simps)
qed (auto simp: walk_list_Nil)

lemma walk_map_spec:
  assumes "\<forall>m\<in>set ms. \<forall>n n'. walk d (snd m) n = Inr n' \<longleftrightarrow>
    fits d (snd m) \<and> n' = n + jnodes (snd m) \<and> n' \<le> max_n"
  shows "walk_map d ms n = Inr n' \<longleftrightarrow> (\<forall>m\<in>set ms. key_ok (fst m) \<and> fits d (snd m)) \<and>
    n' = n + sum_list (map (\<lambda>m. jnodes (snd m)) ms) \<and> (ms = [] \<or> n' \<le> max_n)"
  using assms
proof (induction ms arbitrary: n)
  case (Cons m ms)
  then show ?case by (cases m) (auto simp: walk_map_Cons res_simps)
qed (auto simp: walk_map_Nil)

lemma fits_array: "fits d (JArray vs) \<longleftrightarrow> d \<le> max_d \<and> length vs \<le> max_a \<and> (\<forall>v\<in>set vs. fits (Suc d) v)"
  by (auto simp: fits_def)

lemma fits_object: "fits d (JObject ms) \<longleftrightarrow>
    d \<le> max_d \<and> length ms \<le> max_o \<and> (\<forall>m\<in>set ms. key_ok (fst m) \<and> fits (Suc d) (snd m))"
  by (auto simp: fits_def)

theorem walk_spec:
  "walk d v n = Inr n' \<longleftrightarrow> fits d v \<and> n' = n + jnodes v \<and> n' \<le> max_n"
proof (induction v arbitrary: d n n')
  case (JArray vs)
  then have "\<forall>v\<in>set vs. \<forall>n n'. walk (Suc d) v n = Inr n' \<longleftrightarrow>
      fits (Suc d) v \<and> n' = n + jnodes v \<and> n' \<le> max_n"
    by blast
  from walk_list_spec [OF this] show ?case
    by (auto simp: walk_array fits_array)
next
  case (JObject ms)
  then have "\<forall>m\<in>set ms. \<forall>n n'. walk (Suc d) (snd m) n = Inr n' \<longleftrightarrow>
      fits (Suc d) (snd m) \<and> n' = n + jnodes (snd m) \<and> n' \<le> max_n"
    by (auto simp: snds.simps)
  from walk_map_spec [OF this] show ?case
    by (auto simp: walk_object fits_object)
qed (auto simp: walk_leaf fits_def)

end

section \<open>The bounds of untrusted documents\<close>

record json_load_limits =
  max_bytes :: usize
  max_depth :: usize
  max_object_entries :: usize
  max_array_entries :: usize
  max_string_bytes :: usize
  max_nodes :: usize

definition json_load_limits_default :: json_load_limits where
  "json_load_limits_default = \<lparr>max_bytes = 1024 * 1024, max_depth = 32, max_object_entries = 256,
     max_array_entries = 1024, max_string_bytes = 64 * 1024, max_nodes = 16 * 1024\<rparr>"

definition validate_node_count :: "json_load_limits \<Rightarrow> usize \<Rightarrow> domain_error + usize" where
  "validate_node_count limits nodes =
     (let nodes = nodes + 1 in
      if nodes > max_nodes limits then Inl (LimitExceeded ''JSON value count'' (max_nodes limits))
      else Inr nodes)"

definition validate_depth :: "usize \<Rightarrow> json_load_limits \<Rightarrow> domain_error + unit" where
  "validate_depth depth limits =
     (if depth > max_depth limits then Inl (LimitExceeded ''JSON nesting depth'' (max_depth limits))
      else Inr ())"

definition validate_string :: "string \<Rightarrow> json_load_limits \<Rightarrow> domain_error + unit" where
  "validate_string v limits =
     (if length v > max_string_bytes limits
      then Inl (LimitExceeded ''JSON string size'' (max_string_bytes limits)) else Inr ())"

definition validate_property_name :: "string \<Rightarrow> json_load_limits \<Rightarrow> domain_error + unit" where
  "validate_property_name key limits =
     (if length key > max_string_bytes limits
      then Inl (LimitExceeded ''JSON property name size'' (max_string_bytes limits)) else Inr ())"

text \<open>
  The counter \<open>nodes: &mut usize\<close> is threaded through the calls. \<open>bounds_array\<close> and \<open>bounds_object\<close> are the
  loops of \<open>validate_array\<close> and \<open>validate_object\<close>, whose length checks stand in the equations of the
  caller; the depth they pass on is \<open>depth + 1\<close>.
\<close>

fun validate_json_bounds :: "json_load_limits \<Rightarrow> usize \<Rightarrow> jvalue \<Rightarrow> usize \<Rightarrow> domain_error + usize"
  and bounds_array :: "json_load_limits \<Rightarrow> usize \<Rightarrow> jvalue list \<Rightarrow> usize \<Rightarrow> domain_error + usize"
  and bounds_object ::
    "json_load_limits \<Rightarrow> usize \<Rightarrow> (string \<times> jvalue) list \<Rightarrow> usize \<Rightarrow> domain_error + usize"
where
  "validate_json_bounds limits depth v nodes =
     and_then (validate_node_count limits nodes) (\<lambda>nodes.
     and_then (validate_depth depth limits) (\<lambda>_.
       case v of
         JString s \<Rightarrow> and_then (validate_string s limits) (\<lambda>_. Inr nodes)
       | JArray vs \<Rightarrow>
           if length vs > max_array_entries limits
           then Inl (LimitExceeded ''JSON array entry count'' (max_array_entries limits))
           else bounds_array limits (depth + 1) vs nodes
       | JObject ms \<Rightarrow>
           if length ms > max_object_entries limits
           then Inl (LimitExceeded ''JSON object entry count'' (max_object_entries limits))
           else bounds_object limits (depth + 1) ms nodes
       | _ \<Rightarrow> Inr nodes))"
| "bounds_array limits depth [] nodes = Inr nodes"
| "bounds_array limits depth (v # vs) nodes =
     and_then (validate_json_bounds limits depth v nodes) (bounds_array limits depth vs)"
| "bounds_object limits depth [] nodes = Inr nodes"
| "bounds_object limits depth ((k, v) # ms) nodes =
     and_then (validate_property_name k limits) (\<lambda>_.
     and_then (validate_json_bounds limits depth v nodes) (bounds_object limits depth ms))"

declare validate_json_bounds.simps [simp del]

lemmas load_check_defs = validate_node_count_def validate_depth_def validate_string_def
  validate_property_name_def

lemma if_Inl_Inr_iff [res_simps]: "(if b then Inl e else r) = Inr a \<longleftrightarrow> \<not> b \<and> r = Inr a"
  by simp

interpretation load_walk: json_walk
  "validate_json_bounds limits" "bounds_array limits" "bounds_object limits"
  "max_nodes limits" "max_depth limits" "max_array_entries limits" "max_object_entries limits"
  "\<lambda>s. length s \<le> max_string_bytes limits" "\<lambda>s. length s \<le> max_string_bytes limits"
proof unfold_locales
  fix v d n n'
  assume "kind v < 4"
  then show "validate_json_bounds limits d v n = Inr n' \<longleftrightarrow> n' = Suc n \<and> Suc n \<le> max_nodes limits \<and>
      d \<le> max_depth limits \<and> (\<forall>s. v = JString s \<longrightarrow> length s \<le> max_string_bytes limits)"
    by (cases v)
       (auto simp: validate_json_bounds.simps load_check_defs res_simps Let_def split: if_splits)
qed (auto simp: validate_json_bounds.simps load_check_defs res_simps Let_def not_less
      split: if_splits)

text \<open>What the limits promise of an accepted document, without reference to the traversal.\<close>

definition within_limits :: "json_load_limits \<Rightarrow> jvalue \<Rightarrow> bool" where
  "within_limits limits v \<longleftrightarrow>
     jnodes v \<le> max_nodes limits \<and> jheight_le v (max_depth limits) \<and>
     jshape (max_array_entries limits) (max_object_entries limits)
       (\<lambda>s. length s \<le> max_string_bytes limits) (\<lambda>s. length s \<le> max_string_bytes limits) v"

lemma json_bounds_spec:
  "validate_json_bounds limits 0 v 0 = Inr n \<longleftrightarrow> within_limits limits v \<and> n = jnodes v"
  using load_walk.walk_spec [of limits 0 v 0 n]
  by (auto simp: load_walk.fits_def within_limits_def)

text \<open>
  The recursive bound check, started with depth and counter zero, accepts a document exactly when
  its number of values, its nesting depth and the lengths of its arrays, objects, strings and property
  names are within the limits, and then has counted every value once.
\<close>

theorem validate_json_bounds_iff:
  "validate_json_bounds limits 0 v 0 = Inr n \<longleftrightarrow> within_limits limits v \<and> n = jnodes v"
  by (rule json_bounds_spec)

section \<open>Decoding\<close>

text \<open>
  \<open>std::str::from_utf8\<close>: the well-formed byte sequences of the Unicode standard, which exclude overlong
  forms, surrogates and code points above U+10FFFF.
\<close>

definition cont :: "byte \<Rightarrow> bool" where
  "cont b \<longleftrightarrow> 128 \<le> b \<and> b \<le> 191"

fun utf8_valid :: "byte list \<Rightarrow> bool" where
  "utf8_valid [] \<longleftrightarrow> True"
| "utf8_valid (a # r) \<longleftrightarrow>
     (if a < 128 then utf8_valid r
      else case r of
        [] \<Rightarrow> False
      | b # s \<Rightarrow>
          if 194 \<le> a \<and> a \<le> 223 then cont b \<and> utf8_valid s
          else (case s of
              [] \<Rightarrow> False
            | c # t \<Rightarrow>
                if 224 \<le> a \<and> a \<le> 239 then
                  cont b \<and> (a = 224 \<longrightarrow> 160 \<le> b) \<and> (a = 237 \<longrightarrow> b \<le> 159) \<and> cont c \<and> utf8_valid t
                else (case t of
                    [] \<Rightarrow> False
                  | d # u \<Rightarrow>
                      240 \<le> a \<and> a \<le> 244 \<and> cont b \<and> (a = 240 \<longrightarrow> 144 \<le> b) \<and> (a = 244 \<longrightarrow> b \<le> 143) \<and>
                      cont c \<and> cont d \<and> utf8_valid u)))"

definition text_of :: "byte list \<Rightarrow> string" where
  "text_of bs = map (\<lambda>b. char_of (unat b)) bs"

definition from_utf8 :: "byte list \<Rightarrow> domain_error + string" where
  "from_utf8 bs = (if utf8_valid bs then Inr (text_of bs) else Inl Utf8)"

lemma as_bytes_text_of [simp]: "as_bytes (text_of bs) = bs"
proof -
  have "unat b < 256" for b :: byte
    using unsigned_less [of b, where ?'a = nat] by simp
  then have "of_char (char_of (unat b) :: char) = b" for b :: byte
    by (simp flip: of_nat_of_char [where ?'a = byte])
  then show ?thesis
    by (simp add: as_bytes_def text_of_def comp_def)
qed

text \<open>
  \<open>parse\<close> is \<open>serde_json::from_str::<Value>\<close> and \<open>de\<close> is \<open>serde_json::from_value::<T>\<close> for the target type.
\<close>

definition load_json ::
    "(string \<Rightarrow> string + jvalue) \<Rightarrow> (jvalue \<Rightarrow> string + 't) \<Rightarrow> byte list \<Rightarrow> json_load_limits \<Rightarrow>
     domain_error + 't" where
  "load_json parse de bytes limits =
     (if length bytes > max_bytes limits
      then Inl (LimitExceeded ''document byte size'' (max_bytes limits))
      else
        and_then (from_utf8 bytes) (\<lambda>text.
        and_then (map_err Json (parse text)) (\<lambda>v.
        and_then (validate_json_bounds limits 0 v 0) (\<lambda>_.
          map_err Json (de v)))))"

text \<open>
  \<open>load_json_file\<close> on the outcome of opening the file and reading it to its end: an error, or the bytes
  of the file, of which \<open>take\<close> lets at most \<open>max_bytes + 1\<close> through.
\<close>

definition load_json_file ::
    "(string \<Rightarrow> string + jvalue) \<Rightarrow> (jvalue \<Rightarrow> string + 't) \<Rightarrow> string + byte list \<Rightarrow> json_load_limits \<Rightarrow>
     domain_error + 't" where
  "load_json_file parse de file limits =
     and_then (map_err Read file) (\<lambda>content.
       load_json parse de (take (min (max_bytes limits + 1) (u64_bound - 1)) content) limits)"

text \<open>
  A document is decoded exactly when it is no longer than the byte limit, is UTF-8, parses to a
  JSON value within every structural limit, and that value satisfies the typed contract; the result is
  then the typed value.
\<close>

theorem load_json_Inr_iff:
  "load_json parse de bytes limits = Inr t \<longleftrightarrow>
     length bytes \<le> max_bytes limits \<and> utf8_valid bytes \<and>
     (\<exists>v. parse (text_of bytes) = Inr v \<and> within_limits limits v \<and> de v = Inr t)"
  by (auto simp: load_json_def from_utf8_def res_simps json_bounds_spec)

text \<open>
  Reading at most one byte more than the limit is enough: a file is accepted, rejected and decoded
  as its whole content would be.
\<close>

theorem load_json_file_whole:
  assumes "length content < u64_bound" "max_bytes limits < u64_bound"
  shows "load_json_file parse de (Inr content) limits = load_json parse de content limits"
proof (cases "length content > max_bytes limits")
  case True
  then have "length (take (min (max_bytes limits + 1) (u64_bound - 1)) content) > max_bytes limits"
    using assms by auto
  with True show ?thesis by (simp add: load_json_file_def load_json_def)
qed (use assms in \<open>simp add: load_json_file_def\<close>)

theorem load_json_file_whole_witness:
  "load_json_file (\<lambda>_. Inr JNull) Inr (Inr [110, 117, 108, 108]) json_load_limits_default =
   load_json (\<lambda>_. Inr JNull) Inr [110, 117, 108, 108] json_load_limits_default"
  by (rule load_json_file_whole) (simp_all add: u64_bound_def json_load_limits_default_def)

end
