(* ===== verification/Kahn.thy ===== *)
theory Kahn
  imports Rust_Prelude
begin

text \<open>
  The worklist that \<open>validate/graph.rs\<close> and \<open>scheduler/order.rs\<close> share: a vector of open dependency
  counts, a \<open>BTreeSet\<close> of the positions that are ready, from which the smallest is taken, and a loop
  that discharges the edges of a finished position. The theory states the loop over positions and, in
  the locale \<open>dependency_index\<close>, proves its correctness from the one law that relates the index of
  dependents to the dependency lists.
\<close>

section \<open>The loop over the dependents of a position\<close>

text \<open>
  \<open>remaining[d] -= 1; if remaining[d] == 0 { ready.insert(d) }\<close> for every dependent. \<open>None\<close> stands for
  an index out of range and for a counter that would drop below zero. A \<open>BTreeSet\<close> is the increasing
  list of its elements.
\<close>

fun discharge :: "nat list \<Rightarrow> nat list \<times> nat list \<Rightarrow> (nat list \<times> nat list) option" where
  "discharge [] (remaining, ready) = Some (remaining, ready)"
| "discharge (d # ds) (remaining, ready) =
     (if length remaining \<le> d \<or> remaining ! d = 0 then None
      else
        let remaining = remaining[d := remaining ! d - 1];
            ready = (if remaining ! d = 0 then insort_insert d ready else ready)
        in discharge ds (remaining, ready))"

lemma length_insort_insert: "length (insort_insert x xs) \<le> Suc (length xs)"
  by (simp add: insort_insert_key_def)

lemma sum_list_decr:
  "d < length xs \<Longrightarrow> 0 < xs ! d \<Longrightarrow> Suc (sum_list (xs[d := xs ! d - 1])) = sum_list (xs :: nat list)"
proof (induction xs arbitrary: d)
  case (Cons x xs)
  show ?case
  proof (cases d)
    case (Suc k)
    then show ?thesis using Cons.IH [of k] Cons.prems by (simp flip: add_Suc_right)
  qed (use Cons.prems in simp)
qed simp

lemma discharge_measure:
  "discharge ds (rem, ready) = Some (rem', ready') \<Longrightarrow>
     sum_list rem' + length ready' \<le> sum_list rem + length ready"
proof (induction ds arbitrary: rem ready)
  case (Cons d ds)
  let ?rem = "rem[d := rem ! d - 1]"
  let ?ready = "if ?rem ! d = 0 then insort_insert d ready else ready"
  have d: "d < length rem" "0 < rem ! d"
    using Cons.prems by (auto split: if_splits)
  have "sum_list rem' + length ready' \<le> sum_list ?rem + length ?ready"
    using Cons.prems d by (intro Cons.IH) (simp add: Let_def)
  then show ?case
    using sum_list_decr [OF d] length_insort_insert [of d ready] by (simp split: if_splits)
qed simp

lemma discharge_subset:
  "discharge ds (rem, ready) = Some (rem', ready') \<Longrightarrow> set ready' \<subseteq> set ready \<union> set ds"
proof (induction ds arbitrary: rem ready)
  case (Cons d ds)
  let ?rem = "rem[d := rem ! d - 1]"
  let ?ready = "if ?rem ! d = 0 then insort_insert d ready else ready"
  have "set ready' \<subseteq> set ?ready \<union> set ds"
    using Cons.prems by (intro Cons.IH [of ?rem]) (auto simp: Let_def split: if_splits)
  then show ?case by (auto simp: set_insort_insert split: if_splits)
qed simp

section \<open>The worklist\<close>

function worklist ::
    "(nat \<Rightarrow> nat list) \<Rightarrow> nat list \<Rightarrow> nat list \<Rightarrow> nat list \<Rightarrow> (nat list \<times> nat list) option" where
  "worklist dep rem ready order = (case ready of
     [] \<Rightarrow> Some (order, rem)
   | p # ready' \<Rightarrow> (case discharge (dep p) (rem, ready') of
       None \<Rightarrow> None
     | Some (rem', ready'') \<Rightarrow> worklist dep rem' ready'' (order @ [p])))"
  by pat_completeness auto
termination
proof (relation "measure (\<lambda>(dep, rem, ready, order). sum_list rem + length ready)", goal_cases)
  case (2 dep rem ready order p ready' x rem' ready'')
  then show ?case using discharge_measure [of "dep p" rem ready' rem' ready''] by simp
qed simp

declare worklist.simps [simp del]

text \<open>The positions whose count is zero, in increasing order.\<close>

definition zero_positions :: "nat list \<Rightarrow> nat list" where
  "zero_positions rem = map fst (filter (\<lambda>(p, r). r = 0) (enumerate 0 rem))"

lemma zero_positions_eq: "zero_positions rem = filter (\<lambda>p. rem ! p = 0) [0..<length rem]"
proof -
  have "zero_positions rem = map fst (filter (\<lambda>x. snd x = 0) (enumerate 0 rem))"
    by (simp add: zero_positions_def case_prod_beta')
  also have "\<dots> = filter (\<lambda>p. rem ! p = 0) (map fst (enumerate 0 rem))"
    unfolding filter_map comp_def
    by (intro arg_cong [where f = "map fst"] filter_cong) (auto simp: in_set_enumerate_eq)
  finally show ?thesis by simp
qed

section \<open>What the discharge loop does\<close>

lemma count_list_pos_iff: "0 < count_list xs x \<longleftrightarrow> x \<in> set xs"
  using count_list_0_iff [of xs x] by auto

lemma discharge_spec:
  assumes "set ds \<subseteq> {..<length rem}" "\<forall>q. count_list ds q \<le> rem ! q \<or> length rem \<le> q"
    "sorted ready" "distinct ready"
  obtains rem' ready' where "discharge ds (rem, ready) = Some (rem', ready')"
    "length rem' = length rem" "\<forall>q < length rem. rem' ! q = rem ! q - count_list ds q"
    "sorted ready'" "distinct ready'"
    "set ready' = set ready \<union> {q \<in> set ds. rem ! q = count_list ds q}"
  using assms
proof (induction ds arbitrary: rem ready thesis)
  case (Cons d ds)
  let ?rem = "rem[d := rem ! d - 1]"
  let ?ready = "if ?rem ! d = 0 then insort_insert d ready else ready"
  have d: "d < length rem" "0 < rem ! d"
    using Cons.prems(2) Cons.prems(3) [rule_format, of d] by auto
  have "\<forall>q. count_list ds q \<le> ?rem ! q \<or> length ?rem \<le> q"
  proof
    fix q
    show "count_list ds q \<le> ?rem ! q \<or> length ?rem \<le> q"
      using Cons.prems(3) [rule_format, of q] d by (auto simp: nth_list_update split: if_splits)
  qed
  moreover have "sorted ?ready" "distinct ?ready"
    using Cons.prems by (simp_all add: sorted_insort_insert distinct_insort_insert)
  moreover have "set ds \<subseteq> {..<length ?rem}"
    using Cons.prems by simp
  ultimately obtain rem' ready' where *: "discharge ds (?rem, ?ready) = Some (rem', ready')"
    "length rem' = length ?rem" "\<forall>q < length ?rem. rem' ! q = ?rem ! q - count_list ds q"
    "sorted ready'" "distinct ready'"
    "set ready' = set ?ready \<union> {q \<in> set ds. ?rem ! q = count_list ds q}"
    using Cons.IH [of ?rem ?ready] by blast
  have "set ready' = set ready \<union> {q \<in> set (d # ds). rem ! q = count_list (d # ds) q}"
  proof -
    have "?rem ! q = count_list ds q \<longleftrightarrow> rem ! q = count_list (d # ds) q" if "q \<in> set ds" for q
      using that d Cons.prems(3) [rule_format, of q] by (auto simp: nth_list_update)
    moreover have "d \<notin> set ds \<Longrightarrow> count_list ds d = 0"
      by (simp add: count_list_0_iff)
    moreover have "?rem ! d = 0 \<and> d \<in> set ds \<longrightarrow> False"
      using Cons.prems(3) [rule_format, of d] d count_list_0_iff [of ds d] by auto
    ultimately show ?thesis
      using d by (auto simp: *(6) set_insort_insert count_list_pos_iff)
  qed
  moreover have "\<forall>q < length rem. rem' ! q = rem ! q - count_list (d # ds) q"
    using *(3) d by (auto simp: nth_list_update)
  moreover have "discharge (d # ds) (rem, ready) = Some (rem', ready')"
    using *(1) d by (simp add: Let_def)
  ultimately show ?case
    using *(2,4,5) by (intro Cons.prems(1)) simp_all
qed auto

section \<open>Correctness from the law of the index\<close>

lemma filter_notin_insert:
  "p \<notin> V \<Longrightarrow> length (filter (\<lambda>x. x \<notin> insert p V) xs) + count_list xs p = length (filter (\<lambda>x. x \<notin> V) xs)"
  by (induction xs) auto

locale dependency_index =
  fixes n :: nat and dep preds :: "nat \<Rightarrow> nat list"
  assumes dep_range: "p < n \<Longrightarrow> set (dep p) \<subseteq> {..<n}"
    and preds_range: "q < n \<Longrightarrow> set (preds q) \<subseteq> {..<n}"
    and edges: "p < n \<Longrightarrow> q < n \<Longrightarrow> count_list (dep p) q = count_list (preds q) p"
begin

definition open_count :: "nat set \<Rightarrow> nat \<Rightarrow> nat" where
  "open_count V q = length (filter (\<lambda>p. p \<notin> V) (preds q))"

definition ordered :: "nat list \<Rightarrow> bool" where
  "ordered order \<longleftrightarrow> (\<forall>i < length order. set (preds (order ! i)) \<subseteq> set (take i order))"

definition ranked :: bool where
  "ranked \<longleftrightarrow> (\<exists>rank :: nat \<Rightarrow> nat. \<forall>q < n. \<forall>p \<in> set (preds q). rank p < rank q)"

definition inv :: "nat list \<Rightarrow> nat list \<Rightarrow> nat list \<Rightarrow> bool" where
  "inv order rem ready \<longleftrightarrow> length rem = n \<and> set order \<subseteq> {..<n} \<and> distinct order \<and> ordered order \<and>
     sorted ready \<and> distinct ready \<and> (\<forall>q < n. rem ! q = open_count (set order) q) \<and>
     set ready = {q. q < n \<and> q \<notin> set order \<and> rem ! q = 0}"

lemma open_count_insert:
  "p \<notin> V \<Longrightarrow> open_count (insert p V) q = open_count V q - count_list (preds q) p"
  "p \<notin> V \<Longrightarrow> count_list (preds q) p \<le> open_count V q"
  using filter_notin_insert [of p V "preds q"] by (simp_all add: open_count_def)

lemma open_count_zero: "open_count V q = 0 \<longleftrightarrow> set (preds q) \<subseteq> V"
  by (auto simp: open_count_def filter_empty_conv)

lemma ordered_closed: "ordered order \<Longrightarrow> q \<in> set order \<Longrightarrow> set (preds q) \<subseteq> set order"
  unfolding ordered_def in_set_conv_nth by (meson in_set_takeD subset_eq)

lemma ordered_snoc: "ordered order \<Longrightarrow> set (preds p) \<subseteq> set order \<Longrightarrow> ordered (order @ [p])"
  by (auto simp: ordered_def nth_append less_Suc_eq)

lemma inv_step:
  assumes "inv order rem (p # ready)"
  obtains rem' ready' where "discharge (dep p) (rem, ready) = Some (rem', ready')"
    "inv (order @ [p]) rem' ready'"
proof -
  have len: "length rem = n" and rem: "\<And>q. q < n \<Longrightarrow> rem ! q = open_count (set order) q"
    and set: "set (p # ready) = {q. q < n \<and> q \<notin> set order \<and> rem ! q = 0}"
    and misc: "sorted ready" "distinct ready" "ordered order" "distinct order" "set order \<subseteq> {..<n}"
    and notin: "p \<notin> set ready"
    using assms unfolding inv_def by simp_all
  have "p \<in> {q. q < n \<and> q \<notin> set order \<and> rem ! q = 0}"
    unfolding set [symmetric] by simp
  then have p: "p < n" "p \<notin> set order" "rem ! p = 0"
    by simp_all
  have ready: "set ready = {q. q < n \<and> q \<notin> set order \<and> rem ! q = 0} - {p}"
    unfolding set [symmetric] using notin by simp
  have p0: "open_count (set order) p = 0" using rem p by simp
  have count: "count_list (dep p) q \<le> rem ! q" if "q < n" for q
    using that p rem open_count_insert(2) by (simp add: edges)
  have sub: "set (dep p) \<subseteq> {..<length rem}"
    using dep_range [OF p(1)] len by simp
  have "\<forall>q. count_list (dep p) q \<le> rem ! q \<or> length rem \<le> q"
    using count len by (metis not_le)
  from discharge_spec [OF sub this misc(1,2)]
  obtain rem' ready' where D: "discharge (dep p) (rem, ready) = Some (rem', ready')"
    "length rem' = length rem" "\<forall>q < length rem. rem' ! q = rem ! q - count_list (dep p) q"
    "sorted ready'" "distinct ready'"
    "set ready' = set ready \<union> {q \<in> set (dep p). rem ! q = count_list (dep p) q}"
    .
  have rem_eq: "rem' ! q = rem ! q - count_list (dep p) q" if "q < n" for q
    using D(3) len that by simp
  have rem': "rem' ! q = open_count (set (order @ [p])) q" if "q < n" for q
    using that p by (simp add: rem_eq rem edges open_count_insert(1))
  have fresh: "q \<notin> set (order @ [p])" if "q \<in> set (dep p)" "rem ! q = count_list (dep p) q" for q
  proof -
    have "q < n" "0 < rem ! q"
      using that dep_range [OF p(1)] by (auto simp: count_list_pos_iff)
    moreover from this have "q \<notin> set order"
      using rem [of q] ordered_closed [OF misc(3), of q] open_count_zero [of "set order" q] by auto
    ultimately show ?thesis using p by auto
  qed
  have "q \<in> set ready' \<longleftrightarrow> q < n \<and> q \<notin> set (order @ [p]) \<and> rem' ! q = 0" for q
  proof (cases "q \<in> set (dep p)")
    case True
    then have "q < n" "0 < count_list (dep p) q" "count_list (dep p) q \<le> rem ! q"
      using dep_range [OF p(1)] count by (auto simp: count_list_pos_iff)
    with True show ?thesis using fresh [of q] by (auto simp: D(6) ready rem_eq)
  next
    case False
    then have "count_list (dep p) q = 0" by (simp add: count_list_0_iff)
    with False show ?thesis by (auto simp: D(6) ready rem_eq)
  qed
  then have "set ready' = {q. q < n \<and> q \<notin> set (order @ [p]) \<and> rem' ! q = 0}"
    by blast
  moreover have "ordered (order @ [p])"
    using p0 misc by (intro ordered_snoc) (simp_all add: open_count_zero)
  ultimately have "inv (order @ [p]) rem' ready'"
    using p misc D(2,4,5) len rem' by (simp add: inv_def)
  with D(1) that show ?thesis by blast
qed

lemma worklist_inv:
  "inv order rem ready \<Longrightarrow>
     \<exists>order' rem'. worklist dep rem ready order = Some (order', rem') \<and> inv order' rem' []"
proof (induction "sum_list rem + length ready" arbitrary: rem ready order rule: less_induct)
  case less
  show ?case
  proof (cases ready)
    case Nil
    then show ?thesis using less.prems by (simp add: worklist.simps)
  next
    case (Cons p ready')
    then obtain rem' ready'' where *: "discharge (dep p) (rem, ready') = Some (rem', ready'')"
      "inv (order @ [p]) rem' ready''"
      using inv_step less.prems by metis
    then have "sum_list rem' + length ready'' < sum_list rem + length ready"
      using discharge_measure [OF *(1)] Cons by simp
    from less.hyps [OF this *(2)] show ?thesis
      using Cons * by (simp add: worklist.simps [of dep rem])
  qed
qed

lemma inv_init:
  assumes "length rem = n" "\<And>q. q < n \<Longrightarrow> rem ! q = length (preds q)"
  shows "inv [] rem (zero_positions rem)"
  using assms
  by (auto simp: inv_def zero_positions_eq ordered_def open_count_def sorted_wrt_filter)

lemma complete_iff_ranked:
  assumes "inv order rem []"
  shows "length order = n \<longleftrightarrow> ranked"
proof
  have sub: "set order \<subseteq> {..<n}" "distinct order" using assms by (auto simp: inv_def)
  assume len: "length order = n"
  then have all: "set order = {..<n}"
    using sub by (metis card_subset_eq card_lessThan distinct_card finite_lessThan)
  define rank where "rank q = (THE i. i < n \<and> order ! i = q)" for q
  have rank: "rank (order ! i) = i" if "i < n" for i
    unfolding rank_def using that len sub by (auto simp: nth_eq_iff_index_eq)
  have "rank p < rank q" if "q < n" and pq: "p \<in> set (preds q)" for p q
  proof -
    from \<open>q < n\<close> all obtain i where i: "i < n" "order ! i = q"
      by (metis in_set_conv_nth len lessThan_iff)
    then have "p \<in> set (take i order)"
      using assms pq len by (auto simp: inv_def ordered_def)
    then obtain j where "j < i" "order ! j = p"
      by (auto simp: in_set_conv_nth)
    with i rank show ?thesis by auto
  qed
  then show ranked unfolding ranked_def by blast
next
  assume ranked
  then obtain rank :: "nat \<Rightarrow> nat" where rank: "\<And>p q. q < n \<Longrightarrow> p \<in> set (preds q) \<Longrightarrow> rank p < rank q"
    unfolding ranked_def by blast
  have "q \<in> set order" if "q < n" for q
    using that
  proof (induction "rank q" arbitrary: q rule: less_induct)
    case less
    then have "set (preds q) \<subseteq> set order"
      using rank preds_range by blast
    then show ?case
      using assms less.prems by (auto simp: inv_def open_count_zero [symmetric])
  qed
  then have "set order = {..<n}" using assms by (auto simp: inv_def)
  then show "length order = n"
    using assms by (metis card_lessThan distinct_card inv_def)
qed

theorem worklist_correct:
  assumes "length rem = n" "\<And>q. q < n \<Longrightarrow> rem ! q = length (preds q)"
  obtains order rem' where "worklist dep rem (zero_positions rem) [] = Some (order, rem')"
    "distinct order" "set order \<subseteq> {..<n}" "ordered order" "length order = n \<longleftrightarrow> ranked"
    "length rem' = n" "\<forall>q < n. rem' ! q = 0 \<longleftrightarrow> q \<in> set order"
    "\<forall>q < n. set (preds q) \<subseteq> set order \<longrightarrow> q \<in> set order"
proof -
  obtain order rem' where *: "worklist dep rem (zero_positions rem) [] = Some (order, rem')"
    "inv order rem' []"
    using worklist_inv inv_init [OF assms] by blast
  have "rem' ! q = 0 \<longleftrightarrow> q \<in> set order" if "q < n" for q
    using * that ordered_closed by (auto simp: inv_def open_count_zero [symmetric])
  moreover have "q \<in> set order" if "q < n" "set (preds q) \<subseteq> set order" for q
    using * that by (auto simp: inv_def open_count_zero [symmetric])
  ultimately show ?thesis
    using * complete_iff_ranked [OF *(2)] that by (auto simp: inv_def)
qed

end

section \<open>Items that name their dependencies\<close>

text \<open>
  Items have an identifier and a list of the identifiers they depend on. \<open>dependents_of\<close> lists the
  positions that depend on an identifier, in the order in which both indices push them.
\<close>

definition dependents_of :: "('a \<Rightarrow> 'k list) \<Rightarrow> 'a list \<Rightarrow> 'k \<Rightarrow> nat list" where
  "dependents_of deps items d =
     concat (map (\<lambda>(p, item). replicate (count_list (deps item) d) p) (enumerate 0 items))"

definition position_of :: "('a \<Rightarrow> 'k) \<Rightarrow> 'a list \<Rightarrow> 'k \<Rightarrow> nat" where
  "position_of idf items d = length (takeWhile (\<lambda>item. idf item \<noteq> d) items)"

definition dep_positions :: "('a \<Rightarrow> 'k) \<Rightarrow> ('a \<Rightarrow> 'k list) \<Rightarrow> 'a list \<Rightarrow> nat \<Rightarrow> nat list" where
  "dep_positions idf deps items p =
     (if position_of idf items (idf (items ! p)) = p then dependents_of deps items (idf (items ! p))
      else [])"

definition pred_positions :: "('a \<Rightarrow> 'k) \<Rightarrow> ('a \<Rightarrow> 'k list) \<Rightarrow> 'a list \<Rightarrow> nat \<Rightarrow> nat list" where
  "pred_positions idf deps items q =
     filter (\<lambda>p. p < length items) (map (position_of idf items) (deps (items ! q)))"

lemma count_list_concat: "count_list (concat xss) x = sum_list (map (\<lambda>xs. count_list xs x) xss)"
  by (induction xss) simp_all

lemma count_list_replicate: "count_list (replicate k a) x = (if a = x then k else 0)"
  by (induction k) auto

lemma count_dependents_enumerate:
  "count_list (concat (map (\<lambda>(p, item). replicate (f item) p) (enumerate k items))) q =
     (if k \<le> q \<and> q < k + length items then f (items ! (q - k)) else 0)"
proof (induction items arbitrary: k)
  case (Cons item items)
  show ?case
  proof (cases "q = k")
    case False
    then have "Suc k \<le> q \<Longrightarrow> (item # items) ! (q - k) = items ! (q - Suc k)"
      by (simp add: nth_Cons' Suc_diff_Suc)
    with False show ?thesis
      by (auto simp: Cons.IH count_list_replicate)
  qed (use Cons.IH [of "Suc k"] in \<open>simp add: count_list_replicate\<close>)
qed simp

lemma count_dependents_of:
  "count_list (dependents_of deps items d) q =
     (if q < length items then count_list (deps (items ! q)) d else 0)"
  using count_dependents_enumerate [of "\<lambda>item. count_list (deps item) d" 0 items q]
  by (simp add: dependents_of_def)

lemma set_dependents_of: "set (dependents_of deps items d) \<subseteq> {..<length items}"
  by (auto simp: dependents_of_def in_set_enumerate_eq split: if_splits)

lemma position_of_less: "position_of idf items d < length items \<longleftrightarrow> d \<in> idf ` set items"
  unfolding position_of_def by (induction items) auto

lemma id_position_of:
  "position_of idf items d < length items \<Longrightarrow> idf (items ! position_of idf items d) = d"
  unfolding position_of_def by (metis (mono_tags, lifting) nth_length_takeWhile)

lemma position_of_nth:
  assumes "distinct (map idf items)" "p < length items"
  shows "position_of idf items (idf (items ! p)) = p"
proof -
  let ?p = "position_of idf items (idf (items ! p))"
  have "?p < length items"
    using assms(2) by (simp add: position_of_less)
  then show ?thesis
    using id_position_of [of idf items "idf (items ! p)"] assms
    by (metis length_map nth_eq_iff_index_eq nth_map)
qed

lemma position_eq_iff:
  assumes "p < length items" "position_of idf items (idf (items ! p)) = p"
  shows "position_of idf items d = p \<longleftrightarrow> d = idf (items ! p)"
  using assms id_position_of [of idf items d] by auto

lemma count_pred_positions:
  assumes "p < length items"
  shows "count_list (pred_positions idf deps items q) p =
    (if position_of idf items (idf (items ! p)) = p
     then count_list (deps (items ! q)) (idf (items ! p)) else 0)"
proof -
  have "count_list (filter (\<lambda>p. p < length items) (map (position_of idf items) ds)) p =
      (if position_of idf items (idf (items ! p)) = p then count_list ds (idf (items ! p)) else 0)" for ds
  proof (cases "position_of idf items (idf (items ! p)) = p")
    case True
    then show ?thesis
      using assms by (induction ds) (auto simp: position_eq_iff)
  next
    case False
    then have "position_of idf items d \<noteq> p" for d
      using assms id_position_of [of idf items d] by auto
    then show ?thesis
      using False by (induction ds) auto
  qed
  then show ?thesis by (simp add: pred_positions_def)
qed

interpretation graph: dependency_index
  "length items" "dep_positions idf deps items" "pred_positions idf deps items"
proof unfold_locales
  fix p q
  show "p < length items \<Longrightarrow> set (dep_positions idf deps items p) \<subseteq> {..<length items}"
    using set_dependents_of [of deps items] by (auto simp: dep_positions_def)
  show "q < length items \<Longrightarrow> set (pred_positions idf deps items q) \<subseteq> {..<length items}"
    by (auto simp: pred_positions_def)
  show "p < length items \<Longrightarrow> q < length items \<Longrightarrow>
      count_list (dep_positions idf deps items p) q = count_list (pred_positions idf deps items q) p"
    by (simp add: count_pred_positions dep_positions_def count_dependents_of)
qed

text \<open>Dependency lists are complete when they name items only.\<close>

definition closed_deps :: "('a \<Rightarrow> 'k) \<Rightarrow> ('a \<Rightarrow> 'k list) \<Rightarrow> 'a list \<Rightarrow> bool" where
  "closed_deps idf deps items \<longleftrightarrow>
     distinct (map idf items) \<and> (\<forall>item\<in>set items. set (deps item) \<subseteq> idf ` set items)"

definition acyclic_deps :: "('a \<Rightarrow> 'k) \<Rightarrow> ('a \<Rightarrow> 'k list) \<Rightarrow> 'a list \<Rightarrow> bool" where
  "acyclic_deps idf deps items \<longleftrightarrow>
     (\<exists>rank :: 'k \<Rightarrow> nat. \<forall>item\<in>set items. \<forall>d\<in>set (deps item). rank d < rank (idf item))"

text \<open>An order of identifiers in which every item comes after its dependencies.\<close>

definition dependency_safe :: "('a \<Rightarrow> 'k) \<Rightarrow> ('a \<Rightarrow> 'k list) \<Rightarrow> 'a list \<Rightarrow> 'k list \<Rightarrow> bool" where
  "dependency_safe idf deps items order \<longleftrightarrow>
     distinct order \<and> set order = idf ` set items \<and>
     (\<forall>item\<in>set items. \<forall>i < length order. order ! i = idf item \<longrightarrow>
        set (deps item) \<subseteq> set (take i order))"

lemma dep_positions_closed:
  "closed_deps idf deps items \<Longrightarrow> p < length items \<Longrightarrow>
     dep_positions idf deps items p = dependents_of deps items (idf (items ! p))"
  by (simp add: closed_deps_def dep_positions_def position_of_nth)

lemma pred_positions_closed:
  assumes "closed_deps idf deps items" "q < length items"
  shows "pred_positions idf deps items q = map (position_of idf items) (deps (items ! q))"
  using assms by (force simp: pred_positions_def filter_id_conv closed_deps_def position_of_less)

lemma ranked_iff_acyclic:
  assumes "closed_deps idf deps items"
  shows "dependency_index.ranked (length items) (pred_positions idf deps items) \<longleftrightarrow> acyclic_deps idf deps items"
proof
  have dist: "distinct (map idf items)" using assms by (simp add: closed_deps_def)
  have known: "position_of idf items d < length items" if "item \<in> set items" "d \<in> set (deps item)" for item d
    using assms that by (force simp: closed_deps_def position_of_less)
  show "acyclic_deps idf deps items" if "dependency_index.ranked (length items) (pred_positions idf deps items)"
  proof -
    from that obtain rank :: "nat \<Rightarrow> nat" where rank: "\<And>q p. q < length items \<Longrightarrow>
        p \<in> set (pred_positions idf deps items q) \<Longrightarrow> rank p < rank q"
      unfolding graph.ranked_def by blast
    have "rank (position_of idf items d) < rank (position_of idf items (idf item))"
      if "item \<in> set items" "d \<in> set (deps item)" for item d
    proof -
      from that(1) obtain q where q: "q < length items" "item = items ! q"
        by (auto simp: in_set_conv_nth)
      then have "position_of idf items d \<in> set (pred_positions idf deps items q)"
        using that known [OF that] by (auto simp: pred_positions_def)
      then show ?thesis
        using rank q position_of_nth [OF dist] by simp
    qed
    then show ?thesis
      unfolding acyclic_deps_def by (intro exI [of _ "\<lambda>d. rank (position_of idf items d)"]) blast
  qed
  show "dependency_index.ranked (length items) (pred_positions idf deps items)" if "acyclic_deps idf deps items"
  proof -
    from that obtain rank :: "'b \<Rightarrow> nat" where rank:
      "\<And>item d. item \<in> set items \<Longrightarrow> d \<in> set (deps item) \<Longrightarrow> rank d < rank (idf item)"
      unfolding acyclic_deps_def by blast
    have "rank (idf (items ! p)) < rank (idf (items ! q))"
      if "q < length items" "p \<in> set (pred_positions idf deps items q)" for p q
      using that rank id_position_of [of idf items] by (auto simp: pred_positions_def)
    then show ?thesis
      unfolding graph.ranked_def by (intro exI [of _ "\<lambda>p. rank (idf (items ! p))"]) blast
  qed
qed

lemma ordered_imp_safe:
  assumes "closed_deps idf deps items" "dependency_index.ordered (pred_positions idf deps items) order"
    "distinct order" "set order \<subseteq> {..<length items}" "length order = length items"
  shows "dependency_safe idf deps items (map (\<lambda>p. idf (items ! p)) order)"
proof -
  have dist: "distinct (map idf items)" using assms(1) by (simp add: closed_deps_def)
  have all: "set order = {..<length items}"
    using assms by (metis card_subset_eq card_lessThan distinct_card finite_lessThan)
  have inj: "inj_on (\<lambda>p. idf (items ! p)) {..<length items}"
    using dist by (auto simp: inj_on_def distinct_conv_nth)
  have "set (deps item) \<subseteq> set (take i (map (\<lambda>p. idf (items ! p)) order))"
    if item: "item \<in> set items" and i: "i < length order" "idf (items ! (order ! i)) = idf item" for item i
  proof
    fix d
    assume d: "d \<in> set (deps item)"
    from item obtain q where q: "q < length items" "item = items ! q"
      by (auto simp: in_set_conv_nth)
    have "order ! i < length items" using all i by (metis lessThan_iff nth_mem)
    then have "order ! i = q"
      using inj q i by (auto dest: inj_onD)
    then have "set (pred_positions idf deps items q) \<subseteq> set (take i order)"
      using assms(2) i by (auto simp: graph.ordered_def)
    moreover have "position_of idf items d \<in> set (pred_positions idf deps items q)"
      using d q assms(1) pred_positions_closed [OF assms(1) q(1)] by auto
    moreover have "idf (items ! position_of idf items d) = d"
      using d item assms(1) by (intro id_position_of) (force simp: closed_deps_def position_of_less)
    ultimately show "d \<in> set (take i (map (\<lambda>p. idf (items ! p)) order))"
      by (auto simp: take_map intro!: image_eqI [of d _ "position_of idf items d"])
  qed
  moreover have "set (map (\<lambda>p. idf (items ! p)) order) = idf ` set items"
    using all by (force simp: in_set_conv_nth)
  moreover have "distinct (map (\<lambda>p. idf (items ! p)) order)"
    using inj assms(3) all by (simp add: distinct_map)
  ultimately show ?thesis
    by (auto simp: dependency_safe_def)
qed

end
