(* ===== verification/Dependency_Graph.thy ===== *)
theory Dependency_Graph
  imports Kahn Json_Canonical
begin

text \<open>
  The dependency validator of \<open>baselineops-domain/src/validate/graph.rs\<close>, which profiles and plans share.
  It is generic in the type of the items: \<open>idf\<close>, \<open>deps\<close> and \<open>check\<close> are the closures \<open>id\<close>, \<open>dependencies\<close>
  and \<open>validate\<close>. Vector indexing out of range and a counter that would drop below zero are the error
  \<open>Panic\<close>, which the theorems show not to occur. The validator accepts exactly the well-formed acyclic
  graphs, and the order it returns puts every item after its dependencies.
\<close>

definition validation :: "string \<Rightarrow> domain_error + 'a" where
  "validation message = Inl (Validation (Text message))"

lemma validation_neq [simp]: "validation m \<noteq> Inr a" "Inr a \<noteq> validation m"
  by (simp_all add: validation_def)

section \<open>Definitions\<close>

text \<open>The body of the loop of \<open>validate_and_index\<close>.\<close>

definition index_step ::
    "('a \<Rightarrow> uuid) \<Rightarrow> ('a \<Rightarrow> domain_error + unit) \<Rightarrow> (uuid \<rightharpoonup> usize) \<Rightarrow> usize \<times> 'a \<Rightarrow>
     domain_error + (uuid \<rightharpoonup> usize)" where
  "index_step idf check index = (\<lambda>(position, item).
     and_then (check item) (\<lambda>_.
       if index (idf item) \<noteq> None
       then validation ''profile or plan contains duplicate action IDs''
       else Inr (index(idf item \<mapsto> position))))"

definition validate_and_index ::
    "('a \<Rightarrow> uuid) \<Rightarrow> ('a \<Rightarrow> domain_error + unit) \<Rightarrow> 'a list \<Rightarrow> domain_error + (uuid \<rightharpoonup> usize)" where
  "validate_and_index idf check items =
     try_fold (index_step idf check) Map.empty (enumerate 0 items)"

text \<open>The list that \<open>children.entry(d).or_default()\<close> refers to.\<close>

definition children_of :: "(uuid \<rightharpoonup> usize list) \<Rightarrow> uuid \<Rightarrow> usize list" where
  "children_of children d = (case children d of None \<Rightarrow> [] | Some ps \<Rightarrow> ps)"

definition index_item_dependencies ::
    "('a \<Rightarrow> uuid) \<Rightarrow> ('a \<Rightarrow> uuid list) \<Rightarrow> (uuid \<rightharpoonup> usize) \<Rightarrow> usize \<Rightarrow> 'a \<Rightarrow>
     usize list \<times> (uuid \<rightharpoonup> usize list) \<Rightarrow> domain_error + usize list \<times> (uuid \<rightharpoonup> usize list)" where
  "index_item_dependencies idf deps index position item = (\<lambda>(remaining, children).
     and_then
       (try_fold (\<lambda>(seen, remaining, children) d.
            if d \<in> seen then validation ''an action lists the same dependency more than once''
            else if index d = None then Inl (Validation (UnknownDependency (idf item) d))
            else if length remaining \<le> position then Inl Panic
            else Inr (insert d seen, remaining[position := remaining ! position + 1],
                      children(d \<mapsto> children_of children d @ [position])))
          ({}, remaining, children) (deps item))
       (\<lambda>(seen, remaining, children). Inr (remaining, children)))"

definition index_dependencies ::
    "('a \<Rightarrow> uuid) \<Rightarrow> ('a \<Rightarrow> uuid list) \<Rightarrow> (uuid \<rightharpoonup> usize) \<Rightarrow> 'a list \<Rightarrow>
     domain_error + usize list \<times> (uuid \<rightharpoonup> usize list)" where
  "index_dependencies idf deps index items =
     try_fold (\<lambda>state (position, item). index_item_dependencies idf deps index position item state)
       (replicate (length items) 0, Map.empty) (enumerate 0 items)"

definition release_dependents ::
    "uuid \<Rightarrow> (uuid \<rightharpoonup> usize list) \<Rightarrow> usize list \<Rightarrow> usize list \<Rightarrow> (usize list \<times> usize list) option" where
  "release_dependents item_id children remaining ready =
     (case children item_id of
        None \<Rightarrow> Some (remaining, ready)
      | Some dependents \<Rightarrow> discharge dependents (remaining, ready))"

lemma release_dependents_eq:
  "release_dependents i children rem ready = discharge (children_of children i) (rem, ready)"
  by (simp add: release_dependents_def children_of_def split: option.split)

function topological_loop ::
    "('a \<Rightarrow> uuid) \<Rightarrow> 'a list \<Rightarrow> (uuid \<rightharpoonup> usize list) \<Rightarrow> usize list \<Rightarrow> usize list \<Rightarrow> uuid list \<Rightarrow>
     (uuid list \<times> usize list) option" where
  "topological_loop idf items children remaining ready order =
     (case ready of
        [] \<Rightarrow> Some (order, remaining)
      | position # ready \<Rightarrow>
          if length items \<le> position then None
          else
            let item_id = idf (items ! position) in
            (case release_dependents item_id children remaining ready of
               None \<Rightarrow> None
             | Some (remaining, ready) \<Rightarrow>
                 topological_loop idf items children remaining ready (order @ [item_id])))"
  by pat_completeness auto
termination
proof (relation "measure (\<lambda>(idf, items, children, rem, ready, order). sum_list rem + length ready)",
    goal_cases)
  case (2 idf items children rem ready order p ready' i x rem' ready'')
  then show ?case
    using discharge_measure [of "children_of children i" rem ready' rem' ready'']
    by (simp add: release_dependents_eq)
qed simp

declare topological_loop.simps [simp del]

text \<open>The sort also returns the counters, which the caller reads through its mutable reference.\<close>

definition topological_sort ::
    "('a \<Rightarrow> uuid) \<Rightarrow> 'a list \<Rightarrow> usize list \<Rightarrow> (uuid \<rightharpoonup> usize list) \<Rightarrow> (uuid list \<times> usize list) option" where
  "topological_sort idf items remaining children =
     topological_loop idf items children remaining (zero_positions remaining) []"

definition dependency_cycle :: "('a \<Rightarrow> uuid) \<Rightarrow> 'a list \<Rightarrow> usize list \<Rightarrow> domain_error + uuid list" where
  "dependency_cycle idf items remaining =
     (if length remaining < length items then Inl Panic
      else Inl (Validation (DependencyCycle
        (map (\<lambda>(position, item). idf item)
          (filter (\<lambda>(position, item). remaining ! position \<noteq> 0) (enumerate 0 items))))))"

definition validate_dependency_graph ::
    "('a \<Rightarrow> uuid) \<Rightarrow> ('a \<Rightarrow> uuid list) \<Rightarrow> ('a \<Rightarrow> domain_error + unit) \<Rightarrow> 'a list \<Rightarrow>
     domain_error + uuid list" where
  "validate_dependency_graph idf deps check items =
     (if items = [] then validation ''profiles and plans must contain at least one action''
      else
        and_then (validate_and_index idf check items) (\<lambda>index.
        and_then (index_dependencies idf deps index items) (\<lambda>(remaining, children).
          case topological_sort idf items remaining children of
            None \<Rightarrow> Inl Panic
          | Some (order, remaining) \<Rightarrow>
              if length order \<noteq> length items then dependency_cycle idf items remaining
              else Inr order)))"

section \<open>The index of identifiers\<close>

lemma index_step_Inr_iff:
  "index_step idf check ix (p, item) = Inr ix' \<longleftrightarrow>
     check item = Inr () \<and> idf item \<notin> dom ix \<and> ix' = ix(idf item \<mapsto> p)"
  by (cases "check item") (auto simp: index_step_def domIff)

lemma index_fold_Inr:
  "try_fold (index_step idf check) ix (enumerate k items) = Inr ix' \<Longrightarrow>
     (\<forall>item\<in>set items. check item = Inr ()) \<and> distinct (map idf items) \<and>
     dom ix \<inter> idf ` set items = {} \<and> dom ix' = dom ix \<union> idf ` set items"
proof (induction items arbitrary: ix k)
  case (Cons item items)
  then have "check item = Inr ()" "idf item \<notin> dom ix"
    "try_fold (index_step idf check) (ix(idf item \<mapsto> k)) (enumerate (Suc k) items) = Inr ix'"
    by (auto simp: res_simps index_step_Inr_iff)
  moreover have "dom (ix(idf item \<mapsto> k)) = insert (idf item) (dom ix)" by simp
  ultimately show ?case
    using Cons.IH [of "ix(idf item \<mapsto> k)" "Suc k"] by (simp only: list.set) auto
qed simp

lemma index_fold_ok:
  "\<lbrakk>\<forall>item\<in>set items. check item = Inr (); distinct (map idf items); dom ix \<inter> idf ` set items = {}\<rbrakk> \<Longrightarrow>
     \<exists>ix'. try_fold (index_step idf check) ix (enumerate k items) = Inr ix'"
proof (induction items arbitrary: ix k)
  case (Cons item items)
  then have "index_step idf check ix (k, item) = Inr (ix(idf item \<mapsto> k))"
    by (auto simp: index_step_Inr_iff)
  moreover have "\<exists>ix'. try_fold (index_step idf check) (ix(idf item \<mapsto> k)) (enumerate (Suc k) items) = Inr ix'"
  proof (rule Cons.IH)
    show "dom (ix(idf item \<mapsto> k)) \<inter> idf ` set items = {}"
      unfolding dom_fun_upd using Cons.prems by simp
  qed (use Cons.prems in simp_all)
  ultimately show ?case by simp
qed simp

lemma validate_and_index_Inr:
  assumes "validate_and_index idf check items = Inr ix"
  shows "\<forall>item\<in>set items. check item = Inr ()" "distinct (map idf items)" "dom ix = idf ` set items"
  using index_fold_Inr [OF assms [unfolded validate_and_index_def]] by auto

lemma validate_and_index_ok:
  assumes "\<forall>item\<in>set items. check item = Inr ()" "distinct (map idf items)"
  obtains ix where "validate_and_index idf check items = Inr ix"
  using index_fold_ok [of items check idf Map.empty 0] assms by (auto simp: validate_and_index_def)

text \<open>The two errors that only the sort can raise.\<close>

definition sort_error :: "domain_error \<Rightarrow> bool" where
  "sort_error e \<longleftrightarrow> e = Panic \<or> (\<exists>ids. e = Validation (DependencyCycle ids))"

lemma validation_no_sort_error: "sort_error e \<Longrightarrow> validation m \<noteq> Inl e"
  by (auto simp: sort_error_def validation_def)

lemma validate_and_index_no_sort_error:
  assumes "\<forall>item\<in>set items. check item \<noteq> Inl e" "sort_error e"
  shows "validate_and_index idf check items \<noteq> Inl e"
proof -
  have "try_fold (index_step idf check) ix (enumerate k items) \<noteq> Inl e" for ix k
    using assms
  proof (induction items arbitrary: ix k)
    case (Cons item items)
    then have "index_step idf check ix (k, item) \<noteq> Inl e"
      by (cases "check item") (auto simp: index_step_def validation_no_sort_error)
    then show ?case
      using Cons by (cases "index_step idf check ix (k, item)") auto
  qed simp
  then show ?thesis by (simp add: validate_and_index_def)
qed

section \<open>The index of dependents\<close>

text \<open>The edges that one item adds.\<close>

definition push_children :: "usize \<Rightarrow> uuid list \<Rightarrow> (uuid \<rightharpoonup> usize list) \<Rightarrow> (uuid \<rightharpoonup> usize list)" where
  "push_children p ds children =
     foldl (\<lambda>children d. children(d \<mapsto> children_of children d @ [p])) children ds"

lemma children_of_push:
  "children_of (push_children p ds children) d = children_of children d @ replicate (count_list ds d) p"
proof (induction ds arbitrary: children)
  case (Cons a ds)
  define ch where "ch = children(a \<mapsto> children_of children a @ [p])"
  have "children_of ch d = children_of children d @ (if d = a then [p] else [])"
    by (simp add: ch_def children_of_def)
  moreover have "push_children p (a # ds) children = push_children p ds ch"
    by (simp add: push_children_def ch_def)
  ultimately show ?case
    by (simp add: Cons.IH)
qed (simp add: push_children_def)

lemma index_item_Inr_iff:
  assumes "p < length rem"
  shows "index_item_dependencies idf deps ix p item (rem, ch) = Inr (rem', ch') \<longleftrightarrow>
    distinct (deps item) \<and> set (deps item) \<subseteq> dom ix \<and>
    rem' = rem[p := rem ! p + length (deps item)] \<and> ch' = push_children p (deps item) ch"
proof -
  let ?step = "\<lambda>(seen, remaining, children) d.
            if d \<in> seen then validation ''an action lists the same dependency more than once''
            else if ix d = None then Inl (Validation (UnknownDependency (idf item) d))
            else if length remaining \<le> p then Inl Panic
            else Inr (insert d seen, remaining[p := remaining ! p + 1],
                      children(d \<mapsto> children_of children d @ [p]))"
  have "try_fold ?step (seen, rem, ch) ds = Inr (seen', rem', ch') \<longleftrightarrow>
      distinct ds \<and> set ds \<inter> seen = {} \<and> set ds \<subseteq> dom ix \<and> seen' = seen \<union> set ds \<and>
      rem' = rem[p := rem ! p + length ds] \<and> ch' = push_children p ds ch" for seen seen' ds
    using assms
  proof (induction ds arbitrary: seen rem ch)
    case (Cons d ds)
    show ?case
    proof (cases "d \<in> seen \<or> ix d = None")
      case True
      then show ?thesis by (auto simp: validation_def)
    next
      case False
      define ch2 where "ch2 = ch(d \<mapsto> children_of ch d @ [p])"
      have "push_children p (d # ds) ch = push_children p ds ch2"
        by (simp add: push_children_def ch2_def)
      moreover have "try_fold ?step (seen, rem, ch) (d # ds) =
          try_fold ?step (insert d seen, rem[p := rem ! p + 1], ch2) ds"
        using False Cons.prems by (auto simp add: ch2_def)
      ultimately show ?thesis
        using False Cons.prems Cons.IH [of "rem[p := rem ! p + 1]" "insert d seen" ch2]
        by (auto simp del: try_fold.simps)
    qed
  qed (auto simp: push_children_def)
  then show ?thesis
    by (auto simp: index_item_dependencies_def res_simps)
qed

lemma index_item_no_sort_error:
  assumes "p < length rem" "sort_error e"
  shows "index_item_dependencies idf deps ix p item (rem, ch) \<noteq> Inl e"
proof -
  let ?step = "\<lambda>(seen, remaining, children) d.
            if d \<in> seen then validation ''an action lists the same dependency more than once''
            else if ix d = None then Inl (Validation (UnknownDependency (idf item) d))
            else if length remaining \<le> p then Inl Panic
            else Inr (insert d seen, remaining[p := remaining ! p + 1],
                      children(d \<mapsto> children_of children d @ [p]))"
  have "try_fold ?step (seen, rem, ch) ds \<noteq> Inl e" for seen ds
    using assms by (induction ds arbitrary: seen rem ch) (auto simp: validation_def sort_error_def)
  then show ?thesis
    by (cases "try_fold ?step ({}, rem, ch) (deps item)") (auto simp: index_item_dependencies_def)
qed

abbreviation index_loop ::
    "('a \<Rightarrow> uuid) \<Rightarrow> ('a \<Rightarrow> uuid list) \<Rightarrow> (uuid \<rightharpoonup> usize) \<Rightarrow> usize \<Rightarrow> 'a list \<Rightarrow>
     usize list \<times> (uuid \<rightharpoonup> usize list) \<Rightarrow> domain_error + usize list \<times> (uuid \<rightharpoonup> usize list)" where
  "index_loop idf deps ix k items state \<equiv>
     try_fold (\<lambda>state (position, item). index_item_dependencies idf deps ix position item state)
       state (enumerate k items)"

lemma index_loop_Inr:
  "\<lbrakk>index_loop idf deps ix k items (rem, ch) = Inr (rem', ch'); length rem = k + length items;
    \<forall>i < length items. rem ! (k + i) = 0\<rbrakk> \<Longrightarrow>
     (\<forall>item\<in>set items. distinct (deps item) \<and> set (deps item) \<subseteq> dom ix) \<and>
     rem' = take k rem @ map (\<lambda>item. length (deps item)) items \<and>
     (\<forall>d. children_of ch' d = children_of ch d @
        concat (map (\<lambda>(p, item). replicate (count_list (deps item) d) p) (enumerate k items)))"
proof (induction items arbitrary: k rem ch)
  case (Cons item items)
  obtain rem1 ch1 where step: "index_item_dependencies idf deps ix k item (rem, ch) = Inr (rem1, ch1)"
    and rest: "index_loop idf deps ix (Suc k) items (rem1, ch1) = Inr (rem', ch')"
    using Cons.prems(1) by (auto simp: res_simps)
  have k: "k < length rem" "rem ! k = 0"
    using Cons.prems(2,3) by auto
  have 1: "distinct (deps item)" "set (deps item) \<subseteq> dom ix" "rem1 = rem[k := length (deps item)]"
    "ch1 = push_children k (deps item) ch"
    using step k by (simp_all add: index_item_Inr_iff)
  have "\<forall>i < length items. rem1 ! (Suc k + i) = 0"
    using Cons.prems(3) by (force simp: 1)
  with Cons.IH [OF rest] Cons.prems(2) 1 k show ?case
    by (simp add: take_Suc_conv_app_nth children_of_push)
qed auto

lemma index_loop_ok:
  "\<lbrakk>\<forall>item\<in>set items. distinct (deps item) \<and> set (deps item) \<subseteq> dom ix; length rem = k + length items\<rbrakk> \<Longrightarrow>
     \<exists>state. index_loop idf deps ix k items (rem, ch) = Inr state"
proof (induction items arbitrary: k rem ch)
  case (Cons item items)
  then have "index_item_dependencies idf deps ix k item (rem, ch) =
      Inr (rem[k := rem ! k + length (deps item)], push_children k (deps item) ch)"
    by (simp add: index_item_Inr_iff)
  then show ?case
    using Cons.IH [of "rem[k := rem ! k + length (deps item)]" "Suc k"] Cons.prems by simp
qed simp

lemma index_loop_no_sort_error:
  "length rem = k + length items \<Longrightarrow> sort_error e \<Longrightarrow>
     index_loop idf deps ix k items (rem, ch) \<noteq> Inl e"
proof (induction items arbitrary: k rem ch)
  case (Cons item items)
  have k: "k < length rem" using Cons.prems(1) by simp
  show ?case
  proof (cases "index_item_dependencies idf deps ix k item (rem, ch)")
    case (Inl e)
    then show ?thesis using index_item_no_sort_error [OF k Cons.prems(2), of idf deps ix item ch] by auto
  next
    case (Inr state)
    moreover obtain rem1 ch1 where "state = (rem1, ch1)" by (cases state)
    moreover from this have "length rem1 = Suc k + length items"
      using Inr k Cons.prems(1) by (simp add: index_item_Inr_iff)
    ultimately show ?thesis using Cons.IH Cons.prems(2) by simp
  qed
qed simp

lemma index_dependencies_Inr:
  assumes "index_dependencies idf deps ix items = Inr (rem, ch)"
  shows "\<forall>item\<in>set items. distinct (deps item) \<and> set (deps item) \<subseteq> dom ix"
    "rem = map (\<lambda>item. length (deps item)) items"
    "children_of ch d = dependents_of deps items d"
  using index_loop_Inr [OF assms [unfolded index_dependencies_def]]
  by (auto simp: children_of_def dependents_of_def)

section \<open>The sort\<close>

lemma topological_loop_worklist:
  assumes "\<And>p. p < length items \<Longrightarrow> children_of ch (idf (items ! p)) = dep p"
    and "\<And>p. p < length items \<Longrightarrow> set (dep p) \<subseteq> {..<length items}"
  shows "set ready \<subseteq> {..<length items} \<Longrightarrow>
    topological_loop idf items ch rem ready (map (\<lambda>p. idf (items ! p)) order) =
    map_option (\<lambda>(order, rem). (map (\<lambda>p. idf (items ! p)) order, rem)) (worklist dep rem ready order)"
proof (induction "sum_list rem + length ready" arbitrary: rem ready order rule: less_induct)
  case less
  show ?case
  proof (cases ready)
    case Nil
    then show ?thesis by (simp add: topological_loop.simps worklist.simps)
  next
    case (Cons p ready')
    have p: "p < length items" using less.prems Cons by simp
    note eqs = topological_loop.simps [of idf items ch rem "p # ready'"]
      worklist.simps [of dep rem "p # ready'"]
    show ?thesis
    proof (cases "discharge (dep p) (rem, ready')")
      case None
      then show ?thesis
        using p Cons by (simp add: eqs release_dependents_eq assms(1) Let_def)
    next
      case (Some state)
      obtain rem' ready'' where s: "state = (rem', ready'')" by (cases state)
      have "sum_list rem' + length ready'' < sum_list rem + length ready"
        using discharge_measure [of "dep p" rem ready'] Some s Cons by simp
      moreover have "set ready'' \<subseteq> {..<length items}"
        using discharge_subset [of "dep p" rem ready'] Some s less.prems Cons assms(2) [OF p] by auto
      ultimately show ?thesis
        using less.hyps [of rem' ready'' "order @ [p]"] Some s p Cons
        by (simp add: eqs release_dependents_eq assms(1) Let_def)
    qed
  qed
qed

text \<open>The graph that the validator accepts up to cycles.\<close>

definition graph_fields_ok ::
    "('a \<Rightarrow> uuid) \<Rightarrow> ('a \<Rightarrow> uuid list) \<Rightarrow> ('a \<Rightarrow> domain_error + unit) \<Rightarrow> 'a list \<Rightarrow> bool" where
  "graph_fields_ok idf deps check items \<longleftrightarrow>
     items \<noteq> [] \<and> (\<forall>item\<in>set items. check item = Inr () \<and> distinct (deps item)) \<and>
     closed_deps idf deps items"

text \<open>
  For such a graph the sort runs to its end: it returns an order of positions that is safe and
  complete exactly when the graph is acyclic, and the counters tell which positions are missing.
\<close>

lemma graph_sorted:
  assumes "closed_deps idf deps items" "rem = map (\<lambda>item. length (deps item)) items"
    "\<And>d. children_of ch d = dependents_of deps items d"
  obtains order rem' where
    "topological_sort idf items rem ch = Some (map (\<lambda>p. idf (items ! p)) order, rem')"
    "worklist (dep_positions idf deps items) rem (zero_positions rem) [] = Some (order, rem')"
    "length order = length items \<longleftrightarrow> acyclic_deps idf deps items"
    "length order = length items \<Longrightarrow>
       dependency_safe idf deps items (map (\<lambda>p. idf (items ! p)) order)"
    "length rem' = length items" "\<forall>q < length items. rem' ! q = 0 \<longleftrightarrow> q \<in> set order"
    "set order \<subseteq> {..<length items}"
    "distinct order"
    "\<forall>q < length items. set (pred_positions idf deps items q) \<subseteq> set order \<longrightarrow> q \<in> set order"
proof -
  have rem: "length rem = length items"
    "\<And>q. q < length items \<Longrightarrow> rem ! q = length (pred_positions idf deps items q)"
    using assms by (simp_all add: pred_positions_closed)
  obtain order rem' where *:
    "worklist (dep_positions idf deps items) rem (zero_positions rem) [] = Some (order, rem')"
    "distinct order" "set order \<subseteq> {..<length items}"
    "dependency_index.ordered (pred_positions idf deps items) order"
    "length order = length items \<longleftrightarrow> dependency_index.ranked (length items) (pred_positions idf deps items)"
    "length rem' = length items" "\<forall>q < length items. rem' ! q = 0 \<longleftrightarrow> q \<in> set order"
    "\<forall>q < length items. set (pred_positions idf deps items q) \<subseteq> set order \<longrightarrow> q \<in> set order"
    by (rule graph.worklist_correct [OF rem])
  have "topological_sort idf items rem ch = map_option
      (\<lambda>(order, rem). (map (\<lambda>p. idf (items ! p)) order, rem)) (Some (order, rem'))"
    unfolding topological_sort_def *(1) [symmetric]
  proof (rule topological_loop_worklist [where order = "[]", unfolded list.map])
    show "children_of ch (idf (items ! p)) = dep_positions idf deps items p" if "p < length items" for p
      using that assms(1) by (simp add: assms(3) dep_positions_closed)
    show "set (dep_positions idf deps items p) \<subseteq> {..<length items}" if "p < length items" for p
      using that by (rule graph.dep_range)
    show "set (zero_positions rem) \<subseteq> {..<length items}"
      using rem(1) by (auto simp: zero_positions_eq)
  qed
  then have sort: "topological_sort idf items rem ch = Some (map (\<lambda>p. idf (items ! p)) order, rem')"
    by simp
  show ?thesis
    using assms(1) *(2-5) ordered_imp_safe [OF assms(1) *(4,2,3)]
    by (intro that [OF sort *(1)]) (simp_all add: ranked_iff_acyclic *)
qed

section \<open>Correctness of the validator\<close>

lemma graph_fields_ok_iff:
  "graph_fields_ok idf deps check items \<longleftrightarrow> items \<noteq> [] \<and>
     (\<exists>ix rem ch. validate_and_index idf check items = Inr ix \<and>
        index_dependencies idf deps ix items = Inr (rem, ch))"
proof (intro iffI)
  assume ok: "graph_fields_ok idf deps check items"
  then obtain ix where ix: "validate_and_index idf check items = Inr ix"
    using validate_and_index_ok [of items check idf] by (auto simp: graph_fields_ok_def closed_deps_def)
  have "\<exists>state. index_dependencies idf deps ix items = Inr state"
    unfolding index_dependencies_def
    by (rule index_loop_ok)
       (use ok validate_and_index_Inr(3) [OF ix] in \<open>auto simp: graph_fields_ok_def closed_deps_def\<close>)
  with ok ix show "items \<noteq> [] \<and> (\<exists>ix rem ch. validate_and_index idf check items = Inr ix \<and>
      index_dependencies idf deps ix items = Inr (rem, ch))"
    by (auto simp: graph_fields_ok_def)
next
  assume "items \<noteq> [] \<and> (\<exists>ix rem ch. validate_and_index idf check items = Inr ix \<and>
      index_dependencies idf deps ix items = Inr (rem, ch))"
  then show "graph_fields_ok idf deps check items"
    using validate_and_index_Inr index_dependencies_Inr(1)
    by (fastforce simp: graph_fields_ok_def closed_deps_def)
qed

lemma graph_ok_cases:
  assumes "graph_fields_ok idf deps check items"
  obtains order rem where
    "validate_dependency_graph idf deps check items =
       (if acyclic_deps idf deps items then Inr (map (\<lambda>p. idf (items ! p)) order)
        else dependency_cycle idf items rem)"
    "acyclic_deps idf deps items \<Longrightarrow>
       dependency_safe idf deps items (map (\<lambda>p. idf (items ! p)) order)"
    "worklist (dep_positions idf deps items) (map (\<lambda>item. length (deps item)) items)
       (zero_positions (map (\<lambda>item. length (deps item)) items)) [] = Some (order, rem)"
    "length rem = length items" "\<forall>q < length items. rem ! q = 0 \<longleftrightarrow> q \<in> set order"
    "set order \<subseteq> {..<length items}"
    "distinct order"
    "\<forall>q < length items. set (pred_positions idf deps items q) \<subseteq> set order \<longrightarrow> q \<in> set order"
    "length order = length items \<longleftrightarrow> acyclic_deps idf deps items"
proof -
  obtain ix rem ch where ix: "validate_and_index idf check items = Inr ix"
    and ch: "index_dependencies idf deps ix items = Inr (rem, ch)" and ne: "items \<noteq> []"
    using assms by (auto simp: graph_fields_ok_iff)
  have closed: "closed_deps idf deps items"
    using assms by (simp add: graph_fields_ok_def)
  show ?thesis
    by (rule graph_sorted [OF closed index_dependencies_Inr(2,3) [OF ch]])
       (rule that, auto simp: validate_dependency_graph_def ne ix ch index_dependencies_Inr(2) [OF ch])
qed

lemma validate_graph_Inr_ok:
  "validate_dependency_graph idf deps check items = Inr order \<Longrightarrow> graph_fields_ok idf deps check items"
  by (auto simp: validate_dependency_graph_def graph_fields_ok_iff res_simps split: if_splits)

lemma dependency_cycle_neq [simp]: "dependency_cycle idf items rem \<noteq> Inr order"
  by (simp add: dependency_cycle_def)

lemma validate_graph_Inr:
  assumes "validate_dependency_graph idf deps check items = Inr order"
  shows "graph_fields_ok idf deps check items" "acyclic_deps idf deps items"
    "dependency_safe idf deps items order"
    "\<exists>positions rem. order = map (\<lambda>p. idf (items ! p)) positions \<and>
       worklist (dep_positions idf deps items) (map (\<lambda>item. length (deps item)) items)
         (zero_positions (map (\<lambda>item. length (deps item)) items)) [] = Some (positions, rem) \<and>
       length positions = length items"
  using graph_ok_cases [OF validate_graph_Inr_ok [OF assms]] assms validate_graph_Inr_ok [OF assms]
  by (metis (no_types, lifting) dependency_cycle_neq sum.inject(2))+

text \<open>
  C2: when the validator accepts a profile or plan, the order it returns names every action once and
  puts each action after all actions that it depends on.
\<close>

theorem validate_graph_order_safe:
  assumes "validate_dependency_graph idf deps check items = Inr order"
  shows "dependency_safe idf deps items order"
  using assms by (rule validate_graph_Inr(3))

theorem validate_graph_order_safe_witness:
  "dependency_safe fst snd [(2 :: uuid, [1]), (1, [])] [1, 2]"
  by (rule validate_graph_order_safe [where check = "\<lambda>_. Inr ()"]) code_simp

text \<open>
  The validator accepts exactly the graphs whose items pass their own check, have unique
  identifiers, list known dependencies without repetition, and have no cycle.
\<close>

theorem validate_graph_accepts_iff:
  "(\<exists>order. validate_dependency_graph idf deps check items = Inr order) \<longleftrightarrow>
     graph_fields_ok idf deps check items \<and> acyclic_deps idf deps items"
  using validate_graph_Inr(1,2) graph_ok_cases by (metis (no_types, lifting))

lemma validate_graph_sort_error:
  assumes "\<forall>item\<in>set items. check item \<noteq> Inl e" "sort_error e"
    and "validate_dependency_graph idf deps check items = Inl e"
  shows "graph_fields_ok idf deps check items"
proof (rule ccontr)
  assume bad: "\<not> graph_fields_ok idf deps check items"
  show False
  proof (cases "validate_and_index idf check items")
    case (Inl e')
    then show ?thesis
      using validate_and_index_no_sort_error [OF assms(1,2), of idf] assms(2,3)
      by (auto simp: validate_dependency_graph_def validation_no_sort_error split: if_splits)
  next
    case (Inr ix)
    have "index_dependencies idf deps ix items \<noteq> Inl e"
      unfolding index_dependencies_def by (rule index_loop_no_sort_error) (simp_all add: assms(2))
    with Inr bad assms(2,3) show ?thesis
      by (cases "index_dependencies idf deps ix items")
         (auto simp: validate_dependency_graph_def validation_no_sort_error graph_fields_ok_iff
           split: if_splits)
  qed
qed

text \<open>
  The validator never indexes out of range and never decrements a zero counter, whatever the input.
\<close>

theorem validate_graph_no_panic:
  assumes "\<forall>item\<in>set items. check item \<noteq> Inl Panic"
  shows "validate_dependency_graph idf deps check items \<noteq> Inl Panic"
proof
  assume *: "validate_dependency_graph idf deps check items = Inl Panic"
  have "graph_fields_ok idf deps check items"
    using validate_graph_sort_error [OF assms _ *] by (simp add: sort_error_def)
  then obtain order rem where "length rem = length items"
    "validate_dependency_graph idf deps check items =
       (if acyclic_deps idf deps items then Inr (map (\<lambda>p. idf (items ! p)) order)
        else dependency_cycle idf items rem)"
    by (rule graph_ok_cases)
  with * show False by (simp add: dependency_cycle_def split: if_splits)
qed

theorem validate_graph_no_panic_witness:
  "validate_dependency_graph fst snd (\<lambda>_. Inr ()) [(2 :: uuid, [2])] \<noteq> Inl Panic"
  by (rule validate_graph_no_panic) simp

lemma dependency_cycle_members:
  assumes "length rem = length items"
    "dependency_cycle idf items rem = Inl (Validation (DependencyCycle members))"
  shows "set members = (\<lambda>p. idf (items ! p)) ` {p. p < length items \<and> rem ! p \<noteq> 0}"
  using assms by (force simp: dependency_cycle_def in_set_enumerate_eq)

text \<open>
  The cycle that the validator reports is never empty, and every action it names depends on an
  action that it names.
\<close>

theorem validate_graph_cycle_report:
  assumes "validate_dependency_graph idf deps check items = Inl (Validation (DependencyCycle members))"
    and "\<forall>item\<in>set items. check item \<noteq> Inl (Validation (DependencyCycle members))"
  shows "members \<noteq> [] \<and>
    (\<forall>item\<in>set items. idf item \<in> set members \<longrightarrow> (\<exists>d\<in>set (deps item). d \<in> set members))"
proof -
  have ok: "graph_fields_ok idf deps check items"
    using validate_graph_sort_error [OF assms(2) _ assms(1)] by (simp add: sort_error_def)
  then have closed: "closed_deps idf deps items" by (simp add: graph_fields_ok_def)
  obtain order rem where g: "validate_dependency_graph idf deps check items =
       (if acyclic_deps idf deps items then Inr (map (\<lambda>p. idf (items ! p)) order)
        else dependency_cycle idf items rem)"
    "length rem = length items" "\<forall>q < length items. rem ! q = 0 \<longleftrightarrow> q \<in> set order"
    "set order \<subseteq> {..<length items}" "distinct order"
    "\<forall>q < length items. set (pred_positions idf deps items q) \<subseteq> set order \<longrightarrow> q \<in> set order"
    "length order = length items \<longleftrightarrow> acyclic_deps idf deps items"
    by (rule graph_ok_cases [OF ok])
  have cyc: "dependency_cycle idf items rem = Inl (Validation (DependencyCycle members))"
    "\<not> acyclic_deps idf deps items"
    using g(1) assms(1) by (auto split: if_splits)
  have members: "set members = (\<lambda>p. idf (items ! p)) ` {p. p < length items \<and> p \<notin> set order}"
    using dependency_cycle_members [OF g(2) cyc(1)] g(3) by auto
  have "set order \<noteq> {..<length items}"
    using g(5,7) cyc(2) by (metis card_lessThan distinct_card)
  then have "members \<noteq> []"
    using g(4) members by (fastforce simp del: set_empty simp: set_empty [symmetric])
  moreover have "\<exists>d\<in>set (deps item). d \<in> set members"
    if item: "item \<in> set items" and m: "idf item \<in> set members" for item
  proof -
    obtain q where q: "q < length items" "q \<notin> set order" "idf item = idf (items ! q)"
      using m members by auto
    then have "item = items ! q"
      using closed item by (metis closed_deps_def distinct_map inj_onD nth_mem)
    moreover obtain p where p: "p \<in> set (pred_positions idf deps items q)" "p \<notin> set order"
      using g(6) q by blast
    moreover have "p < length items" using graph.preds_range q(1) p(1) by blast
    ultimately show ?thesis
      using members id_position_of [of idf items] by (auto simp: pred_positions_def)
  qed
  ultimately show ?thesis by blast
qed

theorem validate_graph_cycle_report_witness:
  "[1, 2] \<noteq> ([] :: uuid list) \<and> (\<exists>d\<in>set [2 :: uuid]. d \<in> set [1, 2])"
proof -
  have "validate_dependency_graph fst snd (\<lambda>_. Inr ()) [(1 :: uuid, [2]), (2, [1]), (3, [])] =
      Inl (Validation (DependencyCycle [1, 2]))"
    by code_simp
  from validate_graph_cycle_report [OF this] show ?thesis by simp
qed

end
