(* ===== verification/Domain_Model.thy ===== *)
theory Domain_Model
  imports Json_Load Dependency_Graph
begin

text \<open>
  The contract types of \<open>baselineops-domain/src/ids.rs\<close> and \<open>model/\<close>. A struct is a record whose fields
  carry a prefix where the source uses one name in several structs; an enum is a datatype. Every
  identifier newtype over \<open>Uuid\<close> is a \<open>uuid\<close>, a \<open>BTreeMap\<close> is the list of its entries in key order.
\<close>

section \<open>Bounded identifiers\<close>

type_synonym capability_id = string
type_synonym logical_resource_id = string
type_synonym json_map = "(string \<times> jvalue) list"

definition quoted :: "char \<Rightarrow> string" where
  "quoted c = [CHR 0x27, c, CHR 0x27]"

definition punctuation_text :: string where
  "punctuation_text = quoted (CHR ''.'') @ '', '' @ quoted (CHR ''-'') @ '' and '' @ quoted (CHR ''_'')"

definition capability_id_new :: "string \<Rightarrow> string + capability_id" where
  "capability_id_new v =
     (if v = [] \<or> length v > 128 then Inl ''capability IDs must be between 1 and 128 bytes''
      else if \<not> list_all (\<lambda>b. is_ascii_alphanumeric b \<or> b \<in> {CHR ''.'', CHR ''-'', CHR ''_''}) v
      then Inl (''capability IDs may contain only ASCII letters, digits, '' @ punctuation_text)
      else Inr v)"

definition logical_resource_id_new :: "string \<Rightarrow> string + logical_resource_id" where
  "logical_resource_id_new v =
     (if v = [] \<or> length v > 64 then Inl ''logical resource IDs must be between 1 and 64 bytes''
      else if \<not> list_all (\<lambda>b. is_ascii_lowercase b \<or> is_ascii_digit b \<or>
                                b \<in> {CHR ''.'', CHR ''-'', CHR ''_''}) v
      then Inl (''logical resource IDs use lowercase ASCII letters, digits, '' @ punctuation_text)
      else Inr v)"

section \<open>Primitives\<close>

datatype schema_version = V3
datatype plan_schema_version = V4
datatype operation = OpAudit | OpPlan | OpApply
datatype execution_intent = IntentAudit | IntentPlan | IntentApply
datatype risk_level = RiskNone | RiskLow | RiskModerate | RiskHigh | RiskCritical
datatype reversibility = NotApplicable | Reversible | ConditionallyReversible | Irreversible
datatype reboot_requirement = NotRequired | Recommended | Required
datatype privilege = User | Administrator | LocalSystem | BackupOperator | SecurityOperator
datatype capability_status = Available | Unavailable | Unsupported
datatype implementation_status = Implemented | Planned | Deprecated
datatype os_family = Windows | Linux | Macos | OtherOs

fun operation_of_intent :: "execution_intent \<Rightarrow> operation" where
  "operation_of_intent IntentAudit = OpAudit"
| "operation_of_intent IntentPlan = OpPlan"
| "operation_of_intent IntentApply = OpApply"

section \<open>Bindings\<close>

record host_identity =
  host_id :: string
  boot_id :: string
  session_id :: string
  hostname :: string
  host_os_family :: os_family
  os_version :: string
  architecture :: string
  fingerprint :: digest

record tool_identity =
  tool_name :: string
  tool_version :: string
  build_digest :: "digest option"

datatype source_kind = LocalFile | Bundled | Remote | Api

record source_identity =
  source_origin :: source_kind
  source_locator :: string
  source_digest :: digest

record input_identity =
  input_digest :: digest
  input_size_bytes :: u64

datatype resource_kind = File | DirectoryManifest

record resource_binding =
  logical_id :: logical_resource_id
  resource_shape :: resource_kind
  resource_digest :: digest
  resource_size_bytes :: u64

record observed_value =
  observed_capability :: capability_id
  parameters_digest :: digest
  observed_at :: datetime
  facts :: json_map

record observed_state =
  captured_at :: datetime
  state_digest :: digest
  state_values :: "(uuid \<times> observed_value) list"

section \<open>Actions and profiles\<close>

datatype precondition =
    Elevation bool
  | PrivilegeHeld privilege
  | CapabilityAvailable capability_id
  | HostFingerprint digest
  | ObservedStateDigest digest
  | OperatingSystem os_family "string option"

datatype precondition_kind =
    KElevation | KPrivilege | KCapabilityAvailable | KHostFingerprint | KObservedStateDigest
  | KOperatingSystem

fun precondition_kind_of :: "precondition \<Rightarrow> precondition_kind" where
  "precondition_kind_of (Elevation r) = KElevation"
| "precondition_kind_of (PrivilegeHeld p) = KPrivilege"
| "precondition_kind_of (CapabilityAvailable c) = KCapabilityAvailable"
| "precondition_kind_of (HostFingerprint d) = KHostFingerprint"
| "precondition_kind_of (ObservedStateDigest d) = KObservedStateDigest"
| "precondition_kind_of (OperatingSystem f v) = KOperatingSystem"

datatype artifact_kind = Log | Report | Evidence | RollbackState | Output

record artifact =
  artifact_id :: uuid
  artifact_class :: artifact_kind
  media_type :: string
  artifact_locator :: string
  artifact_digest :: digest
  artifact_size_bytes :: u64
  artifact_created_at :: datetime
  artifact_metadata :: json_map

record profile_step =
  step_id :: uuid
  step_capability_id :: capability_id
  step_parameters :: json_map
  step_depends_on :: "uuid list"
  step_continue_on_error :: bool

record planned_action =
  action_id :: uuid
  source_step :: uuid
  action_capability :: capability_id
  action_operation :: operation
  action_parameters :: json_map
  action_depends_on :: "uuid list"
  action_continue_on_error :: bool
  facts_digest :: digest
  preconditions :: "precondition list"
  risk :: risk_level
  action_reversibility :: reversibility
  reboot :: reboot_requirement
  privileges :: "privilege list"
  action_metadata :: json_map

record profile =
  profile_id :: uuid
  profile_name :: string
  profile_version :: string
  profile_description :: "string option"
  profile_created_at :: datetime
  profile_expires_at :: "datetime option"
  default_continue_on_error :: bool
  profile_steps :: "profile_step list"
  profile_metadata :: json_map

section \<open>Plans\<close>

record plan =
  plan_id :: uuid
  plan_run_id :: uuid
  plan_intent :: execution_intent
  plan_profile_id :: uuid
  plan_profile_digest :: digest
  plan_host :: host_identity
  plan_tool :: tool_identity
  plan_package_digest :: digest
  plan_source :: source_identity
  plan_input :: input_identity
  plan_resources :: "resource_binding list"
  plan_observed_state :: observed_state
  plan_issued_at :: datetime
  plan_expires_at :: datetime
  plan_actions :: "planned_action list"
  plan_metadata :: json_map

text \<open>
  The fields \<open>schema_version\<close> have one value each, \<open>V3\<close> or \<open>V4\<close>, and are left out of the records; the
  serializers write them.
\<close>

section \<open>Results\<close>

datatype action_status = Succeeded | Findings | Blocked | Skipped | Failed

record action_receipt =
  receipt_action_id :: uuid
  receipt_capability :: capability_id
  pre_state_digest :: digest
  post_state_digest :: digest
  receipt_status :: action_status

record action_result =
  result_action_id :: uuid
  result_capability :: capability_id
  result_action_status :: action_status
  action_started_at :: datetime
  action_completed_at :: datetime
  result_action_metadata :: json_map

datatype severity = SevInfo | SevLow | SevMedium | SevHigh | SevCritical
datatype finding_status = FPass | FFail | FWarning | FInfo | FSkipped | FError

record finding =
  finding_id :: uuid
  finding_capability :: capability_id
  finding_action_id :: "uuid option"
  finding_code :: string
  finding_result :: finding_status
  finding_severity :: severity
  finding_message :: string
  finding_observed_at :: datetime
  finding_evidence :: json_map

datatype result_status =
  StCompleted | StExecutionFailed | StWarnings | StUnsupported | StRejected | StCancelled

datatype exit_code =
  ExCompleted | ExExecutionFailure | ExWarnings | ExUnsupported | ExRejected | ExCancelled

fun as_i32 :: "exit_code \<Rightarrow> int" where
  "as_i32 ExCompleted = 0"
| "as_i32 ExExecutionFailure = 1"
| "as_i32 ExWarnings = 2"
| "as_i32 ExUnsupported = 3"
| "as_i32 ExRejected = 4"
| "as_i32 ExCancelled = 5"

fun for_status :: "result_status \<Rightarrow> exit_code" where
  "for_status StCompleted = ExCompleted"
| "for_status StExecutionFailed = ExExecutionFailure"
| "for_status StWarnings = ExWarnings"
| "for_status StUnsupported = ExUnsupported"
| "for_status StRejected = ExRejected"
| "for_status StCancelled = ExCancelled"

record result =
  result_id :: uuid
  result_run_id :: uuid
  result_plan_id :: uuid
  result_profile_id :: uuid
  result_capability_id :: "capability_id option"
  result_operation :: operation
  result_host :: host_identity
  result_final_status :: result_status
  result_started_at :: datetime
  result_completed_at :: datetime
  result_actions :: "action_result list"
  result_findings :: "finding list"
  result_summary :: string
  result_artifacts :: "artifact list"
  result_metadata :: json_map

record worker_result =
  worker_plan_id :: uuid
  worker_run_id :: uuid
  worker_plan_digest :: digest
  journal_terminal_hash :: "digest option"
  receipts :: "action_receipt list"
  artifact_manifest :: "artifact list"
  final_status :: result_status
  reason :: "string option"
  worker_exit_code :: int

definition result_exit_code :: "result \<Rightarrow> exit_code" where
  "result_exit_code r = for_status (result_final_status r)"

section \<open>First facts\<close>

lemma capability_id_new_Inr_iff:
  "capability_id_new v = Inr c \<longleftrightarrow> c = v \<and> v \<noteq> [] \<and> length v \<le> 128 \<and>
     list_all (\<lambda>b. is_ascii_alphanumeric b \<or> b \<in> {CHR ''.'', CHR ''-'', CHR ''_''}) v"
  by (auto simp: capability_id_new_def)

text \<open>
  A logical resource identifier is never a path: it contains no separator, no drive colon and no
  upper-case letter.
\<close>

lemma logical_resource_id_no_path:
  assumes "logical_resource_id_new v = Inr r"
  shows "r = v \<and> CHR ''/'' \<notin> set r \<and> CHR 0x5C \<notin> set r \<and> CHR '':'' \<notin> set r"
  using assms
  by (auto simp: logical_resource_id_new_def list_all_iff ascii_defs less_eq_char_def
      split: if_splits)

lemma exit_code_inj: "as_i32 (for_status s) = as_i32 (for_status t) \<longleftrightarrow> s = t"
  by (cases s; cases t) simp_all

end
