(* ===== verification/Domain_Serde.thy ===== *)
theory Domain_Serde
  imports Domain_Model
begin

text \<open>
  The JSON form of the contract types, as their \<open>serde\<close> attributes give it: snake-case names, renamed
  fields, fields that are left out when empty, and an internally tagged enum. \<open>serde_json::to_value\<close>
  collects the fields of a struct in a \<open>BTreeMap\<close>. The theory shows that these forms are well-formed JSON
  values and that each of them determines the value it was made from.
\<close>

section \<open>Fields and objects\<close>

definition field :: "string \<Rightarrow> jvalue \<Rightarrow> json_map" where
  "field k v = [(k, v)]"

text \<open>\<open>skip_serializing_if\<close> for options, vectors and maps.\<close>

definition opt_field :: "string \<Rightarrow> ('a \<Rightarrow> jvalue) \<Rightarrow> 'a option \<Rightarrow> json_map" where
  "opt_field k f x = (case x of None \<Rightarrow> [] | Some a \<Rightarrow> [(k, f a)])"

definition vec_field :: "string \<Rightarrow> ('a \<Rightarrow> jvalue) \<Rightarrow> 'a list \<Rightarrow> json_map" where
  "vec_field k f xs = (if xs = [] then [] else [(k, JArray (map f xs))])"

definition map_field :: "string \<Rightarrow> json_map \<Rightarrow> json_map" where
  "map_field k m = (if m = [] then [] else [(k, JObject m)])"

definition obj :: "json_map list \<Rightarrow> jvalue" where
  "obj fs = JObject (sort_key fst (concat fs))"

definition jnat :: "nat \<Rightarrow> jvalue" where
  "jnat n = JNumber (PosInt n)"

definition jdigest :: "digest \<Rightarrow> jvalue" where
  "jdigest d = JString (to_hex d)"

definition juuid :: "'h ext \<Rightarrow> uuid \<Rightarrow> jvalue" where
  "juuid E u = JString (uuid_text E u)"

definition jtime :: "'h ext \<Rightarrow> datetime \<Rightarrow> jvalue" where
  "jtime E t = JString (time_text E t)"

section \<open>Enums\<close>

fun operation_text :: "operation \<Rightarrow> string" where
  "operation_text OpAudit = ''audit''"
| "operation_text OpPlan = ''plan''"
| "operation_text OpApply = ''apply''"

fun intent_text :: "execution_intent \<Rightarrow> string" where
  "intent_text IntentAudit = ''audit''"
| "intent_text IntentPlan = ''plan''"
| "intent_text IntentApply = ''apply''"

fun risk_text :: "risk_level \<Rightarrow> string" where
  "risk_text RiskNone = ''none''"
| "risk_text RiskLow = ''low''"
| "risk_text RiskModerate = ''moderate''"
| "risk_text RiskHigh = ''high''"
| "risk_text RiskCritical = ''critical''"

fun reversibility_text :: "reversibility \<Rightarrow> string" where
  "reversibility_text NotApplicable = ''not_applicable''"
| "reversibility_text Reversible = ''reversible''"
| "reversibility_text ConditionallyReversible = ''conditionally_reversible''"
| "reversibility_text Irreversible = ''irreversible''"

fun reboot_text :: "reboot_requirement \<Rightarrow> string" where
  "reboot_text NotRequired = ''not_required''"
| "reboot_text Recommended = ''recommended''"
| "reboot_text Required = ''required''"

fun privilege_text :: "privilege \<Rightarrow> string" where
  "privilege_text User = ''user''"
| "privilege_text Administrator = ''administrator''"
| "privilege_text LocalSystem = ''local_system''"
| "privilege_text BackupOperator = ''backup_operator''"
| "privilege_text SecurityOperator = ''security_operator''"

fun os_family_text :: "os_family \<Rightarrow> string" where
  "os_family_text Windows = ''windows''"
| "os_family_text Linux = ''linux''"
| "os_family_text Macos = ''macos''"
| "os_family_text OtherOs = ''other''"

fun source_kind_text :: "source_kind \<Rightarrow> string" where
  "source_kind_text LocalFile = ''local_file''"
| "source_kind_text Bundled = ''bundled''"
| "source_kind_text Remote = ''remote''"
| "source_kind_text Api = ''api''"

fun resource_kind_text :: "resource_kind \<Rightarrow> string" where
  "resource_kind_text File = ''file''"
| "resource_kind_text DirectoryManifest = ''directory_manifest''"

lemma enum_text_inj [simp]:
  "operation_text a = operation_text b \<longleftrightarrow> a = b"
  "intent_text c = intent_text d \<longleftrightarrow> c = d"
  "risk_text e = risk_text f \<longleftrightarrow> e = f"
  "reversibility_text g = reversibility_text h \<longleftrightarrow> g = h"
  "reboot_text i = reboot_text j \<longleftrightarrow> i = j"
  "privilege_text k = privilege_text l \<longleftrightarrow> k = l"
  "os_family_text m = os_family_text n \<longleftrightarrow> m = n"
  "source_kind_text q = source_kind_text r \<longleftrightarrow> q = r"
  "resource_kind_text s = resource_kind_text t \<longleftrightarrow> s = t"
proof -
  show "operation_text a = operation_text b \<longleftrightarrow> a = b"
    by (cases a; cases b) simp_all
  show "intent_text c = intent_text d \<longleftrightarrow> c = d"
    by (cases c; cases d) simp_all
  show "risk_text e = risk_text f \<longleftrightarrow> e = f"
    by (cases e; cases f) simp_all
  show "reversibility_text g = reversibility_text h \<longleftrightarrow> g = h"
    by (cases g; cases h) simp_all
  show "reboot_text i = reboot_text j \<longleftrightarrow> i = j"
    by (cases i; cases j) simp_all
  show "privilege_text k = privilege_text l \<longleftrightarrow> k = l"
    by (cases k; cases l) simp_all
  show "os_family_text m = os_family_text n \<longleftrightarrow> m = n"
    by (cases m; cases n) simp_all
  show "source_kind_text q = source_kind_text r \<longleftrightarrow> q = r"
    by (cases q; cases r) simp_all
  show "resource_kind_text s = resource_kind_text t \<longleftrightarrow> s = t"
    by (cases s; cases t) simp_all
qed

section \<open>Structs\<close>

definition host_json :: "host_identity \<Rightarrow> jvalue" where
  "host_json h = obj [
     field ''host_id'' (JString (host_id h)), field ''boot_id'' (JString (boot_id h)),
     field ''session_id'' (JString (session_id h)), field ''hostname'' (JString (hostname h)),
     field ''os_family'' (JString (os_family_text (host_os_family h))),
     field ''os_version'' (JString (os_version h)),
     field ''architecture'' (JString (architecture h)),
     field ''fingerprint'' (jdigest (fingerprint h))]"

text \<open>\<open>HostFingerprintPayload\<close>: the identity fields without the fingerprint.\<close>

definition host_payload_json :: "host_identity \<Rightarrow> jvalue" where
  "host_payload_json h = obj [
     field ''host_id'' (JString (host_id h)), field ''boot_id'' (JString (boot_id h)),
     field ''session_id'' (JString (session_id h)), field ''hostname'' (JString (hostname h)),
     field ''os_family'' (JString (os_family_text (host_os_family h))),
     field ''os_version'' (JString (os_version h)),
     field ''architecture'' (JString (architecture h))]"

definition tool_json :: "tool_identity \<Rightarrow> jvalue" where
  "tool_json t = obj [
     field ''name'' (JString (tool_name t)), field ''version'' (JString (tool_version t)),
     opt_field ''build_digest'' jdigest (build_digest t)]"

definition source_json :: "source_identity \<Rightarrow> jvalue" where
  "source_json s = obj [
     field ''kind'' (JString (source_kind_text (source_origin s))),
     field ''locator'' (JString (source_locator s)), field ''digest'' (jdigest (source_digest s))]"

definition input_json :: "input_identity \<Rightarrow> jvalue" where
  "input_json i = obj [
     field ''digest'' (jdigest (input_digest i)), field ''size_bytes'' (jnat (input_size_bytes i))]"

definition resource_json :: "resource_binding \<Rightarrow> jvalue" where
  "resource_json r = obj [
     field ''logical_id'' (JString (logical_id r)),
     field ''kind'' (JString (resource_kind_text (resource_shape r))),
     field ''digest'' (jdigest (resource_digest r)),
     field ''size_bytes'' (jnat (resource_size_bytes r))]"

definition observed_value_json :: "'h ext \<Rightarrow> observed_value \<Rightarrow> jvalue" where
  "observed_value_json E v = obj [
     field ''capability'' (JString (observed_capability v)),
     field ''parameters_digest'' (jdigest (parameters_digest v)),
     field ''observed_at'' (jtime E (observed_at v)), map_field ''facts'' (facts v)]"

text \<open>A map with UUID keys becomes an object with the texts of the keys.\<close>

definition uuid_map_json :: "'h ext \<Rightarrow> ('a \<Rightarrow> jvalue) \<Rightarrow> (uuid \<times> 'a) list \<Rightarrow> jvalue" where
  "uuid_map_json E f m = obj (map (\<lambda>(u, a). field (uuid_text E u) (f a)) m)"

definition observed_state_json :: "'h ext \<Rightarrow> observed_state \<Rightarrow> jvalue" where
  "observed_state_json E s = obj [
     field ''captured_at'' (jtime E (captured_at s)), field ''digest'' (jdigest (state_digest s)),
     field ''values'' (uuid_map_json E (observed_value_json E) (state_values s))]"

text \<open>The facts that \<open>ObservedStateV3::calculated_digest\<close> hashes: a tuple for every step.\<close>

definition observed_facts_json :: "'h ext \<Rightarrow> observed_state \<Rightarrow> jvalue" where
  "observed_facts_json E s = uuid_map_json E
     (\<lambda>v. JArray [JString (observed_capability v), jdigest (parameters_digest v), JObject (facts v)])
     (state_values s)"

fun precondition_fields :: "precondition \<Rightarrow> json_map list" where
  "precondition_fields (Elevation r) =
     [field ''kind'' (JString ''elevation''), field ''required'' (JBool r)]"
| "precondition_fields (PrivilegeHeld p) =
     [field ''kind'' (JString ''privilege''), field ''privilege'' (JString (privilege_text p))]"
| "precondition_fields (CapabilityAvailable c) =
     [field ''kind'' (JString ''capability_available''), field ''capability'' (JString c)]"
| "precondition_fields (HostFingerprint d) =
     [field ''kind'' (JString ''host_fingerprint''), field ''fingerprint'' (jdigest d)]"
| "precondition_fields (ObservedStateDigest d) =
     [field ''kind'' (JString ''observed_state_digest''), field ''digest'' (jdigest d)]"
| "precondition_fields (OperatingSystem f v) =
     [field ''kind'' (JString ''operating_system''), field ''family'' (JString (os_family_text f)),
          opt_field ''minimum_version'' JString v]"

definition precondition_json :: "precondition \<Rightarrow> jvalue" where
  "precondition_json p = obj (precondition_fields p)"

definition planned_action_json :: "'h ext \<Rightarrow> planned_action \<Rightarrow> jvalue" where
  "planned_action_json E a = obj [
     field ''action_id'' (juuid E (action_id a)), field ''source_step_id'' (juuid E (source_step a)),
     field ''capability_id'' (JString (action_capability a)),
     field ''operation'' (JString (operation_text (action_operation a))),
     map_field ''parameters'' (action_parameters a),
     vec_field ''depends_on'' (juuid E) (action_depends_on a),
     field ''continue_on_error'' (JBool (action_continue_on_error a)),
     field ''facts_digest'' (jdigest (facts_digest a)),
     vec_field ''preconditions'' precondition_json (preconditions a),
     field ''risk'' (JString (risk_text (risk a))),
     field ''reversibility'' (JString (reversibility_text (action_reversibility a))),
     field ''reboot'' (JString (reboot_text (reboot a))),
     vec_field ''privileges'' (\<lambda>p. JString (privilege_text p)) (privileges a),
     map_field ''metadata'' (action_metadata a)]"

definition profile_step_json :: "'h ext \<Rightarrow> profile_step \<Rightarrow> jvalue" where
  "profile_step_json E s = obj [
     field ''step_id'' (juuid E (step_id s)), field ''capability_id'' (JString (step_capability_id s)),
     map_field ''parameters'' (step_parameters s), vec_field ''depends_on'' (juuid E) (step_depends_on s),
     field ''continue_on_error'' (JBool (step_continue_on_error s))]"

text \<open>\<open>ProfileDefaultsV3\<close> has one field and is kept as the Boolean.\<close>

definition profile_json :: "'h ext \<Rightarrow> profile \<Rightarrow> jvalue" where
  "profile_json E p = obj [
     field ''schema_version'' (JString ''3.0''), field ''profile_id'' (juuid E (profile_id p)),
     field ''name'' (JString (profile_name p)), field ''version'' (JString (profile_version p)),
     opt_field ''description'' JString (profile_description p),
     field ''created_at'' (jtime E (profile_created_at p)),
     opt_field ''expires_at'' (jtime E) (profile_expires_at p),
     field ''defaults'' (obj [field ''continue_on_error'' (JBool (default_continue_on_error p))]),
     field ''steps'' (JArray (map (profile_step_json E) (profile_steps p))),
     map_field ''metadata'' (profile_metadata p)]"

definition plan_json :: "'h ext \<Rightarrow> plan \<Rightarrow> jvalue" where
  "plan_json E p = obj [
     field ''schema_version'' (JString ''4.0''),
     field ''plan_id'' (juuid E (plan_id p)), field ''run_id'' (juuid E (plan_run_id p)),
     field ''intent'' (JString (intent_text (plan_intent p))),
     field ''profile_id'' (juuid E (plan_profile_id p)),
     field ''profile_digest'' (jdigest (plan_profile_digest p)),
     field ''host'' (host_json (plan_host p)), field ''tool'' (tool_json (plan_tool p)),
     field ''package_digest'' (jdigest (plan_package_digest p)),
     field ''source'' (source_json (plan_source p)), field ''input'' (input_json (plan_input p)),
     vec_field ''resources'' resource_json (plan_resources p),
     field ''observed_state'' (observed_state_json E (plan_observed_state p)),
     field ''issued_at'' (jtime E (plan_issued_at p)),
     field ''expires_at'' (jtime E (plan_expires_at p)),
     field ''actions'' (JArray (map (planned_action_json E) (plan_actions p))),
     map_field ''metadata'' (plan_metadata p)]"

section \<open>Reading fields back\<close>

definition vals :: "string \<Rightarrow> json_map \<Rightarrow> jvalue set" where
  "vals k m = {v. (k, v) \<in> set m}"

lemma vals_append [simp]: "vals k [] = {}" "vals k (m @ n) = vals k m \<union> vals k n"
  by (auto simp: vals_def)

definition vec_vals :: "('a \<Rightarrow> jvalue) \<Rightarrow> 'a list \<Rightarrow> jvalue set" where
  "vec_vals f xs = (if xs = [] then {} else {JArray (map f xs)})"

definition map_vals :: "json_map \<Rightarrow> jvalue set" where
  "map_vals m = (if m = [] then {} else {JObject m})"

lemma vals_fields [simp]:
  "vals k (field l v) = (if k = l then {v} else {})"
  "vals k (opt_field l f x) = (if k = l then f ` set_option x else {})"
  "vals k (vec_field l g xs) = (if k = l then vec_vals g xs else {})"
  "vals k (map_field l m) = (if k = l then map_vals m else {})"
  by (auto simp: vals_def field_def opt_field_def vec_field_def map_field_def vec_vals_def map_vals_def
      split: option.splits)

lemma map_vals_inj [simp]: "map_vals m = map_vals n \<longleftrightarrow> m = n"
  by (auto simp: map_vals_def)

lemma vec_vals_inj: "inj f \<Longrightarrow> vec_vals f xs = vec_vals f ys \<longleftrightarrow> xs = ys"
  by (auto simp: vec_vals_def inj_map_eq_map)

lemma obj_eq_vals: "obj fs = obj gs \<Longrightarrow> vals k (concat fs) = vals k (concat gs)"
proof -
  assume "obj fs = obj gs"
  then have "set (sort_key fst (concat fs)) = set (sort_key fst (concat gs))"
    by (simp add: obj_def)
  then show ?thesis by (simp add: vals_def)
qed

lemma jvalue_inj [simp]:
  "jdigest d = jdigest e \<longleftrightarrow> d = e" "jnat m = jnat n \<longleftrightarrow> m = n"
  by (simp_all add: jdigest_def jnat_def to_hex_inj)

lemma juuid_inj: "uuid_contract E \<Longrightarrow> juuid E u = juuid E v \<longleftrightarrow> u = v"
  by (auto simp: juuid_def uuid_contract_def dest: injD)

lemma jtime_inj: "time_contract E \<Longrightarrow> jtime E t = jtime E u \<longleftrightarrow> t = u"
  by (auto simp: jtime_def time_contract_def dest: injD)

section \<open>The forms determine the values\<close>

lemma option_image_inj: "inj f \<Longrightarrow> f ` set_option x = f ` set_option y \<longleftrightarrow> x = y"
  by (cases x; cases y) (auto dest: injD)

lemma inj_jdigest: "inj jdigest"
  by (rule injI) simp


lemma host_json_inj:
  assumes "host_json a = host_json b"
  shows "a = b"
proof -
  note eq = obj_eq_vals [OF assms [unfolded host_json_def]]
  show ?thesis
    using eq [of "''host_id''"] eq [of "''boot_id''"] eq [of "''session_id''"]
      eq [of "''hostname''"] eq [of "''os_family''"] eq [of "''os_version''"]
      eq [of "''architecture''"] eq [of "''fingerprint''"]
    by (simp add: host_identity.equality)
qed

lemma tool_json_inj:
  assumes "tool_json a = tool_json b"
  shows "a = b"
proof -
  note eq = obj_eq_vals [OF assms [unfolded tool_json_def]]
  show ?thesis
    using eq [of "''name''"] eq [of "''version''"] eq [of "''build_digest''"]
    by (simp add: tool_identity.equality option_image_inj inj_jdigest)
qed

lemma source_json_inj:
  assumes "source_json a = source_json b"
  shows "a = b"
proof -
  note eq = obj_eq_vals [OF assms [unfolded source_json_def]]
  show ?thesis
    using eq [of "''kind''"] eq [of "''locator''"] eq [of "''digest''"]
    by (simp add: source_identity.equality)
qed

lemma input_json_inj:
  assumes "input_json a = input_json b"
  shows "a = b"
proof -
  note eq = obj_eq_vals [OF assms [unfolded input_json_def]]
  show ?thesis
    using eq [of "''digest''"] eq [of "''size_bytes''"]
    by (simp add: input_identity.equality)
qed

lemma resource_json_inj:
  assumes "resource_json a = resource_json b"
  shows "a = b"
proof -
  note eq = obj_eq_vals [OF assms [unfolded resource_json_def]]
  show ?thesis
    using eq [of "''logical_id''"] eq [of "''kind''"] eq [of "''digest''"]
      eq [of "''size_bytes''"]
    by (simp add: resource_binding.equality)
qed

lemma observed_value_json_inj:
  assumes "time_contract E" "observed_value_json E a = observed_value_json E b"
  shows "a = b"
proof -
  note eq = obj_eq_vals [OF assms(2) [unfolded observed_value_json_def]]
  show ?thesis
    using eq [of "''capability''"] eq [of "''parameters_digest''"]
      eq [of "''observed_at''"] eq [of "''facts''"]
    by (simp add: observed_value.equality jtime_inj [OF assms(1)])
qed

text \<open>The entries of a \<open>BTreeMap\<close> come in strictly increasing key order.\<close>

definition map_entries_ok :: "('k :: linorder \<times> 'a) list \<Rightarrow> bool" where
  "map_entries_ok m \<longleftrightarrow> sorted_wrt (<) (map fst m)"

lemma map_entries_unique:
  assumes "map_entries_ok m" "map_entries_ok n" "set m = set n"
  shows "m = n"
proof -
  have dist: "distinct (map fst m)" "distinct (map fst n)"
    and sorted: "sorted (map fst m)" "sorted (map fst n)"
    using assms by (simp_all add: map_entries_ok_def strict_sorted_iff)
  have "mset m = mset n"
    using dist assms(3) by (simp add: distinct_map set_eq_iff_mset_eq_distinct)
  then have "sort_key fst m = n"
    using dist sorted by (intro sort_key_inj_key_eq) (simp_all add: distinct_map)
  then show ?thesis
    using sorted by (simp add: sort_key_id_if_sorted)
qed

lemma uuid_map_json_inj:
  assumes "uuid_contract E" "inj f" "map_entries_ok m" "map_entries_ok n"
    and "uuid_map_json E f m = uuid_map_json E f n"
  shows "m = n"
proof -
  have eq: "concat (map (\<lambda>(u, a). field (uuid_text E u) (f a)) l) = map (\<lambda>(u, a). (uuid_text E u, f a)) l" for l
    by (induction l) (auto simp: field_def)
  have "set (sort_key fst (map (\<lambda>(u, a). (uuid_text E u, f a)) m)) =
      set (sort_key fst (map (\<lambda>(u, a). (uuid_text E u, f a)) n))"
    using assms(5) by (simp add: uuid_map_json_def obj_def eq)
  then have "(\<lambda>(u, a). (uuid_text E u, f a)) ` set m = (\<lambda>(u, a). (uuid_text E u, f a)) ` set n"
    by simp
  moreover have "inj (\<lambda>(u, a). (uuid_text E u, f a))"
    using assms(1,2) by (auto simp: uuid_contract_def inj_def)
  ultimately have "set m = set n"
    by (simp add: inj_image_eq_iff)
  with assms(3,4) show ?thesis by (rule map_entries_unique)
qed

lemma precondition_json_inj: "inj precondition_json"
proof (rule injI)
  fix a b
  assume "precondition_json a = precondition_json b"
  then have eq: "vals k (concat (precondition_fields a)) = vals k (concat (precondition_fields b))" for k
    unfolding precondition_json_def by (rule obj_eq_vals)
  have "inj JString" by (simp add: inj_def)
  with eq [of "''kind''"] eq [of "''required''"] eq [of "''privilege''"] eq [of "''capability''"]
    eq [of "''fingerprint''"] eq [of "''digest''"] eq [of "''family''"] eq [of "''minimum_version''"]
  show "a = b"
    by (cases a; cases b) (simp_all add: option_image_inj)
qed

lemma inj_juuid: "uuid_contract E \<Longrightarrow> inj (juuid E)"
  by (rule injI) (simp add: juuid_inj)

lemma inj_observed_value_json: "time_contract E \<Longrightarrow> inj (observed_value_json E)"
  by (rule injI) (rule observed_value_json_inj)

lemma inj_privilege_json: "inj (\<lambda>p. JString (privilege_text p))"
  by (rule injI) simp

lemma inj_resource_json: "inj resource_json"
  by (rule injI) (rule resource_json_inj)

lemma planned_action_json_inj:
  assumes "uuid_contract E" "planned_action_json E a = planned_action_json E b"
  shows "a = b"
proof -
  note eq = obj_eq_vals [OF assms(2) [unfolded planned_action_json_def]]
  show ?thesis
    using eq [of "''action_id''"] eq [of "''source_step_id''"]
      eq [of "''capability_id''"] eq [of "''operation''"] eq [of "''parameters''"]
      eq [of "''depends_on''"] eq [of "''continue_on_error''"]
      eq [of "''facts_digest''"] eq [of "''preconditions''"] eq [of "''risk''"]
      eq [of "''reversibility''"] eq [of "''reboot''"] eq [of "''privileges''"]
      eq [of "''metadata''"]
    by (simp add: planned_action.equality juuid_inj [OF assms(1)] vec_vals_inj inj_juuid [OF assms(1)]
        precondition_json_inj inj_privilege_json)
qed

definition observed_state_ok :: "observed_state \<Rightarrow> bool" where
  "observed_state_ok s \<longleftrightarrow> map_entries_ok (state_values s) \<and>
     (\<forall>e\<in>set (state_values s). jvalue_ok (JObject (facts (snd e))))"

lemma observed_state_json_inj:
  assumes "uuid_contract E" "time_contract E" "observed_state_ok a" "observed_state_ok b"
    and "observed_state_json E a = observed_state_json E b"
  shows "a = b"
proof -
  note eq = obj_eq_vals [OF assms(5) [unfolded observed_state_json_def]]
  have "state_values a = state_values b"
    using eq [of "''values''"] assms
    by (intro uuid_map_json_inj [where f = "observed_value_json E"])
       (simp_all add: inj_observed_value_json observed_state_ok_def)
  then show ?thesis
    using eq [of "''captured_at''"] eq [of "''digest''"]
    by (simp add: observed_state.equality jtime_inj [OF assms(2)])
qed

text \<open>What the Rust types guarantee of a plan: maps in key order and sizes that fit \<open>u64\<close>.\<close>

definition planned_action_ok :: "planned_action \<Rightarrow> bool" where
  "planned_action_ok a \<longleftrightarrow>
     jvalue_ok (JObject (action_parameters a)) \<and> jvalue_ok (JObject (action_metadata a))"

definition plan_ok :: "plan \<Rightarrow> bool" where
  "plan_ok p \<longleftrightarrow> observed_state_ok (plan_observed_state p) \<and>
     input_size_bytes (plan_input p) < u64_bound \<and>
     (\<forall>r\<in>set (plan_resources p). resource_size_bytes r < u64_bound) \<and>
     (\<forall>a\<in>set (plan_actions p). planned_action_ok a) \<and> jvalue_ok (JObject (plan_metadata p))"

lemma plan_json_inj:
  assumes E: "uuid_contract E" "time_contract E" and ok: "plan_ok a" "plan_ok b"
    and "plan_json E a = plan_json E b"
  shows "a = b"
proof -
  note eq = obj_eq_vals [OF assms(5) [unfolded plan_json_def]]
  have 1: "plan_host a = plan_host b" "plan_tool a = plan_tool b" "plan_source a = plan_source b"
    "plan_input a = plan_input b"
    using eq [of "''host''"] eq [of "''tool''"] eq [of "''source''"] eq [of "''input''"]
      host_json_inj tool_json_inj source_json_inj input_json_inj by simp_all
  have 2: "plan_observed_state a = plan_observed_state b"
    using eq [of "''observed_state''"] ok
    by (intro observed_state_json_inj [OF E]) (simp_all add: plan_ok_def)
  have "inj (planned_action_json E)"
    by (rule injI) (rule planned_action_json_inj [OF E(1)])
  then have 3: "plan_actions a = plan_actions b"
    using eq [of "''actions''"] by (simp add: inj_map_eq_map)
  show ?thesis
    using 1 2 3 eq [of "''plan_id''"] eq [of "''run_id''"] eq [of "''intent''"]
      eq [of "''profile_id''"] eq [of "''profile_digest''"]
      eq [of "''package_digest''"] eq [of "''resources''"] eq [of "''issued_at''"]
      eq [of "''expires_at''"] eq [of "''metadata''"]
    by (simp add: plan.equality juuid_inj [OF E(1)] jtime_inj [OF E(2)] vec_vals_inj inj_resource_json)
qed

section \<open>The forms are well-formed\<close>

definition keyed :: "string \<Rightarrow> json_map \<Rightarrow> bool" where
  "keyed k m \<longleftrightarrow> map fst m = [] \<or> map fst m = [k]"

lemma keyed_fields [simp]:
  "keyed k (field k v)" "keyed k (opt_field k f x)" "keyed k (vec_field k g xs)" "keyed k (map_field k m)"
  by (simp_all add: keyed_def field_def opt_field_def vec_field_def map_field_def split: option.splits)

lemma keyed_distinct:
  "list_all2 keyed ks fs \<Longrightarrow> distinct ks \<Longrightarrow>
     distinct (map fst (concat fs)) \<and> fst ` set (concat fs) \<subseteq> set ks"
proof (induction rule: list_all2_induct)
  case (Cons k ks m fs)
  then have "distinct (map fst (concat fs))" "fst ` set (concat fs) \<subseteq> set ks" "k \<notin> set ks"
    by simp_all
  moreover from this have "k \<notin> fst ` set (concat fs)" by blast
  ultimately show ?case
    using Cons.hyps(1) by (auto simp: keyed_def simp del: set_concat)
qed simp

definition field_ok :: "json_map \<Rightarrow> bool" where
  "field_ok m \<longleftrightarrow> (\<forall>e\<in>set m. jvalue_ok (snd e))"

lemma field_ok_simps [simp]:
  "field_ok (field k v) \<longleftrightarrow> jvalue_ok v"
  "field_ok (opt_field k f x) \<longleftrightarrow> (\<forall>a\<in>set_option x. jvalue_ok (f a))"
  "field_ok (vec_field k g xs) \<longleftrightarrow> (\<forall>a\<in>set xs. jvalue_ok (g a))"
  "field_ok (map_field k m) \<longleftrightarrow> jvalue_ok (JObject m)"
  by (auto simp: field_ok_def field_def opt_field_def vec_field_def map_field_def split: option.splits)

lemma obj_ok:
  assumes "list_all2 keyed ks fs" "distinct ks" "list_all field_ok fs"
  shows "jvalue_ok (obj fs)"
proof -
  let ?ms = "sort_key fst (concat fs)"
  have "distinct (map fst (concat fs))"
    using keyed_distinct [OF assms(1,2)] by simp
  then have "distinct (map fst ?ms)"
    by (metis distinct_map distinct_sort set_sort)
  then have "sorted_wrt (<) (map fst ?ms)"
    by (simp add: strict_sorted_iff)
  then show ?thesis
    using assms(3) by (auto simp: obj_def list_all_iff field_ok_def)
qed

lemma juuid_ok [simp]: "jvalue_ok (juuid E u)" "jvalue_ok (jtime E t)" "jvalue_ok (jdigest d)"
  by (simp_all add: juuid_def jtime_def jdigest_def)

lemma jnat_ok [simp]: "jvalue_ok (jnat n) \<longleftrightarrow> n < u64_bound"
  by (simp add: jnat_def)

lemma host_json_ok [simp]: "jvalue_ok (host_json a)"
  unfolding host_json_def
  by (rule obj_ok [where ks = "[''host_id'', ''boot_id'', ''session_id'', ''hostname'', ''os_family'', ''os_version'', ''architecture'', ''fingerprint'']"]) (simp_all)

lemma host_payload_json_ok [simp]: "jvalue_ok (host_payload_json a)"
  unfolding host_payload_json_def
  by (rule obj_ok [where ks = "[''host_id'', ''boot_id'', ''session_id'', ''hostname'', ''os_family'', ''os_version'', ''architecture'']"]) (simp_all)

lemma tool_json_ok [simp]: "jvalue_ok (tool_json a)"
  unfolding tool_json_def
  by (rule obj_ok [where ks = "[''name'', ''version'', ''build_digest'']"]) (simp_all)

lemma source_json_ok [simp]: "jvalue_ok (source_json a)"
  unfolding source_json_def
  by (rule obj_ok [where ks = "[''kind'', ''locator'', ''digest'']"]) (simp_all)

lemma input_json_ok [simp]: "input_size_bytes a < u64_bound \<Longrightarrow> jvalue_ok (input_json a)"
  unfolding input_json_def
  by (rule obj_ok [where ks = "[''digest'', ''size_bytes'']"]) (simp_all)

lemma resource_json_ok [simp]: "resource_size_bytes a < u64_bound \<Longrightarrow> jvalue_ok (resource_json a)"
  unfolding resource_json_def
  by (rule obj_ok [where ks = "[''logical_id'', ''kind'', ''digest'', ''size_bytes'']"]) (simp_all)

lemma observed_value_json_ok [simp]: "jvalue_ok (JObject (facts a)) \<Longrightarrow> jvalue_ok (observed_value_json E a)"
  unfolding observed_value_json_def
  by (rule obj_ok [where ks = "[''capability'', ''parameters_digest'', ''observed_at'', ''facts'']"]) (simp_all)

lemma obj_pair_ok:
  "\<lbrakk>k \<noteq> l; jvalue_ok v; jvalue_ok w\<rbrakk> \<Longrightarrow> jvalue_ok (obj [field k v, field l w])"
  by (rule obj_ok [where ks = "[k, l]"]) simp_all

lemma precondition_json_ok [simp]: "jvalue_ok (precondition_json p)"
proof (cases p)
  case (OperatingSystem f v)
  then show ?thesis
    unfolding precondition_json_def
    by (intro obj_ok [where ks = "[''kind'', ''family'', ''minimum_version'']"]) simp_all
qed (simp_all add: precondition_json_def obj_pair_ok)

lemma uuid_map_json_ok:
  assumes "uuid_contract E" "map_entries_ok m" "\<forall>e\<in>set m. jvalue_ok (f (snd e))"
  shows "jvalue_ok (uuid_map_json E f m)"
  unfolding uuid_map_json_def
proof (rule obj_ok [where ks = "map (\<lambda>e. uuid_text E (fst e)) m"])
  have "distinct (map fst m)"
    using assms(2) by (simp add: map_entries_ok_def strict_sorted_iff)
  then have "distinct (map (uuid_text E) (map fst m))"
    using assms(1) by (simp only: distinct_map) (auto simp: uuid_contract_def intro: inj_on_subset)
  then show "distinct (map (\<lambda>e. uuid_text E (fst e)) m)"
    by (simp add: comp_def)
qed (use assms(3) in \<open>auto simp: list_all2_conv_all_nth list_all_iff split: prod.splits\<close>)

lemma observed_state_json_ok [simp]: "uuid_contract E \<Longrightarrow> observed_state_ok a \<Longrightarrow> jvalue_ok (observed_state_json E a)"
  unfolding observed_state_json_def
  by (rule obj_ok [where ks = "[''captured_at'', ''digest'', ''values'']"]) (simp_all add: observed_state_ok_def uuid_map_json_ok)

lemma planned_action_json_ok [simp]: "planned_action_ok a \<Longrightarrow> jvalue_ok (planned_action_json E a)"
  unfolding planned_action_json_def
  by (rule obj_ok [where ks = "[''action_id'', ''source_step_id'', ''capability_id'', ''operation'', ''parameters'', ''depends_on'', ''continue_on_error'', ''facts_digest'', ''preconditions'', ''risk'', ''reversibility'', ''reboot'', ''privileges'', ''metadata'']"]) (simp_all add: planned_action_ok_def)

lemma plan_json_ok [simp]: "uuid_contract E \<Longrightarrow> plan_ok a \<Longrightarrow> jvalue_ok (plan_json E a)"
  unfolding plan_json_def
  by (rule obj_ok [where ks = "[''schema_version'', ''plan_id'', ''run_id'', ''intent'', ''profile_id'', ''profile_digest'', ''host'', ''tool'', ''package_digest'', ''source'', ''input'', ''resources'', ''observed_state'', ''issued_at'', ''expires_at'', ''actions'', ''metadata'']"]) (simp_all add: plan_ok_def)

end
