(* ===== verification/Domain_Validate.thy ===== *)
theory Domain_Validate
  imports Domain_Serde
begin

text \<open>
  The semantic validators of \<open>baselineops-domain/src/validate.rs\<close>, \<open>validate/observation.rs\<close>,
  \<open>validate/result.rs\<close> and \<open>validate/worker.rs\<close>, function by function. For every validator the theory
  gives the declarative condition under which it succeeds; the condition of a plan is what the
  execution boundary relies on.
\<close>

section \<open>Bounded text and bounded values\<close>

definition max_typed_map_entries :: usize where
  "max_typed_map_entries = 256"

definition validate_nonempty :: "string \<Rightarrow> string \<Rightarrow> usize \<Rightarrow> domain_error + unit" where
  "validate_nonempty name v limit =
     (if blank v then validation (name @ '' must not be empty'')
      else if length v > limit
      then validation (name @ '' exceeds the '' @ nat_text limit @ '' byte limit'')
      else Inr ())"

definition validate_optional_text :: "string \<Rightarrow> string option \<Rightarrow> usize \<Rightarrow> domain_error + unit" where
  "validate_optional_text name v limit =
     (case v of Some v \<Rightarrow> validate_nonempty name v limit | None \<Rightarrow> Inr ())"

definition validate_value_position :: "usize \<Rightarrow> usize \<Rightarrow> domain_error + usize" where
  "validate_value_position depth nodes =
     (let nodes = nodes + 1 in
      if nodes > 4096 then validation ''typed JSON value exceeds the 4096 node limit''
      else if depth > 16 then validation ''typed JSON value exceeds the 16-level nesting limit''
      else Inr nodes)"

definition validate_typed_string :: "string \<Rightarrow> domain_error + unit" where
  "validate_typed_string v =
     (if length v > 64 * 1024 then validation ''typed JSON string exceeds the 64 KiB limit''
      else Inr ())"

definition validate_typed_object_size :: "json_map \<Rightarrow> domain_error + unit" where
  "validate_typed_object_size ms =
     (if length ms > max_typed_map_entries
      then validation ''typed JSON object exceeds the 256 entry limit'' else Inr ())"

text \<open>
  \<open>typed_items\<close> and \<open>typed_members\<close> are the loops of \<open>validate_typed_array\<close> and \<open>validate_typed_object\<close>,
  called with the depth of their elements; the body of the second is \<open>validate_typed_member\<close>.
\<close>

fun validate_value :: "usize \<Rightarrow> jvalue \<Rightarrow> usize \<Rightarrow> domain_error + usize"
  and typed_items :: "usize \<Rightarrow> jvalue list \<Rightarrow> usize \<Rightarrow> domain_error + usize"
  and typed_members :: "usize \<Rightarrow> json_map \<Rightarrow> usize \<Rightarrow> domain_error + usize"
where
  "validate_value depth v nodes =
     and_then (validate_value_position depth nodes) (\<lambda>nodes.
       case v of
         JString s \<Rightarrow> and_then (validate_typed_string s) (\<lambda>_. Inr nodes)
       | JArray vs \<Rightarrow>
           if length vs > max_typed_map_entries
           then validation ''typed JSON array exceeds the 256 entry limit''
           else typed_items (depth + 1) vs nodes
       | JObject ms \<Rightarrow>
           and_then (validate_typed_object_size ms) (\<lambda>_. typed_members (depth + 1) ms nodes)
       | _ \<Rightarrow> Inr nodes)"
| "typed_items depth [] nodes = Inr nodes"
| "typed_items depth (v # vs) nodes = and_then (validate_value depth v nodes) (typed_items depth vs)"
| "typed_members depth [] nodes = Inr nodes"
| "typed_members depth ((k, v) # ms) nodes =
     and_then (validate_nonempty ''typed JSON property name'' k 256) (\<lambda>_.
     and_then (validate_value depth v nodes) (typed_members depth ms))"

declare validate_value.simps [simp del]

definition validate_json_map :: "string \<Rightarrow> json_map \<Rightarrow> domain_error + unit" where
  "validate_json_map name m =
     (if length m > max_typed_map_entries
      then validation (name @ '' has more than '' @ nat_text max_typed_map_entries @ '' entries'')
      else for_each (\<lambda>(key, v).
             and_then (validate_nonempty name key 256) (\<lambda>_.
             and_then (validate_value 0 v 0) (\<lambda>_. Inr ()))) m)"

definition text_ok :: "usize \<Rightarrow> string \<Rightarrow> bool" where
  "text_ok n s \<longleftrightarrow> \<not> blank s \<and> length s \<le> n"

definition typed_value_ok :: "jvalue \<Rightarrow> bool" where
  "typed_value_ok v \<longleftrightarrow> jnodes v \<le> 4096 \<and> jheight_le v 16 \<and>
     jshape 256 256 (\<lambda>s. length s \<le> 64 * 1024) (text_ok 256) v"

definition json_map_ok :: "json_map \<Rightarrow> bool" where
  "json_map_ok m \<longleftrightarrow> length m \<le> 256 \<and> (\<forall>e\<in>set m. text_ok 256 (fst e) \<and> typed_value_ok (snd e))"

lemma validate_nonempty_Inr_iff [res_simps]: "validate_nonempty name s n = Inr u \<longleftrightarrow> text_ok n s"
  by (auto simp: validate_nonempty_def text_ok_def)

lemma validate_optional_text_Inr_iff [res_simps]:
  "validate_optional_text name v n = Inr u \<longleftrightarrow> (\<forall>s. v = Some s \<longrightarrow> text_ok n s)"
  by (auto simp: validate_optional_text_def res_simps split: option.splits)

lemma if_validation_Inr_iff [res_simps]:
  "(if b then validation m else r) = Inr a \<longleftrightarrow> \<not> b \<and> r = Inr a"
  by simp

interpretation typed_walk: json_walk validate_value typed_items typed_members 4096 16 256 256
  "\<lambda>s. length s \<le> 64 * 1024" "text_ok 256"
proof unfold_locales
  fix v d n n'
  assume "kind v < 4"
  then show "validate_value d v n = Inr n' \<longleftrightarrow> n' = Suc n \<and> Suc n \<le> 4096 \<and> d \<le> 16 \<and>
      (\<forall>s. v = JString s \<longrightarrow> length s \<le> 64 * 1024)"
    by (cases v) (auto simp: validate_value.simps validate_value_position_def
        validate_typed_string_def res_simps Let_def)
qed (auto simp: validate_value.simps validate_value_position_def validate_typed_object_size_def
      max_typed_map_entries_def res_simps Let_def)

lemma validate_value_spec: "validate_value 0 v 0 = Inr n \<longleftrightarrow> typed_value_ok v \<and> n = jnodes v"
  unfolding typed_walk.walk_spec typed_walk.fits_def typed_value_ok_def by auto

lemma validate_json_map_Inr_iff [res_simps]: "validate_json_map name m = Inr u \<longleftrightarrow> json_map_ok m"
  by (auto simp: validate_json_map_def json_map_ok_def max_typed_map_entries_def res_simps
      validate_value_spec split: prod.splits)

text \<open>
  A parameter, metadata or evidence map is accepted exactly when it has at most 256 entries with
  non-blank names of at most 256 bytes and every value has at most 4096 nodes, 16 levels, 256 entries
  per container and 64 KiB per string.
\<close>

theorem validate_json_map_iff:
  "validate_json_map name m = Inr () \<longleftrightarrow>
     length m \<le> 256 \<and>
     list_all (\<lambda>(k, v). \<not> blank k \<and> length k \<le> 256 \<and> jnodes v \<le> 4096 \<and> jheight_le v 16 \<and>
        jshape 256 256 (\<lambda>s. length s \<le> 64 * 1024) (\<lambda>s. \<not> blank s \<and> length s \<le> 256) v) m"
  unfolding validate_json_map_Inr_iff json_map_ok_def typed_value_ok_def text_ok_def
  by (auto simp: case_prod_beta' list_all_iff)

section \<open>Locators\<close>

text \<open>\<open>str::split\<close> at the two separators.\<close>

definition is_separator :: "char \<Rightarrow> bool" where
  "is_separator c \<longleftrightarrow> c = CHR ''/'' \<or> c = CHR 0x5C"

fun split_segments :: "string \<Rightarrow> string list" where
  "split_segments [] = [[]]"
| "split_segments (c # s) =
     (if is_separator c then [] # split_segments s
      else case split_segments s of [] \<Rightarrow> [[c]] | seg # segs \<Rightarrow> (c # seg) # segs)"

definition validate_relative_locator :: "string \<Rightarrow> domain_error + unit" where
  "validate_relative_locator locator =
     and_then (validate_nonempty ''artifact locator'' locator 2048) (\<lambda>_.
       if (locator \<noteq> [] \<and> is_separator (hd locator)) \<or> ''..'' \<in> set (split_segments locator)
       then validation ''artifact locator must be relative and may not contain parent traversal''
       else Inr ())"

definition locator_ok :: "string \<Rightarrow> bool" where
  "locator_ok l \<longleftrightarrow> text_ok 2048 l \<and> \<not> is_separator (hd l) \<and> ''..'' \<notin> set (split_segments l)"

lemma validate_relative_locator_Inr_iff [res_simps]:
  "validate_relative_locator l = Inr u \<longleftrightarrow> locator_ok l"
  by (auto simp: validate_relative_locator_def locator_ok_def text_ok_def res_simps)

text \<open>
  The locator check knows the two separators and the parent segment but not drive letters, so an
  absolute Windows path is accepted as a relative locator.
\<close>

lemma drive_locator_accepted: "validate_relative_locator ''C:/Windows/x'' = Inr ()"
  by (simp add: validate_relative_locator_Inr_iff locator_ok_def text_ok_def is_separator_def byte_in_def)

section \<open>Components of the documents\<close>

definition validate_tool :: "tool_identity \<Rightarrow> domain_error + unit" where
  "validate_tool tool =
     and_then (validate_nonempty ''tool name'' (tool_name tool) 128) (\<lambda>_.
       validate_nonempty ''tool version'' (tool_version tool) 128)"

definition validate_source :: "source_identity \<Rightarrow> domain_error + unit" where
  "validate_source source = validate_nonempty ''source locator'' (source_locator source) 2048"

definition validate_profile_step :: "profile_step \<Rightarrow> domain_error + unit" where
  "validate_profile_step step =
     and_then (validate_nonempty ''profile step capability ID'' (step_capability_id step) 128) (\<lambda>_.
       validate_json_map ''profile step parameters'' (step_parameters step))"

definition validate_planned_action :: "planned_action \<Rightarrow> domain_error + unit" where
  "validate_planned_action action =
     and_then (validate_nonempty ''planned action capability ID'' (action_capability action) 128) (\<lambda>_.
     and_then (validate_json_map ''planned action parameters'' (action_parameters action)) (\<lambda>_.
     and_then (validate_json_map ''planned action metadata'' (action_metadata action)) (\<lambda>_.
       for_each (\<lambda>condition.
           case condition of
             OperatingSystem _ (Some version) \<Rightarrow> validate_nonempty ''minimum OS version'' version 128
           | _ \<Rightarrow> Inr ())
         (preconditions action))))"

definition validate_action_result :: "action_result \<Rightarrow> domain_error + unit" where
  "validate_action_result action =
     (if action_completed_at action < action_started_at action
      then validation ''action completion time must not precede its start time''
      else
        and_then (validate_nonempty ''action-result capability ID'' (result_capability action) 128) (\<lambda>_.
          validate_json_map ''action-result metadata'' (result_action_metadata action)))"

definition validate_artifacts :: "artifact list \<Rightarrow> domain_error + unit" where
  "validate_artifacts artifacts =
     and_then
       (try_fold (\<lambda>ids artifact.
            if artifact_id artifact \<in> ids
            then validation ''artifact IDs must be unique within their collection''
            else
              and_then (validate_nonempty ''artifact media type'' (media_type artifact) 255) (\<lambda>_.
              and_then (validate_relative_locator (artifact_locator artifact)) (\<lambda>_.
              and_then (validate_json_map ''artifact metadata'' (artifact_metadata artifact)) (\<lambda>_.
                Inr (insert (artifact_id artifact) ids)))))
          {} artifacts)
       (\<lambda>_. Inr ())"

definition action_fields_ok :: "planned_action \<Rightarrow> bool" where
  "action_fields_ok a \<longleftrightarrow> text_ok 128 (action_capability a) \<and> json_map_ok (action_parameters a) \<and>
     json_map_ok (action_metadata a) \<and>
     (\<forall>f v. OperatingSystem f (Some v) \<in> set (preconditions a) \<longrightarrow> text_ok 128 v)"

definition artifact_ok :: "artifact \<Rightarrow> bool" where
  "artifact_ok a \<longleftrightarrow> text_ok 255 (media_type a) \<and> locator_ok (artifact_locator a) \<and>
     json_map_ok (artifact_metadata a)"

definition action_result_ok :: "action_result \<Rightarrow> bool" where
  "action_result_ok a \<longleftrightarrow> action_started_at a \<le> action_completed_at a \<and>
     text_ok 128 (result_capability a) \<and> json_map_ok (result_action_metadata a)"

lemma validate_tool_Inr_iff [res_simps]:
  "validate_tool t = Inr u \<longleftrightarrow> text_ok 128 (tool_name t) \<and> text_ok 128 (tool_version t)"
  by (simp add: validate_tool_def res_simps)

lemma validate_source_Inr_iff [res_simps]:
  "validate_source s = Inr u \<longleftrightarrow> text_ok 2048 (source_locator s)"
  by (simp add: validate_source_def res_simps)

lemma validate_profile_step_Inr_iff [res_simps]:
  "validate_profile_step s = Inr u \<longleftrightarrow> text_ok 128 (step_capability_id s) \<and> json_map_ok (step_parameters s)"
  by (simp add: validate_profile_step_def res_simps)

lemma validate_planned_action_Inr_iff [res_simps]:
  "validate_planned_action a = Inr u \<longleftrightarrow> action_fields_ok a"
proof -
  have "(case c of OperatingSystem f (Some v) \<Rightarrow> validate_nonempty ''minimum OS version'' v 128
      | _ \<Rightarrow> Inr ()) = Inr () \<longleftrightarrow> (\<forall>f v. c = OperatingSystem f (Some v) \<longrightarrow> text_ok 128 v)" for c
    by (auto simp: res_simps split: precondition.splits option.splits)
  then show ?thesis
    by (auto simp: validate_planned_action_def action_fields_ok_def res_simps)
qed

lemma validate_action_result_Inr_iff [res_simps]:
  "validate_action_result a = Inr u \<longleftrightarrow> action_result_ok a"
  by (auto simp: validate_action_result_def action_result_ok_def res_simps)

lemma validate_artifacts_Inr_iff [res_simps]:
  "validate_artifacts as = Inr u \<longleftrightarrow> (\<forall>a\<in>set as. artifact_ok a) \<and> distinct (map artifact_id as)"
proof -
  let ?step = "\<lambda>ids artifact.
            if artifact_id artifact \<in> ids
            then validation ''artifact IDs must be unique within their collection''
            else
              and_then (validate_nonempty ''artifact media type'' (media_type artifact) 255) (\<lambda>_.
              and_then (validate_relative_locator (artifact_locator artifact)) (\<lambda>_.
              and_then (validate_json_map ''artifact metadata'' (artifact_metadata artifact)) (\<lambda>_.
                Inr (insert (artifact_id artifact) ids))))"
  have "?step ids a = Inr ids' \<longleftrightarrow> artifact_ok a \<and> artifact_id a \<notin> ids \<and> ids' = insert (artifact_id a) ids"
    for ids a ids'
    by (auto simp: artifact_ok_def res_simps)
  from try_fold_unique [of ?step, OF this] show ?thesis
    by (auto simp: validate_artifacts_def res_simps)
qed

end
