(* ===== verification/Plan_Validate.thy ===== *)
theory Plan_Validate
  imports Domain_Validate
begin

text \<open>
  Validation of whole documents: profiles, host identities, observed states and plans
  (\<open>baselineops-domain/src/validate.rs\<close>, \<open>validate/observation.rs\<close>), the digest of the input closure
  (\<open>model/bindings.rs\<close>) and the typed loaders (\<open>load.rs\<close>). The central result is the exact condition under
  which a plan becomes execution authority.
\<close>

section \<open>Profiles\<close>

definition validate_profile_header :: "profile \<Rightarrow> domain_error + unit" where
  "validate_profile_header p =
     and_then (validate_nonempty ''profile name'' (profile_name p) 256) (\<lambda>_.
     and_then (validate_nonempty ''profile version'' (profile_version p) 128) (\<lambda>_.
       validate_optional_text ''profile description'' (profile_description p) 4096))"

definition validate_profile_expiry_order :: "datetime \<Rightarrow> datetime \<Rightarrow> domain_error + unit" where
  "validate_profile_expiry_order expires_at created_at =
     (if expires_at \<le> created_at then validation ''profile expiry must be after its creation time''
      else Inr ())"

definition validate_profile_expiry :: "profile \<Rightarrow> domain_error + unit" where
  "validate_profile_expiry p =
     (case profile_expires_at p of
        None \<Rightarrow> Inr ()
      | Some expires_at \<Rightarrow> validate_profile_expiry_order expires_at (profile_created_at p))"

definition validate_profile_steps :: "profile_step list \<Rightarrow> domain_error + uuid list" where
  "validate_profile_steps steps =
     validate_dependency_graph step_id step_depends_on validate_profile_step steps"

definition validate_profile_payload :: "profile \<Rightarrow> domain_error + uuid list" where
  "validate_profile_payload p =
     and_then (validate_json_map ''profile metadata'' (profile_metadata p)) (\<lambda>_.
       validate_profile_steps (profile_steps p))"

definition profile_validate :: "profile \<Rightarrow> domain_error + uuid list" where
  "profile_validate p =
     and_then (validate_profile_header p) (\<lambda>_.
     and_then (validate_profile_expiry p) (\<lambda>_.
       validate_profile_payload p))"

definition profile_topological_order :: "profile \<Rightarrow> domain_error + uuid list" where
  "profile_topological_order p = profile_validate p"

section \<open>Hosts\<close>

definition calculated_fingerprint :: "'h ext \<Rightarrow> host_identity \<Rightarrow> domain_error + digest" where
  "calculated_fingerprint E h = canonical_json_digest E (\<lambda>h. Inr (host_payload_json h)) h"

definition validate_host_identifiers :: "host_identity \<Rightarrow> domain_error + unit" where
  "validate_host_identifiers h =
     and_then (validate_nonempty ''host ID'' (host_id h) 256) (\<lambda>_.
     and_then (validate_nonempty ''boot ID'' (boot_id h) 256) (\<lambda>_.
       validate_nonempty ''session ID'' (session_id h) 256))"

definition validate_host_platform :: "host_identity \<Rightarrow> domain_error + unit" where
  "validate_host_platform h =
     and_then (validate_nonempty ''hostname'' (hostname h) 255) (\<lambda>_.
     and_then (validate_nonempty ''OS version'' (os_version h) 128) (\<lambda>_.
       validate_nonempty ''architecture'' (architecture h) 64))"

definition validate_host_fields :: "host_identity \<Rightarrow> domain_error + unit" where
  "validate_host_fields h = and_then (validate_host_identifiers h) (\<lambda>_. validate_host_platform h)"

definition validate_host_fingerprint :: "'h ext \<Rightarrow> host_identity \<Rightarrow> domain_error + unit" where
  "validate_host_fingerprint E h =
     and_then (calculated_fingerprint E h) (\<lambda>calculated.
       if calculated \<noteq> fingerprint h
       then validation ''host fingerprint does not match the host identity fields''
       else Inr ())"

definition host_validate :: "'h ext \<Rightarrow> host_identity \<Rightarrow> domain_error + unit" where
  "host_validate E h = and_then (validate_host_fields h) (\<lambda>_. validate_host_fingerprint E h)"

section \<open>Observed states\<close>

definition calculated_digest :: "'h ext \<Rightarrow> observed_state \<Rightarrow> domain_error + digest" where
  "calculated_digest E s = canonical_json_digest E (\<lambda>s. Inr (observed_facts_json E s)) s"

definition observed_state_validate :: "'h ext \<Rightarrow> observed_state \<Rightarrow> domain_error + unit" where
  "observed_state_validate E s =
     (if state_values s = []
      then validation ''observed state must contain at least one capability value''
      else
        and_then
          (for_each (\<lambda>(step, v).
               and_then (validate_nonempty ''observed-state capability ID'' (observed_capability v) 128) (\<lambda>_.
                 validate_json_map ''observed-state facts'' (facts v)))
             (state_values s)) (\<lambda>_.
        and_then (calculated_digest E s) (\<lambda>calculated.
          if calculated \<noteq> state_digest s
          then validation ''observed-state digest does not match its captured values''
          else Inr ())))"

section \<open>Plans\<close>

definition validate_planned_actions :: "planned_action list \<Rightarrow> domain_error + uuid list" where
  "validate_planned_actions actions =
     validate_dependency_graph action_id action_depends_on validate_planned_action actions"

definition validate_plan_input :: "plan \<Rightarrow> domain_error + unit" where
  "validate_plan_input p =
     (if input_size_bytes (plan_input p) = 0 then validation ''plan input size must be non-zero''
      else Inr ())"

definition validate_plan_static_fields :: "'h ext \<Rightarrow> plan \<Rightarrow> domain_error + unit" where
  "validate_plan_static_fields E p =
     (if plan_expires_at p \<le> plan_issued_at p
      then validation ''plan expiry must be after its issue time''
      else
        and_then (host_validate E (plan_host p)) (\<lambda>_.
        and_then (validate_tool (plan_tool p)) (\<lambda>_.
        and_then (validate_source (plan_source p)) (\<lambda>_.
        and_then (validate_plan_input p) (\<lambda>_.
        and_then (observed_state_validate E (plan_observed_state p)) (\<lambda>_.
          validate_json_map ''plan metadata'' (plan_metadata p)))))))"

definition parameters_json_digest :: "'h ext \<Rightarrow> json_map \<Rightarrow> domain_error + digest" where
  "parameters_json_digest E parameters = canonical_json_digest E (\<lambda>m. Inr (JObject m)) parameters"

definition validate_action_observation ::
    "'h ext \<Rightarrow> planned_action \<Rightarrow> digest \<Rightarrow> observed_value \<Rightarrow> domain_error + unit" where
  "validate_action_observation E action digest observed =
     (if facts_digest action \<noteq> digest \<or> observed_capability observed \<noteq> action_capability action
      then validation ''planned action does not match its step observation binding''
      else
        and_then (parameters_json_digest E (action_parameters action)) (\<lambda>d.
          if parameters_digest observed \<noteq> d
          then validation ''planned action does not match its step observation binding''
          else Inr ()))"

definition observation_step ::
    "'h ext \<Rightarrow> plan \<Rightarrow> uuid set \<Rightarrow> planned_action \<Rightarrow> domain_error + uuid set" where
  "observation_step E p source_steps action =
     (if source_step action \<in> source_steps then validation ''planned source steps must be unique''
      else
        case map_of (state_values (plan_observed_state p)) (source_step action) of
          None \<Rightarrow> validation ''planned action has no step-bound observation''
        | Some observed \<Rightarrow>
            and_then
              (validate_action_observation E action (state_digest (plan_observed_state p)) observed)
              (\<lambda>_. Inr (insert (source_step action) source_steps)))"

definition validate_plan_observation_bindings :: "'h ext \<Rightarrow> plan \<Rightarrow> domain_error + unit" where
  "validate_plan_observation_bindings E p =
     (if length (state_values (plan_observed_state p)) \<noteq> length (plan_actions p)
      then validation ''plan must retain one observation for every source step''
      else and_then (try_fold (observation_step E p) {} (plan_actions p)) (\<lambda>_. Inr ()))"

definition validate_structure :: "'h ext \<Rightarrow> plan \<Rightarrow> domain_error + uuid list" where
  "validate_structure E p =
     and_then (validate_plan_static_fields E p) (\<lambda>_.
     and_then (validate_planned_actions (plan_actions p)) (\<lambda>order.
     and_then (validate_plan_observation_bindings E p) (\<lambda>_.
       Inr order)))"

definition validate_at :: "'h ext \<Rightarrow> plan \<Rightarrow> datetime \<Rightarrow> domain_error + uuid list" where
  "validate_at E p now =
     and_then (validate_structure E p) (\<lambda>order.
       if now \<ge> plan_expires_at p then validation ''plan has expired'' else Inr order)"

record plan_validation_context =
  context_now :: datetime
  context_intent :: execution_intent
  context_host :: host_identity
  context_tool :: tool_identity
  context_package_digest :: digest
  context_source :: source_identity
  context_input :: input_identity
  context_observed_state_digest :: digest

definition validate_equal :: "'a \<Rightarrow> 'a \<Rightarrow> string \<Rightarrow> domain_error + unit" where
  "validate_equal expected actual message =
     (if expected \<noteq> actual then validation message else Inr ())"

definition validate_context_host_and_tool ::
    "'h ext \<Rightarrow> plan \<Rightarrow> plan_validation_context \<Rightarrow> domain_error + unit" where
  "validate_context_host_and_tool E p c =
     and_then (host_validate E (context_host c)) (\<lambda>_.
     and_then (validate_equal (plan_host p) (context_host c)
       ''plan host identity does not match the current host'') (\<lambda>_.
     and_then (validate_equal (plan_tool p) (context_tool c)
       ''plan tool identity does not match the current worker'') (\<lambda>_. Inr ())))"

definition validate_context_bindings ::
    "plan \<Rightarrow> plan_validation_context \<Rightarrow> domain_error + unit" where
  "validate_context_bindings p c =
     and_then (validate_equal (plan_package_digest p) (context_package_digest c)
       ''plan package digest does not match the verified package'') (\<lambda>_.
     and_then (validate_equal (plan_source p) (context_source c)
       ''plan source identity does not match the re-verified source'') (\<lambda>_.
     and_then (validate_equal (plan_input p) (context_input c)
       ''plan input identity does not match the re-verified input'') (\<lambda>_.
     and_then (validate_equal (state_digest (plan_observed_state p)) (context_observed_state_digest c)
       ''plan observed state does not match the current state binding'') (\<lambda>_. Inr ()))))"

definition validate_against ::
    "'h ext \<Rightarrow> plan \<Rightarrow> plan_validation_context \<Rightarrow> domain_error + uuid list" where
  "validate_against E p c =
     and_then (validate_at E p (context_now c)) (\<lambda>order.
       if plan_intent p \<noteq> context_intent c
       then validation ''plan intent does not match the requested execution intent''
       else
         and_then (validate_context_host_and_tool E p c) (\<lambda>_.
         and_then (validate_context_bindings p c) (\<lambda>_.
           Inr order)))"

datatype verified_plan = VerifiedPlan (as_plan: plan)

definition verify_for_execution ::
    "'h ext \<Rightarrow> plan \<Rightarrow> plan_validation_context \<Rightarrow> domain_error + verified_plan" where
  "verify_for_execution E p c = and_then (validate_against E p c) (\<lambda>_. Inr (VerifiedPlan p))"

section \<open>Typed loaders and the input closure\<close>

definition load_profile_json ::
    "(string \<Rightarrow> string + jvalue) \<Rightarrow> (jvalue \<Rightarrow> string + profile) \<Rightarrow> byte list \<Rightarrow> json_load_limits \<Rightarrow>
     domain_error + profile" where
  "load_profile_json parse de bytes limits =
     and_then (load_json parse de bytes limits) (\<lambda>p.
     and_then (profile_validate p) (\<lambda>_. Inr p))"

text \<open>\<open>Value::get\<close> on an object, \<open>None\<close> on any other value.\<close>

definition value_get :: "jvalue \<Rightarrow> string \<Rightarrow> jvalue option" where
  "value_get v k = (case v of JObject ms \<Rightarrow> map_of ms k | _ \<Rightarrow> None)"

definition load_plan_json ::
    "'h ext \<Rightarrow> (string \<Rightarrow> string + jvalue) \<Rightarrow> (jvalue \<Rightarrow> string + plan) \<Rightarrow> byte list \<Rightarrow>
     json_load_limits \<Rightarrow> domain_error + plan" where
  "load_plan_json E parse de bytes limits =
     and_then (load_json parse Inr bytes limits) (\<lambda>v.
       if value_get v ''schema_version'' \<noteq> Some (JString ''4.0'')
       then validation (''saved plan contract is obsolete or unsupported; regenerate the plan and '' @
         ''approve its new digest'')
       else
         and_then (map_err Json (de v)) (\<lambda>p.
         and_then (validate_structure E p) (\<lambda>_. Inr p)))"

definition input_closure_json :: "digest \<times> resource_binding list \<Rightarrow> jvalue" where
  "input_closure_json = (\<lambda>(profile_digest, resources).
     obj [field ''profile_digest'' (jdigest profile_digest),
          field ''resources'' (JArray (map resource_json resources))])"

definition from_resources ::
    "'h ext \<Rightarrow> digest \<Rightarrow> u64 \<Rightarrow> resource_binding list \<Rightarrow> domain_error + input_identity" where
  "from_resources E profile_digest profile_size resources =
     and_then (try_fold (\<lambda>total r.
         ok_or (Validation (Text ''input resource size overflowed''))
           (checked_add_u64 total (resource_size_bytes r))) 0 resources) (\<lambda>resource_size.
     and_then (canonical_json_digest E (\<lambda>c. Inr (input_closure_json c)) (profile_digest, resources)) (\<lambda>digest.
     and_then (ok_or (Validation (Text ''input closure size overflowed''))
         (checked_add_u64 profile_size resource_size)) (\<lambda>size_bytes.
       Inr \<lparr>input_digest = digest, input_size_bytes = size_bytes\<rparr>)))"

section \<open>When a document is valid\<close>

definition profile_ok :: "profile \<Rightarrow> bool" where
  "profile_ok p \<longleftrightarrow> text_ok 256 (profile_name p) \<and> text_ok 128 (profile_version p) \<and>
     (\<forall>d. profile_description p = Some d \<longrightarrow> text_ok 4096 d) \<and>
     (\<forall>t. profile_expires_at p = Some t \<longrightarrow> profile_created_at p < t) \<and>
     json_map_ok (profile_metadata p) \<and>
     graph_fields_ok step_id step_depends_on validate_profile_step (profile_steps p) \<and>
     acyclic_deps step_id step_depends_on (profile_steps p)"

definition host_ok :: "'h ext \<Rightarrow> host_identity \<Rightarrow> bool" where
  "host_ok E h \<longleftrightarrow> text_ok 256 (host_id h) \<and> text_ok 256 (boot_id h) \<and> text_ok 256 (session_id h) \<and>
     text_ok 255 (hostname h) \<and> text_ok 128 (os_version h) \<and> text_ok 64 (architecture h) \<and>
     calculated_fingerprint E h = Inr (fingerprint h)"

definition observations_valid :: "'h ext \<Rightarrow> observed_state \<Rightarrow> bool" where
  "observations_valid E s \<longleftrightarrow> state_values s \<noteq> [] \<and>
     (\<forall>e\<in>set (state_values s). text_ok 128 (observed_capability (snd e)) \<and> json_map_ok (facts (snd e))) \<and>
     calculated_digest E s = Inr (state_digest s)"

text \<open>The observation that an action was planned from.\<close>

definition observation_bound :: "'h ext \<Rightarrow> plan \<Rightarrow> planned_action \<Rightarrow> bool" where
  "observation_bound E p a \<longleftrightarrow> (\<exists>v.
     map_of (state_values (plan_observed_state p)) (source_step a) = Some v \<and>
     facts_digest a = state_digest (plan_observed_state p) \<and>
     observed_capability v = action_capability a \<and>
     parameters_json_digest E (action_parameters a) = Inr (parameters_digest v))"

definition observations_bound :: "'h ext \<Rightarrow> plan \<Rightarrow> bool" where
  "observations_bound E p \<longleftrightarrow>
     length (state_values (plan_observed_state p)) = length (plan_actions p) \<and>
     distinct (map source_step (plan_actions p)) \<and>
     (\<forall>a\<in>set (plan_actions p). observation_bound E p a)"

definition plan_actions_ok :: "planned_action list \<Rightarrow> bool" where
  "plan_actions_ok as \<longleftrightarrow> graph_fields_ok action_id action_depends_on validate_planned_action as \<and>
     acyclic_deps action_id action_depends_on as"

definition plan_structure_ok :: "'h ext \<Rightarrow> plan \<Rightarrow> bool" where
  "plan_structure_ok E p \<longleftrightarrow> plan_issued_at p < plan_expires_at p \<and> host_ok E (plan_host p) \<and>
     text_ok 128 (tool_name (plan_tool p)) \<and> text_ok 128 (tool_version (plan_tool p)) \<and>
     text_ok 2048 (source_locator (plan_source p)) \<and> 0 < input_size_bytes (plan_input p) \<and>
     observations_valid E (plan_observed_state p) \<and> json_map_ok (plan_metadata p) \<and>
     plan_actions_ok (plan_actions p) \<and> observations_bound E p"

text \<open>The live values that the execution boundary compares.\<close>

definition context_matches :: "plan \<Rightarrow> plan_validation_context \<Rightarrow> bool" where
  "context_matches p c \<longleftrightarrow> context_now c < plan_expires_at p \<and> plan_intent p = context_intent c \<and>
     plan_host p = context_host c \<and> plan_tool p = context_tool c \<and>
     plan_package_digest p = context_package_digest c \<and> plan_source p = context_source c \<and>
     plan_input p = context_input c \<and>
     state_digest (plan_observed_state p) = context_observed_state_digest c"

lemma graph_Inr_iff:
  "(\<exists>order. validate_dependency_graph idf deps check items = Inr order) \<longleftrightarrow>
     graph_fields_ok idf deps check items \<and> acyclic_deps idf deps items"
  using validate_graph_Inr(1,2) graph_ok_cases by (metis (no_types, lifting))

lemma profile_validate_Inr_iff: "(\<exists>order. profile_validate p = Inr order) \<longleftrightarrow> profile_ok p"
  using graph_Inr_iff [of step_id step_depends_on validate_profile_step "profile_steps p"]
  by (auto simp: profile_validate_def profile_ok_def validate_profile_header_def
      validate_profile_expiry_def validate_profile_expiry_order_def validate_profile_payload_def
      validate_profile_steps_def res_simps split: option.splits)

lemma host_validate_Inr_iff [res_simps]: "host_validate E h = Inr u \<longleftrightarrow> host_ok E h"
  by (auto simp: host_validate_def host_ok_def validate_host_fields_def validate_host_identifiers_def
      validate_host_platform_def validate_host_fingerprint_def res_simps)

lemma observed_state_validate_Inr_iff [res_simps]:
  "observed_state_validate E s = Inr u \<longleftrightarrow> observations_valid E s"
  by (auto simp: observed_state_validate_def observations_valid_def res_simps split: prod.splits)

lemma observation_step_Inr_iff:
  "observation_step E p seen a = Inr seen' \<longleftrightarrow>
     observation_bound E p a \<and> source_step a \<notin> seen \<and> seen' = insert (source_step a) seen"
  by (auto simp: observation_step_def observation_bound_def validate_action_observation_def res_simps
      split: option.splits)

lemma observation_bindings_Inr_iff [res_simps]:
  "validate_plan_observation_bindings E p = Inr u \<longleftrightarrow> observations_bound E p"
proof -
  note fold = try_fold_unique [of "observation_step E p" "observation_bound E p" source_step,
      OF observation_step_Inr_iff]
  show ?thesis
    by (auto simp: validate_plan_observation_bindings_def observations_bound_def res_simps fold)
qed

lemma validate_structure_Inr_iff:
  "validate_structure E p = Inr order \<longleftrightarrow>
     plan_structure_ok E p \<and> validate_planned_actions (plan_actions p) = Inr order"
  using graph_Inr_iff [of action_id action_depends_on validate_planned_action "plan_actions p"]
  by (auto simp: validate_structure_def plan_structure_ok_def validate_plan_static_fields_def
      validate_plan_input_def validate_planned_actions_def plan_actions_ok_def res_simps)

lemma plan_structure_order:
  "plan_structure_ok E p \<Longrightarrow> \<exists>order. validate_planned_actions (plan_actions p) = Inr order"
  using graph_Inr_iff [of action_id action_depends_on validate_planned_action "plan_actions p"]
  by (simp add: plan_structure_ok_def plan_actions_ok_def validate_planned_actions_def)

lemma validate_equal_Inr_iff [res_simps]: "validate_equal a b m = Inr u \<longleftrightarrow> a = b"
  by (simp add: validate_equal_def)

lemma validate_against_Inr_iff:
  "validate_against E p c = Inr order \<longleftrightarrow>
     plan_structure_ok E p \<and> context_matches p c \<and> validate_planned_actions (plan_actions p) = Inr order"
  by (auto simp: validate_against_def validate_at_def validate_structure_Inr_iff context_matches_def
      validate_context_host_and_tool_def validate_context_bindings_def res_simps plan_structure_ok_def)

section \<open>Execution authority\<close>

text \<open>
  C1: a plan becomes execution authority exactly when it is internally valid, has not expired, and its
  intent, host, tool, package, source, input and observed state are the live ones; the authority is for
  that very plan.
\<close>

theorem verify_for_execution_iff:
  "verify_for_execution E p c = Inr v \<longleftrightarrow>
     v = VerifiedPlan p \<and> plan_structure_ok E p \<and> context_matches p c"
  using plan_structure_order [of E p]
  by (auto simp: verify_for_execution_def validate_against_Inr_iff res_simps)

text \<open>
  In a structurally valid plan the observations and the actions correspond one to one: the observed
  steps are exactly the source steps of the actions, and no two actions share one.
\<close>

theorem observations_one_to_one:
  assumes "validate_structure E p = Inr order" "map_entries_ok (state_values (plan_observed_state p))"
  shows "bij_betw source_step (set (plan_actions p)) (fst ` set (state_values (plan_observed_state p)))"
proof -
  let ?vs = "state_values (plan_observed_state p)"
  have ok: "length ?vs = length (plan_actions p)" "distinct (map source_step (plan_actions p))"
    "\<forall>a\<in>set (plan_actions p). observation_bound E p a"
    using assms(1) by (simp_all add: validate_structure_Inr_iff plan_structure_ok_def observations_bound_def)
  have sub: "source_step ` set (plan_actions p) \<subseteq> fst ` set ?vs"
    using ok(3) by (force simp: observation_bound_def dest: map_of_SomeD)
  have "distinct (map fst ?vs)"
    using assms(2) by (simp add: map_entries_ok_def strict_sorted_iff)
  then have "card (fst ` set ?vs) = length ?vs"
    by (metis distinct_card length_map list.set_map)
  moreover have "card (source_step ` set (plan_actions p)) = length (plan_actions p)"
    using ok(2) by (metis distinct_card length_map list.set_map)
  ultimately have "source_step ` set (plan_actions p) = fst ` set ?vs"
    using sub ok(1) by (simp add: card_subset_eq)
  with ok(2) show ?thesis
    by (simp add: bij_betw_def distinct_map)
qed

text \<open>
  Two different hosts that validate have different fingerprints, unless SHA-256 collides on their
  two texts: the fingerprint binds every identity field.
\<close>

theorem host_fingerprint_binds:
  assumes "hasher_contract E" "string_contract E" "number_contract E"
    and "host_validate E h = Inr ()" "host_validate E g = Inr ()" "h \<noteq> g"
    and "no_collision E (host_payload_json h) (host_payload_json g)"
  shows "fingerprint h \<noteq> fingerprint g"
proof
  assume same: "fingerprint h = fingerprint g"
  have "canonical_json_digest E Inr (host_payload_json h) = canonical_json_digest E Inr (host_payload_json g)"
    using assms(4,5) same
    by (simp add: res_simps host_ok_def calculated_fingerprint_def canonical_json_digest_eq [OF assms(1)])
  then have "host_payload_json h = host_payload_json g"
    using canonical_digest_inj [OF assms(1-3)] assms(7) by simp
  note eq = obj_eq_vals [OF this [unfolded host_payload_json_def]]
  show False
    using assms(6) same eq [of "''host_id''"] eq [of "''boot_id''"] eq [of "''session_id''"]
      eq [of "''hostname''"] eq [of "''os_family''"] eq [of "''os_version''"] eq [of "''architecture''"]
    by (simp add: host_identity.equality)
qed

section \<open>A sample plan\<close>

text \<open>A host, an observation and a plan that pass every check; the witnesses use them.\<close>

definition sample_host :: "string \<Rightarrow> host_identity" where
  "sample_host name =
     (let h = \<lparr>host_id = ''h'', boot_id = ''b'', session_id = ''s'', hostname = name,
        host_os_family = Windows, os_version = ''10'', architecture = ''x64'', fingerprint = []\<rparr>
      in h\<lparr>fingerprint := render id_ext (host_payload_json h)\<rparr>)"

definition sample_state :: observed_state where
  "sample_state =
     (let s = \<lparr>captured_at = 0, state_digest = [],
        state_values = [(1, \<lparr>observed_capability = ''c'', parameters_digest = render id_ext (JObject []),
          observed_at = 0, facts = []\<rparr>)]\<rparr>
      in s\<lparr>state_digest := render id_ext (observed_facts_json id_ext s)\<rparr>)"

definition sample_action :: planned_action where
  "sample_action = \<lparr>action_id = 7, source_step = 1, action_capability = ''c'',
     action_operation = OpApply, action_parameters = [], action_depends_on = [],
     action_continue_on_error = False, facts_digest = state_digest sample_state, preconditions = [],
     risk = RiskLow, action_reversibility = Reversible, reboot = NotRequired, privileges = [],
     action_metadata = []\<rparr>"

definition sample_plan :: "datetime \<Rightarrow> plan" where
  "sample_plan expires = \<lparr>plan_id = 1, plan_run_id = 2, plan_intent = IntentApply,
     plan_profile_id = 3, plan_profile_digest = [], plan_host = sample_host ''pc'',
     plan_tool = \<lparr>tool_name = ''baselineops'', tool_version = ''3'', build_digest = None\<rparr>,
     plan_package_digest = [],
     plan_source = \<lparr>source_origin = LocalFile, source_locator = ''p.json'', source_digest = []\<rparr>,
     plan_input = \<lparr>input_digest = [], input_size_bytes = 1\<rparr>, plan_resources = [],
     plan_observed_state = sample_state, plan_issued_at = 0, plan_expires_at = expires,
     plan_actions = [sample_action], plan_metadata = []\<rparr>"

lemma sample_host_ok:
  assumes "text_ok 255 name"
  shows "host_ok id_ext (sample_host name)"
  using assms
  by (simp add: host_ok_def sample_host_def Let_def calculated_fingerprint_def host_payload_json_def
      canonical_json_digest_eq [OF id_ext_contracts(1)]) (simp add: text_ok_def byte_in_def)

lemma sample_state_valid: "observations_valid id_ext sample_state" "observed_state_ok sample_state"
proof -
  show "observations_valid id_ext sample_state"
    by (simp add: observations_valid_def sample_state_def Let_def text_ok_def byte_in_def json_map_ok_def
        calculated_digest_def observed_facts_json_def canonical_json_digest_eq [OF id_ext_contracts(1)])
  show "observed_state_ok sample_state"
    by (simp add: observed_state_ok_def sample_state_def Let_def map_entries_ok_def)
qed

lemma sample_plan_structure:
  assumes "0 < t"
  shows "plan_structure_ok id_ext (sample_plan t)"
proof -
  have "plan_actions_ok [sample_action]"
    by (auto simp: plan_actions_ok_def graph_fields_ok_def closed_deps_def acyclic_deps_def res_simps
        action_fields_ok_def sample_action_def text_ok_def byte_in_def json_map_ok_def)
  moreover have "observations_bound id_ext (sample_plan t)"
    by (simp add: observations_bound_def observation_bound_def sample_plan_def sample_state_def Let_def
        sample_action_def parameters_json_digest_def canonical_json_digest_eq [OF id_ext_contracts(1)])
  moreover have "host_ok id_ext (sample_host ''pc'')"
    by (rule sample_host_ok) (simp add: text_ok_def byte_in_def)
  ultimately show ?thesis
    using assms sample_state_valid(1)
    by (simp add: plan_structure_ok_def) (simp add: sample_plan_def text_ok_def byte_in_def json_map_ok_def)
qed

theorem observations_one_to_one_witness:
  "bij_betw source_step (set (plan_actions (sample_plan 9)))
     (fst ` set (state_values (plan_observed_state (sample_plan 9))))"
proof -
  obtain order where "validate_structure id_ext (sample_plan 9) = Inr order"
    using plan_structure_order [OF sample_plan_structure [of 9]] sample_plan_structure [of 9]
    by (auto simp: validate_structure_Inr_iff)
  then show ?thesis
    by (rule observations_one_to_one)
       (use sample_state_valid(2) in \<open>simp add: observed_state_ok_def sample_plan_def\<close>)
qed

theorem host_fingerprint_binds_witness:
  "fingerprint (sample_host ''pc'') \<noteq> fingerprint (sample_host ''qc'')"
proof (rule host_fingerprint_binds [OF id_ext_contracts(1-3)])
  show "host_validate id_ext (sample_host ''pc'') = Inr ()" "host_validate id_ext (sample_host ''qc'') = Inr ()"
    using sample_host_ok [of "''pc''"] sample_host_ok [of "''qc''"]
    by (simp_all add: res_simps text_ok_def byte_in_def)
  have "hostname (sample_host n) = n" for n
    by (simp add: sample_host_def Let_def)
  from this [of "''pc''"] this [of "''qc''"] show "sample_host ''pc'' \<noteq> sample_host ''qc''"
    by (auto dest: arg_cong [where f = hostname])
qed (simp add: no_collision_def)

end
