(* ===== verification/Result_Validate.thy ===== *)
theory Result_Validate
  imports Plan_Validate
begin

text \<open>
  Validation of results: \<open>baselineops-domain/src/validate/result.rs\<close> for the reported result and
  \<open>validate/worker.rs\<close> for the payload that the elevated worker sends back. The theorems give the exact
  conditions, among them that a result without an anchored journal carries no mutation evidence.
\<close>

section \<open>Reported results\<close>

definition finding_validate :: "finding \<Rightarrow> domain_error + unit" where
  "finding_validate f =
     and_then (validate_nonempty ''finding code'' (finding_code f) 128) (\<lambda>_.
     and_then (validate_nonempty ''finding message'' (finding_message f) 4096) (\<lambda>_.
       validate_json_map ''finding evidence'' (finding_evidence f)))"

definition validate_result_finding :: "uuid set \<Rightarrow> finding \<Rightarrow> domain_error + uuid set" where
  "validate_result_finding finding_ids f =
     and_then (finding_validate f) (\<lambda>_.
       if finding_id f \<in> finding_ids then validation ''result contains duplicate finding IDs''
       else Inr (insert (finding_id f) finding_ids))"

definition validate_result_findings :: "finding list \<Rightarrow> domain_error + unit" where
  "validate_result_findings findings =
     and_then (try_fold validate_result_finding {} findings) (\<lambda>_. Inr ())"

definition validate_result_action :: "uuid set \<Rightarrow> action_result \<Rightarrow> domain_error + uuid set" where
  "validate_result_action action_ids action =
     and_then (validate_action_result action) (\<lambda>_.
       if result_action_id action \<in> action_ids
       then validation ''result contains duplicate action result IDs''
       else Inr (insert (result_action_id action) action_ids))"

definition validate_result_actions :: "action_result list \<Rightarrow> domain_error + unit" where
  "validate_result_actions actions =
     and_then (try_fold validate_result_action {} actions) (\<lambda>_. Inr ())"

definition validate_result_times :: "result \<Rightarrow> domain_error + unit" where
  "validate_result_times r =
     (if result_completed_at r < result_started_at r
      then validation ''result completion time must not precede its start time'' else Inr ())"

definition validate_result_header :: "'h ext \<Rightarrow> result \<Rightarrow> domain_error + unit" where
  "validate_result_header E r =
     and_then (validate_result_times r) (\<lambda>_.
     and_then (host_validate E (result_host r)) (\<lambda>_.
     and_then (validate_nonempty ''result summary'' (result_summary r) 4096) (\<lambda>_.
       validate_json_map ''result metadata'' (result_metadata r))))"

definition result_validate :: "'h ext \<Rightarrow> result \<Rightarrow> domain_error + unit" where
  "result_validate E r =
     and_then (validate_result_header E r) (\<lambda>_.
     and_then (validate_result_actions (result_actions r)) (\<lambda>_.
     and_then (validate_result_findings (result_findings r)) (\<lambda>_.
       validate_artifacts (result_artifacts r))))"

definition finding_ok :: "finding \<Rightarrow> bool" where
  "finding_ok f \<longleftrightarrow> text_ok 128 (finding_code f) \<and> text_ok 4096 (finding_message f) \<and>
     json_map_ok (finding_evidence f)"

definition artifacts_ok :: "artifact list \<Rightarrow> bool" where
  "artifacts_ok as \<longleftrightarrow> list_all artifact_ok as \<and> distinct (map artifact_id as)"

definition result_ok :: "'h ext \<Rightarrow> result \<Rightarrow> bool" where
  "result_ok E r \<longleftrightarrow> result_started_at r \<le> result_completed_at r \<and> host_ok E (result_host r) \<and>
     text_ok 4096 (result_summary r) \<and> json_map_ok (result_metadata r) \<and>
     list_all action_result_ok (result_actions r) \<and> distinct (map result_action_id (result_actions r)) \<and>
     list_all finding_ok (result_findings r) \<and> distinct (map finding_id (result_findings r)) \<and>
     artifacts_ok (result_artifacts r)"

lemma finding_validate_Inr_iff [res_simps]: "finding_validate f = Inr u \<longleftrightarrow> finding_ok f"
  by (simp add: finding_validate_def finding_ok_def res_simps)

lemma validate_result_finding_Inr_iff:
  "validate_result_finding ids f = Inr ids' \<longleftrightarrow>
     finding_ok f \<and> finding_id f \<notin> ids \<and> ids' = insert (finding_id f) ids"
  by (auto simp: validate_result_finding_def res_simps)

lemma validate_result_action_Inr_iff:
  "validate_result_action ids a = Inr ids' \<longleftrightarrow>
     action_result_ok a \<and> result_action_id a \<notin> ids \<and> ids' = insert (result_action_id a) ids"
  by (auto simp: validate_result_action_def res_simps)

lemma validate_result_findings_Inr_iff [res_simps]:
  "validate_result_findings fs = Inr u \<longleftrightarrow> list_all finding_ok fs \<and> distinct (map finding_id fs)"
  using try_fold_unique [of validate_result_finding, OF validate_result_finding_Inr_iff]
  by (auto simp: validate_result_findings_def list_all_iff res_simps)

lemma validate_result_actions_Inr_iff [res_simps]:
  "validate_result_actions as = Inr u \<longleftrightarrow> list_all action_result_ok as \<and> distinct (map result_action_id as)"
  using try_fold_unique [of validate_result_action, OF validate_result_action_Inr_iff]
  by (auto simp: validate_result_actions_def list_all_iff res_simps)

text \<open>
  A reported result is accepted exactly when its times are ordered, its host is valid, its texts and
  maps are bounded, every action result, finding and artifact is valid, and no two of them share an
  identifier.
\<close>

theorem result_validate_iff: "result_validate E r = Inr () \<longleftrightarrow> result_ok E r"
  by (auto simp: result_validate_def result_ok_def validate_result_header_def validate_result_times_def
      artifacts_ok_def list_all_iff [of artifact_ok] res_simps)

section \<open>Worker results\<close>

definition max_receipts :: usize where "max_receipts = 512"
definition max_artifacts :: usize where "max_artifacts = 1024"
definition max_artifact_bytes :: u64 where "max_artifact_bytes = 1024 * 1024 * 1024"

definition validate_exit_code :: "worker_result \<Rightarrow> domain_error + unit" where
  "validate_exit_code r =
     (if worker_exit_code r \<noteq> as_i32 (for_status (final_status r))
      then validation ''worker result status and exit code disagree'' else Inr ())"

definition validate_optional_reason :: "worker_result \<Rightarrow> domain_error + unit" where
  "validate_optional_reason r =
     (case reason r of
        Some t \<Rightarrow> validate_nonempty ''worker result reason'' t 4096
      | None \<Rightarrow> Inr ())"

definition requires_reason :: "result_status \<Rightarrow> bool" where
  "requires_reason s \<longleftrightarrow> s \<in> set [StExecutionFailed, StUnsupported, StRejected, StCancelled]"

definition validate_required_reason :: "worker_result \<Rightarrow> domain_error + unit" where
  "validate_required_reason r =
     (if requires_reason (final_status r) \<and> reason r = None
      then validation ''non-success worker result must explain its terminal status'' else Inr ())"

definition validate_reason :: "worker_result \<Rightarrow> domain_error + unit" where
  "validate_reason r = and_then (validate_optional_reason r) (\<lambda>_. validate_required_reason r)"

definition has_mutation_evidence :: "worker_result \<Rightarrow> bool" where
  "has_mutation_evidence r \<longleftrightarrow>
     journal_terminal_hash r \<noteq> None \<or> receipts r \<noteq> [] \<or> artifact_manifest r \<noteq> []"

definition validate_unsupported_evidence :: "worker_result \<Rightarrow> domain_error + unit" where
  "validate_unsupported_evidence r =
     (if final_status r = StUnsupported \<and> has_mutation_evidence r
      then validation ''unsupported worker result must not carry mutation evidence'' else Inr ())"

definition journal_required :: "result_status \<Rightarrow> bool" where
  "journal_required s \<longleftrightarrow> s \<in> set [StCompleted, StWarnings]"

definition validate_completed_journal :: "worker_result \<Rightarrow> domain_error + unit" where
  "validate_completed_journal r =
     (if journal_required (final_status r) \<and> journal_terminal_hash r = None
      then validation ''completed worker result requires an anchored journal terminal hash'' else Inr ())"

definition has_receipts_or_artifacts :: "worker_result \<Rightarrow> bool" where
  "has_receipts_or_artifacts r \<longleftrightarrow> receipts r \<noteq> [] \<or> artifact_manifest r \<noteq> []"

definition validate_evidence_journal :: "worker_result \<Rightarrow> domain_error + unit" where
  "validate_evidence_journal r =
     (if has_receipts_or_artifacts r \<and> journal_terminal_hash r = None
      then validation ''worker receipts and artifacts require an anchored journal'' else Inr ())"

definition validate_worker_preconditions :: "worker_result \<Rightarrow> domain_error + unit" where
  "validate_worker_preconditions r =
     and_then (validate_exit_code r) (\<lambda>_.
     and_then (validate_reason r) (\<lambda>_.
     and_then (validate_unsupported_evidence r) (\<lambda>_.
     and_then (validate_completed_journal r) (\<lambda>_.
     and_then (validate_evidence_journal r) (\<lambda>_. Inr ())))))"

definition validate_entry_counts :: "worker_result \<Rightarrow> domain_error + unit" where
  "validate_entry_counts r =
     (if length (receipts r) > max_receipts \<or> length (artifact_manifest r) > max_artifacts
      then validation ''worker result exceeds receipt or artifact count limits'' else Inr ())"

definition validate_receipt_id :: "uuid set \<Rightarrow> uuid \<Rightarrow> domain_error + uuid set" where
  "validate_receipt_id receipt_ids receipt_id =
     (if receipt_id \<in> receipt_ids then validation ''worker result contains duplicate action receipts''
      else Inr (insert receipt_id receipt_ids))"

definition validate_receipt_ids :: "worker_result \<Rightarrow> domain_error + unit" where
  "validate_receipt_ids r =
     and_then (try_fold (\<lambda>ids receipt. validate_receipt_id ids (receipt_action_id receipt)) {} (receipts r))
       (\<lambda>_. Inr ())"

definition validate_artifact_locator :: "string set \<Rightarrow> string \<Rightarrow> domain_error + string set" where
  "validate_artifact_locator locators locator =
     (if locator \<in> locators then validation ''worker artifact locators must be unique''
      else Inr (insert locator locators))"

definition sum_artifact_sizes :: "artifact list \<Rightarrow> string set \<Rightarrow> domain_error + u64" where
  "sum_artifact_sizes artifacts locators =
     and_then (try_fold (\<lambda>(total, locators) artifact.
         and_then (validate_artifact_locator locators (artifact_locator artifact)) (\<lambda>locators.
         and_then (ok_or (Validation (Text ''worker artifact size overflowed''))
             (checked_add_u64 total (artifact_size_bytes artifact))) (\<lambda>total.
           Inr (total, locators)))) (0, locators) artifacts)
       (\<lambda>(total, locators). Inr total)"

definition validate_artifact_locations :: "worker_result \<Rightarrow> domain_error + unit" where
  "validate_artifact_locations r =
     and_then (sum_artifact_sizes (artifact_manifest r) {}) (\<lambda>total.
       if total > max_artifact_bytes then validation ''worker artifact manifest exceeds its byte limit''
       else Inr ())"

definition validate_worker_evidence :: "worker_result \<Rightarrow> domain_error + unit" where
  "validate_worker_evidence r =
     and_then (validate_entry_counts r) (\<lambda>_.
     and_then (validate_receipt_ids r) (\<lambda>_.
     and_then (validate_artifacts (artifact_manifest r)) (\<lambda>_.
     and_then (validate_artifact_locations r) (\<lambda>_. Inr ()))))"

definition validate_worker_result :: "worker_result \<Rightarrow> domain_error + unit" where
  "validate_worker_result r =
     and_then (validate_worker_preconditions r) (\<lambda>_.
     and_then (validate_worker_evidence r) (\<lambda>_. Inr ()))"

lemma validate_artifact_locator_Inr_iff:
  "validate_artifact_locator ls l = Inr ls' \<longleftrightarrow> l \<notin> ls \<and> ls' = insert l ls"
  by (auto simp: validate_artifact_locator_def)

lemma sum_artifact_sizes_Inr_iff:
  "sum_artifact_sizes as ls = Inr t \<longleftrightarrow>
     t = sum_list (map artifact_size_bytes as) \<and> (as \<noteq> [] \<longrightarrow> t < u64_bound) \<and>
     distinct (map artifact_locator as) \<and> artifact_locator ` set as \<inter> ls = {}"
proof -
  let ?step = "\<lambda>(total, locators) artifact.
         and_then (validate_artifact_locator locators (artifact_locator artifact)) (\<lambda>locators.
         and_then (ok_or (Validation (Text ''worker artifact size overflowed''))
             (checked_add_u64 total (artifact_size_bytes artifact))) (\<lambda>total.
           Inr (total, locators)))"
  have "(\<exists>ls'. try_fold ?step (n, ls) as = Inr (t, ls')) \<longleftrightarrow>
      t = n + sum_list (map artifact_size_bytes as) \<and> (as \<noteq> [] \<longrightarrow> t < u64_bound) \<and>
      distinct (map artifact_locator as) \<and> artifact_locator ` set as \<inter> ls = {}" for n
  proof (induction as arbitrary: n ls)
    case (Cons a as)
    have "(\<exists>ls'. try_fold ?step (n, ls) (a # as) = Inr (t, ls')) \<longleftrightarrow>
        artifact_locator a \<notin> ls \<and> n + artifact_size_bytes a < u64_bound \<and>
        (\<exists>ls'. try_fold ?step (n + artifact_size_bytes a, insert (artifact_locator a) ls) as = Inr (t, ls'))"
      by (auto simp: res_simps validate_artifact_locator_Inr_iff)
    then show ?case
      by (auto simp: Cons.IH)
  qed auto
  then show ?thesis
    by (auto simp: sum_artifact_sizes_def res_simps)
qed

lemma validate_receipt_ids_Inr_iff [res_simps]:
  "validate_receipt_ids r = Inr u \<longleftrightarrow> distinct (map receipt_action_id (receipts r))"
proof -
  have "validate_receipt_id ids (receipt_action_id a) = Inr ids' \<longleftrightarrow>
      True \<and> receipt_action_id a \<notin> ids \<and> ids' = insert (receipt_action_id a) ids" for ids ids' a
    by (auto simp: validate_receipt_id_def)
  from try_fold_unique [of "\<lambda>ids a. validate_receipt_id ids (receipt_action_id a)" "\<lambda>_. True"
      receipt_action_id, OF this]
  show ?thesis
    by (auto simp: validate_receipt_ids_def res_simps)
qed

text \<open>What an accepted worker result promises.\<close>

definition worker_result_ok :: "worker_result \<Rightarrow> bool" where
  "worker_result_ok r \<longleftrightarrow>
     worker_exit_code r = as_i32 (for_status (final_status r)) \<and>
     (case reason r of
        Some t \<Rightarrow> text_ok 4096 t
      | None \<Rightarrow> final_status r = StCompleted \<or> final_status r = StWarnings) \<and>
     (case journal_terminal_hash r of
        Some h \<Rightarrow> final_status r \<noteq> StUnsupported
      | None \<Rightarrow> receipts r = [] \<and> artifact_manifest r = [] \<and>
          final_status r \<noteq> StCompleted \<and> final_status r \<noteq> StWarnings) \<and>
     length (receipts r) \<le> 512 \<and> length (artifact_manifest r) \<le> 1024 \<and>
     distinct (map receipt_action_id (receipts r)) \<and> artifacts_ok (artifact_manifest r) \<and>
     distinct (map artifact_locator (artifact_manifest r)) \<and>
     sum_list (map artifact_size_bytes (artifact_manifest r)) \<le> 1024 * 1024 * 1024"

lemma validate_worker_preconditions_Inr_iff:
  "validate_worker_preconditions r = Inr u \<longleftrightarrow>
     worker_exit_code r = as_i32 (for_status (final_status r)) \<and>
     (case reason r of
        Some t \<Rightarrow> text_ok 4096 t
      | None \<Rightarrow> final_status r = StCompleted \<or> final_status r = StWarnings) \<and>
     (case journal_terminal_hash r of
        Some h \<Rightarrow> final_status r \<noteq> StUnsupported
      | None \<Rightarrow> receipts r = [] \<and> artifact_manifest r = [] \<and>
          final_status r \<noteq> StCompleted \<and> final_status r \<noteq> StWarnings)"
  by (cases "reason r"; cases "journal_terminal_hash r"; cases "final_status r")
     (auto simp: validate_worker_preconditions_def validate_exit_code_def validate_reason_def
      validate_optional_reason_def validate_required_reason_def requires_reason_def
      validate_unsupported_evidence_def has_mutation_evidence_def validate_completed_journal_def
      journal_required_def validate_evidence_journal_def has_receipts_or_artifacts_def res_simps)

lemma validate_worker_evidence_Inr_iff:
  "validate_worker_evidence r = Inr u \<longleftrightarrow>
     length (receipts r) \<le> 512 \<and> length (artifact_manifest r) \<le> 1024 \<and>
     distinct (map receipt_action_id (receipts r)) \<and> artifacts_ok (artifact_manifest r) \<and>
     distinct (map artifact_locator (artifact_manifest r)) \<and>
     sum_list (map artifact_size_bytes (artifact_manifest r)) \<le> 1024 * 1024 * 1024"
  by (auto simp: validate_worker_evidence_def validate_entry_counts_def max_receipts_def
      max_artifacts_def max_artifact_bytes_def validate_artifact_locations_def artifacts_ok_def
      list_all_iff sum_artifact_sizes_Inr_iff u64_bound_def res_simps)

text \<open>
  A worker result is accepted exactly when its exit code is that of its status, failures are
  explained, receipts and artifacts come only with an anchored journal, unsupported results carry no
  mutation evidence, receipts and locators are unique, and the artifacts fit the byte limit without the
  sum overflowing.
\<close>

theorem validate_worker_result_iff: "validate_worker_result r = Inr () \<longleftrightarrow> worker_result_ok r"
  unfolding worker_result_ok_def
  by (auto simp: validate_worker_result_def validate_worker_preconditions_Inr_iff
      validate_worker_evidence_Inr_iff res_simps)

end
