(* ===== verification/Scheduler.thy ===== *)
theory Scheduler
  imports Plan_Validate
begin

text \<open>
  The scheduler of \<open>baselineops-engine/src/scheduler.rs\<close> and \<open>scheduler/order.rs\<close>. Its order comes from an
  index over positions and the worklist of theory \<open>Kahn\<close>; its execution loop runs the actions one by one
  and decides from the outcomes so far which of the rest are skipped.
\<close>

section \<open>The execution order\<close>

text \<open>\<open>SchedulerError\<close>; \<open>SchedulerPanic\<close> stands for an index out of range or a counter below zero.\<close>

datatype scheduler_error = InvalidGraph string | CapabilityError string | SchedulerPanic

definition incomplete_graph :: scheduler_error where
  "incomplete_graph = InvalidGraph ''dependencies are missing or cyclic''"

text \<open>\<open>collect\<close> into a \<open>BTreeMap\<close> keeps the last position of an identifier; its length counts the keys.\<close>

definition collect_map :: "('k \<times> 'v) list \<Rightarrow> ('k \<rightharpoonup> 'v)" where
  "collect_map kvs = foldl (\<lambda>m (k, v). m(k \<mapsto> v)) Map.empty kvs"

definition action_positions :: "planned_action list \<Rightarrow> scheduler_error + (uuid \<rightharpoonup> usize)" where
  "action_positions actions =
     (if actions = [] then Inl (InvalidGraph ''no actions were supplied'')
      else if card (set (map action_id actions)) \<noteq> length actions
      then Inl (InvalidGraph ''duplicate action IDs'')
      else Inr (collect_map (map (\<lambda>(position, action). (action_id action, position)) (enumerate 0 actions))))"

definition build_action ::
    "(uuid \<rightharpoonup> usize) \<Rightarrow> usize list list \<Rightarrow> usize \<times> planned_action \<Rightarrow> scheduler_error + usize list list" where
  "build_action positions dependents = (\<lambda>(position, action).
     try_fold (\<lambda>dependents d.
         and_then (ok_or incomplete_graph (positions d)) (\<lambda>parent.
           if length dependents \<le> parent then Inl SchedulerPanic
           else Inr (dependents[parent := dependents ! parent @ [position]])))
       dependents (action_depends_on action))"

definition build :: "planned_action list \<Rightarrow> (uuid \<rightharpoonup> usize) \<Rightarrow> scheduler_error + usize list \<times> usize list list" where
  "build actions positions =
     and_then (try_fold (build_action positions) (replicate (length actions) []) (enumerate 0 actions))
       (\<lambda>dependents. Inr (map (\<lambda>action. length (action_depends_on action)) actions, dependents))"

definition complete :: "usize list list \<Rightarrow> usize \<Rightarrow> usize list \<Rightarrow> usize list \<Rightarrow> (usize list \<times> usize list) option" where
  "complete dependents position pending ready =
     (if length dependents \<le> position then None else discharge (dependents ! position) (pending, ready))"

function order_loop ::
    "planned_action list \<Rightarrow> usize list list \<Rightarrow> usize list \<Rightarrow> usize list \<Rightarrow> uuid list \<Rightarrow> uuid list option" where
  "order_loop actions dependents pending ready order =
     (case ready of
        [] \<Rightarrow> Some order
      | position # ready \<Rightarrow>
          if length actions \<le> position then None
          else
            (case complete dependents position pending ready of
               None \<Rightarrow> None
             | Some (pending, ready) \<Rightarrow>
                 order_loop actions dependents pending ready (order @ [action_id (actions ! position)])))"
  by pat_completeness auto
termination
proof (relation "measure (\<lambda>(actions, dependents, pending, ready, order). sum_list pending + length ready)",
    goal_cases)
  case (2 actions dependents pending ready order p ready' x pending' ready'')
  then show ?case
    using discharge_measure [of "dependents ! p" pending ready' pending' ready'']
    by (simp add: complete_def split: if_splits)
qed simp

declare order_loop.simps [simp del]

definition topological_order :: "planned_action list \<Rightarrow> scheduler_error + uuid list" where
  "topological_order actions =
     and_then (action_positions actions) (\<lambda>by_id.
     and_then (build actions by_id) (\<lambda>(pending, dependents).
       case order_loop actions dependents pending (zero_positions pending) [] of
         None \<Rightarrow> Inl SchedulerPanic
       | Some order \<Rightarrow>
           if length order \<noteq> length actions then Inl incomplete_graph else Inr order))"

section \<open>The index of the scheduler\<close>

lemma collect_map_eq: "collect_map kvs = map_of (rev kvs)"
proof -
  have "foldl (\<lambda>m (k, v). m(k \<mapsto> v)) m kvs = m ++ map_of (rev kvs)" for m
    by (induction kvs arbitrary: m) (auto simp: map_add_def fun_eq_iff split: option.splits)
  then show ?thesis by (simp add: collect_map_def)
qed

lemma collect_map_distinct: "distinct (map fst kvs) \<Longrightarrow> collect_map kvs = map_of kvs"
  by (simp add: collect_map_eq map_of_inject_set rev_map [symmetric])

lemma map_of_positions:
  "distinct (map idf items) \<Longrightarrow>
     map_of (map (\<lambda>(p, item). (idf item, p)) (enumerate 0 items)) d =
     (if d \<in> idf ` set items then Some (position_of idf items d) else None)"
proof -
  have gen: "map_of (map (\<lambda>(p, item). (idf item, p)) (enumerate k items)) d =
      (if d \<in> idf ` set items then Some (k + position_of idf items d) else None)"
    if "distinct (map idf items)" for k
    using that
  proof (induction items arbitrary: k)
    case (Cons item items)
    then show ?case by (auto simp: position_of_def)
  qed simp
  show "distinct (map idf items) \<Longrightarrow> ?thesis" using gen [of 0] by simp
qed

lemma action_positions_Inr_iff:
  "action_positions actions = Inr positions \<longleftrightarrow>
     actions \<noteq> [] \<and> distinct (map action_id actions) \<and>
     positions = (\<lambda>d. if d \<in> action_id ` set actions then Some (position_of action_id actions d) else None)"
proof -
  have dist: "card (action_id ` set actions) = length actions \<longleftrightarrow> distinct (map action_id actions)"
    using card_distinct [of "map action_id actions"] distinct_card [of "map action_id actions"] by auto
  have "collect_map (map (\<lambda>(p, a). (action_id a, p)) (enumerate 0 actions)) =
      (\<lambda>d. if d \<in> action_id ` set actions then Some (position_of action_id actions d) else None)"
    if "distinct (map action_id actions)"
  proof -
    have "map fst (map (\<lambda>(p, a). (action_id a, p)) (enumerate k actions)) = map action_id actions" for k
      by (induction actions arbitrary: k) auto
    then show ?thesis
      using that by (simp add: collect_map_distinct map_of_positions fun_eq_iff del: map_map)
  qed
  then show ?thesis
    by (auto simp: action_positions_def dist)
qed

lemma build_action_closed:
  assumes "\<forall>d\<in>set ds. \<exists>q < length D. positions d = Some q"
    and "action_depends_on a = ds"
  shows "\<exists>D'. build_action positions D (p, a) = Inr D' \<and> length D' = length D \<and>
    (\<forall>q < length D. D' ! q = D ! q @ replicate (count_list (map (\<lambda>d. the (positions d)) ds) q) p)"
  using assms(1) unfolding build_action_def prod.case assms(2)
proof (induction ds arbitrary: D)
  case (Cons d ds)
  then obtain q where q: "positions d = Some q" "q < length D" by auto
  let ?D = "D[q := D ! q @ [p]]"
  have "\<forall>d\<in>set ds. \<exists>q < length ?D. positions d = Some q"
    using Cons.prems by simp
  from Cons.IH [OF this] q show ?case
    by (auto simp: nth_list_update)
qed simp

lemma build_action_unknown:
  assumes "\<forall>d\<in>set ds. \<forall>q. positions d = Some q \<longrightarrow> q < length D" "\<exists>d\<in>set ds. positions d = None"
    and "action_depends_on a = ds"
  shows "build_action positions D (p, a) = Inl incomplete_graph"
  using assms(1,2) unfolding build_action_def prod.case assms(3)
proof (induction ds arbitrary: D)
  case (Cons d ds)
  show ?case
  proof (cases "positions d")
    case (Some q)
    with Cons show ?thesis by auto
  qed simp
qed simp

lemma build_fold_closed:
  assumes "\<forall>a\<in>set actions. \<forall>d\<in>set (action_depends_on a). \<exists>q < length D. positions d = Some q"
  shows "\<exists>D'. try_fold (build_action positions) D (enumerate k actions) = Inr D' \<and> length D' = length D \<and>
    (\<forall>q < length D. D' ! q = D ! q @
       concat (map (\<lambda>(p, a). replicate (count_list (map (\<lambda>d. the (positions d)) (action_depends_on a)) q) p)
         (enumerate k actions)))"
  using assms
proof (induction actions arbitrary: D k)
  case (Cons a actions)
  obtain D1 where D1: "build_action positions D (k, a) = Inr D1" "length D1 = length D"
    "\<forall>q < length D. D1 ! q = D ! q @ replicate (count_list (map (\<lambda>d. the (positions d)) (action_depends_on a)) q) k"
    using build_action_closed [of "action_depends_on a" D positions a k] Cons.prems by auto
  have "\<forall>a\<in>set actions. \<forall>d\<in>set (action_depends_on a). \<exists>q < length D1. positions d = Some q"
    using Cons.prems D1(2) by simp
  from Cons.IH [OF this, of "Suc k"] D1 show ?case by auto
qed simp

lemma build_fold_unknown:
  assumes "\<forall>d q. positions d = Some q \<longrightarrow> q < length D"
    "\<exists>a\<in>set actions. \<exists>d\<in>set (action_depends_on a). positions d = None"
  shows "try_fold (build_action positions) D (enumerate k actions) = Inl incomplete_graph"
  using assms
proof (induction actions arbitrary: D k)
  case (Cons a actions)
  show ?case
  proof (cases "\<exists>d\<in>set (action_depends_on a). positions d = None")
    case True
    then show ?thesis
      using build_action_unknown [of "action_depends_on a" positions D a k] Cons.prems(1) by simp
  next
    case False
    then have "\<forall>d\<in>set (action_depends_on a). \<exists>q < length D. positions d = Some q"
      using Cons.prems(1) by auto
    then obtain D1 where "build_action positions D (k, a) = Inr D1" "length D1 = length D"
      using build_action_closed by blast
    with False Cons.IH [of D1 "Suc k"] Cons.prems show ?thesis by auto
  qed
qed simp

definition id_positions :: "planned_action list \<Rightarrow> uuid \<rightharpoonup> usize" where
  "id_positions actions =
     (\<lambda>d. if d \<in> action_id ` set actions then Some (position_of action_id actions d) else None)"

abbreviation action_graph_closed :: "planned_action list \<Rightarrow> bool" where
  "action_graph_closed actions \<equiv> closed_deps action_id action_depends_on actions"

lemma build_closed:
  assumes "action_graph_closed actions"
  obtains dependents where
    "build actions (id_positions actions) =
       Inr (map (\<lambda>a. length (action_depends_on a)) actions, dependents)"
    "length dependents = length actions"
    "\<forall>q < length actions. dependents ! q = dep_positions action_id action_depends_on actions q"
proof -
  have "\<forall>a\<in>set actions. \<forall>d\<in>set (action_depends_on a).
      \<exists>q < length (replicate (length actions) []). id_positions actions d = Some q"
    using assms by (force simp: id_positions_def closed_deps_def position_of_less)
  from build_fold_closed [OF this, of 0] obtain D where
    D: "try_fold (build_action (id_positions actions)) (replicate (length actions) []) (enumerate 0 actions) = Inr D"
    "length D = length actions"
    "\<And>q. q < length actions \<Longrightarrow> D ! q =
       concat (map (\<lambda>(p, a). replicate (count_list (map (\<lambda>d. the (id_positions actions d)) (action_depends_on a)) q) p)
         (enumerate 0 actions))"
    by auto
  have "D ! q = dep_positions action_id action_depends_on actions q" if q: "q < length actions" for q
  proof -
    have "count_list (map (\<lambda>d. the (id_positions actions d)) (action_depends_on a)) q =
        count_list (action_depends_on a) (action_id (actions ! q))" if a: "a \<in> set actions" for a
    proof -
      have pos: "position_of action_id actions (action_id (actions ! q)) = q"
        using assms q by (simp add: closed_deps_def position_of_nth)
      have "set ds \<subseteq> action_id ` set actions \<Longrightarrow>
          count_list (map (\<lambda>d. the (id_positions actions d)) ds) q = count_list ds (action_id (actions ! q))" for ds
      proof (induction ds)
        case (Cons d ds)
        then show ?case
          using position_eq_iff [OF q pos, of d] by (auto simp: id_positions_def)
      qed simp
      then show ?thesis using assms a by (auto simp: closed_deps_def)
    qed
    then show ?thesis
      unfolding D(3) [OF q] dep_positions_closed [OF assms q] dependents_of_def
      by (intro arg_cong [where f = concat] map_cong) (auto simp: in_set_enumerate_eq)
  qed
  with D that show ?thesis by (simp add: build_def)
qed

lemma build_open:
  assumes "distinct (map action_id actions)" "\<not> action_graph_closed actions"
  shows "build actions (id_positions actions) = Inl incomplete_graph"
proof -
  have "try_fold (build_action (id_positions actions)) (replicate (length actions) []) (enumerate 0 actions) =
      Inl incomplete_graph"
    by (rule build_fold_unknown)
       (use assms in \<open>auto simp: id_positions_def closed_deps_def position_of_less split: if_splits\<close>)
  then show ?thesis by (simp add: build_def)
qed

section \<open>The order of the scheduler\<close>

lemma order_loop_worklist:
  assumes "\<And>p. p < length actions \<Longrightarrow> dependents ! p = dep p" "length dependents = length actions"
    and "\<And>p. p < length actions \<Longrightarrow> set (dep p) \<subseteq> {..<length actions}"
  shows "set ready \<subseteq> {..<length actions} \<Longrightarrow>
    order_loop actions dependents pending ready (map (\<lambda>p. action_id (actions ! p)) order) =
    map_option (\<lambda>(order, rem). map (\<lambda>p. action_id (actions ! p)) order) (worklist dep pending ready order)"
proof (induction "sum_list pending + length ready" arbitrary: pending ready order rule: less_induct)
  case less
  show ?case
  proof (cases ready)
    case Nil
    then show ?thesis by (simp add: order_loop.simps worklist.simps)
  next
    case (Cons p ready')
    have p: "p < length actions" using less.prems Cons by simp
    note eqs = order_loop.simps [of actions dependents pending "p # ready'"]
      worklist.simps [of dep pending "p # ready'"] complete_def
    show ?thesis
    proof (cases "discharge (dep p) (pending, ready')")
      case None
      then show ?thesis
        using p Cons assms(1,2) by (simp add: eqs)
    next
      case (Some state)
      obtain pending' ready'' where s: "state = (pending', ready'')" by (cases state)
      have "sum_list pending' + length ready'' < sum_list pending + length ready"
        using discharge_measure [of "dep p" pending ready'] Some s Cons by simp
      moreover have "set ready'' \<subseteq> {..<length actions}"
        using discharge_subset [of "dep p" pending ready'] Some s less.prems Cons assms(3) [OF p] by auto
      ultimately show ?thesis
        using less.hyps [of pending' ready'' "order @ [p]"] Some s p Cons assms(1,2)
        by (simp add: eqs)
    qed
  qed
qed

lemma topological_order_closed:
  assumes "actions \<noteq> []" "action_graph_closed actions"
  obtains order rem where
    "worklist (dep_positions action_id action_depends_on actions)
       (map (\<lambda>a. length (action_depends_on a)) actions)
       (zero_positions (map (\<lambda>a. length (action_depends_on a)) actions)) [] = Some (order, rem)"
    "topological_order actions =
       (if acyclic_deps action_id action_depends_on actions
        then Inr (map (\<lambda>p. action_id (actions ! p)) order) else Inl incomplete_graph)"
    "acyclic_deps action_id action_depends_on actions \<Longrightarrow>
       dependency_safe action_id action_depends_on actions (map (\<lambda>p. action_id (actions ! p)) order)"
proof -
  let ?pending = "map (\<lambda>a. length (action_depends_on a)) actions"
  let ?dep = "dep_positions action_id action_depends_on actions"
  let ?preds = "pred_positions action_id action_depends_on actions"
  obtain dependents where b: "build actions (id_positions actions) = Inr (?pending, dependents)"
    "length dependents = length actions" "\<forall>q < length actions. dependents ! q = ?dep q"
    by (rule build_closed [OF assms(2)])
  have rem: "length ?pending = length actions"
    "\<And>q. q < length actions \<Longrightarrow> ?pending ! q = length (?preds q)"
    using assms(2) by (simp_all add: pred_positions_closed)
  obtain order rem where w: "worklist ?dep ?pending (zero_positions ?pending) [] = Some (order, rem)"
    "distinct order" "set order \<subseteq> {..<length actions}" "dependency_index.ordered ?preds order"
    "length order = length actions \<longleftrightarrow> dependency_index.ranked (length actions) ?preds"
    by (rule graph.worklist_correct [OF rem])
  have "order_loop actions dependents ?pending (zero_positions ?pending) [] =
      map_option (\<lambda>(order, rem). map (\<lambda>p. action_id (actions ! p)) order) (Some (order, rem))"
    unfolding w(1) [symmetric]
    by (rule order_loop_worklist [where order = "[]", unfolded list.map])
       (use b(2,3) graph.dep_range [of _ actions action_id action_depends_on] in
         \<open>auto simp: zero_positions_eq subset_eq\<close>)
  moreover have "action_positions actions = Inr (id_positions actions)"
    using assms by (simp add: action_positions_Inr_iff id_positions_def closed_deps_def)
  ultimately have "topological_order actions =
      (if length order = length actions then Inr (map (\<lambda>p. action_id (actions ! p)) order)
       else Inl incomplete_graph)"
    by (simp add: topological_order_def b(1))
  with w(1,5) ordered_imp_safe [OF assms(2) w(4,2,3)] ranked_iff_acyclic [OF assms(2)] show ?thesis
    by (intro that) simp_all
qed

lemma topological_order_cases:
  "topological_order actions =
     (if actions = [] then Inl (InvalidGraph ''no actions were supplied'')
      else if \<not> distinct (map action_id actions) then Inl (InvalidGraph ''duplicate action IDs'')
      else if \<not> action_graph_closed actions \<or> \<not> acyclic_deps action_id action_depends_on actions
      then Inl incomplete_graph else topological_order actions)"
proof (cases "actions \<noteq> [] \<and> distinct (map action_id actions)")
  case True
  then have pos: "action_positions actions = Inr (id_positions actions)"
    by (simp add: action_positions_Inr_iff id_positions_def)
  show ?thesis
  proof (cases "action_graph_closed actions")
    case False
    with True pos show ?thesis by (simp add: topological_order_def build_open)
  next
    case closed: True
    have "actions \<noteq> []" using True by simp
    from this closed show ?thesis
      by (rule topological_order_closed) (use True closed in simp)
  qed
next
  case False
  have "card (set (map action_id actions)) = length actions \<longleftrightarrow> distinct (map action_id actions)"
    using card_distinct [of "map action_id actions"] distinct_card [of "map action_id actions"] by auto
  with False show ?thesis
    by (auto simp: topological_order_def action_positions_def)
qed

text \<open>
  C39: the scheduler finds an order exactly for non-empty, duplicate-free, closed and acyclic action
  lists, and then the order names every action once, after its dependencies; it never panics.
\<close>

theorem topological_order_correct:
  "case topological_order actions of
     Inr order \<Rightarrow> actions \<noteq> [] \<and> action_graph_closed actions \<and>
       acyclic_deps action_id action_depends_on actions \<and>
       dependency_safe action_id action_depends_on actions order
   | Inl e \<Rightarrow> e \<noteq> SchedulerPanic \<and>
       \<not> (actions \<noteq> [] \<and> action_graph_closed actions \<and> acyclic_deps action_id action_depends_on actions)"
proof (cases "actions \<noteq> [] \<and> action_graph_closed actions")
  case True
  then have "actions \<noteq> []" "action_graph_closed actions" by simp_all
  then show ?thesis
    by (rule topological_order_closed) (use True in \<open>simp add: incomplete_graph_def\<close>)
next
  case False
  then show ?thesis
    by (subst topological_order_cases) (auto simp: incomplete_graph_def closed_deps_def)
qed

lemma validated_order:
  assumes "validate_planned_actions actions = Inr order"
  shows "topological_order actions = Inr order"
proof -
  note graph = validate_graph_Inr [OF assms [unfolded validate_planned_actions_def]]
  then have "actions \<noteq> []" "action_graph_closed actions"
    by (simp_all add: graph_fields_ok_def)
  then show ?thesis
    by (rule topological_order_closed) (use graph(2,4) in auto)
qed

text \<open>
  On a validated plan the scheduler runs the actions in exactly the order that the validator
  returned, although the two build their index differently.
\<close>

theorem scheduler_follows_validator:
  assumes "validate_structure E p = Inr order"
  shows "topological_order (plan_actions p) = Inr order"
  using assms by (simp add: validate_structure_Inr_iff validated_order)

theorem scheduler_follows_validator_witness:
  "\<exists>order. topological_order (plan_actions (sample_plan 9)) = Inr order"
proof -
  obtain order where "validate_structure id_ext (sample_plan 9) = Inr order"
    using plan_structure_order [OF sample_plan_structure [of 9]] sample_plan_structure [of 9]
    by (auto simp: validate_structure_Inr_iff)
  from scheduler_follows_validator [OF this] show ?thesis by blast
qed

section \<open>Execution\<close>

record execution_policy =
  policy_operation :: operation
  policy_continue_on_error :: bool

definition should_stop_after_failure :: "execution_policy \<Rightarrow> planned_action \<Rightarrow> bool" where
  "should_stop_after_failure policy action \<longleftrightarrow>
     policy_operation policy = OpApply \<or>
     \<not> (policy_continue_on_error policy \<or> action_continue_on_error action)"

record action_execution =
  execution_status :: action_status
  execution_findings :: "finding list"
  execution_artifacts :: "artifact list"
  execution_metadata :: json_map

text \<open>
  The surroundings of the scheduler: the capability runner behind the \<open>ActionRunner\<close> port, the
  cancellation token that another thread may set at any time, and the clock. Each call reads and
  changes a world of arbitrary type, so that every interleaving of the outside is a value of \<open>'w env\<close>.
\<close>

record 'w env =
  env_run :: "planned_action \<Rightarrow> 'w \<Rightarrow> (scheduler_error + action_execution) \<times> 'w"
  env_is_cancelled :: "'w \<Rightarrow> bool \<times> 'w"
  env_clock :: "'w \<Rightarrow> datetime \<times> 'w"

record execution_state =
  statuses :: "uuid \<rightharpoonup> action_status"
  results :: "action_result list"
  state_findings :: "finding list"
  state_artifacts :: "artifact list"
  stopped :: bool
  cancelled :: bool

definition execution_state_new :: execution_state where
  "execution_state_new = \<lparr>statuses = Map.empty, results = [], state_findings = [], state_artifacts = [],
     stopped = False, cancelled = False\<rparr>"

definition unmet :: "action_status \<Rightarrow> bool" where
  "unmet s \<longleftrightarrow> s \<in> {Failed, Blocked, Skipped}"

definition dependency_failed :: "execution_state \<Rightarrow> planned_action \<Rightarrow> bool" where
  "dependency_failed st action \<longleftrightarrow>
     list_ex (\<lambda>d. case statuses st d of Some s \<Rightarrow> unmet s | None \<Rightarrow> False) (action_depends_on action)"

definition accept_execution ::
    "execution_state \<Rightarrow> planned_action \<Rightarrow> execution_policy \<Rightarrow> action_execution \<Rightarrow>
     (action_status \<times> json_map) \<times> execution_state" where
  "accept_execution st action policy execution =
     (let st = st\<lparr>state_findings := state_findings st @ execution_findings execution,
                  state_artifacts := state_artifacts st @ execution_artifacts execution\<rparr>;
          st = (if execution_status execution \<in> {Failed, Blocked} \<and> should_stop_after_failure policy action
                then st\<lparr>stopped := True\<rparr> else st)
      in ((execution_status execution, execution_metadata execution), st))"

text \<open>\<open>Display\<close> of the error, as \<open>thiserror\<close> derives it.\<close>

fun scheduler_error_text :: "scheduler_error \<Rightarrow> string" where
  "scheduler_error_text (InvalidGraph m) = ''invalid action graph: '' @ m"
| "scheduler_error_text (CapabilityError m) = ''capability execution failed: '' @ m"
| "scheduler_error_text SchedulerPanic = []"

definition accept_error ::
    "execution_state \<Rightarrow> planned_action \<Rightarrow> execution_policy \<Rightarrow> scheduler_error \<Rightarrow>
     (action_status \<times> json_map) \<times> execution_state" where
  "accept_error st action policy e =
     (let st = (if should_stop_after_failure policy action then st\<lparr>stopped := True\<rparr> else st)
      in ((Failed, [(''engineError'', JString (scheduler_error_text e))]), st))"

definition next_outcome ::
    "'w env \<Rightarrow> execution_state \<Rightarrow> planned_action \<Rightarrow> execution_policy \<Rightarrow> 'w \<Rightarrow>
     (action_status \<times> json_map) \<times> execution_state \<times> 'w" where
  "next_outcome env st action policy w =
     (let (is_cancelled, w) = env_is_cancelled env w in
      if is_cancelled then ((Skipped, []), st\<lparr>cancelled := True, stopped := True\<rparr>, w)
      else if stopped st \<or> dependency_failed st action then ((Skipped, []), st, w)
      else
        let (outcome, w) = env_run env action w in
        case outcome of
          Inr execution \<Rightarrow> let (r, st) = accept_execution st action policy execution in (r, st, w)
        | Inl e \<Rightarrow> let (r, st) = accept_error st action policy e in (r, st, w))"

definition record_result ::
    "execution_state \<Rightarrow> planned_action \<Rightarrow> action_status \<Rightarrow> json_map \<Rightarrow> datetime \<Rightarrow> datetime \<Rightarrow> execution_state" where
  "record_result st action status metadata started_at completed_at =
     st\<lparr>statuses := (statuses st)(action_id action \<mapsto> status),
        results := results st @ [\<lparr>result_action_id = action_id action,
          result_capability = action_capability action, result_action_status = status,
          action_started_at = started_at, action_completed_at = completed_at,
          result_action_metadata = metadata\<rparr>]\<rparr>"

record execution_summary =
  summary_actions :: "action_result list"
  summary_findings :: "finding list"
  summary_artifacts :: "artifact list"
  summary_cancelled :: bool

definition finish_execution :: "execution_state \<Rightarrow> execution_summary" where
  "finish_execution st = \<lparr>summary_actions = results st, summary_findings = state_findings st,
     summary_artifacts = state_artifacts st, summary_cancelled = cancelled st\<rparr>"

definition run_action ::
    "'w env \<Rightarrow> execution_policy \<Rightarrow> execution_state \<times> 'w \<Rightarrow> planned_action \<Rightarrow> execution_state \<times> 'w" where
  "run_action env policy = (\<lambda>(st, w) action.
     let (started_at, w) = env_clock env w;
         ((status, metadata), st, w) = next_outcome env st action policy w;
         (completed_at, w) = env_clock env w
     in (record_result st action status metadata started_at completed_at, w))"

definition execute_actions ::
    "'w env \<Rightarrow> planned_action list \<Rightarrow> execution_policy \<Rightarrow> 'w \<Rightarrow>
     scheduler_error + (execution_summary \<times> 'w)" where
  "execute_actions env actions policy w =
     and_then (topological_order actions) (\<lambda>order.
       let by_id = collect_map (map (\<lambda>action. (action_id action, action)) actions) in
       and_then (try_fold (\<lambda>s id.
           and_then (ok_or SchedulerPanic (by_id id)) (\<lambda>action. Inr (run_action env policy s action)))
         (execution_state_new, w) order) (\<lambda>(st, w).
       Inr (finish_execution st, w)))"

definition execute_verified_plan ::
    "'w env \<Rightarrow> verified_plan \<Rightarrow> bool \<Rightarrow> 'w \<Rightarrow> scheduler_error + (execution_summary \<times> 'w)" where
  "execute_verified_plan env verified_plan continue_on_error w =
     execute_actions env (plan_actions (as_plan verified_plan))
       \<lparr>policy_operation = operation_of_intent (plan_intent (as_plan verified_plan)),
        policy_continue_on_error = continue_on_error\<rparr> w"

section \<open>What one action may do\<close>

text \<open>
  The contract of one turn of the loop, without the surroundings: the operator cancels, the action is
  skipped, or it runs and its outcome decides whether the rest is stopped.
\<close>

inductive action_step :: "execution_policy \<Rightarrow> planned_action \<Rightarrow> execution_state \<Rightarrow> execution_state \<Rightarrow> bool"
  for policy a where
  Cancel: "action_step policy a st
     (record_result (st\<lparr>cancelled := True, stopped := True\<rparr>) a Skipped [] t u)"
| Skip: "stopped st \<or> dependency_failed st a \<Longrightarrow>
     action_step policy a st (record_result st a Skipped [] t u)"
| Run: "\<lbrakk>\<not> stopped st; \<not> dependency_failed st a;
     stop \<longleftrightarrow> s \<in> {Failed, Blocked} \<and> should_stop_after_failure policy a\<rbrakk> \<Longrightarrow>
     action_step policy a st
       (record_result (st\<lparr>state_findings := fs, state_artifacts := as, stopped := stop\<rparr>) a s m t u)"

inductive schedule :: "execution_policy \<Rightarrow> planned_action list \<Rightarrow> execution_state \<Rightarrow> bool"
  for policy where
  Start: "schedule policy [] execution_state_new"
| Next: "schedule policy past st \<Longrightarrow> action_step policy a st st' \<Longrightarrow> schedule policy (past @ [a]) st'"

inductive_cases action_stepE: "action_step policy a st st'"

lemma next_outcome_step:
  assumes "next_outcome env st a policy w = ((s, m), st', w')"
  shows "action_step policy a st (record_result st' a s m t u)"
proof -
  obtain c w1 where c: "env_is_cancelled env w = (c, w1)" by (cases "env_is_cancelled env w")
  obtain out w2 where r: "env_run env a w1 = (out, w2)" by (cases "env_run env a w1")
  consider "c" | "\<not> c" "stopped st \<or> dependency_failed st a"
    | "\<not> c" "\<not> stopped st" "\<not> dependency_failed st a" by blast
  then show ?thesis
  proof cases
    case 3
    define stop where "stop \<longleftrightarrow> s \<in> {Failed, Blocked} \<and> should_stop_after_failure policy a"
    have "\<exists>fs as. st' = st\<lparr>state_findings := fs, state_artifacts := as, stopped := stop\<rparr>"
    proof (cases out)
      case (Inl e)
      then show ?thesis
        using assms c r 3
        by (intro exI [of _ "state_findings st"] exI [of _ "state_artifacts st"])
           (auto simp: next_outcome_def accept_error_def stop_def Let_def)
    next
      case (Inr x)
      then show ?thesis
        using assms c r 3
        by (intro exI [of _ "state_findings st @ execution_findings x"]
              exI [of _ "state_artifacts st @ execution_artifacts x"])
           (auto simp: next_outcome_def accept_execution_def stop_def Let_def)
    qed
    then show ?thesis using 3 stop_def by (auto intro: action_step.Run)
  qed (use assms c in \<open>auto simp: next_outcome_def intro: action_step.Cancel action_step.Skip\<close>)
qed

lemma run_action_step:
  "run_action env policy (st, w) a = (st', w') \<Longrightarrow> action_step policy a st st'"
  by (auto simp: run_action_def Let_def split: prod.splits dest: next_outcome_step)

lemma run_actions_schedule:
  "schedule policy past st \<Longrightarrow>
     schedule policy (past @ acts) (fst (foldl (run_action env policy) (st, w) acts))"
proof (induction acts arbitrary: past st w)
  case (Cons a acts)
  obtain st' w' where r: "run_action env policy (st, w) a = (st', w')"
    by (cases "run_action env policy (st, w) a")
  from Cons.IH [OF schedule.Next [OF Cons.prems run_action_step [OF r]], of w'] r show ?case
    by simp
qed simp

lemma map_of_by_id:
  assumes "distinct (map action_id actions)" "a \<in> set actions"
  shows "collect_map (map (\<lambda>a. (action_id a, a)) actions) (action_id a) = Some a"
proof -
  have "distinct (map fst (map (\<lambda>a. (action_id a, a)) actions))"
    using assms(1) by (simp add: comp_def)
  moreover from this have "map_of (map (\<lambda>a. (action_id a, a)) actions) (action_id a) = Some a"
    using assms(2) by (intro map_of_is_SomeI) auto
  ultimately show ?thesis by (simp add: collect_map_distinct)
qed

lemma execute_fold:
  assumes "\<And>a. a \<in> set acts \<Longrightarrow> by_id (action_id a) = Some a"
  shows "try_fold (\<lambda>s id. and_then (ok_or SchedulerPanic (by_id id)) (\<lambda>action. Inr (f s action))) s
      (map action_id acts) = Inr (foldl f s acts)"
  using assms by (induction acts arbitrary: s) simp_all

text \<open>The actions in execution order.\<close>

definition in_order :: "planned_action list \<Rightarrow> uuid list \<Rightarrow> planned_action list" where
  "in_order actions order = map (\<lambda>i. actions ! position_of action_id actions i) order"

lemma in_order_props:
  assumes "dependency_safe action_id action_depends_on actions order"
  shows "map action_id (in_order actions order) = order" "set (in_order actions order) \<subseteq> set actions"
proof -
  have known: "position_of action_id actions i < length actions" if "i \<in> set order" for i
    using assms that by (simp add: dependency_safe_def position_of_less)
  then show "map action_id (in_order actions order) = order"
    by (simp add: in_order_def comp_def id_position_of map_idI)
  show "set (in_order actions order) \<subseteq> set actions"
    using known by (auto simp: in_order_def)
qed

lemma topological_order_Inr:
  assumes "topological_order actions = Inr order"
  shows "action_graph_closed actions" "dependency_safe action_id action_depends_on actions order"
proof -
  show closed: "action_graph_closed actions"
    using assms by (subst (asm) topological_order_cases) (auto split: if_splits)
  have "actions \<noteq> []"
    using assms by (subst (asm) topological_order_cases) (auto split: if_splits)
  from this closed show "dependency_safe action_id action_depends_on actions order"
    by (rule topological_order_closed) (use assms in \<open>auto split: if_splits\<close>)
qed

lemma execute_actions_eq:
  assumes "topological_order actions = Inr order"
  shows "execute_actions env actions policy w =
    (let s = foldl (run_action env policy) (execution_state_new, w) (in_order actions order)
     in Inr (finish_execution (fst s), snd s))"
proof -
  note props = topological_order_Inr [OF assms]
  let ?by_id = "collect_map (map (\<lambda>a. (action_id a, a)) actions)"
  have "?by_id (action_id a) = Some a" if "a \<in> set (in_order actions order)" for a
    using that in_order_props(2) [OF props(2)] props(1) map_of_by_id by (auto simp: closed_deps_def)
  from execute_fold [where acts = "in_order actions order" and by_id = ?by_id
      and f = "run_action env policy" and s = "(execution_state_new, w)", OF this]
  show ?thesis
    by (simp add: execute_actions_def assms in_order_props(1) [OF props(2)] Let_def case_prod_beta)
qed

lemma execute_actions_Inr:
  assumes "execute_actions env actions policy w = Inr (summary, w')"
  obtains order st where "topological_order actions = Inr order"
    "schedule policy (in_order actions order) st" "summary = finish_execution st"
proof -
  obtain order where order: "topological_order actions = Inr order"
    using assms by (cases "topological_order actions") (simp_all add: execute_actions_def)
  have "summary = finish_execution (fst
      (foldl (run_action env policy) (execution_state_new, w) (in_order actions order)))"
    using assms by (simp add: execute_actions_eq [OF order] Let_def)
  with order that run_actions_schedule [OF schedule.Start, where env = env and w = w
      and acts = "in_order actions order" and policy = policy]
  show ?thesis by simp
qed

section \<open>What every schedule guarantees\<close>

definition failing :: "action_status \<Rightarrow> bool" where
  "failing s \<longleftrightarrow> s \<in> {Failed, Blocked}"

abbreviation status_at :: "execution_state \<Rightarrow> nat \<Rightarrow> action_status" where
  "status_at st i \<equiv> result_action_status (results st ! i)"

definition halted_by :: "execution_policy \<Rightarrow> planned_action list \<Rightarrow> execution_state \<Rightarrow> nat \<Rightarrow> bool" where
  "halted_by policy acts st i \<longleftrightarrow>
     i < length acts \<and> failing (status_at st i) \<and> should_stop_after_failure policy (acts ! i)"

lemma action_step_facts:
  assumes "action_step policy a st st'"
  obtains r where "results st' = results st @ [r]" "result_action_id r = action_id a"
    "result_capability r = action_capability a"
    "statuses st' = (statuses st)(action_id a \<mapsto> result_action_status r)"
    "stopped st \<or> dependency_failed st a \<longrightarrow> result_action_status r = Skipped"
    "stopped st \<longrightarrow> stopped st'"
    "failing (result_action_status r) \<and> should_stop_after_failure policy a \<longrightarrow> stopped st'"
    "cancelled st \<longrightarrow> cancelled st'"
    "cancelled st' \<longrightarrow> cancelled st \<or> stopped st' \<and> result_action_status r = Skipped"
  using assms
proof (cases rule: action_step.cases)
  case (Cancel t u)
  then show ?thesis
    by (intro that [of "last (results st')"]) (simp_all add: record_result_def failing_def)
next
  case (Skip t u)
  then show ?thesis
    by (intro that [of "last (results st')"]) (simp_all add: record_result_def failing_def)
next
  case (Run stop s fs as m t u)
  then show ?thesis
    by (intro that [of "last (results st')"]) (simp_all add: record_result_def failing_def)
qed

lemma schedule_results:
  "schedule policy acts st \<Longrightarrow>
     map result_action_id (results st) = map action_id acts \<and>
     map result_capability (results st) = map action_capability acts"
proof (induction rule: schedule.induct)
  case (Next acts st a st')
  then show ?case by (auto elim: action_step_facts)
qed (simp add: execution_state_new_def)

lemma schedule_length: "schedule policy acts st \<Longrightarrow> length (results st) = length acts"
  using schedule_results [of policy acts st] by (metis length_map)

lemma schedule_statuses:
  "schedule policy acts st \<Longrightarrow> distinct (map action_id acts) \<Longrightarrow> i < length acts \<Longrightarrow>
     statuses st (action_id (acts ! i)) = Some (status_at st i)"
proof (induction rule: schedule.induct)
  case (Next acts st a st')
  obtain r where r: "results st' = results st @ [r]"
    "statuses st' = (statuses st)(action_id a \<mapsto> result_action_status r)"
    using Next.hyps(2) by (rule action_step_facts)
  show ?case
  proof (cases "i < length acts")
    case True
    then have "action_id (acts ! i) \<in> action_id ` set acts" by (intro imageI nth_mem)
    moreover have "action_id a \<notin> action_id ` set acts" using Next.prems(1) by simp
    ultimately have "action_id (acts ! i) \<noteq> action_id a" by metis
    then show ?thesis
      using True Next r schedule_length [OF Next.hyps(1)] by (simp add: nth_append)
  next
    case False
    then have "i = length acts" using Next.prems(2) by simp
    then show ?thesis using r schedule_length [OF Next.hyps(1)] by (simp add: nth_append)
  qed
qed simp

lemma schedule_dependencies:
  "schedule policy acts st \<Longrightarrow> distinct (map action_id acts) \<Longrightarrow> i < length acts \<Longrightarrow> j < i \<Longrightarrow>
     action_id (acts ! j) \<in> set (action_depends_on (acts ! i)) \<Longrightarrow> unmet (status_at st j) \<Longrightarrow>
     status_at st i = Skipped"
proof (induction rule: schedule.induct)
  case (Next acts st a st')
  obtain r where r: "results st' = results st @ [r]"
    "stopped st \<or> dependency_failed st a \<longrightarrow> result_action_status r = Skipped"
    using Next.hyps(2) by (rule action_step_facts)
  note len = schedule_length [OF Next.hyps(1)]
  show ?case
  proof (cases "i < length acts")
    case True
    then show ?thesis using Next r len by (simp add: nth_append)
  next
    case False
    then have i: "i = length acts" "j < length acts" using Next.prems by auto
    then have "statuses st (action_id (acts ! j)) = Some (status_at st j)"
      using schedule_statuses [OF Next.hyps(1)] Next.prems(1) by simp
    then have "dependency_failed st a"
      using Next.prems i r len by (auto simp: dependency_failed_def list_ex_iff nth_append split: option.splits)
    then show ?thesis using r i len by (simp add: nth_append)
  qed
qed simp

lemma schedule_halted:
  "schedule policy acts st \<Longrightarrow>
     (\<forall>i. halted_by policy acts st i \<longrightarrow>
        stopped st \<and> (\<forall>j. i < j \<and> j < length acts \<longrightarrow> status_at st j = Skipped)) \<and>
     (cancelled st \<longrightarrow>
        stopped st \<and> (\<exists>i < length acts. \<forall>j. i \<le> j \<and> j < length acts \<longrightarrow> status_at st j = Skipped))"
proof (induction rule: schedule.induct)
  case (Next acts st a st')
  obtain r where r: "results st' = results st @ [r]"
    "stopped st \<or> dependency_failed st a \<longrightarrow> result_action_status r = Skipped"
    "stopped st \<longrightarrow> stopped st'"
    "failing (result_action_status r) \<and> should_stop_after_failure policy a \<longrightarrow> stopped st'"
    "cancelled st' \<longrightarrow> cancelled st \<or> stopped st' \<and> result_action_status r = Skipped"
    using Next.hyps(2) by (rule action_step_facts)
  note len = schedule_length [OF Next.hyps(1)]
  have old: "status_at st' j = status_at st j" if "j < length acts" for j
    using r(1) len that by (simp add: nth_append)
  have new: "status_at st' (length acts) = result_action_status r"
    using r(1) len by (simp add: nth_append)
  have "stopped st' \<and> (\<forall>j. i < j \<and> j < length (acts @ [a]) \<longrightarrow> status_at st' j = Skipped)"
    if h: "halted_by policy (acts @ [a]) st' i" for i
  proof (cases "i < length acts")
    case True
    then have "halted_by policy acts st i" using h old by (simp add: halted_by_def nth_append)
    with Next.IH r old new show ?thesis by (auto simp: less_Suc_eq)
  next
    case False
    then have "i = length acts" using h by (simp add: halted_by_def)
    with h new r(4) show ?thesis by (auto simp: halted_by_def)
  qed
  moreover have "stopped st' \<and> (\<exists>i < length (acts @ [a]). \<forall>j. i \<le> j \<and> j < length (acts @ [a]) \<longrightarrow>
      status_at st' j = Skipped)" if c: "cancelled st'"
  proof (cases "cancelled st")
    case True
    then obtain i where "i < length acts" "\<forall>j. i \<le> j \<and> j < length acts \<longrightarrow> status_at st j = Skipped" "stopped st"
      using Next.IH by blast
    then show ?thesis
      using r old new by (intro conjI exI [of _ i]) (auto simp: less_Suc_eq)
  next
    case False
    then show ?thesis
      using c r(5) new by (intro conjI exI [of _ "length acts"]) (auto simp: less_Suc_eq)
  qed
  ultimately show ?case by blast
qed (simp add: halted_by_def execution_state_new_def)

section \<open>Properties of an execution\<close>

abbreviation result_status_of :: "execution_summary \<Rightarrow> nat \<Rightarrow> action_status" where
  "result_status_of summary i \<equiv> result_action_status (summary_actions summary ! i)"

lemma executed:
  assumes "execute_actions env actions policy w = Inr (summary, w')"
  obtains order st where "topological_order actions = Inr order"
    "schedule policy (in_order actions order) st" "summary = finish_execution st"
    "map action_id (in_order actions order) = order" "distinct order"
    "dependency_safe action_id action_depends_on actions order"
proof -
  obtain order st where o: "topological_order actions = Inr order"
    "schedule policy (in_order actions order) st" "summary = finish_execution st"
    using assms by (rule execute_actions_Inr)
  note safe = topological_order_Inr(2) [OF o(1)]
  from o in_order_props(1) [OF safe] safe show ?thesis
    by (intro that) (simp_all add: dependency_safe_def)
qed

text \<open>The same surroundings with the list of the actions that were handed to the capability runner.\<close>

definition watched :: "'w env \<Rightarrow> ('w \<times> planned_action list) env" where
  "watched env =
     \<lparr>env_run = (\<lambda>a (w, called). let (outcome, w) = env_run env a w in (outcome, w, called @ [a])),
      env_is_cancelled = (\<lambda>(w, called). let (c, w) = env_is_cancelled env w in (c, w, called)),
      env_clock = (\<lambda>(w, called). let (t, w) = env_clock env w in (t, w, called))\<rparr>"

lemma watched_action:
  "\<exists>more. run_action (watched env) policy (st, w, called) a =
      (fst (run_action env policy (st, w) a), snd (run_action env policy (st, w) a), called @ more) \<and>
    (more = [] \<or> more = [a] \<and> \<not> stopped st)"
  by (auto simp: run_action_def next_outcome_def watched_def Let_def split: prod.splits sum.splits)

lemma watched_actions:
  assumes "schedule policy past st" "set called \<subseteq> set past"
    and "\<And>i. halted_by policy past st i \<Longrightarrow> set called \<subseteq> set (take (Suc i) past)"
  shows "\<exists>called'. foldl (run_action (watched env) policy) (st, w, called) acts =
      (fst (foldl (run_action env policy) (st, w) acts), snd (foldl (run_action env policy) (st, w) acts), called') \<and>
    (\<forall>i. halted_by policy (past @ acts) (fst (foldl (run_action env policy) (st, w) acts)) i \<longrightarrow>
       set called' \<subseteq> set (take (Suc i) (past @ acts)))"
  using assms
proof (induction acts arbitrary: past st w called)
  case (Cons a acts)
  obtain st' w' where r: "run_action env policy (st, w) a = (st', w')" by fastforce
  obtain more where m: "run_action (watched env) policy (st, w, called) a = (st', w', called @ more)"
      "more = [] \<or> more = [a] \<and> \<not> stopped st"
    using watched_action [of env policy st w called a] r by auto
  have step: "schedule policy (past @ [a]) st'"
    using schedule.Next [OF Cons.prems(1) run_action_step [OF r]] .
  have "set (called @ more) \<subseteq> set (take (Suc i) (past @ [a]))" if h: "halted_by policy (past @ [a]) st' i" for i
  proof (cases "i < length past")
    case True
    have old: "halted_by policy past st i"
      using h True run_action_step [OF r] schedule_length [OF Cons.prems(1)]
      by (auto simp: halted_by_def nth_append elim!: action_step_facts)
    then have "stopped st" using schedule_halted [OF Cons.prems(1)] by blast
    with m(2) Cons.prems(3) [OF old] True show ?thesis by auto
  next
    case False
    with m(2) Cons.prems(2) show ?thesis by auto
  qed
  moreover have "set (called @ more) \<subseteq> set (past @ [a])" using m(2) Cons.prems(2) by auto
  ultimately show ?case
    using Cons.IH [OF step, of "called @ more" w'] by (simp add: m(1) r)
qed auto

lemma execute_watched:
  assumes "execute_actions env actions policy w = Inr (summary, w')"
  obtains order called where "topological_order actions = Inr order"
    "execute_actions (watched env) actions policy (w, []) = Inr (summary, w', called)"
    "\<And>i. i < length order \<Longrightarrow> failing (result_status_of summary i) \<Longrightarrow>
       should_stop_after_failure policy (in_order actions order ! i) \<Longrightarrow>
       set called \<subseteq> set (take (Suc i) (in_order actions order))"
proof -
  obtain order where order: "topological_order actions = Inr order"
    using assms by (cases "topological_order actions") (simp_all add: execute_actions_def)
  let ?acts = "in_order actions order"
  obtain st where st: "foldl (run_action env policy) (execution_state_new, w) ?acts = (st, w')" "summary = finish_execution st"
    using assms by (auto simp: execute_actions_eq [OF order] Let_def case_prod_beta prod_eq_iff)
  obtain called where called: "foldl (run_action (watched env) policy) (execution_state_new, w, []) ?acts = (st, w', called)"
      "\<And>i. halted_by policy ?acts st i \<Longrightarrow> set called \<subseteq> set (take (Suc i) ?acts)"
    using watched_actions [OF schedule.Start, where env = env and w = w and acts = ?acts and policy = policy] st
    by (auto simp: halted_by_def)
  show ?thesis
    by (rule that [OF order, of called])
      (use called st in \<open>auto simp: execute_actions_eq [OF order] Let_def halted_by_def finish_execution_def in_order_def\<close>)
qed


text \<open>
  C20: when a dependency of an action failed, was blocked or was skipped, the action is skipped.
\<close>

theorem failed_dependency_skips:
  assumes "execute_actions env actions policy w = Inr (summary, w')"
    and "a \<in> set actions" "d \<in> set (action_depends_on a)"
    and "i < length (summary_actions summary)" "result_action_id (summary_actions summary ! i) = action_id a"
    and "j < length (summary_actions summary)" "result_action_id (summary_actions summary ! j) = d"
    and "result_status_of summary j \<in> {Failed, Blocked, Skipped}"
  shows "result_status_of summary i = Skipped"
proof -
  have unmet: "unmet (result_status_of summary j)" using assms(8) by (simp add: unmet_def)
  obtain order st where o: "schedule policy (in_order actions order) st" "summary = finish_execution st"
    "map action_id (in_order actions order) = order" "distinct order"
    "dependency_safe action_id action_depends_on actions order" "topological_order actions = Inr order"
    using assms(1) by (rule executed)
  let ?acts = "in_order actions order"
  have len: "length (results st) = length order" "length ?acts = length order"
    using schedule_length [OF o(1)] by (simp_all add: in_order_def)
  have ids: "result_action_id (results st ! k) = order ! k" "action_id (?acts ! k) = order ! k"
    if "k < length order" for k
    using that len schedule_results [OF o(1)] o(3) by (metis nth_map)+
  have i: "i < length order" "order ! i = action_id a" and j: "j < length order" "order ! j = d"
    using assms(4-7) o(2) len ids by (simp_all add: finish_execution_def)
  have "?acts ! i = a"
  proof -
    have "?acts ! i \<in> set actions" "action_id (?acts ! i) = action_id a"
      using i ids(2) len in_order_props(2) [OF o(5)] by (auto simp: subset_iff)
    then show ?thesis
      using assms(2) topological_order_Inr(1) [OF o(6)]
      by (auto simp: closed_deps_def distinct_map dest: inj_onD)
  qed
  moreover have "j < i"
  proof -
    have "d \<in> set (take i order)"
      using o(5) assms(2,3) i by (auto simp: dependency_safe_def)
    then obtain k where "k < i" "order ! k = d" using i by (auto simp: in_set_conv_nth)
    with o(4) i j show ?thesis by (metis less_trans nth_eq_iff_index_eq)
  qed
  ultimately show ?thesis
    using schedule_dependencies [OF o(1), of i j] assms(3) unmet o(2-4) i j ids len
    by (simp add: finish_execution_def)
qed

text \<open>
  C21: an apply stops at the first failure. After an action that failed or was blocked, every later action is reported as
  skipped and is not handed to the capability runner, whatever continuation the profile or the command asked for.
  \<open>called\<close> is the list of all actions that the execution handed to the runner.
\<close>

theorem apply_fail_fast:
  assumes "execute_actions env actions policy w = Inr (summary, w')" "policy_operation policy = OpApply"
    and "i < j" "j < length (summary_actions summary)" "failing (result_status_of summary i)"
  shows "result_status_of summary j = Skipped \<and>
    (\<exists>called. execute_actions (watched env) actions policy (w, []) = Inr (summary, w', called) \<and>
       result_action_id (summary_actions summary ! j) \<notin> action_id ` set called)"
proof -
  obtain order st where o: "schedule policy (in_order actions order) st" "summary = finish_execution st"
    "map action_id (in_order actions order) = order" "distinct order" "topological_order actions = Inr order"
    using assms(1) by (rule executed)
  let ?acts = "in_order actions order"
  have stop: "should_stop_after_failure policy a" for a using assms(2) by (simp add: should_stop_after_failure_def)
  have len: "length (summary_actions summary) = length order" "length ?acts = length order"
    using schedule_length [OF o(1)] o(2) by (simp_all add: finish_execution_def in_order_def)
  have "halted_by policy ?acts st i"
    using assms o len stop by (simp add: halted_by_def finish_execution_def)
  then have skipped: "result_status_of summary j = Skipped"
    using schedule_halted [OF o(1)] assms o len by (simp add: finish_execution_def)
  obtain called where called: "execute_actions (watched env) actions policy (w, []) = Inr (summary, w', called)"
      "set called \<subseteq> set (take (Suc i) ?acts)"
    using assms(1) by (rule execute_watched) (use assms(3-5) len stop o(5) in auto)
  have "result_action_id (summary_actions summary ! j) = order ! j"
    using schedule_results [OF o(1)] o(2,3) assms(4) by (metis execution_summary.select_convs(1) finish_execution_def nth_map)
  moreover have "action_id ` set called \<subseteq> set (take (Suc i) order)"
    using called(2) o(3) by (metis image_mono image_set take_map)
  moreover have "order ! j \<notin> set (take (Suc i) order)"
    using o(4) assms(3,4) len by (auto simp: in_set_conv_nth nth_eq_iff_index_eq)
  ultimately show ?thesis using skipped called(1) by auto
qed

text \<open>
  When the summary reports a cancellation, the results end with skipped actions: from the action at
  which the cancellation was seen on, nothing called.
\<close>

theorem cancelled_suffix_skipped:
  assumes "execute_actions env actions policy w = Inr (summary, w')" "summary_cancelled summary"
  shows "\<exists>i < length (summary_actions summary).
    \<forall>j. i \<le> j \<and> j < length (summary_actions summary) \<longrightarrow> result_status_of summary j = Skipped"
proof -
  obtain order st where o: "schedule policy (in_order actions order) st" "summary = finish_execution st"
    using assms(1) by (rule executed)
  then show ?thesis
    using schedule_halted [OF o(1)] assms(2) schedule_length [OF o(1)] by (simp add: finish_execution_def)
qed

section \<open>Sample executions\<close>

text \<open>
  Two actions, the second before its dependency in the plan; every capability fails, and the token is
  set from the start or never.
\<close>

definition demo_action :: "uuid \<Rightarrow> uuid list \<Rightarrow> planned_action" where
  "demo_action i ds = \<lparr>action_id = i, source_step = i, action_capability = ''c'',
     action_operation = OpApply, action_parameters = [], action_depends_on = ds,
     action_continue_on_error = True, facts_digest = [], preconditions = [], risk = RiskLow,
     action_reversibility = Reversible, reboot = NotRequired, privileges = [], action_metadata = []\<rparr>"

definition demo_actions :: "planned_action list" where
  "demo_actions = [demo_action 2 [1], demo_action 1 []]"

definition demo_env :: "bool \<Rightarrow> unit env" where
  "demo_env c = \<lparr>env_run = (\<lambda>a w. (Inr \<lparr>execution_status = Failed, execution_findings = [],
     execution_artifacts = [], execution_metadata = []\<rparr>, w)),
     env_is_cancelled = (\<lambda>w. (c, w)), env_clock = (\<lambda>w. (0, w))\<rparr>"

definition demo_policy :: execution_policy where
  "demo_policy = \<lparr>policy_operation = OpApply, policy_continue_on_error = True\<rparr>"

definition demo_result :: "uuid \<Rightarrow> action_status \<Rightarrow> action_result" where
  "demo_result i s = \<lparr>result_action_id = i, result_capability = ''c'', result_action_status = s,
     action_started_at = 0, action_completed_at = 0, result_action_metadata = []\<rparr>"

definition demo_summary :: "bool \<Rightarrow> execution_summary" where
  "demo_summary c = \<lparr>summary_actions = [demo_result 1 (if c then Skipped else Failed), demo_result 2 Skipped],
     summary_findings = [], summary_artifacts = [], summary_cancelled = c\<rparr>"

lemma demo_order: "topological_order demo_actions = Inr [1, 2]"
  by code_simp

lemma demo_in_order: "in_order demo_actions [1, 2] = [demo_action 1 [], demo_action 2 [1]]"
  by code_simp

lemma demo_execution: "execute_actions (demo_env c) demo_actions demo_policy () = Inr (demo_summary c, ())"
  unfolding execute_actions_eq [OF demo_order] demo_in_order
  by (cases c)
     (simp_all add: demo_env_def demo_policy_def demo_action_def demo_summary_def demo_result_def
       run_action_def next_outcome_def accept_execution_def record_result_def finish_execution_def
       execution_state_new_def should_stop_after_failure_def dependency_failed_def Let_def)


theorem failed_dependency_skips_witness: "result_status_of (demo_summary False) 1 = Skipped"
  by (rule failed_dependency_skips [where a = "demo_action 2 [1]" and d = 1 and j = 0, OF demo_execution])
     (simp_all add: demo_actions_def demo_action_def demo_summary_def demo_result_def)

theorem apply_fail_fast_witness:
  "result_status_of (demo_summary False) 1 = Skipped \<and>
   (\<exists>called. execute_actions (watched (demo_env False)) demo_actions demo_policy ((), []) = Inr (demo_summary False, (), called) \<and>
      result_action_id (summary_actions (demo_summary False) ! 1) \<notin> action_id ` set called)"
  by (rule apply_fail_fast [where i = 0, OF demo_execution])
     (simp_all add: demo_policy_def demo_summary_def demo_result_def failing_def)

theorem cancelled_suffix_skipped_witness: "result_status_of (demo_summary True) 1 = Skipped"
proof -
  have "summary_cancelled (demo_summary True)" "length (summary_actions (demo_summary True)) = 2"
    by (simp_all add: demo_summary_def)
  with cancelled_suffix_skipped [OF demo_execution this(1)] show ?thesis by auto
qed

end
