(* ===== verification/Framing.thy ===== *)
theory Framing
  imports Rust_Prelude
begin

text \<open>
  Length-prefixed frames. The journal writes the length of a record in little-endian order and the local
  control channel writes the length of a message in big-endian order; both rely on the same laws of the
  four-byte encoding, which the locale states. Its lemmas say that a frame can be told from what follows
  it, so that a concatenation of frames has one reading.
\<close>

locale length_prefixed =
  fixes put :: "32 word \<Rightarrow> byte list"
    and get :: "byte list \<Rightarrow> 32 word"
  assumes length_put: "length (put w) = 4"
    and get_put: "get (put w) = w"
    and put_get: "length bs = 4 \<Longrightarrow> put (get bs) = bs"
begin

definition frame :: "byte list \<Rightarrow> byte list" where
  "frame b = put (of_nat (length b)) @ b"

lemma unat_header: "n < 2 ^ 32 \<Longrightarrow> unat (get (put (of_nat n))) = n"
  by (simp add: get_put unat_of_nat)

lemma header_unique:
  assumes "length p = 4"
  shows "p = put (of_nat (unat (get p)))"
  using put_get [OF assms] by simp

lemma length_frame: "length (frame b) = 4 + length b"
  by (simp add: frame_def length_put)

lemma frame_cancel:
  assumes "length b < 2 ^ 32" "length c < 2 ^ 32" "frame b @ r = frame c @ r'"
  shows "b = c \<and> r = r'"
proof -
  have "put (of_nat (length b)) = put (of_nat (length c))" "b @ r = c @ r'"
    using assms(3) by (simp_all add: frame_def length_put append_eq_append_conv)
  moreover from this have "length b = length c"
    using unat_header [OF assms(1)] unat_header [OF assms(2)] by metis
  ultimately show ?thesis by simp
qed

lemma frames_unique:
  assumes "\<forall>b\<in>set bs. length b < 2 ^ 32" "\<forall>c\<in>set cs. length c < 2 ^ 32"
    and "concat (map frame bs) = concat (map frame cs)"
  shows "bs = cs"
  using assms
proof (induction bs arbitrary: cs)
  case Nil
  then show ?case by (cases cs) (auto simp: frame_def length_put dest: arg_cong [where f = length])
next
  case (Cons b bs)
  then obtain c ds where cs: "cs = c # ds"
    by (cases cs) (auto simp: frame_def length_put dest: arg_cong [where f = length])
  have "b = c \<and> concat (map frame bs) = concat (map frame ds)"
    using Cons.prems by (intro frame_cancel) (simp_all add: cs)
  with Cons cs show ?case by simp
qed

end

interpretation le: length_prefixed u32_to_le_bytes u32_from_le_bytes
  by unfold_locales (simp_all add: u32_to_from_le_bytes)

interpretation be: length_prefixed u32_to_be_bytes u32_from_be_bytes
  by unfold_locales (simp_all add: u32_to_from_be_bytes)

end
