(* ===== verification/Ipc_Message.thy ===== *)
theory Ipc_Message
  imports Domain_Serde Framing
begin

text \<open>
  The envelope of the local broker between the standard-user client and the elevated worker:
  \<open>baselineops-windows/src/ipc/mod.rs\<close>, \<open>ipc/binding.rs\<close>, \<open>ipc/message.rs\<close>, \<open>ipc/frame.rs\<close> and the
  classification of pipe reads in \<open>ipc/windows/transfer.rs\<close>. The JSON serializer and parser of a message
  are the parameters \<open>ser\<close> and \<open>de\<close>.
\<close>

section \<open>Platform errors\<close>

text \<open>\<open>PlatformError\<close>. Paths and the causes of operating-system failures are kept as text.\<close>

datatype platform_error =
    UnsupportedPlatform
  | UnsupportedHost string
  | UntrustedPath string string
  | InputTooLarge string u64
  | InvalidUtf8Input string
  | ProcessRejected string
  | ProcessTimeout u64
  | OutputTooLarge string usize
  | TrustFailure string
  | ArchiveRejected string
  | ProtocolRejected string
  | ReplayDetected
  | ElevationCancelled
  | ElevationTimeout u64
  | PlatformIo string

section \<open>Envelope fields\<close>

definition max_frame_bytes :: usize where "max_frame_bytes = 1024 * 1024"
definition protocol_version :: nat where "protocol_version = 2"
definition max_nonce_bytes :: usize where "max_nonce_bytes = 96"
definition max_kind_bytes :: usize where "max_kind_bytes = 64"
definition max_session_bytes :: usize where "max_session_bytes = 64"
definition max_plan_id_bytes :: usize where "max_plan_id_bytes = 128"
definition sha256_hex_bytes :: usize where "sha256_hex_bytes = 64"

definition lower_hex :: "char \<Rightarrow> bool" where
  "lower_hex c \<longleftrightarrow> is_ascii_hexdigit c \<and> \<not> is_ascii_uppercase c"

definition valid_nonce :: "string \<Rightarrow> bool" where
  "valid_nonce s \<longleftrightarrow> s \<noteq> [] \<and> length s \<le> max_nonce_bytes \<and> length s mod 2 = 0 \<and> list_all lower_hex s"

definition valid_hex :: "string \<Rightarrow> usize \<Rightarrow> bool" where
  "valid_hex s n \<longleftrightarrow> length s = n \<and> list_all lower_hex s"

section \<open>Bindings\<close>

record broker_binding =
  bound_session_id :: string
  bound_plan_id :: string
  bound_plan_digest :: string
  reply_to :: "string option"

definition validate_session_id :: "string \<Rightarrow> platform_error + unit" where
  "validate_session_id s =
     (if s = [] \<or> length s > max_session_bytes \<or> \<not> list_all lower_hex s
      then Inl (ProtocolRejected ''session identifier is invalid'') else Inr ())"

definition validate_plan_id :: "string \<Rightarrow> platform_error + unit" where
  "validate_plan_id s =
     (if s = [] \<or> length s > max_plan_id_bytes \<or>
         \<not> list_all (\<lambda>c. is_ascii_alphanumeric c \<or> c = CHR ''-'' \<or> c = CHR ''_'') s
      then Inl (ProtocolRejected ''plan identifier is invalid'') else Inr ())"

definition binding_validate :: "broker_binding \<Rightarrow> platform_error + unit" where
  "binding_validate b =
     and_then (validate_session_id (bound_session_id b)) (\<lambda>_.
     and_then (validate_plan_id (bound_plan_id b)) (\<lambda>_.
       if \<not> valid_hex (bound_plan_digest b) sha256_hex_bytes
       then Inl (ProtocolRejected ''plan digest is not SHA-256 hex'')
       else if (case reply_to b of None \<Rightarrow> False | Some nonce \<Rightarrow> \<not> valid_nonce nonce)
       then Inl (ProtocolRejected ''reply nonce is invalid'')
       else Inr ()))"

definition matches_active_exchange :: "broker_binding \<Rightarrow> string \<Rightarrow> string \<Rightarrow> string \<Rightarrow> bool" where
  "matches_active_exchange b sid pid pd \<longleftrightarrow>
     bound_session_id b = sid \<and> bound_plan_id b = pid \<and> bound_plan_digest b = pd"

definition require_reply_to ::
    "broker_binding \<Rightarrow> string \<Rightarrow> string \<Rightarrow> string \<Rightarrow> string \<Rightarrow> platform_error + unit" where
  "require_reply_to b sid pid pd request_nonce =
     and_then (binding_validate b) (\<lambda>_.
       if \<not> matches_active_exchange b sid pid pd \<or> reply_to b \<noteq> Some request_nonce
       then Inl (ProtocolRejected ''reply binding does not match the active exchange'') else Inr ())"

definition require_request :: "broker_binding \<Rightarrow> string \<Rightarrow> string \<Rightarrow> string \<Rightarrow> platform_error + unit" where
  "require_request b sid pid pd =
     and_then (binding_validate b) (\<lambda>_.
       if \<not> matches_active_exchange b sid pid pd \<or> reply_to b \<noteq> None
       then Inl (ProtocolRejected ''request binding does not match the active exchange'') else Inr ())"

section \<open>Messages\<close>

record broker_message =
  message_version :: nat
  message_binding :: broker_binding
  nonce :: string
  message_kind :: string
  message_payload :: jvalue

definition is_object :: "jvalue \<Rightarrow> bool" where
  "is_object v \<longleftrightarrow> (case v of JObject _ \<Rightarrow> True | _ \<Rightarrow> False)"

definition validate_version :: "nat \<Rightarrow> platform_error + unit" where
  "validate_version v =
     (if v = protocol_version then Inr () else Inl (ProtocolRejected ''unsupported protocol version''))"

definition validate_nonce :: "string \<Rightarrow> platform_error + unit" where
  "validate_nonce s =
     (if valid_nonce s then Inr () else Inl (ProtocolRejected ''nonce is not bounded hexadecimal''))"

definition validate_kind :: "string \<Rightarrow> platform_error + unit" where
  "validate_kind s =
     (if s \<noteq> [] \<and> length s \<le> max_kind_bytes \<and>
         list_all (\<lambda>c. is_ascii_alphanumeric c \<or> c = CHR ''.'' \<or> c = CHR ''_'' \<or> c = CHR ''-'') s
      then Inr () else Inl (ProtocolRejected ''operation kind is invalid''))"

definition message_validate :: "broker_message \<Rightarrow> platform_error + unit" where
  "message_validate m =
     and_then (validate_version (message_version m)) (\<lambda>_.
     and_then (validate_nonce (nonce m)) (\<lambda>_.
     and_then (validate_kind (message_kind m)) (\<lambda>_.
       if \<not> is_object (message_payload m) then Inl (ProtocolRejected ''payload must be a JSON object'')
       else binding_validate (message_binding m))))"

section \<open>Frames\<close>

definition frame_encode :: "('a \<Rightarrow> string + byte list) \<Rightarrow> 'a \<Rightarrow> platform_error + byte list" where
  "frame_encode ser value =
     and_then (map_err (\<lambda>e. ProtocolRejected (''JSON encode failed: '' @ e)) (ser value)) (\<lambda>body.
       if length body > max_frame_bytes then Inl (ProtocolRejected ''frame exceeds maximum size'')
       else
         and_then (ok_or (ProtocolRejected ''frame length overflow'') (u32_try_from (length body))) (\<lambda>len.
           Inr (u32_to_be_bytes len @ body)))"

definition bounded_body :: "byte list \<Rightarrow> platform_error + byte list" where
  "bounded_body frame =
     and_then (if length frame < 4 then Inl (ProtocolRejected ''frame is missing a length prefix'')
               else Inr (take 4 frame)) (\<lambda>prefix.
       let expected = unat (u32_from_be_bytes prefix) in
       if expected > max_frame_bytes \<or> length frame \<noteq> expected + 4
       then Inl (ProtocolRejected ''frame length does not match bytes'')
       else Inr (drop 4 frame))"

definition frame_decode :: "(byte list \<Rightarrow> string + 'a) \<Rightarrow> byte list \<Rightarrow> platform_error + 'a" where
  "frame_decode de frame =
     and_then (bounded_body frame) (\<lambda>body.
       map_err (\<lambda>e. ProtocolRejected (''JSON decode failed: '' @ e)) (de body))"

section \<open>Pipe reads\<close>

datatype read_stage = ReadPrefix | ReadBody

datatype read_outcome = ReadComplete bool | CleanTimeout

record transfer_status =
  transfer_succeeded :: bool
  transfer_error :: "32 word"
  transfer_actual :: usize
  timed_out :: bool

definition error_more_data :: "32 word" where "error_more_data = 234"
definition error_operation_aborted :: "32 word" where "error_operation_aborted = 995"

definition native_error :: "string \<Rightarrow> 32 word \<Rightarrow> platform_error" where
  "native_error operation code = PlatformIo (operation @ '': Win32 error '' @ nat_text (unat code))"

definition classify_timeout :: "transfer_status \<Rightarrow> read_stage \<Rightarrow> platform_error + read_outcome" where
  "classify_timeout status stage =
     (if stage = ReadPrefix \<and> transfer_actual status = 0 \<and> \<not> transfer_succeeded status \<and>
         transfer_error status = error_operation_aborted
      then Inr CleanTimeout
      else Inl (ProtocolRejected ''pipe receive timed out after a frame transfer may have begun''))"

definition classify_read :: "transfer_status \<Rightarrow> usize \<Rightarrow> read_stage \<Rightarrow> platform_error + read_outcome" where
  "classify_read status expected stage =
     (if timed_out status then classify_timeout status stage
      else if transfer_actual status \<noteq> expected
      then Inl (if transfer_succeeded status then ProtocolRejected ''pipe message is shorter than its frame''
                else native_error ''ReadFile'' (transfer_error status))
      else if transfer_succeeded status then Inr (ReadComplete False)
      else if transfer_error status = error_more_data then Inr (ReadComplete True)
      else Inl (native_error ''ReadFile'' (transfer_error status)))"

section \<open>Frame properties\<close>

lemma bounded_body_Inr_iff:
  "bounded_body f = Inr body \<longleftrightarrow> f = be.frame body \<and> length body \<le> max_frame_bytes"
proof
  assume ok: "bounded_body f = Inr body"
  then have len: "4 \<le> length f" and n: "unat (u32_from_be_bytes (take 4 f)) \<le> max_frame_bytes"
    "length f = unat (u32_from_be_bytes (take 4 f)) + 4" "body = drop 4 f"
    by (auto simp: bounded_body_def Let_def split: if_splits)
  have "take 4 f = u32_to_be_bytes (of_nat (unat (u32_from_be_bytes (take 4 f))))"
    using len by (intro be.header_unique) simp
  also have "unat (u32_from_be_bytes (take 4 f)) = length body" using n by simp
  finally have "take 4 f @ drop 4 f = be.frame body" using n(3) by (simp add: be.frame_def)
  then show "f = be.frame body \<and> length body \<le> max_frame_bytes" using n by simp
next
  assume f: "f = be.frame body \<and> length body \<le> max_frame_bytes"
  then have small: "length body < 2 ^ 32" by (simp add: max_frame_bytes_def)
  have "length f = 4 + length body" "take 4 f = u32_to_be_bytes (of_nat (length body))" "drop 4 f = body"
    using f by (simp_all add: be.length_frame) (simp_all add: be.frame_def)
  with f be.unat_header [OF small] show "bounded_body f = Inr body"
    by (simp add: bounded_body_def)
qed

lemma frame_encode_Inr_iff:
  "frame_encode ser v = Inr f \<longleftrightarrow> (\<exists>body. ser v = Inr body \<and> length body \<le> max_frame_bytes \<and> f = be.frame body)"
proof -
  have "length body \<le> max_frame_bytes \<Longrightarrow> u32_try_from (length body) = Some (of_nat (length body))" for body :: "byte list"
    by (simp add: u32_try_from_def max_frame_bytes_def)
  then show ?thesis
    by (cases "ser v") (auto simp: frame_encode_def be.frame_def split: if_splits)
qed

text \<open>
  C37: framing round trip. When the JSON parser reads what the serializer wrote, every value that can be
  encoded decodes to itself, and any frame that decodes is the one frame of its body: a length prefix that
  agrees with the bytes, no trailing byte, at most one megabyte.
\<close>

theorem frame_round_trip:
  assumes "ser v = Inr body" "de body = Inr v" "frame_encode ser v = Inr f"
  shows "frame_decode de f = Inr v \<and> (bounded_body g = Inr body) = (g = f)"
proof -
  have f: "f = be.frame body" "length body \<le> max_frame_bytes"
    using assms by (auto simp: frame_encode_Inr_iff)
  then have "bounded_body f = Inr body" by (simp add: bounded_body_Inr_iff)
  then have "frame_decode de f = Inr v" using assms(2) by (simp add: frame_decode_def)
  then show ?thesis using f by (auto simp: bounded_body_Inr_iff)
qed

theorem frame_round_trip_witness:
  "frame_decode (\<lambda>b. if b = [123, 125] then Inr JNull else Inl ''syntax'') [0, 0, 0, 2, 123, 125] = Inr JNull"
  using frame_round_trip [of "\<lambda>_. Inr [123, 125]" JNull "[123, 125]"
      "\<lambda>b. if b = [123, 125] then Inr JNull else Inl ''syntax''" "[0, 0, 0, 2, 123, 125]" "[]"]
  by (simp add: frame_encode_Inr_iff max_frame_bytes_def be.frame_def u32_to_be_bytes_def u32_to_le_bytes_def)

end
