(* ===== verification/Ipc_Replay.thy ===== *)
theory Ipc_Replay
  imports Ipc_Message
begin

text \<open>
  The replay detector of \<open>baselineops-windows/src/ipc/replay.rs\<close>: a map from accepted nonces to the time of
  their acceptance, with a queue that keeps their order. An abstract window, the list of the live
  acceptances from the oldest to the newest, says what the detector promises; the map and the queue
  implement it.
\<close>

section \<open>The cache\<close>

record replay_nonce_cache =
  ttl :: duration
  capacity :: usize
  seen :: "string \<rightharpoonup> instant"
  nonce_order :: "string list"

definition replay_new :: "duration \<Rightarrow> usize \<Rightarrow> platform_error + replay_nonce_cache" where
  "replay_new t c =
     (if t = 0 \<or> c = 0 then Inl (ProtocolRejected ''replay cache requires positive bounds'')
      else Inr \<lparr>ttl = t, capacity = c, seen = Map.empty, nonce_order = []\<rparr>)"

text \<open>
  The loop of \<open>evict_capacity\<close>. It would not end on an empty queue with capacity zero, and its model is a
  partial function, whose value \<open>None\<close> means that the loop does not end.
\<close>

partial_function (option) evict_capacity :: "replay_nonce_cache \<Rightarrow> replay_nonce_cache option" where
  "evict_capacity c =
     (if length (nonce_order c) \<ge> capacity c
      then evict_capacity
        (case nonce_order c of
           oldest # rest \<Rightarrow> c\<lparr>nonce_order := rest, seen := (seen c)(oldest := None)\<rparr>
         | [] \<Rightarrow> c)
      else Some c)"

fun evict_expired_loop ::
    "duration \<Rightarrow> instant \<Rightarrow> (string \<rightharpoonup> instant) \<Rightarrow> string list \<Rightarrow> (string \<rightharpoonup> instant) \<times> string list" where
  "evict_expired_loop t now s [] = (s, [])"
| "evict_expired_loop t now s (n # rest) =
     (case s n of
        None \<Rightarrow> evict_expired_loop t now s rest
      | Some accepted_at \<Rightarrow>
          if now - accepted_at < t then (s, n # rest)
          else evict_expired_loop t now (s(n := None)) rest)"

definition evict_expired :: "replay_nonce_cache \<Rightarrow> instant \<Rightarrow> replay_nonce_cache" where
  "evict_expired c now =
     (let (s, q) = evict_expired_loop (ttl c) now (seen c) (nonce_order c) in
      c\<lparr>seen := s, nonce_order := q\<rparr>)"

definition replay_accept ::
    "replay_nonce_cache \<Rightarrow> string \<Rightarrow> instant \<Rightarrow> ((platform_error + unit) \<times> replay_nonce_cache) option" where
  "replay_accept c n now =
     (if \<not> valid_nonce n then Some (Inl (ProtocolRejected ''nonce is not bounded hexadecimal''), c)
      else
        let c = evict_expired c now in
        if seen c n \<noteq> None then Some (Inl ReplayDetected, c)
        else Option.bind (evict_capacity c) (\<lambda>c.
          Some (Inr (), c\<lparr>seen := (seen c)(n \<mapsto> now), nonce_order := nonce_order c @ [n]\<rparr>)))"

section \<open>The abstract window\<close>

text \<open>The acceptances that the cache remembers, oldest first.\<close>

definition entries :: "replay_nonce_cache \<Rightarrow> (string \<times> instant) list" where
  "entries c = map (\<lambda>n. (n, the (seen c n))) (nonce_order c)"

definition live :: "duration \<Rightarrow> instant \<Rightarrow> string \<times> instant \<Rightarrow> bool" where
  "live t now e \<longleftrightarrow> now - snd e < t"

definition window_accept ::
    "duration \<Rightarrow> usize \<Rightarrow> (string \<times> instant) list \<Rightarrow> string \<Rightarrow> instant \<Rightarrow>
     (platform_error + unit) \<times> (string \<times> instant) list" where
  "window_accept t cap w n now =
     (if \<not> valid_nonce n then (Inl (ProtocolRejected ''nonce is not bounded hexadecimal''), w)
      else
        let w = filter (live t now) w in
        if n \<in> fst ` set w then (Inl ReplayDetected, w)
        else (Inr (), drop (Suc (length w) - cap) w @ [(n, now)]))"

text \<open>
  The invariant: the queue and the map hold the same nonces, each once, no more than the capacity, in the
  order of their times, none later than \<open>now\<close>.
\<close>

definition cache_inv :: "instant \<Rightarrow> replay_nonce_cache \<Rightarrow> bool" where
  "cache_inv now c \<longleftrightarrow> 0 < ttl c \<and> 0 < capacity c \<and> length (nonce_order c) \<le> capacity c \<and>
     distinct (nonce_order c) \<and> dom (seen c) = set (nonce_order c) \<and>
     sorted (map snd (entries c)) \<and> (\<forall>e\<in>set (entries c). snd e \<le> now)"

lemma evict_expired_loop_window:
  assumes "distinct q" "dom s = set q" "sorted (map (\<lambda>n. the (s n)) q)"
  shows "snd (evict_expired_loop t now s q) = filter (\<lambda>n. now - the (s n) < t) q \<and>
    fst (evict_expired_loop t now s q) = s |` set (filter (\<lambda>n. now - the (s n) < t) q)"
  using assms
proof (induction q arbitrary: s)
  case (Cons n q)
  then have "n \<in> dom s" by simp
  then obtain a where a: "s n = Some a" by blast
  show ?case
  proof (cases "now - a < t")
    case True
    then have "now - the (s m) < t" if "m \<in> set q" for m
      using Cons.prems(3) a that by fastforce
    then have "filter (\<lambda>n. now - the (s n) < t) (n # q) = n # q" using a True by simp
    moreover have "s |` set (n # q) = s"
      using Cons.prems(2) by (auto simp: restrict_map_def fun_eq_iff domIff)
    ultimately show ?thesis using a True by (simp del: filter.simps)
  next
    case False
    define s' where "s' = s(n := None)"
    have same: "map (\<lambda>m. the (s' m)) q = map (\<lambda>m. the (s m)) q"
      "filter (\<lambda>m. now - the (s' m) < t) q = filter (\<lambda>m. now - the (s m) < t) q"
      using Cons.prems(1) by (auto simp: s'_def intro!: filter_cong)
    have "dom s' = set q" using Cons.prems(1,2) by (auto simp: s'_def)
    then have "snd (evict_expired_loop t now s' q) = filter (\<lambda>n. now - the (s n) < t) q \<and>
        fst (evict_expired_loop t now s' q) = s' |` set (filter (\<lambda>n. now - the (s n) < t) q)"
      using Cons.IH [of s'] Cons.prems same by simp
    moreover have "s' |` set (filter (\<lambda>n. now - the (s n) < t) q) = s |` set (filter (\<lambda>n. now - the (s n) < t) q)"
      using Cons.prems(1) by (auto simp: s'_def restrict_map_def)
    ultimately show ?thesis using a False by (simp add: s'_def)
  qed
qed (simp add: restrict_map_def)

lemma evict_expired_simps [simp]:
  "ttl (evict_expired c now) = ttl c" "capacity (evict_expired c now) = capacity c"
  by (simp_all add: evict_expired_def case_prod_beta)

lemma cache_inv_loop:
  assumes "cache_inv t0 c"
  shows "nonce_order (evict_expired c now) = filter (\<lambda>n. now - the (seen c n) < ttl c) (nonce_order c)"
    "seen (evict_expired c now) = seen c |` set (nonce_order (evict_expired c now))"
  using evict_expired_loop_window [of "nonce_order c" "seen c" "ttl c" now] assms
  by (simp_all add: evict_expired_def case_prod_beta cache_inv_def entries_def comp_def)

lemma entries_evict_expired:
  assumes "cache_inv t0 c"
  shows "entries (evict_expired c now) = filter (live (ttl c) now) (entries c)"
proof -
  let ?q = "filter (\<lambda>n. now - the (seen c n) < ttl c) (nonce_order c)"
  have "entries (evict_expired c now) = map (\<lambda>n. (n, the (seen c n))) ?q"
    unfolding entries_def cache_inv_loop(1) [OF assms]
    by (rule map_cong) (simp_all add: cache_inv_loop [OF assms] restrict_map_def)
  then show ?thesis
    by (simp add: entries_def filter_map comp_def live_def)
qed

lemma fst_entries [simp]: "map fst (entries c) = nonce_order c"
  by (simp add: entries_def comp_def)

lemma cache_inv_evict_expired:
  assumes "cache_inv t0 c" "t0 \<le> now"
  shows "cache_inv now (evict_expired c now)"
proof -
  let ?e = "evict_expired c now"
  have q: "nonce_order ?e = filter (\<lambda>n. now - the (seen c n) < ttl c) (nonce_order c)"
    by (rule cache_inv_loop(1) [OF assms(1)])
  have "length (nonce_order ?e) \<le> capacity c" "distinct (nonce_order ?e)"
    using assms(1) unfolding q cache_inv_def
    by (auto intro: le_trans [OF length_filter_le])
  moreover have "dom (seen ?e) = set (nonce_order ?e)"
    using assms(1) unfolding cache_inv_loop(2) [OF assms(1)] by (auto simp: q cache_inv_def)
  moreover have "sorted (map snd (entries ?e))" "\<forall>e\<in>set (entries ?e). snd e \<le> now"
    using assms unfolding entries_evict_expired [OF assms(1)] cache_inv_def
    by (auto simp: sorted_filter)
  ultimately show ?thesis
    using assms(1) by (simp add: cache_inv_def)
qed

lemma evict_capacity_inv:
  assumes "cache_inv now c"
  shows "\<exists>c'. evict_capacity c = Some c' \<and> entries c' = drop (Suc (length (entries c)) - capacity c) (entries c) \<and>
    cache_inv now c' \<and> length (nonce_order c') < capacity c \<and> ttl c' = ttl c \<and> capacity c' = capacity c \<and>
    set (nonce_order c') \<subseteq> set (nonce_order c)"
proof (cases "length (nonce_order c) < capacity c")
  case True
  then show ?thesis
    using assms by (simp add: evict_capacity.simps [of c] entries_def)
next
  case False
  then have len: "length (nonce_order c) = capacity c" "0 < capacity c"
    using assms by (simp_all add: cache_inv_def)
  then obtain n q where q: "nonce_order c = n # q" by (cases "nonce_order c") auto
  define c' where "c' = c\<lparr>nonce_order := q, seen := (seen c)(n := None)\<rparr>"
  have "nonce_order c' = q" "capacity c' = capacity c" by (simp_all add: c'_def)
  then have "evict_capacity c' = Some c'"
    using len q by (simp add: evict_capacity.simps [of c'])
  then have ev: "evict_capacity c = Some c'"
    using len q by (simp add: evict_capacity.simps [of c] c'_def)
  have "n \<notin> set q" using assms q by (simp add: cache_inv_def)
  then have entries: "entries c = (n, the (seen c n)) # entries c'"
    by (auto simp: entries_def q c'_def)
  have "cache_inv now c'"
    using assms q \<open>n \<notin> set q\<close> entries by (auto simp: cache_inv_def c'_def)
  then show ?thesis
    using ev entries len q by (auto simp: c'_def entries_def)
qed

lemma cache_inv_insert:
  assumes "cache_inv now c" "length (nonce_order c) < capacity c" "n \<notin> set (nonce_order c)"
  defines "c' \<equiv> c\<lparr>seen := (seen c)(n \<mapsto> now), nonce_order := nonce_order c @ [n]\<rparr>"
  shows "entries c' = entries c @ [(n, now)]" "cache_inv now c'"
proof -
  show entries: "entries c' = entries c @ [(n, now)]"
    using assms(3) by (auto simp: entries_def c'_def)
  show "cache_inv now c'"
    using assms(1-3) unfolding cache_inv_def entries
    by (auto simp: c'_def sorted_append)
qed

text \<open>The cache implements the window, and always returns.\<close>

lemma replay_accept_window:
  assumes inv: "cache_inv t0 c" "t0 \<le> now"
  shows "\<exists>c'. replay_accept c n now = Some (fst (window_accept (ttl c) (capacity c) (entries c) n now), c') \<and>
    entries c' = snd (window_accept (ttl c) (capacity c) (entries c) n now) \<and>
    cache_inv now c' \<and> ttl c' = ttl c \<and> capacity c' = capacity c"
proof (cases "valid_nonce n")
  case False
  have "cache_inv now c" using inv by (auto simp: cache_inv_def)
  with False show ?thesis by (simp add: replay_accept_def window_accept_def)
next
  case True
  define e where "e = evict_expired c now"
  have e: "cache_inv now e" "entries e = filter (live (ttl c) now) (entries c)" "ttl e = ttl c"
    "capacity e = capacity c"
    using cache_inv_evict_expired [OF inv] entries_evict_expired [OF inv(1), of now] by (simp_all add: e_def)
  have mem: "seen e n \<noteq> None \<longleftrightarrow> n \<in> fst ` set (entries e)"
  proof -
    have "n \<in> dom (seen e) \<longleftrightarrow> n \<in> set (map fst (entries e))"
      using e(1) unfolding fst_entries cache_inv_def by simp
    then show ?thesis by (simp add: domIff del: fst_entries)
  qed
  show ?thesis
  proof (cases "n \<in> fst ` set (entries e)")
    case True
    then have "replay_accept c n now = Some (Inl ReplayDetected, e)"
      using mem \<open>valid_nonce n\<close> by (simp add: replay_accept_def Let_def e_def)
    then show ?thesis using True \<open>valid_nonce n\<close> e by (simp add: window_accept_def Let_def)
  next
    case False
    obtain d where d: "evict_capacity e = Some d"
      "entries d = drop (Suc (length (entries e)) - capacity e) (entries e)" "cache_inv now d"
      "length (nonce_order d) < capacity e" "ttl d = ttl e" "capacity d = capacity e"
      "set (nonce_order d) \<subseteq> set (nonce_order e)"
      using evict_capacity_inv [OF e(1)] by blast
    have "n \<notin> set (nonce_order d)"
      using False d(7) fst_entries [of e] by (metis list.set_map subsetD)
    note ins = cache_inv_insert [OF d(3) d(4) [folded d(6)] this]
    have "replay_accept c n now = Some (Inr (), d\<lparr>seen := (seen d)(n \<mapsto> now), nonce_order := nonce_order d @ [n]\<rparr>)"
      using mem False \<open>valid_nonce n\<close> d(1) by (simp add: replay_accept_def Let_def e_def)
    then show ?thesis
      using False \<open>valid_nonce n\<close> ins d(2,5,6) e by (simp add: window_accept_def Let_def)
  qed
qed

section \<open>What the detector promises\<close>

text \<open>
  The caches that can be reached, with the time of the last call: a new cache and any calls at times that do
  not go back.
\<close>

inductive replay_reach :: "instant \<Rightarrow> replay_nonce_cache \<Rightarrow> bool" where
  NewCache: "replay_new t cap = Inr c \<Longrightarrow> replay_reach now c"
| AcceptCall: "replay_reach t0 c \<Longrightarrow> t0 \<le> now \<Longrightarrow> replay_accept c n now = Some (x, c') \<Longrightarrow> replay_reach now c'"

lemma replay_reach_inv: "replay_reach now c \<Longrightarrow> cache_inv now c"
proof (induction rule: replay_reach.induct)
  case (NewCache t cap c now)
  then show ?case by (auto simp: replay_new_def cache_inv_def entries_def split: if_splits)
next
  case (AcceptCall t0 c now n x c')
  then show ?case using replay_accept_window [OF AcceptCall.IH AcceptCall.hyps(2), of n] by auto
qed

text \<open>
  C28: the replay detector implements its window. On every reachable cache a call at a later time returns,
  with the verdict of the abstract window, and leaves a cache that stands for the window after the call. The
  eviction loop, which has no bound of its own, always ends.
\<close>

theorem replay_refines_window:
  assumes "replay_reach t0 c" "t0 \<le> now"
  shows "\<exists>c'. replay_accept c n now = Some (fst (window_accept (ttl c) (capacity c) (entries c) n now), c') \<and>
    entries c' = snd (window_accept (ttl c) (capacity c) (entries c) n now) \<and> replay_reach now c'"
  using replay_accept_window [OF replay_reach_inv [OF assms(1)] assms(2), of n] AcceptCall [OF assms]
  by metis

definition demo_cache :: replay_nonce_cache where
  "demo_cache = \<lparr>ttl = 10, capacity = 2, seen = Map.empty, nonce_order = []\<rparr>"

lemma demo_cache_reach: "replay_reach 3 demo_cache"
  by (rule NewCache [of 10 2]) (simp add: replay_new_def demo_cache_def)

theorem replay_refines_window_witness:
  "\<exists>c'. replay_accept demo_cache ''a1'' 5 =
     Some (fst (window_accept (ttl demo_cache) (capacity demo_cache) (entries demo_cache) ''a1'' 5), c') \<and>
   entries c' = snd (window_accept (ttl demo_cache) (capacity demo_cache) (entries demo_cache) ''a1'' 5) \<and>
   replay_reach 5 c'"
  by (rule replay_refines_window [OF demo_cache_reach]) simp

text \<open>A run of calls from one cache, as the list of nonces and times.\<close>

fun replay_run :: "replay_nonce_cache \<Rightarrow> (string \<times> instant) list \<Rightarrow> replay_nonce_cache option" where
  "replay_run c [] = Some c"
| "replay_run c ((n, now) # calls) = Option.bind (replay_accept c n now) (\<lambda>(x, c'). replay_run c' calls)"

text \<open>The cache remembers the acceptance of \<open>n\<close> at \<open>t\<close>, with at most \<open>k\<close> newer ones.\<close>

definition remembers :: "replay_nonce_cache \<Rightarrow> string \<Rightarrow> instant \<Rightarrow> nat \<Rightarrow> bool" where
  "remembers c n t k \<longleftrightarrow> (\<exists>pre post. entries c = pre @ (n, t) # post \<and> length post \<le> k)"

lemma window_remembers:
  assumes "w = pre @ (n, t) # post" "length post \<le> k" "now - t < d" "Suc k < cap"
  shows "\<exists>pre' post'. snd (window_accept d cap w m now) = pre' @ (n, t) # post' \<and> length post' \<le> Suc k"
proof -
  define p q where "p = filter (live d now) pre" and "q = filter (live d now) post"
  have f: "filter (live d now) w = p @ (n, t) # q" using assms(1,3) by (simp add: p_def q_def live_def)
  have q: "length q \<le> k" using assms(2) by (auto simp: q_def intro: le_trans [OF length_filter_le])
  have new: "drop (Suc (length (p @ (n, t) # q)) - cap) (p @ (n, t) # q) @ [(m, now)] =
      drop (Suc (length (p @ (n, t) # q)) - cap) p @ (n, t) # (q @ [(m, now)])"
    using q assms(4) by simp
  consider "snd (window_accept d cap w m now) = w" | "snd (window_accept d cap w m now) = p @ (n, t) # q"
    | "snd (window_accept d cap w m now) = drop (Suc (length (p @ (n, t) # q)) - cap) p @ (n, t) # (q @ [(m, now)])"
    unfolding window_accept_def Let_def f new
    by (cases "valid_nonce m"; cases "m \<in> fst ` set (p @ (n, t) # q)") simp_all
  then show ?thesis
  proof cases
    case 1
    then show ?thesis using assms(1,2) le_SucI by blast
  next
    case 2
    then show ?thesis using q le_SucI by blast
  next
    case 3
    moreover have "length (q @ [(m, now)]) \<le> Suc k" using q by simp
    ultimately show ?thesis by blast
  qed
qed

lemma replay_run_remembers:
  assumes "cache_inv t0 c" "remembers c n t k" "sorted (t0 # map snd calls)"
    and "\<forall>now\<in>snd ` set calls. now - t < ttl c" "k + length calls < capacity c"
  shows "\<exists>c'. replay_run c calls = Some c' \<and> remembers c' n t (k + length calls) \<and> ttl c' = ttl c \<and>
    cache_inv (last (t0 # map snd calls)) c'"
  using assms
proof (induction calls arbitrary: c t0 k)
  case (Cons call calls)
  obtain m now where call: "call = (m, now)" by (cases call)
  obtain c1 where c1: "replay_accept c m now = Some (fst (window_accept (ttl c) (capacity c) (entries c) m now), c1)"
    "entries c1 = snd (window_accept (ttl c) (capacity c) (entries c) m now)" "cache_inv now c1" "ttl c1 = ttl c"
    "capacity c1 = capacity c"
    using replay_accept_window [OF Cons.prems(1), of now m] Cons.prems(3) call by auto
  have "remembers c1 n t (Suc k)"
    using Cons.prems(2,4,5) call c1(2) window_remembers [of "entries c" _ n t _ k now "ttl c" "capacity c" m]
    by (auto simp: remembers_def)
  then have "\<exists>c'. replay_run c1 calls = Some c' \<and> remembers c' n t (Suc k + length calls) \<and> ttl c' = ttl c1 \<and>
      cache_inv (last (now # map snd calls)) c'"
    using Cons.prems c1 call by (intro Cons.IH) auto
  then show ?case using c1 call by auto
qed simp

text \<open>
  No replay inside the window. Once a nonce was accepted, presenting it again less than the expiry
  window later is rejected as a replay, whatever other nonces were presented in between, as long as they are
  fewer than the capacity.
\<close>

theorem replay_rejected_in_window:
  assumes "replay_reach t0 c" "t0 \<le> t" "replay_accept c n t = Some (Inr (), c1)"
    and "sorted (t # map snd calls @ [now])" "length calls < capacity c" "now - t < ttl c"
  shows "\<exists>c2 c3. replay_run c1 calls = Some c2 \<and> replay_accept c2 n now = Some (Inl ReplayDetected, c3)"
proof -
  note w = replay_accept_window [OF replay_reach_inv [OF assms(1)] assms(2), of n]
  then have c1: "cache_inv t c1" "ttl c1 = ttl c" "capacity c1 = capacity c" "valid_nonce n"
    "entries c1 = drop (Suc (length (filter (live (ttl c) t) (entries c))) - capacity c)
       (filter (live (ttl c) t) (entries c)) @ [(n, t)]"
    using assms(3) by (auto simp: window_accept_def Let_def split: if_splits)
  have "remembers c1 n t 0" unfolding remembers_def c1(5) by blast
  moreover have "\<forall>x\<in>snd ` set calls. x - t < ttl c1"
  proof
    fix x
    assume "x \<in> snd ` set calls"
    then have "x \<le> now" using assms(4) by (auto simp: sorted_append)
    then show "x - t < ttl c1" using assms(6) c1(2) by linarith
  qed
  ultimately obtain c2 where c2: "replay_run c1 calls = Some c2" "remembers c2 n t (length calls)"
    "ttl c2 = ttl c1" "cache_inv (last (t # map snd calls)) c2"
    using replay_run_remembers [OF c1(1), of n t 0 calls] assms(4,5) c1(3) by (auto simp: sorted_append)
  have "(n, t) \<in> set (filter (live (ttl c2) now) (entries c2))"
    using c2(2,3) assms(6) c1(2) by (auto simp: remembers_def live_def)
  then have "n \<in> fst ` set (filter (live (ttl c2) now) (entries c2))" by force
  then have "fst (window_accept (ttl c2) (capacity c2) (entries c2) n now) = Inl ReplayDetected"
    using c1(4) by (simp add: window_accept_def Let_def)
  moreover have "last (t # map snd calls) \<le> now"
    using assms(4) by (cases calls rule: rev_cases) (auto simp: sorted_append)
  ultimately show ?thesis
    using c2(1) replay_accept_window [OF c2(4), of now n] by fastforce
qed

theorem replay_rejected_in_window_witness:
  "\<exists>c2 c3. replay_run (demo_cache\<lparr>seen := [''a1'' \<mapsto> 5], nonce_order := [''a1'']\<rparr>) [(''b2'', 6)] = Some c2 \<and>
     replay_accept c2 ''a1'' 7 = Some (Inl ReplayDetected, c3)"
proof -
  have "valid_nonce ''a1''"
    by (simp add: valid_nonce_def max_nonce_bytes_def lower_hex_def ascii_defs less_eq_char_def)
  then have "replay_accept demo_cache ''a1'' 5 =
      Some (Inr (), demo_cache\<lparr>seen := [''a1'' \<mapsto> 5], nonce_order := [''a1'']\<rparr>)"
    by (simp add: replay_accept_def evict_expired_def demo_cache_def evict_capacity.simps)
  from replay_rejected_in_window [OF demo_cache_reach _ this, of "[(''b2'', 6)]" 7] show ?thesis
    by (simp add: demo_cache_def)
qed

end
