(* ===== verification/Ipc_Control.thy ===== *)
theory Ipc_Control
  imports Ipc_Replay
begin

text \<open>
  The messages that follow an approval, \<open>baselineops-windows/src/ipc/control.rs\<close>: cancellation requests to the
  worker, progress and the result from it. An operation whose model returns \<open>None\<close> would not return, because
  of the eviction loop of the replay cache or of the \<open>expect\<close> on the approval nonce; the theory shows that this
  never happens. The decoder of a progress payload is the parameter \<open>dec\<close>.
\<close>

section \<open>Progress\<close>

datatype progress_phase = Preparing | PhaseActionStarted | PhaseActionFinished | CancellationPending

record worker_progress =
  phase :: progress_phase
  progress_action :: "uuid option"

fun phase_text :: "progress_phase \<Rightarrow> string" where
  "phase_text Preparing = ''preparing''"
| "phase_text PhaseActionStarted = ''action_started''"
| "phase_text PhaseActionFinished = ''action_finished''"
| "phase_text CancellationPending = ''cancellation_pending''"

definition progress_json :: "'h ext \<Rightarrow> worker_progress \<Rightarrow> jvalue" where
  "progress_json E p = obj [
     field ''phase'' (JString (phase_text (phase p))),
     field ''action_id'' (case progress_action p of None \<Rightarrow> JNull | Some a \<Rightarrow> juuid E a)]"

definition progress_validate :: "worker_progress \<Rightarrow> platform_error + unit" where
  "progress_validate p =
     (let action_stage = (phase p = PhaseActionStarted \<or> phase p = PhaseActionFinished) in
      if action_stage \<noteq> (progress_action p \<noteq> None)
      then Inl (ProtocolRejected ''progress stage and action identifier disagree'') else Inr ())"

section \<open>The control session\<close>

record approval_control =
  control_binding :: broker_binding
  control_seen :: replay_nonce_cache
  deadline :: instant
  received :: usize
  cancellation_seen :: bool
  terminal_seen :: bool

text \<open>\<open>Duration::from_mins(2)\<close>, in nanoseconds.\<close>

definition two_minutes :: duration where "two_minutes = 120 * 10 ^ 9"

definition approval_control_new ::
    "broker_message \<Rightarrow> instant \<Rightarrow> (platform_error + approval_control) option" where
  "approval_control_new a now =
     (case message_validate a of
        Inl e \<Rightarrow> Some (Inl e)
      | Inr _ \<Rightarrow>
          if message_kind a \<noteq> ''plan.approve''
          then Some (Inl (ProtocolRejected ''control session requires an authenticated approval''))
          else
            let binding = (message_binding a)\<lparr>reply_to := Some (nonce a)\<rparr> in
            case replay_new two_minutes 128 of
              Inl e \<Rightarrow> Some (Inl e)
            | Inr cache \<Rightarrow>
                Option.bind (replay_accept cache (nonce a) now) (\<lambda>(x, cache).
                  Some (and_then x (\<lambda>_. Inr \<lparr>control_binding = binding, control_seen = cache,
                    deadline = now + two_minutes, received = 0, cancellation_seen = False,
                    terminal_seen = False\<rparr>))))"

definition control_message ::
    "approval_control \<Rightarrow> string \<Rightarrow> jvalue \<Rightarrow> string \<Rightarrow> platform_error + broker_message" where
  "control_message c k payload n =
     (let m = \<lparr>message_version = protocol_version, message_binding = control_binding c, nonce = n,
         message_kind = k, message_payload = payload\<rparr> in
      and_then (message_validate m) (\<lambda>_. Inr m))"

definition cancellation :: "approval_control \<Rightarrow> string \<Rightarrow> platform_error + broker_message" where
  "cancellation c n = control_message c ''plan.cancel'' (JObject []) n"

definition progress_message ::
    "'h ext \<Rightarrow> approval_control \<Rightarrow> worker_progress \<Rightarrow> string \<Rightarrow> platform_error + broker_message" where
  "progress_message E c p n =
     and_then (progress_validate p) (\<lambda>_. control_message c ''plan.progress'' (progress_json E p) n)"

definition accept_envelope ::
    "approval_control \<Rightarrow> broker_message \<Rightarrow> instant \<Rightarrow> ((platform_error + unit) \<times> approval_control) option" where
  "accept_envelope c m now =
     (case message_validate m of
        Inl e \<Rightarrow> Some (Inl e, c)
      | Inr _ \<Rightarrow>
          Option.bind (reply_to (control_binding c)) (\<lambda>request_nonce.
            case require_reply_to (message_binding m) (bound_session_id (control_binding c))
                (bound_plan_id (control_binding c)) (bound_plan_digest (control_binding c)) request_nonce of
              Inl e \<Rightarrow> Some (Inl e, c)
            | Inr _ \<Rightarrow>
                if terminal_seen c \<or> now \<ge> deadline c \<or> received c \<ge> 127
                then Some (Inl (ProtocolRejected ''control session expired or exceeded its message quota''), c)
                else
                  Option.bind (replay_accept (control_seen c) (nonce m) now) (\<lambda>(x, cache).
                    let c = c\<lparr>control_seen := cache\<rparr> in
                    Some (case x of
                        Inl e \<Rightarrow> (Inl e, c)
                      | Inr _ \<Rightarrow> (Inr (), c\<lparr>received := received c + 1\<rparr>)))))"

definition accept_cancellation ::
    "approval_control \<Rightarrow> broker_message \<Rightarrow> instant \<Rightarrow> ((platform_error + unit) \<times> approval_control) option" where
  "accept_cancellation c m now =
     Option.bind (accept_envelope c m now) (\<lambda>(x, c).
       Some (case x of
           Inl e \<Rightarrow> (Inl e, c)
         | Inr _ \<Rightarrow>
             if message_kind m \<noteq> ''plan.cancel'' \<or> message_payload m \<noteq> JObject [] \<or> cancellation_seen c
             then (Inl (ProtocolRejected ''worker accepts exactly one empty cancellation request''), c)
             else (Inr (), c\<lparr>cancellation_seen := True\<rparr>)))"

definition accept_worker_message ::
    "(jvalue \<Rightarrow> string + worker_progress) \<Rightarrow> approval_control \<Rightarrow> broker_message \<Rightarrow> instant \<Rightarrow>
     ((platform_error + worker_progress option) \<times> approval_control) option" where
  "accept_worker_message dec c m now =
     Option.bind (accept_envelope c m now) (\<lambda>(x, c).
       Some (case x of
           Inl e \<Rightarrow> (Inl e, c)
         | Inr _ \<Rightarrow>
             if message_kind m = ''plan.progress''
             then (and_then (map_err ProtocolRejected (dec (message_payload m))) (\<lambda>p.
                   and_then (progress_validate p) (\<lambda>_. Inr (Some p))), c)
             else if message_kind m = ''plan.result'' then (Inr None, c\<lparr>terminal_seen := True\<rparr>)
             else (Inl (ProtocolRejected ''expected worker progress or terminal result''), c)))"

section \<open>Sessions\<close>

text \<open>
  A session: the approval opened it at \<open>start\<close>, and messages were presented at times that do not go back. The
  log keeps the messages whose acceptance succeeded.
\<close>

inductive control_run ::
    "(jvalue \<Rightarrow> string + worker_progress) \<Rightarrow> broker_message \<Rightarrow> instant \<Rightarrow> instant \<Rightarrow> approval_control \<Rightarrow>
     (broker_message \<times> instant) list \<Rightarrow> bool" for dec a start where
  Opened: "approval_control_new a start = Some (Inr c) \<Longrightarrow> control_run dec a start start c []"
| CancelCall: "control_run dec a start t c log \<Longrightarrow> t \<le> now \<Longrightarrow>
    accept_cancellation c m now = Some (x, c') \<Longrightarrow>
    control_run dec a start now c' (case x of Inl e \<Rightarrow> log | Inr u \<Rightarrow> log @ [(m, now)])"
| WorkerCall: "control_run dec a start t c log \<Longrightarrow> t \<le> now \<Longrightarrow>
    accept_worker_message dec c m now = Some (x, c') \<Longrightarrow>
    control_run dec a start now c' (case x of Inl e \<Rightarrow> log | Inr p \<Rightarrow> log @ [(m, now)])"

text \<open>The invariant on the state alone.\<close>

definition session_inv :: "broker_message \<Rightarrow> instant \<Rightarrow> instant \<Rightarrow> approval_control \<Rightarrow> bool" where
  "session_inv a start t c \<longleftrightarrow> start \<le> t \<and>
     control_binding c = (message_binding a)\<lparr>reply_to := Some (nonce a)\<rparr> \<and>
     cache_inv t (control_seen c) \<and> ttl (control_seen c) = two_minutes \<and> capacity (control_seen c) = 128 \<and>
     deadline c = start + two_minutes \<and> received c \<le> 127 \<and>
     length (nonce_order (control_seen c)) = Suc (received c) \<and>
     (\<forall>e\<in>set (entries (control_seen c)). start \<le> snd e) \<and> nonce a \<in> set (nonce_order (control_seen c))"

text \<open>What the binding of a message to the approval means.\<close>

definition bound_to :: "broker_message \<Rightarrow> broker_message \<Rightarrow> bool" where
  "bound_to a m \<longleftrightarrow> message_binding m = (message_binding a)\<lparr>reply_to := Some (nonce a)\<rparr>"

lemma require_reply_to_bound:
  assumes "require_reply_to (message_binding m) (bound_session_id b) (bound_plan_id b) (bound_plan_digest b) n = Inr u"
    and "b = (message_binding a)\<lparr>reply_to := Some (nonce a)\<rparr>" "n = nonce a"
  shows "bound_to a m"
  using assms
  by (auto simp: require_reply_to_def res_simps matches_active_exchange_def bound_to_def split: if_splits
      intro!: broker_binding.equality)

lemma session_replay:
  assumes inv: "session_inv a start t c" and "t \<le> now" "now < deadline c" "received c < 127"
  obtains cache x where "replay_accept (control_seen c) n now = Some (x, cache)"
    and "x = Inr () \<Longrightarrow> n \<notin> set (nonce_order (control_seen c)) \<and>
        entries cache = entries (control_seen c) @ [(n, now)]"
    and "x \<noteq> Inr () \<Longrightarrow> entries cache = entries (control_seen c)"
    and "cache_inv now cache" "ttl cache = two_minutes" "capacity cache = 128"
proof -
  let ?s = "control_seen c"
  have s: "cache_inv t ?s" "ttl ?s = two_minutes" "capacity ?s = 128" "length (nonce_order ?s) \<le> 127"
    using inv assms(4) by (simp_all add: session_inv_def)
  have "live (ttl ?s) now e" if "e \<in> set (entries ?s)" for e
  proof -
    have "start \<le> snd e" "now < start + two_minutes" "0 < two_minutes"
      using inv assms(3) that by (auto simp: session_inv_def two_minutes_def)
    then show ?thesis unfolding live_def s(2) by linarith
  qed
  then have all: "filter (live (ttl ?s) now) (entries ?s) = entries ?s" by simp
  have small: "Suc (length (entries ?s)) - capacity ?s = 0"
    using s(3,4) by (simp add: entries_def)
  have mem: "n \<in> fst ` set (entries ?s) \<longleftrightarrow> n \<in> set (nonce_order ?s)"
    by (metis fst_entries list.set_map)
  obtain cache where cache: "replay_accept ?s n now =
      Some (fst (window_accept (ttl ?s) (capacity ?s) (entries ?s) n now), cache)"
    "entries cache = snd (window_accept (ttl ?s) (capacity ?s) (entries ?s) n now)"
    "cache_inv now cache" "ttl cache = ttl ?s" "capacity cache = capacity ?s"
    using replay_accept_window [OF s(1) assms(2)] by blast
  let ?x = "fst (window_accept (ttl ?s) (capacity ?s) (entries ?s) n now)"
  show thesis
  proof (rule that [OF cache(1)])
    show "n \<notin> set (nonce_order ?s) \<and> entries cache = entries ?s @ [(n, now)]" if "?x = Inr ()"
      using that unfolding cache(2) window_accept_def Let_def all small mem by (auto split: if_splits)
    show "entries cache = entries ?s" if "?x \<noteq> Inr ()"
      using that unfolding cache(2) window_accept_def Let_def all small mem by (auto split: if_splits)
  qed (use cache s in simp_all)
qed

lemma session_inv_cache:
  assumes "session_inv a start t c" "t \<le> now" "cache_inv now cache" "ttl cache = two_minutes"
    "capacity cache = 128" "entries cache = entries (control_seen c)"
  shows "session_inv a start now (c\<lparr>control_seen := cache\<rparr>)"
proof -
  have "nonce_order cache = nonce_order (control_seen c)" using assms(6) fst_entries by metis
  then show ?thesis using assms by (simp add: session_inv_def)
qed

lemma session_inv_accepted:
  assumes "session_inv a start t c" "t \<le> now" "cache_inv now cache" "ttl cache = two_minutes"
    "capacity cache = 128" "entries cache = entries (control_seen c) @ [(n, now)]" "received c < 127"
  shows "session_inv a start now (c\<lparr>control_seen := cache, received := received c + 1\<rparr>)"
    "nonce_order cache = nonce_order (control_seen c) @ [n]"
proof -
  show order: "nonce_order cache = nonce_order (control_seen c) @ [n]"
    using assms(6) fst_entries by (metis fst_conv list.simps(8,9) map_append)
  show "session_inv a start now (c\<lparr>control_seen := cache, received := received c + 1\<rparr>)"
    using assms order by (auto simp: session_inv_def)
qed

text \<open>An envelope is accepted or refused; in both cases the session goes on.\<close>

lemma accept_envelope_session:
  assumes inv: "session_inv a start t c" and now: "t \<le> now"
  obtains x c' where "accept_envelope c m now = Some (x, c')" "session_inv a start now c'"
    and "cancellation_seen c' = cancellation_seen c" "terminal_seen c' = terminal_seen c"
    and "x = Inr () \<Longrightarrow> bound_to a m \<and> now < start + two_minutes \<and> \<not> terminal_seen c \<and>
        nonce m \<notin> set (nonce_order (control_seen c)) \<and> received c' = Suc (received c) \<and>
        set (nonce_order (control_seen c')) = insert (nonce m) (set (nonce_order (control_seen c)))"
    and "x \<noteq> Inr () \<Longrightarrow> received c' = received c \<and>
        set (nonce_order (control_seen c')) = set (nonce_order (control_seen c))"
proof -
  have rt: "reply_to (control_binding c) = Some (nonce a)" and dl: "deadline c = start + two_minutes"
    using inv by (simp_all add: session_inv_def)
  have later: "session_inv a start now c" using inv now by (auto simp: session_inv_def cache_inv_def)
  let ?req = "require_reply_to (message_binding m) (bound_session_id (control_binding c))
    (bound_plan_id (control_binding c)) (bound_plan_digest (control_binding c)) (nonce a)"
  show thesis
  proof (cases "message_validate m = Inr () \<and> ?req = Inr () \<and>
      \<not> terminal_seen c \<and> now < deadline c \<and> received c < 127")
    case False
    have "\<exists>e. accept_envelope c m now = Some (Inl e, c)"
      using False by (cases "message_validate m"; cases ?req) (auto simp: accept_envelope_def rt)
    then show thesis using that later by auto
  next
    case True
    have bound: "bound_to a m"
      using True inv by (intro require_reply_to_bound [of _ "control_binding c"]) (auto simp: session_inv_def)
    obtain cache x where r: "replay_accept (control_seen c) (nonce m) now = Some (x, cache)"
      "x = Inr () \<Longrightarrow> nonce m \<notin> set (nonce_order (control_seen c)) \<and>
          entries cache = entries (control_seen c) @ [(nonce m, now)]"
      "x \<noteq> Inr () \<Longrightarrow> entries cache = entries (control_seen c)"
      "cache_inv now cache" "ttl cache = two_minutes" "capacity cache = 128"
      using session_replay [OF inv now] True by metis
    show thesis
    proof (cases "x = Inr ()")
      case ok: True
      have "accept_envelope c m now = Some (Inr (), c\<lparr>control_seen := cache, received := received c + 1\<rparr>)"
        using True r(1) ok by (simp add: accept_envelope_def rt)
      then show thesis
        using that [of "Inr ()"] session_inv_accepted [OF inv now r(4-6)] r(2) [OF ok] bound True dl by auto
    next
      case bad: False
      have same: "nonce_order cache = nonce_order (control_seen c)" using r(3) [OF bad] fst_entries by metis
      have "accept_envelope c m now = Some (x, c\<lparr>control_seen := cache\<rparr>)"
        using True r(1) bad by (cases x) (simp_all add: accept_envelope_def rt)
      then show thesis
        using that [of x] session_inv_cache [OF inv now r(4-6) r(3) [OF bad]] bad same by auto
    qed
  qed
qed

section \<open>What a session guarantees\<close>

definition cancel_count :: "(broker_message \<times> instant) list \<Rightarrow> nat" where
  "cancel_count log = length (filter (\<lambda>(m, t). message_kind m = ''plan.cancel'') log)"

definition log_ok :: "broker_message \<Rightarrow> instant \<Rightarrow> approval_control \<Rightarrow> (broker_message \<times> instant) list \<Rightarrow> bool" where
  "log_ok a start c log \<longleftrightarrow>
     distinct (nonce a # map (nonce \<circ> fst) log) \<and>
     set (map (nonce \<circ> fst) log) \<subseteq> set (nonce_order (control_seen c)) \<and> length log \<le> received c \<and>
     (\<forall>(m, t)\<in>set log. bound_to a m \<and> t < start + two_minutes) \<and>
     cancel_count log = (if cancellation_seen c then 1 else 0) \<and>
     (\<forall>(m, t)\<in>set (butlast log). message_kind m \<noteq> ''plan.result'') \<and>
     (log \<noteq> [] \<longrightarrow> message_kind (fst (last log)) = ''plan.result'' \<longrightarrow> terminal_seen c)"

lemma log_ok_same:
  assumes "log_ok a start c log" "set (nonce_order (control_seen c)) \<subseteq> set (nonce_order (control_seen c'))"
    "received c \<le> received c'" "cancellation_seen c' = cancellation_seen c" "terminal_seen c' = terminal_seen c"
  shows "log_ok a start c' log"
  using assms by (auto simp: log_ok_def)

lemma log_ok_append:
  assumes "log_ok a start c log" "bound_to a m" "now < start + two_minutes" "\<not> terminal_seen c"
    and "nonce m \<notin> set (nonce_order (control_seen c))" "nonce a \<in> set (nonce_order (control_seen c))"
    and "received c' = Suc (received c)"
    and "set (nonce_order (control_seen c')) = insert (nonce m) (set (nonce_order (control_seen c)))"
    and "message_kind m = ''plan.cancel'' \<longrightarrow> \<not> cancellation_seen c \<and> cancellation_seen c'"
    and "message_kind m \<noteq> ''plan.cancel'' \<longrightarrow> cancellation_seen c' = cancellation_seen c"
    and "message_kind m = ''plan.result'' \<longrightarrow> terminal_seen c'"
  shows "log_ok a start c' (log @ [(m, now)])"
proof -
  have "message_kind m' \<noteq> ''plan.result''" if "(m', t) \<in> set log" for m' t
  proof (cases log rule: rev_cases)
    case (snoc xs x)
    then show ?thesis using that assms(1,4) by (auto simp: log_ok_def)
  qed (use that in simp)
  moreover have "cancel_count (log @ [(m, now)]) = (if cancellation_seen c' then 1 else 0)"
    using assms(1,9,10) by (auto simp: log_ok_def cancel_count_def)
  moreover have "distinct (nonce a # map (nonce \<circ> fst) (log @ [(m, now)]))"
    using assms(1,5,6) by (auto simp: log_ok_def)
  ultimately show ?thesis
    using assms unfolding log_ok_def by auto
qed

lemma cancellation_session:
  assumes "session_inv a start t c" "log_ok a start c log" "t \<le> now"
  shows "\<exists>x c'. accept_cancellation c m now = Some (x, c') \<and> session_inv a start now c' \<and>
    log_ok a start c' (case x of Inl e \<Rightarrow> log | Inr u \<Rightarrow> log @ [(m, now)])"
proof -
  obtain x c' where e: "accept_envelope c m now = Some (x, c')" "session_inv a start now c'"
    "cancellation_seen c' = cancellation_seen c" "terminal_seen c' = terminal_seen c"
    and ok: "x = Inr () \<Longrightarrow> bound_to a m \<and> now < start + two_minutes \<and> \<not> terminal_seen c \<and>
        nonce m \<notin> set (nonce_order (control_seen c)) \<and> received c' = Suc (received c) \<and>
        set (nonce_order (control_seen c')) = insert (nonce m) (set (nonce_order (control_seen c)))"
    and bad: "x \<noteq> Inr () \<Longrightarrow> received c' = received c \<and>
        set (nonce_order (control_seen c')) = set (nonce_order (control_seen c))"
    using accept_envelope_session [OF assms(1,3)] by metis
  have a: "nonce a \<in> set (nonce_order (control_seen c))" using assms(1) by (simp add: session_inv_def)
  have grow: "log_ok a start c' log"
    using ok bad by (intro log_ok_same [OF assms(2)]) (cases "x = Inr ()"; use e in auto)+
  show ?thesis
  proof (cases "x = Inr () \<and> message_kind m = ''plan.cancel'' \<and> message_payload m = JObject [] \<and> \<not> cancellation_seen c'")
    case True
    define d where "d = c'\<lparr>cancellation_seen := True\<rparr>"
    have "accept_cancellation c m now = Some (Inr (), d)"
      using True e(1) by (simp add: accept_cancellation_def d_def)
    moreover have "session_inv a start now d" using e(2) by (simp add: session_inv_def d_def)
    moreover have "log_ok a start d (log @ [(m, now)])"
      using True ok a e(3,4) by (intro log_ok_append [OF assms(2)]) (auto simp: d_def)
    ultimately show ?thesis by auto
  next
    case False
    then have "\<exists>err. accept_cancellation c m now = Some (Inl err, c')"
      using e(1) by (cases x) (auto simp: accept_cancellation_def)
    then show ?thesis using grow e(2) by auto
  qed
qed

lemma worker_message_session:
  assumes "session_inv a start t c" "log_ok a start c log" "t \<le> now"
  shows "\<exists>x c'. accept_worker_message dec c m now = Some (x, c') \<and> session_inv a start now c' \<and>
    log_ok a start c' (case x of Inl e \<Rightarrow> log | Inr p \<Rightarrow> log @ [(m, now)])"
proof -
  obtain x c' where e: "accept_envelope c m now = Some (x, c')" "session_inv a start now c'"
    "cancellation_seen c' = cancellation_seen c" "terminal_seen c' = terminal_seen c"
    and ok: "x = Inr () \<Longrightarrow> bound_to a m \<and> now < start + two_minutes \<and> \<not> terminal_seen c \<and>
        nonce m \<notin> set (nonce_order (control_seen c)) \<and> received c' = Suc (received c) \<and>
        set (nonce_order (control_seen c')) = insert (nonce m) (set (nonce_order (control_seen c)))"
    and bad: "x \<noteq> Inr () \<Longrightarrow> received c' = received c \<and>
        set (nonce_order (control_seen c')) = set (nonce_order (control_seen c))"
    using accept_envelope_session [OF assms(1,3)] by metis
  have a: "nonce a \<in> set (nonce_order (control_seen c))" using assms(1) by (simp add: session_inv_def)
  have grow: "log_ok a start c' log"
    using ok bad by (intro log_ok_same [OF assms(2)]) (cases "x = Inr ()"; use e in auto)+
  consider "x = Inr ()" "message_kind m = ''plan.progress''" | "x = Inr ()" "message_kind m = ''plan.result''"
    | "\<exists>err. accept_worker_message dec c m now = Some (Inl err, c')"
    using e(1)
    by (cases x; cases "message_kind m = ''plan.progress''"; cases "message_kind m = ''plan.result''")
       (auto simp: accept_worker_message_def)
  then show ?thesis
  proof cases
    case 1
    define y where "y = and_then (map_err ProtocolRejected (dec (message_payload m)))
      (\<lambda>p. and_then (progress_validate p) (\<lambda>_. Inr (Some p)))"
    have "accept_worker_message dec c m now = Some (y, c')"
      using 1 e(1) by (simp add: accept_worker_message_def y_def)
    moreover have "log_ok a start c' (log @ [(m, now)])"
      using 1 ok a e(3) by (intro log_ok_append [OF assms(2)]) auto
    ultimately show ?thesis using grow e(2) by (cases y) auto
  next
    case 2
    define d where "d = c'\<lparr>terminal_seen := True\<rparr>"
    have "accept_worker_message dec c m now = Some (Inr None, d)"
      using 2 e(1) by (simp add: accept_worker_message_def d_def)
    moreover have "session_inv a start now d" using e(2) by (simp add: session_inv_def d_def)
    moreover have "log_ok a start d (log @ [(m, now)])"
      using 2 ok a e(3) by (intro log_ok_append [OF assms(2)]) (auto simp: d_def)
    ultimately show ?thesis by auto
  next
    case 3
    then show ?thesis using grow e(2) by auto
  qed
qed

lemma approval_session:
  assumes "message_validate a = Inr ()" "message_kind a = ''plan.approve''"
  shows "\<exists>c. approval_control_new a start = Some (Inr c) \<and> session_inv a start start c \<and> log_ok a start c []"
proof -
  define cache where "cache = \<lparr>ttl = two_minutes, capacity = 128, seen = Map.empty, nonce_order = []\<rparr>"
  have new: "replay_new two_minutes 128 = Inr cache"
    by (simp add: replay_new_def cache_def two_minutes_def)
  have inv: "cache_inv start cache"
    by (simp add: cache_inv_def cache_def entries_def two_minutes_def)
  have nonce: "valid_nonce (nonce a)"
    using assms(1) by (auto simp: message_validate_def validate_nonce_def res_simps split: if_splits)
  obtain d where d: "replay_accept cache (nonce a) start = Some (Inr (), d)" "entries d = [(nonce a, start)]"
    "cache_inv start d" "ttl d = two_minutes" "capacity d = 128"
    using replay_accept_window [OF inv order_refl, of "nonce a"] nonce
    by (auto simp: window_accept_def cache_def entries_def)
  have "nonce_order d = [nonce a]" using d(2) fst_entries [of d] by simp
  then show ?thesis
    using assms new d
    by (simp add: approval_control_new_def session_inv_def log_ok_def cancel_count_def)
qed

lemma control_run_inv:
  "control_run dec a start t c log \<Longrightarrow> session_inv a start t c \<and> log_ok a start c log"
proof (induction rule: control_run.induct)
  case (Opened c)
  then have "message_validate a = Inr ()" "message_kind a = ''plan.approve''"
    by (auto simp: approval_control_new_def split: sum.splits if_splits)
  from approval_session [OF this, of start] Opened show ?case by auto
next
  case (CancelCall t c log now m x c')
  then show ?case using cancellation_session [of a start t c log now m] by auto
next
  case (WorkerCall t c log now m x c')
  then show ?case using worker_message_session [of a start t c log now dec m] by auto
qed

text \<open>
  C27: the guarantees of a control session. Whatever is presented to it, the accepted messages carry pairwise
  distinct nonces, also distinct from the approval's; there are at most 127 of them, all bound to the exact
  session, plan and digest of the approval and accepted within two minutes of it; at most one is a
  cancellation, and nothing is accepted after a terminal result.
\<close>

theorem control_session_safe:
  assumes "control_run dec a start t c log"
  shows "distinct (nonce a # map (nonce \<circ> fst) log) \<and> length log \<le> 127 \<and>
    (\<forall>(m, t')\<in>set log. bound_to a m \<and> t' < start + two_minutes) \<and> cancel_count log \<le> 1 \<and>
    (\<forall>(m, t')\<in>set (butlast log). message_kind m \<noteq> ''plan.result'')"
  using control_run_inv [OF assms] by (auto simp: log_ok_def session_inv_def)

definition demo_approval :: broker_message where
  "demo_approval = \<lparr>message_version = 2,
     message_binding = \<lparr>bound_session_id = ''a1'', bound_plan_id = ''p'', bound_plan_digest = replicate 64 (CHR ''0''),
       reply_to = None\<rparr>,
     nonce = ''a1'', message_kind = ''plan.approve'', message_payload = JObject []\<rparr>"

definition demo_cancel :: broker_message where
  "demo_cancel = demo_approval\<lparr>nonce := ''b2'', message_kind := ''plan.cancel'',
     message_binding := (message_binding demo_approval)\<lparr>reply_to := Some ''a1''\<rparr>\<rparr>"

lemma demo_messages:
  "message_validate demo_approval = Inr ()" "message_validate demo_cancel = Inr ()"
  "binding_validate (message_binding demo_cancel) = Inr ()"
  by (simp_all add: message_validate_def demo_approval_def demo_cancel_def validate_version_def
      protocol_version_def validate_nonce_def valid_nonce_def max_nonce_bytes_def lower_hex_def ascii_defs
      less_eq_char_def validate_kind_def max_kind_bytes_def is_object_def binding_validate_def
      validate_session_id_def max_session_bytes_def validate_plan_id_def max_plan_id_bytes_def valid_hex_def
      sha256_hex_bytes_def list_all_iff)

lemma demo_binding:
  "require_reply_to (message_binding demo_cancel) (bound_session_id (message_binding demo_approval))
     (bound_plan_id (message_binding demo_approval)) (bound_plan_digest (message_binding demo_approval)) ''a1'' = Inr ()"
  using demo_messages(3)
  by (simp add: require_reply_to_def matches_active_exchange_def) (simp add: demo_cancel_def)

lemma demo_session: "\<exists>c. control_run dec demo_approval 0 1 c [(demo_cancel, 1)]"
proof -
  have names: "nonce demo_approval = ''a1''" "message_kind demo_approval = ''plan.approve''"
    "nonce demo_cancel = ''b2''" "message_kind demo_cancel = ''plan.cancel''" "message_payload demo_cancel = JObject []"
    by (simp_all add: demo_approval_def demo_cancel_def)
  obtain c where c: "approval_control_new demo_approval 0 = Some (Inr c)" "session_inv demo_approval 0 0 c"
    and fresh: "control_seen c = \<lparr>ttl = two_minutes, capacity = 128, seen = [''a1'' \<mapsto> 0], nonce_order = [''a1'']\<rparr>"
      "received c = 0" "\<not> terminal_seen c" "\<not> cancellation_seen c"
  proof -
    have "valid_nonce ''a1''"
      using demo_messages(1) names(1) by (auto simp: message_validate_def validate_nonce_def res_simps split: if_splits)
    then show thesis
      using that approval_session [OF demo_messages(1) names(2), of 0] demo_messages(1) names
      by (auto simp: approval_control_new_def replay_new_def replay_accept_def evict_expired_def
          evict_capacity.simps two_minutes_def)
  qed
  have run: "control_run dec demo_approval 0 0 c []" by (rule Opened [OF c(1)])
  have "valid_nonce ''b2''"
    using demo_messages(2) names(3) by (auto simp: message_validate_def validate_nonce_def res_simps split: if_splits)
  then have "\<exists>cache. replay_accept (control_seen c) ''b2'' 1 = Some (Inr (), cache)"
    unfolding fresh by (simp add: replay_accept_def evict_expired_def evict_capacity.simps two_minutes_def)
  then have "\<exists>c'. accept_cancellation c demo_cancel 1 = Some (Inr (), c')"
    using c(2) demo_messages(2) demo_binding fresh(2-) names
    by (auto simp: accept_cancellation_def accept_envelope_def session_inv_def two_minutes_def)
  then show ?thesis using CancelCall [OF run, of 1 demo_cancel "Inr ()"] by auto
qed

theorem control_session_safe_witness:
  "\<exists>c. control_run (\<lambda>_. Inl ''none'') demo_approval 0 1 c [(demo_cancel, 1)] \<and>
     distinct (nonce demo_approval # map (nonce \<circ> fst) [(demo_cancel, 1 :: instant)]) \<and> cancel_count [(demo_cancel, 1)] \<le> 1"
proof -
  obtain c where c: "control_run (\<lambda>_. Inl ''none'') demo_approval 0 1 c [(demo_cancel, 1)]"
    using demo_session by blast
  note safe = control_session_safe [OF c]
  show ?thesis
    by (intro exI [of _ c] conjI) (rule c, rule safe [THEN conjunct1],
        rule safe [THEN conjunct2, THEN conjunct2, THEN conjunct2, THEN conjunct1])
qed

text \<open>
  C29: a session never hangs or panics. In every state that a session reaches, a call at a later time
  returns: the eviction loop of the replay cache ends, and the approval nonce that the code expects is there.
\<close>

theorem control_session_returns:
  assumes "control_run dec a start t c log" "t \<le> now"
  shows "(\<exists>x c'. accept_cancellation c m now = Some (x, c')) \<and>
    (\<exists>x c'. accept_worker_message dec c m now = Some (x, c'))"
  using control_run_inv [OF assms(1)] cancellation_session [of a start t c log now m]
    worker_message_session [of a start t c log now dec m] assms(2)
  by blast

theorem control_session_returns_witness:
  "\<exists>c x c'. control_run (\<lambda>_. Inl ''none'') demo_approval 0 1 c [(demo_cancel, 1)] \<and>
     accept_cancellation c demo_cancel 2 = Some (x, c')"
proof -
  obtain c where c: "control_run (\<lambda>_. Inl ''none'') demo_approval 0 1 c [(demo_cancel, 1)]"
    using demo_session by blast
  moreover have "\<exists>x c'. accept_cancellation c demo_cancel 2 = Some (x, c')"
    using control_session_returns [OF c, of 2 demo_cancel] by auto
  ultimately show ?thesis by blast
qed

end
