(* ===== verification/Journal_Lifecycle.thy ===== *)
theory Journal_Lifecycle
  imports Domain_Serde
begin

text \<open>
  The execution lifecycle of \<open>baselineops-engine/src/journal/lifecycle.rs\<close>, the state machine that every
  journal event passes before it is written and again when a journal is read. The theory shows which
  event sequences the machine accepts: one approval, then actions that start and finish one at a time
  with fresh identities, nothing after a failure but the end of the run, and nothing after that.
\<close>

section \<open>Events, errors and the state\<close>

datatype journal_event =
    PlanApproved uuid digest
  | ActionStarted string digest
  | ActionFinished string action_status digest
  | RunFinished uuid digest

text \<open>
  \<open>JournalError\<close>. The causes of platform, I/O and decoding failures are kept as text.
\<close>

datatype journal_error =
    JournalProtection string
  | JournalIo string
  | JournalDomain domain_error
  | WriteFailed
  | InvalidLifecycle string
  | ActionRecoveryRequired string
  | RecordTooLarge
  | JournalSizeLimitExceeded nat
  | JournalRecordLimitExceeded nat
  | BadMagic
  | IncompleteFrame
  | NonCanonicalRecord
  | InvalidRecord string
  | SequenceMismatch
  | SequenceOverflow
  | PreviousHashMismatch
  | RecordHashMismatch
  | TerminalHashMismatch

record lifecycle =
  approved :: bool
  finished :: bool
  lc_stopped :: bool
  active :: "string option"
  completed :: "string set"

definition lifecycle_default :: lifecycle where
  "lifecycle_default =
     \<lparr>approved = False, finished = False, lc_stopped = False, active = None, completed = {}\<rparr>"

section \<open>Transitions\<close>

definition validate_approval :: "lifecycle \<Rightarrow> journal_error + unit" where
  "validate_approval l =
     (if approved l then Inl (InvalidLifecycle ''approval must occur exactly once'') else Inr ())"

definition validate_start :: "lifecycle \<Rightarrow> string \<Rightarrow> journal_error + unit" where
  "validate_start l aid =
     (if \<not> approved l \<or> active l \<noteq> None \<or> lc_stopped l
      then Inl (InvalidLifecycle ''action start requires approval, no active action, and no failure'')
      else if aid = [] \<or> aid \<in> completed l
      then Inl (InvalidLifecycle ''action identity is empty or already completed'')
      else Inr ())"

definition validate_finish :: "lifecycle \<Rightarrow> string \<Rightarrow> journal_error + unit" where
  "validate_finish l aid =
     (if active l \<noteq> Some aid
      then Inl (InvalidLifecycle ''action completion does not match the active action'') else Inr ())"

definition validate_run_finish :: "lifecycle \<Rightarrow> journal_error + unit" where
  "validate_run_finish l =
     (if \<not> approved l \<or> active l \<noteq> None
      then Inl (InvalidLifecycle ''run completion requires approval and no active action'') else Inr ())"

definition lifecycle_validate :: "lifecycle \<Rightarrow> journal_event \<Rightarrow> journal_error + unit" where
  "lifecycle_validate l event =
     (if finished l then Inl (InvalidLifecycle ''events cannot follow run completion'')
      else case event of
        PlanApproved _ _ \<Rightarrow> validate_approval l
      | ActionStarted aid _ \<Rightarrow> validate_start l aid
      | ActionFinished aid _ _ \<Rightarrow> validate_finish l aid
      | RunFinished _ _ \<Rightarrow> validate_run_finish l)"

fun lifecycle_accept :: "lifecycle \<Rightarrow> journal_event \<Rightarrow> lifecycle" where
  "lifecycle_accept l (PlanApproved _ _) = l\<lparr>approved := True\<rparr>"
| "lifecycle_accept l (ActionStarted aid _) = l\<lparr>active := Some aid\<rparr>"
| "lifecycle_accept l (ActionFinished aid status _) =
     l\<lparr>lc_stopped := (status \<noteq> Succeeded), completed := insert aid (completed l), active := None\<rparr>"
| "lifecycle_accept l (RunFinished _ _) = l\<lparr>finished := True\<rparr>"

text \<open>The loop of \<open>from_snapshot\<close>, on the payloads of the records.\<close>

definition lifecycle_step :: "lifecycle \<Rightarrow> journal_event \<Rightarrow> journal_error + lifecycle" where
  "lifecycle_step l event =
     and_then (lifecycle_validate l event) (\<lambda>_. Inr (lifecycle_accept l event))"

definition from_snapshot :: "journal_event list \<Rightarrow> journal_error + lifecycle" where
  "from_snapshot events = try_fold lifecycle_step lifecycle_default events"

definition require_resumable :: "lifecycle \<Rightarrow> journal_error + unit" where
  "require_resumable l =
     (case active l of Some action \<Rightarrow> Inl (ActionRecoveryRequired action) | None \<Rightarrow> Inr ())"

definition validate_recovery :: "lifecycle \<Rightarrow> u64 \<Rightarrow> journal_error + unit" where
  "validate_recovery l trailing_bytes =
     (if finished l \<and> trailing_bytes \<noteq> 0
      then Inl (InvalidLifecycle ''bytes cannot follow run completion'')
      else require_resumable l)"

section \<open>The accepted sequences\<close>

text \<open>Actions that started and succeeded, with the digests of their two events.\<close>

definition completed_steps :: "(string \<times> digest \<times> digest) list \<Rightarrow> journal_event list" where
  "completed_steps ds =
     concat (map (\<lambda>(a, pre, post). [ActionStarted a pre, ActionFinished a Succeeded post]) ds)"

definition ids_ok :: "(string \<times> digest \<times> digest) list \<Rightarrow> bool" where
  "ids_ok ds \<longleftrightarrow> distinct (map fst ds) \<and> [] \<notin> fst ` set ds"

inductive run_events :: "journal_event list \<Rightarrow> lifecycle \<Rightarrow> bool" where
  NotApproved: "run_events [] lifecycle_default"
| Idle: "ids_ok ds \<Longrightarrow> run_events (PlanApproved p d # completed_steps ds)
     \<lparr>approved = True, finished = False, lc_stopped = False, active = None, completed = fst ` set ds\<rparr>"
| Active: "ids_ok ds \<Longrightarrow> a \<notin> fst ` set ds \<Longrightarrow> a \<noteq> [] \<Longrightarrow>
     run_events (PlanApproved p d # completed_steps ds @ [ActionStarted a pre])
     \<lparr>approved = True, finished = False, lc_stopped = False, active = Some a, completed = fst ` set ds\<rparr>"
| Halted: "ids_ok ds \<Longrightarrow> a \<notin> fst ` set ds \<Longrightarrow> a \<noteq> [] \<Longrightarrow> s \<noteq> Succeeded \<Longrightarrow>
     run_events (PlanApproved p d # completed_steps ds @ [ActionStarted a pre, ActionFinished a s post])
     \<lparr>approved = True, finished = False, lc_stopped = True, active = None,
      completed = insert a (fst ` set ds)\<rparr>"
| FinishedIdle: "ids_ok ds \<Longrightarrow>
     run_events (PlanApproved p d # completed_steps ds @ [RunFinished r e])
     \<lparr>approved = True, finished = True, lc_stopped = False, active = None, completed = fst ` set ds\<rparr>"
| FinishedHalted: "ids_ok ds \<Longrightarrow> a \<notin> fst ` set ds \<Longrightarrow> a \<noteq> [] \<Longrightarrow> s \<noteq> Succeeded \<Longrightarrow>
     run_events (PlanApproved p d # completed_steps ds @
       [ActionStarted a pre, ActionFinished a s post, RunFinished r e])
     \<lparr>approved = True, finished = True, lc_stopped = True, active = None,
      completed = insert a (fst ` set ds)\<rparr>"

lemmas lifecycle_defs = lifecycle_step_def lifecycle_validate_def validate_approval_def
  validate_start_def validate_finish_def validate_run_finish_def

lemma from_snapshot_snoc:
  "from_snapshot (es @ [e]) = and_then (from_snapshot es) (\<lambda>l. lifecycle_step l e)"
  by (cases "from_snapshot es") (simp_all add: from_snapshot_def try_fold_append and_then_def split: sum.split)

lemma completed_steps_snoc:
  "completed_steps ds @ [ActionStarted a pre, ActionFinished a Succeeded post] =
     completed_steps (ds @ [(a, pre, post)])"
  by (simp add: completed_steps_def)

lemma ids_ok_snoc: "ids_ok (ds @ [(a, pre, post)]) \<longleftrightarrow> ids_ok ds \<and> a \<notin> fst ` set ds \<and> a \<noteq> []"
  by (auto simp: ids_ok_def)

lemma run_events_step:
  assumes "run_events es l" "lifecycle_step l e = Inr l'"
  shows "run_events (es @ [e]) l'"
  using assms
proof (cases rule: run_events.cases)
  case NotApproved
  then show ?thesis
    using assms(2) run_events.Idle [of "[]"]
    by (cases e) (auto simp: lifecycle_defs lifecycle_default_def completed_steps_def ids_ok_def
        split: if_splits)
next
  case (Idle ds p d)
  then show ?thesis
    using assms(2) by (cases e) (auto simp: lifecycle_defs intro: run_events.intros split: if_splits)
next
  case (Active ds a p d pre)
  show ?thesis
  proof (cases e)
    case (ActionFinished b s post)
    show ?thesis
    proof (cases "s = Succeeded")
      case True
      have "run_events (PlanApproved p d # completed_steps (ds @ [(a, pre, post)]))
          \<lparr>approved = True, finished = False, lc_stopped = False, active = None,
           completed = fst ` set (ds @ [(a, pre, post)])\<rparr>"
        using Active by (intro run_events.Idle) (simp add: ids_ok_snoc)
      then show ?thesis
        using Active ActionFinished True assms(2)
        by (auto simp: lifecycle_defs simp flip: completed_steps_snoc split: if_splits)
    next
      case False
      then show ?thesis
        using Active ActionFinished assms(2) run_events.Halted [of ds a s p d pre post]
        by (auto simp: lifecycle_defs split: if_splits)
    qed
  qed (use Active assms(2) in \<open>auto simp: lifecycle_defs split: if_splits\<close>)
next
  case (Halted ds a s p d pre post)
  then show ?thesis
    using assms(2) run_events.FinishedHalted [of ds a s p d pre post]
    by (cases e) (auto simp: lifecycle_defs split: if_splits)
qed (use assms(2) in \<open>auto simp: lifecycle_defs split: if_splits\<close>)

lemma from_snapshot_run_events: "from_snapshot es = Inr l \<Longrightarrow> run_events es l"
proof (induction es arbitrary: l rule: rev_induct)
  case Nil
  then show ?case by (simp add: from_snapshot_def run_events.NotApproved)
next
  case (snoc e es)
  then obtain l0 where "from_snapshot es = Inr l0" "lifecycle_step l0 e = Inr l"
    by (auto simp: from_snapshot_snoc res_simps)
  with snoc.IH run_events_step show ?case by blast
qed

lemma from_snapshot_idle:
  "ids_ok ds \<Longrightarrow> from_snapshot (PlanApproved p d # completed_steps ds) = Inr
     \<lparr>approved = True, finished = False, lc_stopped = False, active = None, completed = fst ` set ds\<rparr>"
proof (induction ds rule: rev_induct)
  case Nil
  show ?case
    by (simp add: completed_steps_def from_snapshot_def lifecycle_defs lifecycle_default_def)
next
  case (snoc t ds)
  obtain a pre post where t: "t = (a, pre, post)" by (cases t)
  have "from_snapshot ((PlanApproved p d # completed_steps ds) @ [ActionStarted a pre, ActionFinished a Succeeded post]) =
      Inr \<lparr>approved = True, finished = False, lc_stopped = False, active = None,
        completed = insert a (fst ` set ds)\<rparr>"
    using snoc t
    by (simp add: from_snapshot_def try_fold_append ids_ok_snoc del: append_Cons) (simp add: lifecycle_defs)
  then show ?case
    by (simp add: t flip: completed_steps_snoc)
qed

lemma run_events_from_snapshot: "run_events es l \<Longrightarrow> from_snapshot es = Inr l"
proof (cases rule: run_events.cases)
  assume "run_events es l"
  then show "run_events es l" .
qed (use from_snapshot_idle in \<open>auto simp: from_snapshot_def try_fold_append lifecycle_defs
      simp flip: append_Cons\<close>)

text \<open>
  C26: a sequence of journal events is accepted exactly when it is one of the shapes of a run: nothing;
  an approval and actions that succeeded one after the other with fresh identities, then possibly one
  action that is still open or ended without success, then possibly the end of the run. The state of the
  machine tells which shape it is.
\<close>

theorem lifecycle_language: "from_snapshot events = Inr l \<longleftrightarrow> run_events events l"
  using from_snapshot_run_events run_events_from_snapshot by blast

end
