(* ===== verification/Journal.thy ===== *)
theory Journal
  imports Journal_Lifecycle
begin

text \<open>
  The append-only, hash-chained journal of \<open>baselineops-engine/src/journal.rs\<close> and its reader
  \<open>journal/reader.rs\<close>. The file is the list of its bytes. A write takes its outcome from the environment:
  it becomes durable, or fails after some prefix of the frame has reached the file. The decoder
  \<open>serde_json::from_slice\<close> is the parameter \<open>dec\<close>.
\<close>

section \<open>Records\<close>

record journal_limits =
  journal_max_bytes :: u64
  max_records :: usize

definition journal_magic :: "byte list" where
  "journal_magic = as_bytes ''BASELINEOPS-JOURNAL-V2'' @ [10]"

definition max_record_bytes :: usize where "max_record_bytes = 4 * 1024 * 1024"

definition journal_limits_default :: journal_limits where
  "journal_limits_default = \<lparr>journal_max_bytes = 64 * 1024 * 1024, max_records = 4096\<rparr>"

record journal_record =
  sequence :: u64
  timestamp :: datetime
  previous_hash :: digest
  payload :: journal_event
  record_hash :: digest

fun action_status_text :: "action_status \<Rightarrow> string" where
  "action_status_text Succeeded = ''succeeded''"
| "action_status_text Findings = ''findings''"
| "action_status_text Blocked = ''blocked''"
| "action_status_text Skipped = ''skipped''"
| "action_status_text Failed = ''failed''"

fun event_fields :: "'h ext \<Rightarrow> journal_event \<Rightarrow> json_map list" where
  "event_fields E (PlanApproved p d) =
     [field ''event'' (JString ''plan_approved''), field ''plan_id'' (juuid E p), field ''plan_digest'' (jdigest d)]"
| "event_fields E (ActionStarted a d) =
     [field ''event'' (JString ''action_started''), field ''action_id'' (JString a),
      field ''pre_state_digest'' (jdigest d)]"
| "event_fields E (ActionFinished a s d) =
     [field ''event'' (JString ''action_finished''), field ''action_id'' (JString a),
      field ''status'' (JString (action_status_text s)), field ''receipt_digest'' (jdigest d)]"
| "event_fields E (RunFinished r d) =
     [field ''event'' (JString ''run_finished''), field ''result_id'' (juuid E r),
      field ''result_digest'' (jdigest d)]"

definition event_json :: "'h ext \<Rightarrow> journal_event \<Rightarrow> jvalue" where
  "event_json E e = obj (event_fields E e)"

definition record_json :: "'h ext \<Rightarrow> journal_record \<Rightarrow> jvalue" where
  "record_json E r = obj [
     field ''sequence'' (jnat (sequence r)), field ''timestamp'' (jtime E (timestamp r)),
     field ''previous_hash'' (jdigest (previous_hash r)), field ''payload'' (event_json E (payload r)),
     field ''record_hash'' (jdigest (record_hash r))]"

text \<open>The tuple that a record hash covers.\<close>

definition hash_payload_json :: "'h ext \<Rightarrow> u64 \<times> datetime \<times> digest \<times> journal_event \<Rightarrow> jvalue" where
  "hash_payload_json E = (\<lambda>(s, t, h, e). JArray [jnat s, jtime E t, jdigest h, event_json E e])"

definition canonical_record_bytes :: "'h ext \<Rightarrow> journal_record \<Rightarrow> journal_error + byte list" where
  "canonical_record_bytes E r =
     map_err JournalDomain (canonical_json_bytes E (\<lambda>r. Inr (record_json E r)) r)"

definition hash_payload :: "'h ext \<Rightarrow> u64 \<times> datetime \<times> digest \<times> journal_event \<Rightarrow> journal_error + digest" where
  "hash_payload E p =
     and_then (map_err JournalDomain (canonical_json_bytes E (\<lambda>p. Inr (hash_payload_json E p)) p))
       (\<lambda>bytes. Inr (of_bytes E bytes))"

definition make_journal_record ::
    "'h ext \<Rightarrow> u64 \<Rightarrow> digest \<Rightarrow> datetime \<Rightarrow> journal_event \<Rightarrow> journal_error + journal_record" where
  "make_journal_record E seq prev ts ev =
     and_then (hash_payload E (seq, ts, prev, ev)) (\<lambda>h.
       Inr \<lparr>sequence = seq, timestamp = ts, previous_hash = prev, payload = ev, record_hash = h\<rparr>)"

definition validate_record :: "'h ext \<Rightarrow> journal_record \<Rightarrow> u64 \<Rightarrow> digest \<Rightarrow> journal_error + unit" where
  "validate_record E r seq prev =
     (if sequence r \<noteq> seq then Inl SequenceMismatch
      else if previous_hash r \<noteq> prev then Inl PreviousHashMismatch
      else
        and_then (hash_payload E (sequence r, timestamp r, previous_hash r, payload r)) (\<lambda>h.
          if h \<noteq> record_hash r then Inl RecordHashMismatch else Inr ()))"

section \<open>Limits and frames\<close>

definition ensure_size_limit :: "u64 \<Rightarrow> journal_limits \<Rightarrow> journal_error + unit" where
  "ensure_size_limit bytes limits =
     (if bytes > journal_max_bytes limits then Inl (JournalSizeLimitExceeded (journal_max_bytes limits))
      else Inr ())"

definition ensure_record_limit :: "u64 \<Rightarrow> journal_limits \<Rightarrow> journal_error + unit" where
  "ensure_record_limit seq limits =
     (if seq \<ge> max_records limits then Inl (JournalRecordLimitExceeded (max_records limits)) else Inr ())"

definition frame_size :: "usize \<Rightarrow> journal_error + u64" where
  "frame_size record_bytes =
     (if record_bytes = 0 \<or> record_bytes > max_record_bytes then Inl RecordTooLarge
      else Inr (4 + record_bytes))"

definition frame_length :: "byte list \<Rightarrow> journal_error + usize" where
  "frame_length prefix =
     (let len = unat (u32_from_le_bytes prefix) in
      if len = 0 \<or> len > max_record_bytes then Inl RecordTooLarge else Inr len)"

definition ensure_observed_size :: "u64 \<Rightarrow> usize \<Rightarrow> journal_limits \<Rightarrow> journal_error + u64" where
  "ensure_observed_size valid observed limits =
     and_then (ok_or (JournalSizeLimitExceeded (journal_max_bytes limits)) (checked_add_u64 valid observed))
       (\<lambda>observed_end. and_then (ensure_size_limit observed_end limits) (\<lambda>_. Inr observed_end))"

section \<open>The writer\<close>

record journal =
  journal_file :: "byte list"
  next_sequence :: u64
  chain_hash :: digest
  current_bytes :: u64
  limits :: journal_limits
  journal_lifecycle :: lifecycle
  write_failed :: bool

text \<open>
  What the operating system makes of the writes, the flush and the synchronization of one frame:
  all durable, or a failure after the first \<open>k\<close> bytes reached the file.
\<close>

datatype io_outcome = IoDurable | IoFails nat

definition write_record :: "io_outcome \<Rightarrow> byte list \<Rightarrow> byte list \<Rightarrow> (journal_error + unit) \<times> byte list" where
  "write_record io file bytes =
     (case u32_try_from (length bytes) of
        None \<Rightarrow> (Inl RecordTooLarge, file)
      | Some len \<Rightarrow>
          let frame = u32_to_le_bytes len @ bytes in
          (case io of
             IoDurable \<Rightarrow> (Inr (), file @ frame)
           | IoFails k \<Rightarrow> (Inl (JournalIo ''write or synchronization failed''), file @ take k frame)))"

definition write_durable_record ::
    "io_outcome \<Rightarrow> byte list \<Rightarrow> bool \<Rightarrow> byte list \<Rightarrow> (journal_error + unit) \<times> byte list \<times> bool" where
  "write_durable_record io file failed bytes =
     (if failed then (Inl WriteFailed, file, failed)
      else case write_record io file bytes of
        (Inl e, file) \<Rightarrow> (Inl e, file, True)
      | (Inr u, file) \<Rightarrow> (Inr u, file, False))"

definition next_frame_end :: "journal \<Rightarrow> usize \<Rightarrow> journal_error + u64" where
  "next_frame_end j len =
     and_then (frame_size len) (\<lambda>frame_bytes.
     and_then (ok_or (JournalSizeLimitExceeded (journal_max_bytes (limits j)))
         (checked_add_u64 (current_bytes j) frame_bytes)) (\<lambda>next_bytes.
     and_then (ensure_size_limit next_bytes (limits j)) (\<lambda>_. Inr next_bytes)))"

definition write_next_record ::
    "'h ext \<Rightarrow> io_outcome \<Rightarrow> journal \<Rightarrow> journal_record \<Rightarrow> (journal_error + u64) \<times> journal" where
  "write_next_record E io j r =
     (case and_then (canonical_record_bytes E r) (\<lambda>bytes.
           and_then (next_frame_end j (length bytes)) (\<lambda>next_bytes.
           and_then (lifecycle_validate (journal_lifecycle j) (payload r)) (\<lambda>_.
             Inr (bytes, next_bytes)))) of
        Inl e \<Rightarrow> (Inl e, j)
      | Inr (bytes, next_bytes) \<Rightarrow>
          let (outcome, file, failed) = write_durable_record io (journal_file j) (write_failed j) bytes;
              j = j\<lparr>journal_file := file, write_failed := failed\<rparr>
          in (and_then outcome (\<lambda>_. Inr next_bytes), j))"

definition journal_append ::
    "'h ext \<Rightarrow> io_outcome \<Rightarrow> journal \<Rightarrow> datetime \<Rightarrow> journal_event \<Rightarrow> (journal_error + journal_record) \<times> journal" where
  "journal_append E io j ts ev =
     (if write_failed j then (Inl WriteFailed, j)
      else
        case and_then (ensure_record_limit (next_sequence j) (limits j)) (\<lambda>_.
             and_then (ok_or SequenceOverflow (checked_add_u64 (next_sequence j) 1)) (\<lambda>next_seq.
             and_then (make_journal_record E (next_sequence j) (chain_hash j) ts ev) (\<lambda>r.
               Inr (next_seq, r)))) of
          Inl e \<Rightarrow> (Inl e, j)
        | Inr (next_seq, r) \<Rightarrow>
            (case write_next_record E io j r of
               (Inl e, j) \<Rightarrow> (Inl e, j)
             | (Inr next_bytes, j) \<Rightarrow>
                 (Inr r, j\<lparr>journal_lifecycle := lifecycle_accept (journal_lifecycle j) (payload r),
                    chain_hash := record_hash r, next_sequence := next_seq,
                    current_bytes := next_bytes\<rparr>)))"

text \<open>\<open>create_with_limits\<close> followed by \<open>initialize\<close>, when the new file could be created and written.\<close>

definition initialize :: "'h ext \<Rightarrow> journal_limits \<Rightarrow> journal" where
  "initialize E l = \<lparr>journal_file = journal_magic, next_sequence = 0, chain_hash = of_bytes E [],
     current_bytes = length journal_magic, limits = l, journal_lifecycle = lifecycle_default,
     write_failed = False\<rparr>"

definition create_with_limits :: "'h ext \<Rightarrow> journal_limits \<Rightarrow> journal_error + journal" where
  "create_with_limits E l =
     and_then (ensure_size_limit (length journal_magic) l) (\<lambda>_. Inr (initialize E l))"

section \<open>The reader\<close>

record parsed_journal =
  parsed_records :: "journal_record list"
  terminal_hash :: digest
  parsed_next_sequence :: u64
  valid_bytes :: u64
  trailing_bytes :: u64

record parse_state =
  ps_records :: "journal_record list"
  ps_previous_hash :: digest
  ps_next_sequence :: u64
  ps_valid_bytes :: u64
  ps_trailing_bytes :: u64
  ps_lifecycle :: lifecycle

definition parse_state_new :: "'h ext \<Rightarrow> parse_state" where
  "parse_state_new E = \<lparr>ps_records = [], ps_previous_hash = of_bytes E [], ps_next_sequence = 0,
     ps_valid_bytes = length journal_magic, ps_trailing_bytes = 0, ps_lifecycle = lifecycle_default\<rparr>"

definition parse_record ::
    "'h ext \<Rightarrow> (byte list \<Rightarrow> string + journal_record) \<Rightarrow> byte list \<Rightarrow> journal_error + journal_record" where
  "parse_record E dec frame =
     and_then (map_err InvalidRecord (dec frame)) (\<lambda>r.
     and_then (canonical_record_bytes E r) (\<lambda>bytes.
       if bytes \<noteq> frame then Inl NonCanonicalRecord else Inr r))"

definition push_record :: "'h ext \<Rightarrow> parse_state \<Rightarrow> journal_record \<Rightarrow> usize \<Rightarrow> journal_error + parse_state" where
  "push_record E s r len =
     and_then (validate_record E r (ps_next_sequence s) (ps_previous_hash s)) (\<lambda>_.
     and_then (lifecycle_validate (ps_lifecycle s) (payload r)) (\<lambda>_.
     and_then (ok_or SequenceOverflow (checked_add_u64 (ps_next_sequence s) 1)) (\<lambda>next_seq.
       Inr (s\<lparr>ps_lifecycle := lifecycle_accept (ps_lifecycle s) (payload r),
              ps_valid_bytes := ps_valid_bytes s + (4 + len), ps_previous_hash := record_hash r,
              ps_records := ps_records s @ [r], ps_next_sequence := next_seq\<rparr>))))"

definition accept_frame ::
    "'h ext \<Rightarrow> (byte list \<Rightarrow> string + journal_record) \<Rightarrow> journal_limits \<Rightarrow> parse_state \<Rightarrow> byte list \<Rightarrow>
     journal_error + parse_state" where
  "accept_frame E dec l s frame =
     and_then (ensure_record_limit (ps_next_sequence s) l) (\<lambda>_.
     and_then (parse_record E dec frame) (\<lambda>r. push_record E s r (length frame)))"

text \<open>
  \<open>read_prefix\<close> takes up to four bytes from the reader: no byte ends the journal, one to three are an
  incomplete tail. \<open>read_frame\<close> takes the frame, at most one byte beyond the size limit.
\<close>

definition read_prefix ::
    "journal_limits \<Rightarrow> parse_state \<Rightarrow> byte list \<Rightarrow> journal_error + (parse_state \<times> (u64 \<times> byte list) option)" where
  "read_prefix l s reader =
     (let prefix = take 4 reader in
      if prefix = [] then Inr (s, None)
      else
        and_then (ensure_observed_size (ps_valid_bytes s) (length prefix) l) (\<lambda>prefix_end.
          if length prefix < 4 then Inr (s\<lparr>ps_trailing_bytes := length prefix\<rparr>, None)
          else Inr (s, Some (prefix_end, prefix))))"

definition read_frame ::
    "journal_limits \<Rightarrow> parse_state \<Rightarrow> u64 \<Rightarrow> byte list \<Rightarrow> byte list \<Rightarrow>
     journal_error + (parse_state \<times> byte list option)" where
  "read_frame l s prefix_end prefix reader =
     and_then (frame_length prefix) (\<lambda>len.
       let maximum_read = min (journal_max_bytes l - prefix_end + 1) (u64_bound - 1);
           frame = take (min len maximum_read) reader in
       and_then (ensure_observed_size prefix_end (length frame) l) (\<lambda>_.
         if length frame < len then Inr (s\<lparr>ps_trailing_bytes := 4 + length frame\<rparr>, None)
         else Inr (s, Some frame)))"

definition finish_parse :: "parse_state \<Rightarrow> parsed_journal" where
  "finish_parse s = \<lparr>parsed_records = ps_records s, terminal_hash = ps_previous_hash s,
     parsed_next_sequence = ps_next_sequence s, valid_bytes = ps_valid_bytes s,
     trailing_bytes = ps_trailing_bytes s\<rparr>"

function parse_records ::
    "'h ext \<Rightarrow> (byte list \<Rightarrow> string + journal_record) \<Rightarrow> journal_limits \<Rightarrow> parse_state \<Rightarrow> byte list \<Rightarrow>
     journal_error + parsed_journal" where
  "parse_records E dec l s reader =
     (case read_prefix l s reader of
        Inl e \<Rightarrow> Inl e
      | Inr (s, None) \<Rightarrow> Inr (finish_parse s)
      | Inr (s, Some (prefix_end, prefix)) \<Rightarrow>
          (case read_frame l s prefix_end prefix (drop 4 reader) of
             Inl e \<Rightarrow> Inl e
           | Inr (s, None) \<Rightarrow> Inr (finish_parse s)
           | Inr (s, Some frame) \<Rightarrow>
               (case accept_frame E dec l s frame of
                  Inl e \<Rightarrow> Inl e
                | Inr s \<Rightarrow> parse_records E dec l s (drop (length frame) (drop 4 reader)))))"
  by pat_completeness auto
termination
  by (relation "measure (\<lambda>(E, dec, l, s, reader). length reader)")
     (auto simp: read_prefix_def Let_def res_simps split: if_splits)

declare parse_records.simps [simp del]

definition read_magic :: "byte list \<Rightarrow> journal_error + byte list" where
  "read_magic reader =
     (if take (length journal_magic) reader \<noteq> journal_magic then Inl BadMagic
      else Inr (drop (length journal_magic) reader))"

definition parse_bytes ::
    "'h ext \<Rightarrow> (byte list \<Rightarrow> string + journal_record) \<Rightarrow> byte list \<Rightarrow> journal_limits \<Rightarrow>
     journal_error + parsed_journal" where
  "parse_bytes E dec bytes l =
     and_then (ensure_size_limit (length bytes) l) (\<lambda>_.
     and_then (read_magic bytes) (\<lambda>reader. parse_records E dec l (parse_state_new E) reader))"

definition complete_parse ::
    "'h ext \<Rightarrow> (byte list \<Rightarrow> string + journal_record) \<Rightarrow> byte list \<Rightarrow> journal_limits \<Rightarrow>
     journal_error + parsed_journal" where
  "complete_parse E dec bytes l =
     and_then (parse_bytes E dec bytes l) (\<lambda>parsed.
       if trailing_bytes parsed \<noteq> 0 then Inl IncompleteFrame else Inr parsed)"

text \<open>A snapshot is the list of the records and the terminal hash.\<close>

definition read_with_limits ::
    "'h ext \<Rightarrow> (byte list \<Rightarrow> string + journal_record) \<Rightarrow> byte list \<Rightarrow> journal_limits \<Rightarrow>
     journal_error + (journal_record list \<times> digest)" where
  "read_with_limits E dec bytes l =
     and_then (complete_parse E dec bytes l) (\<lambda>parsed. Inr (parsed_records parsed, terminal_hash parsed))"

definition read_bytes ::
    "'h ext \<Rightarrow> (byte list \<Rightarrow> string + journal_record) \<Rightarrow> byte list \<Rightarrow> journal_limits \<Rightarrow>
     journal_error + (journal_record list \<times> digest)" where
  "read_bytes E dec bytes l =
     and_then (parse_bytes E dec bytes l) (\<lambda>parsed.
       if trailing_bytes parsed \<noteq> 0 then Inl IncompleteFrame
       else Inr (parsed_records parsed, terminal_hash parsed))"

definition verify_with_limits ::
    "'h ext \<Rightarrow> (byte list \<Rightarrow> string + journal_record) \<Rightarrow> byte list \<Rightarrow> digest \<Rightarrow> journal_limits \<Rightarrow>
     journal_error + journal_record list" where
  "verify_with_limits E dec bytes expected l =
     and_then (read_with_limits E dec bytes l) (\<lambda>(records, terminal).
       if terminal \<noteq> expected then Inl TerminalHashMismatch else Inr records)"

definition open_with_limits ::
    "'h ext \<Rightarrow> (byte list \<Rightarrow> string + journal_record) \<Rightarrow> byte list \<Rightarrow> journal_limits \<Rightarrow> journal_error + journal" where
  "open_with_limits E dec bytes l =
     and_then (complete_parse E dec bytes l) (\<lambda>parsed.
     and_then (from_snapshot (map payload (parsed_records parsed))) (\<lambda>lc.
     and_then (require_resumable lc) (\<lambda>_.
       Inr \<lparr>journal_file = bytes, next_sequence = parsed_next_sequence parsed,
         chain_hash = terminal_hash parsed, current_bytes = valid_bytes parsed, limits = l,
         journal_lifecycle = lc, write_failed = False\<rparr>)))"

definition truncate_incomplete_frame :: "byte list \<Rightarrow> u64 \<Rightarrow> u64 \<Rightarrow> byte list" where
  "truncate_incomplete_frame bytes valid trailing = (if trailing = 0 then bytes else take valid bytes)"

text \<open>The recovered writer and the number of removed bytes.\<close>

definition recover_with_limits ::
    "'h ext \<Rightarrow> (byte list \<Rightarrow> string + journal_record) \<Rightarrow> byte list \<Rightarrow> journal_limits \<Rightarrow>
     journal_error + (journal \<times> u64)" where
  "recover_with_limits E dec bytes l =
     and_then (parse_bytes E dec bytes l) (\<lambda>parsed.
     and_then (from_snapshot (map payload (parsed_records parsed))) (\<lambda>lc.
     and_then (validate_recovery lc (trailing_bytes parsed)) (\<lambda>_.
     and_then (open_with_limits E dec
         (truncate_incomplete_frame bytes (valid_bytes parsed) (trailing_bytes parsed)) l) (\<lambda>j.
       Inr (j, trailing_bytes parsed)))))"

section \<open>Frames and chains\<close>

definition record_bytes :: "'h ext \<Rightarrow> journal_record \<Rightarrow> byte list" where
  "record_bytes E r = render E (record_json E r)"

definition frame_of :: "'h ext \<Rightarrow> journal_record \<Rightarrow> byte list" where
  "frame_of E r = u32_to_le_bytes (of_nat (length (record_bytes E r))) @ record_bytes E r"

definition frames :: "'h ext \<Rightarrow> journal_record list \<Rightarrow> byte list" where
  "frames E rs = concat (map (frame_of E) rs)"

definition record_hash_of :: "'h ext \<Rightarrow> u64 \<Rightarrow> datetime \<Rightarrow> digest \<Rightarrow> journal_event \<Rightarrow> digest" where
  "record_hash_of E s t h e = sha256 E (render E (hash_payload_json E (s, t, h, e)))"

fun chain_ok :: "'h ext \<Rightarrow> u64 \<Rightarrow> digest \<Rightarrow> journal_record list \<Rightarrow> bool" where
  "chain_ok E n h [] \<longleftrightarrow> True"
| "chain_ok E n h (r # rs) \<longleftrightarrow> sequence r = n \<and> previous_hash r = h \<and>
     record_hash r = record_hash_of E n (timestamp r) h (payload r) \<and> chain_ok E (Suc n) (record_hash r) rs"

definition chain_end :: "digest \<Rightarrow> journal_record list \<Rightarrow> digest" where
  "chain_end h rs = (if rs = [] then h else record_hash (last rs))"

text \<open>The length of a record fits its frame.\<close>

definition fits_frame :: "'h ext \<Rightarrow> journal_record \<Rightarrow> bool" where
  "fits_frame E r \<longleftrightarrow> record_bytes E r \<noteq> [] \<and> length (record_bytes E r) \<le> max_record_bytes"

lemma canonical_record_bytes_eq [simp]: "canonical_record_bytes E r = Inr (record_bytes E r)"
  by (simp add: canonical_record_bytes_def canonical_json_bytes_def canonical_json_value_def write_bytes
      record_bytes_def)

lemma hash_payload_eq [simp]: "hash_payload E (s, t, h, e) = Inr (record_hash_of E s t h e)"
  by (simp add: hash_payload_def canonical_json_bytes_def canonical_json_value_def write_bytes
      of_bytes_def record_hash_of_def)

lemma chain_ok_append:
  "chain_ok E n h (rs @ qs) \<longleftrightarrow> chain_ok E n h rs \<and> chain_ok E (n + length rs) (chain_end h rs) qs"
  by (induction rs arbitrary: n h) (auto simp: chain_end_def)

lemma chain_end_simps [simp]:
  "chain_end h [] = h" "chain_end h (rs @ [r]) = record_hash r"
  "chain_end h (r # rs) = chain_end (record_hash r) rs"
  by (simp_all add: chain_end_def)

lemma frames_simps [simp]:
  "frames E [] = []" "frames E (r # rs) = frame_of E r @ frames E rs"
  "frames E (rs @ qs) = frames E rs @ frames E qs"
  by (simp_all add: frames_def)

lemma length_frame_of [simp]: "length (frame_of E r) = 4 + length (record_bytes E r)"
  by (simp add: frame_of_def)

lemma unat_frame_length:
  assumes "n \<le> max_record_bytes"
  shows "unat (of_nat n :: 32 word) = n"
  using assms by (simp add: max_record_bytes_def unat_of_nat)

lemma frame_length_frame:
  assumes "fits_frame E r"
  shows "frame_length (u32_to_le_bytes (of_nat (length (record_bytes E r)))) = Inr (length (record_bytes E r))"
  using assms by (simp add: frame_length_def fits_frame_def unat_frame_length Let_def)

lemma frame_length_Inr:
  assumes "frame_length prefix = Inr n" "length prefix = 4"
  shows "prefix = u32_to_le_bytes (of_nat n)" "0 < n" "n \<le> max_record_bytes"
proof -
  have n: "n = unat (u32_from_le_bytes prefix)" "0 < n" "n \<le> max_record_bytes"
    using assms by (auto simp: frame_length_def Let_def split: if_splits)
  then show "0 < n" "n \<le> max_record_bytes" by simp_all
  have "of_nat n = u32_from_le_bytes prefix" using n(1) by simp
  then show "prefix = u32_to_le_bytes (of_nat n)"
    using assms(2) by (simp add: u32_to_from_le_bytes)
qed

lemma ensure_size_limit_Inr_iff [res_simps]:
  "ensure_size_limit b l = Inr u \<longleftrightarrow> b \<le> journal_max_bytes l"
  by (auto simp: ensure_size_limit_def)

lemma ensure_record_limit_Inr_iff [res_simps]:
  "ensure_record_limit n l = Inr u \<longleftrightarrow> n < max_records l"
  by (auto simp: ensure_record_limit_def)

lemma ensure_observed_size_Inr_iff [res_simps]:
  "ensure_observed_size v n l = Inr e \<longleftrightarrow> e = v + n \<and> v + n < u64_bound \<and> v + n \<le> journal_max_bytes l"
  by (auto simp: ensure_observed_size_def res_simps)

lemma validate_record_Inr_iff [res_simps]:
  "validate_record E r n h = Inr u \<longleftrightarrow> sequence r = n \<and> previous_hash r = h \<and>
     record_hash r = record_hash_of E n (timestamp r) h (payload r)"
  by (auto simp: validate_record_def)

lemma push_record_Inr_iff:
  "push_record E s r len = Inr s' \<longleftrightarrow>
     chain_ok E (ps_next_sequence s) (ps_previous_hash s) [r] \<and>
     lifecycle_step (ps_lifecycle s) (payload r) = Inr (ps_lifecycle s') \<and>
     Suc (ps_next_sequence s) < u64_bound \<and>
     s' = s\<lparr>ps_lifecycle := lifecycle_accept (ps_lifecycle s) (payload r),
       ps_valid_bytes := ps_valid_bytes s + (4 + len), ps_previous_hash := record_hash r,
       ps_records := ps_records s @ [r], ps_next_sequence := Suc (ps_next_sequence s)\<rparr>"
  by (auto simp: push_record_def lifecycle_step_def res_simps)

lemma parse_record_Inr_iff:
  "parse_record E dec frame = Inr r \<longleftrightarrow> dec frame = Inr r \<and> frame = record_bytes E r"
  by (auto simp: parse_record_def res_simps)

end
