(* ===== verification/Journal_Chain.thy ===== *)
theory Journal_Chain
  imports Journal Framing
begin

text \<open>
  What the reader of the journal accepts. The loop of \<open>journal/reader.rs\<close> is described by the frames of a
  list of records and an incomplete tail, so that reading a file succeeds exactly when the file is the
  magic, the frames of a well-formed chain of records, and possibly the beginning of one more frame.
\<close>

section \<open>What the reader accepts\<close>

definition limits_ok :: "journal_limits \<Rightarrow> bool" where
  "limits_ok l \<longleftrightarrow> journal_max_bytes l < u64_bound \<and> max_records l < u64_bound"

text \<open>The rest of a file after its last complete frame: nothing, or the beginning of a frame.\<close>

definition torn :: "byte list \<Rightarrow> bool" where
  "torn t \<longleftrightarrow> length t < 4 \<or> (\<exists>n. frame_length (take 4 t) = Inr n \<and> length t < 4 + n)"

lemma ensure_observed_size_Inr:
  assumes "limits_ok l" "v + n \<le> journal_max_bytes l"
  shows "ensure_observed_size v n l = Inr (v + n)"
  using assms by (simp add: ensure_observed_size_Inr_iff limits_ok_def)

lemma ensure_observed_size_Inl:
  assumes "journal_max_bytes l < v + n"
  shows "ensure_observed_size v n l = Inl (JournalSizeLimitExceeded (journal_max_bytes l))"
  using assms by (simp add: ensure_observed_size_def ensure_size_limit_def checked_add_u64_def)

lemma read_prefix_Nil [simp]: "read_prefix l s [] = Inr (s, None)"
  by (simp add: read_prefix_def)

lemma read_prefix_full:
  assumes "4 \<le> length rd"
  shows "read_prefix l s rd =
    and_then (ensure_observed_size (ps_valid_bytes s) 4 l) (\<lambda>pe. Inr (s, Some (pe, take 4 rd)))"
proof -
  have "rd \<noteq> []" "min (length rd) 4 = 4" using assms by auto
  then show ?thesis by (simp add: read_prefix_def Let_def)
qed

text \<open>A frame is read whole, cut short by the end of the file, or refused for its size.\<close>

lemma read_frame_eq:
  assumes "frame_length p = Inr n" "0 < pe" "pe \<le> journal_max_bytes l" "limits_ok l"
  shows "read_frame l s pe p rd =
    (if journal_max_bytes l < pe + min n (length rd)
     then Inl (JournalSizeLimitExceeded (journal_max_bytes l))
     else if length rd < n then Inr (s\<lparr>ps_trailing_bytes := 4 + length rd\<rparr>, None)
     else Inr (s, Some (take n rd)))"
proof -
  define m where "m = min (journal_max_bytes l - pe + 1) (u64_bound - 1)"
  have m: "m = journal_max_bytes l - pe + 1"
    using assms by (auto simp: m_def limits_ok_def min_def)
  have eq: "read_frame l s pe p rd =
      and_then (ensure_observed_size pe (length (take (min n m) rd)) l) (\<lambda>_.
        if length (take (min n m) rd) < n
        then Inr (s\<lparr>ps_trailing_bytes := 4 + length (take (min n m) rd)\<rparr>, None)
        else Inr (s, Some (take (min n m) rd)))"
    by (simp add: read_frame_def assms(1) m_def Let_def)
  show ?thesis
  proof (cases "journal_max_bytes l < pe + min n (length rd)")
    case True
    then have "journal_max_bytes l < pe + length (take (min n m) rd)"
      using m assms(3) unfolding length_take by linarith
    then show ?thesis using True by (simp add: eq ensure_observed_size_Inl)
  next
    case False
    then have "min n (length rd) < m" using m assms(3) by linarith
    then have "take (min n m) rd = take n rd" by (cases "n \<le> m") (auto simp: min_def split: if_splits)
    moreover have "pe + length (take n rd) \<le> journal_max_bytes l"
      using False by (simp add: min.commute)
    ultimately show ?thesis
      using False assms(4) by (auto simp: eq ensure_observed_size_Inr min_def)
  qed
qed

lemma read_frame_None_iff:
  assumes "0 < pe" "pe \<le> journal_max_bytes l" "limits_ok l"
  shows "read_frame l s pe p rd = Inr (s', None) \<longleftrightarrow>
    (\<exists>n. frame_length p = Inr n \<and> length rd < n) \<and> pe + length rd \<le> journal_max_bytes l \<and>
    s' = s\<lparr>ps_trailing_bytes := 4 + length rd\<rparr>"
  using assms by (cases "frame_length p") (auto simp: read_frame_eq, auto simp: read_frame_def)

lemma read_frame_Some_iff:
  assumes "0 < pe" "pe \<le> journal_max_bytes l" "limits_ok l"
  shows "read_frame l s pe p rd = Inr (s', Some f) \<longleftrightarrow>
    (\<exists>n. frame_length p = Inr n \<and> n \<le> length rd \<and> f = take n rd \<and> pe + n \<le> journal_max_bytes l) \<and> s' = s"
  using assms by (cases "frame_length p") (auto simp: read_frame_eq, auto simp: read_frame_def)

text \<open>The state of the reader after one more record.\<close>

definition pushed :: "'h ext \<Rightarrow> parse_state \<Rightarrow> journal_record \<Rightarrow> parse_state" where
  "pushed E s r = s\<lparr>ps_lifecycle := lifecycle_accept (ps_lifecycle s) (payload r),
     ps_valid_bytes := ps_valid_bytes s + length (frame_of E r), ps_previous_hash := record_hash r,
     ps_records := ps_records s @ [r], ps_next_sequence := Suc (ps_next_sequence s)\<rparr>"

fun readable :: "'h ext \<Rightarrow> (byte list \<Rightarrow> string + journal_record) \<Rightarrow> journal_limits \<Rightarrow> parse_state \<Rightarrow>
    journal_record list \<Rightarrow> byte list \<Rightarrow> bool" where
  "readable E dec l s [] t \<longleftrightarrow> torn t \<and> ps_valid_bytes s + length t \<le> journal_max_bytes l"
| "readable E dec l s (r # rs) t \<longleftrightarrow>
     fits_frame E r \<and> dec (record_bytes E r) = Inr r \<and>
     ps_valid_bytes s + length (frame_of E r) \<le> journal_max_bytes l \<and> ps_next_sequence s < max_records l \<and>
     chain_ok E (ps_next_sequence s) (ps_previous_hash s) [r] \<and>
     lifecycle_validate (ps_lifecycle s) (payload r) = Inr () \<and> readable E dec l (pushed E s r) rs t"

definition parse_end :: "'h ext \<Rightarrow> parse_state \<Rightarrow> journal_record list \<Rightarrow> byte list \<Rightarrow> parsed_journal" where
  "parse_end E s rs t = finish_parse ((foldl (pushed E) s rs)\<lparr>ps_trailing_bytes := length t\<rparr>)"

lemma take_4_frame [simp]: "take 4 (frame_of E r) = u32_to_le_bytes (of_nat (length (record_bytes E r)))"
  "drop 4 (frame_of E r) = record_bytes E r"
  by (simp_all add: frame_of_def)

lemma accept_frame_iff:
  assumes "limits_ok l"
  shows "accept_frame E dec l s f = Inr s' \<longleftrightarrow> (\<exists>r. f = record_bytes E r \<and> dec f = Inr r \<and>
     ps_next_sequence s < max_records l \<and> chain_ok E (ps_next_sequence s) (ps_previous_hash s) [r] \<and>
     lifecycle_validate (ps_lifecycle s) (payload r) = Inr () \<and> s' = pushed E s r)"
  using assms
  by (auto simp: accept_frame_def parse_record_Inr_iff push_record_Inr_iff pushed_def lifecycle_step_def
      res_simps limits_ok_def)

lemma parse_prefix_nonempty [simp]: "u32_to_le_bytes w \<noteq> []"
  by (simp add: u32_to_le_bytes_def)

lemma parse_records_frame:
  assumes "limits_ok l" "readable E dec l s (r # rs) t" "0 < ps_valid_bytes s"
  shows "parse_records E dec l s (frame_of E r @ rest) = parse_records E dec l (pushed E s r) rest"
proof -
  let ?pe = "ps_valid_bytes s + 4" and ?p = "u32_to_le_bytes (of_nat (length (record_bytes E r)))"
  have "read_prefix l s (frame_of E r @ rest) = Inr (s, Some (?pe, ?p))"
    using assms by (simp add: read_prefix_full ensure_observed_size_Inr)
  moreover have "read_frame l s ?pe ?p (record_bytes E r @ rest) = Inr (s, Some (record_bytes E r))"
    using assms by (subst read_frame_Some_iff) (auto simp: frame_length_frame)
  moreover have "accept_frame E dec l s (record_bytes E r) = Inr (pushed E s r)"
    using assms by (auto simp: accept_frame_iff)
  ultimately show ?thesis
    by (simp add: parse_records.simps [of _ _ _ _ "frame_of E r @ rest"])
qed

lemma parse_records_torn:
  assumes "limits_ok l" "torn t" "0 < ps_valid_bytes s" "ps_valid_bytes s + length t \<le> journal_max_bytes l"
    "ps_trailing_bytes s = 0"
  shows "parse_records E dec l s t = Inr (finish_parse (s\<lparr>ps_trailing_bytes := length t\<rparr>))"
proof (cases "length t < 4")
  case True
  then show ?thesis
    using assms by (cases "t = []")
      (auto simp: parse_records.simps [of _ _ _ s] read_prefix_def ensure_observed_size_Inr finish_parse_def Let_def)
next
  case False
  let ?pe = "ps_valid_bytes s + 4"
  have "read_prefix l s t = Inr (s, Some (?pe, take 4 t))"
    using assms False by (auto simp: read_prefix_full ensure_observed_size_Inr)
  moreover have "read_frame l s ?pe (take 4 t) (drop 4 t) = Inr (s\<lparr>ps_trailing_bytes := length t\<rparr>, None)"
    using assms False by (subst read_frame_None_iff) (auto simp: torn_def)
  ultimately show ?thesis
    by (simp add: parse_records.simps [of _ _ _ _ t])
qed

lemma parse_records_complete:
  assumes "limits_ok l" "readable E dec l s rs t" "0 < ps_valid_bytes s" "ps_trailing_bytes s = 0"
  shows "parse_records E dec l s (frames E rs @ t) = Inr (parse_end E s rs t)"
  using assms
proof (induction rs arbitrary: s)
  case Nil
  then show ?case by (simp add: parse_records_torn parse_end_def)
next
  case (Cons r rs)
  have "parse_records E dec l s (frame_of E r @ frames E rs @ t) =
      parse_records E dec l (pushed E s r) (frames E rs @ t)"
    using Cons.prems by (intro parse_records_frame) auto
  also have "\<dots> = Inr (parse_end E (pushed E s r) rs t)"
    using Cons.prems by (intro Cons.IH) (auto simp: pushed_def)
  finally show ?case by (simp add: parse_end_def)
qed

text \<open>One turn of the loop: it stops at an incomplete tail, or takes the frame of one record.\<close>

lemma parse_records_turn:
  assumes ok: "limits_ok l" "parse_records E dec l s reader = Inr p" "0 < ps_valid_bytes s"
    and valid: "ps_valid_bytes s \<le> journal_max_bytes l"
  shows "torn reader \<and> ps_valid_bytes s + length reader \<le> journal_max_bytes l \<or>
    (\<exists>r rest. reader = frame_of E r @ rest \<and> fits_frame E r \<and> dec (record_bytes E r) = Inr r \<and>
      ps_valid_bytes s + length (frame_of E r) \<le> journal_max_bytes l \<and> ps_next_sequence s < max_records l \<and>
      chain_ok E (ps_next_sequence s) (ps_previous_hash s) [r] \<and>
      lifecycle_validate (ps_lifecycle s) (payload r) = Inr () \<and>
      parse_records E dec l (pushed E s r) rest = Inr p)"
proof (cases "length reader < 4")
  case True
  have "ps_valid_bytes s + length reader \<le> journal_max_bytes l"
  proof (rule ccontr)
    assume big: "\<not> ?thesis"
    then have "reader \<noteq> []" using valid by auto
    moreover have "ensure_observed_size (ps_valid_bytes s) (length reader) l =
        Inl (JournalSizeLimitExceeded (journal_max_bytes l))"
      using big by (intro ensure_observed_size_Inl) simp
    ultimately have "read_prefix l s reader = Inl (JournalSizeLimitExceeded (journal_max_bytes l))"
      using True by (simp add: read_prefix_def Let_def)
    then show False using ok(2) by (simp add: parse_records.simps [of _ _ _ _ reader])
  qed
  then show ?thesis using True by (simp add: torn_def)
next
  case False
  let ?pe = "ps_valid_bytes s + 4" and ?rd = "drop 4 reader"
  have pe: "?pe \<le> journal_max_bytes l"
  proof (rule ccontr)
    assume "\<not> ?thesis"
    then have "ensure_observed_size (ps_valid_bytes s) 4 l = Inl (JournalSizeLimitExceeded (journal_max_bytes l))"
      by (intro ensure_observed_size_Inl) simp
    then show False
      using ok(2) False by (simp add: parse_records.simps [of _ _ _ _ reader] read_prefix_full)
  qed
  then have "read_prefix l s reader = Inr (s, Some (?pe, take 4 reader))"
    using ok False by (simp add: read_prefix_full ensure_observed_size_Inr)
  note run = parse_records.simps [of E dec l s reader, unfolded this, simplified, unfolded ok(2), symmetric]
  obtain x where x: "read_frame l s ?pe (take 4 reader) ?rd = Inr x"
    using run by (cases "read_frame l s ?pe (take 4 reader) ?rd") simp_all
  show ?thesis
  proof (cases "snd x")
    case None
    then have "read_frame l s ?pe (take 4 reader) ?rd = Inr (fst x, None)"
      using x by (metis prod.collapse)
    then show ?thesis
      using ok pe False by (auto simp: read_frame_None_iff torn_def)
  next
    case (Some f)
    then have fr: "read_frame l s ?pe (take 4 reader) ?rd = Inr (fst x, Some f)"
      using x by (metis prod.collapse)
    then obtain n where n: "frame_length (take 4 reader) = Inr n" "n \<le> length ?rd" "f = take n ?rd"
      "?pe + n \<le> journal_max_bytes l" "fst x = s"
      using ok pe by (auto simp: read_frame_Some_iff)
    then obtain s2 where s2: "accept_frame E dec l s f = Inr s2"
      "parse_records E dec l s2 (drop (length f) ?rd) = Inr p"
      using run fr by (cases "accept_frame E dec l s f") simp_all
    then obtain r where r: "f = record_bytes E r" "dec f = Inr r" "ps_next_sequence s < max_records l"
      "chain_ok E (ps_next_sequence s) (ps_previous_hash s) [r]"
      "lifecycle_validate (ps_lifecycle s) (payload r) = Inr ()" "s2 = pushed E s r"
      using ok(1) by (auto simp: accept_frame_iff)
    have n': "n = length f" "0 < n" "n \<le> max_record_bytes" "take 4 reader = u32_to_le_bytes (of_nat n)"
      using n frame_length_Inr [OF n(1)] False by simp_all
    have "reader = take 4 reader @ f @ drop (length f) ?rd"
      using n(3) n'(1) by (metis append_take_drop_id)
    then have "reader = frame_of E r @ drop (length f) ?rd"
      using n' r(1) by (simp add: frame_of_def)
    moreover have "fits_frame E r"
      using n' r(1) by (auto simp: fits_frame_def)
    ultimately show ?thesis
      using r s2(2) n(4) n'(1) by (intro disjI2 exI [of _ r] exI [of _ "drop (length f) ?rd"]) simp
  qed
qed

lemma parse_records_sound:
  assumes "limits_ok l" "parse_records E dec l s reader = Inr p" "0 < ps_valid_bytes s"
    "ps_valid_bytes s \<le> journal_max_bytes l"
  shows "\<exists>rs t. reader = frames E rs @ t \<and> readable E dec l s rs t"
  using assms(2-)
proof (induction "length reader" arbitrary: reader s rule: less_induct)
  case less
  from parse_records_turn [OF assms(1) less.prems] show ?case
  proof (elim disjE exE conjE)
    assume "torn reader" "ps_valid_bytes s + length reader \<le> journal_max_bytes l"
    then have "reader = frames E [] @ reader \<and> readable E dec l s [] reader" by simp
    then show ?case by blast
  next
    fix r rest
    assume step: "reader = frame_of E r @ rest" "parse_records E dec l (pushed E s r) rest = Inr p"
      and r: "fits_frame E r" "dec (record_bytes E r) = Inr r"
        "ps_valid_bytes s + length (frame_of E r) \<le> journal_max_bytes l" "ps_next_sequence s < max_records l"
        "chain_ok E (ps_next_sequence s) (ps_previous_hash s) [r]"
        "lifecycle_validate (ps_lifecycle s) (payload r) = Inr ()"
    have "\<exists>rs t. rest = frames E rs @ t \<and> readable E dec l (pushed E s r) rs t"
      using step(1) r(3) by (intro less.hyps step(2)) (simp_all add: pushed_def)
    then obtain rs t where "rest = frames E rs @ t" "readable E dec l (pushed E s r) rs t" by blast
    then have "reader = frames E (r # rs) @ t \<and> readable E dec l s (r # rs) t"
      using step(1) r by simp
    then show ?case by blast
  qed
qed

lemma lifecycle_step_Inr_iff:
  "lifecycle_step c e = Inr c' \<longleftrightarrow> lifecycle_validate c e = Inr () \<and> c' = lifecycle_accept c e"
  by (auto simp: lifecycle_step_def res_simps)

lemma readable_iff:
  "readable E dec l s rs t \<longleftrightarrow>
     chain_ok E (ps_next_sequence s) (ps_previous_hash s) rs \<and>
     (\<exists>c. try_fold lifecycle_step (ps_lifecycle s) (map payload rs) = Inr c) \<and>
     (\<forall>r\<in>set rs. fits_frame E r \<and> dec (record_bytes E r) = Inr r) \<and>
     (rs = [] \<or> ps_next_sequence s + length rs \<le> max_records l) \<and>
     torn t \<and> ps_valid_bytes s + length (frames E rs @ t) \<le> journal_max_bytes l"
proof (induction rs arbitrary: s)
  case (Cons r rs)
  show ?case
    unfolding readable.simps Cons.IH
    by (auto simp: pushed_def and_then_Inr_iff lifecycle_step_Inr_iff add.assoc)
qed simp

lemma foldl_pushed:
  "ps_records (foldl (pushed E) s rs) = ps_records s @ rs"
  "ps_previous_hash (foldl (pushed E) s rs) = chain_end (ps_previous_hash s) rs"
  "ps_next_sequence (foldl (pushed E) s rs) = ps_next_sequence s + length rs"
  "ps_valid_bytes (foldl (pushed E) s rs) = ps_valid_bytes s + length (frames E rs)"
  by (induction rs arbitrary: s) (simp_all add: pushed_def)

text \<open>The bytes of a journal with the records \<open>rs\<close>, and when such a file is well formed.\<close>

definition journal_bytes :: "'h ext \<Rightarrow> journal_record list \<Rightarrow> byte list" where
  "journal_bytes E rs = journal_magic @ frames E rs"

definition genesis :: "'h ext \<Rightarrow> digest" where
  "genesis E = of_bytes E []"

definition journal_ok :: "'h ext \<Rightarrow> journal_limits \<Rightarrow> journal_record list \<Rightarrow> bool" where
  "journal_ok E l rs \<longleftrightarrow> chain_ok E 0 (genesis E) rs \<and> (\<exists>c. from_snapshot (map payload rs) = Inr c) \<and>
     (\<forall>r\<in>set rs. fits_frame E r) \<and> length rs \<le> max_records l \<and>
     length (journal_bytes E rs) \<le> journal_max_bytes l"

definition parsed_of :: "'h ext \<Rightarrow> journal_record list \<Rightarrow> byte list \<Rightarrow> parsed_journal" where
  "parsed_of E rs t = \<lparr>parsed_records = rs, terminal_hash = chain_end (genesis E) rs,
     parsed_next_sequence = length rs, valid_bytes = length (journal_bytes E rs),
     trailing_bytes = length t\<rparr>"

lemma magic_length: "0 < length journal_magic"
  by (simp add: journal_magic_def)

lemma readable_new_iff:
  assumes "length (journal_bytes E rs @ t) \<le> journal_max_bytes l"
  shows "readable E dec l (parse_state_new E) rs t \<longleftrightarrow>
    journal_ok E l rs \<and> (\<forall>r\<in>set rs. dec (record_bytes E r) = Inr r) \<and> torn t"
  using assms
  by (auto simp: readable_iff parse_state_new_def journal_ok_def from_snapshot_def genesis_def journal_bytes_def)

lemma parse_end_new: "parse_end E (parse_state_new E) rs t = parsed_of E rs t"
  by (simp add: parse_end_def finish_parse_def foldl_pushed parsed_of_def parse_state_new_def genesis_def
      journal_bytes_def)

lemma parse_bytes_complete:
  assumes "limits_ok l" "journal_ok E l rs" "\<forall>r\<in>set rs. dec (record_bytes E r) = Inr r" "torn t"
    "length (journal_bytes E rs @ t) \<le> journal_max_bytes l"
  shows "parse_bytes E dec (journal_bytes E rs @ t) l = Inr (parsed_of E rs t)"
proof -
  have "parse_records E dec l (parse_state_new E) (frames E rs @ t) = Inr (parsed_of E rs t)"
    using assms parse_records_complete [of l E dec "parse_state_new E" rs t] magic_length
    by (simp add: readable_new_iff parse_end_new) (simp add: parse_state_new_def)
  moreover have "ensure_size_limit (length (journal_bytes E rs @ t)) l = Inr ()"
    using assms(5) by (simp add: ensure_size_limit_Inr_iff)
  ultimately show ?thesis
    by (simp add: parse_bytes_def read_magic_def journal_bytes_def)
qed

lemma parse_bytes_sound:
  assumes "limits_ok l" "parse_bytes E dec bytes l = Inr p"
  shows "\<exists>rs t. bytes = journal_bytes E rs @ t \<and> torn t \<and> journal_ok E l rs \<and>
    (\<forall>r\<in>set rs. dec (record_bytes E r) = Inr r) \<and> length bytes \<le> journal_max_bytes l"
proof -
  have len: "length bytes \<le> journal_max_bytes l" and magic: "take (length journal_magic) bytes = journal_magic"
    and rec: "parse_records E dec l (parse_state_new E) (drop (length journal_magic) bytes) = Inr p"
    using assms(2) by (auto simp: parse_bytes_def read_magic_def res_simps split: if_splits)
  have magic': "bytes = journal_magic @ drop (length journal_magic) bytes"
    using magic by (metis append_take_drop_id)
  then have "length journal_magic \<le> journal_max_bytes l"
    using len by (metis length_append le_add1 le_trans)
  then obtain rs t where rs: "drop (length journal_magic) bytes = frames E rs @ t"
    "readable E dec l (parse_state_new E) rs t"
    using parse_records_sound [OF assms(1) rec] magic_length by (auto simp: parse_state_new_def)
  then have bytes: "bytes = journal_bytes E rs @ t"
    using magic' by (simp add: journal_bytes_def)
  then show ?thesis
    using rs(2) len readable_new_iff by blast
qed

lemma torn_Nil [simp]: "torn []"
  by (simp add: torn_def)

lemma parse_bytes_Inr_iff:
  assumes "limits_ok l"
  shows "parse_bytes E dec bytes l = Inr p \<longleftrightarrow>
    (\<exists>rs t. bytes = journal_bytes E rs @ t \<and> torn t \<and> journal_ok E l rs \<and>
       (\<forall>r\<in>set rs. dec (record_bytes E r) = Inr r) \<and> length bytes \<le> journal_max_bytes l \<and>
       p = parsed_of E rs t)"
proof
  assume p: "parse_bytes E dec bytes l = Inr p"
  from parse_bytes_sound [OF assms p] obtain rs t where
    rs: "bytes = journal_bytes E rs @ t" "torn t" "journal_ok E l rs"
      "\<forall>r\<in>set rs. dec (record_bytes E r) = Inr r" "length bytes \<le> journal_max_bytes l"
    by blast
  then have "p = parsed_of E rs t"
    using p parse_bytes_complete [OF assms rs(3,4,2)] by simp
  with rs show "\<exists>rs t. bytes = journal_bytes E rs @ t \<and> torn t \<and> journal_ok E l rs \<and>
       (\<forall>r\<in>set rs. dec (record_bytes E r) = Inr r) \<and> length bytes \<le> journal_max_bytes l \<and> p = parsed_of E rs t"
    by blast
qed (auto intro: parse_bytes_complete [OF assms])

lemma complete_parse_eq:
  assumes "limits_ok l" "journal_ok E l rs" "\<forall>r\<in>set rs. dec (record_bytes E r) = Inr r"
  shows "complete_parse E dec (journal_bytes E rs) l = Inr (parsed_of E rs [])"
proof -
  have "parse_bytes E dec (journal_bytes E rs @ []) l = Inr (parsed_of E rs [])"
    using assms by (intro parse_bytes_complete) (simp_all add: journal_ok_def)
  then show ?thesis by (simp add: complete_parse_def parsed_of_def)
qed

lemma complete_parse_sound:
  assumes "limits_ok l" "complete_parse E dec bytes l = Inr p"
  shows "\<exists>rs. bytes = journal_bytes E rs \<and> journal_ok E l rs \<and>
    (\<forall>r\<in>set rs. dec (record_bytes E r) = Inr r) \<and> p = parsed_of E rs []"
proof -
  have "parse_bytes E dec bytes l = Inr p" and t: "trailing_bytes p = 0"
    using assms(2) by (auto simp: complete_parse_def and_then_Inr_iff split: if_splits)
  then obtain rs t where rs: "bytes = journal_bytes E rs @ t" "journal_ok E l rs"
    "\<forall>r\<in>set rs. dec (record_bytes E r) = Inr r" "p = parsed_of E rs t"
    using parse_bytes_Inr_iff [OF assms(1)] by blast
  moreover have "t = []" using t rs(4) by (simp add: parsed_of_def)
  ultimately show ?thesis by auto
qed

lemma verify_with_limits_Inr_iff:
  assumes "limits_ok l"
  shows "verify_with_limits E dec bytes h l = Inr rs \<longleftrightarrow>
    bytes = journal_bytes E rs \<and> journal_ok E l rs \<and> (\<forall>r\<in>set rs. dec (record_bytes E r) = Inr r) \<and>
    h = chain_end (genesis E) rs"
proof
  assume v: "verify_with_limits E dec bytes h l = Inr rs"
  then obtain p where p: "complete_parse E dec bytes l = Inr p" "h = terminal_hash p" "rs = parsed_records p"
    by (auto simp: verify_with_limits_def read_with_limits_def and_then_Inr_iff split: if_splits)
  from complete_parse_sound [OF assms p(1)] p(2,3)
  show "bytes = journal_bytes E rs \<and> journal_ok E l rs \<and> (\<forall>r\<in>set rs. dec (record_bytes E r) = Inr r) \<and>
      h = chain_end (genesis E) rs"
    by (auto simp: parsed_of_def)
next
  assume "bytes = journal_bytes E rs \<and> journal_ok E l rs \<and> (\<forall>r\<in>set rs. dec (record_bytes E r) = Inr r) \<and>
    h = chain_end (genesis E) rs"
  then show "verify_with_limits E dec bytes h l = Inr rs"
    using complete_parse_eq [OF assms, of E rs dec] by (simp add: verify_with_limits_def read_with_limits_def parsed_of_def)
qed

end
