(* ===== verification/Journal_Safety.thy ===== *)
theory Journal_Safety
  imports Journal_Chain
begin

text \<open>
  What the journal promises to the code around it: the terminal hash seals the whole file, an acknowledged
  append is never lost, what was written is read back, and an append interrupted by a crash happens either
  completely or not at all.
\<close>

section \<open>The chain determines the records\<close>

lemma action_status_text_inj [simp]: "action_status_text a = action_status_text b \<longleftrightarrow> a = b"
  by (cases a; cases b) simp_all

lemma event_json_inj:
  assumes "uuid_contract E" "event_json E a = event_json E b"
  shows "a = b"
proof -
  have eq: "vals k (concat (event_fields E a)) = vals k (concat (event_fields E b))" for k
    using assms(2) unfolding event_json_def by (rule obj_eq_vals)
  show ?thesis
    using assms(1) eq [of "''event''"] eq [of "''plan_id''"] eq [of "''plan_digest''"] eq [of "''action_id''"]
      eq [of "''pre_state_digest''"] eq [of "''status''"] eq [of "''receipt_digest''"]
      eq [of "''result_id''"] eq [of "''result_digest''"]
    by (cases a; cases b) (simp_all add: juuid_inj)
qed

lemma event_json_ok [simp]: "jvalue_ok (event_json E e)"
  unfolding event_json_def
proof (cases e)
  case (PlanApproved p d)
  show "jvalue_ok (obj (event_fields E e))"
    unfolding PlanApproved
    by (rule obj_ok [of "[''event'', ''plan_id'', ''plan_digest'']"]) simp_all
next
  case (ActionStarted a d)
  show "jvalue_ok (obj (event_fields E e))"
    unfolding ActionStarted
    by (rule obj_ok [of "[''event'', ''action_id'', ''pre_state_digest'']"]) simp_all
next
  case (ActionFinished a s d)
  show "jvalue_ok (obj (event_fields E e))"
    unfolding ActionFinished
    by (rule obj_ok [of "[''event'', ''action_id'', ''status'', ''receipt_digest'']"]) simp_all
next
  case (RunFinished r d)
  show "jvalue_ok (obj (event_fields E e))"
    unfolding RunFinished
    by (rule obj_ok [of "[''event'', ''result_id'', ''result_digest'']"]) simp_all
qed

definition hash_input :: "'h ext \<Rightarrow> journal_record \<Rightarrow> byte list" where
  "hash_input E r = render E (hash_payload_json E (sequence r, timestamp r, previous_hash r, payload r))"

text \<open>SHA-256 has no collision among the inputs that the two chains hash.\<close>

definition chain_collision_free :: "'h ext \<Rightarrow> journal_record list \<Rightarrow> journal_record list \<Rightarrow> bool" where
  "chain_collision_free E rs qs \<longleftrightarrow> inj_on (sha256 E) (insert [] (hash_input E ` set (rs @ qs)))"

lemma render_inj:
  assumes "string_contract E" "number_contract E" "jvalue_ok v" "jvalue_ok w" "render E v = render E w"
  shows "v = w"
  using cancelsD [OF render_cancels [OF assms(1,2)], of v "[]" w "[]"] assms(3-) by simp

lemma hash_input_inj:
  assumes "string_contract E" "number_contract E" "uuid_contract E" "time_contract E"
    and "sequence r < u64_bound" "sequence q < u64_bound" "hash_input E r = hash_input E q"
  shows "sequence r = sequence q \<and> timestamp r = timestamp q \<and> previous_hash r = previous_hash q \<and>
    payload r = payload q"
proof -
  have "hash_payload_json E (sequence r, timestamp r, previous_hash r, payload r) =
      hash_payload_json E (sequence q, timestamp q, previous_hash q, payload q)"
    using assms(5-) unfolding hash_input_def
    by (intro render_inj [OF assms(1,2)]) (simp_all add: hash_payload_json_def)
  then show ?thesis
    using assms(3,4) by (auto simp: hash_payload_json_def jtime_inj dest: event_json_inj)
qed

lemma hash_input_nonempty: "hash_input E r \<noteq> []"
  by (simp add: hash_input_def hash_payload_json_def render_simps)

lemma chain_ok_last:
  assumes "chain_ok E n h (rs @ [r])"
  shows "chain_ok E n h rs" "sequence r = n + length rs" "previous_hash r = chain_end h rs"
    "record_hash r = sha256 E (hash_input E r)"
  using assms by (simp_all add: chain_ok_append record_hash_of_def hash_input_def)

lemma chain_unique:
  assumes contracts: "string_contract E" "number_contract E" "uuid_contract E" "time_contract E"
    and "inj_on (sha256 E) I" "[] \<in> I"
  shows "chain_ok E 0 (genesis E) rs \<Longrightarrow> chain_ok E 0 (genesis E) qs \<Longrightarrow>
    hash_input E ` set rs \<subseteq> I \<Longrightarrow> hash_input E ` set qs \<subseteq> I \<Longrightarrow>
    length rs < u64_bound \<Longrightarrow> length qs < u64_bound \<Longrightarrow>
    chain_end (genesis E) rs = chain_end (genesis E) qs \<Longrightarrow> rs = qs"
proof (induction rs arbitrary: qs rule: rev_induct)
  case Nil
  show ?case
  proof (cases qs rule: rev_cases)
    case (snoc ps q)
    then have "sha256 E [] = sha256 E (hash_input E q)"
      using Nil.prems chain_ok_last(4) [of E 0 "genesis E" ps q] by (simp add: genesis_def of_bytes_def)
    then have "[] = hash_input E q"
      using Nil.prems(4) snoc assms(5,6) by (auto dest: inj_onD)
    then show ?thesis using hash_input_nonempty by metis
  qed simp
next
  case (snoc r rs)
  have r: "chain_ok E 0 (genesis E) rs" "sequence r = length rs" "previous_hash r = chain_end (genesis E) rs"
    "record_hash r = sha256 E (hash_input E r)"
    using chain_ok_last [OF snoc.prems(1)] by simp_all
  show ?case
  proof (cases qs rule: rev_cases)
    case Nil
    then have "sha256 E [] = sha256 E (hash_input E r)"
      using snoc.prems r by (simp add: genesis_def of_bytes_def)
    then have "[] = hash_input E r"
      using snoc.prems(3) assms(5,6) by (auto dest: inj_onD)
    then show ?thesis using hash_input_nonempty by metis
  next
    case (snoc ps q)
    have q: "chain_ok E 0 (genesis E) ps" "sequence q = length ps" "previous_hash q = chain_end (genesis E) ps"
      "record_hash q = sha256 E (hash_input E q)"
      using chain_ok_last [OF snoc.prems(2) [unfolded snoc]] by simp_all
    have "sha256 E (hash_input E r) = sha256 E (hash_input E q)"
      using snoc.prems(7) snoc r(4) q(4) by simp
    then have "hash_input E r = hash_input E q"
      using snoc.prems(3,4) snoc assms(5) by (auto dest: inj_onD)
    then have same: "sequence r = sequence q" "timestamp r = timestamp q" "previous_hash r = previous_hash q"
      "payload r = payload q" "record_hash r = record_hash q"
      using hash_input_inj [OF contracts, of r q] snoc.prems(5,6) snoc r q by simp_all
    have "rs = ps"
      using snoc.prems snoc r q same(3) by (intro snoc.IH) auto
    with same show ?thesis using snoc by simp
  qed
qed

lemma sealed_journal:
  assumes "string_contract E" "number_contract E" "uuid_contract E" "time_contract E"
    and "limits_ok l" "limits_ok m"
    and "verify_with_limits E dec bytes h l = Inr rs" "verify_with_limits E dec' bytes' h m = Inr qs"
    and "chain_collision_free E rs qs"
  shows "bytes' = bytes \<and> qs = rs"
proof -
  have rs: "bytes = journal_bytes E rs" "chain_ok E 0 (genesis E) rs" "h = chain_end (genesis E) rs"
      "length rs < u64_bound"
    and qs: "bytes' = journal_bytes E qs" "chain_ok E 0 (genesis E) qs" "h = chain_end (genesis E) qs"
      "length qs < u64_bound"
    using assms(5-8) by (auto simp: verify_with_limits_Inr_iff journal_ok_def limits_ok_def)
  have "rs = qs"
    by (rule chain_unique [OF assms(1-4), of "insert [] (hash_input E ` set (rs @ qs))"])
       (use assms(9) rs qs in \<open>auto simp: chain_collision_free_def\<close>)
  with rs qs show ?thesis by simp
qed

text \<open>
  C23: the terminal hash seals a journal. When two files verify against the same terminal hash and
  SHA-256 has no collision among the record payloads that they hash, the two files are the same bytes,
  so no record was changed, removed, added or reordered.
\<close>

theorem journal_tamper_evident:
  assumes "string_contract E" "number_contract E" "uuid_contract E" "time_contract E"
    and "limits_ok l" "limits_ok m"
    and "verify_with_limits E dec bytes h l = Inr rs" "verify_with_limits E dec' bytes' h m = Inr qs"
    and "chain_collision_free E rs qs"
  shows "bytes' = bytes \<and> qs = rs"
  using assms by (rule sealed_journal)

section \<open>The writer\<close>

text \<open>The writer that holds the records \<open>rs\<close> and has not failed.\<close>

definition writer :: "'h ext \<Rightarrow> journal_limits \<Rightarrow> journal_record list \<Rightarrow> lifecycle \<Rightarrow> journal" where
  "writer E l rs c = \<lparr>journal_file = journal_bytes E rs, next_sequence = length rs,
     chain_hash = chain_end (genesis E) rs, current_bytes = length (journal_bytes E rs), limits = l,
     journal_lifecycle = c, write_failed = False\<rparr>"

lemma writer_simps [simp]:
  "journal_file (writer E l rs c) = journal_bytes E rs" "next_sequence (writer E l rs c) = length rs"
  "chain_hash (writer E l rs c) = chain_end (genesis E) rs"
  "current_bytes (writer E l rs c) = length (journal_bytes E rs)" "limits (writer E l rs c) = l"
  "journal_lifecycle (writer E l rs c) = c" "write_failed (writer E l rs c) = False"
  by (simp_all add: writer_def)

definition next_record :: "'h ext \<Rightarrow> journal_record list \<Rightarrow> datetime \<Rightarrow> journal_event \<Rightarrow> journal_record" where
  "next_record E rs ts ev = \<lparr>sequence = length rs, timestamp = ts, previous_hash = chain_end (genesis E) rs,
     payload = ev, record_hash = record_hash_of E (length rs) ts (chain_end (genesis E) rs) ev\<rparr>"

lemma journal_ok_snoc:
  assumes "journal_ok E l rs" "from_snapshot (map payload rs) = Inr c"
  shows "journal_ok E l (rs @ [next_record E rs ts ev]) \<longleftrightarrow>
    length rs < max_records l \<and> fits_frame E (next_record E rs ts ev) \<and>
    length (journal_bytes E (rs @ [next_record E rs ts ev])) \<le> journal_max_bytes l \<and>
    lifecycle_validate c ev = Inr ()"
  using assms
  by (auto simp: journal_ok_def chain_ok_append from_snapshot_snoc next_record_def lifecycle_step_Inr_iff
      journal_bytes_def)

lemma frame_size_Inr_iff [res_simps]:
  "frame_size n = Inr m \<longleftrightarrow> 0 < n \<and> n \<le> max_record_bytes \<and> m = 4 + n"
  by (auto simp: frame_size_def)

lemma next_frame_end_Inr_iff:
  assumes "limits_ok l"
  shows "next_frame_end (writer E l rs c) (length (record_bytes E r)) = Inr m \<longleftrightarrow>
    fits_frame E r \<and> length (journal_bytes E (rs @ [r])) \<le> journal_max_bytes l \<and>
    m = length (journal_bytes E (rs @ [r]))"
  using assms by (auto simp: next_frame_end_def fits_frame_def res_simps limits_ok_def journal_bytes_def)

lemma write_record_frame:
  assumes "fits_frame E r"
  shows "write_record io file (record_bytes E r) =
    (case io of IoDurable \<Rightarrow> (Inr (), file @ frame_of E r)
     | IoFails k \<Rightarrow> (Inl (JournalIo ''write or synchronization failed''), file @ take k (frame_of E r)))"
  using assms
  by (cases io)
     (simp_all add: write_record_def u32_try_from_def fits_frame_def max_record_bytes_def frame_of_def)

text \<open>What an append does on a writer that has not failed.\<close>

lemma journal_append_writer:
  assumes "limits_ok l" "journal_ok E l rs" "from_snapshot (map payload rs) = Inr c"
    and r: "r = next_record E rs ts ev" and j: "j = writer E l rs c"
  shows "journal_ok E l (rs @ [r]) \<Longrightarrow> journal_append E io j ts ev =
      (case io of
         IoDurable \<Rightarrow> (Inr r, writer E l (rs @ [r]) (lifecycle_accept c ev))
       | IoFails k \<Rightarrow> (Inl (JournalIo ''write or synchronization failed''),
           j\<lparr>journal_file := journal_bytes E rs @ take k (frame_of E r), write_failed := True\<rparr>))"
    and "\<not> journal_ok E l (rs @ [r]) \<Longrightarrow> \<exists>e. journal_append E io j ts ev = (Inl e, j)"
proof -
  have make: "make_journal_record E (next_sequence j) (chain_hash j) ts ev = Inr r"
    by (simp add: make_journal_record_def r j next_record_def)
  have guard: "and_then (ensure_record_limit (next_sequence j) (limits j)) (\<lambda>_.
      and_then (ok_or SequenceOverflow (checked_add_u64 (next_sequence j) 1)) (\<lambda>next_seq.
      and_then (make_journal_record E (next_sequence j) (chain_hash j) ts ev) (\<lambda>r. Inr (next_seq, r)))) =
    (if length rs < max_records l then Inr (Suc (length rs), r)
     else Inl (JournalRecordLimitExceeded (max_records l)))"
    unfolding make using assms(1) by (simp add: j ensure_record_limit_def checked_add_u64_def limits_ok_def)
  have pay: "payload r = ev" by (simp add: r next_record_def)
  note ok = journal_ok_snoc [OF assms(2,3), of ts ev, folded r]
  let ?pre = "and_then (next_frame_end j (length (record_bytes E r))) (\<lambda>next_bytes.
    and_then (lifecycle_validate c ev) (\<lambda>_. Inr (record_bytes E r, next_bytes)))"
  have pre: "?pre = Inr (record_bytes E r, length (journal_bytes E (rs @ [r])))" if "journal_ok E l (rs @ [r])"
    using that ok next_frame_end_Inr_iff [OF assms(1), of E rs c r "length (journal_bytes E (rs @ [r]))"]
    by (simp add: j)
  have no_pre: "\<exists>e. ?pre = Inl e" if "\<not> journal_ok E l (rs @ [r])" "length rs < max_records l"
  proof (cases ?pre)
    case (Inr x)
    then have "next_frame_end j (length (record_bytes E r)) = Inr (snd x)" "lifecycle_validate c ev = Inr ()"
      by (auto simp: and_then_Inr_iff)
    then show ?thesis
      using that ok next_frame_end_Inr_iff [OF assms(1), of E rs c r "snd x"] by (simp add: j)
  qed simp
  show "journal_append E io j ts ev =
      (case io of
         IoDurable \<Rightarrow> (Inr r, writer E l (rs @ [r]) (lifecycle_accept c ev))
       | IoFails k \<Rightarrow> (Inl (JournalIo ''write or synchronization failed''),
           j\<lparr>journal_file := journal_bytes E rs @ take k (frame_of E r), write_failed := True\<rparr>))"
    if okr: "journal_ok E l (rs @ [r])"
  proof -
    have fits: "fits_frame E r" and room: "length rs < max_records l" using okr ok by simp_all
    have lc: "journal_lifecycle j = c" "write_failed j = False" "journal_file j = journal_bytes E rs"
      by (simp_all add: j)
    have "write_next_record E io j r =
      (case io of
         IoDurable \<Rightarrow> (Inr (length (journal_bytes E (rs @ [r]))),
           j\<lparr>journal_file := journal_bytes E rs @ frame_of E r\<rparr>)
       | IoFails k \<Rightarrow> (Inl (JournalIo ''write or synchronization failed''),
           j\<lparr>journal_file := journal_bytes E rs @ take k (frame_of E r), write_failed := True\<rparr>))"
      unfolding write_next_record_def canonical_record_bytes_eq and_then_simps pay lc pre [OF okr]
      by (cases io) (simp_all add: write_durable_record_def write_record_frame [OF fits] lc j writer_def)
    then show ?thesis
      unfolding journal_append_def guard
      using room by (cases io) (simp_all add: lc pay, simp_all add: j writer_def journal_bytes_def)
  qed
  show "\<exists>e. journal_append E io j ts ev = (Inl e, j)" if nok: "\<not> journal_ok E l (rs @ [r])"
  proof (cases "length rs < max_records l")
    case True
    then obtain e where e: "?pre = Inl e" using no_pre [OF nok] by blast
    have lc: "journal_lifecycle j = c" "write_failed j = False" by (simp_all add: j)
    have "write_next_record E io j r = (Inl e, j)"
      unfolding write_next_record_def canonical_record_bytes_eq and_then_simps pay lc e by simp
    then show ?thesis
      unfolding journal_append_def guard using True lc by simp
  next
    case False
    then show ?thesis
      unfolding journal_append_def guard by (simp add: j)
  qed
qed

section \<open>Reopening and recovery\<close>

lemma open_journal_bytes:
  assumes "limits_ok l" "journal_ok E l rs" "\<forall>r\<in>set rs. dec (record_bytes E r) = Inr r"
    and "from_snapshot (map payload rs) = Inr c"
  shows "open_with_limits E dec (journal_bytes E rs) l =
    (case active c of Some a \<Rightarrow> Inl (ActionRecoveryRequired a) | None \<Rightarrow> Inr (writer E l rs c))"
  using complete_parse_eq [OF assms(1-3)] assms(4)
  by (simp add: open_with_limits_def parsed_of_def require_resumable_def writer_def split: option.split)

lemma recover_journal_bytes:
  assumes "limits_ok l" "journal_ok E l rs" "\<forall>r\<in>set rs. dec (record_bytes E r) = Inr r"
    and "from_snapshot (map payload rs) = Inr c" "torn t" "t = [] \<or> \<not> finished c"
    and "length (journal_bytes E rs @ t) \<le> journal_max_bytes l"
  shows "recover_with_limits E dec (journal_bytes E rs @ t) l =
    (case active c of Some a \<Rightarrow> Inl (ActionRecoveryRequired a) | None \<Rightarrow> Inr (writer E l rs c, length t))"
proof -
  have parsed: "parse_bytes E dec (journal_bytes E rs @ t) l = Inr (parsed_of E rs t)"
    using assms by (intro parse_bytes_complete) simp_all
  have cut: "truncate_incomplete_frame (journal_bytes E rs @ t) (valid_bytes (parsed_of E rs t))
      (trailing_bytes (parsed_of E rs t)) = journal_bytes E rs"
    by (simp add: truncate_incomplete_frame_def parsed_of_def)
  have recovery: "validate_recovery c (trailing_bytes (parsed_of E rs t)) = require_resumable c"
    using assms(6) by (auto simp: validate_recovery_def parsed_of_def)
  have "recover_with_limits E dec (journal_bytes E rs @ t) l =
      and_then (require_resumable c) (\<lambda>_. and_then (open_with_limits E dec (journal_bytes E rs) l)
        (\<lambda>j. Inr (j, length t)))"
    unfolding recover_with_limits_def parsed and_then_simps cut
    using assms(4) recovery by (simp add: parsed_of_def)
  then show ?thesis
    using open_journal_bytes [OF assms(1-4)] by (simp add: require_resumable_def split: option.split)
qed

lemma torn_frame:
  assumes "fits_frame E r" "k < length (frame_of E r)"
  shows "torn (take k (frame_of E r))"
proof (cases "k < 4")
  case False
  then have "take 4 (take k (frame_of E r)) = take 4 (frame_of E r)" by simp
  then show ?thesis
    using frame_length_frame [OF assms(1)] assms(2) by (simp add: torn_def)
qed (simp add: torn_def)

section \<open>Reachable writers\<close>

text \<open>
  The writers that a program can reach, with the records whose append was acknowledged: a new journal,
  followed by any appends, each durable, refused, or failed part way.
\<close>

inductive journal_reach :: "'h ext \<Rightarrow> journal_limits \<Rightarrow> journal \<Rightarrow> journal_record list \<Rightarrow> bool" for E l where
  Created: "create_with_limits E l = Inr j \<Longrightarrow> journal_reach E l j []"
| Appended: "journal_reach E l j rs \<Longrightarrow> journal_append E io j ts ev = (Inr r, j') \<Longrightarrow>
    journal_reach E l j' (rs @ [r])"
| Refused: "journal_reach E l j rs \<Longrightarrow> journal_append E io j ts ev = (Inl e, j') \<Longrightarrow>
    journal_reach E l j' rs"

definition failed_writer :: "'h ext \<Rightarrow> journal_limits \<Rightarrow> journal_record list \<Rightarrow> lifecycle \<Rightarrow> journal_record \<Rightarrow>
    nat \<Rightarrow> journal" where
  "failed_writer E l rs c r k =
     (writer E l rs c)\<lparr>journal_file := journal_bytes E rs @ take k (frame_of E r), write_failed := True\<rparr>"

definition writer_inv :: "'h ext \<Rightarrow> journal_limits \<Rightarrow> journal \<Rightarrow> journal_record list \<Rightarrow> bool" where
  "writer_inv E l j rs \<longleftrightarrow> journal_ok E l rs \<and> (\<exists>c. from_snapshot (map payload rs) = Inr c \<and>
     (j = writer E l rs c \<or>
      (\<exists>r k. journal_ok E l (rs @ [r]) \<and> j = failed_writer E l rs c r k)))"

lemma writer_inv_created:
  assumes "create_with_limits E l = Inr j"
  shows "writer_inv E l j []"
  using assms
  by (auto simp: writer_inv_def create_with_limits_def initialize_def writer_def journal_ok_def res_simps
      journal_bytes_def genesis_def from_snapshot_def)

lemma from_snapshot_append:
  assumes "from_snapshot (map payload rs) = Inr c" "journal_ok E l (rs @ [r])"
  shows "from_snapshot (map payload (rs @ [r])) = Inr (lifecycle_accept c (payload r))"
    "lifecycle_validate c (payload r) = Inr ()"
  using assms by (auto simp: journal_ok_def from_snapshot_snoc lifecycle_step_Inr_iff)

lemma append_after_failure [simp]:
  "journal_append E io (failed_writer E l rs c r k) ts ev = (Inl WriteFailed, failed_writer E l rs c r k)"
  by (simp add: journal_append_def failed_writer_def)

lemma writer_inv_append:
  assumes "limits_ok l" "writer_inv E l j rs" "journal_append E io j ts ev = (x, j')"
  shows "writer_inv E l j' (case x of Inl e \<Rightarrow> rs | Inr r \<Rightarrow> rs @ [r])"
proof -
  from assms(2) obtain c where c: "journal_ok E l rs" "from_snapshot (map payload rs) = Inr c"
    and j: "j = writer E l rs c \<or> (\<exists>r k. journal_ok E l (rs @ [r]) \<and> j = failed_writer E l rs c r k)"
    by (auto simp: writer_inv_def)
  from j show ?thesis
  proof (elim disjE exE conjE)
    assume w: "j = writer E l rs c"
    define r where "r = next_record E rs ts ev"
    note app = journal_append_writer [OF assms(1) c r_def w, of io]
    show ?thesis
    proof (cases "journal_ok E l (rs @ [r])")
      case True
      have "from_snapshot (map payload (rs @ [r])) = Inr (lifecycle_accept c ev)"
        using from_snapshot_append(1) [OF c(2) True] by (simp add: r_def next_record_def)
      then show ?thesis
        using app(1) [OF True, folded failed_writer_def [of E l rs c, folded w]] assms(3) c True
        by (cases io) (auto simp: writer_inv_def w simp flip: failed_writer_def, blast)
    next
      case False
      then show ?thesis
        using app(2) [OF False] assms by auto
    qed
  qed (use assms in auto)
qed

lemma reach_inv:
  assumes "limits_ok l"
  shows "journal_reach E l j rs \<Longrightarrow> writer_inv E l j rs"
proof (induction rule: journal_reach.induct)
  case (Appended j rs io ts ev r j')
  then show ?case using writer_inv_append [OF assms Appended.IH Appended.hyps(2)] by simp
next
  case (Refused j rs io ts ev e j')
  then show ?case using writer_inv_append [OF assms Refused.IH Refused.hyps(2)] by simp
qed (rule writer_inv_created)

lemma reach_writer:
  assumes "limits_ok l" "journal_reach E l j rs" "\<not> write_failed j"
  obtains c where "journal_ok E l rs" "from_snapshot (map payload rs) = Inr c" "j = writer E l rs c"
proof -
  have "\<not> write_failed (failed_writer E l rs c r k) \<Longrightarrow> False" for c r k by (simp add: failed_writer_def)
  then show ?thesis
    using reach_inv [OF assms(1,2)] assms(3) that unfolding writer_inv_def by metis
qed

text \<open>A journal with one approved plan, for the examples.\<close>

definition demo_writer :: journal where
  "demo_writer = initialize id_ext journal_limits_default"

definition demo_event :: journal_event where
  "demo_event = PlanApproved 7 []"

definition demo_record :: journal_record where
  "demo_record = next_record id_ext [] 5 demo_event"

lemma demo_limits: "limits_ok journal_limits_default"
  by (simp add: limits_ok_def journal_limits_default_def u64_bound_def)

lemma demo_created: "create_with_limits id_ext journal_limits_default = Inr demo_writer"
  by (simp add: create_with_limits_def demo_writer_def ensure_size_limit_def journal_limits_default_def
      journal_magic_def)

lemma demo_length: "length (record_bytes id_ext demo_record) \<le> 4096"
  by code_simp

definition demo_after :: journal where
  "demo_after = writer id_ext journal_limits_default [demo_record]
     \<lparr>approved = True, finished = False, lc_stopped = False, active = None, completed = {}\<rparr>"

definition demo_decoder :: "byte list \<Rightarrow> string + journal_record" where
  "demo_decoder bytes = (if bytes = record_bytes id_ext demo_record then Inr demo_record else Inl ''unknown record'')"

lemma demo_ok: "journal_ok id_ext journal_limits_default [demo_record]"
proof -
  have "journal_ok id_ext journal_limits_default []"
    by (simp add: journal_ok_def journal_bytes_def from_snapshot_def journal_limits_default_def journal_magic_def)
  moreover have "record_bytes id_ext demo_record \<noteq> []"
    by (simp add: record_bytes_def record_json_def obj_def render_def)
  ultimately show ?thesis
    using journal_ok_snoc [of id_ext journal_limits_default "[]" lifecycle_default 5 demo_event] demo_length
    by (simp add: fits_frame_def journal_bytes_def from_snapshot_def journal_magic_def
        journal_limits_default_def max_record_bytes_def lifecycle_defs lifecycle_default_def
        demo_event_def flip: demo_record_def [unfolded demo_event_def])
qed

lemma demo_append:
  "journal_append id_ext io demo_writer 5 demo_event =
    (case io of IoDurable \<Rightarrow> (Inr demo_record, demo_after)
     | IoFails k \<Rightarrow> (Inl (JournalIo ''write or synchronization failed''),
         demo_writer\<lparr>journal_file := journal_magic @ take k (frame_of id_ext demo_record), write_failed := True\<rparr>))"
proof -
  have empty: "journal_ok id_ext journal_limits_default []" "from_snapshot (map payload []) = Inr lifecycle_default"
    using demo_ok by (auto simp: journal_ok_def journal_bytes_def from_snapshot_def)
  have w: "demo_writer = writer id_ext journal_limits_default [] lifecycle_default"
    by (simp add: demo_writer_def initialize_def writer_def journal_bytes_def genesis_def)
  show ?thesis
    using journal_append_writer(1) [OF demo_limits empty demo_record_def w, of io] demo_ok
    by (cases io) (simp_all add: demo_after_def demo_event_def lifecycle_default_def journal_bytes_def)
qed

lemma demo_reach:
  "journal_reach id_ext journal_limits_default demo_writer []"
  "journal_reach id_ext journal_limits_default demo_after [demo_record]"
proof -
  show "journal_reach id_ext journal_limits_default demo_writer []"
    using demo_created by (rule Created)
  from Appended [OF this, of IoDurable 5 demo_event demo_record demo_after]
  show "journal_reach id_ext journal_limits_default demo_after [demo_record]"
    by (simp add: demo_append)
qed

text \<open>
  C25: the invariant of the writer. In every reachable state the records whose append was acknowledged form
  a well-formed chain within the limits, the file begins with the magic and exactly their frames, and it
  holds nothing more unless a write has failed. The chain starts from the digest of the empty string, as the writer and
  the reader do; the comment on the field \<open>previous_hash\<close> says that it starts from zeros.
\<close>

theorem journal_append_durable:
  assumes "limits_ok l" "journal_reach E l j rs"
  shows "journal_ok E l rs \<and> chain_hash j = chain_end (genesis E) rs \<and> next_sequence j = length rs \<and>
    (\<exists>t. journal_file j = journal_bytes E rs @ t \<and> (t = [] \<or> write_failed j))"
  using reach_inv [OF assms] by (auto simp: writer_inv_def failed_writer_def)

theorem journal_append_durable_witness:
  "\<exists>t. journal_file demo_after = journal_bytes id_ext [demo_record] @ t \<and> (t = [] \<or> write_failed demo_after)"
  using journal_append_durable [OF demo_limits demo_reach(2)] by blast

text \<open>
  C24: what was written is read back. A reachable journal that has not failed verifies against its own chain
  hash and yields the acknowledged records, and opening the file gives the same writer again, unless an
  action is open, which is reported for recovery.
\<close>

theorem journal_round_trip:
  assumes "limits_ok l" "journal_reach E l j rs" "\<not> write_failed j"
    and "\<forall>r\<in>set rs. dec (record_bytes E r) = Inr r"
  shows "verify_with_limits E dec (journal_file j) (chain_hash j) l = Inr rs \<and>
    open_with_limits E dec (journal_file j) l =
      (case active (journal_lifecycle j) of Some a \<Rightarrow> Inl (ActionRecoveryRequired a) | None \<Rightarrow> Inr j)"
proof -
  obtain c where c: "journal_ok E l rs" "from_snapshot (map payload rs) = Inr c" "j = writer E l rs c"
    using reach_writer [OF assms(1-3)] .
  then show ?thesis
    using open_journal_bytes [OF assms(1) c(1) assms(4) c(2)] assms(1,4)
    by (simp add: verify_with_limits_Inr_iff split: option.split)
qed

theorem journal_round_trip_witness:
  "verify_with_limits id_ext demo_decoder (journal_file demo_after) (chain_hash demo_after)
     journal_limits_default = Inr [demo_record] \<and>
   open_with_limits id_ext demo_decoder (journal_file demo_after) journal_limits_default = Inr demo_after"
  using journal_round_trip [OF demo_limits demo_reach(2), of demo_decoder]
  by (simp add: demo_decoder_def, simp add: demo_after_def)

text \<open>
  C22: an append is atomic across a crash. Take an append that would succeed, and let the write fail after
  the first \<open>k\<close> bytes of its frame instead. Recovery of the file then gives the writer as it was before the
  append, and reports the \<open>k\<close> bytes it removed, or, when the whole frame had reached the file, the writer
  as it would have been after the append. If that writer has an open action, recovery refuses and names it.
\<close>

theorem journal_crash_atomic:
  assumes "limits_ok l" "journal_reach E l j rs"
    and "journal_append E IoDurable j ts ev = (Inr r, j1)"
    and "journal_append E (IoFails k) j ts ev = (x, j2)"
    and "\<forall>q\<in>set (rs @ [r]). dec (record_bytes E q) = Inr q"
  shows "recover_with_limits E dec (journal_file j2) l =
    (let (base, removed) = if k < length (frame_of E r) then (j, k) else (j1, 0) in
     case active (journal_lifecycle base) of
       Some a \<Rightarrow> Inl (ActionRecoveryRequired a) | None \<Rightarrow> Inr (base, removed))"
proof -
  have nf: "\<not> write_failed j" using assms(3) by (auto simp: journal_append_def)
  obtain c where c: "journal_ok E l rs" "from_snapshot (map payload rs) = Inr c" "j = writer E l rs c"
    using reach_writer [OF assms(1,2) nf] .
  note app = journal_append_writer [OF assms(1) c(1,2) refl c(3)]
  let ?q = "next_record E rs ts ev"
  have ok: "journal_ok E l (rs @ [?q])"
    using app(2) [of ts ev IoDurable] assms(3) by (metis Pair_inject Inl_not_Inr)
  then have r: "r = ?q" "j1 = writer E l (rs @ [r]) (lifecycle_accept c ev)"
    and j2: "journal_file j2 = journal_bytes E rs @ take k (frame_of E r)"
    using app(1) [OF ok, of IoDurable] app(1) [OF ok, of "IoFails k"] assms(3,4) by auto
  have fits: "fits_frame E r" and after: "from_snapshot (map payload (rs @ [r])) = Inr (lifecycle_accept c ev)"
    and len: "length (journal_bytes E (rs @ [r])) \<le> journal_max_bytes l" and "\<not> finished c"
    using ok from_snapshot_append [OF c(2) ok] r(1)
    by (auto simp: journal_ok_def next_record_def lifecycle_validate_def split: if_splits)
  show ?thesis
  proof (cases "k < length (frame_of E r)")
    case True
    then have "recover_with_limits E dec (journal_bytes E rs @ take k (frame_of E r)) l =
        (case active c of Some a \<Rightarrow> Inl (ActionRecoveryRequired a)
         | None \<Rightarrow> Inr (writer E l rs c, length (take k (frame_of E r))))"
      using assms(1,5) c \<open>\<not> finished c\<close> len fits
      by (intro recover_journal_bytes) (auto simp: torn_frame journal_bytes_def)
    then show ?thesis using True by (simp add: j2 c(3) split: option.split)
  next
    case False
    then have "journal_file j2 = journal_bytes E (rs @ [r]) @ []"
      using j2 by (simp add: journal_bytes_def)
    then show ?thesis
      using False recover_journal_bytes [OF assms(1) ok [folded r(1)] assms(5) after torn_Nil] len
      by (simp add: r(2) split: option.split)
  qed
qed

theorem journal_crash_atomic_witness:
  "recover_with_limits id_ext demo_decoder (journal_magic @ take 3 (frame_of id_ext demo_record))
     journal_limits_default = Inr (demo_writer, 3)"
  using journal_crash_atomic [OF demo_limits demo_reach(1), of 5 demo_event demo_record demo_after 3
      "Inl (JournalIo ''write or synchronization failed'')" _ demo_decoder]
  by (simp add: demo_append demo_decoder_def, simp add: demo_writer_def initialize_def lifecycle_default_def)

text \<open>The seal, on the same journal read with two different limits.\<close>

theorem journal_tamper_evident_witness:
  "journal_bytes id_ext [demo_record] = journal_file demo_after \<and> [demo_record] = [demo_record]"
proof -
  have "verify_with_limits id_ext demo_decoder (journal_file demo_after) (chain_hash demo_after)
      journal_limits_default = Inr [demo_record]"
    and "verify_with_limits id_ext demo_decoder (journal_bytes id_ext [demo_record]) (chain_hash demo_after)
      journal_limits_default = Inr [demo_record]"
    using demo_ok demo_limits
    by (simp_all add: verify_with_limits_Inr_iff demo_decoder_def demo_after_def)
  moreover have "chain_collision_free id_ext [demo_record] [demo_record]"
    unfolding chain_collision_free_def id_ext_simps by (rule inj_onI)
  ultimately show ?thesis
    by (rule journal_tamper_evident [OF id_ext_contracts(2-5) demo_limits demo_limits])
qed

end
