(* ===== verification/Btree_Map.thy ===== *)
theory Btree_Map
  imports Domain_Serde
begin

text \<open>
  \<open>BTreeMap::insert\<close> on the list of entries in key order. The laws that its clients rely on are stated once, in
  the locale \<open>insertion_map\<close>: a lookup after an insertion, and that insertions keep a map well-formed.
\<close>

fun bt_insert :: "'k :: linorder \<Rightarrow> 'v \<Rightarrow> ('k \<times> 'v) list \<Rightarrow> ('k \<times> 'v) list" where
  "bt_insert k v [] = [(k, v)]"
| "bt_insert k v ((l, w) # m) =
     (if k < l then (k, v) # (l, w) # m else if k = l then (k, v) # m else (l, w) # bt_insert k v m)"

locale insertion_map =
  fixes get :: "'m \<Rightarrow> 'k \<Rightarrow> 'v option"
    and ins :: "'k \<Rightarrow> 'v \<Rightarrow> 'm \<Rightarrow> 'm"
    and wf_map :: "'m \<Rightarrow> bool"
  assumes get_ins: "wf_map m \<Longrightarrow> get (ins k v m) l = (if l = k then Some v else get m l)"
    and wf_ins: "wf_map m \<Longrightarrow> wf_map (ins k v m)"
begin

definition ins_all :: "('k \<times> 'v) list \<Rightarrow> 'm \<Rightarrow> 'm" where
  "ins_all es m = foldl (\<lambda>m (k, v). ins k v m) m es"

lemma ins_all_simps [simp]:
  "ins_all [] m = m" "ins_all (e # es) m = ins_all es (ins (fst e) (snd e) m)"
  by (simp_all add: ins_all_def case_prod_beta)

lemma wf_ins_all: "wf_map m \<Longrightarrow> wf_map (ins_all es m)"
  by (induction es arbitrary: m) (simp_all add: wf_ins)

lemma get_ins_all:
  "wf_map m \<Longrightarrow> distinct (map fst es) \<Longrightarrow>
     get (ins_all es m) k = (case map_of es k of Some v \<Rightarrow> Some v | None \<Rightarrow> get m k)"
proof (induction es arbitrary: m)
  case (Cons e es)
  obtain l v where e: "e = (l, v)" by (cases e)
  have "map_of es l = None" using Cons.prems(2) by (simp add: e map_of_eq_None_iff)
  then show ?case
    using Cons.prems Cons.IH [of "ins l v m"] by (auto simp: e get_ins wf_ins split: option.split)
qed simp

end

lemma set_bt_insert:
  "map_entries_ok m \<Longrightarrow> set (map fst (bt_insert k v m)) = insert k (set (map fst m))"
  by (induction k v m rule: bt_insert.induct) (auto simp: map_entries_ok_def)

lemma map_entries_ok_insert: "map_entries_ok m \<Longrightarrow> map_entries_ok (bt_insert k v m)"
proof (induction k v m rule: bt_insert.induct)
  case (2 k v l w m)
  then have "map_entries_ok m" by (simp add: map_entries_ok_def)
  with 2 set_bt_insert [OF this, of k v] show ?case
    by (auto simp: map_entries_ok_def image_iff)
qed (simp add: map_entries_ok_def)

lemma map_of_bt_insert:
  "map_entries_ok m \<Longrightarrow> map_of (bt_insert k v m) l = (if l = k then Some v else map_of m l)"
  by (induction k v m rule: bt_insert.induct) (auto simp: map_entries_ok_def)

interpretation bt: insertion_map map_of bt_insert map_entries_ok
  by unfold_locales (simp_all add: map_of_bt_insert map_entries_ok_insert)

lemma map_entries_ok_Nil [simp]: "map_entries_ok []"
  by (simp add: map_entries_ok_def)

lemma map_entries_ok_distinct: "map_entries_ok m \<Longrightarrow> distinct (map fst m)"
  by (simp add: map_entries_ok_def strict_sorted_iff)

lemma map_entries_ok_ext:
  assumes "map_entries_ok m" "map_entries_ok n" "map_of m = map_of n"
  shows "m = n"
  using assms map_of_inject_set [OF map_entries_ok_distinct map_entries_ok_distinct, OF assms(1,2)]
  by (intro map_entries_unique) simp_all

end
