(* ===== verification/Windows_Update.thy ===== *)
theory Windows_Update
  imports Ipc_Message Btree_Map
begin

text \<open>
  The Windows Update policy: the typed desired state, the plan of differences and its rollback record
  (\<open>baselineops-capabilities/src/windows_update_policy.rs\<close>), and the registry adapter that compares, writes and
  reads back one fixed value (\<open>baselineops-windows/src/windows_update.rs\<close>, \<open>windows_update/mutation.rs\<close>). The
  registry itself is a port: a read, a write and a flush on a state of any type.
\<close>

section \<open>Policy values and desired state\<close>

datatype policy_value_snapshot = Missing | Dword "32 word" | PolicyString string

datatype windows_update_field =
    UseWsus | WsusServer | WsusStatusServer | AllowMicrosoftUpdate
  | DeferFeatureUpdates | DeferFeatureDays | DeferQualityUpdates | DeferQualityDays
  | TargetReleaseVersion | ProductVersion | TargetReleaseVersionInfo | DeliveryOptimizationMode

text \<open>The derived order of the fields is the order of their declaration.\<close>

fun field_index :: "windows_update_field \<Rightarrow> nat" where
  "field_index UseWsus = 0"
| "field_index WsusServer = 1"
| "field_index WsusStatusServer = 2"
| "field_index AllowMicrosoftUpdate = 3"
| "field_index DeferFeatureUpdates = 4"
| "field_index DeferFeatureDays = 5"
| "field_index DeferQualityUpdates = 6"
| "field_index DeferQualityDays = 7"
| "field_index TargetReleaseVersion = 8"
| "field_index ProductVersion = 9"
| "field_index TargetReleaseVersionInfo = 10"
| "field_index DeliveryOptimizationMode = 11"

lemma field_index_inj: "field_index f = field_index g \<Longrightarrow> f = g"
  by (cases f; cases g) simp_all

instantiation windows_update_field :: linorder
begin

definition less_eq_windows_update_field :: "windows_update_field \<Rightarrow> windows_update_field \<Rightarrow> bool" where
  "f \<le> g \<longleftrightarrow> field_index f \<le> field_index g"

definition less_windows_update_field :: "windows_update_field \<Rightarrow> windows_update_field \<Rightarrow> bool" where
  "f < g \<longleftrightarrow> field_index f < field_index g"

instance
  by standard (auto simp: less_eq_windows_update_field_def less_windows_update_field_def dest: field_index_inj)

end

type_synonym update_values = "(windows_update_field \<times> policy_value_snapshot) list"

record windows_update_observation =
  field_values :: update_values

datatype update_source = Wufb | Wsus
datatype download_mode = HttpOnly | Lan | Group | Internet | Simple

record deferrals =
  feature_days :: "16 word"
  quality_days :: "8 word"

record target_release =
  release_enabled :: bool
  product_version :: string
  release :: string

record windows_update_config =
  update_source_of :: update_source
  allow_microsoft_update :: bool
  deferrals_of :: deferrals
  target_release_of :: target_release
  download_mode_of :: download_mode

definition deferrals_default :: deferrals where
  "deferrals_default = \<lparr>feature_days = 30, quality_days = 7\<rparr>"

definition target_release_default :: target_release where
  "target_release_default = \<lparr>release_enabled = False, product_version = ''Windows 11'', release = ''24H2''\<rparr>"

definition windows_update_config_default :: windows_update_config where
  "windows_update_config_default = \<lparr>update_source_of = Wufb, allow_microsoft_update = True,
     deferrals_of = deferrals_default, target_release_of = target_release_default,
     download_mode_of = HttpOnly\<rparr>"

record windows_update_parameters =
  param_config :: "windows_update_config option"
  param_desired :: "windows_update_config option"

record windows_update_mutation =
  mutation_field :: windows_update_field
  mutation_desired :: policy_value_snapshot

record windows_update_plan =
  wu_observation :: windows_update_observation
  wu_desired :: windows_update_config
  wu_mutations :: "windows_update_mutation list"
  wu_rollback :: windows_update_observation
  requires_administrator :: bool
  wu_reboot_possible :: bool

definition max_policy_string_bytes :: usize where "max_policy_string_bytes = 128"

definition valid_policy_string :: "string \<Rightarrow> bool" where
  "valid_policy_string v \<longleftrightarrow> v \<noteq> [] \<and> length v \<le> max_policy_string_bytes \<and> CHR 0x00 \<notin> set v"

definition validate_deferrals :: "deferrals \<Rightarrow> string + unit" where
  "validate_deferrals d =
     (if feature_days d > 365 \<or> quality_days d > 35
      then Inl ''Windows Update deferrals exceed the legacy allowlisted ranges'' else Inr ())"

definition validate_update_source :: "update_source \<Rightarrow> string + unit" where
  "validate_update_source s =
     (if s \<noteq> Wufb
      then Inl ''WSUS is excluded until bounded server identities and service evidence are implemented''
      else Inr ())"

definition validate_target_release :: "target_release \<Rightarrow> string + unit" where
  "validate_target_release t =
     (if \<not> valid_policy_string (product_version t) \<or> \<not> valid_policy_string (release t)
      then Inl ''target release strings must be bounded non-empty strings without NUL'' else Inr ())"

definition resolve_desired_state :: "windows_update_parameters \<Rightarrow> string + windows_update_config" where
  "resolve_desired_state p =
     (let desired = (case param_desired p of
          Some d \<Rightarrow> d
        | None \<Rightarrow> (case param_config p of Some c \<Rightarrow> c | None \<Rightarrow> windows_update_config_default)) in
      and_then (validate_deferrals (deferrals_of desired)) (\<lambda>_.
      and_then (validate_update_source (update_source_of desired)) (\<lambda>_.
      and_then (validate_target_release (target_release_of desired)) (\<lambda>_.
        Inr desired))))"

section \<open>The plan\<close>

fun download_mode_value :: "download_mode \<Rightarrow> 32 word" where
  "download_mode_value HttpOnly = 0"
| "download_mode_value Lan = 1"
| "download_mode_value Group = 2"
| "download_mode_value Internet = 3"
| "download_mode_value Simple = 99"

definition insert_target_release :: "target_release \<Rightarrow> update_values \<Rightarrow> update_values" where
  "insert_target_release t expected =
     bt_insert TargetReleaseVersionInfo (if release_enabled t then PolicyString (release t) else Missing)
     (bt_insert ProductVersion (if release_enabled t then PolicyString (product_version t) else Missing) expected)"

definition expected_values :: "windows_update_config \<Rightarrow> update_values" where
  "expected_values d =
     (let use_wsus = (update_source_of d = Wsus);
          e = bt_insert UseWsus (Dword (of_bool use_wsus)) [];
          e = bt_insert DeferFeatureUpdates (Dword 1) e;
          e = bt_insert DeferFeatureDays (Dword (ucast (feature_days (deferrals_of d)))) e;
          e = bt_insert DeferQualityUpdates (Dword 1) e;
          e = bt_insert DeferQualityDays (Dword (ucast (quality_days (deferrals_of d)))) e;
          e = bt_insert TargetReleaseVersion (Dword (of_bool (release_enabled (target_release_of d)))) e;
          e = insert_target_release (target_release_of d) e;
          e = bt_insert DeliveryOptimizationMode (Dword (download_mode_value (download_mode_of d))) e
      in if \<not> use_wsus then bt_insert WsusStatusServer Missing (bt_insert WsusServer Missing e) else e)"

definition build_windows_update_plan ::
    "windows_update_observation \<Rightarrow> windows_update_config \<Rightarrow> windows_update_plan" where
  "build_windows_update_plan obs d =
     \<lparr>wu_observation = obs, wu_desired = d,
      wu_mutations = map (\<lambda>(f, v). \<lparr>mutation_field = f, mutation_desired = v\<rparr>)
        (filter (\<lambda>(f, v). map_of (field_values obs) f \<noteq> Some v) (expected_values d)),
      wu_rollback = obs, requires_administrator = True, wu_reboot_possible = True\<rparr>"

section \<open>The registry adapter\<close>

datatype value_kind = DwordKind | StringKind

record update_field_spec =
  spec_field :: windows_update_field
  spec_path :: string
  spec_name :: string
  spec_kind :: value_kind

definition backslash :: string where "backslash = [CHR 0x5C]"

definition policies_path :: string where
  "policies_path = ''SOFTWARE'' @ backslash @ ''Policies'' @ backslash @ ''Microsoft'' @ backslash @ ''Windows'' @ backslash"

definition wu_path :: string where "wu_path = policies_path @ ''WindowsUpdate''"
definition au_path :: string where "au_path = wu_path @ backslash @ ''AU''"
definition do_path :: string where "do_path = policies_path @ ''DeliveryOptimization''"

definition field_entry :: "windows_update_field \<Rightarrow> string \<Rightarrow> string \<Rightarrow> value_kind \<Rightarrow> update_field_spec" where
  "field_entry f p n k = \<lparr>spec_field = f, spec_path = p, spec_name = n, spec_kind = k\<rparr>"

definition update_fields :: "update_field_spec list" where
  "update_fields = [
     field_entry UseWsus au_path ''UseWUServer'' DwordKind,
     field_entry WsusServer wu_path ''WUServer'' StringKind,
     field_entry WsusStatusServer wu_path ''WUStatusServer'' StringKind,
     field_entry AllowMicrosoftUpdate au_path ''AllowMUUpdateService'' DwordKind,
     field_entry DeferFeatureUpdates wu_path ''DeferFeatureUpdates'' DwordKind,
     field_entry DeferFeatureDays wu_path ''DeferFeatureUpdatesPeriodInDays'' DwordKind,
     field_entry DeferQualityUpdates wu_path ''DeferQualityUpdates'' DwordKind,
     field_entry DeferQualityDays wu_path ''DeferQualityUpdatesPeriodInDays'' DwordKind,
     field_entry TargetReleaseVersion wu_path ''TargetReleaseVersion'' DwordKind,
     field_entry ProductVersion wu_path ''ProductVersion'' StringKind,
     field_entry TargetReleaseVersionInfo wu_path ''TargetReleaseVersionInfo'' StringKind,
     field_entry DeliveryOptimizationMode do_path ''DODownloadMode'' DwordKind]"

text \<open>\<open>None\<close> is the panic of \<open>expect\<close>.\<close>

definition field_spec :: "windows_update_field \<Rightarrow> update_field_spec option" where
  "field_spec f = find (\<lambda>s. spec_field s = f) update_fields"

definition trust_failure :: "string \<Rightarrow> platform_error + 'a" where
  "trust_failure m = Inl (TrustFailure m)"

definition validate_policy_string :: "string \<Rightarrow> platform_error + unit" where
  "validate_policy_string v =
     (if length v > max_policy_string_bytes \<or> CHR 0x00 \<in> set v
      then trust_failure ''Windows Update string exceeds its bound or contains NUL'' else Inr ())"

definition validate_snapshot :: "update_field_spec \<Rightarrow> policy_value_snapshot \<Rightarrow> platform_error + unit" where
  "validate_snapshot spec v =
     (case (spec_kind spec, v) of
        (_, Missing) \<Rightarrow> Inr ()
      | (DwordKind, Dword _) \<Rightarrow> Inr ()
      | (StringKind, PolicyString s) \<Rightarrow> validate_policy_string s
      | _ \<Rightarrow> trust_failure ''Windows Update value type does not match its fixed field'')"

definition dword_within_bound :: "windows_update_field \<Rightarrow> 32 word \<Rightarrow> bool" where
  "dword_within_bound f v =
     (if f \<in> set [UseWsus, AllowMicrosoftUpdate, DeferFeatureUpdates, DeferQualityUpdates, TargetReleaseVersion]
      then v \<le> 1
      else case f of
        DeferFeatureDays \<Rightarrow> v \<le> 365
      | DeferQualityDays \<Rightarrow> v \<le> 35
      | DeliveryOptimizationMode \<Rightarrow> v \<le> 3 \<or> v = 99
      | _ \<Rightarrow> False)"

definition validate_dword_bound :: "windows_update_field \<Rightarrow> policy_value_snapshot \<Rightarrow> platform_error + unit" where
  "validate_dword_bound f v =
     (case v of
        Dword n \<Rightarrow>
          (if dword_within_bound f n then Inr ()
           else trust_failure ''Windows Update DWORD is outside its fixed field bound'')
      | _ \<Rightarrow> Inr ())"

text \<open>The outer option is the panic of \<open>field_spec\<close>.\<close>

definition validate_request ::
    "windows_update_field \<Rightarrow> policy_value_snapshot \<Rightarrow> policy_value_snapshot \<Rightarrow>
     (platform_error + update_field_spec) option" where
  "validate_request f expected desired =
     (if f = AllowMicrosoftUpdate
      then Some (Inl (ProcessRejected ''AllowMicrosoftUpdate is observation-only for v2 behavior parity''))
      else
        map_option (\<lambda>spec.
          and_then (validate_snapshot spec expected) (\<lambda>_.
          and_then (validate_snapshot spec desired) (\<lambda>_.
          and_then (validate_dword_bound f desired) (\<lambda>_. Inr spec)))) (field_spec f))"

record 's registry_port =
  port_read :: "update_field_spec \<Rightarrow> 's \<Rightarrow> (platform_error + policy_value_snapshot) \<times> 's"
  port_write :: "update_field_spec \<Rightarrow> policy_value_snapshot \<Rightarrow> policy_value_snapshot \<Rightarrow> 's \<Rightarrow> (platform_error + unit) \<times> 's"
  port_flush_and_read_retained :: "update_field_spec \<Rightarrow> 's \<Rightarrow> (platform_error + policy_value_snapshot) \<times> 's"

definition stale_state :: platform_error where
  "stale_state = TrustFailure ''Windows Update registry pre-state changed before mutation''"

definition compare_prestate ::
    "'s registry_port \<Rightarrow> update_field_spec \<Rightarrow> policy_value_snapshot \<Rightarrow> 's \<Rightarrow>
     (platform_error + policy_value_snapshot) \<times> 's" where
  "compare_prestate port spec expected s =
     st_then (port_read port spec s) (\<lambda>before s.
       if before \<noteq> expected then (Inl stale_state, s) else (Inr before, s))"

definition verify_readback :: "policy_value_snapshot \<Rightarrow> policy_value_snapshot \<Rightarrow> platform_error + unit" where
  "verify_readback actual desired =
     (if actual \<noteq> desired
      then trust_failure ''Windows Update registry read-back did not match the requested value'' else Inr ())"

definition mutate_and_verify ::
    "'s registry_port \<Rightarrow> update_field_spec \<Rightarrow> policy_value_snapshot \<Rightarrow> policy_value_snapshot \<Rightarrow> 's \<Rightarrow>
     (platform_error + policy_value_snapshot) \<times> 's" where
  "mutate_and_verify port spec expected desired s =
     st_then (port_write port spec expected desired s) (\<lambda>_ s.
     st_then (port_flush_and_read_retained port spec s) (\<lambda>retained s.
     st_then (verify_readback retained desired, s) (\<lambda>_ s.
     st_then (port_read port spec s) (\<lambda>reobserved s.
     st_then (verify_readback reobserved desired, s) (\<lambda>_ s.
       (Inr reobserved, s))))))"

definition apply_with ::
    "'s registry_port \<Rightarrow> windows_update_field \<Rightarrow> policy_value_snapshot \<Rightarrow> policy_value_snapshot \<Rightarrow> 's \<Rightarrow>
     ((platform_error + policy_value_snapshot) \<times> 's) option" where
  "apply_with port f expected desired s =
     map_option (\<lambda>request.
       st_then (request, s) (\<lambda>spec s.
       st_then (compare_prestate port spec expected s) (\<lambda>before s.
         if before = desired then (Inr before, s) else mutate_and_verify port spec expected desired s)))
       (validate_request f expected desired)"

text \<open>\<open>windows\<close> is the \<open>cfg(windows)\<close> switch of the build.\<close>

definition apply_windows_update_mutation ::
    "bool \<Rightarrow> 's registry_port \<Rightarrow> windows_update_field \<Rightarrow> policy_value_snapshot \<Rightarrow> policy_value_snapshot \<Rightarrow> 's \<Rightarrow>
     ((platform_error + policy_value_snapshot) \<times> 's) option" where
  "apply_windows_update_mutation windows port f expected desired s =
     (if windows then apply_with port f expected desired s
      else map_option (\<lambda>r. (and_then r (\<lambda>_. Inl UnsupportedPlatform), s)) (validate_request f expected desired))"

text \<open>The readers of \<open>policy_registry.rs\<close> are the arguments \<open>read_dword\<close> and \<open>read_string\<close>.\<close>

definition observe_windows_update_policy ::
    "(string \<Rightarrow> string \<Rightarrow> platform_error + policy_value_snapshot) \<Rightarrow>
     (string \<Rightarrow> string \<Rightarrow> platform_error + policy_value_snapshot) \<Rightarrow>
     platform_error + windows_update_observation" where
  "observe_windows_update_policy read_dword read_string =
     and_then (try_fold (\<lambda>values spec.
         and_then (if spec_kind spec = DwordKind then read_dword (spec_path spec) (spec_name spec)
                   else read_string (spec_path spec) (spec_name spec))
           (\<lambda>v. Inr (bt_insert (spec_field spec) v values))) [] update_fields)
       (\<lambda>values. Inr \<lparr>field_values = values\<rparr>)"

section \<open>The state that a plan promises\<close>

definition expected_post_state :: "windows_update_plan \<Rightarrow> windows_update_observation" where
  "expected_post_state plan =
     (wu_observation plan)\<lparr>field_values := foldl (\<lambda>values m. bt_insert (mutation_field m) (mutation_desired m) values)
       (field_values (wu_observation plan)) (wu_mutations plan)\<rparr>"

lemma expected_values_eq:
  assumes "update_source_of d = Wufb"
  shows "expected_values d =
    [(UseWsus, Dword 0), (WsusServer, Missing), (WsusStatusServer, Missing), (DeferFeatureUpdates, Dword 1),
     (DeferFeatureDays, Dword (ucast (feature_days (deferrals_of d)))), (DeferQualityUpdates, Dword 1),
     (DeferQualityDays, Dword (ucast (quality_days (deferrals_of d)))),
     (TargetReleaseVersion, Dword (of_bool (release_enabled (target_release_of d)))),
     (ProductVersion, if release_enabled (target_release_of d)
        then PolicyString (product_version (target_release_of d)) else Missing),
     (TargetReleaseVersionInfo, if release_enabled (target_release_of d)
        then PolicyString (release (target_release_of d)) else Missing),
     (DeliveryOptimizationMode, Dword (download_mode_value (download_mode_of d)))]"
  by (simp add: expected_values_def insert_target_release_def Let_def assms less_windows_update_field_def)

lemma field_spec_Some: "\<exists>spec. field_spec f = Some spec \<and> spec_field spec = f"
  by (cases f) (simp_all add: field_spec_def update_fields_def field_entry_def)

lemma resolve_Inr_iff:
  "(\<exists>p. resolve_desired_state p = Inr d) \<longleftrightarrow>
     feature_days (deferrals_of d) \<le> 365 \<and> quality_days (deferrals_of d) \<le> 35 \<and> update_source_of d = Wufb \<and>
     valid_policy_string (product_version (target_release_of d)) \<and> valid_policy_string (release (target_release_of d))"
  (is "?L \<longleftrightarrow> ?R")
proof
  assume ?L
  then show ?R
    by (auto simp: resolve_desired_state_def Let_def res_simps validate_deferrals_def validate_update_source_def
        validate_target_release_def split: if_splits)
next
  assume ?R
  then have "resolve_desired_state \<lparr>param_config = None, param_desired = Some d\<rparr> = Inr d"
    by (simp add: resolve_desired_state_def Let_def validate_deferrals_def validate_update_source_def
        validate_target_release_def not_less)
  then show ?L by blast
qed

lemma unat_u32_from: "LENGTH('a) \<le> 32 \<Longrightarrow> unat (ucast (w :: 'a :: len word) :: 32 word) = unat w"
proof -
  assume "LENGTH('a) \<le> 32"
  then have "(2 :: nat) ^ LENGTH('a) \<le> 2 ^ 32" by (rule power_increasing) simp
  then have "unat w < 2 ^ 32" using unsigned_less [of w] by (rule order.strict_trans2 [rotated])
  then show ?thesis by (simp add: unsigned_ucast_eq take_bit_nat_eq_self)
qed

lemma ucast_days:
  "w \<le> 365 \<Longrightarrow> (ucast (w :: 16 word) :: 32 word) \<le> 365" "v \<le> 35 \<Longrightarrow> (ucast (v :: 8 word) :: 32 word) \<le> 35"
  by (simp_all add: word_le_nat_alt unat_u32_from)

text \<open>Every value that a validated configuration asks for is one that the registry adapter admits.\<close>

lemma expected_value_admitted:
  assumes "resolve_desired_state p = Inr d" "(f, v) \<in> set (expected_values d)"
    and "field_spec f = Some spec" "validate_snapshot spec before = Inr ()"
  shows "validate_request f before v = Some (Inr spec)"
proof -
  have d: "feature_days (deferrals_of d) \<le> 365" "quality_days (deferrals_of d) \<le> 35" "update_source_of d = Wufb"
    "valid_policy_string (product_version (target_release_of d))" "valid_policy_string (release (target_release_of d))"
    using assms(1) resolve_Inr_iff [of d] by auto
  have mode: "download_mode_value m \<le> 3 \<or> download_mode_value m = 99" for m
    by (cases m) simp_all
  have "f \<noteq> AllowMicrosoftUpdate \<and> validate_snapshot spec v = Inr () \<and> validate_dword_bound f v = Inr ()"
    using assms(2,3) d(4,5) ucast_days(1) [OF d(1)] ucast_days(2) [OF d(2)] mode [of "download_mode_of d"]
    unfolding expected_values_eq [OF d(3)]
    by (auto simp: field_spec_def update_fields_def field_entry_def validate_snapshot_def validate_dword_bound_def
        dword_within_bound_def valid_policy_string_def validate_policy_string_def)
  then show ?thesis
    using assms(3,4) by (simp add: validate_request_def)
qed

lemma expected_values_distinct:
  assumes "update_source_of d = Wufb"
  shows "distinct (map fst (expected_values d))"
  unfolding expected_values_eq [OF assms] by simp

lemma expected_post_ins_all:
  "field_values (expected_post_state plan) =
     bt.ins_all (map (\<lambda>m. (mutation_field m, mutation_desired m)) (wu_mutations plan))
       (field_values (wu_observation plan))"
proof -
  have "foldl (\<lambda>values m. bt_insert (mutation_field m) (mutation_desired m) values) vs ms =
      bt.ins_all (map (\<lambda>m. (mutation_field m, mutation_desired m)) ms) vs" for vs ms
    by (induction ms arbitrary: vs) simp_all
  then show ?thesis by (simp add: expected_post_state_def)
qed

definition plan_changes :: "windows_update_plan \<Rightarrow> update_values" where
  "plan_changes plan = map (\<lambda>m. (mutation_field m, mutation_desired m)) (wu_mutations plan)"

lemma plan_changes_build:
  "plan_changes (build_windows_update_plan obs d) =
     filter (\<lambda>(f, v). map_of (field_values obs) f \<noteq> Some v) (expected_values d)"
  by (simp add: plan_changes_def build_windows_update_plan_def case_prod_beta comp_def)

lemma map_of_filter_distinct:
  "distinct (map fst es) \<Longrightarrow>
     map_of (filter (\<lambda>(k, v). P k v) es) k = (case map_of es k of Some v \<Rightarrow> if P k v then Some v else None | None \<Rightarrow> None)"
  by (induction es) (auto split: option.split simp: map_of_eq_None_iff rev_image_eqI)

text \<open>
  A plan for a validated configuration converges and is admissible. After its changes the observation has
  every expected value and nothing is left to plan; a field without a change keeps its value; no field is
  changed twice or without need; the rollback record is the observation before; and every change from an
  observed value of the right kind passes the checks of the registry adapter.
\<close>

theorem update_plan_converges:
  assumes "resolve_desired_state p = Inr d" "map_entries_ok (field_values obs)"
    and "plan = build_windows_update_plan obs d" "post = field_values (expected_post_state plan)"
  shows "wu_mutations (build_windows_update_plan (expected_post_state plan) d) = [] \<and>
    map_of post = map_of (field_values obs) ++ map_of (expected_values d) \<and> map_entries_ok post \<and>
    distinct (map mutation_field (wu_mutations plan)) \<and> wu_rollback plan = obs \<and>
    (\<forall>m\<in>set (wu_mutations plan). map_of (field_values obs) (mutation_field m) \<noteq> Some (mutation_desired m) \<and>
       (\<forall>spec before. field_spec (mutation_field m) = Some spec \<longrightarrow> validate_snapshot spec before = Inr () \<longrightarrow>
          validate_request (mutation_field m) before (mutation_desired m) = Some (Inr spec)))"
proof -
  have src: "update_source_of d = Wufb" using assms(1) resolve_Inr_iff [of d] by auto
  note dist = expected_values_distinct [OF src]
  let ?es = "plan_changes plan"
  have es: "?es = filter (\<lambda>(f, v). map_of (field_values obs) f \<noteq> Some v) (expected_values d)"
    by (simp add: assms(3) plan_changes_build)
  have dist': "distinct (map fst ?es)" unfolding es by (rule distinct_map_filter [OF dist])
  have post: "post = bt.ins_all ?es (field_values obs)"
    by (simp add: assms(3,4) expected_post_ins_all plan_changes_def build_windows_update_plan_def)
  have get: "map_of post f = (map_of (field_values obs) ++ map_of (expected_values d)) f" for f
    using bt.get_ins_all [OF assms(2) dist', of f, folded post]
    unfolding es map_of_filter_distinct [OF dist]
    by (auto simp: map_add_def split: option.splits if_splits)
  have "map_of post f = Some v" if "(f, v) \<in> set (expected_values d)" for f v
    using that dist by (simp add: get map_add_def)
  then have "plan_changes (build_windows_update_plan (expected_post_state plan) d) = []"
    by (auto simp: plan_changes_build assms(4) [symmetric] filter_empty_conv)
  then have "wu_mutations (build_windows_update_plan (expected_post_state plan) d) = []"
    by (simp add: plan_changes_def)
  moreover have "distinct (map mutation_field (wu_mutations plan))"
    using dist' by (simp add: plan_changes_def comp_def)
  moreover have "map_of (field_values obs) (mutation_field m) \<noteq> Some (mutation_desired m)"
    "(mutation_field m, mutation_desired m) \<in> set (expected_values d)" if "m \<in> set (wu_mutations plan)" for m
  proof -
    from that have "(mutation_field m, mutation_desired m) \<in> set ?es" by (auto simp: plan_changes_def)
    then show "map_of (field_values obs) (mutation_field m) \<noteq> Some (mutation_desired m)"
      "(mutation_field m, mutation_desired m) \<in> set (expected_values d)" by (simp_all add: es)
  qed
  ultimately show ?thesis
    using get bt.wf_ins_all [OF assms(2)] expected_value_admitted [OF assms(1)]
    by (auto simp: post assms(3) build_windows_update_plan_def)
qed

section \<open>What the adapter does to the registry\<close>

text \<open>The calls of the port with their answers, and a port that records them.\<close>

datatype registry_event =
    RegRead update_field_spec "platform_error + policy_value_snapshot"
  | RegWrite update_field_spec policy_value_snapshot policy_value_snapshot "platform_error + unit"
  | RegFlush update_field_spec "platform_error + policy_value_snapshot"

definition recording :: "'s registry_port \<Rightarrow> ('s \<times> registry_event list) registry_port" where
  "recording port =
     \<lparr>port_read = (\<lambda>spec (s, es). let (r, s) = port_read port spec s in (r, s, es @ [RegRead spec r])),
      port_write = (\<lambda>spec expected desired (s, es). let (r, s) = port_write port spec expected desired s
         in (r, s, es @ [RegWrite spec expected desired r])),
      port_flush_and_read_retained = (\<lambda>spec (s, es). let (r, s) = port_flush_and_read_retained port spec s
         in (r, s, es @ [RegFlush spec r]))\<rparr>"

text \<open>The kind of value that a field holds, and the largest number for a field of numbers.\<close>

fun field_holds :: "windows_update_field \<Rightarrow> policy_value_snapshot \<Rightarrow> bool" where
  "field_holds f Missing = True"
| "field_holds f (PolicyString v) \<longleftrightarrow>
     f \<in> {WsusServer, WsusStatusServer, ProductVersion, TargetReleaseVersionInfo} \<and> length v \<le> 128 \<and> CHR 0x00 \<notin> set v"
| "field_holds f (Dword n) \<longleftrightarrow> f \<notin> {WsusServer, WsusStatusServer, ProductVersion, TargetReleaseVersionInfo}"

fun field_admits :: "windows_update_field \<Rightarrow> 32 word \<Rightarrow> bool" where
  "field_admits DeferFeatureDays n \<longleftrightarrow> n \<le> 365"
| "field_admits DeferQualityDays n \<longleftrightarrow> n \<le> 35"
| "field_admits DeliveryOptimizationMode n \<longleftrightarrow> n \<in> {0, 1, 2, 3, 99}"
| "field_admits f n \<longleftrightarrow> n \<in> {0, 1}"

definition change_admitted :: "windows_update_field \<Rightarrow> policy_value_snapshot \<Rightarrow> policy_value_snapshot \<Rightarrow> bool" where
  "change_admitted f expected desired \<longleftrightarrow> f \<noteq> AllowMicrosoftUpdate \<and> field_holds f expected \<and> field_holds f desired \<and>
     (\<forall>n. desired = Dword n \<longrightarrow> field_admits f n)"

lemma small_dword:
  "(n :: 32 word) \<le> 1 \<longleftrightarrow> n = 0 \<or> n = 1"
  "n \<le> 3 \<longleftrightarrow> n = 0 \<or> n = 1 \<or> n = 2 \<or> n = 3"
proof -
  have "unat n \<le> 1 \<longleftrightarrow> unat n = 0 \<or> unat n = 1" "unat n \<le> 3 \<longleftrightarrow> unat n = 0 \<or> unat n = 1 \<or> unat n = 2 \<or> unat n = 3"
    by linarith+
  then show "n \<le> 1 \<longleftrightarrow> n = 0 \<or> n = 1" "n \<le> 3 \<longleftrightarrow> n = 0 \<or> n = 1 \<or> n = 2 \<or> n = 3"
    by (simp_all add: word_le_nat_alt word_unat_eq_iff)
qed

lemma validate_snapshot_iff:
  assumes "field_spec f = Some spec"
  shows "validate_snapshot spec v = Inr () \<longleftrightarrow> field_holds f v"
  using assms
  by (cases f; cases v) (auto simp: field_spec_def update_fields_def field_entry_def validate_snapshot_def
      validate_policy_string_def trust_failure_def max_policy_string_bytes_def split: if_splits)

lemma validate_dword_bound_iff:
  assumes "field_holds f v"
  shows "validate_dword_bound f v = Inr () \<longleftrightarrow> (\<forall>n. v = Dword n \<longrightarrow> field_admits f n)"
  using assms
  by (cases v; cases f) (auto simp: validate_dword_bound_def dword_within_bound_def trust_failure_def small_dword)

lemma validate_request_iff:
  obtains spec where "field_spec f = Some spec" "change_admitted f expected desired"
    "validate_request f expected desired = Some (Inr spec)"
  | e where "\<not> change_admitted f expected desired" "validate_request f expected desired = Some (Inl e)"
proof -
  obtain spec where spec: "field_spec f = Some spec" using field_spec_Some by blast
  consider (inr) "validate_snapshot spec expected = Inr ()" "validate_snapshot spec desired = Inr ()"
      "validate_dword_bound f desired = Inr ()" "f \<noteq> AllowMicrosoftUpdate"
    | (inl) "f = AllowMicrosoftUpdate \<or> validate_snapshot spec expected \<noteq> Inr () \<or> validate_snapshot spec desired \<noteq> Inr () \<or>
       validate_dword_bound f desired \<noteq> Inr ()" by blast
  then show ?thesis
  proof cases
    case inr
    have "change_admitted f expected desired"
      using inr validate_snapshot_iff [OF spec] validate_dword_bound_iff [of f desired] by (simp add: change_admitted_def)
    moreover have "validate_request f expected desired = Some (Inr spec)"
      using inr spec by (simp add: validate_request_def)
    ultimately show ?thesis by (rule that(1) [OF spec])
  next
    case inl
    then have "\<not> change_admitted f expected desired"
      using validate_snapshot_iff [OF spec] validate_dword_bound_iff [of f desired] by (auto simp: change_admitted_def)
    moreover have "\<exists>e. validate_request f expected desired = Some (Inl e)"
      using inl spec by (cases "validate_snapshot spec expected"; cases "validate_snapshot spec desired"; cases "validate_dword_bound f desired")
        (auto simp: validate_request_def)
    ultimately show ?thesis using that(2) by blast
  qed
qed

text \<open>The record of the calls does not change what the adapter does.\<close>

lemma recording_mutate:
  "\<exists>r s' w more. mutate_and_verify port spec expected desired s = (r, s') \<and>
     mutate_and_verify (recording port) spec expected desired (s, es) = (r, s', es @ RegWrite spec expected desired w # more) \<and>
     (if w = Inr () \<and> more = [RegFlush spec (Inr desired), RegRead spec (Inr desired)] then r = Inr desired
      else (\<exists>e. r = Inl e) \<and> (\<forall>event\<in>set more. \<forall>a b c d. event \<noteq> RegWrite a b c d))"
proof -
  obtain w s1 where w: "port_write port spec expected desired s = (w, s1)" by fastforce
  obtain a s2 where a: "port_flush_and_read_retained port spec s1 = (a, s2)" by fastforce
  obtain b s3 where b: "port_read port spec s2 = (b, s3)" by fastforce
  show ?thesis
  proof (cases w)
    case Inl
    with w show ?thesis by (auto simp: mutate_and_verify_def recording_def)
  next
    case (Inr u)
    show ?thesis
    proof (cases "a = Inr desired")
      case True
      with w a b Inr show ?thesis
        by (cases b) (auto simp: mutate_and_verify_def recording_def verify_readback_def trust_failure_def)
    next
      case False
      with w a Inr show ?thesis
        by (cases a) (auto simp: mutate_and_verify_def recording_def verify_readback_def trust_failure_def)
    qed
  qed
qed


section \<open>A sample registry\<close>

text \<open>A registry with one value that accepts every write.\<close>

definition sample_port :: "policy_value_snapshot registry_port" where
  "sample_port = \<lparr>port_read = (\<lambda>_ s. (Inr s, s)), port_write = (\<lambda>_ _ v _. (Inr (), v)),
     port_flush_and_read_retained = (\<lambda>_ s. (Inr s, s))\<rparr>"

definition sample_update_plan :: windows_update_plan where
  "sample_update_plan = build_windows_update_plan \<lparr>field_values = [(UseWsus, Dword 1)]\<rparr> windows_update_config_default"


theorem update_plan_converges_witness:
  "wu_mutations (build_windows_update_plan (expected_post_state sample_update_plan) windows_update_config_default) = [] \<and>
   wu_mutations sample_update_plan \<noteq> []"
proof -
  have "resolve_desired_state \<lparr>param_config = None, param_desired = None\<rparr> = Inr windows_update_config_default"
    by code_simp
  moreover have "map_entries_ok (field_values \<lparr>field_values = [(UseWsus, Dword 1)]\<rparr>)"
    by (simp add: map_entries_ok_def)
  moreover have "wu_mutations sample_update_plan \<noteq> []" by code_simp
  ultimately show ?thesis
    using update_plan_converges [OF _ _ sample_update_plan_def refl] by blast
qed

end
