(* ===== verification/Native_Action.thy ===== *)
theory Native_Action
  imports Windows_Update Journal
begin

text \<open>
  The sealed executor of one Windows Update action, \<open>baselineops-engine/src/native_execution/action.rs\<close>. It
  reaches the machine only through the trait \<open>ActionPort\<close>: an observation, the recovery document, the journal
  and one mutation at a time. The port is a record of functions on a state of any type, so that every theorem
  holds for whatever the machine does. The text of a failure is a value of the type \<open>detail\<close>, one constructor
  for each message.
\<close>

section \<open>Definitions\<close>

datatype failure_phase = PhasePrecondition | PhaseRecoveryEvidence | PhaseJournal | PhaseMutation | PhasePostcondition

datatype detail =
    NotWindowsUpdate
  | IncompleteState string
  | PolicyRejected string
  | NotCanonical
  | StalePreState
  | DigestFailed domain_error
  | RecoveryFailed string
  | AppendFailed string
  | AppendDigestFailed domain_error
  | ObserveFailed string string
  | MutationFailed windows_update_field string
  | UnexpectedValue windows_update_field
  | PostStateMismatch
  | AfterFailure detail detail

record action_failure =
  failure_phase_of :: failure_phase
  failure_detail :: detail
  mutation_attempted :: bool

record action_outcome =
  outcome_receipt :: "action_receipt option"
  outcome_failure :: "action_failure option"
  outcome_reboot_possible :: bool
  may_finish_run :: bool

record 's action_port =
  act_observe :: "'s \<Rightarrow> (string + windows_update_observation) \<times> 's"
  act_persist_recovery ::
    "uuid \<Rightarrow> windows_update_observation \<Rightarrow> windows_update_observation \<Rightarrow> 's \<Rightarrow> (string + unit) \<times> 's"
  act_append :: "journal_event \<Rightarrow> 's \<Rightarrow> (string + unit) \<times> 's"
  act_mutate ::
    "windows_update_field \<Rightarrow> policy_value_snapshot \<Rightarrow> policy_value_snapshot \<Rightarrow> 's \<Rightarrow>
     (string + policy_value_snapshot) \<times> 's"

definition windows_update_capability :: capability_id where
  "windows_update_capability = ''v3.windows-update.policy''"

definition windows_update_fields :: "windows_update_field list" where
  "windows_update_fields = [UseWsus, WsusServer, WsusStatusServer, AllowMicrosoftUpdate, DeferFeatureUpdates,
     DeferFeatureDays, DeferQualityUpdates, DeferQualityDays, TargetReleaseVersion, ProductVersion,
     TargetReleaseVersionInfo, DeliveryOptimizationMode]"

text \<open>The documents whose digests a receipt binds.\<close>

fun field_text :: "windows_update_field \<Rightarrow> string" where
  "field_text UseWsus = ''use_wsus''"
| "field_text WsusServer = ''wsus_server''"
| "field_text WsusStatusServer = ''wsus_status_server''"
| "field_text AllowMicrosoftUpdate = ''allow_microsoft_update''"
| "field_text DeferFeatureUpdates = ''defer_feature_updates''"
| "field_text DeferFeatureDays = ''defer_feature_days''"
| "field_text DeferQualityUpdates = ''defer_quality_updates''"
| "field_text DeferQualityDays = ''defer_quality_days''"
| "field_text TargetReleaseVersion = ''target_release_version''"
| "field_text ProductVersion = ''product_version''"
| "field_text TargetReleaseVersionInfo = ''target_release_version_info''"
| "field_text DeliveryOptimizationMode = ''delivery_optimization_mode''"

fun snapshot_json :: "policy_value_snapshot \<Rightarrow> jvalue" where
  "snapshot_json Missing = obj [field ''status'' (JString ''missing'')]"
| "snapshot_json (Dword n) = obj [field ''status'' (JString ''dword''), field ''value'' (jnat (unat n))]"
| "snapshot_json (PolicyString s) = obj [field ''status'' (JString ''string''), field ''value'' (JString s)]"

definition observation_json :: "windows_update_observation \<Rightarrow> jvalue" where
  "observation_json obs = obj [field ''values''
     (obj (map (\<lambda>(f, v). field (field_text f) (snapshot_json v)) (field_values obs)))]"

definition receipt_json :: "'h ext \<Rightarrow> action_receipt \<Rightarrow> jvalue" where
  "receipt_json E r = obj [
     field ''action_id'' (juuid E (receipt_action_id r)), field ''capability'' (JString (receipt_capability r)),
     field ''pre_state_digest'' (jdigest (pre_state_digest r)),
     field ''post_state_digest'' (jdigest (post_state_digest r)),
     field ''status'' (JString (action_status_text (receipt_status r)))]"

definition observation_digest :: "'h ext \<Rightarrow> windows_update_observation \<Rightarrow> domain_error + digest" where
  "observation_digest E obs = canonical_json_digest E (\<lambda>obs. Inr (observation_json obs)) obs"

definition receipt_digest :: "'h ext \<Rightarrow> action_receipt \<Rightarrow> domain_error + digest" where
  "receipt_digest E r = canonical_json_digest E (\<lambda>r. Inr (receipt_json E r)) r"

definition failed_before_start :: "failure_phase \<Rightarrow> detail \<Rightarrow> action_outcome" where
  "failed_before_start phase d = \<lparr>outcome_receipt = None,
     outcome_failure = Some \<lparr>failure_phase_of = phase, failure_detail = d, mutation_attempted = False\<rparr>,
     outcome_reboot_possible = False, may_finish_run = True\<rparr>"

definition unmatched_start :: "failure_phase \<Rightarrow> detail \<Rightarrow> bool \<Rightarrow> action_outcome" where
  "unmatched_start phase d attempted = \<lparr>outcome_receipt = None,
     outcome_failure = Some \<lparr>failure_phase_of = phase, failure_detail = d, mutation_attempted = attempted\<rparr>,
     outcome_reboot_possible = attempted, may_finish_run = False\<rparr>"

definition journal_failure :: "bool \<Rightarrow> detail \<Rightarrow> action_outcome" where
  "journal_failure attempted d = unmatched_start PhaseJournal d attempted"

definition require_complete :: "windows_update_observation \<Rightarrow> string \<Rightarrow> detail + unit" where
  "require_complete obs label =
     (if length (field_values obs) = length windows_update_fields \<and>
         list_all (\<lambda>f. map_of (field_values obs) f \<noteq> None) windows_update_fields
      then Inr () else Inl (IncompleteState label))"

definition validate_update_plan ::
    "capability_id \<Rightarrow> windows_update_plan \<Rightarrow> detail + windows_update_observation" where
  "validate_update_plan cap plan =
     (if cap \<noteq> windows_update_capability then Inl NotWindowsUpdate
      else
        and_then (require_complete (wu_observation plan) ''planned pre-state'') (\<lambda>_.
        and_then (require_complete (wu_rollback plan) ''rollback pre-state'') (\<lambda>_.
        and_then (map_err PolicyRejected
            (resolve_desired_state \<lparr>param_config = None, param_desired = Some (wu_desired plan)\<rparr>)) (\<lambda>desired.
          if build_windows_update_plan (wu_observation plan) desired \<noteq> plan then Inl NotCanonical
          else Inr (expected_post_state plan)))))"

definition observe_complete ::
    "'s action_port \<Rightarrow> string \<Rightarrow> 's \<Rightarrow> (detail + windows_update_observation) \<times> 's" where
  "observe_complete port label s =
     (let (r, s) = act_observe port s in
      (and_then (map_err (ObserveFailed label) r) (\<lambda>obs. and_then (require_complete obs label) (\<lambda>_. Inr obs)), s))"

record prepared_action =
  prepared_pre :: windows_update_observation
  prepared_post :: windows_update_observation

datatype preparation = Ready prepared_action | PreparationFailed action_outcome

definition prepare_action ::
    "'h ext \<Rightarrow> uuid \<Rightarrow> capability_id \<Rightarrow> windows_update_plan \<Rightarrow> 's action_port \<Rightarrow> 's \<Rightarrow> preparation \<times> 's" where
  "prepare_action E aid cap plan port s =
     (case validate_update_plan cap plan of
        Inl d \<Rightarrow> (PreparationFailed (failed_before_start PhasePrecondition d), s)
      | Inr expected_post \<Rightarrow>
     (case observe_complete port ''pre-state'' s of
        (Inl d, s) \<Rightarrow> (PreparationFailed (failed_before_start PhasePrecondition d), s)
      | (Inr pre, s) \<Rightarrow>
     (if pre \<noteq> wu_observation plan
      then (PreparationFailed (failed_before_start PhasePrecondition StalePreState), s)
      else
     (case observation_digest E pre of
        Inl e \<Rightarrow> (PreparationFailed (failed_before_start PhasePrecondition (DigestFailed e)), s)
      | Inr pre_digest \<Rightarrow>
     (case act_persist_recovery port aid pre expected_post s of
        (Inl e, s) \<Rightarrow> (PreparationFailed (failed_before_start PhaseRecoveryEvidence (RecoveryFailed e)), s)
      | (Inr _, s) \<Rightarrow>
     (case act_append port (ActionStarted (uuid_text E aid) pre_digest) s of
        (Inl e, s) \<Rightarrow> (PreparationFailed (journal_failure False (AppendFailed e)), s)
      | (Inr _, s) \<Rightarrow> (Ready \<lparr>prepared_pre = pre, prepared_post = expected_post\<rparr>, s)))))))"

definition apply_mutation ::
    "'s action_port \<Rightarrow> windows_update_mutation \<Rightarrow> policy_value_snapshot \<Rightarrow> 's \<Rightarrow> (detail + unit) \<times> 's" where
  "apply_mutation port m expected s =
     (let (r, s) = act_mutate port (mutation_field m) expected (mutation_desired m) s in
      (and_then (map_err (MutationFailed (mutation_field m)) r) (\<lambda>observed.
         if observed \<noteq> mutation_desired m then Inl (UnexpectedValue (mutation_field m)) else Inr ()), s))"

text \<open>The loop of \<open>mutate_then_observe\<close>. \<open>None\<close> is the panic of \<open>expect\<close>.\<close>

fun mutate_loop ::
    "'s action_port \<Rightarrow> windows_update_observation \<Rightarrow> windows_update_mutation list \<Rightarrow> 's \<Rightarrow>
     ((detail + unit) \<times> 's) option" where
  "mutate_loop port pre [] s = Some (Inr (), s)"
| "mutate_loop port pre (m # ms) s =
     (case map_of (field_values pre) (mutation_field m) of
        None \<Rightarrow> None
      | Some expected \<Rightarrow>
          (case apply_mutation port m expected s of
             (Inr _, s) \<Rightarrow> mutate_loop port pre ms s
           | (Inl d, s) \<Rightarrow> Some (Inl d, s)))"

definition build_receipt ::
    "'h ext \<Rightarrow> uuid \<Rightarrow> capability_id \<Rightarrow> windows_update_observation \<Rightarrow> windows_update_observation \<Rightarrow> action_status \<Rightarrow>
     domain_error + action_receipt" where
  "build_receipt E aid cap pre post status =
     and_then (observation_digest E pre) (\<lambda>pre_digest.
     and_then (observation_digest E post) (\<lambda>post_digest.
       Inr \<lparr>receipt_action_id = aid, receipt_capability = cap, pre_state_digest = pre_digest,
         post_state_digest = post_digest, receipt_status = status\<rparr>))"

definition record_terminal ::
    "'h ext \<Rightarrow> 's action_port \<Rightarrow> uuid \<Rightarrow> capability_id \<Rightarrow> windows_update_observation \<Rightarrow> bool \<Rightarrow>
     windows_update_observation \<Rightarrow> action_status \<Rightarrow> (failure_phase \<times> detail) option \<Rightarrow> 's \<Rightarrow>
     action_outcome \<times> 's" where
  "record_terminal E port aid cap pre attempted post status failure s =
     (case build_receipt E aid cap pre post status of
        Inl e \<Rightarrow> (journal_failure attempted (AppendDigestFailed e), s)
      | Inr receipt \<Rightarrow>
     (case receipt_digest E receipt of
        Inl e \<Rightarrow> (journal_failure attempted (AppendDigestFailed e), s)
      | Inr d \<Rightarrow>
     (case act_append port (ActionFinished (uuid_text E aid) status d) s of
        (Inl e, s) \<Rightarrow> (journal_failure attempted (AppendFailed e), s)
      | (Inr _, s) \<Rightarrow>
          (\<lparr>outcome_receipt = Some receipt,
            outcome_failure = map_option (\<lambda>(phase, d).
              \<lparr>failure_phase_of = phase, failure_detail = d, mutation_attempted = attempted\<rparr>) failure,
            outcome_reboot_possible = attempted, may_finish_run = True\<rparr>, s))))"

definition finish_after_mutations ::
    "'h ext \<Rightarrow> 's action_port \<Rightarrow> uuid \<Rightarrow> capability_id \<Rightarrow> windows_update_observation \<Rightarrow>
     windows_update_observation \<Rightarrow> bool \<Rightarrow> 's \<Rightarrow> action_outcome \<times> 's" where
  "finish_after_mutations E port aid cap pre expected_post attempted s =
     (case observe_complete port ''post-state'' s of
        (Inl d, s) \<Rightarrow> (unmatched_start PhasePostcondition d attempted, s)
      | (Inr observed, s) \<Rightarrow>
          (if observed \<noteq> expected_post
           then record_terminal E port aid cap pre attempted observed Failed
             (Some (PhasePostcondition, PostStateMismatch)) s
           else record_terminal E port aid cap pre attempted observed Succeeded None s))"

definition finish_failure ::
    "'h ext \<Rightarrow> 's action_port \<Rightarrow> uuid \<Rightarrow> capability_id \<Rightarrow> windows_update_observation \<Rightarrow>
     failure_phase \<Rightarrow> detail \<Rightarrow> bool \<Rightarrow> 's \<Rightarrow> action_outcome \<times> 's" where
  "finish_failure E port aid cap pre phase d attempted s =
     (case observe_complete port ''failure post-state'' s of
        (Inl d', s) \<Rightarrow> (unmatched_start PhasePostcondition (AfterFailure d d') attempted, s)
      | (Inr observed, s) \<Rightarrow>
          record_terminal E port aid cap pre attempted observed Failed (Some (phase, d)) s)"

definition mutate_then_observe ::
    "'h ext \<Rightarrow> uuid \<Rightarrow> capability_id \<Rightarrow> windows_update_plan \<Rightarrow> 's action_port \<Rightarrow> windows_update_observation \<Rightarrow>
     windows_update_observation \<Rightarrow> 's \<Rightarrow> (action_outcome \<times> 's) option" where
  "mutate_then_observe E aid cap plan port pre expected_post s =
     map_option (\<lambda>(r, s).
       case r of
         Inl d \<Rightarrow> finish_failure E port aid cap pre PhaseMutation d True s
       | Inr _ \<Rightarrow> finish_after_mutations E port aid cap pre expected_post (wu_mutations plan \<noteq> []) s)
       (mutate_loop port pre (wu_mutations plan) s)"

definition execute_windows_update ::
    "'h ext \<Rightarrow> uuid \<Rightarrow> capability_id \<Rightarrow> windows_update_plan \<Rightarrow> 's action_port \<Rightarrow> 's \<Rightarrow>
     (action_outcome \<times> 's) option" where
  "execute_windows_update E aid cap plan port s =
     (case prepare_action E aid cap plan port s of
        (PreparationFailed outcome, s) \<Rightarrow> Some (outcome, s)
      | (Ready prepared, s) \<Rightarrow>
          mutate_then_observe E aid cap plan port (prepared_pre prepared) (prepared_post prepared) s)"

end
