(* ===== verification/Native_Trace.thy ===== *)
theory Native_Trace
  imports Native_Action "HOL-Library.Sublist"
begin

section \<open>The calls of an execution\<close>

text \<open>A port that records every call and its result, on top of any port.\<close>

datatype port_call =
    CalledObserve "string + windows_update_observation"
  | CalledRecovery uuid windows_update_observation windows_update_observation "string + unit"
  | CalledAppend journal_event "string + unit"
  | CalledMutate windows_update_field policy_value_snapshot policy_value_snapshot "string + policy_value_snapshot"

definition traced_call :: "('r \<Rightarrow> port_call) \<Rightarrow> 'r \<times> 's \<Rightarrow> port_call list \<Rightarrow> 'r \<times> 's \<times> port_call list" where
  "traced_call c rs tr = (fst rs, snd rs, tr @ [c (fst rs)])"

definition traced :: "'s action_port \<Rightarrow> ('s \<times> port_call list) action_port" where
  "traced port = \<lparr>
     act_observe = (\<lambda>(s, tr). traced_call CalledObserve (act_observe port s) tr),
     act_persist_recovery = (\<lambda>aid pre post (s, tr).
       traced_call (CalledRecovery aid pre post) (act_persist_recovery port aid pre post s) tr),
     act_append = (\<lambda>event (s, tr). traced_call (CalledAppend event) (act_append port event s) tr),
     act_mutate = (\<lambda>f expected desired (s, tr).
       traced_call (CalledMutate f expected desired) (act_mutate port f expected desired s) tr)\<rparr>"

fun mutates :: "port_call list \<Rightarrow> (windows_update_field \<times> policy_value_snapshot \<times> policy_value_snapshot) list" where
  "mutates [] = []"
| "mutates (CalledMutate f expected desired r # tr) = (f, expected, desired) # mutates tr"
| "mutates (_ # tr) = mutates tr"

fun appended :: "port_call list \<Rightarrow> journal_event list" where
  "appended [] = []"
| "appended (CalledAppend event (Inr _) # tr) = event # appended tr"
| "appended (_ # tr) = appended tr"

lemma mutates_append [simp]: "mutates (tr @ us) = mutates tr @ mutates us"
  by (induction tr rule: mutates.induct) simp_all

lemma appended_append [simp]: "appended (tr @ us) = appended tr @ appended us"
  by (induction tr rule: appended.induct) simp_all

text \<open>The recording port does what the port does.\<close>

lemma traced_simps:
  "act_observe port s = map_prod id fst (act_observe (traced port) (s, tr))"
  "act_persist_recovery port aid pre post s = map_prod id fst (act_persist_recovery (traced port) aid pre post (s, tr))"
  "act_append port event s = map_prod id fst (act_append (traced port) event (s, tr))"
  "act_mutate port f v w s = map_prod id fst (act_mutate (traced port) f v w (s, tr))"
  by (simp_all add: traced_def traced_call_def)

lemma traced_observe_complete:
  "observe_complete port label s = map_prod id fst (observe_complete (traced port) label (s, tr))"
  unfolding observe_complete_def traced_simps(1) [of port s tr] by (simp add: case_prod_beta)

lemma traced_apply_mutation:
  "apply_mutation port m v s = map_prod id fst (apply_mutation (traced port) m v (s, tr))"
  unfolding apply_mutation_def traced_simps(4) [of port _ _ _ s tr] by (simp add: case_prod_beta)

lemma traced_mutate_loop:
  "mutate_loop port pre ms s = map_option (map_prod id fst) (mutate_loop (traced port) pre ms (s, tr))"
proof (induction ms arbitrary: s tr)
  case (Cons m ms)
  show ?case
  proof (cases "map_of (field_values pre) (mutation_field m)")
    case (Some v)
    obtain r s' tr' where "apply_mutation (traced port) m v (s, tr) = (r, s', tr')" by (metis prod_cases3)
    with Some Cons.IH [of s' tr'] show ?thesis
      by (cases r) (simp_all add: traced_apply_mutation [of port m v s tr])
  qed simp
qed simp

lemma traced_record_terminal:
  "record_terminal E port aid cap pre att post st fl s =
     map_prod id fst (record_terminal E (traced port) aid cap pre att post st fl (s, tr))"
  unfolding record_terminal_def traced_simps(3) [of port _ s tr]
  by (auto split: sum.split prod.split)

lemma traced_finish:
  "finish_after_mutations E port aid cap pre post att s =
     map_prod id fst (finish_after_mutations E (traced port) aid cap pre post att (s, tr))"
  "finish_failure E port aid cap pre phase d att s =
     map_prod id fst (finish_failure E (traced port) aid cap pre phase d att (s, tr))"
  unfolding finish_after_mutations_def finish_failure_def traced_observe_complete [of port _ s tr]
  by (auto simp: traced_record_terminal split: sum.split prod.split)

lemma traced_prepare:
  "prepare_action E aid cap plan port s = map_prod id fst (prepare_action E aid cap plan (traced port) (s, tr))"
  by (simp add: prepare_action_def observe_complete_def traced_def traced_call_def case_prod_beta split: sum.split)

lemma traced_execute:
  "execute_windows_update E aid cap plan port s =
     map_option (map_prod id fst) (execute_windows_update E aid cap plan (traced port) (s, tr))"
proof -
  have "mutate_then_observe E aid cap plan port pre post s =
      map_option (map_prod id fst) (mutate_then_observe E aid cap plan (traced port) pre post (s, tr))" for pre post s tr
    unfolding mutate_then_observe_def traced_mutate_loop [of port pre _ s tr] option.map_comp
    by (rule option.map_cong [OF refl]) (auto simp: traced_finish split: sum.split)
  then show ?thesis
    unfolding execute_windows_update_def traced_prepare [of E aid cap plan port s tr]
    by (auto split: prod.split preparation.split)
qed

text \<open>The calls that announce an action before its first change.\<close>

definition announced :: "'h ext \<Rightarrow> uuid \<Rightarrow> windows_update_plan \<Rightarrow> digest \<Rightarrow> port_call list" where
  "announced E aid plan d =
     [CalledObserve (Inr (wu_observation plan)),
      CalledRecovery aid (wu_observation plan) (expected_post_state plan) (Inr ()),
      CalledAppend (ActionStarted (uuid_text E aid) d) (Inr ())]"

definition planned_change ::
    "windows_update_observation \<Rightarrow> windows_update_mutation \<Rightarrow>
     windows_update_field \<times> policy_value_snapshot \<times> policy_value_snapshot" where
  "planned_change pre m = (mutation_field m, the (map_of (field_values pre) (mutation_field m)), mutation_desired m)"

definition changed :: "windows_update_observation \<Rightarrow> windows_update_mutation \<Rightarrow> port_call" where
  "changed pre m = CalledMutate (mutation_field m) (the (map_of (field_values pre) (mutation_field m)))
     (mutation_desired m) (Inr (mutation_desired m))"

lemma mutates_changed [simp]: "mutates (map (changed pre) ms) = map (planned_change pre) ms"
  by (induction ms) (simp_all add: changed_def planned_change_def)

lemma appended_changed [simp]: "appended (map (changed pre) ms) = []"
  by (induction ms) (simp_all add: changed_def)

lemma announced_simps [simp]:
  "mutates (announced E aid plan d) = []" "appended (announced E aid plan d) = [ActionStarted (uuid_text E aid) d]"
  by (simp_all add: announced_def)

lemma observe_traced:
  "observe_complete (traced port) label (s, tr) =
     (let (r, s') = act_observe port s in
      (and_then (map_err (ObserveFailed label) r) (\<lambda>obs. and_then (require_complete obs label) (\<lambda>_. Inr obs)),
       s', tr @ [CalledObserve r]))"
  by (simp add: observe_complete_def traced_def traced_call_def case_prod_beta)

lemma observe_traced_Inr:
  assumes "observe_complete (traced port) label (s, tr) = (Inr obs, s', tr')"
  shows "tr' = tr @ [CalledObserve (Inr obs)]"
  using assms by (auto simp: observe_traced res_simps split: prod.splits)

lemma observe_traced_cases:
  obtains r s' us where "observe_complete (traced port) label (s, tr) = (r, s', tr @ us)"
    "mutates us = []" "appended us = []"
  by (simp add: observe_traced case_prod_beta)

lemma mutate_loop_traced:
  assumes "\<forall>m\<in>set ms. map_of (field_values pre) (mutation_field m) \<noteq> None"
  shows "\<exists>r s' cs. mutate_loop (traced port) pre ms (s, tr) = Some (r, s', tr @ cs) \<and> appended cs = [] \<and>
    prefix (mutates cs) (map (planned_change pre) ms) \<and> (r = Inr () \<longrightarrow> cs = map (changed pre) ms)"
  using assms
proof (induction ms arbitrary: s tr)
  case (Cons m ms)
  then obtain v where v: "map_of (field_values pre) (mutation_field m) = Some v" by auto
  obtain r s1 where r: "act_mutate port (mutation_field m) v (mutation_desired m) s = (r, s1)" by fastforce
  let ?c = "CalledMutate (mutation_field m) v (mutation_desired m) r"
  have pc: "planned_change pre m = (mutation_field m, v, mutation_desired m)"
    by (simp add: planned_change_def v)
  have step: "apply_mutation (traced port) m v (s, tr) =
      (and_then (map_err (MutationFailed (mutation_field m)) r) (\<lambda>observed.
         if observed \<noteq> mutation_desired m then Inl (UnexpectedValue (mutation_field m)) else Inr ()), s1, tr @ [?c])"
    by (simp add: apply_mutation_def traced_def traced_call_def r)
  show ?case
  proof (cases "r = Inr (mutation_desired m)")
    case True
    from Cons.IH [of s1 "tr @ [?c]"] Cons.prems obtain r' s' cs where
      "mutate_loop (traced port) pre ms (s1, tr @ [?c]) = Some (r', s', (tr @ [?c]) @ cs)" "appended cs = []"
      "prefix (mutates cs) (map (planned_change pre) ms)" "r' = Inr () \<longrightarrow> cs = map (changed pre) ms"
      by auto
    with True v step show ?thesis
      by (intro exI [of _ r'] exI [of _ s'] exI [of _ "?c # cs"]) (auto simp: pc changed_def)
  next
    case False
    then have "mutate_loop (traced port) pre (m # ms) (s, tr) =
        Some (Inl (case r of Inl e \<Rightarrow> MutationFailed (mutation_field m) e | Inr _ \<Rightarrow> UnexpectedValue (mutation_field m)),
          s1, tr @ [?c])"
      using v step by (cases r) simp_all
    then show ?thesis
      using v by (auto simp: pc intro!: exI [of _ "[?c]"])
  qed
qed simp

lemma record_terminal_traced:
  "\<exists>out s' us. record_terminal E (traced port) aid cap pre att post st fl (s, tr) = (out, s', tr @ us) \<and>
     mutates us = [] \<and>
     (case outcome_receipt out of
        Some receipt \<Rightarrow> \<exists>d. build_receipt E aid cap pre post st = Inr receipt \<and> receipt_digest E receipt = Inr d \<and>
          us = [CalledAppend (ActionFinished (uuid_text E aid) st d) (Inr ())] \<and> may_finish_run out \<and>
          (outcome_failure out = None \<longleftrightarrow> fl = None)
      | None \<Rightarrow> \<not> may_finish_run out \<and> outcome_failure out \<noteq> None)"
proof -
  note defs = record_terminal_def journal_failure_def unmatched_start_def traced_def traced_call_def
  show ?thesis
  proof (cases "build_receipt E aid cap pre post st")
    case (Inr receipt)
    note rec = this
    show ?thesis
    proof (cases "receipt_digest E receipt")
      case (Inr d)
      obtain r s1 where "act_append port (ActionFinished (uuid_text E aid) st d) s = (r, s1)" by fastforce
      with rec Inr show ?thesis by (cases r) (simp_all add: defs)
    qed (simp add: rec defs)
  qed (simp add: defs)
qed

lemma prepare_traced:
  "\<exists>p s' tr. prepare_action E aid cap plan (traced port) (s, []) = (p, s', tr) \<and>
     (case p of
        Ready q \<Rightarrow> q = \<lparr>prepared_pre = wu_observation plan, prepared_post = expected_post_state plan\<rparr> \<and>
          validate_update_plan cap plan = Inr (expected_post_state plan) \<and>
          (\<exists>d. observation_digest E (wu_observation plan) = Inr d \<and> tr = announced E aid plan d)
      | PreparationFailed out \<Rightarrow> mutates tr = [] \<and> outcome_receipt out = None \<and> outcome_failure out \<noteq> None \<and>
          (may_finish_run out \<longrightarrow> appended tr = []))"
proof -
  note defs = prepare_action_def failed_before_start_def journal_failure_def unmatched_start_def
  show ?thesis
  proof (cases "validate_update_plan cap plan")
    case (Inr post)
    note plan = this
    then have post: "post = expected_post_state plan"
      by (auto simp: validate_update_plan_def res_simps split: if_splits)
    obtain x s1 us where x: "observe_complete (traced port) ''pre-state'' (s, []) = (x, s1, us)"
      "mutates us = []" "appended us = []"
      by (rule observe_traced_cases [of port "''pre-state''" s "[]"]) simp
    show ?thesis
    proof (cases "x = Inr (wu_observation plan)")
      case False
      then show ?thesis by (cases x) (auto simp: defs plan x)
    next
      case True
      note pre = observe_traced_Inr [OF x(1) [unfolded True]]
      show ?thesis
      proof (cases "observation_digest E (wu_observation plan)")
        case (Inr d)
        obtain y s2 where y: "act_persist_recovery port aid (wu_observation plan) post s1 = (y, s2)" by fastforce
        obtain z s3 where z: "act_append port (ActionStarted (uuid_text E aid) d) s2 = (z, s3)" by fastforce
        show ?thesis
          using y z plan x(1) True Inr pre
          by (cases y; cases z) (auto simp: defs traced_def traced_call_def announced_def post)
      qed (use True plan x in \<open>auto simp: defs\<close>)
    qed
  qed (simp add: defs)
qed

lemma validated_plan_complete:
  assumes "validate_update_plan cap plan = Inr post"
  shows "\<forall>m\<in>set (wu_mutations plan). map_of (field_values (wu_observation plan)) (mutation_field m) \<noteq> None"
proof -
  have "list_all (\<lambda>f. map_of (field_values (wu_observation plan)) f \<noteq> None) windows_update_fields"
    using assms by (auto simp: validate_update_plan_def require_complete_def res_simps split: if_splits)
  moreover have "f \<in> set windows_update_fields" for f
    by (cases f) (simp_all add: windows_update_fields_def)
  ultimately show ?thesis by (auto simp: list_all_iff)
qed

text \<open>What happens after the announcement, whatever the mutations and the observation return.\<close>

lemma mutate_then_observe_traced:
  assumes "validate_update_plan cap plan = Inr post"
  shows "\<exists>out s' us. mutate_then_observe E aid cap plan (traced port) (wu_observation plan) post (s, tr)
      = Some (out, s', tr @ us) \<and>
    prefix (mutates us) (map (planned_change (wu_observation plan)) (wu_mutations plan)) \<and>
    (case outcome_receipt out of
       None \<Rightarrow> \<not> may_finish_run out \<and> outcome_failure out \<noteq> None
     | Some receipt \<Rightarrow> \<exists>d. appended us = [ActionFinished (uuid_text E aid) (receipt_status receipt) d] \<and>
         receipt_digest E receipt = Inr d \<and> (outcome_failure out = None \<longleftrightarrow> receipt_status receipt = Succeeded) \<and>
         (receipt_status receipt = Succeeded \<longrightarrow>
            build_receipt E aid cap (wu_observation plan) post Succeeded = Inr receipt \<and>
            us = map (changed (wu_observation plan)) (wu_mutations plan) @
              [CalledObserve (Inr post), CalledAppend (ActionFinished (uuid_text E aid) Succeeded d) (Inr ())]))"
proof -
  let ?pre = "wu_observation plan" and ?ms = "wu_mutations plan"
  have status: "build_receipt E aid cap pre post st = Inr r \<Longrightarrow> receipt_status r = st" for pre post st r
    by (auto simp: build_receipt_def res_simps)
  obtain r s1 cs where loop: "mutate_loop (traced port) ?pre ?ms (s, tr) = Some (r, s1, tr @ cs)"
    "appended cs = []" "prefix (mutates cs) (map (planned_change ?pre) ?ms)" "r = Inr () \<longrightarrow> cs = map (changed ?pre) ?ms"
    using mutate_loop_traced [OF validated_plan_complete [OF assms], of port s tr] by blast
  define label where "label = (case r of Inl _ \<Rightarrow> ''failure post-state'' | Inr _ \<Rightarrow> ''post-state'')"
  obtain x s2 us where x: "observe_complete (traced port) label (s1, tr @ cs) = (x, s2, (tr @ cs) @ us)"
    "mutates us = []" "appended us = []"
    by (rule observe_traced_cases)
  show ?thesis
  proof (cases x)
    case (Inl d)
    with loop x show ?thesis
      by (cases r) (auto simp: mutate_then_observe_def finish_failure_def finish_after_mutations_def label_def
          unmatched_start_def)
  next
    case (Inr obs)
    have us: "us = [CalledObserve (Inr obs)]"
      using observe_traced_Inr [OF x(1) [unfolded Inr]] by simp
    define st fl att where "st = (if r = Inr () \<and> obs = post then Succeeded else Failed)"
      and "fl = (case r of Inl d \<Rightarrow> Some (PhaseMutation, d)
        | Inr _ \<Rightarrow> if obs = post then None else Some (PhasePostcondition, PostStateMismatch))"
      and "att = (case r of Inl _ \<Rightarrow> True | Inr _ \<Rightarrow> ?ms \<noteq> [])"
    have run: "mutate_then_observe E aid cap plan (traced port) ?pre post (s, tr) =
        Some (record_terminal E (traced port) aid cap ?pre att obs st fl (s2, tr @ cs @ us))"
      using loop x Inr
      by (cases r) (simp_all add: mutate_then_observe_def finish_failure_def finish_after_mutations_def label_def
          st_def fl_def att_def)
    obtain out s' vs where t:
      "record_terminal E (traced port) aid cap ?pre att obs st fl (s2, tr @ cs @ us) = (out, s', (tr @ cs @ us) @ vs)"
      "mutates vs = []"
      "case outcome_receipt out of
        Some receipt \<Rightarrow> \<exists>d. build_receipt E aid cap ?pre obs st = Inr receipt \<and> receipt_digest E receipt = Inr d \<and>
          vs = [CalledAppend (ActionFinished (uuid_text E aid) st d) (Inr ())] \<and> may_finish_run out \<and>
          (outcome_failure out = None \<longleftrightarrow> fl = None)
      | None \<Rightarrow> \<not> may_finish_run out \<and> outcome_failure out \<noteq> None"
      using record_terminal_traced [of E port aid cap ?pre att obs st fl s2 "tr @ cs @ us"] by blast
    have fl: "fl = None \<longleftrightarrow> st = Succeeded"
      by (cases r) (simp_all add: st_def fl_def)
    have ok: "st = Succeeded \<Longrightarrow> r = Inr () \<and> obs = post"
      by (auto simp: st_def split: if_splits)
    show ?thesis
    proof (cases "outcome_receipt out")
      case None
      with t run loop(3) x(2) show ?thesis by auto
    next
      case (Some receipt)
      with t(3) obtain d where d: "build_receipt E aid cap ?pre obs st = Inr receipt" "receipt_digest E receipt = Inr d"
        "vs = [CalledAppend (ActionFinished (uuid_text E aid) st d) (Inr ())]" "outcome_failure out = None \<longleftrightarrow> fl = None"
        by auto
      have st: "receipt_status receipt = st" by (rule status [OF d(1)])
      show ?thesis
      proof (intro exI conjI)
        show "mutate_then_observe E aid cap plan (traced port) ?pre post (s, tr) = Some (out, s', tr @ cs @ us @ vs)"
          by (simp add: run t(1))
        show "prefix (mutates (cs @ us @ vs)) (map (planned_change ?pre) ?ms)"
          using loop(3) x(2) t(2) by simp
        show "case outcome_receipt out of
          None \<Rightarrow> \<not> may_finish_run out \<and> outcome_failure out \<noteq> None
        | Some receipt \<Rightarrow> \<exists>d. appended (cs @ us @ vs) = [ActionFinished (uuid_text E aid) (receipt_status receipt) d] \<and>
            receipt_digest E receipt = Inr d \<and> (outcome_failure out = None \<longleftrightarrow> receipt_status receipt = Succeeded) \<and>
            (receipt_status receipt = Succeeded \<longrightarrow>
               build_receipt E aid cap ?pre post Succeeded = Inr receipt \<and>
               cs @ us @ vs = map (changed ?pre) ?ms @
                 [CalledObserve (Inr post), CalledAppend (ActionFinished (uuid_text E aid) Succeeded d) (Inr ())])"
          using d loop(2,4) x(3) fl ok us by (auto simp: Some st)
      qed
    qed
  qed
qed

section \<open>Write-ahead execution\<close>

lemma journal_closed:
  assumes "uuid_text E aid \<noteq> []"
  shows "\<exists>l. from_snapshot [PlanApproved pid pd, ActionStarted (uuid_text E aid) d,
      ActionFinished (uuid_text E aid) st d'] = Inr l \<and> active l = None"
    and "\<exists>l. from_snapshot [PlanApproved pid pd] = Inr l \<and> active l = None"
  using assms
  by (simp_all add: from_snapshot_def lifecycle_step_def lifecycle_validate_def validate_approval_def
      validate_start_def validate_finish_def lifecycle_default_def)

text \<open>
  C4: a change is announced before it is made. Whatever the machine answers, an execution returns, and it changes
  a value only after the recovery document and the start record are durable; the changes are a beginning of the
  planned ones, each made over the value that was planned against. Success is reported exactly with a receipt
  that says so, and then every change was made and confirmed, the state read back is the planned one, and the
  receipt binds both states and is itself bound by the journal. When the run may be finished, the journal has no
  open action.
\<close>

theorem action_write_ahead:
  assumes "uuid_text E aid \<noteq> []"
  shows "\<exists>out s' tr. execute_windows_update E aid cap plan port s = Some (out, s') \<and>
    execute_windows_update E aid cap plan (traced port) (s, []) = Some (out, s', tr) \<and>
    (mutates tr \<noteq> [] \<longrightarrow>
       (\<exists>d. observation_digest E (wu_observation plan) = Inr d \<and> prefix (announced E aid plan d) tr)) \<and>
    prefix (mutates tr) (map (planned_change (wu_observation plan)) (wu_mutations plan)) \<and>
    (outcome_failure out = None \<longleftrightarrow> (\<exists>r. outcome_receipt out = Some r \<and> receipt_status r = Succeeded)) \<and>
    (outcome_failure out = None \<longrightarrow>
       (\<exists>r d d'. outcome_receipt out = Some r \<and>
          build_receipt E aid cap (wu_observation plan) (expected_post_state plan) Succeeded = Inr r \<and>
          tr = announced E aid plan d @ map (changed (wu_observation plan)) (wu_mutations plan) @
            [CalledObserve (Inr (expected_post_state plan)),
             CalledAppend (ActionFinished (uuid_text E aid) Succeeded d') (Inr ())] \<and>
          receipt_digest E r = Inr d')) \<and>
    (may_finish_run out \<longrightarrow>
       (\<exists>l. from_snapshot (PlanApproved pid pd # appended tr) = Inr l \<and> active l = None))"
proof -
  let ?pre = "wu_observation plan" and ?post = "expected_post_state plan"
  note same = traced_execute [of E aid cap plan port s "[]"]
  obtain p s1 tr where p: "prepare_action E aid cap plan (traced port) (s, []) = (p, s1, tr)"
    "case p of
        Ready q \<Rightarrow> q = \<lparr>prepared_pre = ?pre, prepared_post = ?post\<rparr> \<and>
          validate_update_plan cap plan = Inr ?post \<and>
          (\<exists>d. observation_digest E ?pre = Inr d \<and> tr = announced E aid plan d)
      | PreparationFailed out \<Rightarrow> mutates tr = [] \<and> outcome_receipt out = None \<and> outcome_failure out \<noteq> None \<and>
          (may_finish_run out \<longrightarrow> appended tr = [])"
    using prepare_traced [of E aid cap plan port s] by blast
  show ?thesis
  proof (cases p)
    case (PreparationFailed out)
    with p journal_closed(2) [OF assms, of pid pd] show ?thesis
      unfolding same by (auto simp: execute_windows_update_def)
  next
    case (Ready q)
    with p(2) obtain d where q: "q = \<lparr>prepared_pre = ?pre, prepared_post = ?post\<rparr>"
      "validate_update_plan cap plan = Inr ?post" "observation_digest E ?pre = Inr d" "tr = announced E aid plan d"
      by auto
    from mutate_then_observe_traced [OF q(2), of E aid port s1 tr] obtain out s' us where u:
      "mutate_then_observe E aid cap plan (traced port) ?pre ?post (s1, tr) = Some (out, s', tr @ us)"
      "prefix (mutates us) (map (planned_change ?pre) (wu_mutations plan))"
      "case outcome_receipt out of
         None \<Rightarrow> \<not> may_finish_run out \<and> outcome_failure out \<noteq> None
       | Some receipt \<Rightarrow> \<exists>d. appended us = [ActionFinished (uuid_text E aid) (receipt_status receipt) d] \<and>
         receipt_digest E receipt = Inr d \<and> (outcome_failure out = None \<longleftrightarrow> receipt_status receipt = Succeeded) \<and>
         (receipt_status receipt = Succeeded \<longrightarrow>
            build_receipt E aid cap ?pre ?post Succeeded = Inr receipt \<and>
            us = map (changed ?pre) (wu_mutations plan) @
              [CalledObserve (Inr ?post), CalledAppend (ActionFinished (uuid_text E aid) Succeeded d) (Inr ())])"
      by blast
    have run: "execute_windows_update E aid cap plan (traced port) (s, []) = Some (out, s', announced E aid plan d @ us)"
      using p(1) u(1) by (simp add: execute_windows_update_def Ready q)
    show ?thesis
    proof (cases "outcome_receipt out")
      case None
      with u run q(3) show ?thesis unfolding same by auto
    next
      case (Some r)
      with u(3) obtain d' where r: "appended us = [ActionFinished (uuid_text E aid) (receipt_status r) d']"
        "receipt_digest E r = Inr d'" "outcome_failure out = None \<longleftrightarrow> receipt_status r = Succeeded"
        "receipt_status r = Succeeded \<longrightarrow> build_receipt E aid cap ?pre ?post Succeeded = Inr r \<and>
            us = map (changed ?pre) (wu_mutations plan) @
              [CalledObserve (Inr ?post), CalledAppend (ActionFinished (uuid_text E aid) Succeeded d') (Inr ())]"
        by auto
      show ?thesis
        unfolding same using run u(2) q(3) Some r journal_closed(1) [OF assms, of pid pd d "receipt_status r" d'] by auto
    qed
  qed
qed

section \<open>A sample execution\<close>

definition sample_observation :: windows_update_observation where
  "sample_observation = \<lparr>field_values = map (\<lambda>f. (f, Missing)) windows_update_fields\<rparr>"

definition sample_action_plan :: windows_update_plan where
  "sample_action_plan = build_windows_update_plan sample_observation windows_update_config_default"

text \<open>A machine that does what it is asked to do.\<close>

definition sample_action_port :: "windows_update_observation action_port" where
  "sample_action_port = \<lparr>act_observe = (\<lambda>s. (Inr s, s)), act_persist_recovery = (\<lambda>_ _ _ s. (Inr (), s)),
     act_append = (\<lambda>_ s. (Inr (), s)),
     act_mutate = (\<lambda>f _ v s. (Inr v, s\<lparr>field_values := bt_insert f v (field_values s)\<rparr>))\<rparr>"

lemma sample_action_plan_valid:
  "validate_update_plan windows_update_capability sample_action_plan = Inr (expected_post_state sample_action_plan)"
  by code_simp

lemma sample_action_mutates:
  "mutate_loop sample_action_port sample_observation (wu_mutations sample_action_plan) sample_observation =
     Some (Inr (), expected_post_state sample_action_plan)"
  "require_complete (expected_post_state sample_action_plan) l = Inr ()" "require_complete sample_observation l = Inr ()"
  "wu_mutations sample_action_plan \<noteq> []" "wu_observation sample_action_plan = sample_observation"
  by code_simp+

lemma sample_port_simps:
  "act_observe sample_action_port s = (Inr s, s)" "act_persist_recovery sample_action_port i pre post s = (Inr (), s)"
  "act_append sample_action_port event s = (Inr (), s)"
  by (simp_all add: sample_action_port_def)

lemma sample_digests:
  "observation_digest id_ext obs = Inr (render id_ext (observation_json obs))"
  "receipt_digest id_ext r = Inr (render id_ext (receipt_json id_ext r))"
  by (simp_all add: observation_digest_def receipt_digest_def canonical_json_digest_eq [OF id_ext_contracts(1)])

lemma sample_action_succeeds:
  "map_option (\<lambda>(out, s'). outcome_failure out) (execute_windows_update id_ext 1 windows_update_capability
     sample_action_plan sample_action_port sample_observation) = Some None"
proof -
  have observe: "observe_complete sample_action_port l obs = (Inr obs, obs)"
    if "require_complete obs l = Inr ()" for obs l
    using that by (simp add: observe_complete_def sample_port_simps)
  have "prepare_action id_ext 1 windows_update_capability sample_action_plan sample_action_port sample_observation =
      (Ready \<lparr>prepared_pre = sample_observation, prepared_post = expected_post_state sample_action_plan\<rparr>,
       sample_observation)"
    by (simp add: prepare_action_def sample_action_plan_valid observe sample_action_mutates sample_digests
        sample_port_simps)
  then show ?thesis
    by (simp add: execute_windows_update_def mutate_then_observe_def sample_action_mutates finish_after_mutations_def
        observe record_terminal_def build_receipt_def sample_digests sample_port_simps)
qed

theorem action_write_ahead_witness:
  "\<exists>out s' tr. execute_windows_update id_ext 1 windows_update_capability sample_action_plan (traced sample_action_port)
     (sample_observation, []) = Some (out, s', tr) \<and> outcome_failure out = None \<and>
   mutates tr = map (planned_change sample_observation) (wu_mutations sample_action_plan) \<and> mutates tr \<noteq> []"
proof -
  have "uuid_text id_ext 1 \<noteq> []" by simp
  from action_write_ahead [OF this, of windows_update_capability sample_action_plan sample_action_port
      sample_observation 0 "[]"]
  show ?thesis
    unfolding sample_action_mutates(5)
  proof (elim exE conjE)
    fix out s' tr
    assume r: "execute_windows_update id_ext 1 windows_update_capability sample_action_plan
        sample_action_port sample_observation = Some (out, s')"
      and run: "execute_windows_update id_ext 1 windows_update_capability sample_action_plan
        (traced sample_action_port) (sample_observation, []) = Some (out, s', tr)"
      and "outcome_failure out = None \<longrightarrow> (\<exists>r d d'. outcome_receipt out = Some r \<and>
          build_receipt id_ext 1 windows_update_capability sample_observation
            (expected_post_state sample_action_plan) Succeeded = Inr r \<and>
          tr = announced id_ext 1 sample_action_plan d @
            map (changed sample_observation) (wu_mutations sample_action_plan) @
            [CalledObserve (Inr (expected_post_state sample_action_plan)),
             CalledAppend (ActionFinished (uuid_text id_ext 1) Succeeded d') (Inr ())] \<and>
          receipt_digest id_ext r = Inr d')"
    moreover have "outcome_failure out = None"
      using sample_action_succeeds r by simp
    ultimately have "mutates tr = map (planned_change sample_observation) (wu_mutations sample_action_plan)"
      by auto
    with run \<open>outcome_failure out = None\<close> sample_action_mutates(4) show ?thesis by auto
  qed
qed

end
