(* ===== verification/Committed_Result.thy ===== *)
theory Committed_Result
  imports Journal_Safety Native_Trace Result_Validate
begin

text \<open>
  The result document and its reconciliation with the journal: \<open>baselineops-engine/src/committed_result.rs\<close>,
  \<open>committed_result/document.rs\<close> and \<open>committed_result/verify.rs\<close> accept a document only against the worker's
  envelope and the journal that binds it. Reading the protected files is an argument: their bytes. The typed decoder
  \<open>de\<close>, the JSON parser \<open>parse\<close>, the record decoder \<open>dec\<close> and the identifier parser \<open>parse_id\<close> are parameters.
\<close>

section \<open>The result document\<close>

record result_document =
  document_schema :: string
  document_result_id :: uuid
  document_plan_id :: uuid
  document_run_id :: uuid
  document_plan_digest :: digest
  journal_prefix_hash :: digest
  document_receipts :: "action_receipt list"
  document_status :: result_status
  document_reason :: "string option"
  document_reboot_possible :: bool
  document_artifacts :: "artifact list"

fun result_status_text :: "result_status \<Rightarrow> string" where
  "result_status_text StCompleted = ''completed''"
| "result_status_text StExecutionFailed = ''execution_failed''"
| "result_status_text StWarnings = ''warnings''"
| "result_status_text StUnsupported = ''unsupported''"
| "result_status_text StRejected = ''rejected''"
| "result_status_text StCancelled = ''cancelled''"

fun artifact_kind_text :: "artifact_kind \<Rightarrow> string" where
  "artifact_kind_text Log = ''log''"
| "artifact_kind_text Report = ''report''"
| "artifact_kind_text Evidence = ''evidence''"
| "artifact_kind_text RollbackState = ''rollback_state''"
| "artifact_kind_text Output = ''output''"

definition artifact_json :: "'h ext \<Rightarrow> artifact \<Rightarrow> jvalue" where
  "artifact_json E a = obj [
     field ''id'' (juuid E (artifact_id a)), field ''kind'' (JString (artifact_kind_text (artifact_class a))),
     field ''media_type'' (JString (media_type a)), field ''locator'' (JString (artifact_locator a)),
     field ''digest'' (jdigest (artifact_digest a)), field ''size_bytes'' (jnat (artifact_size_bytes a)),
     field ''created_at'' (jtime E (artifact_created_at a)), map_field ''metadata'' (artifact_metadata a)]"

definition document_json :: "'h ext \<Rightarrow> result_document \<Rightarrow> jvalue" where
  "document_json E d = obj [
     field ''schema_version'' (JString (document_schema d)), field ''result_id'' (juuid E (document_result_id d)),
     field ''plan_id'' (juuid E (document_plan_id d)), field ''run_id'' (juuid E (document_run_id d)),
     field ''plan_digest'' (jdigest (document_plan_digest d)),
     field ''journal_prefix_hash'' (jdigest (journal_prefix_hash d)),
     field ''receipts'' (JArray (map (receipt_json E) (document_receipts d))),
     field ''status'' (JString (result_status_text (document_status d))),
     field ''reason'' (case document_reason d of None \<Rightarrow> JNull | Some t \<Rightarrow> JString t),
     field ''reboot_possible'' (JBool (document_reboot_possible d)),
     field ''artifacts'' (JArray (map (artifact_json E) (document_artifacts d)))]"

definition document_bytes :: "'h ext \<Rightarrow> result_document \<Rightarrow> domain_error + byte list" where
  "document_bytes E d = canonical_json_bytes E (\<lambda>d. Inr (document_json E d)) d"

section \<open>Reconciliation\<close>

datatype committed_result_error =
    CommittedPlatform platform_error
  | CommittedDomain domain_error
  | CommittedJournal journal_error
  | Mismatch string

fun split_once :: "char \<Rightarrow> string \<Rightarrow> (string \<times> string) option" where
  "split_once c [] = None"
| "split_once c (x # xs) = (if x = c then Some ([], xs) else map_option (\<lambda>(a, b). (x # a, b)) (split_once c xs))"

definition max_evidence_bytes :: usize where "max_evidence_bytes = 1024 * 1024"
definition max_journal_bytes :: usize where "max_journal_bytes = 8 * 1024 * 1024"

definition artifact_scope :: "artifact \<Rightarrow> string \<Rightarrow> committed_result_error + unit" where
  "artifact_scope a directory =
     and_then (ok_or (Mismatch ''artifact locator is outside the fixed run'')
         (split_once (CHR ''/'') (artifact_locator a))) (\<lambda>(actual_directory, leaf).
     and_then (if leaf = ''result.json'' then Inr Report
               else if leaf = ''recovery.json'' then Inr RollbackState
               else if leaf = ''evidence.json'' then Inr Evidence
               else Inl (Mismatch ''artifact name is not a fixed run artifact'')) (\<lambda>k.
       if actual_directory \<noteq> directory \<or> artifact_class a \<noteq> k \<or> media_type a \<noteq> ''application/json'' \<or>
          artifact_size_bytes a > max_evidence_bytes
       then Inl (Mismatch ''artifact scope, kind, media type, or size differs'') else Inr ()))"

definition storage_identifier ::
    "'h ext \<Rightarrow> (string \<Rightarrow> uuid option) \<Rightarrow> string \<Rightarrow> string \<Rightarrow> committed_result_error + uuid" where
  "storage_identifier E parse_id directory leaf =
     and_then (ok_or (Mismatch ''report directory is not a run identifier'') (parse_id directory)) (\<lambda>storage_id.
       if directory \<noteq> uuid_text E storage_id \<or> leaf \<noteq> ''result.json''
       then Inl (Mismatch ''report locator is not canonical'') else Inr storage_id)"

definition report_artifact ::
    "'h ext \<Rightarrow> (string \<Rightarrow> uuid option) \<Rightarrow> worker_result \<Rightarrow> committed_result_error + (uuid \<times> artifact)" where
  "report_artifact E parse_id expected =
     (if artifact_manifest expected = [] then Inl (Mismatch ''result has no committed report artifact'')
      else
        let a = last (artifact_manifest expected) in
        if (artifact_class a, media_type a) \<noteq> (Report, ''application/json'')
        then Inl (Mismatch ''terminal artifact is not a JSON report'')
        else
          and_then (ok_or (Mismatch ''report locator is not a fixed run artifact'')
              (split_once (CHR ''/'') (artifact_locator a))) (\<lambda>(directory, leaf).
          and_then (storage_identifier E parse_id directory leaf) (\<lambda>storage_id.
          and_then (for_each (\<lambda>entry. artifact_scope entry directory) (artifact_manifest expected)) (\<lambda>_.
            Inr (storage_id, a)))))"

definition decode_document ::
    "'h ext \<Rightarrow> (string \<Rightarrow> string + jvalue) \<Rightarrow> (jvalue \<Rightarrow> string + result_document) \<Rightarrow> artifact \<Rightarrow> byte list \<Rightarrow>
     committed_result_error + result_document" where
  "decode_document E parse de a bytes =
     (if length bytes \<noteq> artifact_size_bytes a \<or> of_bytes E bytes \<noteq> artifact_digest a
      then Inl (Mismatch ''result bytes differ from the authenticated manifest'')
      else
        and_then (map_err CommittedDomain (load_json parse de bytes json_load_limits_default)) (\<lambda>d.
          if document_schema d \<noteq> ''1.0''
          then Inl (Mismatch ''result document schema or canonical encoding differs'')
          else
            and_then (map_err CommittedDomain (document_bytes E d)) (\<lambda>canonical.
              if canonical \<noteq> bytes then Inl (Mismatch ''result document schema or canonical encoding differs'')
              else Inr d)))"

text \<open>The manifest is not empty here: \<open>report_artifact\<close> comes first.\<close>

definition document_outcome :: "result_document \<Rightarrow> worker_result \<Rightarrow> committed_result_error + unit" where
  "document_outcome d expected =
     (if (document_status d, document_reason d, document_receipts d) \<noteq>
         (final_status expected, reason expected, receipts expected) \<or>
         document_artifacts d \<noteq> butlast (artifact_manifest expected)
      then Inl (Mismatch ''result document outcome differs from the authenticated envelope'') else Inr ())"

definition document_binding :: "result_document \<Rightarrow> worker_result \<Rightarrow> committed_result_error + unit" where
  "document_binding d expected =
     (if (document_plan_id d, document_run_id d, document_plan_digest d) \<noteq>
         (worker_plan_id expected, worker_run_id expected, worker_plan_digest expected)
      then Inl (Mismatch ''result document identity differs from the authenticated envelope'')
      else
        and_then (document_outcome d expected) (\<lambda>_.
          if document_status d = StCompleted \<and>
             list_ex (\<lambda>r. receipt_status r \<noteq> Succeeded) (document_receipts d)
          then Inl (Mismatch ''completed result contains an unsuccessful action'') else Inr ()))"

definition commit_binding ::
    "result_document \<Rightarrow> digest \<Rightarrow> journal_record \<Rightarrow> journal_record \<Rightarrow> committed_result_error + unit" where
  "commit_binding d dg first lst =
     (if payload first \<noteq> PlanApproved (document_plan_id d) (document_plan_digest d)
      then Inl (Mismatch ''journal approval differs from the result'')
      else if previous_hash lst \<noteq> journal_prefix_hash d \<or>
              payload lst \<noteq> RunFinished (document_result_id d) dg
      then Inl (Mismatch ''result has no matching terminal commit'') else Inr ())"

definition receipt_pair ::
    "'h ext \<Rightarrow> action_receipt \<Rightarrow> journal_record \<times> journal_record \<Rightarrow> committed_result_error + unit" where
  "receipt_pair E r = (\<lambda>(start, finish).
     (let ident = uuid_text E (receipt_action_id r) in
      if payload start \<noteq> ActionStarted ident (pre_state_digest r)
      then Inl (Mismatch ''journal start differs from the receipt'')
      else
        and_then (map_err CommittedDomain (receipt_digest E r)) (\<lambda>dg.
          if payload finish \<noteq> ActionFinished ident (receipt_status r) dg
          then Inl (Mismatch ''journal completion differs from the receipt'') else Inr ())))"

text \<open>\<open>chunks_exact(2)\<close>.\<close>

fun chunks2 :: "'a list \<Rightarrow> ('a \<times> 'a) list" where
  "chunks2 (x # y # xs) = (x, y) # chunks2 xs"
| "chunks2 _ = []"

definition receipt_binding ::
    "'h ext \<Rightarrow> result_document \<Rightarrow> journal_record list \<Rightarrow> committed_result_error + unit" where
  "receipt_binding E d records =
     (if length records \<noteq> length (document_receipts d) * 2
      then Inl (Mismatch ''journal action count differs from the receipts'')
      else for_each (\<lambda>(r, pair). receipt_pair E r pair) (zip (document_receipts d) (chunks2 records)))"

definition journal_binding ::
    "'h ext \<Rightarrow> result_document \<Rightarrow> worker_result \<Rightarrow> digest \<Rightarrow> journal_record list \<times> digest \<Rightarrow>
     committed_result_error + unit" where
  "journal_binding E d expected dg = (\<lambda>(records, terminal).
     if Some terminal \<noteq> journal_terminal_hash expected
     then Inl (Mismatch ''journal differs from the authenticated terminal anchor'')
     else case records of
       [] \<Rightarrow> Inl (Mismatch ''journal has no approval'')
     | first # remainder \<Rightarrow>
         if remainder = [] then Inl (Mismatch ''journal has no terminal commit'')
         else
           and_then (commit_binding d dg first (last remainder)) (\<lambda>_.
             receipt_binding E d (butlast remainder)))"

definition committed_limits :: journal_limits where
  "committed_limits = \<lparr>journal_max_bytes = max_journal_bytes, max_records = 4096\<rparr>"

definition reconcile ::
    "'h ext \<Rightarrow> (string \<Rightarrow> uuid option) \<Rightarrow> (string \<Rightarrow> string + jvalue) \<Rightarrow> (jvalue \<Rightarrow> string + result_document) \<Rightarrow>
     (byte list \<Rightarrow> string + journal_record) \<Rightarrow> worker_result \<Rightarrow> byte list \<Rightarrow> byte list \<Rightarrow>
     committed_result_error + (result_document \<times> byte list)" where
  "reconcile E parse_id parse de dec expected result_bytes jbytes =
     and_then (map_err CommittedDomain (validate_worker_result expected)) (\<lambda>_.
     and_then (report_artifact E parse_id expected) (\<lambda>(_, a).
     and_then (decode_document E parse de a result_bytes) (\<lambda>d.
     and_then (document_binding d expected) (\<lambda>_.
     and_then (map_err CommittedJournal
         (read_bytes E dec jbytes committed_limits)) (\<lambda>snapshot.
     and_then (journal_binding E d expected (artifact_digest a) snapshot) (\<lambda>_.
       Inr (d, result_bytes)))))))"

text \<open>\<open>read_run\<close> reads the protected result and journal of a run.\<close>

definition read_committed_worker_result ::
    "'h ext \<Rightarrow> (string \<Rightarrow> uuid option) \<Rightarrow> (string \<Rightarrow> string + jvalue) \<Rightarrow> (jvalue \<Rightarrow> string + result_document) \<Rightarrow>
     (byte list \<Rightarrow> string + journal_record) \<Rightarrow> (uuid \<Rightarrow> platform_error + (byte list \<times> byte list)) \<Rightarrow> worker_result \<Rightarrow>
     committed_result_error + (result_document \<times> byte list)" where
  "read_committed_worker_result E parse_id parse de dec read_run expected =
     and_then (map_err CommittedDomain (validate_worker_result expected)) (\<lambda>_.
     and_then (report_artifact E parse_id expected) (\<lambda>(storage_id, _).
     and_then (map_err CommittedPlatform (read_run storage_id)) (\<lambda>(result_bytes, jbytes).
       reconcile E parse_id parse de dec expected result_bytes jbytes)))"

section \<open>A committed run, for the examples\<close>

text \<open>A digest that is the length of its input is enough to tell the few texts of the example apart.\<close>

definition length_digest :: "byte list \<Rightarrow> digest" where
  "length_digest bs = [of_nat (length bs), of_nat (length bs div 256)]"

definition length_ext :: "byte list ext" where
  "length_ext = plain_ext\<lparr>sha256 := length_digest, h_finalize := length_digest\<rparr>"

definition final_artifact :: "byte list \<Rightarrow> artifact" where
  "final_artifact bytes = \<lparr>artifact_id = 4, artifact_class = Report, media_type = ''application/json'',
     artifact_locator = ''3/result.json'', artifact_digest = length_digest bytes,
     artifact_size_bytes = length bytes, artifact_created_at = 6, artifact_metadata = []\<rparr>"

definition final_approval :: journal_record where
  "final_approval = next_record length_ext [] 5 (PlanApproved 7 [1])"

definition final_document :: result_document where
  "final_document = \<lparr>document_schema = ''1.0'', document_result_id = 9, document_plan_id = 7, document_run_id = 3,
     document_plan_digest = [1], journal_prefix_hash = record_hash final_approval, document_receipts = [],
     document_status = StCompleted, document_reason = None, document_reboot_possible = False,
     document_artifacts = []\<rparr>"

definition final_bytes :: "byte list" where
  "final_bytes = render length_ext (document_json length_ext final_document)"

definition final_commit :: journal_record where
  "final_commit = next_record length_ext [final_approval] 6 (RunFinished 9 (length_digest final_bytes))"

definition final_decoder :: "byte list \<Rightarrow> string + journal_record" where
  "final_decoder bytes =
     (if bytes = record_bytes length_ext final_approval then Inr final_approval
      else if bytes = record_bytes length_ext final_commit then Inr final_commit else Inl ''unknown record'')"

definition final_result :: worker_result where
  "final_result = \<lparr>worker_plan_id = 7, worker_run_id = 3, worker_plan_digest = [1],
     journal_terminal_hash = Some (record_hash final_commit), receipts = [],
     artifact_manifest = [final_artifact final_bytes], final_status = StCompleted, reason = None,
     worker_exit_code = 0\<rparr>"

definition final_parse_id :: "string \<Rightarrow> uuid option" where
  "final_parse_id t = (if t = ''3'' then Some 3 else None)"

lemma committed_limits_ok: "limits_ok committed_limits"
  by (simp add: limits_ok_def committed_limits_def max_journal_bytes_def u64_bound_def)

lemma read_bytes_verified:
  "read_bytes E dec bytes l = Inr (rs, h) \<longleftrightarrow> verify_with_limits E dec bytes h l = Inr rs"
  by (auto simp: read_bytes_def verify_with_limits_def read_with_limits_def complete_parse_def res_simps
      split: if_splits)

lemma final_utf8: "utf8_valid final_bytes"
  by code_simp

lemma final_lengths:
  "map length [final_bytes, record_bytes length_ext final_approval, record_bytes length_ext final_commit,
     hash_input length_ext final_approval, hash_input length_ext final_commit] = [203, 143, 148, 73, 78]"
  by code_simp

lemma final_sizes:
  "length final_bytes = 203" "length (record_bytes length_ext final_approval) = 143"
  "length (record_bytes length_ext final_commit) = 148" "length (hash_input length_ext final_approval) = 73"
  "length (hash_input length_ext final_commit) = 78"
  using final_lengths by simp_all

lemma final_binding: "document_binding final_document final_result = Inr ()"
  by (simp add: document_binding_def document_outcome_def final_document_def final_result_def)

lemma final_report:
  "report_artifact length_ext final_parse_id final_result = Inr (3, final_artifact final_bytes)"
proof -
  have "uuid_text length_ext 3 = ''3''" by code_simp
  then show ?thesis
    using final_sizes(1)
    by (simp add: report_artifact_def storage_identifier_def artifact_scope_def final_result_def
        final_artifact_def final_parse_id_def max_evidence_bytes_def)
qed

lemma final_validated: "validate_worker_result final_result = Inr ()"
proof -
  have "text_ok 255 ''application/json''" "locator_ok ''3/result.json''" "json_map_ok []" by code_simp+
  then show ?thesis
    using final_sizes(1)
    by (simp add: validate_worker_result_def validate_worker_preconditions_Inr_iff
      validate_worker_evidence_Inr_iff res_simps final_result_def final_artifact_def artifacts_ok_def artifact_ok_def)
qed

lemma final_decoded:
  "decode_document length_ext (\<lambda>_. Inr JNull) (\<lambda>_. Inr final_document) (final_artifact final_bytes) final_bytes =
     Inr final_document"
proof -
  have "document_bytes length_ext final_document = Inr final_bytes"
    by (simp add: document_bytes_def final_bytes_def canonical_json_bytes_def canonical_json_value_def
        write_bytes)
  moreover have "load_json (\<lambda>_. Inr JNull) (\<lambda>_. Inr final_document) final_bytes json_load_limits_default = Inr final_document"
    using final_sizes(1) final_utf8
    by (simp add: load_json_def from_utf8_def json_load_limits_default_def validate_json_bounds.simps load_check_defs)
  ultimately show ?thesis
    by (simp add: decode_document_def final_artifact_def of_bytes_def length_ext_def) (simp add: final_document_def)
qed

lemma record_bytes_nonempty [simp]: "record_bytes E r \<noteq> []"
  by (simp add: record_bytes_def record_json_def obj_def render_def)

lemma final_approval_payload [simp]: "payload final_approval = PlanApproved 7 [1]"
  by (simp add: final_approval_def next_record_def)

lemma final_approval_ok:
  "journal_ok length_ext committed_limits []" "journal_ok length_ext committed_limits [final_approval]"
proof -
  show empty: "journal_ok length_ext committed_limits []"
    by (simp add: journal_ok_def journal_bytes_def from_snapshot_def committed_limits_def max_journal_bytes_def
        journal_magic_def)
  show "journal_ok length_ext committed_limits [final_approval]"
    using journal_ok_snoc [OF empty, of lifecycle_default 5 "PlanApproved 7 [1]"] final_sizes(2)
    by (simp add: fits_frame_def journal_bytes_def from_snapshot_def journal_magic_def committed_limits_def
        max_journal_bytes_def max_record_bytes_def lifecycle_defs lifecycle_default_def flip: final_approval_def)
qed

lemma final_finished_ok:
  assumes "r = next_record length_ext [final_approval] ts (RunFinished rid d)"
    and "length (record_bytes length_ext r) \<le> 4096"
  shows "journal_ok length_ext committed_limits [final_approval, r]"
  using journal_ok_snoc [OF final_approval_ok(2), of "lifecycle_default\<lparr>approved := True\<rparr>" ts "RunFinished rid d"]
    final_sizes(2) assms
  by (simp add: fits_frame_def journal_bytes_def from_snapshot_def journal_magic_def committed_limits_def
      max_journal_bytes_def max_record_bytes_def lifecycle_defs lifecycle_default_def)

lemma final_journal:
  "read_bytes length_ext final_decoder (journal_bytes length_ext [final_approval, final_commit]) committed_limits =
     Inr ([final_approval, final_commit], record_hash final_commit)"
proof -
  have "journal_ok length_ext committed_limits [final_approval, final_commit]"
    using final_finished_ok [OF final_commit_def] final_sizes(3) by simp
  moreover have "record_bytes length_ext final_commit \<noteq> record_bytes length_ext final_approval"
    using final_sizes(2,3) by (intro notI) simp
  ultimately show ?thesis
    by (simp add: read_bytes_verified verify_with_limits_Inr_iff [OF committed_limits_ok] chain_end_def final_decoder_def)
qed

lemma final_reconciled:
  "reconcile length_ext final_parse_id (\<lambda>_. Inr JNull) (\<lambda>_. Inr final_document) final_decoder final_result
     final_bytes (journal_bytes length_ext [final_approval, final_commit]) = Inr (final_document, final_bytes)"
proof -
  have "previous_hash final_commit = record_hash final_approval"
    "payload final_commit = RunFinished 9 (length_digest final_bytes)"
    by (simp_all add: final_commit_def next_record_def chain_end_def)
  then have "journal_binding length_ext final_document final_result (artifact_digest (final_artifact final_bytes))
      ([final_approval, final_commit], record_hash final_commit) = Inr ()"
    by (simp add: journal_binding_def commit_binding_def receipt_binding_def final_result_def final_document_def
        final_artifact_def)
  then show ?thesis
    by (simp add: reconcile_def final_validated final_report final_decoded final_binding final_journal)
qed

lemma length_ext_contracts:
  "string_contract length_ext" "number_contract length_ext" "uuid_contract length_ext" "time_contract length_ext"
  using plain_contracts(3-6)
  by (simp_all add: length_ext_def string_contract_def json_string_bytes_def number_contract_def uuid_contract_def
      time_contract_def)

lemma final_collision_free:
  "chain_collision_free length_ext [final_approval, final_commit] [final_approval, final_commit]"
proof -
  have "length_digest [] = [0, 0]" "length_digest (hash_input length_ext final_approval) = [73, 0]"
    "length_digest (hash_input length_ext final_commit) = [78, 0]"
    using final_sizes by (simp_all add: length_digest_def)
  moreover have "sha256 length_ext = length_digest"
    by (simp add: length_ext_def)
  ultimately show ?thesis
    unfolding chain_collision_free_def by (intro inj_onI) auto
qed

section \<open>What a committed result is\<close>

text \<open>The two events that a receipt stands for.\<close>

definition receipt_events :: "'h ext \<Rightarrow> action_receipt \<Rightarrow> digest \<Rightarrow> journal_event list" where
  "receipt_events E r dg =
     [ActionStarted (uuid_text E (receipt_action_id r)) (pre_state_digest r),
      ActionFinished (uuid_text E (receipt_action_id r)) (receipt_status r) dg]"

lemma receipt_pair_Inr_iff:
  "receipt_pair E r (x, y) = Inr u \<longleftrightarrow>
     (\<exists>dg. receipt_digest E r = Inr dg \<and> [payload x, payload y] = receipt_events E r dg)"
  by (auto simp: receipt_pair_def receipt_events_def Let_def res_simps split: if_splits)

lemma receipt_pairs_events:
  "length records = length rs * 2 \<Longrightarrow> for_each (\<lambda>(r, pair). receipt_pair E r pair) (zip rs (chunks2 records)) = Inr u \<Longrightarrow>
     \<exists>dgs. list_all2 (\<lambda>r dg. receipt_digest E r = Inr dg) rs dgs \<and>
       map payload records = concat (map2 (receipt_events E) rs dgs)"
proof (induction rs arbitrary: records u)
  case (Cons r rs)
  then obtain x y rest where xs: "records = x # y # rest" "length rest = length rs * 2"
    by (cases records; cases "tl records") auto
  then have "receipt_pair E r (x, y) = Inr ()" "for_each (\<lambda>(r, pair). receipt_pair E r pair) (zip rs (chunks2 rest)) = Inr ()"
    using Cons.prems(2) by (auto simp: res_simps)
  with Cons.IH [OF xs(2)] obtain dg dgs where
    "receipt_digest E r = Inr dg" "[payload x, payload y] = receipt_events E r dg"
    "list_all2 (\<lambda>r dg. receipt_digest E r = Inr dg) rs dgs" "map payload rest = concat (map2 (receipt_events E) rs dgs)"
    by (auto simp: receipt_pair_Inr_iff)
  then show ?case
    by (intro exI [of _ "dg # dgs"]) (auto simp: xs(1) receipt_events_def)
qed simp

lemma journal_binding_events:
  assumes "journal_binding E d expected dg (records, terminal) = Inr u"
  shows "journal_terminal_hash expected = Some terminal \<and>
    (\<exists>dgs. list_all2 (\<lambda>r x. receipt_digest E r = Inr x) (document_receipts d) dgs \<and>
       map payload records = PlanApproved (document_plan_id d) (document_plan_digest d) #
         concat (map2 (receipt_events E) (document_receipts d) dgs) @ [RunFinished (document_result_id d) dg]) \<and>
    previous_hash (last records) = journal_prefix_hash d"
proof -
  obtain first remainder where r: "journal_terminal_hash expected = Some terminal" "records = first # remainder"
    "remainder \<noteq> []" "commit_binding d dg first (last remainder) = Inr ()" "receipt_binding E d (butlast remainder) = Inr u"
    using assms by (auto simp: journal_binding_def res_simps split: if_splits list.splits)
  have "map payload records = payload first # map payload (butlast remainder) @ [payload (last remainder)]"
    using r(2,3) append_butlast_last_id [OF r(3)] by (metis list.simps(9) map_append list.simps(8))
  moreover obtain dgs where "list_all2 (\<lambda>r x. receipt_digest E r = Inr x) (document_receipts d) dgs"
    "map payload (butlast remainder) = concat (map2 (receipt_events E) (document_receipts d) dgs)"
    using receipt_pairs_events [of "butlast remainder" "document_receipts d" E u] r(5)
    by (auto simp: receipt_binding_def split: if_splits)
  ultimately show ?thesis
    using r by (auto simp: commit_binding_def split: if_splits)
qed

lemma reconcile_Inr:
  assumes "reconcile E parse_id parse de dec expected rb jb = Inr (d, bytes)"
  shows "bytes = rb" "\<exists>storage a records terminal. report_artifact E parse_id expected = Inr (storage, a) \<and>
      of_bytes E rb = artifact_digest a \<and> read_bytes E dec jb committed_limits = Inr (records, terminal) \<and>
      journal_binding E d expected (artifact_digest a) (records, terminal) = Inr ()"
    "load_json parse de rb json_load_limits_default = Inr d" "document_bytes E d = Inr rb"
    "document_binding d expected = Inr ()" "validate_worker_result expected = Inr ()"
  using assms by (auto simp: reconcile_def decode_document_def res_simps split: if_splits)

text \<open>
  C12: a reconciled result document is the one the worker committed. Its bytes are its canonical text; its
  identity, status, reason, receipts and artifacts are those of the worker's envelope; the journal ends in the
  terminal hash of the envelope and records exactly the approval of this plan, the start and the end of each
  receipt in order, and the commit of these bytes, chained onto the prefix that the document names.
\<close>

theorem committed_result_sealed:
  assumes "reconcile E parse_id parse de dec expected rb jb = Inr (d, bytes)"
  shows "bytes = rb \<and> document_bytes E d = Inr rb \<and> document_plan_id d = worker_plan_id expected \<and>
    document_run_id d = worker_run_id expected \<and> document_status d = final_status expected \<and>
    document_reason d = reason expected \<and> document_receipts d = receipts expected \<and>
    document_artifacts d = butlast (artifact_manifest expected) \<and>
    (\<exists>records terminal dgs. read_bytes E dec jb committed_limits = Inr (records, terminal) \<and>
       journal_terminal_hash expected = Some terminal \<and>
       list_all2 (\<lambda>r x. receipt_digest E r = Inr x) (receipts expected) dgs \<and>
       map payload records = PlanApproved (worker_plan_id expected) (worker_plan_digest expected) #
         concat (map2 (receipt_events E) (receipts expected) dgs) @
         [RunFinished (document_result_id d) (sha256 E rb)] \<and>
       previous_hash (last records) = journal_prefix_hash d)"
proof -
  note r = reconcile_Inr [OF assms]
  have d: "document_plan_id d = worker_plan_id expected" "document_run_id d = worker_run_id expected"
    "document_plan_digest d = worker_plan_digest expected" "document_status d = final_status expected"
    "document_reason d = reason expected" "document_receipts d = receipts expected"
    "document_artifacts d = butlast (artifact_manifest expected)"
    using r(5) by (auto simp: document_binding_def document_outcome_def res_simps split: if_splits)
  from r(2) obtain storage a records terminal where j: "report_artifact E parse_id expected = Inr (storage, a)"
    "of_bytes E rb = artifact_digest a" "read_bytes E dec jb committed_limits = Inr (records, terminal)"
    "journal_binding E d expected (artifact_digest a) (records, terminal) = Inr ()"
    by (elim exE conjE) (rule that)
  have "artifact_digest a = sha256 E rb"
    using j(2) by (simp only: of_bytes_def)
  with journal_binding_events [OF j(4)] j(3) r(1,4) d show ?thesis
    by simp
qed

theorem committed_result_sealed_witness:
  "document_bytes length_ext final_document = Inr final_bytes \<and> document_status final_document = StCompleted \<and>
   (\<exists>records terminal. read_bytes length_ext final_decoder
        (journal_bytes length_ext [final_approval, final_commit]) committed_limits = Inr (records, terminal) \<and>
      map payload records = [PlanApproved 7 [1], RunFinished 9 (sha256 length_ext final_bytes)])"
  using committed_result_sealed [OF final_reconciled]
  by (auto simp: final_result_def) (auto simp: final_document_def)

text \<open>
  C34: the worker's envelope determines the retained run. When two pairs of files reconcile with the same envelope,
  and SHA-256 collides neither on the two documents nor among the records that the two journals hash, then the
  documents and the journals are the same bytes, and the same document is read.
\<close>

theorem committed_result_unique:
  assumes "string_contract E" "number_contract E" "uuid_contract E" "time_contract E"
    and "reconcile E parse_id parse de dec expected rb jb = Inr (d, bytes)"
    and "reconcile E parse_id parse de dec expected rb' jb' = Inr (d', bytes')"
    and "inj_on (sha256 E) {rb, rb'}"
    and "\<And>rs qs h h'. read_bytes E dec jb committed_limits = Inr (rs, h) \<Longrightarrow>
      read_bytes E dec jb' committed_limits = Inr (qs, h') \<Longrightarrow> chain_collision_free E rs qs"
  shows "rb' = rb \<and> jb' = jb \<and> d' = d"
proof -
  note r = reconcile_Inr [OF assms(5)] and r' = reconcile_Inr [OF assms(6)]
  from r(2) obtain storage a rs h where j: "report_artifact E parse_id expected = Inr (storage, a)"
    "of_bytes E rb = artifact_digest a" "read_bytes E dec jb committed_limits = Inr (rs, h)"
    "journal_binding E d expected (artifact_digest a) (rs, h) = Inr ()" by (elim exE conjE) (rule that)
  from r'(2) obtain storage' a' qs h' where j': "report_artifact E parse_id expected = Inr (storage', a')"
    "of_bytes E rb' = artifact_digest a'" "read_bytes E dec jb' committed_limits = Inr (qs, h')"
    "journal_binding E d' expected (artifact_digest a') (qs, h') = Inr ()" by (elim exE conjE) (rule that)
  have "a' = a"
    using j(1) j'(1) by simp
  then have "sha256 E rb' = sha256 E rb"
    using j(2) j'(2) by (simp only: of_bytes_def)
  then have rb: "rb' = rb"
    by (rule inj_onD [OF assms(7)]) (rule insertI2, rule singletonI, rule insertI1)
  have "Some h' = Some h"
    using journal_binding_events [OF j(4), THEN conjunct1] journal_binding_events [OF j'(4), THEN conjunct1]
    by (simp only:)
  then have "h' = h" by simp
  then have "verify_with_limits E dec jb h committed_limits = Inr rs"
    "verify_with_limits E dec jb' h committed_limits = Inr qs"
    using j(3) j'(3) by (simp_all only: read_bytes_verified)
  then have "jb' = jb \<and> qs = rs"
    by (rule sealed_journal [OF assms(1-4) committed_limits_ok committed_limits_ok _ _ assms(8) [OF j(3) j'(3)]])
  with rb r(3) r'(3) show ?thesis by simp
qed

theorem committed_result_unique_witness:
  "final_bytes = final_bytes \<and> journal_bytes length_ext [final_approval, final_commit] =
     journal_bytes length_ext [final_approval, final_commit] \<and> final_document = final_document"
proof (rule committed_result_unique [OF length_ext_contracts final_reconciled final_reconciled])
  fix rs qs h h'
  assume "read_bytes length_ext final_decoder (journal_bytes length_ext [final_approval, final_commit])
      committed_limits = Inr (rs, h)"
    and "read_bytes length_ext final_decoder (journal_bytes length_ext [final_approval, final_commit])
      committed_limits = Inr (qs, h')"
  then have "rs = [final_approval, final_commit]" "qs = [final_approval, final_commit]"
    unfolding final_journal by simp_all
  then show "chain_collision_free length_ext rs qs"
    by (simp add: final_collision_free)
qed simp

end
