(* ===== verification/Planner.thy ===== *)
theory Planner
  imports Plan_Validate
begin

text \<open>
  The trusted planner, \<open>baselineops-engine/src/planner.rs\<close>. The capability registry that derives an action from
  a profile step is the function \<open>derive\<close>, the trait \<open>TrustedActionDeriver\<close>. The random identifiers of a new
  plan are the arguments \<open>pid\<close> and \<open>rid\<close>, and \<open>time_max\<close> is the last timestamp that \<open>chrono\<close> represents.
\<close>

section \<open>Definitions\<close>

record plan_build_context =
  build_intent :: execution_intent
  build_host :: host_identity
  build_tool :: tool_identity
  build_package_digest :: digest
  build_source :: source_identity
  build_input :: input_identity
  build_resources :: "resource_binding list"
  build_observed_state :: observed_state
  lifetime :: int

record worker_plan =
  proposal :: plan
  proposal_digest :: digest

datatype planning_error =
    PlanningDomain domain_error
  | InvalidLifetime
  | ExpiryOverflow
  | ExpiredProfile
  | SourceStepMismatch
  | IntentMismatch
  | FactsMismatch
  | Derivation string
  | ReviewedEnvelopeMismatch

type_synonym deriver = "profile_step \<Rightarrow> execution_intent \<Rightarrow> observed_state \<Rightarrow> string + planned_action"

record planning_index =
  capability_by_step :: "uuid \<rightharpoonup> capability_id"
  steps_by_capability :: "capability_id \<rightharpoonup> (uuid \<rightharpoonup> usize)"

text \<open>One turn of the loop of \<open>from_validated\<close>, on the position and the step.\<close>

definition index_profile_step :: "planning_index \<Rightarrow> usize \<times> profile_step \<Rightarrow> planning_index" where
  "index_profile_step index = (\<lambda>(position, step).
     let entry = (case steps_by_capability index (step_capability_id step) of None \<Rightarrow> Map.empty | Some m \<Rightarrow> m) in
     index\<lparr>capability_by_step := (capability_by_step index)(step_id step \<mapsto> step_capability_id step),
       steps_by_capability := (steps_by_capability index)
         (step_capability_id step \<mapsto> entry(step_id step \<mapsto> position))\<rparr>)"

definition from_validated :: "profile \<Rightarrow> planning_index" where
  "from_validated p = foldl index_profile_step
     \<lparr>capability_by_step = Map.empty, steps_by_capability = Map.empty\<rparr>
     (List.enumerate 0 (profile_steps p))"

definition index_step_of :: "planning_index \<Rightarrow> profile \<Rightarrow> uuid \<Rightarrow> profile_step option" where
  "index_step_of index p sid =
     Option.bind (capability_by_step index sid) (\<lambda>capability.
     Option.bind (steps_by_capability index capability) (\<lambda>positions.
     Option.bind (positions sid) (\<lambda>position.
       if position < length (profile_steps p) then Some (profile_steps p ! position) else None)))"

definition one_second :: int where "one_second = 10 ^ 9"
definition day_hours :: int where "day_hours = 24 * 60 * 60 * one_second"

definition checked_add_signed :: "datetime \<Rightarrow> datetime \<Rightarrow> int \<Rightarrow> datetime option" where
  "checked_add_signed time_max t d = (if t + d \<le> time_max then Some (t + d) else None)"

definition validate_build_inputs ::
    "'h ext \<Rightarrow> datetime \<Rightarrow> profile \<Rightarrow> plan_build_context \<Rightarrow> datetime \<Rightarrow>
     planning_error + (uuid list \<times> datetime)" where
  "validate_build_inputs E time_max profile ctx now =
     and_then (map_err PlanningDomain (profile_validate profile)) (\<lambda>order.
     and_then (map_err PlanningDomain (host_validate E (build_host ctx))) (\<lambda>_.
     and_then (map_err PlanningDomain (observed_state_validate E (build_observed_state ctx))) (\<lambda>_.
       if (case profile_expires_at profile of None \<Rightarrow> False | Some expires_at \<Rightarrow> now \<ge> expires_at)
       then Inl ExpiredProfile
       else if \<not> (one_second \<le> lifetime ctx \<and> lifetime ctx \<le> day_hours) then Inl InvalidLifetime
       else
         and_then (ok_or ExpiryOverflow (checked_add_signed time_max now (lifetime ctx))) (\<lambda>expires_at.
           Inr (order, expires_at)))))"

definition validate_derived_action ::
    "planned_action \<Rightarrow> profile_step \<Rightarrow> plan_build_context \<Rightarrow> planning_error + unit" where
  "validate_derived_action action step ctx =
     (if source_step action \<noteq> step_id step \<or> action_capability action \<noteq> step_capability_id step
      then Inl SourceStepMismatch
      else if action_operation action \<noteq> operation_of_intent (build_intent ctx) then Inl IntentMismatch
      else if facts_digest action \<noteq> state_digest (build_observed_state ctx) then Inl FactsMismatch
      else Inr ())"

definition derive_action ::
    "profile \<Rightarrow> planning_index \<Rightarrow> plan_build_context \<Rightarrow> deriver \<Rightarrow> uuid \<Rightarrow> planning_error + planned_action" where
  "derive_action profile index ctx derive sid =
     and_then (ok_or SourceStepMismatch (index_step_of index profile sid)) (\<lambda>step.
     and_then (map_err Derivation (derive step (build_intent ctx) (build_observed_state ctx))) (\<lambda>action.
     and_then (validate_derived_action action step ctx) (\<lambda>_. Inr action)))"

definition derive_actions ::
    "profile \<Rightarrow> planning_index \<Rightarrow> uuid list \<Rightarrow> plan_build_context \<Rightarrow> deriver \<Rightarrow>
     planning_error + planned_action list" where
  "derive_actions profile index order ctx derive = try_map (derive_action profile index ctx derive) order"

definition plan_digest :: "'h ext \<Rightarrow> plan \<Rightarrow> domain_error + digest" where
  "plan_digest E p = canonical_json_digest E (\<lambda>p. Inr (plan_json E p)) p"

definition build_worker_plan ::
    "'h ext \<Rightarrow> profile \<Rightarrow> plan_build_context \<Rightarrow> datetime \<Rightarrow> datetime \<Rightarrow> planned_action list \<Rightarrow> uuid \<Rightarrow> uuid \<Rightarrow>
     planning_error + worker_plan" where
  "build_worker_plan E profile ctx now expires_at actions pid rid =
     and_then (map_err PlanningDomain (canonical_json_digest E (\<lambda>p. Inr (profile_json E p)) profile)) (\<lambda>pd.
       let plan = \<lparr>plan_id = pid, plan_run_id = rid, plan_intent = build_intent ctx,
         plan_profile_id = profile_id profile, plan_profile_digest = pd, plan_host = build_host ctx,
         plan_tool = build_tool ctx, plan_package_digest = build_package_digest ctx,
         plan_source = build_source ctx, plan_input = build_input ctx, plan_resources = build_resources ctx,
         plan_observed_state = build_observed_state ctx, plan_issued_at = now, plan_expires_at = expires_at,
         plan_actions = actions, plan_metadata = []\<rparr> in
       and_then (map_err PlanningDomain (validate_structure E plan)) (\<lambda>_.
       and_then (map_err PlanningDomain (plan_digest E plan)) (\<lambda>digest.
         Inr \<lparr>proposal = plan, proposal_digest = digest\<rparr>)))"

definition build_plan ::
    "'h ext \<Rightarrow> datetime \<Rightarrow> profile \<Rightarrow> plan_build_context \<Rightarrow> deriver \<Rightarrow> datetime \<Rightarrow> uuid \<Rightarrow> uuid \<Rightarrow>
     planning_error + worker_plan" where
  "build_plan E time_max profile ctx derive now pid rid =
     and_then (validate_build_inputs E time_max profile ctx now) (\<lambda>(order, expires_at).
       let index = from_validated profile in
       and_then (derive_actions profile index order ctx derive) (\<lambda>actions.
         build_worker_plan E profile ctx now expires_at actions pid rid))"

definition same_reviewed_bindings :: "plan \<Rightarrow> plan \<Rightarrow> bool" where
  "same_reviewed_bindings reviewed fresh \<longleftrightarrow>
     plan_profile_id reviewed = plan_profile_id fresh \<and>
     plan_profile_digest reviewed = plan_profile_digest fresh \<and> plan_host reviewed = plan_host fresh \<and>
     plan_tool reviewed = plan_tool fresh \<and> plan_package_digest reviewed = plan_package_digest fresh \<and>
     plan_source reviewed = plan_source fresh \<and> plan_input reviewed = plan_input fresh \<and>
     plan_resources reviewed = plan_resources fresh \<and>
     state_digest (plan_observed_state reviewed) = state_digest (plan_observed_state fresh) \<and>
     plan_actions reviewed = plan_actions fresh"

definition validate_reviewed_authority :: "plan \<Rightarrow> plan \<Rightarrow> planning_error + unit" where
  "validate_reviewed_authority reviewed fresh =
     (if plan_expires_at reviewed > plan_expires_at fresh \<or> \<not> same_reviewed_bindings reviewed fresh
      then Inl ReviewedEnvelopeMismatch else Inr ())"

definition rebuild_reviewed_apply_plan ::
    "'h ext \<Rightarrow> datetime \<Rightarrow> plan \<Rightarrow> profile \<Rightarrow> plan_build_context \<Rightarrow> deriver \<Rightarrow> datetime \<Rightarrow> uuid \<Rightarrow> uuid \<Rightarrow>
     planning_error + worker_plan" where
  "rebuild_reviewed_apply_plan E time_max reviewed profile ctx derive now pid rid =
     (if plan_intent reviewed \<noteq> IntentApply then Inl ReviewedEnvelopeMismatch
      else
        and_then (map_err PlanningDomain (validate_at E reviewed now)) (\<lambda>_.
        and_then (build_plan E time_max profile ctx derive now pid rid) (\<lambda>worker.
        let fresh = proposal worker in
        and_then (validate_reviewed_authority reviewed fresh) (\<lambda>_.
        let plan = \<lparr>plan_id = plan_id reviewed, plan_run_id = plan_run_id reviewed, plan_intent = plan_intent fresh,
          plan_profile_id = plan_profile_id fresh, plan_profile_digest = plan_profile_digest fresh,
          plan_host = plan_host fresh, plan_tool = plan_tool fresh,
          plan_package_digest = plan_package_digest fresh, plan_source = plan_source fresh,
          plan_input = plan_input fresh, plan_resources = plan_resources fresh,
          plan_observed_state = plan_observed_state reviewed, plan_issued_at = plan_issued_at reviewed,
          plan_expires_at = plan_expires_at reviewed, plan_actions = plan_actions fresh,
          plan_metadata = plan_metadata reviewed\<rparr> in
        and_then (map_err PlanningDomain (validate_structure E plan)) (\<lambda>_.
        and_then (map_err PlanningDomain (plan_digest E plan)) (\<lambda>digest.
          Inr \<lparr>proposal = plan, proposal_digest = digest\<rparr>))))))"

section \<open>The index finds the steps\<close>

definition position_of :: "planning_index \<Rightarrow> uuid \<Rightarrow> usize option" where
  "position_of index sid = Option.bind (capability_by_step index sid) (\<lambda>capability.
     Option.bind (steps_by_capability index capability) (\<lambda>positions. positions sid))"

lemma position_of_step:
  "position_of (index_profile_step index (k, s)) sid = (if sid = step_id s then Some k else position_of index sid)"
  by (cases "capability_by_step index sid"; cases "steps_by_capability index (step_capability_id s)")
     (auto simp: position_of_def index_profile_step_def Let_def)

lemma position_of_absent:
  "sid \<notin> step_id ` set ss \<Longrightarrow>
     position_of (foldl index_profile_step index (List.enumerate k ss)) sid = position_of index sid"
  by (induction ss arbitrary: index k) (simp_all add: position_of_step)

lemma position_of_present:
  "distinct (map step_id ss) \<Longrightarrow> i < length ss \<Longrightarrow>
     position_of (foldl index_profile_step index (List.enumerate k ss)) (step_id (ss ! i)) = Some (k + i)"
proof (induction ss arbitrary: index k i)
  case (Cons s ss)
  show ?case
  proof (cases i)
    case 0
    with Cons.prems show ?thesis by (simp add: position_of_absent position_of_step)
  next
    case (Suc j)
    with Cons show ?thesis by simp
  qed
qed simp

lemma index_step_of_Some:
  assumes "distinct (map step_id (profile_steps p))"
  shows "index_step_of (from_validated p) p sid = Some step \<longleftrightarrow> step \<in> set (profile_steps p) \<and> step_id step = sid"
proof -
  have eq: "index_step_of (from_validated p) p sid = Option.bind (position_of (from_validated p) sid)
      (\<lambda>k. if k < length (profile_steps p) then Some (profile_steps p ! k) else None)"
    by (simp add: index_step_of_def position_of_def)
  show ?thesis
  proof (cases "sid \<in> step_id ` set (profile_steps p)")
    case True
    then obtain i where i: "i < length (profile_steps p)" "step_id (profile_steps p ! i) = sid"
      by (auto simp: in_set_conv_nth)
    then have "position_of (from_validated p) sid = Some i"
      using position_of_present [OF assms i(1), of _ 0] by (simp add: from_validated_def)
    then have "index_step_of (from_validated p) p sid = Some (profile_steps p ! i)"
      using i by (simp add: eq)
    moreover have "step = profile_steps p ! i" if "step \<in> set (profile_steps p)" "step_id step = sid" for step
      using that i assms by (metis distinct_map inj_onD nth_mem)
    ultimately show ?thesis
      using i by (auto dest: nth_mem)
  next
    case False
    then have "position_of (from_validated p) sid = None"
      by (simp add: from_validated_def position_of_absent) (simp add: position_of_def)
    with False show ?thesis by (auto simp: eq)
  qed
qed

section \<open>What a built plan is\<close>

lemma build_inputs_Inr_iff:
  "validate_build_inputs E time_max profile ctx now = Inr (order, expires) \<longleftrightarrow>
     profile_validate profile = Inr order \<and> host_ok E (build_host ctx) \<and>
     observations_valid E (build_observed_state ctx) \<and>
     (\<forall>t. profile_expires_at profile = Some t \<longrightarrow> now < t) \<and>
     one_second \<le> lifetime ctx \<and> lifetime ctx \<le> day_hours \<and> expires = now + lifetime ctx \<and> expires \<le> time_max"
  by (cases "profile_expires_at profile")
     (auto simp: validate_build_inputs_def res_simps checked_add_signed_def split: if_splits)

lemma derive_action_Inr_iff:
  assumes "distinct (map step_id (profile_steps profile))"
  shows "derive_action profile (from_validated profile) ctx derive sid = Inr action \<longleftrightarrow>
    (\<exists>step\<in>set (profile_steps profile). step_id step = sid \<and>
       derive step (build_intent ctx) (build_observed_state ctx) = Inr action \<and>
       source_step action = sid \<and> action_capability action = step_capability_id step \<and>
       action_operation action = operation_of_intent (build_intent ctx) \<and>
       facts_digest action = state_digest (build_observed_state ctx))"
  by (auto simp: derive_action_def and_then_Inr_iff index_step_of_Some [OF assms] validate_derived_action_def)

lemma build_plan_Inr_iff:
  "build_plan E time_max profile ctx derive now pid rid = Inr w \<longleftrightarrow>
     (\<exists>order expires actions pd.
        validate_build_inputs E time_max profile ctx now = Inr (order, expires) \<and>
        derive_actions profile (from_validated profile) order ctx derive = Inr actions \<and>
        canonical_json_digest E (\<lambda>p. Inr (profile_json E p)) profile = Inr pd \<and>
        proposal w = \<lparr>plan_id = pid, plan_run_id = rid, plan_intent = build_intent ctx,
          plan_profile_id = profile_id profile, plan_profile_digest = pd, plan_host = build_host ctx,
          plan_tool = build_tool ctx, plan_package_digest = build_package_digest ctx,
          plan_source = build_source ctx, plan_input = build_input ctx, plan_resources = build_resources ctx,
          plan_observed_state = build_observed_state ctx, plan_issued_at = now, plan_expires_at = expires,
          plan_actions = actions, plan_metadata = []\<rparr> \<and>
        plan_structure_ok E (proposal w) \<and> plan_digest E (proposal w) = Inr (proposal_digest w))"
  (is "?L \<longleftrightarrow> ?R")
proof
  assume ?L
  then show ?R
    by (auto simp: build_plan_def build_worker_plan_def and_then_Inr_iff Let_def validate_structure_Inr_iff)
next
  assume ?R
  then obtain order expires actions pd where r:
    "validate_build_inputs E time_max profile ctx now = Inr (order, expires)"
    "derive_actions profile (from_validated profile) order ctx derive = Inr actions"
    "canonical_json_digest E (\<lambda>p. Inr (profile_json E p)) profile = Inr pd"
    "proposal w = \<lparr>plan_id = pid, plan_run_id = rid, plan_intent = build_intent ctx,
      plan_profile_id = profile_id profile, plan_profile_digest = pd, plan_host = build_host ctx,
      plan_tool = build_tool ctx, plan_package_digest = build_package_digest ctx,
      plan_source = build_source ctx, plan_input = build_input ctx, plan_resources = build_resources ctx,
      plan_observed_state = build_observed_state ctx, plan_issued_at = now, plan_expires_at = expires,
      plan_actions = actions, plan_metadata = []\<rparr>"
    "plan_structure_ok E (proposal w)" "plan_digest E (proposal w) = Inr (proposal_digest w)"
    by blast
  obtain vo where vo: "validate_structure E (proposal w) = Inr vo"
    using plan_structure_order [OF r(5)] r(5) by (auto simp: validate_structure_Inr_iff)
  have "build_plan E time_max profile ctx derive now pid rid =
      and_then (map_err PlanningDomain (validate_structure E (proposal w))) (\<lambda>_.
      and_then (map_err PlanningDomain (plan_digest E (proposal w))) (\<lambda>d.
        Inr \<lparr>proposal = proposal w, proposal_digest = d\<rparr>))"
    by (simp add: build_plan_def build_worker_plan_def r(1-3) Let_def flip: r(4))
  then show ?L by (simp add: vo r(6))
qed

section \<open>Planning and review\<close>

lemma validate_at_Inr_iff:
  "(\<exists>order. validate_at E p now = Inr order) \<longleftrightarrow> plan_structure_ok E p \<and> now < plan_expires_at p"
  using plan_structure_order [of E p] by (auto simp: validate_at_def validate_structure_Inr_iff res_simps)

lemma validate_structure_cong:
  "validate_structure E (p\<lparr>plan_intent := i\<rparr>) = validate_structure E p"
proof -
  have "observation_step E (p\<lparr>plan_intent := i\<rparr>) = observation_step E p"
    by (intro ext) (simp add: observation_step_def split: option.split)
  then show ?thesis
    by (simp add: validate_structure_def validate_plan_static_fields_def validate_plan_observation_bindings_def
        validate_plan_input_def)
qed

text \<open>
  C30: an accepted profile becomes a plan with one action per step, in the dependency order of the profile. Each
  action was derived by the registry from its step, the requested intent and the observed state, and is for that
  step, capability, operation and state. The plan expires after the requested lifetime, which is between a second
  and a day, and the digest offered for approval is the digest of the plan.
\<close>

theorem build_plan_sound:
  assumes "build_plan E time_max profile ctx derive now pid rid = Inr w"
  shows "profile_validate profile = Inr (map source_step (plan_actions (proposal w))) \<and>
    (\<forall>action\<in>set (plan_actions (proposal w)). \<exists>step\<in>set (profile_steps profile).
       step_id step = source_step action \<and>
       derive step (build_intent ctx) (build_observed_state ctx) = Inr action \<and>
       action_capability action = step_capability_id step \<and>
       action_operation action = operation_of_intent (build_intent ctx) \<and>
       facts_digest action = state_digest (plan_observed_state (proposal w))) \<and>
    plan_structure_ok E (proposal w) \<and> plan_expires_at (proposal w) = now + lifetime ctx \<and>
    one_second \<le> lifetime ctx \<and> lifetime ctx \<le> day_hours \<and>
    plan_digest E (proposal w) = Inr (proposal_digest w)"
proof -
  obtain order expires actions pd where r:
    "validate_build_inputs E time_max profile ctx now = Inr (order, expires)"
    "derive_actions profile (from_validated profile) order ctx derive = Inr actions"
    "plan_actions (proposal w) = actions" "plan_expires_at (proposal w) = expires"
    "plan_observed_state (proposal w) = build_observed_state ctx"
    "plan_structure_ok E (proposal w)" "plan_digest E (proposal w) = Inr (proposal_digest w)"
    using assms [unfolded build_plan_Inr_iff] by auto
  note inputs = r(1) [unfolded build_inputs_Inr_iff]
  have "distinct (map step_id (profile_steps profile))"
    using inputs profile_validate_Inr_iff [of profile] by (auto simp: profile_ok_def graph_fields_ok_def closed_deps_def)
  note derived = r(2) [unfolded derive_actions_def try_map_Inr_iff derive_action_Inr_iff [OF this]]
  have "order = map source_step actions"
    using derived by (induction rule: list_all2_induct) auto
  moreover have "\<exists>step\<in>set (profile_steps profile). step_id step = source_step action \<and>
        derive step (build_intent ctx) (build_observed_state ctx) = Inr action \<and>
        action_capability action = step_capability_id step \<and>
        action_operation action = operation_of_intent (build_intent ctx) \<and>
        facts_digest action = state_digest (build_observed_state ctx)" if "action \<in> set actions" for action
  proof -
    from that obtain i where "i < length actions" "actions ! i = action"
      by (auto simp: in_set_conv_nth)
    with list_all2_nthD2 [OF derived, of i] show ?thesis by auto
  qed
  ultimately show ?thesis using inputs r(3-) by simp
qed

lemma rebuild_plan_eq:
  assumes "same_reviewed_bindings reviewed fresh"
  shows "\<lparr>plan_id = plan_id reviewed, plan_run_id = plan_run_id reviewed, plan_intent = i,
          plan_profile_id = plan_profile_id fresh, plan_profile_digest = plan_profile_digest fresh,
          plan_host = plan_host fresh, plan_tool = plan_tool fresh,
          plan_package_digest = plan_package_digest fresh, plan_source = plan_source fresh,
          plan_input = plan_input fresh, plan_resources = plan_resources fresh,
          plan_observed_state = plan_observed_state reviewed, plan_issued_at = plan_issued_at reviewed,
          plan_expires_at = plan_expires_at reviewed, plan_actions = plan_actions fresh,
          plan_metadata = plan_metadata reviewed\<rparr> = reviewed\<lparr>plan_intent := i\<rparr>"
  using assms by (intro plan.equality) (simp_all add: same_reviewed_bindings_def)

lemma plan_digest_total:
  "hasher_contract E \<Longrightarrow> plan_digest E p = Inr (sha256 E (render E (plan_json E p)))"
  by (simp add: plan_digest_def canonical_json_digest_eq)

lemma rebuild_Inr_iff:
  "rebuild_reviewed_apply_plan E time_max reviewed profile ctx derive now pid rid = Inr w \<longleftrightarrow>
     plan_intent reviewed = IntentApply \<and> plan_structure_ok E reviewed \<and> now < plan_expires_at reviewed \<and>
     (\<exists>fresh. build_plan E time_max profile ctx derive now pid rid = Inr fresh \<and>
        plan_expires_at reviewed \<le> now + lifetime ctx \<and> same_reviewed_bindings reviewed (proposal fresh)) \<and>
     proposal w = reviewed\<lparr>plan_intent := build_intent ctx\<rparr> \<and>
     plan_digest E (proposal w) = Inr (proposal_digest w)"
  (is "?L \<longleftrightarrow> ?R")
proof -
  have intent: "plan_intent (proposal fresh) = build_intent ctx"
    "plan_expires_at (proposal fresh) = now + lifetime ctx"
    if "build_plan E time_max profile ctx derive now pid rid = Inr fresh" for fresh
    using that by (auto simp: build_plan_Inr_iff build_inputs_Inr_iff)
  note facts = rebuild_reviewed_apply_plan_def Let_def and_then_Inr_iff validate_reviewed_authority_def
  show ?thesis
  proof
    assume ?L
    then obtain fresh where f: "plan_intent reviewed = IntentApply" "\<exists>order. validate_at E reviewed now = Inr order"
      "build_plan E time_max profile ctx derive now pid rid = Inr fresh"
      "plan_expires_at reviewed \<le> plan_expires_at (proposal fresh)"
      "same_reviewed_bindings reviewed (proposal fresh)"
      by (auto simp: facts split: if_splits)
    with \<open>?L\<close> show ?R
      by (auto simp: facts rebuild_plan_eq [OF f(5)] intent [OF f(3)] validate_at_Inr_iff split: if_splits)
  next
    assume R: ?R
    then obtain fresh order where f: "build_plan E time_max profile ctx derive now pid rid = Inr fresh"
      "same_reviewed_bindings reviewed (proposal fresh)" "validate_at E reviewed now = Inr order"
      using validate_at_Inr_iff [of E reviewed now] by blast
    moreover obtain vo where "validate_structure E reviewed = Inr vo"
      using f(3) by (auto simp: validate_at_def and_then_Inr_iff)
    ultimately show ?L
      using R by (cases w) (auto simp: facts rebuild_plan_eq [OF f(2)] intent [OF f(1)] validate_structure_cong)
  qed
qed

text \<open>
  C19: the elevated worker rebuilds the reviewed plan and never replaces it. The rebuilt proposal is the reviewed
  plan with the intent of the worker, offered under its own digest; it exists exactly when the reviewed plan is an
  apply that is valid and has not expired, and a plan built now from the live profile, host, package and facts has
  the same bindings and actions and does not expire before the reviewed one.
\<close>

theorem rebuild_reviewed_iff:
  "rebuild_reviewed_apply_plan E time_max reviewed profile ctx derive now pid rid = Inr w \<longleftrightarrow>
     plan_intent reviewed = IntentApply \<and> plan_structure_ok E reviewed \<and> now < plan_expires_at reviewed \<and>
     (\<exists>fresh. build_plan E time_max profile ctx derive now pid rid = Inr fresh \<and>
        plan_expires_at reviewed \<le> now + lifetime ctx \<and> same_reviewed_bindings reviewed (proposal fresh)) \<and>
     proposal w = reviewed\<lparr>plan_intent := build_intent ctx\<rparr> \<and>
     plan_digest E (proposal w) = Inr (proposal_digest w)"
  by (rule rebuild_Inr_iff)

lemma review_rebuilds:
  assumes "build_plan E time_max profile ctx derive issued pid rid = Inr w" "build_intent ctx = IntentApply"
    and "issued \<le> now" "now < plan_expires_at (proposal w)" "now + lifetime ctx \<le> time_max"
    and "\<And>t. profile_expires_at profile = Some t \<Longrightarrow> now < t"
    and "hasher_contract E"
  shows "rebuild_reviewed_apply_plan E time_max (proposal w) profile ctx derive now pid' rid' = Inr w"
proof -
  obtain order expires actions pd where b:
    "validate_build_inputs E time_max profile ctx issued = Inr (order, expires)"
    "derive_actions profile (from_validated profile) order ctx derive = Inr actions"
    "canonical_json_digest E (\<lambda>p. Inr (profile_json E p)) profile = Inr pd"
    and p: "proposal w = \<lparr>plan_id = pid, plan_run_id = rid, plan_intent = build_intent ctx,
      plan_profile_id = profile_id profile, plan_profile_digest = pd, plan_host = build_host ctx,
      plan_tool = build_tool ctx, plan_package_digest = build_package_digest ctx,
      plan_source = build_source ctx, plan_input = build_input ctx, plan_resources = build_resources ctx,
      plan_observed_state = build_observed_state ctx, plan_issued_at = issued, plan_expires_at = expires,
      plan_actions = actions, plan_metadata = []\<rparr>"
    and ok: "plan_structure_ok E (proposal w)" and d: "plan_digest E (proposal w) = Inr (proposal_digest w)"
    using assms(1) unfolding build_plan_Inr_iff by blast
  let ?q = "(proposal w)\<lparr>plan_id := pid', plan_run_id := rid', plan_issued_at := now,
    plan_expires_at := now + lifetime ctx\<rparr>"
  let ?f = "\<lparr>proposal = ?q, proposal_digest = sha256 E (render E (plan_json E ?q))\<rparr>"
  note inputs = b(1) [unfolded build_inputs_Inr_iff]
  have pos: "0 < lifetime ctx" using inputs by (simp add: one_second_def)
  have "observation_bound E ?q = observation_bound E (proposal w)"
    by (intro ext) (simp add: observation_bound_def)
  then have "plan_structure_ok E ?q"
    using ok pos by (simp add: plan_structure_ok_def observations_bound_def)
  moreover have "validate_build_inputs E time_max profile ctx now = Inr (order, now + lifetime ctx)"
    using inputs assms(5,6) by (simp add: build_inputs_Inr_iff)
  ultimately have fresh: "build_plan E time_max profile ctx derive now pid' rid' = Inr ?f"
    unfolding build_plan_Inr_iff using b(2,3) plan_digest_total [OF assms(7)] by (auto simp: p)
  have "same_reviewed_bindings (proposal w) ?q"
    by (simp add: same_reviewed_bindings_def)
  moreover have "plan_expires_at (proposal w) \<le> now + lifetime ctx"
    using inputs assms(3) by (simp add: p)
  moreover have "proposal w = (proposal w)\<lparr>plan_intent := build_intent ctx\<rparr>"
    by (simp add: p)
  ultimately show ?thesis
    unfolding rebuild_Inr_iff using fresh ok d assms(2,4) by (auto simp: p)
qed

text \<open>
  C31: review completes. An apply plan built at one time and submitted again, unchanged, before it expires is rebuilt
  to the same plan and the same digest, as long as the profile has not expired and the facts are unchanged.
\<close>

theorem review_round_trip:
  assumes "build_plan E time_max profile ctx derive issued pid rid = Inr w" "build_intent ctx = IntentApply"
    and "issued \<le> now" "now < plan_expires_at (proposal w)" "now + lifetime ctx \<le> time_max"
    and "\<And>t. profile_expires_at profile = Some t \<Longrightarrow> now < t"
    and "hasher_contract E"
  shows "rebuild_reviewed_apply_plan E time_max (proposal w) profile ctx derive now pid' rid' = Inr w"
  using assms by (rule review_rebuilds)

section \<open>A sample review\<close>

definition sample_step :: profile_step where
  "sample_step = \<lparr>step_id = 1, step_capability_id = ''c'', step_parameters = [], step_depends_on = [],
     step_continue_on_error = False\<rparr>"

definition sample_profile :: profile where
  "sample_profile = \<lparr>profile_id = 3, profile_name = ''p'', profile_version = ''1'', profile_description = None,
     profile_created_at = 0, profile_expires_at = None, default_continue_on_error = False,
     profile_steps = [sample_step], profile_metadata = []\<rparr>"

definition sample_build :: plan_build_context where
  "sample_build = \<lparr>build_intent = IntentApply, build_host = sample_host ''pc'',
     build_tool = plan_tool (sample_plan 1), build_package_digest = [], build_source = plan_source (sample_plan 1),
     build_input = plan_input (sample_plan 1), build_resources = [], build_observed_state = sample_state,
     lifetime = one_second\<rparr>"

definition sample_built :: "datetime \<Rightarrow> plan" where
  "sample_built t = (sample_plan (t + one_second))\<lparr>plan_issued_at := t,
     plan_profile_digest := render id_ext (profile_json id_ext sample_profile)\<rparr>"

definition sample_worker :: "datetime \<Rightarrow> worker_plan" where
  "sample_worker t = \<lparr>proposal = sample_built t, proposal_digest = render id_ext (plan_json id_ext (sample_built t))\<rparr>"

lemma sample_build_plan:
  assumes "0 \<le> t" "t + one_second \<le> time_max"
  shows "build_plan id_ext time_max sample_profile sample_build (\<lambda>_ _ _. Inr sample_action) t 1 2
    = Inr (sample_worker t)"
proof -
  have profile: "profile_validate sample_profile = Inr [1]"
    by code_simp
  have "validate_build_inputs id_ext time_max sample_profile sample_build t = Inr ([1], t + one_second)"
    using assms profile sample_host_ok [of "''pc''"] sample_state_valid(1)
    by (simp add: build_inputs_Inr_iff sample_build_def text_ok_def byte_in_def day_hours_def one_second_def)
       (simp add: sample_profile_def)
  moreover have "derive_actions sample_profile (from_validated sample_profile) [1] sample_build
      (\<lambda>_ _ _. Inr sample_action) = Inr [sample_action]"
  proof -
    have "distinct (map step_id (profile_steps sample_profile))" by (simp add: sample_profile_def)
    then show ?thesis
      unfolding derive_actions_def try_map_Inr_iff
      by (simp add: derive_action_Inr_iff)
         (simp add: sample_profile_def sample_step_def sample_action_def sample_build_def)
  qed
  moreover have "plan_structure_ok id_ext (sample_built t)"
  proof -
    have "observation_bound id_ext (sample_built t) = observation_bound id_ext (sample_plan (t + one_second))"
      by (intro ext) (simp add: observation_bound_def sample_built_def)
    then show ?thesis
      using sample_plan_structure [of "t + one_second"] assms
      by (simp add: plan_structure_ok_def observations_bound_def sample_built_def)
         (simp add: sample_plan_def one_second_def)
  qed
  ultimately show ?thesis
    unfolding build_plan_Inr_iff
    by (intro exI [of _ "[1]"] exI [of _ "t + one_second"] exI [of _ "[sample_action]"]
          exI [of _ "render id_ext (profile_json id_ext sample_profile)"])
       (simp add: canonical_json_digest_eq [OF id_ext_contracts(1)] plan_digest_total [OF id_ext_contracts(1)]
         sample_worker_def, simp add: sample_built_def sample_plan_def sample_build_def sample_profile_def)
qed

theorem build_plan_sound_witness:
  "plan_structure_ok id_ext (sample_built 5) \<and> plan_expires_at (sample_built 5) = 5 + one_second"
  using build_plan_sound [OF sample_build_plan [of 5 "10 ^ 12"]]
  by (simp add: one_second_def sample_worker_def sample_build_def)

theorem review_round_trip_witness:
  "rebuild_reviewed_apply_plan id_ext (10 ^ 12) (sample_built 5) sample_profile sample_build
     (\<lambda>_ _ _. Inr sample_action) 6 8 9 = Inr (sample_worker 5)"
proof -
  have w: "proposal (sample_worker 5) = sample_built 5" by (simp add: sample_worker_def)
  show ?thesis
  proof (rule review_round_trip [OF sample_build_plan [of 5 "10 ^ 12"], unfolded w])
    show "hasher_contract id_ext" by (rule id_ext_contracts(1))
  qed (simp_all add: one_second_def sample_build_def sample_built_def sample_plan_def sample_profile_def)
qed

lemma sample_rebuild:
  "rebuild_reviewed_apply_plan id_ext (10 ^ 12) (sample_built 5) sample_profile sample_build
     (\<lambda>_ _ _. Inr sample_action) 6 8 9 = Inr (sample_worker 5)"
proof -
  have w: "proposal (sample_worker 5) = sample_built 5" by (simp add: sample_worker_def)
  show ?thesis
  proof (rule review_rebuilds [OF sample_build_plan [of 5 "10 ^ 12"], unfolded w])
    show "hasher_contract id_ext" by (rule id_ext_contracts(1))
  qed (simp_all add: one_second_def sample_build_def sample_built_def sample_plan_def sample_profile_def)
qed

end
