(* ===== verification/Drift_Policy.thy ===== *)
theory Drift_Policy
  imports Windows_Update
begin

text \<open>
  What the capability policies share: the completeness of an observation and the service observation of
  \<open>wef_time_policy.rs\<close>, the finding of \<open>audit_policy.rs\<close>, and the law of a policy that proposes one change per field
  that differs. The law is the locale \<open>field_policy\<close>: settling a field ends its drift, leaves the other fields as
  they were and keeps the evidence good. From it follow once, for every policy, what a proposal is worth after a
  part of it has been carried out, in whatever order.
\<close>

section \<open>Observations and findings\<close>

datatype 'a observation =
    Present 'a
  | ObsMissing
  | ObsAccessDenied
  | ObsTimedOut
  | ObsTruncated
  | ObsFailed int
  | ObsNotRun
  | ObsUnparsed

fun is_present :: "'a observation \<Rightarrow> bool" where
  "is_present (Present _) = True"
| "is_present _ = False"

lemma is_present_iff: "is_present v \<longleftrightarrow> (\<exists>a. v = Present a)"
  by (cases v) simp_all

datatype service_state = ServiceRunning | ServiceStopped | ServiceStateOther "32 word"

datatype service_start_mode =
    StartAutomatic | StartAutomaticDelayed | StartManual | StartDisabled | StartOther "32 word"

record service_observation =
  service_name :: string
  service_state_of :: service_state
  start_mode :: service_start_mode

record policy_finding =
  pf_code :: string
  pf_status :: finding_status
  pf_severity :: severity
  pf_message :: string
  pf_evidence :: json_map

text \<open>\<open>BTreeMap::from\<close> an array inserts its pairs in order.\<close>

definition json_map_from :: "(string \<times> jvalue) list \<Rightarrow> json_map" where
  "json_map_from es = foldl (\<lambda>m (k, v). bt_insert k v m) [] es"

definition read_only_evidence :: json_map where
  "read_only_evidence = json_map_from [(''read_only'', JBool True)]"

text \<open>The two spellings of an incomplete observation in messages, with blanks and with underscores.\<close>

fun observation_state :: "'a observation \<Rightarrow> string" where
  "observation_state (Present _) = ''present''"
| "observation_state ObsMissing = ''missing''"
| "observation_state ObsAccessDenied = ''access denied''"
| "observation_state ObsTimedOut = ''timed out''"
| "observation_state ObsTruncated = ''truncated''"
| "observation_state (ObsFailed _) = ''failed''"
| "observation_state ObsNotRun = ''not run''"
| "observation_state ObsUnparsed = ''unparsed''"

fun observation_tag :: "'a observation \<Rightarrow> string" where
  "observation_tag (Present _) = ''present''"
| "observation_tag ObsMissing = ''missing''"
| "observation_tag ObsAccessDenied = ''access_denied''"
| "observation_tag ObsTimedOut = ''timed_out''"
| "observation_tag ObsTruncated = ''truncated''"
| "observation_tag (ObsFailed _) = ''failed''"
| "observation_tag ObsNotRun = ''not_run''"
| "observation_tag ObsUnparsed = ''unparsed''"

definition jint :: "int \<Rightarrow> jvalue" where
  "jint i = JNumber (if i < 0 then NegInt i else PosInt (nat i))"

definition captured_json :: "('a \<Rightarrow> jvalue) \<Rightarrow> 'a observation \<Rightarrow> jvalue" where
  "captured_json f v =
     obj ([field ''status'' (JString (observation_tag v))] @
       (case v of
          Present a \<Rightarrow> [field ''value'' (f a)]
        | ObsFailed code \<Rightarrow> [field ''value'' (obj [field ''exit_code'' (jint code)])]
        | _ \<Rightarrow> []))"

section \<open>Policies that settle fields\<close>

lemma filter_notin_take: "distinct xs \<Longrightarrow> filter (\<lambda>x. x \<notin> set (take k xs)) xs = drop k xs"
proof -
  assume d: "distinct xs"
  have parts: "filter P xs = filter P (take k xs) @ filter P (drop k xs)" for P
    by (metis append_take_drop_id filter_append)
  have "set (take k xs) \<inter> set (drop k xs) = {}" using d by (metis append_take_drop_id distinct_append)
  then show ?thesis by (subst parts) (auto simp: filter_empty_conv intro: filter_True)
qed

text \<open>
  A planner is resumable on an observation when, after any number of the changes it proposes have been carried out,
  planning again succeeds and proposes exactly the changes that are left, in the same order.
\<close>

definition resumable :: "('o \<Rightarrow> 'e + 'plan) \<Rightarrow> ('plan \<Rightarrow> 'c list) \<Rightarrow> ('c \<Rightarrow> 'o \<Rightarrow> 'o) \<Rightarrow> 'o \<Rightarrow> bool" where
  "resumable build changes carry_out ob \<longleftrightarrow>
     (\<forall>plan k. build ob = Inr plan \<longrightarrow>
        (\<exists>rest. build (fold carry_out (take k (changes plan)) ob) = Inr rest \<and> changes rest = drop k (changes plan)))"

locale field_policy =
  fixes fields :: "'p \<Rightarrow> 'f list"
    and drifts :: "'p \<Rightarrow> 'o \<Rightarrow> 'f \<Rightarrow> bool"
    and settle :: "'p \<Rightarrow> 'f \<Rightarrow> 'o \<Rightarrow> 'o"
    and good :: "'p \<Rightarrow> 'o \<Rightarrow> bool"
  assumes fields_distinct: "distinct (fields p)"
    and settle_good: "good p ob \<Longrightarrow> f \<in> set (fields p) \<Longrightarrow> good p (settle p f ob)"
    and settle_drifts: "good p ob \<Longrightarrow> f \<in> set (fields p) \<Longrightarrow> g \<in> set (fields p) \<Longrightarrow>
      drifts p (settle p f ob) g \<longleftrightarrow> g \<noteq> f \<and> drifts p ob g"
begin

definition drift :: "'p \<Rightarrow> 'o \<Rightarrow> 'f list" where
  "drift p ob = filter (drifts p ob) (fields p)"

definition settle_all :: "'p \<Rightarrow> 'f list \<Rightarrow> 'o \<Rightarrow> 'o" where
  "settle_all p fs ob = fold (settle p) fs ob"

lemma settle_all_good: "good p ob \<Longrightarrow> set fs \<subseteq> set (fields p) \<Longrightarrow> good p (settle_all p fs ob)"
  by (induction fs arbitrary: ob) (simp_all add: settle_all_def settle_good)

lemma settle_all_drifts:
  "good p ob \<Longrightarrow> set fs \<subseteq> set (fields p) \<Longrightarrow> g \<in> set (fields p) \<Longrightarrow>
     drifts p (settle_all p fs ob) g \<longleftrightarrow> g \<notin> set fs \<and> drifts p ob g"
  by (induction fs arbitrary: ob) (auto simp: settle_all_def settle_good settle_drifts)

text \<open>What remains to be done is what was proposed less what was done, whatever the order.\<close>

lemma drift_after:
  assumes "good p ob" "set fs \<subseteq> set (fields p)"
  shows "drift p (settle_all p fs ob) = filter (\<lambda>g. g \<notin> set fs) (drift p ob)"
  using settle_all_drifts [OF assms] by (auto simp: drift_def intro: filter_cong)

lemma drift_resumes:
  assumes "good p ob"
  shows "drift p (settle_all p (take k (drift p ob)) ob) = drop k (drift p ob)"
proof -
  have "set (take k (drift p ob)) \<subseteq> set (fields p)"
    by (auto simp: drift_def dest: in_set_takeD)
  moreover have "distinct (drift p ob)" by (simp add: drift_def fields_distinct)
  then have "filter (\<lambda>g. g \<notin> set (take k (drift p ob))) (drift p ob) = drop k (drift p ob)"
    by (rule filter_notin_take)
  ultimately show ?thesis using drift_after [OF assms] by simp
qed

lemma resumableI:
  assumes start: "\<And>plan. build ob = Inr plan \<Longrightarrow> good p ob"
    and made: "\<And>ob. good p ob \<Longrightarrow> \<exists>plan. build ob = Inr plan \<and> changes plan = map enc (drift p ob)"
    and step: "\<And>f ob. good p ob \<Longrightarrow> f \<in> set (fields p) \<Longrightarrow> carry_out (enc f) ob = settle p f ob"
  shows "resumable build changes carry_out ob"
  unfolding resumable_def
proof (intro allI impI)
  fix plan k
  assume plan: "build ob = Inr plan"
  note ok = start [OF plan]
  have fold_eq: "fold carry_out (map enc fs) ob = settle_all p fs ob" if "good p ob" "set fs \<subseteq> set (fields p)" for fs ob
    using that by (induction fs arbitrary: ob) (simp_all add: settle_all_def step settle_good)
  have sub: "set (take k (drift p ob)) \<subseteq> set (fields p)"
    by (auto simp: drift_def dest: in_set_takeD)
  have changes: "changes plan = map enc (drift p ob)" using made [OF ok] plan by simp
  have run: "fold carry_out (take k (changes plan)) ob = settle_all p (take k (drift p ob)) ob"
    by (simp add: changes take_map fold_eq [OF ok sub])
  obtain rest where "build (settle_all p (take k (drift p ob)) ob) = Inr rest"
      "changes rest = map enc (drift p (settle_all p (take k (drift p ob)) ob))"
    using made [OF settle_all_good [OF ok sub]] by blast
  then show "\<exists>rest. build (fold carry_out (take k (changes plan)) ob) = Inr rest \<and> changes rest = drop k (changes plan)"
    unfolding run by (simp add: changes drift_resumes [OF ok] drop_map)
qed

lemmas resumable_fieldsI = resumableI [where enc = id, simplified list.map_id id_apply]

lemma drift_converges:
  assumes "good p ob" "set fs = set (drift p ob)"
  shows "drift p (settle_all p fs ob) = []"
  using drift_after [OF assms(1), of fs] assms(2) by (auto simp: drift_def)

end

text \<open>
  A policy that expects a value for each of some keys of a map is one: a key drifts when the map has another value
  or none, and it is settled by an insertion.
\<close>

locale map_policy =
  fixes expected :: "'p \<Rightarrow> ('f :: linorder \<times> 'v) list"
  assumes expected_ok: "map_entries_ok (expected p)"
begin

definition put :: "'p \<Rightarrow> 'f \<Rightarrow> ('f \<times> 'v) list \<Rightarrow> ('f \<times> 'v) list" where
  "put p f m = bt_insert f (the (map_of (expected p) f)) m"

end

sublocale map_policy \<subseteq> fp: field_policy "\<lambda>p. map fst (expected p)" "\<lambda>p m f. map_of m f \<noteq> map_of (expected p) f" put
    "\<lambda>_. map_entries_ok"
proof
  show "distinct (map fst (expected p))" for p using expected_ok by (rule map_entries_ok_distinct)
  show "map_entries_ok m \<Longrightarrow> f \<in> set (map fst (expected p)) \<Longrightarrow> map_entries_ok (put p f m)" for m f p
    by (simp add: put_def map_entries_ok_insert)
  show "map_of (put p f m) g \<noteq> map_of (expected p) g \<longleftrightarrow> g \<noteq> f \<and> map_of m g \<noteq> map_of (expected p) g"
    if "map_entries_ok m" "f \<in> set (map fst (expected p))" for m f g p
  proof -
    obtain v where "map_of (expected p) f = Some v" using \<open>f \<in> set (map fst (expected p))\<close> by (auto dest: weak_map_of_SomeI)
    with \<open>map_entries_ok m\<close> show ?thesis by (simp add: put_def map_of_bt_insert)
  qed
qed

context map_policy
begin

text \<open>The differences as pairs, as the planners collect them, and their application.\<close>

definition differences :: "'p \<Rightarrow> ('f \<times> 'v) list \<Rightarrow> ('f \<times> 'v) list" where
  "differences p m = filter (\<lambda>(f, v). map_of m f \<noteq> Some v) (expected p)"

lemma expected_value: "(f, v) \<in> set (expected p) \<Longrightarrow> map_of (expected p) f = Some v"
  using map_entries_ok_distinct [OF expected_ok] by simp

lemma differences_keys: "map fst (differences p m) = fp.drift p m"
proof -
  have "filter (\<lambda>(f, v). map_of m f \<noteq> Some v) (expected p) =
      filter (\<lambda>e. map_of m (fst e) \<noteq> map_of (expected p) (fst e)) (expected p)"
    by (intro filter_cong) (auto simp: expected_value)
  then show ?thesis by (simp add: differences_def fp.drift_def filter_map o_def)
qed

lemma fold_insert_eq_settle:
  "set es \<subseteq> set (expected p) \<Longrightarrow> fold (\<lambda>(f, v). bt_insert f v) es m = fp.settle_all p (map fst es) m"
  by (induction es arbitrary: m) (auto simp: fp.settle_all_def put_def expected_value)

lemma differences_after:
  assumes "map_entries_ok m" "set es \<subseteq> set (expected p)"
  shows "differences p (fold (\<lambda>(f, v). bt_insert f v) es m) = filter (\<lambda>e. e \<notin> set es) (differences p m)"
proof -
  let ?m = "fold (\<lambda>(f, v). bt_insert f v) es m"
  have "map_of ?m f \<noteq> Some v \<longleftrightarrow> (f, v) \<notin> set es \<and> map_of m f \<noteq> Some v" if "(f, v) \<in> set (expected p)" for f v
  proof -
    have "f \<in> fst ` set es \<longleftrightarrow> (f, v) \<in> set es"
      using assms(2) expected_value [OF that] by (force dest: expected_value)
    then show ?thesis
      using fp.settle_all_drifts [OF assms(1), of "map fst es" p f] assms(2) that
      by (auto simp: fold_insert_eq_settle [OF assms(2)] expected_value [OF that] rev_image_eqI)
  qed
  then show ?thesis by (auto simp: differences_def intro: filter_cong)
qed

lemma differences_resume:
  assumes "map_entries_ok m"
  shows "differences p (fold (\<lambda>(f, v). bt_insert f v) (take k (differences p m)) m) = drop k (differences p m)"
proof -
  have "distinct (differences p m)"
    using map_entries_ok_distinct [OF expected_ok [of p]] by (simp add: differences_def distinct_map)
  moreover have "set (take k (differences p m)) \<subseteq> set (expected p)"
    by (auto simp: differences_def dest: in_set_takeD)
  ultimately show ?thesis using differences_after [OF assms] filter_notin_take by metis
qed

end

end
