(* ===== verification/Registry_Policies.thy ===== *)
theory Registry_Policies
  imports Drift_Policy
begin

text \<open>
  The policies whose settings are registry values: Office and Edge (\<open>office_browser_policy.rs\<close>), PowerShell logging
  (\<open>powershell_logging_policy.rs\<close>) and Security Options (\<open>security_options_policy.rs\<close>). Each compares an observation
  with a desired state and proposes the differences.
\<close>

section \<open>Office and Edge\<close>

datatype office_browser_field =
    WordVbaWarnings
  | ExcelVbaWarnings
  | PowerPointVbaWarnings
  | WordBlockMacrosFromInternet
  | ExcelBlockMacrosFromInternet
  | PowerPointBlockMacrosFromInternet
  | WordAccessVbom
  | ExcelAccessVbom
  | PowerPointAccessVbom
  | WordProtectedViewInternet
  | ExcelProtectedViewInternet
  | PowerPointProtectedViewInternet
  | WordProtectedViewUnsafeLocations
  | ExcelProtectedViewUnsafeLocations
  | PowerPointProtectedViewUnsafeLocations
  | WordProtectedViewOutlook
  | ExcelProtectedViewOutlook
  | PowerPointProtectedViewOutlook
  | WordDisableTrustedLocations
  | ExcelDisableTrustedLocations
  | PowerPointDisableTrustedLocations
  | EdgeSmartScreen
  | EdgePua
  | EdgePasswordManager
  | EdgeAutofillAddress
  | EdgeAutofillCreditCard
  | EdgeSyncDisabled
  | EdgeSslVersionMin
  | EdgeTrackingPrevention

text \<open>The derived order of the fields is the order of their declaration.\<close>

fun office_index :: "office_browser_field \<Rightarrow> nat" where
  "office_index WordVbaWarnings = 0"
| "office_index ExcelVbaWarnings = 1"
| "office_index PowerPointVbaWarnings = 2"
| "office_index WordBlockMacrosFromInternet = 3"
| "office_index ExcelBlockMacrosFromInternet = 4"
| "office_index PowerPointBlockMacrosFromInternet = 5"
| "office_index WordAccessVbom = 6"
| "office_index ExcelAccessVbom = 7"
| "office_index PowerPointAccessVbom = 8"
| "office_index WordProtectedViewInternet = 9"
| "office_index ExcelProtectedViewInternet = 10"
| "office_index PowerPointProtectedViewInternet = 11"
| "office_index WordProtectedViewUnsafeLocations = 12"
| "office_index ExcelProtectedViewUnsafeLocations = 13"
| "office_index PowerPointProtectedViewUnsafeLocations = 14"
| "office_index WordProtectedViewOutlook = 15"
| "office_index ExcelProtectedViewOutlook = 16"
| "office_index PowerPointProtectedViewOutlook = 17"
| "office_index WordDisableTrustedLocations = 18"
| "office_index ExcelDisableTrustedLocations = 19"
| "office_index PowerPointDisableTrustedLocations = 20"
| "office_index EdgeSmartScreen = 21"
| "office_index EdgePua = 22"
| "office_index EdgePasswordManager = 23"
| "office_index EdgeAutofillAddress = 24"
| "office_index EdgeAutofillCreditCard = 25"
| "office_index EdgeSyncDisabled = 26"
| "office_index EdgeSslVersionMin = 27"
| "office_index EdgeTrackingPrevention = 28"

lemma office_index_inj: "office_index f = office_index g \<Longrightarrow> f = g"
  by (cases f; cases g) simp_all

instantiation office_browser_field :: linorder
begin

definition less_eq_office_browser_field :: "office_browser_field \<Rightarrow> office_browser_field \<Rightarrow> bool" where
  "f \<le> g \<longleftrightarrow> office_index f \<le> office_index g"

definition less_office_browser_field :: "office_browser_field \<Rightarrow> office_browser_field \<Rightarrow> bool" where
  "f < g \<longleftrightarrow> office_index f < office_index g"

instance
  by standard (auto simp: less_eq_office_browser_field_def less_office_browser_field_def dest: office_index_inj)

end

type_synonym office_values = "(office_browser_field \<times> policy_value_snapshot) list"

record office_browser_observation =
  office_values_of :: office_values

datatype macros_mode = SignedOnly | DisableAll
datatype tls_minimum = Tls12 | Tls13
datatype tracking_prevention = TrackBasic | TrackBalanced | TrackStrict

record protected_view_config =
  pv_internet :: bool
  pv_unsafe_locations :: bool
  pv_outlook :: bool

definition protected_view_default :: protected_view_config where
  "protected_view_default = \<lparr>pv_internet = True, pv_unsafe_locations = True, pv_outlook = True\<rparr>"

record office_config =
  version_major :: "16 word"
  macros_mode_of :: macros_mode
  block_macros_from_internet :: bool
  disable_trusted_locations :: bool
  protected_view :: protected_view_config
  access_vbom :: bool

definition office_config_default :: office_config where
  "office_config_default = \<lparr>version_major = 16, macros_mode_of = SignedOnly, block_macros_from_internet = True,
     disable_trusted_locations = True, protected_view = protected_view_default, access_vbom = False\<rparr>"

record edge_config =
  smart_screen :: bool
  pua :: bool
  password_manager :: bool
  autofill_address :: bool
  autofill_credit_card :: bool
  sync_disabled :: bool
  ssl_version_min :: tls_minimum
  tracking_prevention_of :: tracking_prevention

definition edge_config_default :: edge_config where
  "edge_config_default = \<lparr>smart_screen = True, pua = True, password_manager = False, autofill_address = False,
     autofill_credit_card = False, sync_disabled = True, ssl_version_min = Tls12, tracking_prevention_of = TrackBalanced\<rparr>"

record office_browser_config =
  config_office :: "office_config option"
  config_edge :: "edge_config option"

record office_browser_parameters =
  ob_param_config :: "office_browser_config option"
  ob_param_office :: "office_config option"
  ob_param_edge :: "edge_config option"

record office_browser_desired =
  desired_office :: office_config
  desired_edge :: edge_config

record office_browser_mutation =
  ob_field :: office_browser_field
  ob_desired_value :: policy_value_snapshot

record office_browser_plan =
  ob_observation :: office_browser_observation
  ob_desired :: office_browser_desired
  ob_mutations :: "office_browser_mutation list"
  ob_rollback :: office_browser_observation
  ob_requires_administrator :: bool
  ob_reboot_required :: bool
  ob_exclusions :: "string list"

text \<open>\<open>first_of a b d\<close> is \<open>a.or(b).unwrap_or(d)\<close>.\<close>

definition first_of :: "'a option \<Rightarrow> 'a option \<Rightarrow> 'a \<Rightarrow> 'a" where
  "first_of a b d = (case a of Some x \<Rightarrow> x | None \<Rightarrow> (case b of Some x \<Rightarrow> x | None \<Rightarrow> d))"

definition resolve_office_browser_desired_state :: "office_browser_parameters \<Rightarrow> string + office_browser_desired" where
  "resolve_office_browser_desired_state p =
     (let configured = ob_param_config p;
          office = first_of (ob_param_office p) (Option.bind configured config_office) office_config_default in
      if version_major office \<noteq> 16 then Inl ''only Office version_major=16 is allowlisted''
      else
        let edge = first_of (ob_param_edge p) (Option.bind configured config_edge) edge_config_default
        in Inr \<lparr>desired_office = office, desired_edge = edge\<rparr>)"

type_synonym office_field_row =
  "office_browser_field \<times> office_browser_field \<times> office_browser_field \<times> office_browser_field \<times>
   office_browser_field \<times> office_browser_field \<times> office_browser_field"

definition office_fields :: "office_field_row list" where
  "office_fields = [
     (WordVbaWarnings, WordBlockMacrosFromInternet, WordAccessVbom, WordProtectedViewInternet, WordProtectedViewUnsafeLocations, WordProtectedViewOutlook, WordDisableTrustedLocations),
     (ExcelVbaWarnings, ExcelBlockMacrosFromInternet, ExcelAccessVbom, ExcelProtectedViewInternet, ExcelProtectedViewUnsafeLocations, ExcelProtectedViewOutlook, ExcelDisableTrustedLocations),
     (PowerPointVbaWarnings, PowerPointBlockMacrosFromInternet, PowerPointAccessVbom, PowerPointProtectedViewInternet, PowerPointProtectedViewUnsafeLocations, PowerPointProtectedViewOutlook, PowerPointDisableTrustedLocations)]"

definition dword_of :: "bool \<Rightarrow> policy_value_snapshot" where
  "dword_of b = Dword (of_bool b)"

definition insert_office_row :: "32 word \<Rightarrow> office_config \<Rightarrow> office_field_row \<Rightarrow> office_values \<Rightarrow> office_values" where
  "insert_office_row vba office row expected =
     (let (vba_field, macro_field, vbom_field, internet, unsafe_locations, outlook, trusted) = row;
          e = bt_insert vba_field (Dword vba) expected;
          e = bt_insert macro_field (dword_of (block_macros_from_internet office)) e;
          e = bt_insert vbom_field (dword_of (access_vbom office)) e;
          e = bt_insert internet (dword_of (\<not> pv_internet (protected_view office))) e;
          e = bt_insert unsafe_locations (dword_of (\<not> pv_unsafe_locations (protected_view office))) e;
          e = bt_insert outlook (dword_of (\<not> pv_outlook (protected_view office))) e
      in bt_insert trusted (dword_of (disable_trusted_locations office)) e)"

definition insert_office_values :: "office_config \<Rightarrow> office_values \<Rightarrow> office_values" where
  "insert_office_values office expected =
     (let vba = (case macros_mode_of office of SignedOnly \<Rightarrow> 3 | DisableAll \<Rightarrow> 4)
      in fold (insert_office_row vba office) office_fields expected)"

definition insert_edge_boolean_values :: "edge_config \<Rightarrow> office_values \<Rightarrow> office_values" where
  "insert_edge_boolean_values edge expected =
     fold (\<lambda>(f, v). bt_insert f v)
       [(EdgeSmartScreen, dword_of (smart_screen edge)), (EdgePua, dword_of (pua edge)),
        (EdgePasswordManager, dword_of (password_manager edge)), (EdgeAutofillAddress, dword_of (autofill_address edge)),
        (EdgeAutofillCreditCard, dword_of (autofill_credit_card edge)), (EdgeSyncDisabled, dword_of (sync_disabled edge))]
       expected"

definition edge_tls_version :: "edge_config \<Rightarrow> string" where
  "edge_tls_version edge = (case ssl_version_min edge of Tls12 \<Rightarrow> ''tls1.2'' | Tls13 \<Rightarrow> ''tls1.3'')"

definition edge_tracking_prevention :: "edge_config \<Rightarrow> 32 word" where
  "edge_tracking_prevention edge =
     (case tracking_prevention_of edge of TrackBasic \<Rightarrow> 1 | TrackBalanced \<Rightarrow> 2 | TrackStrict \<Rightarrow> 3)"

definition insert_edge_values :: "edge_config \<Rightarrow> office_values \<Rightarrow> office_values" where
  "insert_edge_values edge expected =
     bt_insert EdgeTrackingPrevention (Dword (edge_tracking_prevention edge))
     (bt_insert EdgeSslVersionMin (PolicyString (edge_tls_version edge)) (insert_edge_boolean_values edge expected))"

definition office_expected_values :: "office_browser_desired \<Rightarrow> office_values" where
  "office_expected_values d = insert_edge_values (desired_edge d) (insert_office_values (desired_office d) [])"

definition build_office_browser_plan ::
    "office_browser_observation \<Rightarrow> office_browser_desired \<Rightarrow> office_browser_plan" where
  "build_office_browser_plan obs d =
     \<lparr>ob_observation = obs, ob_desired = d,
      ob_mutations = map (\<lambda>(f, v). \<lparr>ob_field = f, ob_desired_value = v\<rparr>)
        (filter (\<lambda>(f, v). map_of (office_values_of obs) f \<noteq> Some v) (office_expected_values d)),
      ob_rollback = obs, ob_requires_administrator = True, ob_reboot_required = False,
      ob_exclusions = [''Firefox policies.json is unsupported: arbitrary distribution paths are not accepted'',
        ''Edge RestoreOnStartupURLs is unsupported: legacy numbered values are an unbounded mutable set'']\<rparr>"

section \<open>PowerShell logging\<close>

datatype 'a value_snapshot = ValueMissing | Value 'a

definition max_module_names :: nat where "max_module_names = 64"
definition ps_max_policy_string_bytes :: usize where "ps_max_policy_string_bytes = 16 * 1024"

type_synonym numbered_names = "(16 word \<times> string) list"

record module_names_snapshot =
  module_values :: numbered_names
  module_complete :: bool

record power_shell_hive =
  hive_transcription :: "32 word value_snapshot"
  hive_directory :: "string value_snapshot"
  hive_header :: "32 word value_snapshot"
  hive_script_block :: "32 word value_snapshot"
  hive_script_block_invocation :: "32 word value_snapshot"
  hive_module :: "32 word value_snapshot"
  hive_module_names :: module_names_snapshot

record power_shell_observation =
  hklm :: power_shell_hive
  hkcu :: "power_shell_hive option"

record power_shell_config =
  ps_transcription :: "bool option"
  ps_directory :: "string option"
  ps_header :: "bool option"
  ps_script_block :: "bool option"
  ps_script_block_invocation :: "bool option"
  ps_module :: "bool option"
  ps_module_names :: "string list option"

text \<open>The parameters have the fields of the configuration and three more.\<close>

record power_shell_parameters = power_shell_config +
  ps_config :: "power_shell_config option"
  ps_replace_module_names :: bool
  ps_include_hkcu :: bool

record power_shell_desired =
  want_transcription :: bool
  want_directory :: string
  want_header :: bool
  want_script_block :: bool
  want_script_block_invocation :: bool
  want_module :: bool
  want_module_names :: "string list"
  want_replace_module_names :: bool

datatype policy_field =
    EnableTranscription | TranscriptOutputDirectory | EnableInvocationHeader | EnableScriptBlockLogging
  | EnableScriptBlockInvocationLogging | EnableModuleLogging

datatype power_shell_mutation =
    SetDword policy_field "32 word"
  | SetString policy_field string
  | ReplaceModuleNames numbered_names

record power_shell_plan =
  ps_observation :: power_shell_observation
  ps_desired :: power_shell_desired
  ps_mutations :: "power_shell_mutation list"
  ps_rollback :: power_shell_hive
  ps_requires_administrator :: bool
  ps_reboot_required :: bool
  ps_new_sessions :: bool

definition validate_module_name :: "string \<Rightarrow> string + string" where
  "validate_module_name v =
     (if v = [] \<or> length v > ps_max_policy_string_bytes \<or> CHR 0x00 \<in> set v
      then Inl ''module names must be bounded non-empty strings without NUL'' else Inr v)"

fun collect_results :: "('e + 'a) list \<Rightarrow> 'e + 'a list" where
  "collect_results [] = Inr []"
| "collect_results (r # rs) = and_then r (\<lambda>a. and_then (collect_results rs) (\<lambda>as. Inr (a # as)))"

definition choose_modules :: "string list option \<Rightarrow> string list option \<Rightarrow> string + string list" where
  "choose_modules explicit configured =
     collect_results (map validate_module_name (first_of explicit configured [''*'']))"

definition default_transcripts :: string where
  "default_transcripts = ''C:'' @ backslash @ ''ProgramData'' @ backslash @ ''PowerShellTranscripts''"

definition resolve_power_shell_desired_state :: "power_shell_parameters \<Rightarrow> string + power_shell_desired" where
  "resolve_power_shell_desired_state p =
     (let config = ps_config p;
          transcript = first_of (ps_directory p) (Option.bind config ps_directory) default_transcripts in
      if length transcript > ps_max_policy_string_bytes \<or> blank transcript
      then Inl ''transcript output directory must be a bounded non-empty string''
      else and_then (choose_modules (ps_module_names p) (Option.bind config ps_module_names)) (\<lambda>modules.
        Inr \<lparr>want_transcription = first_of (ps_transcription p) (Option.bind config ps_transcription) True,
          want_directory = transcript,
          want_header = first_of (ps_header p) (Option.bind config ps_header) True,
          want_script_block = first_of (ps_script_block p) (Option.bind config ps_script_block) True,
          want_script_block_invocation =
            first_of (ps_script_block_invocation p) (Option.bind config ps_script_block_invocation) False,
          want_module = first_of (ps_module p) (Option.bind config ps_module) True,
          want_module_names = modules, want_replace_module_names = ps_replace_module_names p\<rparr>))"

fun number_from :: "nat \<Rightarrow> string list \<Rightarrow> numbered_names \<Rightarrow> string + numbered_names" where
  "number_from i [] acc = Inr acc"
| "number_from i (v # vs) acc =
     and_then (validate_module_name v) (\<lambda>v.
       if i + 1 \<ge> 2 ^ 16 then Inl ''module_names index overflow''
       else number_from (i + 1) vs (bt_insert (of_nat (i + 1)) v acc))"

definition numbered :: "string list \<Rightarrow> string + numbered_names" where
  "numbered vs =
     (if vs = [] \<or> length vs > max_module_names
      then Inl ''module_names must contain between one and 64 entries'' else number_from 0 vs [])"

definition add_dword_drift ::
    "policy_field \<Rightarrow> 32 word value_snapshot \<Rightarrow> bool \<Rightarrow> power_shell_mutation list \<Rightarrow> power_shell_mutation list" where
  "add_dword_drift f before desired ms =
     (let v = of_bool desired in if before \<noteq> Value v then ms @ [SetDword f v] else ms)"

definition add_dword_mutations ::
    "power_shell_hive \<Rightarrow> power_shell_desired \<Rightarrow> power_shell_mutation list \<Rightarrow> power_shell_mutation list" where
  "add_dword_mutations h d ms =
     fold (\<lambda>(f, before, v). add_dword_drift f before v)
       [(EnableTranscription, hive_transcription h, want_transcription d),
        (EnableInvocationHeader, hive_header h, want_header d),
        (EnableScriptBlockLogging, hive_script_block h, want_script_block d),
        (EnableScriptBlockInvocationLogging, hive_script_block_invocation h, want_script_block_invocation d),
        (EnableModuleLogging, hive_module h, want_module d)] ms"

definition add_string_drift ::
    "policy_field \<Rightarrow> string value_snapshot \<Rightarrow> string \<Rightarrow> power_shell_mutation list \<Rightarrow> power_shell_mutation list" where
  "add_string_drift f before desired ms = (if before \<noteq> Value desired then ms @ [SetString f desired] else ms)"

definition build_power_shell_plan :: "power_shell_observation \<Rightarrow> power_shell_desired \<Rightarrow> string + power_shell_plan" where
  "build_power_shell_plan obs d =
     (let ms = add_string_drift TranscriptOutputDirectory (hive_directory (hklm obs)) (want_directory d)
            (add_dword_mutations (hklm obs) d []);
          plan = (\<lambda>ms. Inr \<lparr>ps_observation = obs, ps_desired = d, ps_mutations = ms, ps_rollback = hklm obs,
            ps_requires_administrator = True, ps_reboot_required = False, ps_new_sessions = True\<rparr>)
      in and_then (numbered (want_module_names d)) (\<lambda>names.
        if module_values (hive_module_names (hklm obs)) \<noteq> names
        then if \<not> want_replace_module_names d \<or> \<not> module_complete (hive_module_names (hklm obs))
          then Inl ''ModuleNames replacement requires replace_module_names=true and a complete numbered snapshot''
          else plan (ms @ [ReplaceModuleNames names])
        else plan ms))"

section \<open>Security Options\<close>

datatype security_options_field =
    EnableLua | LmCompatibilityLevel | NoLmHash | RestrictAnonymous | RestrictAnonymousSam | LimitBlankPasswordUse

fun security_index :: "security_options_field \<Rightarrow> nat" where
  "security_index EnableLua = 0"
| "security_index LmCompatibilityLevel = 1"
| "security_index NoLmHash = 2"
| "security_index RestrictAnonymous = 3"
| "security_index RestrictAnonymousSam = 4"
| "security_index LimitBlankPasswordUse = 5"

lemma security_index_inj: "security_index f = security_index g \<Longrightarrow> f = g"
  by (cases f; cases g) simp_all

instantiation security_options_field :: linorder
begin

definition less_eq_security_options_field :: "security_options_field \<Rightarrow> security_options_field \<Rightarrow> bool" where
  "f \<le> g \<longleftrightarrow> security_index f \<le> security_index g"

definition less_security_options_field :: "security_options_field \<Rightarrow> security_options_field \<Rightarrow> bool" where
  "f < g \<longleftrightarrow> security_index f < security_index g"

instance
  by standard (auto simp: less_eq_security_options_field_def less_security_options_field_def dest: security_index_inj)

end

fun security_field_text :: "security_options_field \<Rightarrow> string" where
  "security_field_text EnableLua = ''enable_lua''"
| "security_field_text LmCompatibilityLevel = ''lm_compatibility_level''"
| "security_field_text NoLmHash = ''no_lm_hash''"
| "security_field_text RestrictAnonymous = ''restrict_anonymous''"
| "security_field_text RestrictAnonymousSam = ''restrict_anonymous_sam''"
| "security_field_text LimitBlankPasswordUse = ''limit_blank_password_use''"

fun security_field_debug :: "security_options_field \<Rightarrow> string" where
  "security_field_debug EnableLua = ''EnableLua''"
| "security_field_debug LmCompatibilityLevel = ''LmCompatibilityLevel''"
| "security_field_debug NoLmHash = ''NoLmHash''"
| "security_field_debug RestrictAnonymous = ''RestrictAnonymous''"
| "security_field_debug RestrictAnonymousSam = ''RestrictAnonymousSam''"
| "security_field_debug LimitBlankPasswordUse = ''LimitBlankPasswordUse''"

datatype security_option_evidence = OptPresent "32 word" | OptMissing | OptAccessDenied | OptError

type_synonym security_values = "(security_options_field \<times> security_option_evidence) list"

record security_options_observation =
  security_values_of :: security_values

datatype enabled_switch = SwitchDisabled | SwitchEnabled

fun switch_dword :: "enabled_switch \<Rightarrow> 32 word" where
  "switch_dword SwitchDisabled = 0"
| "switch_dword SwitchEnabled = 1"

datatype lm_compatibility_level =
    SendLmAndNtlm | SendLmAndNtlmWithNtlmV2SessionSecurity | SendNtlmOnly | SendNtlmV2Only | SendNtlmV2RefuseLm
  | SendNtlmV2RefuseLmAndNtlm

fun lm_dword :: "lm_compatibility_level \<Rightarrow> 32 word" where
  "lm_dword SendLmAndNtlm = 0"
| "lm_dword SendLmAndNtlmWithNtlmV2SessionSecurity = 1"
| "lm_dword SendNtlmOnly = 2"
| "lm_dword SendNtlmV2Only = 3"
| "lm_dword SendNtlmV2RefuseLm = 4"
| "lm_dword SendNtlmV2RefuseLmAndNtlm = 5"

datatype anonymous_restriction = AnonymousNone | NoAnonymousSam | NoAnonymousSamOrShares

fun anonymous_dword :: "anonymous_restriction \<Rightarrow> 32 word" where
  "anonymous_dword AnonymousNone = 0"
| "anonymous_dword NoAnonymousSam = 1"
| "anonymous_dword NoAnonymousSamOrShares = 2"

record security_options_policy =
  enable_lua :: enabled_switch
  lm_level :: lm_compatibility_level
  no_lm_hash :: enabled_switch
  restrict_anonymous :: anonymous_restriction
  restrict_anonymous_sam :: enabled_switch
  limit_blank_password_use :: enabled_switch

definition security_options_policy_default :: security_options_policy where
  "security_options_policy_default = \<lparr>enable_lua = SwitchEnabled, lm_level = SendNtlmV2Only, no_lm_hash = SwitchEnabled,
     restrict_anonymous = NoAnonymousSam, restrict_anonymous_sam = SwitchEnabled,
     limit_blank_password_use = SwitchEnabled\<rparr>"

record security_options_drift =
  so_field :: security_options_field
  so_observed :: security_option_evidence
  so_desired :: "32 word"

record security_options_audit =
  so_observation :: security_options_observation
  so_desired_values :: "(security_options_field \<times> 32 word) list"
  so_findings :: "policy_finding list"
  so_reboot_or_logoff :: bool

record security_options_plan =
  so_audit :: security_options_audit
  so_proposed_changes :: "security_options_drift list"
  so_requires_administrator :: bool
  so_apply_available :: bool
  so_exclusions :: "string list"

definition security_desired_values :: "security_options_policy \<Rightarrow> (security_options_field \<times> 32 word) list" where
  "security_desired_values p =
     fold (\<lambda>(f, v). bt_insert f v)
       [(EnableLua, switch_dword (enable_lua p)), (LmCompatibilityLevel, lm_dword (lm_level p)),
        (NoLmHash, switch_dword (no_lm_hash p)), (RestrictAnonymous, anonymous_dword (restrict_anonymous p)),
        (RestrictAnonymousSam, switch_dword (restrict_anonymous_sam p)),
        (LimitBlankPasswordUse, switch_dword (limit_blank_password_use p))] []"

definition word_text :: "'a :: len word \<Rightarrow> string" where
  "word_text w = nat_text (unat w)"

definition field_outcome ::
    "security_options_field \<Rightarrow> 32 word \<Rightarrow> security_option_evidence \<Rightarrow>
     string \<times> finding_status \<times> severity \<times> string \<times> bool" where
  "field_outcome f wanted evidence =
     (case evidence of
        OptPresent actual \<Rightarrow>
          if actual = wanted
          then (''SECOPT-Compliant'', FPass, SevLow,
            security_field_debug f @ '' matches its fixed desired value '' @ word_text wanted @ ''.'', False)
          else (''SECOPT-Drift'', FFail, SevHigh,
            security_field_debug f @ '' is '' @ word_text actual @ '', expected '' @ word_text wanted @ ''.'', f = EnableLua)
      | OptMissing \<Rightarrow> (''SECOPT-Missing'', FWarning, SevMedium,
          security_field_debug f @ '' is not configured or its fixed key is absent.'', False)
      | OptAccessDenied \<Rightarrow> (''SECOPT-AccessDenied'', FError, SevHigh,
          ''Windows denied read access to '' @ security_field_debug f @ ''.'', False)
      | OptError \<Rightarrow> (''SECOPT-ObservationError'', FError, SevHigh,
          security_field_debug f @ '' could not be read as its required DWORD type.'', False))"

fun evidence_json :: "security_option_evidence \<Rightarrow> jvalue" where
  "evidence_json (OptPresent w) = obj [field ''status'' (JString ''present''), field ''value'' (jnat (unat w))]"
| "evidence_json OptMissing = obj [field ''status'' (JString ''missing'')]"
| "evidence_json OptAccessDenied = obj [field ''status'' (JString ''access_denied'')]"
| "evidence_json OptError = obj [field ''status'' (JString ''error'')]"

definition evaluate_field ::
    "security_options_field \<Rightarrow> 32 word \<Rightarrow> security_option_evidence \<Rightarrow> policy_finding \<times> bool" where
  "evaluate_field f wanted evidence =
     (let (code, status, sev, message, lua_changed) = field_outcome f wanted evidence in
      (\<lparr>pf_code = code, pf_status = status, pf_severity = sev, pf_message = message,
        pf_evidence = json_map_from [(''field'', JString (security_field_text f)), (''observed'', evidence_json evidence),
          (''desired'', jnat (unat wanted))]\<rparr>, lua_changed))"

definition security_evidence :: "security_options_observation \<Rightarrow> security_options_field \<Rightarrow> security_option_evidence" where
  "security_evidence obs f = (case map_of (security_values_of obs) f of Some e \<Rightarrow> e | None \<Rightarrow> OptMissing)"

definition evaluate_security_options ::
    "security_options_observation \<Rightarrow> security_options_policy \<Rightarrow> security_options_audit" where
  "evaluate_security_options obs p =
     (let desired = security_desired_values p;
          (findings, changed) = fold (\<lambda>(f, wanted) (findings, changed).
              let (finding, lua_changed) = evaluate_field f wanted (security_evidence obs f)
              in (findings @ [finding], changed \<or> lua_changed)) desired ([], False)
      in \<lparr>so_observation = obs, so_desired_values = desired, so_findings = findings, so_reboot_or_logoff = changed\<rparr>)"

definition build_security_options_plan ::
    "security_options_observation \<Rightarrow> security_options_policy \<Rightarrow> security_options_plan" where
  "build_security_options_plan obs p =
     (let audit = evaluate_security_options obs p in
      \<lparr>so_audit = audit,
       so_proposed_changes = map (\<lambda>(f, v). \<lparr>so_field = f, so_observed = security_evidence (so_observation audit) f, so_desired = v\<rparr>)
         (filter (\<lambda>(f, v). security_evidence (so_observation audit) f \<noteq> OptPresent v) (so_desired_values audit)),
       so_requires_administrator = True, so_apply_available = False,
       so_exclusions = [''legacy DesiredJson paths, value names, and registry types are not v3 authority'',
         ''raw registry writes and arbitrary remediation are unavailable'']\<rparr>)"

section \<open>What the proposals are worth\<close>

lemma fold_insert_ok: "map_entries_ok m \<Longrightarrow> map_entries_ok (fold (\<lambda>(f, v). bt_insert f v) es m)"
  by (induction es arbitrary: m) (auto simp: map_entries_ok_insert)

lemma insert_office_row_ok: "map_entries_ok m \<Longrightarrow> map_entries_ok (insert_office_row v office row m)"
  by (cases row) (simp add: insert_office_row_def Let_def map_entries_ok_insert)

lemma insert_office_rows_ok: "map_entries_ok m \<Longrightarrow> map_entries_ok (fold (insert_office_row v office) rows m)"
  by (induction rows arbitrary: m) (simp_all add: insert_office_row_ok)

interpretation office: map_policy office_expected_values
  by unfold_locales
    (simp add: office_expected_values_def insert_edge_values_def insert_edge_boolean_values_def insert_office_values_def
      Let_def map_entries_ok_insert fold_insert_ok insert_office_rows_ok del: fold.simps bt_insert.simps)

text \<open>What a mutation makes the next observation read.\<close>

definition apply_office_mutation :: "office_browser_mutation \<Rightarrow> office_browser_observation \<Rightarrow> office_browser_observation" where
  "apply_office_mutation m obs =
     obs\<lparr>office_values_of := bt_insert (ob_field m) (ob_desired_value m) (office_values_of obs)\<rparr>"

abbreviation office_mutation :: "office_browser_field \<times> policy_value_snapshot \<Rightarrow> office_browser_mutation" where
  "office_mutation \<equiv> \<lambda>(f, v). \<lparr>ob_field = f, ob_desired_value = v\<rparr>"

lemma office_mutations_eq:
  "ob_mutations (build_office_browser_plan obs d) = map office_mutation (office.differences d (office_values_of obs))"
  by (simp add: build_office_browser_plan_def office.differences_def)

lemma office_values_apply:
  "office_values_of (fold apply_office_mutation (map office_mutation es) obs) =
     fold (\<lambda>(f, v). bt_insert f v) es (office_values_of obs)"
  by (induction es arbitrary: obs) (auto simp: apply_office_mutation_def)

lemma office_resumable:
  "map_entries_ok (office_values_of obs) \<Longrightarrow>
     resumable (\<lambda>obs. Inr (build_office_browser_plan obs d) :: string + _) ob_mutations apply_office_mutation obs"
  using office.differences_resume [of "office_values_of obs" d]
  by (simp add: resumable_def office_mutations_eq take_map drop_map office_values_apply)

subsection \<open>PowerShell logging\<close>

fun hive_dword :: "power_shell_hive \<Rightarrow> policy_field \<Rightarrow> 32 word value_snapshot" where
  "hive_dword h EnableTranscription = hive_transcription h"
| "hive_dword h EnableInvocationHeader = hive_header h"
| "hive_dword h EnableScriptBlockLogging = hive_script_block h"
| "hive_dword h EnableScriptBlockInvocationLogging = hive_script_block_invocation h"
| "hive_dword h EnableModuleLogging = hive_module h"
| "hive_dword h TranscriptOutputDirectory = ValueMissing"

fun set_hive_dword :: "policy_field \<Rightarrow> 32 word \<Rightarrow> power_shell_hive \<Rightarrow> power_shell_hive" where
  "set_hive_dword EnableTranscription v h = h\<lparr>hive_transcription := Value v\<rparr>"
| "set_hive_dword EnableInvocationHeader v h = h\<lparr>hive_header := Value v\<rparr>"
| "set_hive_dword EnableScriptBlockLogging v h = h\<lparr>hive_script_block := Value v\<rparr>"
| "set_hive_dword EnableScriptBlockInvocationLogging v h = h\<lparr>hive_script_block_invocation := Value v\<rparr>"
| "set_hive_dword EnableModuleLogging v h = h\<lparr>hive_module := Value v\<rparr>"
| "set_hive_dword TranscriptOutputDirectory v h = h"

fun apply_hive_mutation :: "power_shell_mutation \<Rightarrow> power_shell_hive \<Rightarrow> power_shell_hive" where
  "apply_hive_mutation (SetDword f v) h = set_hive_dword f v h"
| "apply_hive_mutation (SetString f v) h = h\<lparr>hive_directory := Value v\<rparr>"
| "apply_hive_mutation (ReplaceModuleNames ns) h = h\<lparr>hive_module_names := (hive_module_names h)\<lparr>module_values := ns\<rparr>\<rparr>"

definition apply_power_shell_mutation :: "power_shell_mutation \<Rightarrow> power_shell_observation \<Rightarrow> power_shell_observation" where
  "apply_power_shell_mutation m obs = obs\<lparr>hklm := apply_hive_mutation m (hklm obs)\<rparr>"

fun hive_differs :: "power_shell_hive \<Rightarrow> power_shell_mutation \<Rightarrow> bool" where
  "hive_differs h (SetDword f v) \<longleftrightarrow> hive_dword h f \<noteq> Value v"
| "hive_differs h (SetString f v) \<longleftrightarrow> hive_directory h \<noteq> Value v"
| "hive_differs h (ReplaceModuleNames ns) \<longleftrightarrow> module_values (hive_module_names h) \<noteq> ns"

definition power_shell_targets :: "power_shell_desired \<Rightarrow> power_shell_mutation list" where
  "power_shell_targets d =
     [SetDword EnableTranscription (of_bool (want_transcription d)), SetDword EnableInvocationHeader (of_bool (want_header d)),
      SetDword EnableScriptBlockLogging (of_bool (want_script_block d)),
      SetDword EnableScriptBlockInvocationLogging (of_bool (want_script_block_invocation d)),
      SetDword EnableModuleLogging (of_bool (want_module d)), SetString TranscriptOutputDirectory (want_directory d)] @
     (case numbered (want_module_names d) of Inr ns \<Rightarrow> [ReplaceModuleNames ns] | Inl _ \<Rightarrow> [])"

definition power_shell_ready :: "power_shell_desired \<Rightarrow> power_shell_observation \<Rightarrow> bool" where
  "power_shell_ready d obs \<longleftrightarrow>
     (\<exists>ns. numbered (want_module_names d) = Inr ns \<and>
        (module_values (hive_module_names (hklm obs)) = ns \<or>
         want_replace_module_names d \<and> module_complete (hive_module_names (hklm obs))))"

interpretation power_shell: field_policy power_shell_targets "\<lambda>d obs. hive_differs (hklm obs)"
    "\<lambda>_. apply_power_shell_mutation" power_shell_ready
proof
  show "distinct (power_shell_targets d)" for d by (simp add: power_shell_targets_def split: sum.split)
  show "power_shell_ready d (apply_power_shell_mutation m obs)"
    if "power_shell_ready d obs" "m \<in> set (power_shell_targets d)" for d obs m
    using that by (auto simp: power_shell_ready_def power_shell_targets_def apply_power_shell_mutation_def)
  show "hive_differs (hklm (apply_power_shell_mutation f obs)) g \<longleftrightarrow> g \<noteq> f \<and> hive_differs (hklm obs) g"
    if "power_shell_ready d obs" "f \<in> set (power_shell_targets d)" "g \<in> set (power_shell_targets d)" for d obs f g
    using that by (auto simp: power_shell_ready_def power_shell_targets_def apply_power_shell_mutation_def)
qed

lemma add_dword_drift_eq:
  "add_dword_drift f (hive_dword h f) v ms = ms @ filter (hive_differs h) [SetDword f (of_bool v)]"
  by (simp add: add_dword_drift_def Let_def)

lemma add_string_drift_eq:
  "add_string_drift f (hive_directory h) v ms = ms @ filter (hive_differs h) [SetString f v]"
  by (simp add: add_string_drift_def)

lemmas add_dword_drift_eqs = add_dword_drift_eq [where f = EnableTranscription, simplified hive_dword.simps]
  add_dword_drift_eq [where f = EnableInvocationHeader, simplified hive_dword.simps]
  add_dword_drift_eq [where f = EnableScriptBlockLogging, simplified hive_dword.simps]
  add_dword_drift_eq [where f = EnableScriptBlockInvocationLogging, simplified hive_dword.simps]
  add_dword_drift_eq [where f = EnableModuleLogging, simplified hive_dword.simps]

lemma filter_cons_append: "filter P (x # xs) = filter P [x] @ filter P xs"
  by simp

lemma power_shell_drifts:
  "add_string_drift TranscriptOutputDirectory (hive_directory h) (want_directory d) (add_dword_mutations h d []) =
     filter (hive_differs h)
       [SetDword EnableTranscription (of_bool (want_transcription d)), SetDword EnableInvocationHeader (of_bool (want_header d)),
        SetDword EnableScriptBlockLogging (of_bool (want_script_block d)),
        SetDword EnableScriptBlockInvocationLogging (of_bool (want_script_block_invocation d)),
        SetDword EnableModuleLogging (of_bool (want_module d)), SetString TranscriptOutputDirectory (want_directory d)]"
  by (simp only: add_dword_mutations_def add_dword_drift_eqs add_string_drift_eq fold.simps case_prod_conv o_apply id_apply
      append_Nil append_assoc filter_cons_append [where xs = "_ # _"])

lemma build_power_shell_plan_eq:
  "build_power_shell_plan obs d = Inr plan \<longleftrightarrow>
     power_shell_ready d obs \<and> plan = \<lparr>ps_observation = obs, ps_desired = d, ps_mutations = power_shell.drift d obs,
       ps_rollback = hklm obs, ps_requires_administrator = True, ps_reboot_required = False, ps_new_sessions = True\<rparr>"
proof (cases "numbered (want_module_names d)")
  case (Inr ns)
  show ?thesis
    unfolding build_power_shell_plan_def power_shell_ready_def power_shell.drift_def power_shell_targets_def Let_def
      power_shell_drifts filter_append
    by (auto simp: Inr simp del: filter.simps(2) intro: sym)
qed (simp add: build_power_shell_plan_def power_shell_ready_def Let_def)

lemma power_shell_resumable:
  "resumable (\<lambda>obs. build_power_shell_plan obs d) ps_mutations apply_power_shell_mutation obs"
  by (rule power_shell.resumable_fieldsI) (auto simp: build_power_shell_plan_eq)

definition bare_hive :: power_shell_hive where
  "bare_hive = \<lparr>hive_transcription = Value 1, hive_directory = ValueMissing, hive_header = ValueMissing,
     hive_script_block = Value 1, hive_script_block_invocation = Value 0, hive_module = Value 0,
     hive_module_names = \<lparr>module_values = [(1, ''Old'')], module_complete = True\<rparr>\<rparr>"

definition plain_logging :: power_shell_desired where
  "plain_logging = \<lparr>want_transcription = True, want_directory = ''C:'', want_header = True, want_script_block = True,
     want_script_block_invocation = False, want_module = True, want_module_names = [''*''], want_replace_module_names = True\<rparr>"

lemma bare_plan:
  "\<exists>plan. build_power_shell_plan \<lparr>hklm = bare_hive, hkcu = None\<rparr> plain_logging = Inr plan \<and>
     ps_mutations plan = [SetDword EnableInvocationHeader 1, SetDword EnableModuleLogging 1,
       SetString TranscriptOutputDirectory ''C:'', ReplaceModuleNames [(1, ''*'')]]"
  by (simp add: build_power_shell_plan_def bare_hive_def plain_logging_def numbered_def max_module_names_def
      validate_module_name_def ps_max_policy_string_bytes_def add_string_drift_def add_dword_mutations_def add_dword_drift_def)

subsection \<open>Security Options\<close>

definition security_expected :: "security_options_policy \<Rightarrow> security_values" where
  "security_expected p = map (\<lambda>(f, v). (f, OptPresent v)) (security_desired_values p)"

lemma map_entries_ok_map: "map_entries_ok (map (\<lambda>(f, v). (f, g v)) m) = map_entries_ok m"
  by (simp add: map_entries_ok_def case_prod_beta o_def)

interpretation security: map_policy security_expected
  by unfold_locales
    (simp add: security_expected_def map_entries_ok_map security_desired_values_def fold_insert_ok
      del: fold.simps bt_insert.simps)

definition apply_security_change ::
    "security_options_field \<times> security_option_evidence \<Rightarrow> security_options_observation \<Rightarrow> security_options_observation" where
  "apply_security_change c obs = obs\<lparr>security_values_of := (case c of (f, v) \<Rightarrow> bt_insert f v (security_values_of obs))\<rparr>"

definition security_plan_values :: "security_options_plan \<Rightarrow> (security_options_field \<times> security_option_evidence) list" where
  "security_plan_values plan = map (\<lambda>c. (so_field c, OptPresent (so_desired c))) (so_proposed_changes plan)"

lemma evaluate_security_options_simps [simp]:
  "so_observation (evaluate_security_options obs p) = obs"
  "so_desired_values (evaluate_security_options obs p) = security_desired_values p"
  by (simp_all add: evaluate_security_options_def Let_def split: prod.split)

lemma security_changes_eq:
  "security_plan_values (build_security_options_plan obs p) = security.differences p (security_values_of obs)"
proof -
  have "security_evidence obs f \<noteq> OptPresent v \<longleftrightarrow> map_of (security_values_of obs) f \<noteq> Some (OptPresent v)" for f v
    by (simp add: security_evidence_def split: option.split)
  then show ?thesis
    by (simp add: security_plan_values_def build_security_options_plan_def security.differences_def security_expected_def filter_map o_def
        split_def Let_def)
qed

lemma security_values_apply:
  "security_values_of (fold apply_security_change cs obs) = fold (\<lambda>(f, v). bt_insert f v) cs (security_values_of obs)"
  by (induction cs arbitrary: obs) (auto simp: apply_security_change_def)

lemma security_resumable:
  "map_entries_ok (security_values_of obs) \<Longrightarrow>
     resumable (\<lambda>obs. Inr (build_security_options_plan obs p) :: string + _) security_plan_values apply_security_change obs"
  using security.differences_resume [of "security_values_of obs" p]
  by (simp add: resumable_def security_changes_eq security_values_apply)

text \<open>
  A proposal that sets a missing \<open>EnableLUA\<close> does not say that a restart or a new logon is needed: the flag is raised
  for a differing value only.
\<close>

lemma missing_lua_unflagged:
  assumes "plan = build_security_options_plan \<lparr>security_values_of = []\<rparr> security_options_policy_default"
  shows "EnableLua \<in> so_field ` set (so_proposed_changes plan) \<and> \<not> so_reboot_or_logoff (so_audit plan)"
  by (simp add: assms build_security_options_plan_def evaluate_security_options_def security_desired_values_def
      security_options_policy_default_def security_evidence_def evaluate_field_def field_outcome_def Let_def
      less_security_options_field_def)

end
