(* ===== verification/Network_Policies.thy ===== *)
theory Network_Policies
  imports Registry_Policies
begin

text \<open>
  The policies of the network surface: firewall logging (\<open>firewall_logging_policy.rs\<close>), the firewall profiles
  (\<open>firewall_baseline_policy.rs\<close>), SMB encryption (\<open>smb_encryption_policy.rs\<close>) and the guardrails of remote access
  (\<open>remote_guardrails_policy.rs\<close>).
\<close>

section \<open>Firewall logging\<close>

definition max_log_file_path_bytes :: usize where "max_log_file_path_bytes = 1024"
definition min_log_size_kilobytes :: "16 word" where "min_log_size_kilobytes = 1"
definition max_log_size_kilobytes :: "16 word" where "max_log_size_kilobytes = 32767"

datatype firewall_profile = FwDomain | FwPrivate | FwPublic

fun firewall_profile_index :: "firewall_profile \<Rightarrow> nat" where
  "firewall_profile_index FwDomain = 0"
| "firewall_profile_index FwPrivate = 1"
| "firewall_profile_index FwPublic = 2"

lemma firewall_profile_index_inj: "firewall_profile_index f = firewall_profile_index g \<Longrightarrow> f = g"
  by (cases f; cases g) simp_all

instantiation firewall_profile :: linorder
begin

definition less_eq_firewall_profile :: "firewall_profile \<Rightarrow> firewall_profile \<Rightarrow> bool" where
  "f \<le> g \<longleftrightarrow> firewall_profile_index f \<le> firewall_profile_index g"

definition less_firewall_profile :: "firewall_profile \<Rightarrow> firewall_profile \<Rightarrow> bool" where
  "f < g \<longleftrightarrow> firewall_profile_index f < firewall_profile_index g"

instance
  by standard (auto simp: less_eq_firewall_profile_def less_firewall_profile_def dest: firewall_profile_index_inj)

end

datatype 'a firewall_evidence = FwPresent 'a | FwMissing | FwAccessDenied | FwUnavailable | FwUnparsed

fun fw_present :: "'a firewall_evidence \<Rightarrow> bool" where
  "fw_present (FwPresent _) = True"
| "fw_present _ = False"

record firewall_profile_observation =
  log_dropped :: "bool firewall_evidence"
  log_successful :: "bool firewall_evidence"
  log_path :: "string firewall_evidence"
  log_size :: "16 word firewall_evidence"

definition profile_logging_is_complete :: "firewall_profile_observation \<Rightarrow> bool" where
  "profile_logging_is_complete q \<longleftrightarrow>
     fw_present (log_dropped q) \<and> fw_present (log_successful q) \<and> fw_present (log_path q) \<and> fw_present (log_size q)"

datatype firewall_modify_state = LocalPolicyWritable | GroupPolicyOverride | InboundBlocked | ModifyUnknown

record firewall_observation =
  fw_profiles :: "(firewall_profile \<times> firewall_profile_observation) list"
  fw_modify_state :: firewall_modify_state

definition fixed_profiles :: "firewall_profile list" where
  "fixed_profiles = [FwDomain, FwPrivate, FwPublic]"

definition logging_is_complete :: "firewall_observation \<Rightarrow> bool" where
  "logging_is_complete obs \<longleftrightarrow>
     fw_modify_state obs = LocalPolicyWritable \<and>
     list_all (\<lambda>pr. case map_of (fw_profiles obs) pr of Some q \<Rightarrow> profile_logging_is_complete q | None \<Rightarrow> False)
       fixed_profiles"

record firewall_logging_config =
  conf_dropped :: "bool option"
  conf_successful :: "bool option"
  conf_path :: "string option"
  conf_size :: "16 word option"

text \<open>The parameters have the fields of the configuration and the configuration itself.\<close>

record firewall_logging_parameters = firewall_logging_config +
  conf_config :: "firewall_logging_config option"

record firewall_logging_desired =
  want_dropped :: bool
  want_successful :: bool
  want_path :: string
  want_size :: "16 word"

datatype firewall_logging_field = LogDroppedPackets | LogSuccessfulConnections | LogFilePath | LogMaxSizeKilobytes

record firewall_logging_drift =
  fl_profile :: firewall_profile
  fl_fields :: "firewall_logging_field list"

record firewall_logging_plan =
  fl_observation :: firewall_observation
  fl_desired :: firewall_logging_desired
  fl_drift :: "firewall_logging_drift list"
  fl_requires_administrator :: bool
  fl_apply_supported :: bool
  fl_exclusions :: "string list"

definition default_firewall_log :: string where
  "default_firewall_log = ''%systemroot%'' @ backslash @ ''system32'' @ backslash @ ''LogFiles'' @ backslash @
     ''Firewall'' @ backslash @ ''pfirewall.log''"

definition resolve_firewall_logging_desired_state :: "firewall_logging_parameters \<Rightarrow> string + firewall_logging_desired" where
  "resolve_firewall_logging_desired_state p =
     (let config = conf_config p;
          path = first_of (conf_path p) (Option.bind config conf_path) default_firewall_log in
      if blank path \<or> length path > max_log_file_path_bytes \<or> CHR 0x00 \<in> set path
      then Inl ''log_file_path must be a bounded non-empty Windows path''
      else
        let kilobytes = first_of (conf_size p) (Option.bind config conf_size) 20480 in
        if \<not> (min_log_size_kilobytes \<le> kilobytes \<and> kilobytes \<le> max_log_size_kilobytes)
        then Inl (''log_max_size_kilobytes must be between '' @ word_text min_log_size_kilobytes @ '' and '' @
          word_text max_log_size_kilobytes)
        else Inr \<lparr>want_dropped = first_of (conf_dropped p) (Option.bind config conf_dropped) True,
          want_successful = first_of (conf_successful p) (Option.bind config conf_successful) False,
          want_path = path, want_size = kilobytes\<rparr>)"

definition add_logging_drift ::
    "firewall_logging_field \<Rightarrow> 'a firewall_evidence \<Rightarrow> 'a \<Rightarrow> firewall_logging_field list \<Rightarrow> firewall_logging_field list" where
  "add_logging_drift f observed desired fs = (if observed \<noteq> FwPresent desired then fs @ [f] else fs)"

definition logging_drift_fields ::
    "firewall_profile_observation \<Rightarrow> firewall_logging_desired \<Rightarrow> firewall_logging_field list" where
  "logging_drift_fields q d =
     (let fs = add_logging_drift LogDroppedPackets (log_dropped q) (want_dropped d) [];
          fs = add_logging_drift LogSuccessfulConnections (log_successful q) (want_successful d) fs;
          fs = add_logging_drift LogFilePath (log_path q) (want_path d) fs
      in add_logging_drift LogMaxSizeKilobytes (log_size q) (want_size d) fs)"

definition build_firewall_logging_plan ::
    "firewall_observation \<Rightarrow> firewall_logging_desired \<Rightarrow> string + firewall_logging_plan" where
  "build_firewall_logging_plan obs d =
     (if \<not> logging_is_complete obs then Inl ''firewall logging evidence is incomplete or locally overridden''
      else
        let drift = List.map_filter (\<lambda>pr.
            Option.bind (map_of (fw_profiles obs) pr) (\<lambda>q.
              let fs = logging_drift_fields q d in if fs \<noteq> [] then Some \<lparr>fl_profile = pr, fl_fields = fs\<rparr> else None))
            fixed_profiles
        in Inr \<lparr>fl_observation = obs, fl_desired = d, fl_drift = drift, fl_requires_administrator = True,
          fl_apply_supported = False,
          fl_exclusions = [''firewall rule enumeration and mutation'', ''all mutation and worker actions'',
            ''Windows VM validation'', ''legacy-script semantic oracle'']\<rparr>)"

section \<open>Firewall profiles\<close>

datatype firewall_default_action = FwBlock | FwAllow

record firewall_baseline_profile =
  bp_enabled :: bool
  bp_inbound :: firewall_default_action
  bp_outbound :: firewall_default_action
  bp_notify :: bool

definition firewall_baseline_profile_default :: firewall_baseline_profile where
  "firewall_baseline_profile_default = \<lparr>bp_enabled = True, bp_inbound = FwBlock, bp_outbound = FwAllow, bp_notify = False\<rparr>"

record firewall_baseline_profiles =
  bp_domain :: firewall_baseline_profile
  bp_private :: firewall_baseline_profile
  bp_public :: firewall_baseline_profile

record firewall_baseline_parameters =
  fb_profiles :: firewall_baseline_profiles

record firewall_baseline_profile_observation =
  bo_enabled :: "bool firewall_evidence"
  bo_inbound :: "firewall_default_action firewall_evidence"
  bo_outbound :: "firewall_default_action firewall_evidence"
  bo_notify :: "bool firewall_evidence"

definition baseline_is_complete :: "firewall_baseline_profile_observation \<Rightarrow> bool" where
  "baseline_is_complete q \<longleftrightarrow>
     fw_present (bo_enabled q) \<and> fw_present (bo_inbound q) \<and> fw_present (bo_outbound q) \<and> fw_present (bo_notify q)"

record firewall_baseline_observations =
  bo_domain :: firewall_baseline_profile_observation
  bo_private :: firewall_baseline_profile_observation
  bo_public :: firewall_baseline_profile_observation

fun observations_get :: "firewall_baseline_observations \<Rightarrow> firewall_profile \<Rightarrow> firewall_baseline_profile_observation" where
  "observations_get os FwDomain = bo_domain os"
| "observations_get os FwPrivate = bo_private os"
| "observations_get os FwPublic = bo_public os"

record firewall_baseline_observation =
  bo_profiles :: firewall_baseline_observations
  bo_modify_state :: firewall_modify_state

definition is_complete_and_locally_writable :: "firewall_baseline_observation \<Rightarrow> bool" where
  "is_complete_and_locally_writable obs \<longleftrightarrow>
     bo_modify_state obs = LocalPolicyWritable \<and>
     list_all (\<lambda>pr. baseline_is_complete (observations_get (bo_profiles obs) pr)) fixed_profiles"

datatype firewall_baseline_field = FwEnabled | DefaultInboundAction | DefaultOutboundAction | NotifyOnListen

record firewall_baseline_drift =
  fb_profile :: firewall_profile
  fb_fields :: "firewall_baseline_field list"

record firewall_baseline_audit =
  fb_observation :: firewall_baseline_observation
  fb_desired :: firewall_baseline_profiles
  fb_drift :: "firewall_baseline_drift list"
  fb_plan_blockers :: "string list"

record firewall_baseline_plan =
  fb_audit :: firewall_baseline_audit
  fb_proposed_changes :: "firewall_baseline_drift list"
  fb_requires_administrator :: bool
  fb_apply_available :: bool
  fb_exclusions :: "string list"

fun desired_for :: "firewall_baseline_profiles \<Rightarrow> firewall_profile \<Rightarrow> firewall_baseline_profile" where
  "desired_for ps FwDomain = bp_domain ps"
| "desired_for ps FwPrivate = bp_private ps"
| "desired_for ps FwPublic = bp_public ps"

definition add_drift ::
    "firewall_baseline_field \<Rightarrow> 'a firewall_evidence \<Rightarrow> 'a \<Rightarrow> firewall_baseline_field list \<Rightarrow> firewall_baseline_field list" where
  "add_drift f observed desired fs = (if observed \<noteq> FwPresent desired then fs @ [f] else fs)"

definition drift_fields ::
    "firewall_baseline_profile_observation \<Rightarrow> firewall_baseline_profile \<Rightarrow> firewall_baseline_field list" where
  "drift_fields q d =
     (let fs = add_drift FwEnabled (bo_enabled q) (bp_enabled d) [];
          fs = add_drift DefaultInboundAction (bo_inbound q) (bp_inbound d) fs;
          fs = add_drift DefaultOutboundAction (bo_outbound q) (bp_outbound d) fs
      in add_drift NotifyOnListen (bo_notify q) (bp_notify d) fs)"

definition evaluate_firewall_baseline ::
    "firewall_baseline_observation \<Rightarrow> firewall_baseline_parameters \<Rightarrow> firewall_baseline_audit" where
  "evaluate_firewall_baseline obs p =
     (let desired = fb_profiles p;
          drift = List.map_filter (\<lambda>pr.
              let fs = drift_fields (observations_get (bo_profiles obs) pr) (desired_for desired pr)
              in if fs \<noteq> [] then Some \<lparr>fb_profile = pr, fb_fields = fs\<rparr> else None) fixed_profiles;
          blockers = (if bo_modify_state obs \<noteq> LocalPolicyWritable
            then [''Windows Firewall local policy is not writable or is policy-overridden''] else []);
          blockers = (if list_ex (\<lambda>pr. \<not> baseline_is_complete (observations_get (bo_profiles obs) pr)) fixed_profiles
            then blockers @ [''Windows Firewall profile evidence is incomplete''] else blockers)
      in \<lparr>fb_observation = obs, fb_desired = desired, fb_drift = drift, fb_plan_blockers = blockers\<rparr>)"

text \<open>\<open>join\<close> with a separator.\<close>

fun join_with :: "string \<Rightarrow> string list \<Rightarrow> string" where
  "join_with sep [] = []"
| "join_with sep [x] = x"
| "join_with sep (x # y # ys) = x @ sep @ join_with sep (y # ys)"

definition build_firewall_baseline_plan ::
    "firewall_baseline_observation \<Rightarrow> firewall_baseline_parameters \<Rightarrow> string + firewall_baseline_plan" where
  "build_firewall_baseline_plan obs p =
     (let audit = evaluate_firewall_baseline obs p in
      if fb_plan_blockers audit \<noteq> []
      then Inl (''firewall baseline plan is unavailable: '' @ join_with ''; '' (fb_plan_blockers audit))
      else Inr \<lparr>fb_audit = audit, fb_proposed_changes = fb_drift audit, fb_requires_administrator = True,
        fb_apply_available = False,
        fb_exclusions = [''firewall logging is delegated to v3.firewall.logging'',
          ''firewall rule enumeration, creation, modification, and disablement'',
          ''dynamic or non-default Windows Firewall policy-store selection'',
          ''all mutation, rollback, and Windows Firewall service changes'',
          ''legacy-script semantic-oracle and Windows VM parity validation'']\<rparr>)"

section \<open>SMB encryption\<close>

datatype smb_encryption_field = ServerEncryptData | ServerRejectUnencryptedAccess | ClientRequireEncryption

fun smb_field_text :: "smb_encryption_field \<Rightarrow> string" where
  "smb_field_text ServerEncryptData = ''server_encrypt_data''"
| "smb_field_text ServerRejectUnencryptedAccess = ''server_reject_unencrypted_access''"
| "smb_field_text ClientRequireEncryption = ''client_require_encryption''"

record smb_encryption_policy =
  smb_server_encrypt :: bool
  smb_server_reject :: bool
  smb_client_require :: bool

definition smb_encryption_policy_default :: smb_encryption_policy where
  "smb_encryption_policy_default = \<lparr>smb_server_encrypt = True, smb_server_reject = True, smb_client_require = True\<rparr>"

record smb_encryption_observation =
  seen_server_encrypt :: "bool observation"
  seen_server_reject :: "bool observation"
  seen_client_require :: "bool observation"

record smb_encryption_drift =
  smb_field :: smb_encryption_field
  smb_observed :: bool
  smb_wanted :: bool

record smb_encryption_audit =
  smb_observation :: smb_encryption_observation
  smb_policy :: smb_encryption_policy
  smb_findings :: "policy_finding list"
  smb_plan_blockers :: "string list"
  smb_exclusions :: "string list"

record smb_encryption_plan =
  smb_audit :: smb_encryption_audit
  smb_proposed_changes :: "smb_encryption_drift list"
  smb_requires_administrator :: bool
  smb_apply_available :: bool

definition smb_read_only_exclusion :: policy_finding where
  "smb_read_only_exclusion = \<lparr>pf_code = ''SMB-ReadOnlyFoundation'', pf_status = FWarning, pf_severity = SevLow,
     pf_message = ''This is a fixed local read-only SMB configuration assessment; it does not prove SMB negotiation, per-share state, remote reachability, or legacy-script parity.'',
     pf_evidence = read_only_evidence\<rparr>"

definition smb_exclusion_texts :: "string list" where
  "smb_exclusion_texts = [
     ''Per-share EncryptData state and share enumeration are excluded.'',
     ''Remote hosts, SMB sessions, negotiation, and encrypted-transfer effectiveness are not observed.'',
     ''The legacy PowerShell script and its remediation behavior are not claimed as equivalent.'',
     ''Windows 11 client and server VM validation is not included.'',
     ''Apply and every state mutation are intentionally unavailable.'']"

definition bool_text :: "bool \<Rightarrow> string" where
  "bool_text b = (if b then ''true'' else ''false'')"

definition smb_evaluate ::
    "smb_encryption_field \<Rightarrow> string \<Rightarrow> bool observation \<Rightarrow> bool \<Rightarrow> policy_finding list \<times> string list \<Rightarrow>
     policy_finding list \<times> string list" where
  "smb_evaluate f label observed desired s =
     (let (findings, blockers) = s in
      case observed of
        Present actual \<Rightarrow>
          if actual = desired then (findings, blockers)
          else (findings @ [\<lparr>pf_code = ''SMB-EncryptionDrift'', pf_status = FWarning, pf_severity = SevHigh,
            pf_message = label @ '' is '' @ bool_text actual @ '', expected '' @ bool_text desired @ ''.'',
            pf_evidence = json_map_from [(''field'', JString (smb_field_text f)), (''observed'', JBool actual),
              (''desired'', JBool desired)]\<rparr>], blockers)
      | incomplete \<Rightarrow>
          (findings @ [\<lparr>pf_code = ''SMB-EncryptionEvidenceIncomplete'', pf_status = FError, pf_severity = SevHigh,
             pf_message = label @ '' evidence is incomplete: '' @ observation_state incomplete @ ''.'',
             pf_evidence = json_map_from [(''field'', JString (smb_field_text f)), (''observed'', captured_json JBool incomplete),
               (''read_only'', JBool True)]\<rparr>],
           blockers @ [''fixed SMB encryption evidence is incomplete'']))"

definition evaluate_smb_encryption :: "smb_encryption_observation \<Rightarrow> smb_encryption_policy \<Rightarrow> smb_encryption_audit" where
  "evaluate_smb_encryption obs p =
     (let s = smb_evaluate ServerEncryptData ''server-wide SMB encryption'' (seen_server_encrypt obs) (smb_server_encrypt p) ([], []);
          s = smb_evaluate ServerRejectUnencryptedAccess ''SMB server rejection of unencrypted clients''
                (seen_server_reject obs) (smb_server_reject p) s;
          (findings, blockers) = smb_evaluate ClientRequireEncryption ''outbound SMB client encryption''
                (seen_client_require obs) (smb_client_require p) s
      in \<lparr>smb_observation = obs, smb_policy = p, smb_findings = findings @ [smb_read_only_exclusion],
          smb_plan_blockers = blockers, smb_exclusions = smb_exclusion_texts\<rparr>)"

definition build_smb_encryption_plan :: "smb_encryption_observation \<Rightarrow> smb_encryption_policy \<Rightarrow> string + smb_encryption_plan" where
  "build_smb_encryption_plan obs p =
     (let audit = evaluate_smb_encryption obs p in
      if smb_plan_blockers audit \<noteq> []
      then Inl ''SMB encryption plan is unavailable because fixed evidence is incomplete''
      else
        let changes = List.map_filter (\<lambda>(f, observed, desired).
            case observed of
              Present actual \<Rightarrow> if actual \<noteq> desired
                then Some \<lparr>smb_field = f, smb_observed = actual, smb_wanted = desired\<rparr> else None
            | _ \<Rightarrow> None)
            [(ServerEncryptData, seen_server_encrypt (smb_observation audit), smb_server_encrypt p),
             (ServerRejectUnencryptedAccess, seen_server_reject (smb_observation audit), smb_server_reject p),
             (ClientRequireEncryption, seen_client_require (smb_observation audit), smb_client_require p)]
        in Inr \<lparr>smb_audit = audit, smb_proposed_changes = changes, smb_requires_administrator = True,
          smb_apply_available = False\<rparr>)"

section \<open>Remote access guardrails\<close>

record tcp_listener_observation =
  tcp_port :: "16 word"
  tcp_endpoint_count :: "16 word"

record remote_surface_observation =
  winrm_service :: "service_observation observation"
  winrm_listener_configured :: "bool observation"
  sshd_service :: "service_observation observation"
  rdp_enabled :: "bool observation"
  rdp_service :: "service_observation observation"
  smb_server_service :: "service_observation observation"
  tcp_listeners :: "tcp_listener_observation list observation"

datatype rdp_access = RdpDisabled | RdpEnabled
datatype guardrail_switch = GuardDisabled | GuardEnabled
datatype rdp_security_layer = LayerRdp | LayerNegotiate | LayerTls
datatype rdp_minimum_encryption = ClientCompatible | EncryptionHigh | EncryptionFips
datatype ticket_lifetime = OneHour | TwoHours

definition rdp_access_enabled :: "rdp_access \<Rightarrow> bool" where
  "rdp_access_enabled a \<longleftrightarrow> a = RdpEnabled"

fun guard_dword :: "guardrail_switch \<Rightarrow> 32 word" where
  "guard_dword GuardDisabled = 0"
| "guard_dword GuardEnabled = 1"

fun layer_dword :: "rdp_security_layer \<Rightarrow> 32 word" where
  "layer_dword LayerRdp = 0"
| "layer_dword LayerNegotiate = 1"
| "layer_dword LayerTls = 2"

fun encryption_dword :: "rdp_minimum_encryption \<Rightarrow> 32 word" where
  "encryption_dword ClientCompatible = 2"
| "encryption_dword EncryptionHigh = 3"
| "encryption_dword EncryptionFips = 4"

fun ticket_minutes :: "ticket_lifetime \<Rightarrow> 32 word" where
  "ticket_minutes OneHour = 60"
| "ticket_minutes TwoHours = 120"

record remote_guardrails_policy =
  rg_rdp_access :: rdp_access
  rg_nla :: guardrail_switch
  rg_security_layer :: rdp_security_layer
  rg_minimum_encryption :: rdp_minimum_encryption
  rg_restricted_admin :: guardrail_switch
  rg_disable_password_saving :: guardrail_switch
  rg_solicited :: guardrail_switch
  rg_unsolicited :: guardrail_switch
  rg_ticket_lifetime :: ticket_lifetime

definition remote_guardrails_policy_default :: remote_guardrails_policy where
  "remote_guardrails_policy_default = \<lparr>rg_rdp_access = RdpDisabled, rg_nla = GuardEnabled, rg_security_layer = LayerTls,
     rg_minimum_encryption = EncryptionHigh, rg_restricted_admin = GuardEnabled, rg_disable_password_saving = GuardEnabled,
     rg_solicited = GuardDisabled, rg_unsolicited = GuardDisabled, rg_ticket_lifetime = OneHour\<rparr>"

datatype remote_guardrail_field =
    FieldRdpAccess | NetworkLevelAuthentication | SecurityLayer | MinimumEncryption | RestrictedAdmin
  | DisablePasswordSaving | SolicitedRemoteAssistance | UnsolicitedRemoteAssistance | RemoteAssistanceTicketLifetime

record remote_guardrails_observation =
  rg_remote_surface :: remote_surface_observation
  seen_nla :: "32 word observation"
  seen_security_layer :: "32 word observation"
  seen_minimum_encryption :: "32 word observation"
  seen_disable_restricted_admin :: "32 word observation"
  seen_disable_password_saving :: "32 word observation"
  seen_solicited :: "32 word observation"
  seen_unsolicited :: "32 word observation"
  seen_ticket_lifetime :: "32 word observation"

definition dword_registry_evidence_is_complete :: "remote_guardrails_observation \<Rightarrow> bool" where
  "dword_registry_evidence_is_complete obs \<longleftrightarrow>
     list_all is_present [seen_nla obs, seen_security_layer obs, seen_minimum_encryption obs,
       seen_disable_restricted_admin obs, seen_disable_password_saving obs, seen_solicited obs, seen_unsolicited obs,
       seen_ticket_lifetime obs]"

definition registry_plan_evidence_is_complete :: "remote_guardrails_observation \<Rightarrow> bool" where
  "registry_plan_evidence_is_complete obs \<longleftrightarrow>
     is_present (rdp_enabled (rg_remote_surface obs)) \<and> dword_registry_evidence_is_complete obs"

record remote_guardrail_drift =
  rg_field :: remote_guardrail_field
  rg_desired :: "32 word"

record remote_guardrails_audit =
  rg_observation :: remote_guardrails_observation
  rg_policy :: remote_guardrails_policy
  rg_findings :: "policy_finding list"
  rg_drift :: "remote_guardrail_drift list"
  rg_plan_blockers :: "string list"

record remote_guardrails_plan =
  rg_audit :: remote_guardrails_audit
  rg_proposed_changes :: "remote_guardrail_drift list"
  rg_requires_administrator :: bool
  rg_apply_available :: bool
  rg_exclusions :: "string list"

definition rg_finding :: "string \<Rightarrow> finding_status \<Rightarrow> severity \<Rightarrow> string \<Rightarrow> policy_finding" where
  "rg_finding code status sev message =
     \<lparr>pf_code = code, pf_status = status, pf_severity = sev, pf_message = message, pf_evidence = read_only_evidence\<rparr>"

definition rg_drift_finding :: "string \<Rightarrow> jvalue \<Rightarrow> 32 word \<Rightarrow> policy_finding" where
  "rg_drift_finding label observed desired =
     \<lparr>pf_code = ''REMOTE-GUARDRAILS-Drift'', pf_status = FFail, pf_severity = SevHigh,
      pf_message = label @ '' differs from its fixed desired value.'',
      pf_evidence = json_map_from [(''observed'', observed), (''desired'', jnat (unat desired))]\<rparr>"

definition rg_incomplete_finding :: "string \<Rightarrow> 'a observation \<Rightarrow> policy_finding" where
  "rg_incomplete_finding label observed =
     rg_finding ''REMOTE-GUARDRAILS-IncompleteEvidence'' FError SevHigh
       (label @ '' evidence is incomplete: '' @ observation_state observed @ ''.'')"

type_synonym rg_state = "policy_finding list \<times> remote_guardrail_drift list"

definition record_drift :: "remote_guardrail_field \<Rightarrow> 32 word \<Rightarrow> remote_guardrail_drift list \<Rightarrow> remote_guardrail_drift list" where
  "record_drift f desired drift = drift @ [\<lparr>rg_field = f, rg_desired = desired\<rparr>]"

definition assess_bool :: "remote_guardrail_field \<Rightarrow> string \<Rightarrow> bool observation \<Rightarrow> bool \<Rightarrow> rg_state \<Rightarrow> rg_state" where
  "assess_bool f label observed desired s =
     (let (findings, drift) = s in
      case observed of
        Present actual \<Rightarrow>
          if actual = desired
          then (findings @ [rg_finding ''REMOTE-GUARDRAILS-Compliant'' FPass SevLow (label @ '' matches the fixed desired state.'')], drift)
          else (findings @ [rg_drift_finding label (JBool actual) (of_bool desired)], record_drift f (of_bool desired) drift)
      | state \<Rightarrow> (findings @ [rg_incomplete_finding label state], record_drift f (of_bool desired) drift))"

definition assess_dword :: "remote_guardrail_field \<Rightarrow> string \<Rightarrow> 32 word observation \<Rightarrow> 32 word \<Rightarrow> rg_state \<Rightarrow> rg_state" where
  "assess_dword f label observed desired s =
     (let (findings, drift) = s in
      case observed of
        Present actual \<Rightarrow>
          if actual = desired
          then (findings @ [rg_finding ''REMOTE-GUARDRAILS-Compliant'' FPass SevLow (label @ '' matches the fixed desired DWORD.'')], drift)
          else (findings @ [rg_drift_finding label (jnat (unat actual)) desired], record_drift f desired drift)
      | state \<Rightarrow> (findings @ [rg_incomplete_finding label state], record_drift f desired drift))"

definition evaluate_rdp_registry_fields ::
    "remote_guardrails_observation \<Rightarrow> remote_guardrails_policy \<Rightarrow> rg_state \<Rightarrow> rg_state" where
  "evaluate_rdp_registry_fields obs p s =
     (let s = assess_dword NetworkLevelAuthentication ''RDP Network Level Authentication'' (seen_nla obs) (guard_dword (rg_nla p)) s;
          s = assess_dword SecurityLayer ''RDP security layer'' (seen_security_layer obs) (layer_dword (rg_security_layer p)) s;
          s = assess_dword MinimumEncryption ''RDP minimum encryption'' (seen_minimum_encryption obs)
                (encryption_dword (rg_minimum_encryption p)) s;
          s = assess_dword RestrictedAdmin ''RDP Restricted Admin'' (seen_disable_restricted_admin obs)
                (1 - guard_dword (rg_restricted_admin p)) s
      in assess_dword DisablePasswordSaving ''RDP password-saving policy'' (seen_disable_password_saving obs)
           (guard_dword (rg_disable_password_saving p)) s)"

definition evaluate_remote_assistance_fields ::
    "remote_guardrails_observation \<Rightarrow> remote_guardrails_policy \<Rightarrow> rg_state \<Rightarrow> rg_state" where
  "evaluate_remote_assistance_fields obs p s =
     (let s = assess_dword SolicitedRemoteAssistance ''solicited Remote Assistance'' (seen_solicited obs)
                (guard_dword (rg_solicited p)) s;
          s = assess_dword UnsolicitedRemoteAssistance ''unsolicited Remote Assistance'' (seen_unsolicited obs)
                (guard_dword (rg_unsolicited p)) s
      in assess_dword RemoteAssistanceTicketLifetime ''Remote Assistance ticket lifetime'' (seen_ticket_lifetime obs)
           (ticket_minutes (rg_ticket_lifetime p)) s)"

definition evaluate_remote_guardrails ::
    "remote_guardrails_observation \<Rightarrow> remote_guardrails_policy \<Rightarrow> remote_guardrails_audit" where
  "evaluate_remote_guardrails obs p =
     (let s = ([rg_finding ''REMOTE-GUARDRAILS-LocalEvidenceOnly'' FInfo SevInfo
            ''RDP service and listener observations are local indicators only; this audit does not test or claim remote reachability.''], []);
          s = assess_bool FieldRdpAccess ''RDP access'' (rdp_enabled (rg_remote_surface obs)) (rdp_access_enabled (rg_rdp_access p)) s;
          s = evaluate_rdp_registry_fields obs p s;
          (findings, drift) = evaluate_remote_assistance_fields obs p s;
          blockers = (if \<not> registry_plan_evidence_is_complete obs
            then [''fixed RDP or Remote Assistance registry evidence is incomplete''] else [])
      in \<lparr>rg_observation = obs, rg_policy = p, rg_findings = findings, rg_drift = drift, rg_plan_blockers = blockers\<rparr>)"

definition build_remote_guardrails_plan ::
    "remote_guardrails_observation \<Rightarrow> remote_guardrails_policy \<Rightarrow> string + remote_guardrails_plan" where
  "build_remote_guardrails_plan obs p =
     (let audit = evaluate_remote_guardrails obs p in
      if rg_plan_blockers audit \<noteq> []
      then Inl (''remote guardrails plan is unavailable: '' @ join_with ''; '' (rg_plan_blockers audit))
      else Inr \<lparr>rg_audit = audit, rg_proposed_changes = rg_drift audit, rg_requires_administrator = True,
        rg_apply_available = False,
        rg_exclusions = [''all RDP and Remote Assistance registry mutation, rollback, and service control'',
          ''firewall rule, profile, policy-store, port, and remote-address evaluation or mutation'',
          ''Remote Desktop Users group and arbitrary user or group membership'',
          ''remote hosts, remote reachability probes, shell commands, and PowerShell'',
          ''legacy-script semantic-oracle and Windows VM parity validation'']\<rparr>)"

section \<open>What the proposals are worth\<close>

lemma distinct_fixed_profiles: "distinct fixed_profiles" "set fixed_profiles = UNIV"
  by (auto simp: fixed_profiles_def) (metis firewall_profile.exhaust)

subsection \<open>Firewall logging\<close>

fun logging_differs :: "firewall_profile_observation \<Rightarrow> firewall_logging_desired \<Rightarrow> firewall_logging_field \<Rightarrow> bool" where
  "logging_differs q d LogDroppedPackets \<longleftrightarrow> log_dropped q \<noteq> FwPresent (want_dropped d)"
| "logging_differs q d LogSuccessfulConnections \<longleftrightarrow> log_successful q \<noteq> FwPresent (want_successful d)"
| "logging_differs q d LogFilePath \<longleftrightarrow> log_path q \<noteq> FwPresent (want_path d)"
| "logging_differs q d LogMaxSizeKilobytes \<longleftrightarrow> log_size q \<noteq> FwPresent (want_size d)"

fun set_logging :: "firewall_logging_desired \<Rightarrow> firewall_logging_field \<Rightarrow> firewall_profile_observation \<Rightarrow> firewall_profile_observation" where
  "set_logging d LogDroppedPackets q = q\<lparr>log_dropped := FwPresent (want_dropped d)\<rparr>"
| "set_logging d LogSuccessfulConnections q = q\<lparr>log_successful := FwPresent (want_successful d)\<rparr>"
| "set_logging d LogFilePath q = q\<lparr>log_path := FwPresent (want_path d)\<rparr>"
| "set_logging d LogMaxSizeKilobytes q = q\<lparr>log_size := FwPresent (want_size d)\<rparr>"

definition logging_field_list :: "firewall_logging_field list" where
  "logging_field_list = [LogDroppedPackets, LogSuccessfulConnections, LogFilePath, LogMaxSizeKilobytes]"

definition apply_logging_change ::
    "firewall_logging_desired \<Rightarrow> firewall_profile \<times> firewall_logging_field \<Rightarrow> firewall_observation \<Rightarrow> firewall_observation" where
  "apply_logging_change d c obs =
     (case map_of (fw_profiles obs) (fst c) of
        Some q \<Rightarrow> obs\<lparr>fw_profiles := bt_insert (fst c) (set_logging d (snd c) q) (fw_profiles obs)\<rparr>
      | None \<Rightarrow> obs)"

definition logging_changes :: "firewall_logging_plan \<Rightarrow> (firewall_profile \<times> firewall_logging_field) list" where
  "logging_changes plan = concat (map (\<lambda>c. map (Pair (fl_profile c)) (fl_fields c)) (fl_drift plan))"

lemma set_logging_differs: "logging_differs (set_logging d f q) d g \<longleftrightarrow> g \<noteq> f \<and> logging_differs q d g"
  by (cases f; cases g) simp_all

lemma set_logging_complete: "profile_logging_is_complete q \<Longrightarrow> profile_logging_is_complete (set_logging d f q)"
  by (cases f) (simp_all add: profile_logging_is_complete_def)

lemma logging_drift_fields_eq: "logging_drift_fields q d = filter (logging_differs q d) logging_field_list"
  by (simp add: logging_drift_fields_def add_logging_drift_def logging_field_list_def)

lemma logging_complete_profile:
  "logging_is_complete obs \<longleftrightarrow> fw_modify_state obs = LocalPolicyWritable \<and>
     (\<forall>pr. \<exists>q. map_of (fw_profiles obs) pr = Some q \<and> profile_logging_is_complete q)"
proof -
  have "(case x of Some q \<Rightarrow> profile_logging_is_complete q | None \<Rightarrow> False) \<longleftrightarrow> (\<exists>q. x = Some q \<and> profile_logging_is_complete q)" for x
    by (cases x) simp_all
  then show ?thesis by (simp add: logging_is_complete_def list_all_iff distinct_fixed_profiles(2))
qed

lemma logging_field_list: "distinct logging_field_list" "set logging_field_list = UNIV"
  by (auto simp: logging_field_list_def) (metis firewall_logging_field.exhaust)

interpretation firewall_logging: field_policy "\<lambda>_. List.product fixed_profiles logging_field_list"
    "\<lambda>d obs c. \<exists>q. map_of (fw_profiles obs) (fst c) = Some q \<and> logging_differs q d (snd c)" apply_logging_change
    "\<lambda>_ obs. map_entries_ok (fw_profiles obs) \<and> logging_is_complete obs"
proof
  show "distinct (List.product fixed_profiles logging_field_list)"
    by (simp add: distinct_product distinct_fixed_profiles logging_field_list)
  show "map_entries_ok (fw_profiles (apply_logging_change d c obs)) \<and> logging_is_complete (apply_logging_change d c obs)"
    if ok: "map_entries_ok (fw_profiles obs) \<and> logging_is_complete obs" for d obs c
  proof -
    obtain q where "map_of (fw_profiles obs) (fst c) = Some q" "profile_logging_is_complete q"
      using ok by (auto simp: logging_complete_profile)
    with ok show ?thesis
      by (simp add: apply_logging_change_def logging_complete_profile map_entries_ok_insert map_of_bt_insert set_logging_complete)
  qed
  show "(\<exists>q. map_of (fw_profiles (apply_logging_change d f obs)) (fst g) = Some q \<and> logging_differs q d (snd g)) \<longleftrightarrow>
      g \<noteq> f \<and> (\<exists>q. map_of (fw_profiles obs) (fst g) = Some q \<and> logging_differs q d (snd g))"
    if "map_entries_ok (fw_profiles obs) \<and> logging_is_complete obs" for d obs f g
    using that by (cases f; cases g) (auto simp: apply_logging_change_def map_of_bt_insert set_logging_differs logging_complete_profile
        split: option.split)
qed

lemma filter_product: "filter P (List.product xs ys) = concat (map (\<lambda>x. map (Pair x) (filter (\<lambda>y. P (x, y)) ys)) xs)"
  by (induction xs) (simp_all add: filter_map o_def)

lemma firewall_logging_plan_changes:
  assumes "logging_is_complete obs"
  shows "\<exists>plan. build_firewall_logging_plan obs d = Inr plan \<and> logging_changes plan = firewall_logging.drift d obs"
proof -
  define q where "q = (\<lambda>pr. the (map_of (fw_profiles obs) pr))"
  have q: "map_of (fw_profiles obs) pr = Some (q pr)" for pr
    using assms by (metis logging_complete_profile option.sel q_def)
  have "concat (map (\<lambda>c. map (Pair (fl_profile c)) (fl_fields c)) (List.map_filter (\<lambda>pr.
      if f pr \<noteq> [] then Some \<lparr>fl_profile = pr, fl_fields = f pr\<rparr> else None) xs)) =
    concat (map (\<lambda>pr. map (Pair pr) (f pr)) xs)" for xs f
    by (induction xs) (simp_all add: List.map_filter_simps)
  then show ?thesis
    by (simp add: build_firewall_logging_plan_def assms logging_changes_def firewall_logging.drift_def filter_product q
        logging_drift_fields_eq Let_def)
qed

lemma firewall_logging_resumable:
  "map_entries_ok (fw_profiles obs) \<Longrightarrow>
     resumable (\<lambda>obs. build_firewall_logging_plan obs d) logging_changes (apply_logging_change d) obs"
  by (rule firewall_logging.resumable_fieldsI)
    (auto simp: build_firewall_logging_plan_def [where obs = obs] firewall_logging_plan_changes split: if_splits)

subsection \<open>Firewall profiles\<close>

fun baseline_differs :: "firewall_baseline_profile_observation \<Rightarrow> firewall_baseline_profile \<Rightarrow> firewall_baseline_field \<Rightarrow> bool" where
  "baseline_differs q d FwEnabled \<longleftrightarrow> bo_enabled q \<noteq> FwPresent (bp_enabled d)"
| "baseline_differs q d DefaultInboundAction \<longleftrightarrow> bo_inbound q \<noteq> FwPresent (bp_inbound d)"
| "baseline_differs q d DefaultOutboundAction \<longleftrightarrow> bo_outbound q \<noteq> FwPresent (bp_outbound d)"
| "baseline_differs q d NotifyOnListen \<longleftrightarrow> bo_notify q \<noteq> FwPresent (bp_notify d)"

fun set_baseline ::
    "firewall_baseline_profile \<Rightarrow> firewall_baseline_field \<Rightarrow> firewall_baseline_profile_observation \<Rightarrow> firewall_baseline_profile_observation" where
  "set_baseline d FwEnabled q = q\<lparr>bo_enabled := FwPresent (bp_enabled d)\<rparr>"
| "set_baseline d DefaultInboundAction q = q\<lparr>bo_inbound := FwPresent (bp_inbound d)\<rparr>"
| "set_baseline d DefaultOutboundAction q = q\<lparr>bo_outbound := FwPresent (bp_outbound d)\<rparr>"
| "set_baseline d NotifyOnListen q = q\<lparr>bo_notify := FwPresent (bp_notify d)\<rparr>"

fun observations_set ::
    "firewall_profile \<Rightarrow> firewall_baseline_profile_observation \<Rightarrow> firewall_baseline_observations \<Rightarrow> firewall_baseline_observations" where
  "observations_set FwDomain q os = os\<lparr>bo_domain := q\<rparr>"
| "observations_set FwPrivate q os = os\<lparr>bo_private := q\<rparr>"
| "observations_set FwPublic q os = os\<lparr>bo_public := q\<rparr>"

definition baseline_field_list :: "firewall_baseline_field list" where
  "baseline_field_list = [FwEnabled, DefaultInboundAction, DefaultOutboundAction, NotifyOnListen]"

definition apply_baseline_change ::
    "firewall_baseline_parameters \<Rightarrow> firewall_profile \<times> firewall_baseline_field \<Rightarrow> firewall_baseline_observation \<Rightarrow>
     firewall_baseline_observation" where
  "apply_baseline_change p c obs =
     obs\<lparr>bo_profiles := observations_set (fst c)
       (set_baseline (desired_for (fb_profiles p) (fst c)) (snd c) (observations_get (bo_profiles obs) (fst c))) (bo_profiles obs)\<rparr>"

definition baseline_changes :: "firewall_baseline_plan \<Rightarrow> (firewall_profile \<times> firewall_baseline_field) list" where
  "baseline_changes plan = concat (map (\<lambda>c. map (Pair (fb_profile c)) (fb_fields c)) (fb_proposed_changes plan))"

lemma observations_get_set: "observations_get (observations_set p q os) r = (if r = p then q else observations_get os r)"
  by (cases p; cases r) simp_all

lemma set_baseline_differs: "baseline_differs (set_baseline d f q) d g \<longleftrightarrow> g \<noteq> f \<and> baseline_differs q d g"
  by (cases f; cases g) simp_all

lemma set_baseline_complete: "baseline_is_complete q \<Longrightarrow> baseline_is_complete (set_baseline d f q)"
  by (cases f) (simp_all add: baseline_is_complete_def)

lemma drift_fields_eq: "drift_fields q d = filter (baseline_differs q d) baseline_field_list"
  by (simp add: drift_fields_def add_drift_def baseline_field_list_def)

lemma baseline_field_list: "distinct baseline_field_list"
  by (simp add: baseline_field_list_def)

lemma baseline_complete_profile:
  "is_complete_and_locally_writable obs \<longleftrightarrow> bo_modify_state obs = LocalPolicyWritable \<and>
     (\<forall>pr. baseline_is_complete (observations_get (bo_profiles obs) pr))"
  by (simp add: is_complete_and_locally_writable_def list_all_iff distinct_fixed_profiles(2))

interpretation firewall_baseline: field_policy "\<lambda>_. List.product fixed_profiles baseline_field_list"
    "\<lambda>p obs c. baseline_differs (observations_get (bo_profiles obs) (fst c)) (desired_for (fb_profiles p) (fst c)) (snd c)"
    apply_baseline_change "\<lambda>_. is_complete_and_locally_writable"
proof
  show "distinct (List.product fixed_profiles baseline_field_list)"
    by (simp add: distinct_product distinct_fixed_profiles baseline_field_list)
  show "is_complete_and_locally_writable (apply_baseline_change p c obs)"
    if "is_complete_and_locally_writable obs" for p obs c
    using that by (simp add: baseline_complete_profile apply_baseline_change_def observations_get_set set_baseline_complete)
  show "baseline_differs (observations_get (bo_profiles (apply_baseline_change p f obs)) (fst g)) (desired_for (fb_profiles p) (fst g)) (snd g) \<longleftrightarrow>
      g \<noteq> f \<and> baseline_differs (observations_get (bo_profiles obs) (fst g)) (desired_for (fb_profiles p) (fst g)) (snd g)" for p obs f g
    by (cases f; cases g) (auto simp: apply_baseline_change_def observations_get_set set_baseline_differs)
qed

lemma baseline_blockers_empty: "fb_plan_blockers (evaluate_firewall_baseline obs p) = [] \<longleftrightarrow> is_complete_and_locally_writable obs"
  by (auto simp: evaluate_firewall_baseline_def is_complete_and_locally_writable_def list_all_iff list_ex_iff Let_def)

lemma firewall_baseline_plan_changes:
  assumes "is_complete_and_locally_writable obs"
  shows "\<exists>plan. build_firewall_baseline_plan obs p = Inr plan \<and> baseline_changes plan = firewall_baseline.drift p obs"
proof -
  have "concat (map (\<lambda>c. map (Pair (fb_profile c)) (fb_fields c)) (List.map_filter (\<lambda>pr.
      if f pr \<noteq> [] then Some \<lparr>fb_profile = pr, fb_fields = f pr\<rparr> else None) xs)) =
    concat (map (\<lambda>pr. map (Pair pr) (f pr)) xs)" for xs f
    by (induction xs) (simp_all add: List.map_filter_simps)
  moreover have "fb_plan_blockers (evaluate_firewall_baseline obs p) = []" using assms by (simp add: baseline_blockers_empty)
  ultimately show ?thesis
    by (simp add: build_firewall_baseline_plan_def baseline_changes_def firewall_baseline.drift_def filter_product Let_def)
      (simp add: evaluate_firewall_baseline_def drift_fields_eq Let_def)
qed

lemma firewall_baseline_resumable:
  "resumable (\<lambda>obs. build_firewall_baseline_plan obs p) baseline_changes (apply_baseline_change p) obs"
  by (rule firewall_baseline.resumable_fieldsI)
    (auto simp: build_firewall_baseline_plan_def [where obs = obs] Let_def baseline_blockers_empty firewall_baseline_plan_changes
      split: if_splits)

subsection \<open>SMB encryption\<close>

fun smb_seen :: "smb_encryption_observation \<Rightarrow> smb_encryption_field \<Rightarrow> bool observation" where
  "smb_seen obs ServerEncryptData = seen_server_encrypt obs"
| "smb_seen obs ServerRejectUnencryptedAccess = seen_server_reject obs"
| "smb_seen obs ClientRequireEncryption = seen_client_require obs"

fun smb_want :: "smb_encryption_policy \<Rightarrow> smb_encryption_field \<Rightarrow> bool" where
  "smb_want p ServerEncryptData = smb_server_encrypt p"
| "smb_want p ServerRejectUnencryptedAccess = smb_server_reject p"
| "smb_want p ClientRequireEncryption = smb_client_require p"

fun set_smb :: "smb_encryption_field \<Rightarrow> bool \<Rightarrow> smb_encryption_observation \<Rightarrow> smb_encryption_observation" where
  "set_smb ServerEncryptData v obs = obs\<lparr>seen_server_encrypt := Present v\<rparr>"
| "set_smb ServerRejectUnencryptedAccess v obs = obs\<lparr>seen_server_reject := Present v\<rparr>"
| "set_smb ClientRequireEncryption v obs = obs\<lparr>seen_client_require := Present v\<rparr>"

definition smb_field_list :: "smb_encryption_field list" where
  "smb_field_list = [ServerEncryptData, ServerRejectUnencryptedAccess, ClientRequireEncryption]"

lemma smb_seen_set: "smb_seen (set_smb f v obs) g = (if g = f then Present v else smb_seen obs g)"
  by (cases f; cases g) simp_all

definition smb_complete :: "smb_encryption_observation \<Rightarrow> bool" where
  "smb_complete obs \<longleftrightarrow> (\<forall>f. is_present (smb_seen obs f))"

interpretation smb: field_policy "\<lambda>_. smb_field_list" "\<lambda>p obs f. smb_seen obs f \<noteq> Present (smb_want p f)"
    "\<lambda>p f. set_smb f (smb_want p f)" "\<lambda>_. smb_complete"
  by unfold_locales (auto simp: smb_field_list_def smb_complete_def smb_seen_set)

lemma smb_all_fields: "(\<forall>f. P f) \<longleftrightarrow> P ServerEncryptData \<and> P ServerRejectUnencryptedAccess \<and> P ClientRequireEncryption"
  by (metis smb_encryption_field.exhaust)

lemma smb_evaluate_blockers: "snd (smb_evaluate f label v desired s) = [] \<longleftrightarrow> snd s = [] \<and> is_present v"
  by (cases v; cases s) (simp_all add: smb_evaluate_def)

lemma smb_blockers_empty: "smb_plan_blockers (evaluate_smb_encryption obs p) = [] \<longleftrightarrow> smb_complete obs"
proof -
  have "smb_plan_blockers (evaluate_smb_encryption obs p) = snd (smb_evaluate ClientRequireEncryption ''outbound SMB client encryption''
      (seen_client_require obs) (smb_client_require p)
      (smb_evaluate ServerRejectUnencryptedAccess ''SMB server rejection of unencrypted clients'' (seen_server_reject obs) (smb_server_reject p)
      (smb_evaluate ServerEncryptData ''server-wide SMB encryption'' (seen_server_encrypt obs) (smb_server_encrypt p) ([], []))))"
    by (simp add: evaluate_smb_encryption_def Let_def split: prod.split)
  then show ?thesis by (simp add: smb_evaluate_blockers smb_complete_def smb_all_fields)
qed

lemma smb_audit_observation [simp]: "smb_observation (evaluate_smb_encryption obs p) = obs"
  by (simp add: evaluate_smb_encryption_def Let_def split: prod.split)

lemma smb_plan_changes:
  assumes "smb_complete obs"
  shows "\<exists>plan. build_smb_encryption_plan obs p = Inr plan \<and> map smb_field (smb_proposed_changes plan) = smb.drift p obs"
proof -
  obtain x y z where "seen_server_encrypt obs = Present x" "seen_server_reject obs = Present y" "seen_client_require obs = Present z"
    using assms by (auto simp: smb_complete_def smb_all_fields is_present_iff)
  then show ?thesis
    using assms smb_blockers_empty [of obs p] unfolding smb.drift_def
    by (simp add: build_smb_encryption_plan_def List.map_filter_simps smb_field_list_def Let_def)
qed

lemma smb_resumable:
  "resumable (\<lambda>obs. build_smb_encryption_plan obs p) (\<lambda>plan. map smb_field (smb_proposed_changes plan))
     (\<lambda>f. set_smb f (smb_want p f)) obs"
  by (rule smb.resumable_fieldsI)
    (auto simp: build_smb_encryption_plan_def [where obs = obs] Let_def smb_blockers_empty smb_plan_changes split: if_splits)

subsection \<open>Remote access guardrails\<close>

fun remote_seen :: "remote_guardrails_observation \<Rightarrow> remote_guardrail_field \<Rightarrow> 32 word observation" where
  "remote_seen obs FieldRdpAccess = map_observation of_bool (rdp_enabled (rg_remote_surface obs))"
| "remote_seen obs NetworkLevelAuthentication = seen_nla obs"
| "remote_seen obs SecurityLayer = seen_security_layer obs"
| "remote_seen obs MinimumEncryption = seen_minimum_encryption obs"
| "remote_seen obs RestrictedAdmin = seen_disable_restricted_admin obs"
| "remote_seen obs DisablePasswordSaving = seen_disable_password_saving obs"
| "remote_seen obs SolicitedRemoteAssistance = seen_solicited obs"
| "remote_seen obs UnsolicitedRemoteAssistance = seen_unsolicited obs"
| "remote_seen obs RemoteAssistanceTicketLifetime = seen_ticket_lifetime obs"

fun remote_want :: "remote_guardrails_policy \<Rightarrow> remote_guardrail_field \<Rightarrow> 32 word" where
  "remote_want p FieldRdpAccess = of_bool (rdp_access_enabled (rg_rdp_access p))"
| "remote_want p NetworkLevelAuthentication = guard_dword (rg_nla p)"
| "remote_want p SecurityLayer = layer_dword (rg_security_layer p)"
| "remote_want p MinimumEncryption = encryption_dword (rg_minimum_encryption p)"
| "remote_want p RestrictedAdmin = 1 - guard_dword (rg_restricted_admin p)"
| "remote_want p DisablePasswordSaving = guard_dword (rg_disable_password_saving p)"
| "remote_want p SolicitedRemoteAssistance = guard_dword (rg_solicited p)"
| "remote_want p UnsolicitedRemoteAssistance = guard_dword (rg_unsolicited p)"
| "remote_want p RemoteAssistanceTicketLifetime = ticket_minutes (rg_ticket_lifetime p)"

fun set_remote :: "remote_guardrail_field \<Rightarrow> 32 word \<Rightarrow> remote_guardrails_observation \<Rightarrow> remote_guardrails_observation" where
  "set_remote FieldRdpAccess v obs = obs\<lparr>rg_remote_surface := (rg_remote_surface obs)\<lparr>rdp_enabled := Present (v \<noteq> 0)\<rparr>\<rparr>"
| "set_remote NetworkLevelAuthentication v obs = obs\<lparr>seen_nla := Present v\<rparr>"
| "set_remote SecurityLayer v obs = obs\<lparr>seen_security_layer := Present v\<rparr>"
| "set_remote MinimumEncryption v obs = obs\<lparr>seen_minimum_encryption := Present v\<rparr>"
| "set_remote RestrictedAdmin v obs = obs\<lparr>seen_disable_restricted_admin := Present v\<rparr>"
| "set_remote DisablePasswordSaving v obs = obs\<lparr>seen_disable_password_saving := Present v\<rparr>"
| "set_remote SolicitedRemoteAssistance v obs = obs\<lparr>seen_solicited := Present v\<rparr>"
| "set_remote UnsolicitedRemoteAssistance v obs = obs\<lparr>seen_unsolicited := Present v\<rparr>"
| "set_remote RemoteAssistanceTicketLifetime v obs = obs\<lparr>seen_ticket_lifetime := Present v\<rparr>"

definition apply_remote_change :: "remote_guardrail_drift \<Rightarrow> remote_guardrails_observation \<Rightarrow> remote_guardrails_observation" where
  "apply_remote_change c = set_remote (rg_field c) (rg_desired c)"

definition remote_field_list :: "remote_guardrail_field list" where
  "remote_field_list = [FieldRdpAccess, NetworkLevelAuthentication, SecurityLayer, MinimumEncryption, RestrictedAdmin,
     DisablePasswordSaving, SolicitedRemoteAssistance, UnsolicitedRemoteAssistance, RemoteAssistanceTicketLifetime]"

definition remote_change :: "remote_guardrails_policy \<Rightarrow> remote_guardrail_field \<Rightarrow> remote_guardrail_drift" where
  "remote_change p f = \<lparr>rg_field = f, rg_desired = remote_want p f\<rparr>"

lemma remote_seen_set:
  "remote_seen (set_remote f (remote_want p f) obs) g = (if g = f then Present (remote_want p f) else remote_seen obs g)"
  by (cases f; cases g) simp_all

lemma is_present_map [simp]: "is_present (map_observation f v) = is_present v"
  by (cases v) simp_all

lemma remote_field_listed: "f \<in> set remote_field_list"
  by (cases f) (simp_all add: remote_field_list_def)

lemma remote_all_fields: "(\<forall>f. P f) \<longleftrightarrow> list_all P remote_field_list"
  using remote_field_listed by (auto simp: list_all_iff)

lemma remote_complete_iff: "registry_plan_evidence_is_complete obs \<longleftrightarrow> (\<forall>f. is_present (remote_seen obs f))"
  by (simp add: registry_plan_evidence_is_complete_def dword_registry_evidence_is_complete_def remote_all_fields remote_field_list_def)

interpretation remote: field_policy "\<lambda>_. remote_field_list" "\<lambda>p obs f. remote_seen obs f \<noteq> Present (remote_want p f)"
    "\<lambda>p f. set_remote f (remote_want p f)" "\<lambda>_. registry_plan_evidence_is_complete"
  by unfold_locales (auto simp: remote_field_list_def remote_complete_iff remote_seen_set)

lemma assess_drift:
  "snd (assess_dword f label observed desired s) = snd s @ (if observed \<noteq> Present desired then [\<lparr>rg_field = f, rg_desired = desired\<rparr>] else [])"
  "snd (assess_bool f label b want s) =
     snd s @ (if map_observation of_bool b \<noteq> Present (of_bool want :: 32 word) then [\<lparr>rg_field = f, rg_desired = of_bool want\<rparr>] else [])"
  by (auto simp: assess_dword_def assess_bool_def record_drift_def split: prod.split observation.split)

lemma filter_Cons_if: "filter P (x # xs) = (if P x then [x] else []) @ filter P xs"
  by simp

lemma map_if_list: "map f (if P then [x] else []) = (if P then [f x] else [])"
  by simp

lemma remote_drift_eq: "rg_drift (evaluate_remote_guardrails obs p) = map (remote_change p) (remote.drift p obs)"
proof -
  define s0 where "s0 = ([rg_finding ''REMOTE-GUARDRAILS-LocalEvidenceOnly'' FInfo SevInfo
            ''RDP service and listener observations are local indicators only; this audit does not test or claim remote reachability.''],
            [] :: remote_guardrail_drift list)"
  have "rg_drift (evaluate_remote_guardrails obs p) = snd (evaluate_remote_assistance_fields obs p
      (evaluate_rdp_registry_fields obs p
      (assess_bool FieldRdpAccess ''RDP access'' (rdp_enabled (rg_remote_surface obs)) (rdp_access_enabled (rg_rdp_access p)) s0)))"
    by (simp add: evaluate_remote_guardrails_def s0_def Let_def split: prod.split)
  also have "\<dots> = map (remote_change p) (remote.drift p obs)"
    unfolding remote.drift_def unfolding remote_field_list_def
    by (simp only: evaluate_remote_assistance_fields_def evaluate_rdp_registry_fields_def Let_def assess_drift s0_def snd_conv
        filter_Cons_if filter.simps(1) map_append map_if_list remote_change_def remote_seen.simps remote_want.simps
        append_Nil append_Nil2 append_assoc list.map(1))
  finally show ?thesis .
qed

lemma remote_plan_changes:
  "registry_plan_evidence_is_complete obs \<Longrightarrow>
     \<exists>plan. build_remote_guardrails_plan obs p = Inr plan \<and> rg_proposed_changes plan = map (remote_change p) (remote.drift p obs)"
  using remote_drift_eq [of obs p]
  by (simp add: build_remote_guardrails_plan_def Let_def) (simp add: evaluate_remote_guardrails_def Let_def split: prod.split)

lemma remote_resumable:
  "resumable (\<lambda>obs. build_remote_guardrails_plan obs p) rg_proposed_changes apply_remote_change obs"
proof (rule remote.resumableI [where enc = "remote_change p"])
  show "registry_plan_evidence_is_complete obs" if "build_remote_guardrails_plan obs p = Inr plan" for plan
    using that by (auto simp: build_remote_guardrails_plan_def evaluate_remote_guardrails_def Let_def split: prod.splits if_splits)
qed (simp_all add: remote_plan_changes apply_remote_change_def remote_change_def)

end
