(* ===== verification/Defense_Policies.thy ===== *)
theory Defense_Policies
  imports Network_Policies
begin

text \<open>
  The Defender policies for ransomware and network protection (\<open>defender_ransomware_policy.rs\<close>) and the emergency
  isolation of a host (\<open>emergency_isolation_policy.rs\<close>).
\<close>

section \<open>Defender\<close>

datatype controlled_folder_access =
    CfaDisabled | CfaEnabled | CfaAuditMode | CfaBlockDiskModificationOnly | CfaAuditDiskModificationOnly

definition cfa_from_wmi :: "32 word \<Rightarrow> controlled_folder_access option" where
  "cfa_from_wmi v =
     (if v = 0 then Some CfaDisabled else if v = 1 then Some CfaEnabled else if v = 2 then Some CfaAuditMode
      else if v = 3 then Some CfaBlockDiskModificationOnly else if v = 4 then Some CfaAuditDiskModificationOnly else None)"

fun cfa_text :: "controlled_folder_access \<Rightarrow> string" where
  "cfa_text CfaDisabled = ''disabled''"
| "cfa_text CfaEnabled = ''enabled''"
| "cfa_text CfaAuditMode = ''audit_mode''"
| "cfa_text CfaBlockDiskModificationOnly = ''block_disk_modification_only''"
| "cfa_text CfaAuditDiskModificationOnly = ''audit_disk_modification_only''"

datatype network_protection = NpDisabled | NpEnabled | NpAuditMode

definition np_from_wmi :: "32 word \<Rightarrow> network_protection option" where
  "np_from_wmi v =
     (if v = 0 then Some NpDisabled else if v = 1 then Some NpEnabled else if v = 2 then Some NpAuditMode else None)"

fun np_text :: "network_protection \<Rightarrow> string" where
  "np_text NpDisabled = ''disabled''"
| "np_text NpEnabled = ''enabled''"
| "np_text NpAuditMode = ''audit_mode''"

record defender_ransomware_policy =
  dr_cfa :: controlled_folder_access
  dr_np :: network_protection
  dr_server_prereqs :: bool
  dr_disable_datagram :: bool

definition defender_ransomware_policy_default :: defender_ransomware_policy where
  "defender_ransomware_policy_default = \<lparr>dr_cfa = CfaEnabled, dr_np = NpEnabled, dr_server_prereqs = False,
     dr_disable_datagram = True\<rparr>"

record defender_ransomware_observation =
  seen_cfa :: "controlled_folder_access observation"
  seen_np :: "network_protection observation"
  seen_is_server :: "bool observation"
  seen_allow_np_server :: "bool observation"
  seen_allow_np_down_level :: "bool observation"
  seen_allow_datagram :: "bool observation"

record defender_ransomware_audit =
  dr_observation :: defender_ransomware_observation
  dr_policy :: defender_ransomware_policy
  dr_findings :: "policy_finding list"
  dr_exclusions :: "string list"

record defender_ransomware_drift =
  dr_field :: string
  dr_desired :: jvalue

record defender_ransomware_plan =
  dr_audit :: defender_ransomware_audit
  dr_proposed_changes :: "defender_ransomware_drift list"
  dr_apply_available :: bool

definition dr_finding :: "string \<Rightarrow> finding_status \<Rightarrow> severity \<Rightarrow> string \<Rightarrow> policy_finding" where
  "dr_finding code status sev message =
     \<lparr>pf_code = code, pf_status = status, pf_severity = sev, pf_message = message, pf_evidence = read_only_evidence\<rparr>"

definition dr_incomplete :: "string \<Rightarrow> string \<Rightarrow> 'a observation \<Rightarrow> policy_finding list \<Rightarrow> policy_finding list" where
  "dr_incomplete code label observed findings =
     findings @ [dr_finding code FError SevHigh (label @ '' evidence is incomplete: '' @ observation_state observed @ ''.'')]"

definition evaluate_setting ::
    "('a \<Rightarrow> jvalue) \<Rightarrow> string \<Rightarrow> string \<Rightarrow> 'a observation \<Rightarrow> 'a \<Rightarrow> policy_finding list \<Rightarrow> policy_finding list" where
  "evaluate_setting js code label observed desired findings =
     (case observed of
        Present v \<Rightarrow>
          if v = desired then findings
          else findings @ [\<lparr>pf_code = code, pf_status = FWarning, pf_severity = SevMedium,
            pf_message = label @ '' does not match the bounded desired state.'',
            pf_evidence = json_map_from [(''observed'', js v), (''desired'', js desired)]\<rparr>]
      | v \<Rightarrow> dr_incomplete code label v findings)"

definition evaluate_server ::
    "defender_ransomware_observation \<Rightarrow> defender_ransomware_policy \<Rightarrow> policy_finding list \<Rightarrow> policy_finding list" where
  "evaluate_server obs p findings =
     (case seen_is_server obs of
        Present is_server \<Rightarrow>
          if \<not> is_server then findings
          else
            let fs = (if dr_server_prereqs p
                then evaluate_setting JBool ''DEF-NP-DownLevelPrereq-Missing'' ''AllowNetworkProtectionDownLevel''
                  (seen_allow_np_down_level obs) True
                  (evaluate_setting JBool ''DEF-NP-ServerPrereq-Missing'' ''AllowNetworkProtectionOnWinServer''
                    (seen_allow_np_server obs) True findings)
                else findings)
            in if dr_disable_datagram p
               then evaluate_setting JBool ''DEF-NP-DatagramProcessing-NotRecommended'' ''AllowDatagramProcessingOnWinServer''
                 (seen_allow_datagram obs) False fs
               else fs
      | v \<Rightarrow> dr_incomplete ''DEF-NP-ServerEvidence'' ''Windows Server applicability'' v findings)"

definition dr_exclusion_texts :: "string list" where
  "dr_exclusion_texts = [
     ''Defender WMI/provider availability, authorization, and property semantics are not independently verified.'',
     ''Legacy PowerShell script parity and its remediation behavior are not claimed.'',
     ''Windows client and Server VM validation is not included.'',
     ''No external oracle, cloud protection telemetry, or blocked-event effectiveness evidence is collected.'',
     ''Apply and all state mutation are intentionally unavailable.'']"

definition evaluate_defender_ransomware ::
    "defender_ransomware_observation \<Rightarrow> defender_ransomware_policy \<Rightarrow> defender_ransomware_audit" where
  "evaluate_defender_ransomware obs p =
     (let fs = evaluate_setting (JString \<circ> cfa_text) ''DEF-CFA-NotDesired'' ''Controlled Folder Access'' (seen_cfa obs) (dr_cfa p) [];
          fs = evaluate_setting (JString \<circ> np_text) ''DEF-NP-NotDesired'' ''Network Protection'' (seen_np obs) (dr_np p) fs;
          fs = evaluate_server obs p fs
      in \<lparr>dr_observation = obs, dr_policy = p,
          dr_findings = fs @ [dr_finding ''DEF-WMI-CoverageExcluded'' FWarning SevLow
            ''This read-only foundation observes fixed Defender WMI preference properties only; WMI/provider behavior, legacy-oracle parity, and Windows VM validation remain excluded.''],
          dr_exclusions = dr_exclusion_texts\<rparr>)"

definition dr_drift :: "string \<Rightarrow> jvalue \<Rightarrow> defender_ransomware_drift" where
  "dr_drift f v = \<lparr>dr_field = f, dr_desired = v\<rparr>"

definition add_setting_drift ::
    "('a \<Rightarrow> jvalue) \<Rightarrow> string \<Rightarrow> 'a observation \<Rightarrow> 'a \<Rightarrow> defender_ransomware_drift list \<Rightarrow> defender_ransomware_drift list" where
  "add_setting_drift js name observed desired changes =
     (case observed of
        Present v \<Rightarrow> if v \<noteq> desired then changes @ [dr_drift name (js desired)] else changes
      | _ \<Rightarrow> changes)"

definition build_defender_ransomware_plan ::
    "defender_ransomware_observation \<Rightarrow> defender_ransomware_policy \<Rightarrow> defender_ransomware_plan" where
  "build_defender_ransomware_plan obs p =
     (let audit = evaluate_defender_ransomware obs p;
          o1 = dr_observation audit;
          cs = add_setting_drift (JString \<circ> cfa_text) ''EnableControlledFolderAccess'' (seen_cfa o1) (dr_cfa p) [];
          cs = add_setting_drift (JString \<circ> np_text) ''EnableNetworkProtection'' (seen_np o1) (dr_np p) cs;
          cs = (if seen_is_server o1 = Present True
            then
              let cs = (if dr_server_prereqs p
                  then
                    let cs = (if seen_allow_np_server o1 = Present False
                        then cs @ [dr_drift ''AllowNetworkProtectionOnWinServer'' (JBool True)] else cs)
                    in if seen_allow_np_down_level o1 = Present False
                       then cs @ [dr_drift ''AllowNetworkProtectionDownLevel'' (JBool True)] else cs
                  else cs)
              in if dr_disable_datagram p \<and> seen_allow_datagram o1 = Present True
                 then cs @ [dr_drift ''AllowDatagramProcessingOnWinServer'' (JBool False)] else cs
            else cs)
      in \<lparr>dr_audit = audit, dr_proposed_changes = cs, dr_apply_available = False\<rparr>)"

section \<open>Emergency isolation\<close>

datatype isolation_default_action = IsoAllow | IsoBlock

text \<open>The three isolation profiles are those of the firewall.\<close>

record isolation_snapshot =
  iso_profile :: firewall_profile
  iso_inbound :: "isolation_default_action observation"
  iso_outbound :: "isolation_default_action observation"

record emergency_isolation_policy =
  require_preprovisioned_break_glass :: bool

record emergency_isolation_observation =
  iso_profiles :: "isolation_snapshot list"
  break_glass_sha256 :: "byte list observation"
  managed_isolation_active :: "bool observation"

datatype emergency_isolation_action =
    BlockInbound firewall_profile | BlockOutbound firewall_profile | PreservePreprovisionedBreakGlass

datatype isolation_blocker =
    IncompleteRollbackEvidence | BreakGlassUnverified | ManagedIsolationActive | ManagedIsolationUnknown

record emergency_isolation_audit =
  iso_observation :: emergency_isolation_observation
  iso_policy :: emergency_isolation_policy
  iso_findings :: "policy_finding list"
  iso_plan_blockers :: "isolation_blocker list"

record emergency_isolation_plan =
  iso_audit :: emergency_isolation_audit
  iso_actions :: "emergency_isolation_action list"
  iso_rollback :: "isolation_snapshot list"
  iso_apply_available :: bool
  iso_reboot_required :: bool

definition profiles_are_complete :: "isolation_snapshot list \<Rightarrow> bool" where
  "profiles_are_complete ps \<longleftrightarrow>
     length ps = 3 \<and> set (map iso_profile ps) = set fixed_profiles \<and>
     list_all (\<lambda>s. is_present (iso_inbound s) \<and> is_present (iso_outbound s)) ps"

definition preflight_blockers :: "emergency_isolation_observation \<Rightarrow> emergency_isolation_policy \<Rightarrow> isolation_blocker list" where
  "preflight_blockers obs p =
     (if \<not> profiles_are_complete (iso_profiles obs) then [IncompleteRollbackEvidence] else []) @
     (if require_preprovisioned_break_glass p \<and> \<not> is_present (break_glass_sha256 obs) then [BreakGlassUnverified] else []) @
     (case managed_isolation_active obs of
        Present active \<Rightarrow> if active then [ManagedIsolationActive] else []
      | _ \<Rightarrow> [ManagedIsolationUnknown])"

definition iso_finding :: "string \<Rightarrow> severity \<Rightarrow> string \<Rightarrow> policy_finding" where
  "iso_finding code sev message =
     \<lparr>pf_code = code, pf_status = FWarning, pf_severity = sev, pf_message = message,
      pf_evidence = json_map_from [(''semantic_plan_only'', JBool True)]\<rparr>"

definition evaluate_emergency_isolation ::
    "emergency_isolation_observation \<Rightarrow> emergency_isolation_policy \<Rightarrow> emergency_isolation_audit" where
  "evaluate_emergency_isolation obs p =
     (let blockers = preflight_blockers obs p;
          fs = (if IncompleteRollbackEvidence \<in> set blockers
            then [iso_finding ''ISO-RollbackIncomplete'' SevCritical
              ''All three fixed firewall profiles need complete rollback evidence before isolation can be proposed.''] else []);
          fs = (if BreakGlassUnverified \<in> set blockers
            then fs @ [iso_finding ''ISO-BreakGlassUnverified'' SevCritical
              ''The required pre-provisioned break-glass profile is not digest-bound.''] else fs);
          fs = (if ManagedIsolationActive \<in> set blockers
            then fs @ [iso_finding ''ISO-AlreadyActive'' SevHigh
              ''An existing managed isolation is active; overlapping activation is forbidden.''] else fs);
          fs = (if ManagedIsolationUnknown \<in> set blockers
            then fs @ [iso_finding ''ISO-ManagedStateUnknown'' SevCritical
              ''The managed-isolation marker is unavailable; activation state cannot be inferred from firewall defaults.''] else fs)
      in \<lparr>iso_observation = obs, iso_policy = p,
          iso_findings = fs @ [iso_finding ''ISO-ApplyUnavailable'' SevHigh
            ''Raw Apply, adapter disablement, dynamic firewall rules, and scheduled rollback remain unavailable.''],
          iso_plan_blockers = blockers\<rparr>)"

fun blocker_debug :: "isolation_blocker \<Rightarrow> string" where
  "blocker_debug IncompleteRollbackEvidence = ''IncompleteRollbackEvidence''"
| "blocker_debug BreakGlassUnverified = ''BreakGlassUnverified''"
| "blocker_debug ManagedIsolationActive = ''ManagedIsolationActive''"
| "blocker_debug ManagedIsolationUnknown = ''ManagedIsolationUnknown''"

definition validate_emergency_isolation_preflight ::
    "emergency_isolation_observation \<Rightarrow> emergency_isolation_policy \<Rightarrow> string + unit" where
  "validate_emergency_isolation_preflight obs p =
     (let blockers = preflight_blockers obs p in
      if blockers = [] then Inr ()
      else Inl (''emergency-isolation preflight is incomplete or unsafe: ['' @ join_with '', '' (map blocker_debug blockers) @ '']''))"

text \<open>
  The loop of \<open>add_action_deltas\<close>. Its \<open>expect\<close> on the profile it looks for is the value \<open>None\<close>.
\<close>

fun add_action_deltas ::
    "isolation_snapshot list \<Rightarrow> firewall_profile list \<Rightarrow> emergency_isolation_action list \<Rightarrow>
     emergency_isolation_action list option" where
  "add_action_deltas ps [] actions = Some actions"
| "add_action_deltas ps (pr # prs) actions =
     (case find (\<lambda>s. iso_profile s = pr) ps of
        None \<Rightarrow> None
      | Some s \<Rightarrow>
          let actions = (if iso_inbound s = Present IsoAllow then actions @ [BlockInbound pr] else actions);
              actions = (if iso_outbound s = Present IsoAllow then actions @ [BlockOutbound pr] else actions)
          in add_action_deltas ps prs actions)"

definition build_emergency_isolation_plan ::
    "emergency_isolation_observation \<Rightarrow> emergency_isolation_policy \<Rightarrow> emergency_isolation_plan option" where
  "build_emergency_isolation_plan obs p =
     (let audit = evaluate_emergency_isolation obs p;
          plan = (\<lambda>actions. \<lparr>iso_audit = audit, iso_actions = actions, iso_rollback = iso_profiles (iso_observation audit),
            iso_apply_available = False, iso_reboot_required = False\<rparr>)
      in if iso_plan_blockers audit = []
         then map_option (\<lambda>actions. plan (if require_preprovisioned_break_glass p \<and> actions \<noteq> []
             then actions @ [PreservePreprovisionedBreakGlass] else actions))
           (add_action_deltas (iso_profiles (iso_observation audit)) fixed_profiles [])
         else Some (plan []))"

section \<open>What the proposals are worth\<close>

subsection \<open>Defender\<close>

datatype defender_setting = SetCfa | SetNp | SetNpServer | SetNpDownLevel | SetDatagram

definition defender_settings :: "defender_setting list" where
  "defender_settings = [SetCfa, SetNp, SetNpServer, SetNpDownLevel, SetDatagram]"

fun defender_differs :: "defender_ransomware_policy \<Rightarrow> defender_ransomware_observation \<Rightarrow> defender_setting \<Rightarrow> bool" where
  "defender_differs p obs SetCfa \<longleftrightarrow> is_present (seen_cfa obs) \<and> seen_cfa obs \<noteq> Present (dr_cfa p)"
| "defender_differs p obs SetNp \<longleftrightarrow> is_present (seen_np obs) \<and> seen_np obs \<noteq> Present (dr_np p)"
| "defender_differs p obs SetNpServer \<longleftrightarrow>
     seen_is_server obs = Present True \<and> dr_server_prereqs p \<and> seen_allow_np_server obs = Present False"
| "defender_differs p obs SetNpDownLevel \<longleftrightarrow>
     seen_is_server obs = Present True \<and> dr_server_prereqs p \<and> seen_allow_np_down_level obs = Present False"
| "defender_differs p obs SetDatagram \<longleftrightarrow>
     seen_is_server obs = Present True \<and> dr_disable_datagram p \<and> seen_allow_datagram obs = Present True"

fun set_defender :: "defender_ransomware_policy \<Rightarrow> defender_setting \<Rightarrow> defender_ransomware_observation \<Rightarrow> defender_ransomware_observation" where
  "set_defender p SetCfa obs = obs\<lparr>seen_cfa := Present (dr_cfa p)\<rparr>"
| "set_defender p SetNp obs = obs\<lparr>seen_np := Present (dr_np p)\<rparr>"
| "set_defender p SetNpServer obs = obs\<lparr>seen_allow_np_server := Present True\<rparr>"
| "set_defender p SetNpDownLevel obs = obs\<lparr>seen_allow_np_down_level := Present True\<rparr>"
| "set_defender p SetDatagram obs = obs\<lparr>seen_allow_datagram := Present False\<rparr>"

fun defender_change :: "defender_ransomware_policy \<Rightarrow> defender_setting \<Rightarrow> defender_ransomware_drift" where
  "defender_change p SetCfa = dr_drift ''EnableControlledFolderAccess'' (JString (cfa_text (dr_cfa p)))"
| "defender_change p SetNp = dr_drift ''EnableNetworkProtection'' (JString (np_text (dr_np p)))"
| "defender_change p SetNpServer = dr_drift ''AllowNetworkProtectionOnWinServer'' (JBool True)"
| "defender_change p SetNpDownLevel = dr_drift ''AllowNetworkProtectionDownLevel'' (JBool True)"
| "defender_change p SetDatagram = dr_drift ''AllowDatagramProcessingOnWinServer'' (JBool False)"

definition apply_defender_change ::
    "defender_ransomware_policy \<Rightarrow> defender_ransomware_drift \<Rightarrow> defender_ransomware_observation \<Rightarrow> defender_ransomware_observation" where
  "apply_defender_change p c obs =
     (case find (\<lambda>s. dr_field (defender_change p s) = dr_field c) defender_settings of
        Some s \<Rightarrow> set_defender p s obs
      | None \<Rightarrow> obs)"

interpretation defender: field_policy "\<lambda>_. defender_settings" defender_differs set_defender "\<lambda>_ _. True"
proof
  show "defender_differs p (set_defender p f obs) g \<longleftrightarrow> g \<noteq> f \<and> defender_differs p obs g" for p f obs g
    by (cases f; cases g) simp_all
qed (simp_all add: defender_settings_def)

lemma add_setting_drift_eq:
  "add_setting_drift js name observed desired cs =
     cs @ (if is_present observed \<and> observed \<noteq> Present desired then [dr_drift name (js desired)] else [])"
  by (cases observed) (simp_all add: add_setting_drift_def)

lemma defender_observation [simp]: "dr_observation (evaluate_defender_ransomware obs p) = obs"
  by (simp add: evaluate_defender_ransomware_def Let_def)

lemma defender_changes_eq:
  "dr_proposed_changes (build_defender_ransomware_plan obs p) = map (defender_change p) (defender.drift p obs)"
proof -
  have "dr_proposed_changes (build_defender_ransomware_plan obs p) =
      (if defender_differs p obs SetCfa then [defender_change p SetCfa] else []) @
      (if defender_differs p obs SetNp then [defender_change p SetNp] else []) @
      (if defender_differs p obs SetNpServer then [defender_change p SetNpServer] else []) @
      (if defender_differs p obs SetNpDownLevel then [defender_change p SetNpDownLevel] else []) @
      (if defender_differs p obs SetDatagram then [defender_change p SetDatagram] else [])"
    by (cases "seen_is_server obs = Present True"; cases "dr_server_prereqs p"; cases "dr_disable_datagram p")
      (simp_all add: build_defender_ransomware_plan_def add_setting_drift_eq Let_def)
  also have "\<dots> = map (defender_change p) (defender.drift p obs)"
    unfolding defender.drift_def unfolding defender_settings_def
    by (simp only: filter_Cons_if filter.simps(1) map_append map_if_list append_Nil2 list.map(1))
  finally show ?thesis .
qed

lemma defender_resumable:
  "resumable (\<lambda>obs. Inr (build_defender_ransomware_plan obs p) :: string + _) dr_proposed_changes (apply_defender_change p) obs"
proof (rule defender.resumableI [where enc = "defender_change p"])
  show "apply_defender_change p (defender_change p f) ob = set_defender p f ob" for f ob
    by (cases f) (simp_all add: apply_defender_change_def defender_settings_def dr_drift_def)
qed (simp_all add: defender_changes_eq)

subsection \<open>Emergency isolation\<close>

definition profile_deltas :: "isolation_snapshot \<Rightarrow> emergency_isolation_action list" where
  "profile_deltas s =
     (if iso_inbound s = Present IsoAllow then [BlockInbound (iso_profile s)] else []) @
     (if iso_outbound s = Present IsoAllow then [BlockOutbound (iso_profile s)] else [])"

lemma add_action_deltas_eq:
  assumes "\<forall>pr\<in>set prs. \<exists>s. find (\<lambda>s. iso_profile s = pr) ps = Some s"
  shows "add_action_deltas ps prs actions =
    Some (actions @ concat (map (\<lambda>pr. profile_deltas (the (find (\<lambda>s. iso_profile s = pr) ps))) prs))"
  using assms
proof (induction prs arbitrary: actions)
  case (Cons pr prs)
  then obtain s where s: "find (\<lambda>s. iso_profile s = pr) ps = Some s" by auto
  then have "iso_profile s = pr" by (auto simp: find_Some_iff)
  with Cons s show ?case by (simp add: profile_deltas_def Let_def)
qed simp

lemma complete_profiles_find:
  assumes "profiles_are_complete ps" "s \<in> set ps"
  shows "find (\<lambda>t. iso_profile t = iso_profile s) ps = Some s"
proof -
  have "card (set (map iso_profile ps)) = length (map iso_profile ps)"
    using assms(1) by (simp add: profiles_are_complete_def fixed_profiles_def del: set_map)
  then have "distinct (map iso_profile ps)" by (rule card_distinct)
  with assms(2) show ?thesis by (induction ps) (auto simp: rev_image_eqI)
qed

lemma complete_profiles_all:
  assumes "profiles_are_complete ps"
  shows "\<exists>s\<in>set ps. iso_profile s = pr"
proof -
  have "pr \<in> set (map iso_profile ps)"
    using assms distinct_fixed_profiles(2) by (simp add: profiles_are_complete_def)
  then show ?thesis by auto
qed

lemma isolation_simps [simp]:
  "iso_plan_blockers (evaluate_emergency_isolation obs p) = preflight_blockers obs p"
  "iso_observation (evaluate_emergency_isolation obs p) = obs"
  by (simp_all add: evaluate_emergency_isolation_def Let_def)

lemma preflight_clear:
  "preflight_blockers obs p = [] \<longleftrightarrow> profiles_are_complete (iso_profiles obs) \<and> managed_isolation_active obs = Present False \<and>
     (require_preprovisioned_break_glass p \<longrightarrow> is_present (break_glass_sha256 obs))"
  by (auto simp: preflight_blockers_def split: observation.splits if_splits)

lemma isolation_actions:
  assumes "preflight_blockers obs p = []"
  defines "deltas \<equiv> concat (map (\<lambda>pr. profile_deltas (the (find (\<lambda>s. iso_profile s = pr) (iso_profiles obs)))) fixed_profiles)"
  shows "\<exists>plan. build_emergency_isolation_plan obs p = Some plan \<and> iso_rollback plan = iso_profiles obs \<and>
    iso_actions plan = deltas @ (if require_preprovisioned_break_glass p \<and> deltas \<noteq> [] then [PreservePreprovisionedBreakGlass] else [])"
proof -
  have complete: "profiles_are_complete (iso_profiles obs)" using assms(1) by (simp add: preflight_clear)
  have "\<forall>pr\<in>set fixed_profiles. \<exists>s. find (\<lambda>s. iso_profile s = pr) (iso_profiles obs) = Some s"
    using complete_profiles_all [OF complete] complete_profiles_find [OF complete] by metis
  then show ?thesis
    using add_action_deltas_eq [of fixed_profiles "iso_profiles obs" "[]"] assms(1)
    by (simp add: build_emergency_isolation_plan_def deltas_def Let_def)
qed

lemma isolation_deltas:
  assumes "profiles_are_complete ps" "s \<in> set ps"
  defines "deltas \<equiv> concat (map (\<lambda>pr. profile_deltas (the (find (\<lambda>s. iso_profile s = pr) ps))) fixed_profiles)"
  shows "BlockInbound (iso_profile s) \<in> set deltas \<longleftrightarrow> iso_inbound s = Present IsoAllow"
    and "BlockOutbound (iso_profile s) \<in> set deltas \<longleftrightarrow> iso_outbound s = Present IsoAllow"
proof -
  have s: "find (\<lambda>t. iso_profile t = iso_profile s) ps = Some s" by (rule complete_profiles_find [OF assms(1,2)])
  have prof: "iso_profile (the (find (\<lambda>t. iso_profile t = pr) ps)) = pr" for pr
    using complete_profiles_all [OF assms(1)] complete_profiles_find [OF assms(1)] by (metis option.sel)
  show "BlockInbound (iso_profile s) \<in> set deltas \<longleftrightarrow> iso_inbound s = Present IsoAllow"
    using s prof by (auto simp: deltas_def profile_deltas_def distinct_fixed_profiles(2) split: if_splits intro: exI [of _ "iso_profile s"])
  show "BlockOutbound (iso_profile s) \<in> set deltas \<longleftrightarrow> iso_outbound s = Present IsoAllow"
    using s prof by (auto simp: deltas_def profile_deltas_def distinct_fixed_profiles(2) split: if_splits intro: exI [of _ "iso_profile s"])
qed

text \<open>
  C35: the isolation plan is always built and never proposes more or less than it should. Its rollback is the observed
  state of the profiles. While a preflight condition is not met it proposes nothing; otherwise it blocks a direction
  of a profile exactly when that direction was observed to be allowed.
\<close>

theorem isolation_plan_exact:
  "\<exists>plan. build_emergency_isolation_plan obs p = Some plan \<and> iso_rollback plan = iso_profiles obs \<and>
     (if profiles_are_complete (iso_profiles obs) \<and> managed_isolation_active obs = Present False \<and>
         (require_preprovisioned_break_glass p \<longrightarrow> is_present (break_glass_sha256 obs))
      then \<forall>s\<in>set (iso_profiles obs).
        (BlockInbound (iso_profile s) \<in> set (iso_actions plan) \<longleftrightarrow> iso_inbound s = Present IsoAllow) \<and>
        (BlockOutbound (iso_profile s) \<in> set (iso_actions plan) \<longleftrightarrow> iso_outbound s = Present IsoAllow)
      else iso_actions plan = [])"
proof (cases "preflight_blockers obs p = []")
  case True
  then have clear: "profiles_are_complete (iso_profiles obs) \<and> managed_isolation_active obs = Present False \<and>
      (require_preprovisioned_break_glass p \<longrightarrow> is_present (break_glass_sha256 obs))"
    unfolding preflight_clear .
  then show ?thesis
    using isolation_actions [OF True] isolation_deltas [of "iso_profiles obs"] by (fastforce split: if_splits)
next
  case False
  moreover from False have "\<not> (profiles_are_complete (iso_profiles obs) \<and> managed_isolation_active obs = Present False \<and>
      (require_preprovisioned_break_glass p \<longrightarrow> is_present (break_glass_sha256 obs)))"
    unfolding preflight_clear .
  ultimately show ?thesis by (simp add: build_emergency_isolation_plan_def Let_def) blast
qed

definition open_host :: emergency_isolation_observation where
  "open_host = \<lparr>iso_profiles = map (\<lambda>pr. \<lparr>iso_profile = pr, iso_inbound = Present IsoBlock, iso_outbound = Present IsoAllow\<rparr>) fixed_profiles,
     break_glass_sha256 = ObsMissing, managed_isolation_active = Present False\<rparr>"

theorem isolation_plan_exact_witness:
  "\<exists>plan. build_emergency_isolation_plan open_host \<lparr>require_preprovisioned_break_glass = False\<rparr> = Some plan \<and>
     BlockOutbound FwPublic \<in> set (iso_actions plan) \<and> BlockInbound FwPublic \<notin> set (iso_actions plan)"
proof -
  have "profiles_are_complete (iso_profiles open_host)" "managed_isolation_active open_host = Present False"
    "\<lparr>iso_profile = FwPublic, iso_inbound = Present IsoBlock, iso_outbound = Present IsoAllow\<rparr> \<in> set (iso_profiles open_host)"
    by (auto simp: open_host_def profiles_are_complete_def fixed_profiles_def)
  with isolation_plan_exact [of open_host "\<lparr>require_preprovisioned_break_glass = False\<rparr>"] show ?thesis by fastforce
qed

end
