(* ===== verification/Win_Path.thy ===== *)
theory Win_Path
  imports Rust_Prelude
begin

text \<open>
  Paths as the Windows target of the standard library reads them: \<open>std::path\<close> splits a text into an optional
  prefix, an optional root and the names between separators, and joins, compares and truncates paths by these
  components. A path is the list of its components.
\<close>

datatype path_prefix =
    Verbatim string
  | VerbatimUnc string string
  | VerbatimDisk char
  | DeviceNs string
  | Unc string string
  | Disk char

datatype component = CPrefix path_prefix | CRootDir | CCurDir | CParentDir | CNormal string

type_synonym path = "component list"

section \<open>Parsing\<close>

definition is_sep :: "char \<Rightarrow> bool" where
  "is_sep c \<longleftrightarrow> c = CHR ''/'' \<or> c = CHR 0x5C"

definition is_verbatim_sep :: "char \<Rightarrow> bool" where
  "is_verbatim_sep c \<longleftrightarrow> c = CHR 0x5C"

definition sep_char :: char where "sep_char = CHR 0x5C"

text \<open>\<open>parse_next_component\<close>: the text before the first separator and what follows it.\<close>

definition next_component :: "string \<Rightarrow> bool \<Rightarrow> string \<times> string" where
  "next_component s verbatim =
     (let sep = (if verbatim then is_verbatim_sep else is_sep) in
      (takeWhile (\<lambda>c. \<not> sep c) s, drop 1 (dropWhile (\<lambda>c. \<not> sep c) s)))"

text \<open>A slash in the first eight bytes reads as a backslash when a prefix is looked for.\<close>

definition norm_sep :: "char \<Rightarrow> char" where
  "norm_sep c = (if c = CHR ''/'' then sep_char else c)"

definition strip_norm :: "string \<Rightarrow> string \<Rightarrow> string option" where
  "strip_norm pre s = (if map norm_sep (take (length pre) s) = pre then Some (drop (length pre) s) else None)"

definition is_ascii_alphabetic :: "char \<Rightarrow> bool" where
  "is_ascii_alphabetic c \<longleftrightarrow> is_ascii_lowercase c \<or> is_ascii_uppercase c"

definition to_ascii_upper :: "char \<Rightarrow> char" where
  "to_ascii_upper c = (if is_ascii_lowercase c then char_of (of_char c - (32 :: nat)) else c)"

definition to_ascii_lower :: "char \<Rightarrow> char" where
  "to_ascii_lower c = (if is_ascii_uppercase c then char_of (of_char c + (32 :: nat)) else c)"

fun parse_drive :: "string \<Rightarrow> char option" where
  "parse_drive (d # c # s) =
     (if is_ascii_alphabetic d \<and> c = CHR '':'' then Some (to_ascii_upper d) else None)"
| "parse_drive _ = None"

definition parse_drive_exact :: "string \<Rightarrow> char option" where
  "parse_drive_exact s = (case drop 2 s of [] \<Rightarrow> parse_drive s | c # _ \<Rightarrow> if is_sep c then parse_drive s else None)"

definition parse_prefix :: "string \<Rightarrow> path_prefix option" where
  "parse_prefix s =
     (case strip_norm [sep_char, sep_char] s of
        None \<Rightarrow> map_option Disk (parse_drive s)
      | Some t \<Rightarrow>
          if take 4 s = [sep_char, sep_char, CHR ''?'', sep_char]
          then (case strip_norm (''UNC'' @ [sep_char]) (drop 4 s) of
              Some u \<Rightarrow> (let (server, rest) = next_component u True; (share, _) = next_component rest True
                        in Some (VerbatimUnc server share))
            | None \<Rightarrow> (case parse_drive_exact (drop 4 s) of
                  Some d \<Rightarrow> Some (VerbatimDisk d)
                | None \<Rightarrow> Some (Verbatim (fst (next_component (drop 4 s) True)))))
          else case strip_norm [CHR ''.'', sep_char] t of
              Some u \<Rightarrow> Some (DeviceNs (fst (next_component u False)))
            | None \<Rightarrow> (let (server, rest) = next_component t False; (share, _) = next_component rest False
                in if server \<noteq> [] \<and> share \<noteq> [] then Some (Unc server share) else None))"

fun prefix_len :: "path_prefix \<Rightarrow> nat" where
  "prefix_len (Verbatim x) = 4 + length x"
| "prefix_len (VerbatimUnc x y) = 8 + length x + (if y \<noteq> [] then 1 + length y else 0)"
| "prefix_len (VerbatimDisk _) = 6"
| "prefix_len (Unc x y) = 2 + length x + (if y \<noteq> [] then 1 + length y else 0)"
| "prefix_len (DeviceNs x) = 4 + length x"
| "prefix_len (Disk _) = 2"

fun prefix_is_verbatim :: "path_prefix \<Rightarrow> bool" where
  "prefix_is_verbatim (Verbatim _) = True"
| "prefix_is_verbatim (VerbatimUnc _ _) = True"
| "prefix_is_verbatim (VerbatimDisk _) = True"
| "prefix_is_verbatim _ = False"

fun has_implicit_root :: "path_prefix \<Rightarrow> bool" where
  "has_implicit_root (Disk _) = False"
| "has_implicit_root _ = True"

fun split_on :: "(char \<Rightarrow> bool) \<Rightarrow> string \<Rightarrow> string list" where
  "split_on sep [] = [[]]"
| "split_on sep (c # cs) =
     (let ws = split_on sep cs in if sep c then [] # ws else (c # hd ws) # tl ws)"

definition single_component :: "bool \<Rightarrow> string \<Rightarrow> component option" where
  "single_component verbatim w =
     (if w = ''.'' then (if verbatim then Some CCurDir else None)
      else if w = ''..'' then Some CParentDir
      else if w = [] then None
      else Some (CNormal w))"

definition body_components :: "bool \<Rightarrow> string \<Rightarrow> component list" where
  "body_components verbatim s =
     List.map_filter (single_component verbatim) (split_on (if verbatim then is_verbatim_sep else is_sep) s)"

text \<open>A leading dot names the current directory only in a path that has neither prefix nor root.\<close>

definition include_cur_dir :: "string \<Rightarrow> bool" where
  "include_cur_dir s = (case s of [c] \<Rightarrow> c = CHR ''.'' | c # d # _ \<Rightarrow> c = CHR ''.'' \<and> is_sep d | [] \<Rightarrow> False)"

definition components :: "string \<Rightarrow> path" where
  "components s =
     (case parse_prefix s of
        None \<Rightarrow>
          (if s \<noteq> [] \<and> is_sep (hd s) then CRootDir # body_components False (tl s)
           else if include_cur_dir s then CCurDir # body_components False (tl s)
           else body_components False s)
      | Some p \<Rightarrow>
          let rest = drop (prefix_len p) s; verbatim = prefix_is_verbatim p in
          CPrefix p #
          (if rest \<noteq> [] \<and> is_sep (hd rest) then CRootDir # body_components verbatim (tl rest)
           else if has_implicit_root p \<and> \<not> verbatim then CRootDir # body_components verbatim rest
           else body_components verbatim rest))"

section \<open>Operations\<close>

fun has_prefix :: "path \<Rightarrow> bool" where
  "has_prefix (CPrefix _ # _) = True"
| "has_prefix _ = False"

text \<open>An implicit root counts: every prefix but a drive has one.\<close>

fun has_root :: "path \<Rightarrow> bool" where
  "has_root (CRootDir # _) = True"
| "has_root (CPrefix p # cs) = (has_implicit_root p \<or> (cs \<noteq> [] \<and> hd cs = CRootDir))"
| "has_root _ = False"

definition is_absolute :: "path \<Rightarrow> bool" where
  "is_absolute p \<longleftrightarrow> has_root p \<and> has_prefix p"

definition path_starts_with :: "path \<Rightarrow> path \<Rightarrow> bool" where
  "path_starts_with p base \<longleftrightarrow> take (length base) p = base"

fun file_name :: "path \<Rightarrow> string option" where
  "file_name p = (if p = [] then None else case last p of CNormal n \<Rightarrow> Some n | _ \<Rightarrow> None)"

definition parent :: "path \<Rightarrow> path option" where
  "parent p = (if p = [] then None else case last p of
      CNormal _ \<Rightarrow> Some (butlast p) | CCurDir \<Rightarrow> Some (butlast p) | CParentDir \<Rightarrow> Some (butlast p) | _ \<Rightarrow> None)"

text \<open>
  \<open>join\<close>: a path with a prefix replaces the base, a rooted one keeps only its prefix, and any other is appended; a
  leading dot disappears behind a base.
\<close>

definition join_path :: "path \<Rightarrow> path \<Rightarrow> path" where
  "join_path base p =
     (if has_prefix p then p
      else if has_root p then takeWhile (\<lambda>c. \<exists>x. c = CPrefix x) (take 1 base) @ p
      else if base = [] then p
      else base @ (case p of CCurDir # cs \<Rightarrow> cs | _ \<Rightarrow> p))"

definition normal_names :: "path \<Rightarrow> string list option" where
  "normal_names p = (if list_all (\<lambda>c. case c of CNormal _ \<Rightarrow> True | _ \<Rightarrow> False) p
     then Some (map (\<lambda>c. case c of CNormal n \<Rightarrow> n | _ \<Rightarrow> []) p) else None)"

section \<open>Facts\<close>

text \<open>A name between separators.\<close>

definition plain_name :: "string \<Rightarrow> bool" where
  "plain_name n \<longleftrightarrow> n \<noteq> [] \<and> n \<noteq> ''.'' \<and> n \<noteq> ''..'' \<and> list_all (\<lambda>c. \<not> is_sep c) n"

lemma split_on_nonempty [simp]: "split_on sep s \<noteq> []"
  by (induction s) (auto simp: Let_def)

lemma split_on_chars: "\<forall>w\<in>set (split_on sep s). \<forall>c\<in>set w. c \<in> set s \<and> \<not> sep c"
proof (induction s)
  case (Cons d s)
  then show ?case
    by (cases "split_on sep s") (auto simp: Let_def)
qed simp

lemma body_components_normal:
  assumes "CNormal n \<in> set (body_components False s)"
  shows "plain_name n \<and> set n \<subseteq> set s"
proof -
  obtain w where w: "w \<in> set (split_on is_sep s)" "single_component False w = Some (CNormal n)"
    using assms by (auto simp: body_components_def map_filter_def)
  then have "w = n" "n \<noteq> []" "n \<noteq> ''.''" "n \<noteq> ''..''"
    by (auto simp: single_component_def split: if_splits)
  with w(1) split_on_chars [of is_sep s] show ?thesis
    by (auto simp: plain_name_def list_all_iff)
qed

lemma body_components_cases:
  "c \<in> set (body_components False s) \<Longrightarrow> c = CParentDir \<or> (\<exists>n. c = CNormal n)"
  by (auto simp: body_components_def map_filter_def single_component_def split: if_splits)

lemma components_normal:
  assumes "parse_prefix s = None \<or> (\<forall>c\<in>set (components s). \<exists>n. c = CNormal n)" "CNormal n \<in> set (components s)"
  shows "plain_name n \<and> set n \<subseteq> set s"
proof -
  have none: "parse_prefix s = None"
    using assms(1) by (auto simp: components_def Let_def split: option.splits)
  have tl: "set (tl s) \<subseteq> set s" by (cases s) auto
  show ?thesis
    using assms(2) none body_components_normal [of n s] body_components_normal [of n "tl s"] tl
    by (auto simp: components_def split: if_splits)
qed

end
