(* ===== verification/Evidence_Policies.thy ===== *)
theory Evidence_Policies
  imports Drift_Policy Win_Path
begin

text \<open>
  The capabilities that only report evidence: the ASR allow list of Defender (\<open>defender_asr_allowlist_policy.rs\<close>), update
  health (\<open>update_health_policy.rs\<close>), scheduled tasks (\<open>scheduled_tasks_policy.rs\<close>), WinGet (\<open>winget_policy.rs\<close>) and
  Sysmon (\<open>sysmon_policy.rs\<close>). What they share is that incomplete evidence is a finding: an audit without findings
  rests on complete evidence.
\<close>

definition evidence_finding :: "string \<Rightarrow> finding_status \<Rightarrow> severity \<Rightarrow> string \<Rightarrow> json_map \<Rightarrow> policy_finding" where
  "evidence_finding code status sev message evidence =
     \<lparr>pf_code = code, pf_status = status, pf_severity = sev, pf_message = message, pf_evidence = evidence\<rparr>"

section \<open>ASR allow list\<close>

text \<open>The counts are added in 32 bits, as a release build does.\<close>

record asr_rule_action_counts =
  asr_disabled :: "32 word"
  asr_block :: "32 word"
  asr_audit :: "32 word"
  asr_warn :: "32 word"
  asr_unsupported :: "32 word"

definition asr_record :: "32 word \<Rightarrow> asr_rule_action_counts \<Rightarrow> asr_rule_action_counts" where
  "asr_record v c =
     (if v = 0 then c\<lparr>asr_disabled := asr_disabled c + 1\<rparr>
      else if v = 1 then c\<lparr>asr_block := asr_block c + 1\<rparr>
      else if v = 2 then c\<lparr>asr_audit := asr_audit c + 1\<rparr>
      else if v = 6 then c\<lparr>asr_warn := asr_warn c + 1\<rparr>
      else c\<lparr>asr_unsupported := asr_unsupported c + 1\<rparr>)"

definition asr_total :: "asr_rule_action_counts \<Rightarrow> 32 word" where
  "asr_total c = asr_disabled c + asr_block c + asr_audit c + asr_warn c + asr_unsupported c"

record defender_asr_observation =
  asr_exclusion_count :: "32 word observation"
  asr_rule_actions :: "asr_rule_action_counts observation"

record defender_asr_audit =
  asr_observation :: defender_asr_observation
  asr_findings :: "policy_finding list"
  asr_exclusions :: "string list"

record defender_asr_plan =
  asr_plan_audit :: defender_asr_audit
  asr_mutation_count :: "32 word"
  asr_apply_available :: bool

definition asr_incomplete :: "string \<Rightarrow> 'a observation \<Rightarrow> policy_finding list \<Rightarrow> policy_finding list" where
  "asr_incomplete code v fs =
     fs @ [evidence_finding code FError SevHigh
       (''Required Defender ASR metadata is incomplete: '' @ observation_tag v @ ''.'') read_only_evidence]"

definition asr_count_finding :: "string \<Rightarrow> finding_status \<Rightarrow> severity \<Rightarrow> string \<Rightarrow> string \<Rightarrow> 32 word \<Rightarrow> policy_finding" where
  "asr_count_finding code status sev suffix key n =
     evidence_finding code status sev (nat_text (unat n) @ '' '' @ suffix) (json_map_from [(key, jnat (unat n))])"

definition evaluate_exclusion_count :: "32 word observation \<Rightarrow> policy_finding list \<Rightarrow> policy_finding list" where
  "evaluate_exclusion_count v fs =
     (case v of
        Present n \<Rightarrow>
          if n = 0 then fs
          else fs @ [evidence_finding ''ASR-Allowlist-EntriesPresent'' FWarning SevMedium
            (nat_text (unat n) @ '' ASR-only exclusion entr'' @ (if n = 1 then ''y is'' else ''ies are'') @
             '' present; contents were not collected.'')
            (json_map_from [(''asr_only_exclusion_count'', jnat (unat n))])]
      | other \<Rightarrow> asr_incomplete ''ASR-Allowlist-EvidenceIncomplete'' other fs)"

definition evaluate_rule_actions :: "asr_rule_action_counts observation \<Rightarrow> policy_finding list \<Rightarrow> policy_finding list" where
  "evaluate_rule_actions v fs =
     (case v of
        Present c \<Rightarrow>
          let fs = (if asr_total c = 0
                then fs @ [evidence_finding ''ASR-RuleActions-NotConfigured'' FWarning SevLow
                  ''No Defender ASR rule action metadata was returned by the fixed provider property.'' read_only_evidence] else fs);
              fs = (if asr_disabled c > 0
                then fs @ [asr_count_finding ''ASR-RuleActions-Disabled'' FWarning SevMedium
                  ''fixed ASR action value(s) are explicitly disabled.'' ''disabled'' (asr_disabled c)] else fs)
          in if asr_unsupported c > 0
             then fs @ [asr_count_finding ''ASR-RuleActions-Unsupported'' FError SevHigh
               ''ASR action value(s) are outside the supported fixed subset.'' ''unsupported'' (asr_unsupported c)] else fs
      | other \<Rightarrow> asr_incomplete ''ASR-RuleActions-EvidenceIncomplete'' other fs)"

definition asr_exclusion_texts :: "string list" where
  "asr_exclusion_texts = [
     ''Allowlist mutation, synchronization, and any Defender preference write are unavailable.'',
     ''ASR-only exclusion paths and Controlled Folder Access path/application entries are not collected.'',
     ''Defender exclusion paths, extensions, processes, and their contents are not collected.'',
     ''No caller-selected paths, commands, executable arguments, or arbitrary ASR rule identifiers are accepted.'',
     ''Legacy PowerShell capability 01 behavior and remediation are not used as an oracle or claimed as parity.'',
     ''Windows client and Server VM evidence is not included.'']"

definition evaluate_defender_asr :: "defender_asr_observation \<Rightarrow> defender_asr_audit" where
  "evaluate_defender_asr obs =
     (let fs = evaluate_rule_actions (asr_rule_actions obs) (evaluate_exclusion_count (asr_exclusion_count obs) [])
      in \<lparr>asr_observation = obs,
          asr_findings = fs @ [evidence_finding ''ASR-Allowlist-CoverageExcluded'' FWarning SevLow
            ''Only fixed Defender WMI aggregate metadata is observed; this is not a legacy-oracle or Windows VM parity claim.''
            read_only_evidence],
          asr_exclusions = asr_exclusion_texts\<rparr>)"

definition build_defender_asr_plan :: "defender_asr_observation \<Rightarrow> defender_asr_plan" where
  "build_defender_asr_plan obs =
     \<lparr>asr_plan_audit = evaluate_defender_asr obs, asr_mutation_count = 0, asr_apply_available = False\<rparr>"

section \<open>Update health\<close>

datatype update_health_service =
    UpdateHealth | UpdateOrchestrator | WindowsUpdateMedic | WindowsUpdateService | DeliveryOptimization | Bits
  | CryptographicServices

fun update_service_name :: "update_health_service \<Rightarrow> string" where
  "update_service_name UpdateHealth = ''uhssvc''"
| "update_service_name UpdateOrchestrator = ''UsoSvc''"
| "update_service_name WindowsUpdateMedic = ''WaaSMedicSvc''"
| "update_service_name WindowsUpdateService = ''wuauserv''"
| "update_service_name DeliveryOptimization = ''DoSvc''"
| "update_service_name Bits = ''BITS''"
| "update_service_name CryptographicServices = ''cryptsvc''"

definition fixed_update_health_services :: "update_health_service list" where
  "fixed_update_health_services = [UpdateHealth, UpdateOrchestrator, WindowsUpdateMedic, WindowsUpdateService,
     DeliveryOptimization, Bits, CryptographicServices]"

datatype update_health_task = WindowsUpdateScheduledStart | UpdateOrchestratorScheduleScan

definition windows_tasks_path :: string where
  "windows_tasks_path = backslash @ ''Microsoft'' @ backslash @ ''Windows'' @ backslash"

fun update_task_path :: "update_health_task \<Rightarrow> string" where
  "update_task_path WindowsUpdateScheduledStart = windows_tasks_path @ ''WindowsUpdate'' @ backslash @ ''Scheduled Start''"
| "update_task_path UpdateOrchestratorScheduleScan = windows_tasks_path @ ''UpdateOrchestrator'' @ backslash @ ''Schedule Scan''"

definition fixed_update_health_tasks :: "update_health_task list" where
  "fixed_update_health_tasks = [WindowsUpdateScheduledStart, UpdateOrchestratorScheduleScan]"

datatype task_state = TaskUnknown | TaskDisabled | TaskQueued | TaskReady | TaskRunning

record task_snapshot =
  task_enabled :: "bool observation"
  task_state_of :: "task_state observation"

record update_history_record =
  history_title :: string
  history_result_code :: int
  history_hresult :: int

record update_agent_metadata =
  total_history_count :: "32 word"
  recent_history :: "update_history_record list"

record update_health_observation =
  uh_services :: "(update_health_service \<times> service_observation observation) list"
  uh_tasks :: "(update_health_task \<times> task_snapshot observation) list"
  uh_update_agent :: "update_agent_metadata observation"

record update_health_audit =
  uh_observation :: update_health_observation
  uh_findings :: "policy_finding list"

record update_health_plan =
  uh_audit :: update_health_audit
  uh_mutation_count :: "8 word"

definition uh_incomplete :: "string \<Rightarrow> string \<Rightarrow> string \<Rightarrow> string \<Rightarrow> policy_finding list \<Rightarrow> policy_finding list" where
  "uh_incomplete code what identity state fs =
     fs @ [evidence_finding code FWarning SevMedium
       (''Required fixed '' @ what @ '' evidence is '' @ state @ '': '' @ identity @ ''.'')
       (json_map_from [(''read_only'', JBool True), (''identity_kind'', JString what), (''identity'', JString identity),
         (''observation_state'', JString state)])]"

definition uh_missing :: "string \<Rightarrow> string \<Rightarrow> policy_finding list \<Rightarrow> policy_finding list" where
  "uh_missing what identity fs = uh_incomplete ''UPDATE-FixedEvidenceMissing'' what identity ''missing'' fs"

definition evaluate_service_findings ::
    "(update_health_service \<times> service_observation observation) list \<Rightarrow> policy_finding list \<Rightarrow> policy_finding list" where
  "evaluate_service_findings services fs =
     fold (\<lambda>service fs.
       case map_of services service of
         Some (Present _) \<Rightarrow> fs
       | Some v \<Rightarrow> uh_incomplete ''UPDATE-ServiceEvidenceIncomplete'' ''service'' (update_service_name service) (observation_tag v) fs
       | None \<Rightarrow> uh_missing ''service'' (update_service_name service) fs) fixed_update_health_services fs"

definition evaluate_task_snapshot_findings ::
    "update_health_task \<Rightarrow> task_snapshot \<Rightarrow> policy_finding list \<Rightarrow> policy_finding list" where
  "evaluate_task_snapshot_findings task s fs =
     (let fs = (if \<not> is_present (task_enabled s)
          then uh_incomplete ''UPDATE-TaskEnabledEvidenceIncomplete'' ''task'' (update_task_path task)
            (observation_tag (task_enabled s)) fs else fs)
      in if \<not> is_present (task_state_of s)
         then uh_incomplete ''UPDATE-TaskStateEvidenceIncomplete'' ''task'' (update_task_path task)
           (observation_tag (task_state_of s)) fs else fs)"

definition evaluate_task_findings ::
    "(update_health_task \<times> task_snapshot observation) list \<Rightarrow> policy_finding list \<Rightarrow> policy_finding list" where
  "evaluate_task_findings tasks fs =
     fold (\<lambda>task fs.
       case map_of tasks task of
         Some (Present s) \<Rightarrow> evaluate_task_snapshot_findings task s fs
       | Some v \<Rightarrow> uh_incomplete ''UPDATE-TaskEvidenceIncomplete'' ''task'' (update_task_path task) (observation_tag v) fs
       | None \<Rightarrow> uh_missing ''task'' (update_task_path task) fs) fixed_update_health_tasks fs"

definition evaluate_update_agent_finding :: "update_agent_metadata observation \<Rightarrow> policy_finding list \<Rightarrow> policy_finding list" where
  "evaluate_update_agent_finding v fs =
     (if \<not> is_present v
      then uh_incomplete ''UPDATE-AgentEvidenceIncomplete'' ''update_agent'' ''Windows Update Agent COM'' (observation_tag v) fs
      else fs)"

definition evaluate_update_health :: "update_health_observation \<Rightarrow> update_health_audit" where
  "evaluate_update_health obs =
     \<lparr>uh_observation = obs, uh_findings = evaluate_update_agent_finding (uh_update_agent obs)
        (evaluate_task_findings (uh_tasks obs) (evaluate_service_findings (uh_services obs) []))\<rparr>"

definition build_update_health_plan :: "update_health_observation \<Rightarrow> update_health_plan" where
  "build_update_health_plan obs = \<lparr>uh_audit = evaluate_update_health obs, uh_mutation_count = 0\<rparr>"

section \<open>Scheduled tasks\<close>

datatype scheduled_task =
    StWindowsUpdateScheduledStart | StUpdateOrchestratorScheduleScan | StDiskCleanupSilentCleanup
  | StServicingStartComponentCleanup

fun scheduled_task_path :: "scheduled_task \<Rightarrow> string" where
  "scheduled_task_path StWindowsUpdateScheduledStart = windows_tasks_path @ ''WindowsUpdate'' @ backslash @ ''Scheduled Start''"
| "scheduled_task_path StUpdateOrchestratorScheduleScan = windows_tasks_path @ ''UpdateOrchestrator'' @ backslash @ ''Schedule Scan''"
| "scheduled_task_path StDiskCleanupSilentCleanup = windows_tasks_path @ ''DiskCleanup'' @ backslash @ ''SilentCleanup''"
| "scheduled_task_path StServicingStartComponentCleanup = windows_tasks_path @ ''Servicing'' @ backslash @ ''StartComponentCleanup''"

definition fixed_scheduled_tasks :: "scheduled_task list" where
  "fixed_scheduled_tasks = [StWindowsUpdateScheduledStart, StUpdateOrchestratorScheduleScan, StDiskCleanupSilentCleanup,
     StServicingStartComponentCleanup]"

record scheduled_tasks_observation =
  st_tasks :: "(scheduled_task \<times> task_snapshot observation) list"

record scheduled_tasks_audit =
  st_observation :: scheduled_tasks_observation
  st_findings :: "policy_finding list"

record scheduled_tasks_plan =
  st_audit :: scheduled_tasks_audit
  st_mutation_count :: "8 word"

definition st_finding :: "scheduled_task \<Rightarrow> string \<Rightarrow> finding_status \<Rightarrow> severity \<Rightarrow> string \<Rightarrow> policy_finding" where
  "st_finding task code status sev message =
     evidence_finding code status sev message
       (json_map_from [(''read_only'', JBool True), (''task_path'', JString (scheduled_task_path task))])"

definition st_incomplete :: "scheduled_task \<Rightarrow> string \<Rightarrow> string \<Rightarrow> policy_finding list \<Rightarrow> policy_finding list" where
  "st_incomplete task code state fs =
     fs @ [st_finding task code FWarning SevMedium (''Required scheduled-task evidence is incomplete: '' @ state @ ''.'')]"

definition st_missing :: "scheduled_task \<Rightarrow> policy_finding list \<Rightarrow> policy_finding list" where
  "st_missing task fs =
     fs @ [st_finding task ''TASK-Missing'' FFail SevHigh ''The exact legacy critical task is missing.'']"

definition evaluate_snapshot :: "scheduled_task \<Rightarrow> task_snapshot \<Rightarrow> policy_finding list \<Rightarrow> policy_finding list" where
  "evaluate_snapshot task s fs =
     (let fs = (case task_enabled s of
            Present e \<Rightarrow> if e then fs
              else fs @ [st_finding task ''TASK-Disabled'' FFail SevHigh ''The exact legacy critical task is disabled.'']
          | v \<Rightarrow> st_incomplete task ''TASK-EnabledIncomplete'' (observation_state v) fs)
      in case task_state_of s of
           Present st \<Rightarrow> if st = TaskUnknown
             then fs @ [st_finding task ''TASK-StateUnknown'' FWarning SevMedium ''Task Scheduler returned an unknown runtime state.'']
             else fs
         | v \<Rightarrow> st_incomplete task ''TASK-StateIncomplete'' (observation_state v) fs)"

definition evaluate_scheduled_tasks :: "scheduled_tasks_observation \<Rightarrow> scheduled_tasks_audit" where
  "evaluate_scheduled_tasks obs =
     \<lparr>st_observation = obs, st_findings = fold (\<lambda>task fs.
        case map_of (st_tasks obs) task of
          Some (Present s) \<Rightarrow> evaluate_snapshot task s fs
        | Some ObsMissing \<Rightarrow> st_missing task fs
        | None \<Rightarrow> st_missing task fs
        | Some v \<Rightarrow> st_incomplete task ''TASK-ObservationIncomplete'' (observation_state v) fs) fixed_scheduled_tasks []\<rparr>"

definition build_scheduled_tasks_plan :: "scheduled_tasks_observation \<Rightarrow> scheduled_tasks_plan" where
  "build_scheduled_tasks_plan obs = \<lparr>st_audit = evaluate_scheduled_tasks obs, st_mutation_count = 0\<rparr>"

section \<open>WinGet\<close>

definition winget_self_heal_id :: capability_id where "winget_self_heal_id = ''v3.winget.self-heal''"
definition winget_configuration_id :: capability_id where "winget_configuration_id = ''v3.winget.configuration''"

record winget_version =
  version_major_of :: "16 word"
  version_minor_of :: "16 word"
  version_patch_of :: "16 word"

datatype winget_executable =
    WingetLocated string string "winget_version observation"
  | WingetUntrustedPath string

record winget_observation =
  wg_executable :: "winget_executable observation"
  wg_source_count :: "16 word observation"
  wg_configuration_available :: "bool observation"

record winget_audit =
  wg_capability :: capability_id
  wg_observation :: winget_observation
  wg_findings :: "policy_finding list"

record winget_plan =
  wg_audit :: winget_audit
  wg_mutation_count :: "8 word"

definition decimal_value :: "string \<Rightarrow> nat" where
  "decimal_value s = foldl (\<lambda>n c. 10 * n + (of_char c - 48)) 0 s"

definition parse_component :: "string \<Rightarrow> 16 word option" where
  "parse_component s =
     (if s \<noteq> [] \<and> list_all is_ascii_digit s \<and> decimal_value s < 2 ^ 16 then Some (of_nat (decimal_value s)) else None)"

definition parse_winget_version :: "string \<Rightarrow> winget_version option" where
  "parse_winget_version s =
     (let s = (case s of c # cs \<Rightarrow> if c = CHR ''v'' then cs else s | [] \<Rightarrow> s) in
      case split_on (\<lambda>c. c = CHR ''.'') s of
        [a, b, c] \<Rightarrow>
          Option.bind (parse_component a) (\<lambda>major. Option.bind (parse_component b) (\<lambda>minor.
          Option.bind (parse_component c) (\<lambda>patch.
            Some \<lparr>version_major_of = major, version_minor_of = minor, version_patch_of = patch\<rparr>)))
      | _ \<Rightarrow> None)"

definition wg_finding :: "string \<Rightarrow> finding_status \<Rightarrow> severity \<Rightarrow> string \<Rightarrow> string \<Rightarrow> policy_finding list \<Rightarrow> policy_finding list" where
  "wg_finding code status sev message state fs =
     fs @ [evidence_finding code status sev message
       (json_map_from [(''read_only'', JBool True), (''state'', JString state)])]"

definition wg_incomplete :: "'a observation \<Rightarrow> string \<Rightarrow> policy_finding list \<Rightarrow> policy_finding list" where
  "wg_incomplete v code fs =
     (if \<not> is_present v
      then wg_finding code FWarning SevMedium ''Required read-only WinGet evidence is incomplete.'' (observation_tag v) fs
      else fs)"

definition executable_findings :: "winget_executable observation \<Rightarrow> policy_finding list \<Rightarrow> policy_finding list" where
  "executable_findings v fs =
     (case v of
        Present (WingetLocated _ _ version) \<Rightarrow> wg_incomplete version ''WINGET-VersionEvidenceIncomplete'' fs
      | Present (WingetUntrustedPath _) \<Rightarrow>
          wg_finding ''WINGET-AppPathUntrusted'' FWarning SevHigh
            ''The fixed WinGet App Paths value is not a safe absolute evidence path.'' ''untrusted'' fs
      | other \<Rightarrow> wg_incomplete other ''WINGET-AppInstallerEvidenceIncomplete'' fs)"

definition source_findings :: "16 word observation \<Rightarrow> policy_finding list \<Rightarrow> policy_finding list" where
  "source_findings v fs =
     (case v of
        Present n \<Rightarrow>
          if n = 0
          then wg_finding ''WINGET-SourceInventoryEmpty'' FWarning SevMedium
            ''The bounded WinGet source inventory is empty.'' ''empty'' fs
          else fs
      | other \<Rightarrow> wg_incomplete other ''WINGET-SourceEvidenceIncomplete'' fs)"

definition configuration_findings :: "bool observation \<Rightarrow> policy_finding list \<Rightarrow> policy_finding list" where
  "configuration_findings v fs =
     (case v of
        Present available \<Rightarrow>
          if \<not> available
          then wg_finding ''WINGET-ConfigurationUnavailable'' FWarning SevMedium
            ''The package API reported no WinGet configuration capability.'' ''unavailable'' fs
          else fs
      | other \<Rightarrow> wg_incomplete other ''WINGET-ConfigurationEvidenceIncomplete'' fs)"

definition winget_evaluate :: "capability_id \<Rightarrow> winget_observation \<Rightarrow> bool \<Rightarrow> winget_audit" where
  "winget_evaluate ident obs configuration_required =
     (let fs = source_findings (wg_source_count obs) (executable_findings (wg_executable obs) []);
          fs = (if configuration_required then configuration_findings (wg_configuration_available obs) fs else fs)
      in \<lparr>wg_capability = ident, wg_observation = obs, wg_findings = fs\<rparr>)"

definition evaluate_winget_self_heal :: "winget_observation \<Rightarrow> winget_audit" where
  "evaluate_winget_self_heal obs = winget_evaluate winget_self_heal_id obs False"

definition evaluate_winget_configuration :: "winget_observation \<Rightarrow> winget_audit" where
  "evaluate_winget_configuration obs = winget_evaluate winget_configuration_id obs True"

definition build_winget_plan :: "winget_audit \<Rightarrow> winget_plan" where
  "build_winget_plan audit = \<lparr>wg_audit = audit, wg_mutation_count = 0\<rparr>"

section \<open>Sysmon\<close>

record event_log_record =
  event_provider :: string
  event_id :: "32 word"
  event_level :: "8 word"
  time_created :: string
  event_record_id :: "64 word"
  event_xml :: "string observation"
  event_message :: "string observation option"

record event_log_observation =
  event_records :: "event_log_record observation list"
  enumeration_complete :: bool

record sysmon_policy =
  expected_config_sha256 :: "string option"
  include_operational_events :: bool

definition sysmon_policy_default :: sysmon_policy where
  "sysmon_policy_default = \<lparr>expected_config_sha256 = None, include_operational_events = True\<rparr>"

datatype sysmon_service_identity = Sysmon64 | Sysmon32
datatype sysmon_signature = MicrosoftSubjectVerified | SignatureUntrusted

record sysmon_binary =
  binary_bytes :: u64
  binary_sha256 :: string
  binary_signature :: sysmon_signature

datatype sysmon_image = ImageVerified sysmon_binary | ImageUntrusted

record sysmon_service =
  sysmon_identity :: sysmon_service_identity
  sysmon_state :: service_state
  sysmon_start_mode :: service_start_mode
  sysmon_binary_of :: "sysmon_image observation"

record sysmon_observation =
  sysmon_services :: "sysmon_service observation list"
  config_hash_indicator :: "string observation"
  operational_events :: "event_log_observation observation"

record sysmon_audit =
  sysmon_observation_of :: sysmon_observation
  sysmon_findings :: "policy_finding list"

record sysmon_plan =
  sysmon_audit_of :: sysmon_audit
  sysmon_no_mutation :: bool
  sysmon_next_step :: string

definition deserialize_expected_digest :: "string option \<Rightarrow> string + string option" where
  "deserialize_expected_digest v =
     (case v of
        Some s \<Rightarrow>
          if length s \<noteq> 64 \<or> \<not> list_all (\<lambda>c. is_ascii_digit c \<or> (CHR ''a'' \<le> c \<and> c \<le> CHR ''f'')) s
          then Inl ''expected_config_sha256 must be exactly 64 lowercase hexadecimal characters'' else Inr v
      | None \<Rightarrow> Inr v)"

definition sysmon_finding :: "string \<Rightarrow> finding_status \<Rightarrow> severity \<Rightarrow> string \<Rightarrow> policy_finding" where
  "sysmon_finding code status sev message = evidence_finding code status sev message read_only_evidence"

definition sysmon_incomplete :: "string \<Rightarrow> 'a observation \<Rightarrow> policy_finding list \<Rightarrow> policy_finding list" where
  "sysmon_incomplete code v fs =
     fs @ [evidence_finding code FWarning SevMedium ''Required Sysmon evidence is incomplete.''
       (json_map_from [(''observation'', JString (observation_tag v))])]"

definition evaluate_present_service :: "sysmon_service \<Rightarrow> policy_finding list \<Rightarrow> policy_finding list" where
  "evaluate_present_service s fs =
     (let fs = (if sysmon_state s \<noteq> ServiceRunning
          then fs @ [sysmon_finding ''SYSMON-ServiceNotRunning'' FWarning SevMedium
            ''A fixed Sysmon service exists but is not running.''] else fs)
      in case sysmon_binary_of s of
           Present (ImageVerified binary) \<Rightarrow>
             if binary_signature binary = SignatureUntrusted
             then fs @ [sysmon_finding ''SYSMON-ImageSignatureUntrusted'' FFail SevHigh
               ''The fixed Sysmon service image did not prove the expected Microsoft signature subject.''] else fs
         | Present ImageUntrusted \<Rightarrow>
             fs @ [sysmon_finding ''SYSMON-ImagePathUntrusted'' FFail SevHigh
               ''The fixed Sysmon service image path violated the read-only trust boundary.'']
         | v \<Rightarrow> sysmon_incomplete ''SYSMON-ImageEvidenceIncomplete'' v fs)"

definition evaluate_services :: "sysmon_service observation list \<Rightarrow> policy_finding list \<Rightarrow> policy_finding list" where
  "evaluate_services services fs =
     (let fs = (if length services \<noteq> 2
          then fs @ [sysmon_finding ''SYSMON-ServiceSetIncomplete'' FWarning SevHigh
            ''The fixed Sysmon service observation set was incomplete.''] else fs);
          (present, fs) = fold (\<lambda>service (present, fs).
              case service of
                Present s \<Rightarrow> (True, evaluate_present_service s fs)
              | ObsMissing \<Rightarrow> (present, fs)
              | v \<Rightarrow> (present, sysmon_incomplete ''SYSMON-ServiceEvidenceIncomplete'' v fs)) (take 2 services) (False, fs)
      in if \<not> present \<and> list_all (\<lambda>v. v = ObsMissing) services
         then fs @ [sysmon_finding ''SYSMON-NotInstalled'' FWarning SevMedium
           ''Neither fixed Sysmon service identity is installed.''] else fs)"

definition evaluate_config_hash :: "string observation \<Rightarrow> string option \<Rightarrow> policy_finding list \<Rightarrow> policy_finding list" where
  "evaluate_config_hash indicator expected fs =
     (case (indicator, expected) of
        (Present actual, Some e) \<Rightarrow>
          if actual = e then fs
          else fs @ [sysmon_finding ''SYSMON-ConfigDigestMismatch'' FFail SevHigh
            ''The proven runtime configuration digest differs from the requested exact digest.'']
      | (Present _, None) \<Rightarrow>
          fs @ [sysmon_finding ''SYSMON-ConfigDigestUnpinned'' FInfo SevInfo
            ''A runtime configuration digest was observed without a requested comparison digest.'']
      | (v, _) \<Rightarrow> sysmon_incomplete ''SYSMON-ConfigHashIndicatorIncomplete'' v fs)"

definition evaluate_events :: "event_log_observation observation \<Rightarrow> policy_finding list \<Rightarrow> policy_finding list" where
  "evaluate_events events fs =
     (case events of
        Present log \<Rightarrow>
          let fs = fold (\<lambda>event fs.
                case event of
                  Present e \<Rightarrow>
                    if event_id e = 255
                    then fs @ [sysmon_finding ''SYSMON-OperationalError'' FFail SevHigh
                      ''The bounded Sysmon Operational log contains an internal-error indicator.'']
                    else if event_id e = 16
                    then fs @ [sysmon_finding ''SYSMON-ConfigurationChanged'' FInfo SevInfo
                      ''The bounded Sysmon Operational log contains a configuration-change indicator.'']
                    else fs
                | v \<Rightarrow> sysmon_incomplete ''SYSMON-OperationalRecordIncomplete'' v fs) (event_records log) fs
          in if \<not> enumeration_complete log
             then fs @ [sysmon_finding ''SYSMON-OperationalEnumerationIncomplete'' FWarning SevMedium
               ''Sysmon Operational Event Log enumeration reached a fixed bound or ended incompletely.''] else fs
      | v \<Rightarrow> sysmon_incomplete ''SYSMON-OperationalEvidenceIncomplete'' v fs)"

definition evaluate_sysmon :: "sysmon_observation \<Rightarrow> sysmon_policy \<Rightarrow> sysmon_audit" where
  "evaluate_sysmon obs p =
     (let fs = evaluate_config_hash (config_hash_indicator obs) (expected_config_sha256 p)
            (evaluate_services (sysmon_services obs) []);
          fs = (if include_operational_events p then evaluate_events (operational_events obs) fs else fs)
      in \<lparr>sysmon_observation_of = obs, sysmon_findings = fs\<rparr>)"

definition build_sysmon_plan :: "sysmon_audit \<Rightarrow> sysmon_plan" where
  "build_sysmon_plan audit = \<lparr>sysmon_audit_of = audit, sysmon_no_mutation = True,
     sysmon_next_step = ''Review bounded evidence; configuration retrieval and all Sysmon changes are excluded.''\<rparr>"

section \<open>An audit without findings rests on complete evidence\<close>

text \<open>
  A check that only ever appends findings leaves none exactly when it started from none and its condition held. The
  locale states this once for the loops over fixed lists.
\<close>

locale appending_check =
  fixes check :: "'x \<Rightarrow> policy_finding list \<Rightarrow> policy_finding list" and clean :: "'x \<Rightarrow> bool"
  assumes check_Nil: "check x fs = [] \<longleftrightarrow> fs = [] \<and> clean x"
begin

lemma fold_check_Nil: "fold check xs fs = [] \<longleftrightarrow> fs = [] \<and> (\<forall>x\<in>set xs. clean x)"
  by (induction xs arbitrary: fs) (auto simp: check_Nil)

end

interpretation service_check: appending_check
    "\<lambda>service fs. case map_of services service of
         Some (Present _) \<Rightarrow> fs
       | Some v \<Rightarrow> uh_incomplete ''UPDATE-ServiceEvidenceIncomplete'' ''service'' (update_service_name service) (observation_tag v) fs
       | None \<Rightarrow> uh_missing ''service'' (update_service_name service) fs"
    "\<lambda>service. \<exists>v. map_of services service = Some (Present v)" for services
  by unfold_locales (auto simp: uh_incomplete_def uh_missing_def split: option.split observation.split)

interpretation task_check: appending_check
    "\<lambda>task fs. case map_of tasks task of
         Some (Present s) \<Rightarrow> evaluate_task_snapshot_findings task s fs
       | Some v \<Rightarrow> uh_incomplete ''UPDATE-TaskEvidenceIncomplete'' ''task'' (update_task_path task) (observation_tag v) fs
       | None \<Rightarrow> uh_missing ''task'' (update_task_path task) fs"
    "\<lambda>task. \<exists>s. map_of tasks task = Some (Present s) \<and> is_present (task_enabled s) \<and> is_present (task_state_of s)" for tasks
  by unfold_locales
    (auto simp: uh_incomplete_def uh_missing_def evaluate_task_snapshot_findings_def Let_def split: option.split observation.split)

interpretation scheduled_check: appending_check
    "\<lambda>task fs. case map_of tasks task of
          Some (Present s) \<Rightarrow> evaluate_snapshot task s fs
        | Some ObsMissing \<Rightarrow> st_missing task fs
        | None \<Rightarrow> st_missing task fs
        | Some v \<Rightarrow> st_incomplete task ''TASK-ObservationIncomplete'' (observation_state v) fs"
    "\<lambda>task. \<exists>s. map_of tasks task = Some (Present s) \<and> task_enabled s = Present True \<and>
       is_present (task_state_of s) \<and> task_state_of s \<noteq> Present TaskUnknown" for tasks
  by unfold_locales
    (auto simp: st_incomplete_def st_missing_def evaluate_snapshot_def Let_def split: option.split observation.split)

interpretation event_check: appending_check
    "\<lambda>event fs. case event of
         Present e \<Rightarrow>
           if event_id e = 255
           then fs @ [sysmon_finding ''SYSMON-OperationalError'' FFail SevHigh
             ''The bounded Sysmon Operational log contains an internal-error indicator.'']
           else if event_id e = 16
           then fs @ [sysmon_finding ''SYSMON-ConfigurationChanged'' FInfo SevInfo
             ''The bounded Sysmon Operational log contains a configuration-change indicator.'']
           else fs
       | v \<Rightarrow> sysmon_incomplete ''SYSMON-OperationalRecordIncomplete'' v fs"
    "\<lambda>event. \<exists>e. event = Present e \<and> event_id e \<notin> {16, 255}"
  by unfold_locales (auto simp: sysmon_incomplete_def split: observation.split)

lemma update_health_clean:
  "uh_findings (evaluate_update_health obs) = [] \<longleftrightarrow>
     (\<forall>s\<in>set fixed_update_health_services. \<exists>v. map_of (uh_services obs) s = Some (Present v)) \<and>
     (\<forall>t\<in>set fixed_update_health_tasks. \<exists>s. map_of (uh_tasks obs) t = Some (Present s) \<and>
        is_present (task_enabled s) \<and> is_present (task_state_of s)) \<and> is_present (uh_update_agent obs)"
  by (simp add: evaluate_update_health_def evaluate_update_agent_finding_def evaluate_task_findings_def
      evaluate_service_findings_def task_check.fold_check_Nil service_check.fold_check_Nil uh_incomplete_def)

lemma scheduled_tasks_clean:
  "st_findings (evaluate_scheduled_tasks obs) = [] \<longleftrightarrow>
     (\<forall>t\<in>set fixed_scheduled_tasks. \<exists>s. map_of (st_tasks obs) t = Some (Present s) \<and> task_enabled s = Present True \<and>
        is_present (task_state_of s) \<and> task_state_of s \<noteq> Present TaskUnknown)"
  by (simp add: evaluate_scheduled_tasks_def scheduled_check.fold_check_Nil)

lemma winget_clean:
  "wg_findings (winget_evaluate ident obs required) = [] \<longleftrightarrow>
     (\<exists>family path version. wg_executable obs = Present (WingetLocated family path version) \<and> is_present version) \<and>
     (\<exists>n. wg_source_count obs = Present n \<and> n \<noteq> 0) \<and>
     (required \<longrightarrow> wg_configuration_available obs = Present True)"
  by (cases "wg_executable obs"; cases "wg_source_count obs"; cases "wg_configuration_available obs")
    (auto simp: winget_evaluate_def executable_findings_def source_findings_def configuration_findings_def wg_incomplete_def
      wg_finding_def Let_def split: winget_executable.splits)

definition sysmon_healthy :: "sysmon_service \<Rightarrow> bool" where
  "sysmon_healthy s \<longleftrightarrow> sysmon_state s = ServiceRunning \<and>
     (\<exists>binary. sysmon_binary_of s = Present (ImageVerified binary) \<and> binary_signature binary = MicrosoftSubjectVerified)"

lemma present_service_Nil: "evaluate_present_service s fs = [] \<longleftrightarrow> fs = [] \<and> sysmon_healthy s"
proof -
  have sig: "g = MicrosoftSubjectVerified \<longleftrightarrow> g \<noteq> SignatureUntrusted" for g by (cases g) simp_all
  show ?thesis
    by (auto simp: evaluate_present_service_def sysmon_healthy_def sysmon_incomplete_def sig Let_def
        split: observation.split sysmon_image.split)
qed

lemma services_fold:
  defines "step \<equiv> \<lambda>service (present, fs).
              case service of
                Present s \<Rightarrow> (True, evaluate_present_service s fs)
              | ObsMissing \<Rightarrow> (present, fs)
              | v \<Rightarrow> (present, sysmon_incomplete ''SYSMON-ServiceEvidenceIncomplete'' v fs)"
  shows "fst (fold step xs (b, fs)) \<longleftrightarrow> b \<or> list_ex is_present xs"
    and "snd (fold step xs (b, fs)) = [] \<longleftrightarrow>
      fs = [] \<and> (\<forall>v\<in>set xs. v = ObsMissing \<or> (\<exists>s. v = Present s \<and> sysmon_healthy s))"
  by (induction xs arbitrary: b fs)
    (auto simp: step_def present_service_Nil sysmon_incomplete_def split: observation.split)

lemma evaluate_services_Nil:
  "evaluate_services services [] = [] \<longleftrightarrow>
     length services = 2 \<and> (\<forall>v\<in>set services. v = ObsMissing \<or> (\<exists>s. v = Present s \<and> sysmon_healthy s)) \<and>
     (\<exists>v\<in>set services. v \<noteq> ObsMissing)"
proof -
  obtain present fs where run: "fold (\<lambda>service (present, fs).
              case service of
                Present s \<Rightarrow> (True, evaluate_present_service s fs)
              | ObsMissing \<Rightarrow> (present, fs)
              | v \<Rightarrow> (present, sysmon_incomplete ''SYSMON-ServiceEvidenceIncomplete'' v fs)) (take 2 services)
      (False, if length services \<noteq> 2
          then [] @ [sysmon_finding ''SYSMON-ServiceSetIncomplete'' FWarning SevHigh
            ''The fixed Sysmon service observation set was incomplete.''] else []) = (present, fs)"
    by fastforce
  have present: "present \<longleftrightarrow> list_ex is_present (take 2 services)"
    and fs: "fs = [] \<longleftrightarrow> length services = 2 \<and> (\<forall>v\<in>set (take 2 services). v = ObsMissing \<or> (\<exists>s. v = Present s \<and> sysmon_healthy s))"
    using services_fold [of "take 2 services" False "if length services \<noteq> 2
          then [] @ [sysmon_finding ''SYSMON-ServiceSetIncomplete'' FWarning SevHigh
            ''The fixed Sysmon service observation set was incomplete.''] else []"] run by (auto split: if_splits)
  have "evaluate_services services [] = [] \<longleftrightarrow> fs = [] \<and> (present \<or> \<not> list_all (\<lambda>v. v = ObsMissing) services)"
    using run by (simp add: evaluate_services_def Let_def)
  then show ?thesis
    unfolding fs present by (auto simp: list_all_iff list_ex_iff is_present_iff)
qed

lemma config_hash_Nil:
  "evaluate_config_hash v e fs = [] \<longleftrightarrow> fs = [] \<and> (\<exists>h. v = Present h \<and> e = Some h)"
  by (auto simp: evaluate_config_hash_def sysmon_incomplete_def split: observation.split option.split)

lemma events_Nil:
  "evaluate_events v fs = [] \<longleftrightarrow> fs = [] \<and> (\<exists>log. v = Present log \<and> enumeration_complete log \<and>
     (\<forall>r\<in>set (event_records log). \<exists>e. r = Present e \<and> event_id e \<notin> {16, 255}))"
  by (cases v) (auto simp: evaluate_events_def sysmon_incomplete_def [of "''SYSMON-OperationalEvidenceIncomplete''"]
      event_check.fold_check_Nil Let_def)

lemma sysmon_clean:
  "sysmon_findings (evaluate_sysmon obs p) = [] \<longleftrightarrow>
     evaluate_services (sysmon_services obs) [] = [] \<and>
     (\<exists>h. config_hash_indicator obs = Present h \<and> expected_config_sha256 p = Some h) \<and>
     (include_operational_events p \<longrightarrow> (\<exists>log. operational_events obs = Present log \<and> enumeration_complete log \<and>
        (\<forall>r\<in>set (event_records log). \<exists>e. r = Present e \<and> event_id e \<notin> {16, 255})))"
  by (auto simp: evaluate_sysmon_def config_hash_Nil events_Nil Let_def)



end
