(* ===== verification/Capability_Registry.thy ===== *)
theory Capability_Registry
  imports Domain_Model
begin

text \<open>
  The compile-time capability registry of \<open>baselineops-capabilities/src\<close>: the descriptor types of \<open>types.rs\<close>,
  the catalog of the fifty-two capabilities of \<open>catalog.rs\<close>, the queries and the guarded execution of
  \<open>registry.rs\<close>, and the dispatch of the engine, \<open>baselineops-engine/src/native_registry.rs\<close>. The native
  executors behind the dispatch observe Windows; they are the function \<open>native\<close>.
\<close>

section \<open>Descriptors\<close>

datatype cap_operation = CapAudit | CapPlan | CapApply

record operations =
  ops_audit :: bool
  ops_plan :: bool
  ops_apply :: bool

fun supports :: "operations \<Rightarrow> cap_operation \<Rightarrow> bool" where
  "supports ops CapAudit = ops_audit ops"
| "supports ops CapPlan = ops_plan ops"
| "supports ops CapApply = ops_apply ops"

datatype cap_privilege = StandardUser | ElevatedForApply | AdministratorRequired
datatype cap_risk = RegLow | RegMedium | RegHigh | RegCritical
datatype cap_reversibility = RevNotApplicable | RevReversible | RevManualRecovery | RevNotReversible
datatype cap_reboot = RebootNo | RebootPossible | RebootRequired
datatype implementation_maturity = LegacyOnly | InDevelopment | CodeComplete | NativeImplemented
datatype apply_eligibility = EligibilityNotApplicable | EvidenceRequired | EligibilityEnabled

definition is_enabled :: "apply_eligibility \<Rightarrow> bool" where
  "is_enabled e \<longleftrightarrow> (case e of EligibilityEnabled \<Rightarrow> True | _ \<Rightarrow> False)"

record native_apply_handler =
  action_schema_version :: nat

datatype native_handler =
    HandlerDefenderAsrAllowlist | HandlerLapsHygiene | HandlerLocalAdmins | HandlerOfficeBrowser
  | HandlerWindowsUpdate | HandlerUpdateHealth | HandlerScheduledTasks | HandlerWinget
  | HandlerSupportBundleCollect | HandlerSupportBundleParse | HandlerDefenderIocSweep | HandlerArtifactGrabber
  | HandlerBootSecurity | HandlerRemoteGuardrails | HandlerHardwareTrust | HandlerSysmon
  | HandlerFirewallBaseline | HandlerInventory | HandlerEmergencyIsolation | HandlerSmbEncryption
  | HandlerCertHealth | HandlerWaveOne | HandlerNetworkServices | HandlerPowerShellLogging
  | HandlerFirewallLogging | HandlerAdvancedAudit | HandlerWefTime | HandlerStorageBackup
  | HandlerRemoteWdag | HandlerSecurityOptions | HandlerWaveTwo | HandlerApplicationControl
  | HandlerAppControl | HandlerDefenderRansomware

text \<open>\<open>None\<close> is the panic for a number outside the registry.\<close>

definition for_legacy :: "nat \<Rightarrow> native_handler option" where
  "for_legacy number =
     (if number = 1 then Some HandlerDefenderAsrAllowlist
      else if number = 2 then Some HandlerLapsHygiene
      else if number = 3 then Some HandlerLocalAdmins
      else if number = 4 then Some HandlerOfficeBrowser
      else if number = 5 then Some HandlerWindowsUpdate
      else if number = 6 then Some HandlerUpdateHealth
      else if number = 7 then Some HandlerScheduledTasks
      else if number = 8 \<or> number = 25 then Some HandlerWinget
      else if number = 9 then Some HandlerSupportBundleCollect
      else if number = 10 then Some HandlerSupportBundleParse
      else if number = 11 then Some HandlerDefenderIocSweep
      else if number = 12 then Some HandlerArtifactGrabber
      else if number = 13 \<or> number = 39 \<or> number = 40 then Some HandlerBootSecurity
      else if number = 14 then Some HandlerRemoteGuardrails
      else if number = 15 \<or> number = 23 \<or> number = 46 then Some HandlerHardwareTrust
      else if number = 16 \<or> number = 17 then Some HandlerSysmon
      else if number = 18 then Some HandlerFirewallBaseline
      else if number = 19 \<or> number = 20 \<or> number = 26 then Some HandlerInventory
      else if number = 21 then Some HandlerEmergencyIsolation
      else if number = 22 then Some HandlerSmbEncryption
      else if number = 24 then Some HandlerCertHealth
      else if number = 27 \<or> number = 28 then Some HandlerWaveOne
      else if number = 29 \<or> number = 30 then Some HandlerNetworkServices
      else if number = 31 then Some HandlerPowerShellLogging
      else if number = 32 then Some HandlerFirewallLogging
      else if number = 33 then Some HandlerAdvancedAudit
      else if number = 34 \<or> number = 45 then Some HandlerWefTime
      else if number = 35 \<or> number = 36 then Some HandlerStorageBackup
      else if number = 37 \<or> number = 47 then Some HandlerRemoteWdag
      else if number = 38 then Some HandlerSecurityOptions
      else if number = 41 \<or> number = 52 then Some HandlerWaveTwo
      else if number = 42 \<or> number = 48 \<or> number = 49 \<or> number = 50 \<or> number = 51 then Some HandlerApplicationControl
      else if number = 43 then Some HandlerAppControl
      else if number = 44 then Some HandlerDefenderRansomware
      else None)"

datatype batch = BatchAudit | BatchRemediation | BatchCollection | BatchUtility | BatchMonitoring | BatchAll

record capability_descriptor =
  legacy_number :: nat
  descriptor_id :: capability_id
  display_name :: string
  legacy_script :: string
  description :: string
  wave :: nat
  descriptor_operations :: operations
  descriptor_privilege :: cap_privilege
  descriptor_risk :: cap_risk
  descriptor_reversibility :: cap_reversibility
  descriptor_reboot :: cap_reboot
  requirements :: "string list"
  maturity :: implementation_maturity
  native_handler_of :: native_handler
  eligibility :: apply_eligibility
  apply_handler :: "native_apply_handler option"
  batches :: "batch list"

section \<open>The catalog\<close>

definition ops_a :: operations where "ops_a = \<lparr>ops_audit = True, ops_plan = True, ops_apply = False\<rparr>"
definition ops_ap :: operations where "ops_ap = \<lparr>ops_audit = True, ops_plan = True, ops_apply = True\<rparr>"
definition ops_audit_plan :: operations where
  "ops_audit_plan = \<lparr>ops_audit = True, ops_plan = True, ops_apply = False\<rparr>"

definition batch_audit :: "batch list" where "batch_audit = [BatchAudit]"
definition batch_ar :: "batch list" where "batch_ar = [BatchAudit, BatchRemediation]"
definition batch_ru :: "batch list" where "batch_ru = [BatchRemediation, BatchUtility]"
definition batch_ac :: "batch list" where "batch_ac = [BatchAudit, BatchCollection]"
definition batch_c :: "batch list" where "batch_c = [BatchCollection]"
definition batch_am :: "batch list" where "batch_am = [BatchAudit, BatchMonitoring]"
definition batch_arm :: "batch list" where "batch_arm = [BatchAudit, BatchRemediation, BatchMonitoring]"
definition batch_m :: "batch list" where "batch_m = [BatchMonitoring]"
definition batch_r :: "batch list" where "batch_r = [BatchRemediation]"

text \<open>The macro \<open>descriptor!\<close>. The handler is chosen while the program is compiled, so its panic cannot occur.\<close>

definition descriptor ::
    "nat \<Rightarrow> capability_id \<Rightarrow> string \<Rightarrow> string \<Rightarrow> string \<Rightarrow> nat \<Rightarrow> operations \<Rightarrow> cap_privilege \<Rightarrow> cap_risk \<Rightarrow>
     cap_reversibility \<Rightarrow> cap_reboot \<Rightarrow> string list \<Rightarrow> implementation_maturity \<Rightarrow> batch list \<Rightarrow>
     capability_descriptor" where
  "descriptor number ident name script desc w ops priv rsk rvs reb reqs mat bs =
     \<lparr>legacy_number = number, descriptor_id = ident, display_name = name, legacy_script = script,
      description = desc, wave = w, descriptor_operations = ops, descriptor_privilege = priv,
      descriptor_risk = rsk, descriptor_reversibility = rvs, descriptor_reboot = reb, requirements = reqs,
      maturity = mat, native_handler_of = the (for_legacy number), eligibility = EvidenceRequired,
      apply_handler = None, batches = bs\<rparr>"

definition capabilities :: "capability_descriptor list" where
  "capabilities = [
     descriptor 1 ''v3.defender.asr-allowlist'' ''Defender and ASR allowlists''
       ''01-ASR-Defender-Allowlist.ps1''
       ''Audit aggregate ASR-only exclusion and fixed rule-action metadata without retaining sensitive allowlist contents; synchronization and mutation remain excluded.''
       3 ops_audit_plan StandardUser RegHigh RevNotApplicable RebootNo
       [''Defender WMI provider''] CodeComplete batch_ar,
     descriptor 2 ''v3.laps.hygiene'' ''Windows LAPS hygiene''
       ''02-LAPS-Hygiene.ps1''
       ''Audit fixed Windows and legacy LAPS policy and bounded Operational-event metadata; native password rotation remains unavailable.''
       3 ops_audit_plan StandardUser RegHigh RevNotApplicable RebootNo
       [''Windows registry'', ''Windows Event Log API''] CodeComplete batch_ar,
     descriptor 3 ''v3.local-admins.guardrail'' ''Local Administrators guardrail''
       ''03-LocalAdmins-Guardrail.ps1''
       ''Audit bounded direct local Administrators membership against a typed SID allow-list; nested expansion, names, files, and reconciliation remain excluded.''
       3 ops_a StandardUser RegHigh RevNotApplicable RebootNo
       [''Windows NetAPI''] CodeComplete batch_ar,
     descriptor 4 ''v3.office-browser.hardening'' ''Office and browser hardening''
       ''04-OfficeBrowser-Hardening-Proof.ps1''
       ''Audit and plan a bounded Office 16 and Edge policy subset; Firefox and dynamic startup URLs remain excluded.''
       3 ops_audit_plan AdministratorRequired RegMedium RevReversible RebootNo
       [''Windows registry''] CodeComplete batch_ar,
     descriptor 5 ''v3.windows-update.policy'' ''Windows Update policy''
       ''05-WUFB-Proofing.ps1''
       ''Audit and plan bounded Windows Update for Business policy values from typed desired state.''
       3 ops_audit_plan AdministratorRequired RegHigh RevReversible RebootPossible
       [''Windows registry'', ''Windows Update service''] CodeComplete batch_ar,
     descriptor 6 ''v3.update-health.ssu'' ''Update health and SSU''
       ''06-UpdateHealth-SSU-Proof.ps1''
       ''Collect fixed Windows Update services, two exact tasks, and bounded WUA history metadata; repair, package inspection, and mutation remain excluded.''
       3 ops_audit_plan StandardUser RegHigh RevNotApplicable RebootNo
       [''Windows Update Agent'', ''Service Control Manager'', ''Task Scheduler COM''] CodeComplete batch_ar,
     descriptor 7 ''v3.scheduled-tasks.hygiene'' ''Scheduled tasks hygiene''
       ''07-ScheduledTasks-Hygiene.ps1''
       ''Audit four exact critical Scheduled Tasks and retain a zero-mutation plan; wildcard categories, XML, credentials, and mutation remain excluded.''
       3 ops_audit_plan StandardUser RegHigh RevNotApplicable RebootNo
       [''Task Scheduler COM''] CodeComplete batch_ar,
     descriptor 8 ''v3.winget.self-heal'' ''WinGet self-heal''
       ''08-WinGet-SelfHeal.ps1''
       ''Audit fixed App Installer registration evidence and retain a zero-mutation plan; executable launch, source repair, and installation remain excluded.''
       4 ops_audit_plan StandardUser RegMedium RevNotApplicable RebootNo
       [''Windows registry''] CodeComplete batch_ru,
     descriptor 9 ''v3.support-bundle.collect'' ''Support bundle collection''
       ''09-SupportBundle.ps1''
       ''Collect diagnostics and selected event logs into a ZIP archive.''
       5 ops_a ElevatedForApply RegMedium RevNotApplicable RebootNo
       [''Windows event logs'', ''Compress-Archive''] InDevelopment batch_ac,
     descriptor 10 ''v3.support-bundle.parse'' ''Support bundle parser''
       ''10-SupportBundle-Parser.ps1''
       ''Validate and summarize the newest support bundle without executing its contents.''
       5 ops_a StandardUser RegLow RevNotApplicable RebootNo
       [] CodeComplete batch_ac,
     descriptor 11 ''v3.defender.ioc-sweep'' ''Defender IOC sweep''
       ''11-IOC-Sweep-Defender.ps1''
       ''Check catalog-defined indicators and optionally perform containment actions.''
       5 ops_ap ElevatedForApply RegCritical RevManualRecovery RebootNo
       [''Defender PowerShell cmdlets''] InDevelopment batch_ac,
     descriptor 12 ''v3.ir.artifact-grabber'' ''Suspicious artifact collection''
       ''12-Suspicious-Artifact-Grabber.ps1''
       ''Collect process and file artifacts into an incident-response bundle.''
       5 ops_a ElevatedForApply RegHigh RevNotApplicable RebootNo
       [''Windows process APIs'', ''Windows event logs''] InDevelopment batch_c,
     descriptor 13 ''v3.lsass.vbs-hardening'' ''LSASS, Credential Guard, HVCI, and VBS''
       ''13-LSASS-CG-HVCI-VBS.ps1''
       ''Audit and plan a fixed LSASS, Credential Guard, HVCI, VBS, and driver-blocklist registry baseline without inferring runtime state.''
       3 ops_audit_plan ElevatedForApply RegCritical RevManualRecovery RebootPossible
       [''Windows registry'', ''Device Guard''] CodeComplete batch_ar,
     descriptor 14 ''v3.remote-access.guardrails'' ''Secure remote access guardrails''
       ''14-SecureRemoteAccessGuardrails.ps1''
       ''Audit and plan a fixed local RDP and Remote Assistance registry subset; firewall, groups, remote reachability, and mutation remain excluded.''
       3 ops_audit_plan StandardUser RegCritical RevNotApplicable RebootNo
       [''Windows registry'', ''Remote Desktop Services''] CodeComplete batch_ar,
     descriptor 15 ''v3.hardware.tpm-posture'' ''Hardware TPM audit''
       ''15-HardwareTPM-Audit.ps1''
       ''Report TPM, Secure Boot, BitLocker, and BIOS posture.''
       2 ops_a StandardUser RegLow RevNotApplicable RebootNo
       [''TBS'', ''WMI volume encryption'', ''Secure Boot APIs''] CodeComplete batch_audit,
     descriptor 16 ''v3.sysmon.config'' ''Sysmon configuration''
       ''16-Sysmon-Config-Updater.ps1''
       ''Audit fixed Sysmon service, image, and Operational-event indicators and retain a zero-mutation plan; configuration XML, executable launch, install, and update remain excluded.''
       4 ops_audit_plan StandardUser RegHigh RevNotApplicable RebootNo
       [''Service Control Manager'', ''Windows Event Log API''] CodeComplete batch_r,
     descriptor 17 ''v3.sysmon.rule-drift'' ''Sysmon rule drift''
       ''17-Sysmon-Rule-Drift-Sensor.ps1''
       ''Audit fixed Sysmon service, image, and Operational-event indicators against an optional exact digest and retain a zero-mutation plan; runtime configuration retrieval and remediation remain excluded.''
       4 ops_audit_plan StandardUser RegHigh RevNotApplicable RebootNo
       [''Service Control Manager'', ''Windows Event Log API''] CodeComplete batch_m,
     descriptor 18 ''v3.firewall.baseline'' ''Firewall baseline''
       ''18-Firewall-Baseline.ps1''
       ''Audit and plan four fixed controls for Domain, Private, and Public profiles; logging, rules, policy-store selection, and mutation remain excluded.''
       3 ops_audit_plan StandardUser RegHigh RevReversible RebootNo
       [''Windows Firewall API''] CodeComplete batch_ar,
     descriptor 19 ''v3.software.inventory'' ''Software audit''
       ''19-Software-Audit.ps1''
       ''Compare installed software with a catalog.''
       5 ops_a StandardUser RegLow RevNotApplicable RebootNo
       [''Windows uninstall registry''] CodeComplete batch_audit,
     descriptor 20 ''v3.patch.missing'' ''Missing patch notification''
       ''20-MissingPatch-Notification.ps1''
       ''Compare installed KBs with a curated JSON feed.''
       5 ops_a StandardUser RegLow RevNotApplicable RebootNo
       [''Windows Update history''] CodeComplete batch_ac,
     descriptor 21 ''v3.network.emergency-isolation'' ''Emergency kill switch''
       ''21-EmergencyKillSwitch.ps1''
       ''Read fixed firewall defaults for isolation preflight and report unresolved break-glass and recovery requirements.''
       4 ops_ap ElevatedForApply RegCritical RevReversible RebootNo
       [''Windows Firewall'', ''Task Scheduler''] InDevelopment batch_r,
     descriptor 22 ''v3.smb.encryption'' ''SMB encryption''
       ''22-SMB-Encryption-Enforcer.ps1''
       ''Audit and plan three fixed local SMB server/client encryption controls; shares, remote negotiation, and mutation remain excluded.''
       3 ops_audit_plan StandardUser RegHigh RevReversible RebootNo
       [''Windows registry''] CodeComplete batch_ar,
     descriptor 23 ''v3.bitlocker.operations'' ''BitLocker operations audit''
       ''23-BitLocker-Operations-Audit.ps1''
       ''Report BitLocker state for the operating-system volume.''
       2 ops_a AdministratorRequired RegLow RevNotApplicable RebootNo
       [''WMI volume encryption''] CodeComplete batch_audit,
     descriptor 24 ''v3.cert.autoenrollment-health'' ''Certificate autoenrollment health''
       ''24-Cert-AutoEnrollment-Health.ps1''
       ''Audit fixed machine AutoEnrollment policy and bounded LocalMachine/My certificate metadata; enrollment, certificate bodies, private keys, and mutation remain excluded.''
       5 ops_a StandardUser RegMedium RevNotApplicable RebootNo
       [''Windows certificate store'', ''Windows registry''] CodeComplete batch_audit,
     descriptor 25 ''v3.winget.configuration'' ''WinGet configuration baseline''
       ''25-WinGet-Config-Baseline-Runner.ps1''
       ''Audit fixed App Installer registration evidence and retain a zero-mutation plan; configuration files, executable launch, and apply remain excluded.''
       4 ops_audit_plan StandardUser RegMedium RevNotApplicable RebootNo
       [''Windows registry''] CodeComplete batch_ru,
     descriptor 26 ''v3.eventlog.fast-triage'' ''Windows event fast triage''
       ''26-Get-WinEvent-FastTriage.ps1''
       ''Query Windows event logs with bounded filters and optional export.''
       5 ops_a StandardUser RegLow RevNotApplicable RebootNo
       [''Windows Event Log API''] CodeComplete batch_audit,
     descriptor 27 ''v3.defender.health'' ''Defender health audit''
       ''27-Defender-Health-Audit.ps1''
       ''Report Defender service, protection, signature, and scan state.''
       1 ops_a StandardUser RegLow RevNotApplicable RebootNo
       [''WinDefend service API''] CodeComplete batch_audit,
     descriptor 28 ''v3.identity.join'' ''Join and identity audit''
       ''28-Join-Identity-Audit.ps1''
       ''Report host, domain or workgroup, role, and operating-system identity.''
       1 ops_a StandardUser RegLow RevNotApplicable RebootNo
       [''NetJoinInformation'', ''ComputerName API''] CodeComplete batch_audit,
     descriptor 29 ''v3.network.configuration'' ''Network configuration audit''
       ''29-Network-Config-Audit.ps1''
       ''Report per-interface IP, gateway, and DNS configuration.''
       2 ops_a StandardUser RegLow RevNotApplicable RebootNo
       [''GetAdaptersAddresses''] CodeComplete batch_audit,
     descriptor 30 ''v3.service-process.inventory'' ''Service and process audit''
       ''30-Service-Process-Audit.ps1''
       ''Report processes, services, resource use, and executable paths.''
       2 ops_a StandardUser RegLow RevNotApplicable RebootNo
       [''Windows service APIs'', ''Windows process APIs''] CodeComplete batch_audit,
     descriptor 31 ''v3.powershell.logging'' ''PowerShell logging baseline''
       ''31-PowerShell-Logging-Baseline.ps1''
       ''Audit and plan typed HKLM PowerShell logging policy; existing sessions may need renewal and verified Apply remains unavailable.''
       3 ops_audit_plan AdministratorRequired RegHigh RevReversible RebootNo
       [''Windows registry'', ''PowerShell policy''] CodeComplete batch_ar,
     descriptor 32 ''v3.firewall.logging'' ''Firewall logging''
       ''32-Firewall-Logging-Audit.ps1''
       ''Audit and plan fixed-profile firewall logging from typed desired state; rule scope and mutation remain excluded.''
       3 ops_audit_plan AdministratorRequired RegMedium RevReversible RebootNo
       [''Windows Firewall API''] CodeComplete batch_ar,
     descriptor 33 ''v3.advanced-audit-policy'' ''Advanced audit policy''
       ''33-AdvancedAuditPolicy-Audit.ps1''
       ''Audit and plan finite GUID-bound Advanced Audit Policy through protected bounded auditpol evidence.''
       3 ops_audit_plan AdministratorRequired RegHigh RevReversible RebootNo
       [''auditpol.exe''] CodeComplete batch_ar,
     descriptor 34 ''v3.time-sync.health'' ''Time synchronization health''
       ''34-TimeSync-Health.ps1''
       ''Report Windows Time service, source, sync, and configuration state.''
       2 ops_a StandardUser RegLow RevNotApplicable RebootNo
       [''Windows Time service'', ''w32tm.exe''] CodeComplete batch_am,
     descriptor 35 ''v3.storage.reliability'' ''Storage reliability audit''
       ''35-Storage-Reliability-Audit.ps1''
       ''Report physical disks and bounded reliability counters through the Windows Storage WMI provider.''
       2 ops_a StandardUser RegLow RevNotApplicable RebootNo
       [''Windows Storage WMI provider''] CodeComplete batch_audit,
     descriptor 36 ''v3.backup.readiness'' ''Backup readiness audit''
       ''36-Backup-Readiness-Audit.ps1''
       ''Report OS free space, VSS-writer state, and File History indicators without mutation.''
       2 ops_a StandardUser RegLow RevNotApplicable RebootNo
       [''GetDiskFreeSpaceEx'', ''vssadmin.exe'', ''Windows registry''] CodeComplete batch_audit,
     descriptor 37 ''v3.remote-surface.audit'' ''Remote surface audit''
       ''37-Remote-Surface-Audit.ps1''
       ''Report local WinRM, SSH, RDP, and SMB surface indicators without asserting remote reachability.''
       2 ops_a StandardUser RegMedium RevNotApplicable RebootNo
       [''SCM'', ''Windows registry'', ''IP Helper''] CodeComplete batch_audit,
     descriptor 38 ''v3.security-options.drift'' ''Security options drift''
       ''38-SecurityOptions-Drift.ps1''
       ''Audit and plan six fixed HKLM DWORD security options from enum-only desired state; arbitrary registry authority and mutation are excluded.''
       3 ops_audit_plan AdministratorRequired RegHigh RevReversible RebootPossible
       [''Windows registry''] CodeComplete batch_arm,
     descriptor 39 ''v3.credential-guard.vbs'' ''Credential Guard and VBS''
       ''39-CredentialGuard-VBS-AuditRemediate.ps1''
       ''Audit and plan finite Credential Guard and VBS registry intent while exposing missing runtime evidence.''
       3 ops_audit_plan AdministratorRequired RegCritical RevManualRecovery RebootPossible
       [''Windows registry'', ''Device Guard''] CodeComplete batch_ar,
     descriptor 40 ''v3.lsa.protection'' ''LSA protection''
       ''40-AddedLSAProtection-RunAsPPL-AuditRemediate.ps1''
       ''Audit and plan finite RunAsPPL registry intent while exposing missing runtime evidence.''
       3 ops_audit_plan AdministratorRequired RegCritical RevManualRecovery RebootRequired
       [''Windows registry''] CodeComplete batch_ar,
     descriptor 41 ''v3.ntlm.client'' ''NTLM client audit''
       ''41-NTLM-Audit-Client.ps1''
       ''Report LAN Manager authentication-level policy.''
       2 ops_a StandardUser RegMedium RevNotApplicable RebootNo
       [''Windows registry''] CodeComplete batch_audit,
     descriptor 42 ''v3.client-security-baseline'' ''Client security baseline report''
       ''42-Client-SecurityBaseline-Report-IntuneRef.ps1''
       ''Report a bounded Device Guard, LSA, and PowerShell policy subset without accepting external reference files.''
       2 ops_a StandardUser RegLow RevNotApplicable RebootNo
       [''Windows registry''] CodeComplete batch_audit,
     descriptor 43 ''v3.app-control.audit'' ''App Control for Business audit''
       ''43-AppControlForBusiness-Audit.ps1''
       ''Report a fixed legacy Code Integrity policy-file indicator and bounded Code Integrity events; EFI, multi-policy, content, and signature semantics are excluded.''
       2 ops_a StandardUser RegMedium RevNotApplicable RebootNo
       [''Windows Event Log API'', ''fixed Code Integrity policy file''] CodeComplete batch_audit,
     descriptor 44 ''v3.defender.ransomware-network-protection'' ''Defender ransomware and network protection''
       ''44-Defender-Ransomware-NetworkProtection-AuditRemediate.ps1''
       ''Audit and plan fixed Controlled Folder Access and Network Protection preference drift; remediation remains unavailable.''
       3 ops_audit_plan StandardUser RegHigh RevNotApplicable RebootNo
       [''Defender WMI provider''] CodeComplete batch_ar,
     descriptor 45 ''v3.wef.client-readiness'' ''WEF client forwarding readiness''
       ''45-WEF-Client-Forwarding-Readiness-Audit.ps1''
       ''Report Windows Event Forwarding client readiness.''
       2 ops_a StandardUser RegMedium RevNotApplicable RebootNo
       [''WinRM'', ''wecutil.exe''] CodeComplete batch_audit,
     descriptor 46 ''v3.secure-boot.uefi'' ''Secure Boot and UEFI audit''
       ''46-SecureBoot-UEFI-Audit.ps1''
       ''Report Secure Boot and UEFI state.''
       2 ops_a StandardUser RegLow RevNotApplicable RebootNo
       [''GetFirmwareType'', ''Secure Boot state registry''] CodeComplete batch_audit,
     descriptor 47 ''v3.wdag.readiness'' ''WDAG readiness audit''
       ''47-WDAG-Readiness-Audit.ps1''
       ''Report Windows Defender Application Guard readiness from fixed feature, policy, edition, and virtualization evidence.''
       2 ops_a StandardUser RegLow RevNotApplicable RebootNo
       [''DISM'', ''Windows Defender Application Guard feature'', ''GetProductInfo''] CodeComplete batch_audit,
     descriptor 48 ''v3.exploit-protection.audit'' ''Exploit protection audit''
       ''48-ExploitProtection-Audit.ps1''
       ''Report machine DEP and a fixed allowlist of Defender ASR policy indicators while exposing unsupported mitigation evidence.''
       2 ops_a StandardUser RegMedium RevNotApplicable RebootNo
       [''GetSystemDEPPolicy'', ''Windows registry''] CodeComplete batch_audit,
     descriptor 49 ''v3.driver-signing.integrity'' ''Driver signing and code integrity audit''
       ''49-DriverSigning-Integrity-Audit.ps1''
       ''Report fixed current-loader BCD integrity flags and HVCI registry intent without inferring runtime state.''
       2 ops_a StandardUser RegHigh RevNotApplicable RebootNo
       [''bcdedit.exe'', ''Windows registry''] CodeComplete batch_audit,
     descriptor 50 ''v3.amsi.audit'' ''AMSI audit''
       ''50-AMSI-Audit.ps1''
       ''Report fixed AMSI provider, bypass, logging, and script-host registry indicators.''
       2 ops_a StandardUser RegHigh RevNotApplicable RebootNo
       [''Windows registry'', ''AMSI''] CodeComplete batch_audit,
     descriptor 51 ''v3.applocker.audit'' ''AppLocker audit''
       ''51-AppLocker-Audit.ps1''
       ''Report fixed AppLocker registry collections and Application Identity service state.''
       2 ops_a StandardUser RegMedium RevNotApplicable RebootNo
       [''Windows registry'', ''Application Identity service''] CodeComplete batch_audit,
     descriptor 52 ''v3.doh.audit'' ''DNS-over-HTTPS audit''
       ''52-DoH-Audit.ps1''
       ''Report Windows DNS-over-HTTPS client configuration.''
       2 ops_a StandardUser RegLow RevNotApplicable RebootNo
       [''Windows DNS client''] CodeComplete batch_audit]"

section \<open>Queries and guarded execution\<close>

definition lookup :: "capability_id \<Rightarrow> capability_descriptor option" where
  "lookup ident = find (\<lambda>d. descriptor_id d = ident) capabilities"

definition lookup_legacy :: "nat \<Rightarrow> capability_descriptor option" where
  "lookup_legacy number = find (\<lambda>d. legacy_number d = number) capabilities"

definition select_batch :: "batch \<Rightarrow> capability_descriptor list" where
  "select_batch b =
     (if b = BatchAll then capabilities else filter (\<lambda>d. b \<in> set (batches d)) capabilities)"

record execution_environment =
  is_windows :: bool
  available_requirements :: "string list"

definition non_windows :: execution_environment where
  "non_windows = \<lparr>is_windows = False, available_requirements = []\<rparr>"

definition has_requirement :: "execution_environment \<Rightarrow> string \<Rightarrow> bool" where
  "has_requirement env r \<longleftrightarrow> r \<in> set (available_requirements env)"

record capability_request =
  request_operation :: cap_operation
  request_parameters :: jvalue

datatype unsupported =
    NonWindowsHost
  | MissingRequirement string
  | OperationUnavailable cap_operation
  | ExecutorUnavailable capability_id

datatype capability_outcome =
    OutcomeCompleted jvalue
  | OutcomeUnsupported unsupported
  | OutcomeFailed capability_id string

type_synonym executor = "capability_descriptor \<Rightarrow> capability_request \<Rightarrow> capability_outcome"

definition capability_execute ::
    "capability_descriptor \<Rightarrow> execution_environment \<Rightarrow> capability_request \<Rightarrow> executor option \<Rightarrow>
     capability_outcome" where
  "capability_execute d env req executor =
     (if \<not> supports (descriptor_operations d) (request_operation req)
      then OutcomeUnsupported (OperationUnavailable (request_operation req))
      else if \<not> is_windows env then OutcomeUnsupported NonWindowsHost
      else
        case find (\<lambda>r. \<not> has_requirement env r) (requirements d) of
          Some r \<Rightarrow> OutcomeUnsupported (MissingRequirement r)
        | None \<Rightarrow>
            (case executor of
               Some run \<Rightarrow> run d req
             | None \<Rightarrow> OutcomeUnsupported (ExecutorUnavailable (descriptor_id d))))"

section \<open>Native dispatch\<close>

definition has_native_handler :: "capability_descriptor \<Rightarrow> bool" where
  "has_native_handler d \<longleftrightarrow>
     native_handler_of d \<notin> {HandlerSupportBundleCollect, HandlerDefenderIocSweep, HandlerArtifactGrabber}"

text \<open>\<open>windows\<close> is \<open>cfg!(windows)\<close>; \<open>native\<close> maps a handler to its compiled executor.\<close>

definition dispatch_native ::
    "bool \<Rightarrow> (native_handler \<Rightarrow> executor) \<Rightarrow> capability_descriptor \<Rightarrow> cap_operation \<Rightarrow> jvalue \<Rightarrow>
     capability_outcome" where
  "dispatch_native windows native d op parameters =
     (case lookup (descriptor_id d) of
        None \<Rightarrow> OutcomeUnsupported (ExecutorUnavailable (descriptor_id d))
      | Some adapter \<Rightarrow>
          capability_execute adapter \<lparr>is_windows = windows, available_requirements = requirements d\<rparr>
            \<lparr>request_operation = op, request_parameters = parameters\<rparr> (Some (native (native_handler_of d))))"

section \<open>What the catalog promises\<close>

text \<open>The facts about the whole catalog are evaluated once, each over the fields it needs.\<close>

lemma find_Some_set: "find P xs = Some x \<Longrightarrow> x \<in> set xs \<and> P x"
  by (auto simp: find_Some_iff in_set_conv_nth)

lemma catalog_numbers: "map legacy_number capabilities = [1..<53]"
  by code_simp

lemma catalog_ids_distinct: "distinct (map descriptor_id capabilities)"
  by code_simp

lemma catalog_locked:
  "list_all (\<lambda>d. eligibility d = EvidenceRequired \<and> apply_handler d = None \<and> maturity d \<noteq> NativeImplemented)
     capabilities"
  by code_simp

lemma catalog_ids_valid: "list_all (\<lambda>d. capability_id_new (descriptor_id d) = Inr (descriptor_id d)) capabilities"
  by code_simp

lemma catalog_handlers:
  "list_all (\<lambda>d. for_legacy (legacy_number d) = Some (native_handler_of d) \<and> 1 \<le> wave d \<and> wave d \<le> 5 \<and>
     ops_audit (descriptor_operations d) \<and> (has_native_handler d \<longleftrightarrow> legacy_number d \<notin> {9, 11, 12})) capabilities"
  by code_simp

lemma find_key:
  "distinct (map key xs) \<Longrightarrow> x \<in> set xs \<Longrightarrow> find (\<lambda>y. key y = key x) xs = Some x"
  by (induction xs) (auto simp: rev_image_eqI)

lemma lookup_registered: "d \<in> set capabilities \<Longrightarrow> lookup (descriptor_id d) = Some d"
  unfolding lookup_def by (rule find_key [OF catalog_ids_distinct])

lemma lookup_SomeD:
  assumes "lookup ident = Some d"
  shows "d \<in> set capabilities" "descriptor_id d = ident"
  using find_Some_set [OF assms [unfolded lookup_def]] by simp_all

lemma dispatch_registered:
  assumes "d \<in> set capabilities"
  shows "dispatch_native windows native d op parameters =
    (if \<not> supports (descriptor_operations d) op then OutcomeUnsupported (OperationUnavailable op)
     else if \<not> windows then OutcomeUnsupported NonWindowsHost
     else native (native_handler_of d) d \<lparr>request_operation = op, request_parameters = parameters\<rparr>)"
proof -
  have "find (\<lambda>r. r \<notin> set (requirements d)) (requirements d) = None"
    by (simp add: find_None_iff)
  then show ?thesis
    by (simp add: dispatch_native_def lookup_registered [OF assms] capability_execute_def has_requirement_def)
qed

text \<open>
  C33: every capability of the catalog is found under its identifier and under its number, which are unique; its
  identifier is valid, its handler is the one assigned to its number, and it is not eligible for production
  changes. Dispatching it reaches its native executor exactly for an advertised operation on Windows, with the
  descriptor and the request unchanged.
\<close>

theorem catalog_registered:
  assumes "d \<in> set capabilities"
  shows "lookup (descriptor_id d) = Some d \<and> lookup_legacy (legacy_number d) = Some d \<and>
    1 \<le> legacy_number d \<and> legacy_number d \<le> 52 \<and> capability_id_new (descriptor_id d) = Inr (descriptor_id d) \<and>
    for_legacy (legacy_number d) = Some (native_handler_of d) \<and>
    eligibility d = EvidenceRequired \<and> apply_handler d = None \<and> maturity d \<noteq> NativeImplemented \<and>
    dispatch_native windows native d op parameters =
      (if \<not> supports (descriptor_operations d) op then OutcomeUnsupported (OperationUnavailable op)
       else if \<not> windows then OutcomeUnsupported NonWindowsHost
       else native (native_handler_of d) d \<lparr>request_operation = op, request_parameters = parameters\<rparr>)"
proof -
  have "distinct (map legacy_number capabilities)" unfolding catalog_numbers by simp
  then have "lookup_legacy (legacy_number d) = Some d"
    unfolding lookup_legacy_def using assms by (rule find_key)
  moreover have "legacy_number d \<in> set (map legacy_number capabilities)" using assms by simp
  then have "1 \<le> legacy_number d \<and> legacy_number d \<le> 52" unfolding catalog_numbers by auto
  ultimately show ?thesis
    using assms lookup_registered [OF assms] catalog_ids_valid catalog_locked catalog_handlers
      dispatch_registered [OF assms] by (simp add: list_all_iff)
qed

theorem catalog_registered_witness:
  "lookup (descriptor_id (capabilities ! 4)) = Some (capabilities ! 4) \<and> legacy_number (capabilities ! 4) = 5"
proof -
  have "map legacy_number capabilities ! 4 = 5" unfolding catalog_numbers by simp
  moreover have "length capabilities = 52" using arg_cong [OF catalog_numbers, of length] by simp
  ultimately show ?thesis using catalog_registered [of "capabilities ! 4"] by simp
qed

end
