(* ===== verification/Semantic_Plan.thy ===== *)
theory Semantic_Plan
  imports Defense_Policies Evidence_Policies Capability_Registry
begin

text \<open>
  The proposals of \<open>baselineops-capabilities/src/semantic_plan.rs\<close>: one variant per capability that plans, made from the
  captured observation and the parameters of a step by the planner registered for the capability. The typed decoders
  of \<open>serde\<close> are parameters.
\<close>

datatype semantic_plan =
    SemanticObservation jvalue string
  | SemanticDefenderAsr defender_asr_plan
  | SemanticOfficeBrowser office_browser_plan
  | SemanticWindowsUpdate windows_update_plan
  | SemanticUpdateHealth update_health_plan
  | SemanticScheduledTasks scheduled_tasks_plan
  | SemanticWinget winget_plan
  | SemanticRemoteGuardrails remote_guardrails_plan
  | SemanticSysmon sysmon_plan
  | SemanticFirewallBaseline firewall_baseline_plan
  | SemanticEmergencyIsolation emergency_isolation_plan
  | SemanticSmbEncryption smb_encryption_plan
  | SemanticPowerShellLogging power_shell_plan
  | SemanticFirewallLogging firewall_logging_plan
  | SemanticSecurityOptions security_options_plan
  | SemanticDefenderRansomware defender_ransomware_plan

text \<open>
  What the planners take from code outside these files: the typed decoders of parameters and observations, the JSON
  form of a proposal, and the text of a domain error.
\<close>

record planner_env =
  decode_parameters :: "jvalue \<Rightarrow> string + windows_update_parameters"
  decode_observation :: "jvalue \<Rightarrow> string + windows_update_observation"
  dec_asr_policy :: "jvalue \<Rightarrow> string + unit"
  dec_asr :: "jvalue \<Rightarrow> string + defender_asr_observation"
  dec_office_parameters :: "jvalue \<Rightarrow> string + office_browser_parameters"
  dec_office :: "jvalue \<Rightarrow> string + office_browser_observation"
  dec_update_health_parameters :: "jvalue \<Rightarrow> string + unit"
  dec_update_health :: "jvalue \<Rightarrow> string + update_health_observation"
  dec_tasks_parameters :: "jvalue \<Rightarrow> string + unit"
  dec_tasks :: "jvalue \<Rightarrow> string + scheduled_tasks_observation"
  dec_winget_parameters :: "jvalue \<Rightarrow> string + unit"
  dec_winget :: "jvalue \<Rightarrow> string + winget_observation"
  dec_remote_policy :: "jvalue \<Rightarrow> string + remote_guardrails_policy"
  dec_remote :: "jvalue \<Rightarrow> string + remote_guardrails_observation"
  dec_sysmon_policy :: "jvalue \<Rightarrow> string + sysmon_policy"
  dec_sysmon :: "jvalue \<Rightarrow> string + sysmon_observation"
  dec_baseline_parameters :: "jvalue \<Rightarrow> string + firewall_baseline_parameters"
  dec_baseline :: "jvalue \<Rightarrow> string + firewall_baseline_observation"
  dec_isolation_policy :: "jvalue \<Rightarrow> string + emergency_isolation_policy"
  dec_isolation :: "jvalue \<Rightarrow> string + emergency_isolation_observation"
  dec_smb_policy :: "jvalue \<Rightarrow> string + smb_encryption_policy"
  dec_smb :: "jvalue \<Rightarrow> string + smb_encryption_observation"
  dec_power_shell_parameters :: "jvalue \<Rightarrow> string + power_shell_parameters"
  dec_power_shell :: "jvalue \<Rightarrow> string + power_shell_observation"
  dec_logging_parameters :: "jvalue \<Rightarrow> string + firewall_logging_parameters"
  dec_logging :: "jvalue \<Rightarrow> string + firewall_observation"
  dec_security_policy :: "jvalue \<Rightarrow> string + security_options_policy"
  dec_security :: "jvalue \<Rightarrow> string + security_options_observation"
  dec_ransomware_policy :: "jvalue \<Rightarrow> string + defender_ransomware_policy"
  dec_ransomware :: "jvalue \<Rightarrow> string + defender_ransomware_observation"
  semantic_json :: "semantic_plan \<Rightarrow> jvalue"
  error_text :: "domain_error \<Rightarrow> string"

section \<open>Changes\<close>

fun registry_changes :: "semantic_plan \<Rightarrow> bool option" where
  "registry_changes (SemanticOfficeBrowser plan) = Some (ob_mutations plan \<noteq> [])"
| "registry_changes (SemanticWindowsUpdate plan) = Some (wu_mutations plan \<noteq> [])"
| "registry_changes (SemanticPowerShellLogging plan) = Some (ps_mutations plan \<noteq> [])"
| "registry_changes (SemanticSecurityOptions plan) = Some (so_proposed_changes plan \<noteq> [])"
| "registry_changes _ = None"

fun network_changes :: "semantic_plan \<Rightarrow> bool option" where
  "network_changes (SemanticRemoteGuardrails plan) = Some (rg_proposed_changes plan \<noteq> [])"
| "network_changes (SemanticFirewallBaseline plan) = Some (fb_proposed_changes plan \<noteq> [])"
| "network_changes (SemanticSmbEncryption plan) = Some (smb_proposed_changes plan \<noteq> [])"
| "network_changes (SemanticFirewallLogging plan) = Some (fl_drift plan \<noteq> [])"
| "network_changes _ = None"

fun security_changes :: "semantic_plan \<Rightarrow> bool option" where
  "security_changes (SemanticDefenderRansomware plan) = Some (dr_proposed_changes plan \<noteq> [])"
| "security_changes (SemanticEmergencyIsolation plan) = Some (iso_actions plan \<noteq> [])"
| "security_changes _ = None"

definition proposes_changes :: "semantic_plan \<Rightarrow> bool" where
  "proposes_changes sem =
     (case registry_changes sem of
        Some b \<Rightarrow> b
      | None \<Rightarrow> first_of (network_changes sem) (security_changes sem) False)"

section \<open>Planners\<close>

type_synonym planner = "jvalue \<Rightarrow> jvalue \<Rightarrow> string + semantic_plan"

definition require_observation :: "jvalue \<Rightarrow> string + unit" where
  "require_observation observed =
     (case observed of
        JObject (m # ms) \<Rightarrow> Inr ()
      | _ \<Rightarrow> Inl ''native observation must be a nonempty object'')"

definition observation_of :: "(jvalue \<Rightarrow> string + 'a) \<Rightarrow> jvalue \<Rightarrow> string + 'a" where
  "observation_of dec v =
     and_then (ok_or ''captured native observation is absent''
       (case v of JObject m \<Rightarrow> map_of m ''observation'' | _ \<Rightarrow> None)) dec"

definition plan_defender_asr :: "planner_env \<Rightarrow> planner" where
  "plan_defender_asr P parameters observed =
     and_then (observation_of (dec_asr P) observed) (\<lambda>obs.
     and_then (dec_asr_policy P parameters) (\<lambda>_. Inr (SemanticDefenderAsr (build_defender_asr_plan obs))))"

definition plan_update_health :: "planner_env \<Rightarrow> planner" where
  "plan_update_health P parameters observed =
     and_then (dec_update_health_parameters P parameters) (\<lambda>_.
     and_then (observation_of (dec_update_health P) observed) (\<lambda>obs.
       Inr (SemanticUpdateHealth (build_update_health_plan obs))))"

definition plan_scheduled_tasks :: "planner_env \<Rightarrow> planner" where
  "plan_scheduled_tasks P parameters observed =
     and_then (dec_tasks_parameters P parameters) (\<lambda>_.
     and_then (observation_of (dec_tasks P) observed) (\<lambda>obs.
       Inr (SemanticScheduledTasks (build_scheduled_tasks_plan obs))))"

definition plan_winget :: "planner_env \<Rightarrow> (winget_observation \<Rightarrow> winget_audit) \<Rightarrow> planner" where
  "plan_winget P evaluator parameters observed =
     and_then (dec_winget_parameters P parameters) (\<lambda>_.
     and_then (observation_of (dec_winget P) observed) (\<lambda>obs.
       Inr (SemanticWinget (build_winget_plan (evaluator obs)))))"

definition plan_remote_guardrails :: "planner_env \<Rightarrow> planner" where
  "plan_remote_guardrails P parameters observed =
     and_then (observation_of (dec_remote P) observed) (\<lambda>obs.
     and_then (dec_remote_policy P parameters) (\<lambda>policy.
     and_then (build_remote_guardrails_plan obs policy) (\<lambda>plan. Inr (SemanticRemoteGuardrails plan))))"

definition plan_sysmon :: "planner_env \<Rightarrow> planner" where
  "plan_sysmon P parameters observed =
     and_then (observation_of (dec_sysmon P) observed) (\<lambda>obs.
     and_then (dec_sysmon_policy P parameters) (\<lambda>policy.
       Inr (SemanticSysmon (build_sysmon_plan (evaluate_sysmon obs policy)))))"

definition plan_firewall_baseline :: "planner_env \<Rightarrow> planner" where
  "plan_firewall_baseline P parameters observed =
     and_then (observation_of (dec_baseline P) observed) (\<lambda>obs.
     and_then (dec_baseline_parameters P parameters) (\<lambda>params.
     and_then (build_firewall_baseline_plan obs params) (\<lambda>plan. Inr (SemanticFirewallBaseline plan))))"

text \<open>A panic of the plan builder would be the error with the text of its \<open>expect\<close>; the preflight excludes it.\<close>

definition plan_emergency_isolation :: "planner_env \<Rightarrow> planner" where
  "plan_emergency_isolation P parameters observed =
     and_then (observation_of (dec_isolation P) observed) (\<lambda>obs.
     and_then (dec_isolation_policy P parameters) (\<lambda>policy.
     and_then (validate_emergency_isolation_preflight obs policy) (\<lambda>_.
     and_then (ok_or ''complete profiles were validated before action derivation'' (build_emergency_isolation_plan obs policy)) (\<lambda>plan.
       Inr (SemanticEmergencyIsolation plan)))))"

definition plan_smb_encryption :: "planner_env \<Rightarrow> planner" where
  "plan_smb_encryption P parameters observed =
     and_then (observation_of (dec_smb P) observed) (\<lambda>obs.
     and_then (dec_smb_policy P parameters) (\<lambda>policy.
     and_then (build_smb_encryption_plan obs policy) (\<lambda>plan. Inr (SemanticSmbEncryption plan))))"

definition plan_power_shell_logging :: "planner_env \<Rightarrow> planner" where
  "plan_power_shell_logging P parameters observed =
     and_then (dec_power_shell P observed) (\<lambda>obs.
     and_then (dec_power_shell_parameters P parameters) (\<lambda>params.
     and_then (resolve_power_shell_desired_state params) (\<lambda>desired.
     and_then (build_power_shell_plan obs desired) (\<lambda>plan. Inr (SemanticPowerShellLogging plan)))))"

definition plan_firewall_logging :: "planner_env \<Rightarrow> planner" where
  "plan_firewall_logging P parameters observed =
     and_then (dec_logging P observed) (\<lambda>obs.
     and_then (dec_logging_parameters P parameters) (\<lambda>params.
     and_then (resolve_firewall_logging_desired_state params) (\<lambda>desired.
     and_then (build_firewall_logging_plan obs desired) (\<lambda>plan. Inr (SemanticFirewallLogging plan)))))"

definition plan_defender_ransomware :: "planner_env \<Rightarrow> planner" where
  "plan_defender_ransomware P parameters observed =
     and_then (observation_of (dec_ransomware P) observed) (\<lambda>obs.
     and_then (dec_ransomware_policy P parameters) (\<lambda>policy.
       Inr (SemanticDefenderRansomware (build_defender_ransomware_plan obs policy))))"

definition plan_office_browser :: "planner_env \<Rightarrow> planner" where
  "plan_office_browser P parameters observed =
     and_then (dec_office P observed) (\<lambda>obs.
     and_then (dec_office_parameters P parameters) (\<lambda>params.
     and_then (resolve_office_browser_desired_state params) (\<lambda>desired.
       let plan = build_office_browser_plan obs desired in
       if list_ex (\<lambda>m. map_of (office_values_of (ob_observation plan)) (ob_field m) = None) (ob_mutations plan)
       then Inl ''Office/browser snapshot omits required policy fields''
       else Inr (SemanticOfficeBrowser plan))))"

definition plan_windows_update :: "planner_env \<Rightarrow> planner" where
  "plan_windows_update P parameters observed =
     and_then (decode_observation P observed) (\<lambda>obs.
     and_then (decode_parameters P parameters) (\<lambda>params.
     and_then (resolve_desired_state params) (\<lambda>desired.
       let plan = build_windows_update_plan obs desired in
       if list_ex (\<lambda>m. map_of (field_values (wu_observation plan)) (mutation_field m) = None) (wu_mutations plan)
       then Inl ''Windows Update snapshot omits required policy fields''
       else Inr (SemanticWindowsUpdate plan))))"

fun readable_option :: "security_option_evidence option \<Rightarrow> bool" where
  "readable_option (Some (OptPresent _)) = True"
| "readable_option (Some OptMissing) = True"
| "readable_option _ = False"

definition plan_security_options :: "planner_env \<Rightarrow> planner" where
  "plan_security_options P parameters observed =
     and_then (observation_of (dec_security P) observed) (\<lambda>obs.
     and_then (dec_security_policy P parameters) (\<lambda>policy.
       let plan = build_security_options_plan obs policy in
       if list_ex (\<lambda>f. \<not> readable_option (map_of (security_values_of (so_observation (so_audit plan))) f))
         (map fst (so_desired_values (so_audit plan)))
       then Inl ''Security Options snapshot has missing or unreadable evidence''
       else Inr (SemanticSecurityOptions plan)))"

definition planners :: "planner_env \<Rightarrow> (capability_id \<times> planner) list" where
  "planners P = [
     (''v3.defender.asr-allowlist'', plan_defender_asr P),
     (''v3.office-browser.hardening'', plan_office_browser P),
     (''v3.windows-update.policy'', plan_windows_update P),
     (''v3.update-health.ssu'', plan_update_health P),
     (''v3.scheduled-tasks.hygiene'', plan_scheduled_tasks P),
     (winget_self_heal_id, plan_winget P evaluate_winget_self_heal),
     (winget_configuration_id, plan_winget P evaluate_winget_configuration),
     (''v3.remote-access.guardrails'', plan_remote_guardrails P),
     (''v3.sysmon.config'', plan_sysmon P),
     (''v3.sysmon.rule-drift'', plan_sysmon P),
     (''v3.firewall.baseline'', plan_firewall_baseline P),
     (''v3.network.emergency-isolation'', plan_emergency_isolation P),
     (''v3.smb.encryption'', plan_smb_encryption P),
     (''v3.powershell.logging'', plan_power_shell_logging P),
     (''v3.firewall.logging'', plan_firewall_logging P),
     (''v3.security-options.drift'', plan_security_options P),
     (''v3.defender.ransomware-network-protection'', plan_defender_ransomware P)]"

definition plan_observed :: "planner_env \<Rightarrow> capability_id \<Rightarrow> planner" where
  "plan_observed P ident parameters observed =
     and_then (ok_or (''unknown capability '' @ ident) (lookup ident)) (\<lambda>d.
     and_then (require_observation observed) (\<lambda>_.
       case find (\<lambda>(registered, _). registered = ident) (planners P) of
         Some (_, planner) \<Rightarrow> planner parameters observed
       | None \<Rightarrow> Inr (SemanticObservation observed
           (if legacy_number d \<in> {2, 3, 13, 33, 39, 40}
            then ''This capability currently provides observation only; native remediation is not implemented.''
            else ''This capability is read-only; no endpoint change is proposed.''))))"

section \<open>What a proposal is\<close>

definition planner_ids :: "capability_id list" where
  "planner_ids = [''v3.defender.asr-allowlist'', ''v3.office-browser.hardening'', ''v3.windows-update.policy'',
     ''v3.update-health.ssu'', ''v3.scheduled-tasks.hygiene'', ''v3.winget.self-heal'', ''v3.winget.configuration'',
     ''v3.remote-access.guardrails'', ''v3.sysmon.config'', ''v3.sysmon.rule-drift'', ''v3.firewall.baseline'',
     ''v3.network.emergency-isolation'', ''v3.smb.encryption'', ''v3.powershell.logging'', ''v3.firewall.logging'',
     ''v3.security-options.drift'', ''v3.defender.ransomware-network-protection'']"

lemma planners_ids: "map fst (planners P) = planner_ids"
  by (simp add: planners_def planner_ids_def winget_self_heal_id_def winget_configuration_id_def)

text \<open>The capabilities whose proposals have a given shape.\<close>

fun proposal_capabilities :: "semantic_plan \<Rightarrow> capability_id set" where
  "proposal_capabilities (SemanticObservation _ _) = - set planner_ids"
| "proposal_capabilities (SemanticDefenderAsr _) = {''v3.defender.asr-allowlist''}"
| "proposal_capabilities (SemanticOfficeBrowser _) = {''v3.office-browser.hardening''}"
| "proposal_capabilities (SemanticWindowsUpdate _) = {''v3.windows-update.policy''}"
| "proposal_capabilities (SemanticUpdateHealth _) = {''v3.update-health.ssu''}"
| "proposal_capabilities (SemanticScheduledTasks _) = {''v3.scheduled-tasks.hygiene''}"
| "proposal_capabilities (SemanticWinget plan) = {wg_capability (wg_audit plan)}"
| "proposal_capabilities (SemanticRemoteGuardrails _) = {''v3.remote-access.guardrails''}"
| "proposal_capabilities (SemanticSysmon _) = {''v3.sysmon.config'', ''v3.sysmon.rule-drift''}"
| "proposal_capabilities (SemanticFirewallBaseline _) = {''v3.firewall.baseline''}"
| "proposal_capabilities (SemanticEmergencyIsolation _) = {''v3.network.emergency-isolation''}"
| "proposal_capabilities (SemanticSmbEncryption _) = {''v3.smb.encryption''}"
| "proposal_capabilities (SemanticPowerShellLogging _) = {''v3.powershell.logging''}"
| "proposal_capabilities (SemanticFirewallLogging _) = {''v3.firewall.logging''}"
| "proposal_capabilities (SemanticSecurityOptions _) = {''v3.security-options.drift''}"
| "proposal_capabilities (SemanticDefenderRansomware _) = {''v3.defender.ransomware-network-protection''}"

text \<open>
  The evidence that a proposal which changes an endpoint rests on, spelled out on the observation that was captured: the
  values that have been read are those of the form \<open>Present\<close>, \<open>FwPresent\<close> or \<open>OptPresent\<close>.
\<close>

definition captured :: "(jvalue \<Rightarrow> string + 'a) \<Rightarrow> jvalue \<Rightarrow> 'a \<Rightarrow> bool" where
  "captured dec observed obs \<longleftrightarrow>
     (\<exists>members v. observed = JObject members \<and> map_of members ''observation'' = Some v \<and> dec v = Inr obs)"

definition logging_read :: "firewall_observation \<Rightarrow> bool" where
  "logging_read obs \<longleftrightarrow> fw_modify_state obs = LocalPolicyWritable \<and>
     (\<forall>profile. \<exists>q dropped successful path size. map_of (fw_profiles obs) profile = Some q \<and> log_dropped q = FwPresent dropped \<and>
        log_successful q = FwPresent successful \<and> log_path q = FwPresent path \<and> log_size q = FwPresent size)"

definition baseline_read :: "firewall_baseline_observation \<Rightarrow> bool" where
  "baseline_read obs \<longleftrightarrow> bo_modify_state obs = LocalPolicyWritable \<and>
     (\<forall>q\<in>{bo_domain (bo_profiles obs), bo_private (bo_profiles obs), bo_public (bo_profiles obs)}.
        \<exists>enabled inbound outbound notify. bo_enabled q = FwPresent enabled \<and> bo_inbound q = FwPresent inbound \<and>
          bo_outbound q = FwPresent outbound \<and> bo_notify q = FwPresent notify)"

definition guardrails_read :: "remote_guardrails_observation \<Rightarrow> bool" where
  "guardrails_read obs \<longleftrightarrow> (\<exists>v. rdp_enabled (rg_remote_surface obs) = Present v) \<and>
     (\<forall>seen\<in>{seen_nla, seen_security_layer, seen_minimum_encryption, seen_disable_restricted_admin,
        seen_disable_password_saving, seen_solicited, seen_unsolicited, seen_ticket_lifetime}. \<exists>v. seen obs = Present v)"

definition profiles_read :: "isolation_snapshot list \<Rightarrow> bool" where
  "profiles_read snapshots \<longleftrightarrow> length snapshots = 3 \<and> (\<forall>profile. \<exists>q\<in>set snapshots. iso_profile q = profile) \<and>
     (\<forall>q\<in>set snapshots. \<exists>inbound outbound. iso_inbound q = Present inbound \<and> iso_outbound q = Present outbound)"

definition defender_value_read :: "defender_ransomware_policy \<Rightarrow> defender_ransomware_observation \<Rightarrow> defender_ransomware_drift \<Rightarrow> bool" where
  "defender_value_read p obs c \<longleftrightarrow>
     dr_field c = ''EnableControlledFolderAccess'' \<and> (\<exists>v. seen_cfa obs = Present v \<and> v \<noteq> dr_cfa p) \<or>
     dr_field c = ''EnableNetworkProtection'' \<and> (\<exists>v. seen_np obs = Present v \<and> v \<noteq> dr_np p) \<or>
     seen_is_server obs = Present True \<and>
       (dr_field c = ''AllowNetworkProtectionOnWinServer'' \<and> seen_allow_np_server obs = Present False \<or>
        dr_field c = ''AllowNetworkProtectionDownLevel'' \<and> seen_allow_np_down_level obs = Present False \<or>
        dr_field c = ''AllowDatagramProcessingOnWinServer'' \<and> seen_allow_datagram obs = Present True)"

fun rests_on_evidence :: "planner_env \<Rightarrow> jvalue \<Rightarrow> semantic_plan \<Rightarrow> bool" where
  "rests_on_evidence P observed (SemanticOfficeBrowser plan) \<longleftrightarrow> dec_office P observed = Inr (ob_rollback plan) \<and>
     (\<forall>m\<in>set (ob_mutations plan). \<exists>v. map_of (office_values_of (ob_rollback plan)) (ob_field m) = Some v)"
| "rests_on_evidence P observed (SemanticWindowsUpdate plan) \<longleftrightarrow> decode_observation P observed = Inr (wu_rollback plan) \<and>
     (\<forall>m\<in>set (wu_mutations plan). \<exists>v. map_of (field_values (wu_rollback plan)) (mutation_field m) = Some v)"
| "rests_on_evidence P observed (SemanticSecurityOptions plan) \<longleftrightarrow>
     captured (dec_security P) observed (so_observation (so_audit plan)) \<and>
     (\<forall>c\<in>set (so_proposed_changes plan). map_of (security_values_of (so_observation (so_audit plan))) (so_field c) = Some OptMissing \<or>
        (\<exists>n. map_of (security_values_of (so_observation (so_audit plan))) (so_field c) = Some (OptPresent n)))"
| "rests_on_evidence P observed (SemanticPowerShellLogging plan) \<longleftrightarrow>
     (\<exists>obs. dec_power_shell P observed = Inr obs \<and> ps_rollback plan = hklm obs) \<and>
     (\<forall>names. ReplaceModuleNames names \<in> set (ps_mutations plan) \<longrightarrow>
        want_replace_module_names (ps_desired plan) \<and> module_complete (hive_module_names (ps_rollback plan)))"
| "rests_on_evidence P observed (SemanticRemoteGuardrails plan) \<longleftrightarrow>
     captured (dec_remote P) observed (rg_observation (rg_audit plan)) \<and> guardrails_read (rg_observation (rg_audit plan))"
| "rests_on_evidence P observed (SemanticFirewallBaseline plan) \<longleftrightarrow>
     captured (dec_baseline P) observed (fb_observation (fb_audit plan)) \<and> baseline_read (fb_observation (fb_audit plan))"
| "rests_on_evidence P observed (SemanticSmbEncryption plan) \<longleftrightarrow>
     (\<exists>a b c. captured (dec_smb P) observed
        \<lparr>seen_server_encrypt = Present a, seen_server_reject = Present b, seen_client_require = Present c\<rparr>)"
| "rests_on_evidence P observed (SemanticFirewallLogging plan) \<longleftrightarrow>
     dec_logging P observed = Inr (fl_observation plan) \<and> logging_read (fl_observation plan)"
| "rests_on_evidence P observed (SemanticEmergencyIsolation plan) \<longleftrightarrow>
     (\<exists>obs. captured (dec_isolation P) observed obs \<and> iso_rollback plan = iso_profiles obs \<and>
        profiles_read (iso_profiles obs) \<and> managed_isolation_active obs = Present False)"
| "rests_on_evidence P observed (SemanticDefenderRansomware plan) \<longleftrightarrow>
     captured (dec_ransomware P) observed (dr_observation (dr_audit plan)) \<and>
     (\<forall>c\<in>set (dr_proposed_changes plan). defender_value_read (dr_policy (dr_audit plan)) (dr_observation (dr_audit plan)) c)"
| "rests_on_evidence P observed sem \<longleftrightarrow> \<not> proposes_changes sem"

text \<open>What the checks of the planners establish.\<close>

lemma observation_of_Inr: "observation_of dec observed = Inr obs \<longleftrightarrow> captured dec observed obs"
  by (auto simp: observation_of_def captured_def res_simps ok_or_def split: jvalue.splits option.splits)

lemma fw_present_iff: "fw_present v \<longleftrightarrow> (\<exists>a. v = FwPresent a)"
  by (cases v) simp_all

lemma all_profiles: "(\<forall>profile. Q profile) \<longleftrightarrow> Q FwDomain \<and> Q FwPrivate \<and> Q FwPublic"
  by (metis firewall_profile.exhaust)

lemma readable_option_iff: "readable_option v \<longleftrightarrow> v = Some OptMissing \<or> (\<exists>n. v = Some (OptPresent n))"
  by (cases v rule: readable_option.cases) simp_all

lemma logging_complete_read: "logging_is_complete obs \<longleftrightarrow> logging_read obs"
  by (auto simp: logging_is_complete_def logging_read_def profile_logging_is_complete_def fixed_profiles_def fw_present_iff
      all_profiles split: option.splits)

lemma baseline_complete_read: "is_complete_and_locally_writable obs \<longleftrightarrow> baseline_read obs"
  by (auto simp: is_complete_and_locally_writable_def baseline_read_def baseline_is_complete_def fixed_profiles_def fw_present_iff)

lemma guardrails_complete_read: "registry_plan_evidence_is_complete obs \<longleftrightarrow> guardrails_read obs"
  by (auto simp: registry_plan_evidence_is_complete_def guardrails_read_def dword_registry_evidence_is_complete_def is_present_iff)

lemma profiles_complete_read: "profiles_are_complete ps \<Longrightarrow> profiles_read ps"
  by (auto simp: profiles_are_complete_def profiles_read_def fixed_profiles_def all_profiles list_all_iff is_present_iff set_eq_iff) (metis+)

lemma defender_differs_read: "defender_differs p obs s \<Longrightarrow> defender_value_read p obs (defender_change p s)"
  by (cases s) (auto simp: defender_value_read_def dr_drift_def is_present_iff)

lemmas planner_defs = plan_defender_asr_def plan_office_browser_def plan_windows_update_def plan_update_health_def
  plan_scheduled_tasks_def plan_winget_def plan_remote_guardrails_def plan_sysmon_def plan_firewall_baseline_def
  plan_emergency_isolation_def plan_smb_encryption_def plan_power_shell_logging_def plan_firewall_logging_def
  plan_security_options_def plan_defender_ransomware_def

lemma planner_typed:
  assumes "(ident, planner) \<in> set (planners P)" "planner parameters observed = Inr sem"
  shows "ident \<in> proposal_capabilities sem"
  using assms unfolding planners_def
  by (auto simp: planner_defs res_simps Let_def build_winget_plan_def evaluate_winget_self_heal_def
      evaluate_winget_configuration_def winget_evaluate_def split: if_splits)

lemma plan_observed_cases:
  assumes "plan_observed P ident parameters observed = Inr sem"
  obtains planner where "(ident, planner) \<in> set (planners P)" "planner parameters observed = Inr sem"
  | reason where "ident \<notin> set planner_ids" "sem = SemanticObservation observed reason"
proof (cases "find (\<lambda>(registered, _). registered = ident) (planners P)")
  case None
  then have "ident \<notin> set (map fst (planners P))" by (force simp: find_None_iff)
  with None assms show thesis
    by (auto simp: plan_observed_def res_simps planners_ids intro: that(2))
next
  case (Some e)
  then have "e \<in> set (planners P)" "fst e = ident" by (auto simp: find_Some_iff in_set_conv_nth)
  with Some assms show thesis
    by (cases e) (auto simp: plan_observed_def res_simps intro: that(1))
qed

text \<open>A sample for the witnesses: an endpoint whose SMB server neither encrypts nor rejects unencrypted clients.\<close>

definition sample_smb :: smb_encryption_observation where
  "sample_smb = \<lparr>seen_server_encrypt = Present False, seen_server_reject = Present False, seen_client_require = Present True\<rparr>"

definition sample_planner_env :: planner_env where
  "sample_planner_env =
     \<lparr>decode_parameters = \<lambda>_. Inl ''undecodable'', decode_observation = \<lambda>_. Inl ''undecodable'', dec_asr_policy = \<lambda>_. Inl ''undecodable'',
      dec_asr = \<lambda>_. Inl ''undecodable'', dec_office_parameters = \<lambda>_. Inl ''undecodable'', dec_office = \<lambda>_. Inl ''undecodable'',
      dec_update_health_parameters = \<lambda>_. Inl ''undecodable'', dec_update_health = \<lambda>_. Inl ''undecodable'', dec_tasks_parameters = \<lambda>_. Inl ''undecodable'',
      dec_tasks = \<lambda>_. Inl ''undecodable'', dec_winget_parameters = \<lambda>_. Inl ''undecodable'', dec_winget = \<lambda>_. Inl ''undecodable'',
      dec_remote_policy = \<lambda>_. Inl ''undecodable'', dec_remote = \<lambda>_. Inl ''undecodable'', dec_sysmon_policy = \<lambda>_. Inl ''undecodable'',
      dec_sysmon = \<lambda>_. Inl ''undecodable'', dec_baseline_parameters = \<lambda>_. Inl ''undecodable'', dec_baseline = \<lambda>_. Inl ''undecodable'',
      dec_isolation_policy = \<lambda>_. Inl ''undecodable'', dec_isolation = \<lambda>_. Inl ''undecodable'', dec_smb_policy = \<lambda>_. Inr smb_encryption_policy_default,
      dec_smb = \<lambda>_. Inr sample_smb, dec_power_shell_parameters = \<lambda>_. Inl ''undecodable'', dec_power_shell = \<lambda>_. Inl ''undecodable'',
      dec_logging_parameters = \<lambda>_. Inl ''undecodable'', dec_logging = \<lambda>_. Inl ''undecodable'', dec_security_policy = \<lambda>_. Inl ''undecodable'',
      dec_security = \<lambda>_. Inl ''undecodable'', dec_ransomware_policy = \<lambda>_. Inl ''undecodable'', dec_ransomware = \<lambda>_. Inl ''undecodable'',
      semantic_json = \<lambda>_. JNull, error_text = \<lambda>_. []\<rparr>"

definition sample_captured :: jvalue where
  "sample_captured = JObject [(''observation'', JNull)]"

lemma smb_registered: "lookup ''v3.smb.encryption'' \<noteq> None"
proof -
  have "list_ex (\<lambda>d. descriptor_id d = ''v3.smb.encryption'') capabilities" by code_simp
  then show ?thesis by (auto simp: lookup_def find_None_iff list_ex_iff)
qed

lemma sample_proposal:
  "\<exists>plan. plan_observed sample_planner_env ''v3.smb.encryption'' JNull sample_captured = Inr (SemanticSmbEncryption plan) \<and>
     map smb_field (smb_proposed_changes plan) = [ServerEncryptData, ServerRejectUnencryptedAccess]"
proof -
  obtain d where "lookup ''v3.smb.encryption'' = Some d" using smb_registered by blast
  then show ?thesis
    by (simp add: plan_observed_def ok_or_def require_observation_def sample_captured_def planners_def winget_self_heal_id_def
        winget_configuration_id_def plan_smb_encryption_def observation_of_def sample_planner_env_def sample_smb_def
        build_smb_encryption_plan_def evaluate_smb_encryption_def smb_evaluate_def smb_encryption_policy_default_def
        Let_def List.map_filter_def)
qed

text \<open>
  C18: every proposal has the shape of its own capability: the planner registered under an identifier returns the
  proposal variant of that capability and no other, and a capability without a planner only ever yields its observation,
  which proposes no change.
\<close>

theorem plan_observed_typed:
  assumes "plan_observed P ident parameters observed = Inr sem"
  shows "lookup ident \<noteq> None \<and> ident \<in> proposal_capabilities sem \<and>
    (ident \<notin> set planner_ids \<longrightarrow> \<not> proposes_changes sem)"
proof -
  have "lookup ident \<noteq> None" using assms by (auto simp: plan_observed_def res_simps ok_or_def split: option.splits)
  moreover have "ident \<in> proposal_capabilities sem \<and> (ident \<notin> set planner_ids \<longrightarrow> \<not> proposes_changes sem)"
    using assms
  proof (cases rule: plan_observed_cases)
    case (1 planner)
    moreover have "ident \<in> set planner_ids" using 1(1) planners_ids [of P] by (metis fst_conv image_eqI list.set_map)
    ultimately show ?thesis using planner_typed by blast
  qed (simp add: proposes_changes_def first_of_def)
  ultimately show ?thesis by blast
qed

theorem plan_observed_typed_witness:
  "\<exists>plan. plan_observed sample_planner_env ''v3.smb.encryption'' JNull sample_captured = Inr (SemanticSmbEncryption plan) \<and>
     ''v3.smb.encryption'' \<in> proposal_capabilities (SemanticSmbEncryption plan) \<and> proposes_changes (SemanticSmbEncryption plan)"
proof -
  obtain plan where plan: "plan_observed sample_planner_env ''v3.smb.encryption'' JNull sample_captured = Inr (SemanticSmbEncryption plan)"
      "smb_proposed_changes plan \<noteq> []"
    using sample_proposal by force
  with plan_observed_typed [OF plan(1)] show ?thesis by (auto simp: proposes_changes_def first_of_def)
qed

lemma registry_planner_evidence:
  "plan_office_browser P parameters observed = Inr sem \<Longrightarrow> rests_on_evidence P observed sem"
  "plan_windows_update P parameters observed = Inr sem \<Longrightarrow> rests_on_evidence P observed sem"
  "plan_security_options P parameters observed = Inr sem \<Longrightarrow> rests_on_evidence P observed sem"
  "plan_power_shell_logging P parameters observed = Inr sem \<Longrightarrow> rests_on_evidence P observed sem"
proof -
  show "rests_on_evidence P observed sem" if "plan_office_browser P parameters observed = Inr sem"
    using that by (fastforce simp: plan_office_browser_def res_simps Let_def list_ex_iff build_office_browser_plan_def split: if_splits)
  show "rests_on_evidence P observed sem" if "plan_windows_update P parameters observed = Inr sem"
    using that by (fastforce simp: plan_windows_update_def res_simps Let_def list_ex_iff build_windows_update_plan_def split: if_splits)
  show "rests_on_evidence P observed sem" if "plan_power_shell_logging P parameters observed = Inr sem"
    using that by (auto simp: plan_power_shell_logging_def res_simps build_power_shell_plan_eq power_shell_ready_def
        power_shell.drift_def power_shell_targets_def)
  show "rests_on_evidence P observed sem" if made: "plan_security_options P parameters observed = Inr sem"
  proof -
    obtain obs policy where p: "captured (dec_security P) observed obs" "sem = SemanticSecurityOptions (build_security_options_plan obs policy)"
        "\<forall>f\<in>fst ` set (so_desired_values (so_audit (build_security_options_plan obs policy))).
           readable_option (map_of (security_values_of (so_observation (so_audit (build_security_options_plan obs policy)))) f)"
      using made by (auto simp: plan_security_options_def res_simps Let_def list_ex_iff observation_of_Inr split: if_splits)
    let ?plan = "build_security_options_plan obs policy"
    have "so_observation (so_audit ?plan) = obs"
      by (simp add: build_security_options_plan_def evaluate_security_options_def Let_def case_prod_beta)
    moreover have "so_field ` set (so_proposed_changes ?plan) \<subseteq> fst ` set (so_desired_values (so_audit ?plan))"
      by (force simp: build_security_options_plan_def Let_def)
    ultimately show ?thesis using p by (fastforce simp: readable_option_iff)
  qed
qed

lemma network_planner_evidence:
  "plan_remote_guardrails P parameters observed = Inr sem \<Longrightarrow> rests_on_evidence P observed sem"
  "plan_firewall_baseline P parameters observed = Inr sem \<Longrightarrow> rests_on_evidence P observed sem"
  "plan_smb_encryption P parameters observed = Inr sem \<Longrightarrow> rests_on_evidence P observed sem"
  "plan_firewall_logging P parameters observed = Inr sem \<Longrightarrow> rests_on_evidence P observed sem"
proof -
  show "rests_on_evidence P observed sem" if "plan_remote_guardrails P parameters observed = Inr sem"
    using that by (auto simp: plan_remote_guardrails_def res_simps build_remote_guardrails_plan_def evaluate_remote_guardrails_def Let_def
        case_prod_beta observation_of_Inr guardrails_complete_read split: if_splits)
  show "rests_on_evidence P observed sem" if "plan_firewall_baseline P parameters observed = Inr sem"
    using that by (auto simp: plan_firewall_baseline_def res_simps build_firewall_baseline_plan_def baseline_blockers_empty Let_def
        observation_of_Inr baseline_complete_read split: if_splits) (simp_all add: evaluate_firewall_baseline_def Let_def)
  show "rests_on_evidence P observed sem" if "plan_firewall_logging P parameters observed = Inr sem"
    using that by (auto simp: plan_firewall_logging_def res_simps build_firewall_logging_plan_def Let_def logging_complete_read split: if_splits)
  show "rests_on_evidence P observed sem" if made: "plan_smb_encryption P parameters observed = Inr sem"
  proof -
    obtain obs plan where obs: "captured (dec_smb P) observed obs" "smb_complete obs" "sem = SemanticSmbEncryption plan"
      using made by (auto simp: plan_smb_encryption_def res_simps build_smb_encryption_plan_def smb_blockers_empty observation_of_Inr
          Let_def split: if_splits)
    then obtain a b c where "obs = \<lparr>seen_server_encrypt = Present a, seen_server_reject = Present b, seen_client_require = Present c\<rparr>"
      by (cases obs) (auto simp: smb_complete_def smb_all_fields is_present_iff)
    with obs show ?thesis by auto
  qed
qed

lemma defense_planner_evidence:
  "plan_emergency_isolation P parameters observed = Inr sem \<Longrightarrow> rests_on_evidence P observed sem"
  "plan_defender_ransomware P parameters observed = Inr sem \<Longrightarrow> rests_on_evidence P observed sem"
proof -
  show "rests_on_evidence P observed sem" if made: "plan_emergency_isolation P parameters observed = Inr sem"
  proof -
    obtain obs policy plan where p: "captured (dec_isolation P) observed obs" "preflight_blockers obs policy = []"
        "build_emergency_isolation_plan obs policy = Some plan" "sem = SemanticEmergencyIsolation plan"
      using made unfolding plan_emergency_isolation_def validate_emergency_isolation_preflight_def ok_or_def Let_def
      by (auto simp: res_simps observation_of_Inr split: if_split_asm option.split_asm)
    then have "iso_rollback plan = iso_profiles obs"
      by (auto simp: build_emergency_isolation_plan_def evaluate_emergency_isolation_def Let_def split: if_splits)
    with p show ?thesis by (auto simp: preflight_clear intro: profiles_complete_read)
  qed
  show "rests_on_evidence P observed sem" if made: "plan_defender_ransomware P parameters observed = Inr sem"
  proof -
    obtain obs policy where p: "captured (dec_ransomware P) observed obs"
        "sem = SemanticDefenderRansomware (build_defender_ransomware_plan obs policy)"
      using made by (auto simp: plan_defender_ransomware_def res_simps observation_of_Inr)
    have "dr_observation (dr_audit (build_defender_ransomware_plan obs policy)) = obs"
        "dr_policy (dr_audit (build_defender_ransomware_plan obs policy)) = policy"
      by (simp_all add: build_defender_ransomware_plan_def evaluate_defender_ransomware_def Let_def)
    with p show ?thesis by (auto simp: defender_changes_eq defender.drift_def intro: defender_differs_read)
  qed
qed

lemma planner_evidence:
  assumes "(ident, planner) \<in> set (planners P)" "planner parameters observed = Inr sem"
  shows "rests_on_evidence P observed sem"
  using assms unfolding planners_def
  by (auto intro: registry_planner_evidence network_planner_evidence defense_planner_evidence)
    (auto simp: plan_defender_asr_def plan_update_health_def plan_scheduled_tasks_def plan_winget_def plan_sysmon_def res_simps
      proposes_changes_def first_of_def)

text \<open>
  C14: no change is proposed on missing evidence. Whatever the parameters and the captured observation decode to, a
  proposal that is returned either proposes no change or rests on the captured observation. Office, browser and Windows
  Update policies: each value to be changed is in the snapshot, which is the rollback record. Security options: each was
  read, or found absent. PowerShell: the rollback record is the observed hive, and the module names are replaced only on
  request and after a complete read. Remote access, firewall profiles and firewall logging: every fixed value was read,
  and the firewall policy is locally writable. SMB: all three switches were read. Isolation: the rollback record is the
  observed profiles, the three of them with both actions read, and managed isolation was read as inactive. Defender: the
  value to be changed was read and differs.
\<close>

theorem proposals_rest_on_evidence:
  assumes "plan_observed P ident parameters observed = Inr sem"
  shows "rests_on_evidence P observed sem"
  using assms
proof (cases rule: plan_observed_cases)
  case (1 planner)
  then show ?thesis by (rule planner_evidence)
qed (simp add: proposes_changes_def first_of_def)

theorem proposals_rest_on_evidence_witness:
  "\<exists>plan. plan_observed sample_planner_env ''v3.smb.encryption'' JNull sample_captured = Inr (SemanticSmbEncryption plan) \<and>
     smb_proposed_changes plan \<noteq> [] \<and>
     (\<exists>a b c. captured (\<lambda>_. Inr sample_smb) sample_captured
        \<lparr>seen_server_encrypt = Present a, seen_server_reject = Present b, seen_client_require = Present c\<rparr>)"
proof -
  obtain plan where plan: "plan_observed sample_planner_env ''v3.smb.encryption'' JNull sample_captured = Inr (SemanticSmbEncryption plan)"
      "smb_proposed_changes plan \<noteq> []"
    using sample_proposal by force
  have "dec_smb sample_planner_env = (\<lambda>_. Inr sample_smb)" by (simp add: sample_planner_env_def)
  with plan proposals_rest_on_evidence [OF plan(1)] show ?thesis by auto
qed

text \<open>
  C17: every proposal can be carried out in parts. For each policy that proposes changes, after any number of the
  proposed changes have been made, planning again from the new state succeeds and proposes exactly the changes that
  are left, in the same order; when all have been made nothing is left.
\<close>

theorem proposals_resume:
  assumes "map_entries_ok (office_values_of o1)" "map_entries_ok (security_values_of o2)" "map_entries_ok (fw_profiles o4)"
  shows "resumable (\<lambda>obs. Inr (build_office_browser_plan obs d1) :: string + _) ob_mutations apply_office_mutation o1 \<and>
    resumable (\<lambda>obs. Inr (build_security_options_plan obs d2) :: string + _) security_plan_values apply_security_change o2 \<and>
    resumable (\<lambda>obs. build_power_shell_plan obs d3) ps_mutations apply_power_shell_mutation o3 \<and>
    resumable (\<lambda>obs. build_firewall_logging_plan obs d4) logging_changes (apply_logging_change d4) o4 \<and>
    resumable (\<lambda>obs. build_firewall_baseline_plan obs d5) baseline_changes (apply_baseline_change d5) o5 \<and>
    resumable (\<lambda>obs. build_smb_encryption_plan obs d6) (\<lambda>plan. map smb_field (smb_proposed_changes plan))
      (\<lambda>f. set_smb f (smb_want d6 f)) o6 \<and>
    resumable (\<lambda>obs. build_remote_guardrails_plan obs d7) rg_proposed_changes apply_remote_change o7 \<and>
    resumable (\<lambda>obs. Inr (build_defender_ransomware_plan obs d8) :: string + _) dr_proposed_changes (apply_defender_change d8) o8"
  by (intro conjI office_resumable security_resumable power_shell_resumable firewall_logging_resumable
      firewall_baseline_resumable smb_resumable remote_resumable defender_resumable assms)

theorem proposals_resume_witness:
  "\<exists>rest. build_power_shell_plan (fold apply_power_shell_mutation
       [SetDword EnableInvocationHeader 1, SetDword EnableModuleLogging 1] \<lparr>hklm = bare_hive, hkcu = None\<rparr>) plain_logging = Inr rest \<and>
     ps_mutations rest = [SetString TranscriptOutputDirectory ''C:'', ReplaceModuleNames [(1, ''*'')]]"
proof -
  obtain plan where plan: "build_power_shell_plan \<lparr>hklm = bare_hive, hkcu = None\<rparr> plain_logging = Inr plan"
     "ps_mutations plan = [SetDword EnableInvocationHeader 1, SetDword EnableModuleLogging 1,
       SetString TranscriptOutputDirectory ''C:'', ReplaceModuleNames [(1, ''*'')]]"
    using bare_plan by blast
  have "resumable (\<lambda>obs. build_power_shell_plan obs plain_logging) ps_mutations apply_power_shell_mutation
      \<lparr>hklm = bare_hive, hkcu = None\<rparr>"
    using proposals_resume [of "\<lparr>office_values_of = []\<rparr>" "\<lparr>security_values_of = []\<rparr>"
        "\<lparr>fw_profiles = [], fw_modify_state = ModifyUnknown\<rparr>"]
    by (simp add: map_entries_ok_def)
  with plan(1) obtain rest where
      "build_power_shell_plan (fold apply_power_shell_mutation (take 2 (ps_mutations plan)) \<lparr>hklm = bare_hive, hkcu = None\<rparr>)
         plain_logging = Inr rest" "ps_mutations rest = drop 2 (ps_mutations plan)"
    unfolding resumable_def by blast
  then show ?thesis by (simp add: plan(2))
qed

end
