(* ===== verification/Apply_Authority.thy ===== *)
theory Apply_Authority
  imports Planner Native_Action Semantic_Plan
begin

text \<open>
  The gates between a reviewed plan and its execution: the registry's action derivation
  (\<open>baselineops-engine/src/registry_deriver.rs\<close>), the approval of an exact digest (\<open>approval.rs\<close>), the worker's
  eligibility gate and fresh observation (\<open>apply_authority.rs\<close>), and the typed intents that the worker retains
  (\<open>native_intents.rs\<close>). The proposals they carry are those of \<open>Semantic_Plan\<close>.
\<close>

section \<open>Registry derivation\<close>

fun registry_operation_text :: "execution_intent \<Rightarrow> string" where
  "registry_operation_text IntentAudit = ''Audit''"
| "registry_operation_text IntentPlan = ''Plan''"
| "registry_operation_text IntentApply = ''Plan''"

definition supported_descriptor :: "profile_step \<Rightarrow> execution_intent \<Rightarrow> string + capability_descriptor" where
  "supported_descriptor step intent =
     and_then (ok_or (''unknown capability '' @ step_capability_id step) (lookup (step_capability_id step))) (\<lambda>d.
       if \<not> ops_audit (descriptor_operations d)
       then Inl (''capability '' @ descriptor_id d @ '' does not support '' @ registry_operation_text intent)
       else if maturity d \<notin> {CodeComplete, NativeImplemented}
       then Inl (''capability '' @ descriptor_id d @ '' has no code-complete native planner'')
       else Inr d)"

fun domain_privilege :: "cap_privilege \<Rightarrow> execution_intent \<Rightarrow> privilege" where
  "domain_privilege ElevatedForApply IntentApply = Administrator"
| "domain_privilege ElevatedForApply _ = User"
| "domain_privilege StandardUser _ = User"
| "domain_privilege AdministratorRequired _ = Administrator"

fun domain_risk :: "cap_risk \<Rightarrow> risk_level" where
  "domain_risk RegLow = RiskLow"
| "domain_risk RegMedium = RiskModerate"
| "domain_risk RegHigh = RiskHigh"
| "domain_risk RegCritical = RiskCritical"

fun domain_reboot :: "cap_reboot \<Rightarrow> reboot_requirement" where
  "domain_reboot RebootNo = NotRequired"
| "domain_reboot RebootPossible = Recommended"
| "domain_reboot RebootRequired = Required"

definition proposal_privilege :: "cap_privilege \<Rightarrow> bool \<Rightarrow> execution_intent \<Rightarrow> privilege" where
  "proposal_privilege registry changes intent =
     (if changes \<and> intent = IntentApply then Administrator else domain_privilege registry IntentAudit)"

fun eligibility_text :: "apply_eligibility \<Rightarrow> string" where
  "eligibility_text EligibilityNotApplicable = ''not_applicable''"
| "eligibility_text EvidenceRequired = ''evidence_required''"
| "eligibility_text EligibilityEnabled = ''enabled''"

text \<open>A \<open>BTreeMap\<close> built from an array is the fold of its insertions.\<close>

definition proposal_metadata ::
    "planner_env \<Rightarrow> json_map \<Rightarrow> semantic_plan \<Rightarrow> capability_descriptor \<Rightarrow> json_map" where
  "proposal_metadata P fs sem d =
     bt_insert ''apply_eligibility'' (JString (eligibility_text (eligibility d)))
     (bt_insert ''semantic_plan'' (semantic_json P sem)
     (bt_insert ''pre_state'' (JObject fs) []))"

definition step_preconditions :: "profile_step \<Rightarrow> digest \<Rightarrow> privilege \<Rightarrow> precondition list" where
  "step_preconditions step d priv =
     [CapabilityAvailable (step_capability_id step), ObservedStateDigest d] @
     (if priv = Administrator then [Elevation True] else [])"

definition plan_action ::
    "planner_env \<Rightarrow> profile_step \<Rightarrow> execution_intent \<Rightarrow> observed_state \<Rightarrow> json_map \<Rightarrow> capability_descriptor \<Rightarrow>
     string + planned_action" where
  "plan_action P step intent state fs d =
     and_then (ok_or ''captured native result is absent'' (map_of fs ''native_result'')) (\<lambda>native.
     and_then (plan_observed P (descriptor_id d) (JObject (step_parameters step)) native) (\<lambda>sem.
       let changes = proposes_changes sem;
           priv = proposal_privilege (descriptor_privilege d) changes intent in
       Inr \<lparr>action_id = step_id step, source_step = step_id step, action_capability = step_capability_id step,
         action_operation = operation_of_intent intent, action_parameters = step_parameters step,
         action_depends_on = step_depends_on step, action_continue_on_error = step_continue_on_error step,
         facts_digest = state_digest state, preconditions = step_preconditions step (state_digest state) priv,
         risk = domain_risk (descriptor_risk d),
         action_reversibility = (if changes then Irreversible else NotApplicable),
         reboot = (if changes then domain_reboot (descriptor_reboot d) else NotRequired),
         privileges = [priv], action_metadata = proposal_metadata P fs sem d\<rparr>))"

definition registry_derive :: "'h ext \<Rightarrow> planner_env \<Rightarrow> deriver" where
  "registry_derive E P step intent state =
     and_then (supported_descriptor step intent) (\<lambda>d.
     and_then (ok_or (''trusted observation is absent for capability '' @ descriptor_id d)
         (map_of (state_values state) (step_id step))) (\<lambda>observed.
     if observed_capability observed \<noteq> step_capability_id step
     then Inl ''observation does not match the profile step capability and parameters''
     else
       and_then (map_err (error_text P) (parameters_json_digest E (step_parameters step))) (\<lambda>pd.
         if parameters_digest observed \<noteq> pd
         then Inl ''observation does not match the profile step capability and parameters''
         else plan_action P step intent state (facts observed) d)))"

section \<open>Approval of an exact digest\<close>

datatype approval_error =
    DigestMismatch
  | ApplyIneligible capability_id string
  | ApprovalDomain domain_error

record plan_approval_session =
  session_plan :: plan
  session_digest :: digest

definition from_worker_plan :: "worker_plan \<Rightarrow> plan_approval_session" where
  "from_worker_plan w = \<lparr>session_plan = proposal w, session_digest = proposal_digest w\<rparr>"

record approved_plan =
  approved_verified :: verified_plan
  approved_digest :: digest
  trusted_root :: string

definition approve_at_root ::
    "'h ext \<Rightarrow> plan_approval_session \<Rightarrow> digest \<Rightarrow> plan_validation_context \<Rightarrow> string \<Rightarrow>
     approval_error + approved_plan" where
  "approve_at_root E session d live root =
     (if d \<noteq> session_digest session then Inl DigestMismatch
      else
        and_then (map_err ApprovalDomain (verify_for_execution E (session_plan session) live)) (\<lambda>v.
          Inr \<lparr>approved_verified = v, approved_digest = session_digest session, trusted_root = root\<rparr>))"

section \<open>Retained intents\<close>

record retained_intent =
  intent_action_id :: uuid
  intent_capability :: capability_id
  intent_semantic :: "semantic_plan"

definition retain_intent :: "planner_env \<Rightarrow> planned_action \<Rightarrow> json_map \<Rightarrow> planning_error + retained_intent" where
  "retain_intent P a fs =
     and_then (ok_or (Derivation ''worker native observation is absent'') (map_of fs ''native_result'')) (\<lambda>native.
     and_then (map_err Derivation (plan_observed P (action_capability a) (JObject (action_parameters a)) native)) (\<lambda>sem.
       if map_of (action_metadata a) ''semantic_plan'' \<noteq> Some (semantic_json P sem)
       then Inl (Derivation ''worker typed proposal differs from review metadata'')
       else Inr \<lparr>intent_action_id = action_id a, intent_capability = action_capability a, intent_semantic = sem\<rparr>))"

text \<open>The loop of \<open>from_worker_plan\<close>. Indexing the observations panics on an absent key: \<open>None\<close>.\<close>

fun retain_all ::
    "planner_env \<Rightarrow> (uuid \<times> observed_value) list \<Rightarrow> planned_action list \<Rightarrow>
     (planning_error + retained_intent list) option" where
  "retain_all P values [] = Some (Inr [])"
| "retain_all P values (a # as) =
     (case map_of values (source_step a) of
        None \<Rightarrow> None
      | Some v \<Rightarrow>
          (case retain_intent P a (facts v) of
             Inl e \<Rightarrow> Some (Inl e)
           | Inr i \<Rightarrow> map_option (\<lambda>r. and_then r (\<lambda>rest. Inr (i # rest))) (retain_all P values as)))"

definition retained_from_worker_plan ::
    "planner_env \<Rightarrow> worker_plan \<Rightarrow> (planning_error + retained_intent list) option" where
  "retained_from_worker_plan P w =
     retain_all P (state_values (plan_observed_state (proposal w))) (plan_actions (proposal w))"

definition validate_native_semantic :: "capability_id \<Rightarrow> semantic_plan \<Rightarrow> approval_error + unit" where
  "validate_native_semantic cap sem =
     and_then (ok_or (ApplyIneligible cap ''typed intent is not registered'') (lookup cap)) (\<lambda>d.
       if native_handler_of d \<noteq> HandlerWindowsUpdate \<or> cap \<noteq> ''v3.windows-update.policy''
       then Inl (ApplyIneligible cap ''a typed native execution and recovery contract is not implemented'')
       else case sem of
         SemanticWindowsUpdate plan \<Rightarrow>
           if wu_rollback plan \<noteq> wu_observation plan
           then Inl (ApplyIneligible cap ''typed intent lacks exact recovery pre-state'')
           else Inl (ApplyIneligible cap (''Windows Update requires verified containment, shipping recovery, '' @
             ''and Windows execution evidence''))
       | _ \<Rightarrow> Inl (ApplyIneligible cap ''semantic variant does not match the registered native handler''))"

definition validate_execution :: "retained_intent list \<Rightarrow> plan \<Rightarrow> approval_error + unit" where
  "validate_execution intents p =
     (if plan_resources p \<noteq> [] \<or> length intents \<noteq> length (plan_actions p) then Inl DigestMismatch
      else for_each (\<lambda>(intent, a).
        if intent_action_id intent \<noteq> action_id a \<or> intent_capability intent \<noteq> action_capability a
        then Inl DigestMismatch
        else validate_native_semantic (intent_capability intent) (intent_semantic intent))
        (zip intents (plan_actions p)))"

definition into_windows_update ::
    "retained_intent list \<Rightarrow> approval_error + (uuid \<times> capability_id \<times> windows_update_plan)" where
  "into_windows_update intents =
     (case intents of
        [intent] \<Rightarrow>
          if intent_capability intent \<noteq> ''v3.windows-update.policy''
          then Inl (ApplyIneligible (intent_capability intent) ''the dispatcher accepts only Windows Update'')
          else (case intent_semantic intent of
              SemanticWindowsUpdate plan \<Rightarrow> Inr (intent_action_id intent, intent_capability intent, plan)
            | _ \<Rightarrow> Inl DigestMismatch)
      | _ \<Rightarrow> Inl DigestMismatch)"

section \<open>The worker's authority\<close>

definition validate_action_eligibility :: "capability_id \<Rightarrow> approval_error + unit" where
  "validate_action_eligibility cap =
     and_then (ok_or (ApplyIneligible cap ''the action is absent from the compile-time capability registry'')
         (lookup cap)) (\<lambda>d.
       if maturity d \<noteq> NativeImplemented
       then Inl (ApplyIneligible cap ''capability maturity is code_complete; reviewed Windows evidence is open'')
       else if \<not> is_enabled (eligibility d) \<or> \<not> ops_apply (descriptor_operations d)
       then Inl (ApplyIneligible cap ''compiled production Apply eligibility is disabled'')
       else if apply_handler d = None
       then Inl (ApplyIneligible cap ''the sealed worker mutation handler is absent'')
       else Inr ())"

definition validate_apply_eligibility :: "plan \<Rightarrow> approval_error + unit" where
  "validate_apply_eligibility p = for_each (\<lambda>a. validate_action_eligibility (action_capability a)) (plan_actions p)"

record worker_apply_authority =
  authority_session :: plan_approval_session
  authority_intents :: "retained_intent list"

record approved_worker_apply =
  approved_plan_of :: approved_plan
  approved_intents :: "retained_intent list"

definition worker_approve ::
    "'h ext \<Rightarrow> worker_apply_authority \<Rightarrow> digest \<Rightarrow> plan_validation_context \<Rightarrow> string \<Rightarrow>
     approval_error + approved_worker_apply" where
  "worker_approve E authority d live root =
     and_then (approve_at_root E (authority_session authority) d live root) (\<lambda>verified.
     case approved_verified verified of VerifiedPlan p \<Rightarrow>
       and_then (validate_apply_eligibility p) (\<lambda>_.
       and_then (validate_execution (authority_intents authority) p) (\<lambda>_.
         Inr \<lparr>approved_plan_of = verified, approved_intents = authority_intents authority\<rparr>)))"

definition prepare_worker_apply ::
    "'h ext \<Rightarrow> datetime \<Rightarrow> planner_env \<Rightarrow> plan \<Rightarrow> profile \<Rightarrow> plan_build_context \<Rightarrow> datetime \<Rightarrow> uuid \<Rightarrow> uuid \<Rightarrow>
     (planning_error + worker_apply_authority) option" where
  "prepare_worker_apply E time_max P reviewed profile ctx now pid rid =
     (case rebuild_reviewed_apply_plan E time_max reviewed profile ctx (registry_derive E P) now pid rid of
        Inl e \<Rightarrow> Some (Inl e)
      | Inr w \<Rightarrow>
          map_option (\<lambda>r. and_then r (\<lambda>intents.
            Inr \<lparr>authority_session = from_worker_plan w, authority_intents = intents\<rparr>))
            (retained_from_worker_plan P w))"

section \<open>Fresh observation\<close>

definition observe_step ::
    "'h ext \<Rightarrow> (domain_error \<Rightarrow> string) \<Rightarrow> (profile_step \<Rightarrow> string + jvalue) \<Rightarrow> datetime \<Rightarrow>
     (uuid \<times> observed_value) list \<Rightarrow> profile_step \<Rightarrow> string + (uuid \<times> observed_value) list" where
  "observe_step E etext observe now values step =
     and_then (map_err etext (parameters_json_digest E (step_parameters step))) (\<lambda>pd.
     and_then (observe step) (\<lambda>native.
       Inr (bt_insert (step_id step) \<lparr>observed_capability = step_capability_id step, parameters_digest = pd,
         observed_at = now, facts = [(''native_result'', native)]\<rparr> values)))"

definition reobserve_profile ::
    "'h ext \<Rightarrow> (domain_error \<Rightarrow> string) \<Rightarrow> profile \<Rightarrow> (profile_step \<Rightarrow> string + jvalue) \<Rightarrow> datetime \<Rightarrow>
     string + observed_state" where
  "reobserve_profile E etext profile observe now =
     and_then (map_err etext (profile_validate profile)) (\<lambda>_.
     and_then (try_fold (observe_step E etext observe now) [] (profile_steps profile)) (\<lambda>values.
       let state = \<lparr>captured_at = now, state_digest = sha256 E [], state_values = values\<rparr> in
       and_then (map_err etext (calculated_digest E state)) (\<lambda>d. Inr (state\<lparr>state_digest := d\<rparr>))))"

text \<open>\<open>NativeObservationSource\<close>: an audit through the native dispatcher; \<open>reason_text\<close> prints a reason.\<close>

definition native_observe ::
    "bool \<Rightarrow> (native_handler \<Rightarrow> executor) \<Rightarrow> (unsupported \<Rightarrow> string) \<Rightarrow> profile_step \<Rightarrow> string + jvalue" where
  "native_observe windows native reason_text step =
     and_then (ok_or (''unknown capability '' @ step_capability_id step) (lookup (step_capability_id step))) (\<lambda>d.
       case dispatch_native windows native d CapAudit (JObject (step_parameters step)) of
         OutcomeCompleted r \<Rightarrow> Inr r
       | OutcomeUnsupported u \<Rightarrow> Inl (''native observation unavailable: '' @ reason_text u)
       | OutcomeFailed _ message \<Rightarrow> Inl (''native observation failed: '' @ message))"

section \<open>What approval guarantees\<close>

lemma approve_at_root_Inr_iff:
  "approve_at_root E session d live root = Inr v \<longleftrightarrow>
     d = session_digest session \<and> plan_structure_ok E (session_plan session) \<and>
     context_matches (session_plan session) live \<and>
     v = \<lparr>approved_verified = VerifiedPlan (session_plan session), approved_digest = d, trusted_root = root\<rparr>"
  using plan_structure_order [of E "session_plan session"]
  by (auto simp: approve_at_root_def verify_for_execution_def validate_against_Inr_iff res_simps)

text \<open>
  C3: what the operator approved is what may run. When the worker rebuilt a plan for an apply and its approval
  with a digest succeeds, then the plan whose digest the operator approved is, unless SHA-256 collides on the two
  plans, the plan that was submitted to the worker and the plan that was verified; it is valid, has not expired,
  and is bound to the live host, package, source, input and observed state.
\<close>

theorem approval_binds_plan:
  assumes "hasher_contract E" "string_contract E" "number_contract E" "uuid_contract E" "time_contract E"
    and "rebuild_reviewed_apply_plan E time_max submitted profile ctx derive now pid rid = Inr w"
    and "build_intent ctx = IntentApply"
    and "plan_digest E shown = Inr d" "plan_ok shown" "plan_ok submitted"
    and "no_collision E (plan_json E shown) (plan_json E submitted)"
    and "approve_at_root E (from_worker_plan w) d live root = Inr v"
  shows "submitted = shown \<and> approved_verified v = VerifiedPlan shown \<and> plan_structure_ok E shown \<and>
    context_matches shown live"
proof -
  have "submitted\<lparr>plan_intent := IntentApply\<rparr> = submitted"
    using assms(6) by (intro plan.equality) (simp_all add: rebuild_Inr_iff)
  then have w: "proposal w = submitted" "plan_digest E submitted = Inr (proposal_digest w)"
    using assms(6,7) by (auto simp: rebuild_Inr_iff)
  have v: "d = proposal_digest w" "plan_structure_ok E submitted" "context_matches submitted live"
    "approved_verified v = VerifiedPlan submitted"
    using assms(12) w(1) by (auto simp: approve_at_root_Inr_iff from_worker_plan_def)
  have "canonical_json_digest E Inr (plan_json E shown) = canonical_json_digest E Inr (plan_json E submitted)"
    using w(2) assms(8) v(1) by (simp add: plan_digest_def canonical_json_digest_eq [OF assms(1)])
  then have "plan_json E shown = plan_json E submitted"
    using canonical_digest_inj [OF assms(1-3)] assms(4,9-11) by simp
  then have "shown = submitted"
    by (rule plan_json_inj [OF assms(4,5,9,10)])
  with v show ?thesis by simp
qed

lemma eligibility_locked: "\<exists>msg. validate_action_eligibility cap = Inl (ApplyIneligible cap msg)"
proof (cases "lookup cap")
  case (Some d)
  have "maturity d \<noteq> NativeImplemented"
    using catalog_locked lookup_SomeD(1) [OF Some] by (simp add: list_all_iff)
  with Some show ?thesis by (simp add: validate_action_eligibility_def)
qed (simp add: validate_action_eligibility_def)

lemma semantic_locked: "\<exists>e. validate_native_semantic cap sem = Inl e"
  by (cases "lookup cap"; cases sem) (simp_all add: validate_native_semantic_def)

lemma validate_execution_locked:
  assumes "plan_actions p \<noteq> []"
  shows "\<exists>e. validate_execution intents p = Inl e"
proof -
  obtain a as where a: "plan_actions p = a # as" using assms by (cases "plan_actions p") auto
  show ?thesis
  proof (cases intents)
    case (Cons i others)
    with a semantic_locked [of "intent_capability i" "intent_semantic i"] show ?thesis
      by (auto simp: validate_execution_def)
  qed (simp add: validate_execution_def a)
qed

text \<open>
  C5: production apply is locked. No digest, live context or retained intent makes the worker approve a plan: the
  error of the approval itself is returned, and a plan that passes it is refused because its first capability is
  not eligible. The typed intents refuse it as well, so opening the registry alone would not unlock it.
\<close>

theorem apply_locked:
  "case approve_at_root E (authority_session authority) d live root of
     Inl e \<Rightarrow> worker_approve E authority d live root = Inl e
   | Inr v \<Rightarrow>
       (\<exists>action others msg. plan_actions (session_plan (authority_session authority)) = action # others \<and>
          worker_approve E authority d live root = Inl (ApplyIneligible (action_capability action) msg)) \<and>
       (\<exists>e. validate_execution (authority_intents authority) (session_plan (authority_session authority)) = Inl e)"
proof (cases "approve_at_root E (authority_session authority) d live root")
  case (Inr v)
  let ?p = "session_plan (authority_session authority)"
  have v: "plan_structure_ok E ?p" "approved_verified v = VerifiedPlan ?p"
    using Inr by (auto simp: approve_at_root_Inr_iff)
  then obtain action others where a: "plan_actions ?p = action # others"
    by (cases "plan_actions ?p") (auto simp: plan_structure_ok_def plan_actions_ok_def graph_fields_ok_def)
  obtain msg where "validate_action_eligibility (action_capability action) =
      Inl (ApplyIneligible (action_capability action) msg)"
    using eligibility_locked by blast
  then have "worker_approve E authority d live root = Inl (ApplyIneligible (action_capability action) msg)"
    by (simp add: worker_approve_def Inr v(2) validate_apply_eligibility_def a)
  with a validate_execution_locked [of ?p "authority_intents authority"] show ?thesis
    by (simp add: Inr)
qed (simp add: worker_approve_def)

section \<open>What the worker prepares\<close>

lemma retain_all_total:
  "\<forall>a\<in>set as. map_of values (source_step a) \<noteq> None \<Longrightarrow> \<exists>r. retain_all P values as = Some r"
  by (induction as) (auto split: option.split sum.split)

lemma retain_all_Inr:
  "retain_all P values as = Some (Inr is) \<Longrightarrow>
     list_all2 (\<lambda>a i. \<exists>v native. map_of values (source_step a) = Some v \<and>
       map_of (facts v) ''native_result'' = Some native \<and>
       plan_observed P (action_capability a) (JObject (action_parameters a)) native = Inr (intent_semantic i) \<and>
       map_of (action_metadata a) ''semantic_plan'' = Some (semantic_json P (intent_semantic i)) \<and>
       intent_action_id i = action_id a \<and> intent_capability i = action_capability a) as is"
  by (induction as arbitrary: "is")
     (auto simp: retain_intent_def res_simps split: option.splits sum.splits if_splits)

text \<open>
  Preparing a worker never panics, and a prepared worker holds the submitted plan with the worker's intent and
  one typed intent for each action, derived anew from the retained facts and equal to the reviewed proposal.
\<close>

lemma prepare_worker_apply_exact:
  obtains "\<exists>e. prepare_worker_apply E time_max P submitted profile ctx now pid rid = Some (Inl e)"
  | authority where "prepare_worker_apply E time_max P submitted profile ctx now pid rid = Some (Inr authority)"
    "session_plan (authority_session authority) = submitted\<lparr>plan_intent := build_intent ctx\<rparr>"
    "plan_digest E (session_plan (authority_session authority)) = Inr (session_digest (authority_session authority))"
    "map intent_action_id (authority_intents authority) = map action_id (plan_actions submitted)"
    "map intent_capability (authority_intents authority) = map action_capability (plan_actions submitted)"
proof (cases "rebuild_reviewed_apply_plan E time_max submitted profile ctx (registry_derive E P) now pid rid")
  case (Inl e)
  with that(1) show ?thesis by (simp add: prepare_worker_apply_def)
next
  case (Inr w)
  then have w: "proposal w = submitted\<lparr>plan_intent := build_intent ctx\<rparr>"
    "plan_digest E (proposal w) = Inr (proposal_digest w)" "plan_structure_ok E submitted"
    by (auto simp: rebuild_Inr_iff)
  then have "\<forall>a\<in>set (plan_actions submitted).
      map_of (state_values (plan_observed_state submitted)) (source_step a) \<noteq> None"
    by (auto simp: plan_structure_ok_def observations_bound_def observation_bound_def)
  then obtain r where r: "retain_all P (state_values (plan_observed_state submitted)) (plan_actions submitted) = Some r"
    using retain_all_total by blast
  show ?thesis
  proof (cases r)
    case (Inl e)
    with that(1) \<open>rebuild_reviewed_apply_plan _ _ _ _ _ _ _ _ _ = Inr w\<close> r show ?thesis
      by (simp add: prepare_worker_apply_def retained_from_worker_plan_def w(1))
  next
    case (Inr intents)
    note exact = retain_all_Inr [OF r [unfolded Inr]]
    have "map intent_action_id intents = map action_id (plan_actions submitted)"
      "map intent_capability intents = map action_capability (plan_actions submitted)"
      using exact by (induction rule: list_all2_induct) auto
    then show ?thesis
      using that(2) [of "\<lparr>authority_session = from_worker_plan w, authority_intents = intents\<rparr>"]
        \<open>rebuild_reviewed_apply_plan _ _ _ _ _ _ _ _ _ = Inr w\<close> r Inr w
      by (simp add: prepare_worker_apply_def retained_from_worker_plan_def from_worker_plan_def)
  qed
qed

text \<open>A fresh observation covers every step of the profile and carries its own digest.\<close>

lemma observe_step_Inr_iff:
  "observe_step E etext observe now values step = Inr values' \<longleftrightarrow>
     (\<exists>pd native. parameters_json_digest E (step_parameters step) = Inr pd \<and> observe step = Inr native \<and>
        values' = bt_insert (step_id step) \<lparr>observed_capability = step_capability_id step, parameters_digest = pd,
          observed_at = now, facts = [(''native_result'', native)]\<rparr> values)"
  by (auto simp: observe_step_def res_simps)

lemma observe_steps_Inr:
  assumes "try_fold (observe_step E etext observe now) values steps = Inr values'" "map_entries_ok values"
    and "distinct (map step_id steps)"
  shows "map_entries_ok values' \<and>
    (\<forall>step\<in>set steps. \<exists>v native. map_of values' (step_id step) = Some v \<and> observe step = Inr native \<and>
       observed_capability v = step_capability_id step \<and> observed_at v = now \<and>
       parameters_json_digest E (step_parameters step) = Inr (parameters_digest v) \<and>
       facts v = [(''native_result'', native)]) \<and>
    (\<forall>k. k \<notin> step_id ` set steps \<longrightarrow> map_of values' k = map_of values k)"
  using assms
proof (induction steps arbitrary: "values")
  case (Cons step steps)
  then obtain pd native where s: "parameters_json_digest E (step_parameters step) = Inr pd" "observe step = Inr native"
    "try_fold (observe_step E etext observe now)
      (bt_insert (step_id step) \<lparr>observed_capability = step_capability_id step, parameters_digest = pd,
         observed_at = now, facts = [(''native_result'', native)]\<rparr> values) steps = Inr values'"
    by (auto simp: observe_step_Inr_iff and_then_Inr_iff)
  from Cons.IH [OF s(3) map_entries_ok_insert [OF Cons.prems(2)]] Cons.prems(2,3) s(1,2) show ?case
    by (auto simp: map_of_bt_insert)
qed simp

lemma reobserve_profile_fresh:
  assumes "reobserve_profile E etext profile observe now = Inr state" "step \<in> set (profile_steps profile)"
  shows "map_entries_ok (state_values state)" "calculated_digest E state = Inr (state_digest state)"
    "\<exists>v native. map_of (state_values state) (step_id step) = Some v \<and> observe step = Inr native \<and>
       observed_capability v = step_capability_id step \<and> facts v = [(''native_result'', native)] \<and>
       parameters_json_digest E (step_parameters step) = Inr (parameters_digest v)"
proof -
  obtain vs order where r: "profile_validate profile = Inr order"
    "try_fold (observe_step E etext observe now) [] (profile_steps profile) = Inr vs"
    "state_values state = vs" "calculated_digest E (state\<lparr>state_digest := sha256 E []\<rparr>) = Inr (state_digest state)"
    using assms(1) by (auto simp: reobserve_profile_def Let_def res_simps)
  have "distinct (map step_id (profile_steps profile))"
    using r(1) profile_validate_Inr_iff [of profile] by (auto simp: profile_ok_def graph_fields_ok_def closed_deps_def)
  from observe_steps_Inr [OF r(2) _ this] assms(2) r(3)
  show "map_entries_ok (state_values state)"
    "\<exists>v native. map_of (state_values state) (step_id step) = Some v \<and> observe step = Inr native \<and>
       observed_capability v = step_capability_id step \<and> facts v = [(''native_result'', native)] \<and>
       parameters_json_digest E (step_parameters step) = Inr (parameters_digest v)"
    by auto
  show "calculated_digest E state = Inr (state_digest state)"
    using r(4) by (simp add: calculated_digest_def observed_facts_json_def canonical_json_digest_def
        canonical_json_value_def)
qed

section \<open>A sample approval\<close>

definition sample_live :: plan_validation_context where
  "sample_live = \<lparr>context_now = 6, context_intent = IntentApply, context_host = sample_host ''pc'',
     context_tool = plan_tool (sample_plan 1), context_package_digest = [], context_source = plan_source (sample_plan 1),
     context_input = plan_input (sample_plan 1), context_observed_state_digest = state_digest sample_state\<rparr>"

theorem approval_binds_plan_witness:
  "plan_structure_ok id_ext (sample_built 5) \<and> context_matches (sample_built 5) sample_live"
proof -
  have ok: "plan_ok (sample_built 5)"
    using sample_state_valid(2)
    by (simp add: plan_ok_def sample_built_def sample_plan_def u64_bound_def planned_action_ok_def sample_action_def)
  have d: "plan_digest id_ext (sample_built 5) = Inr (proposal_digest (sample_worker 5))"
    by (simp add: plan_digest_total [OF id_ext_contracts(1)] sample_worker_def)
  have "context_matches (sample_built 5) sample_live"
    by (simp add: context_matches_def sample_built_def sample_plan_def sample_live_def one_second_def)
  then have "\<exists>v. approve_at_root id_ext (from_worker_plan (sample_worker 5)) (proposal_digest (sample_worker 5))
      sample_live [] = Inr v"
    using sample_build_plan [of 5 "10 ^ 12"]
    by (auto simp: approve_at_root_Inr_iff from_worker_plan_def build_plan_Inr_iff one_second_def sample_worker_def)
  then obtain v where "approve_at_root id_ext (from_worker_plan (sample_worker 5)) (proposal_digest (sample_worker 5))
      sample_live [] = Inr v" ..
  from approval_binds_plan [OF id_ext_contracts sample_rebuild _ d ok ok _ this]
  show ?thesis by (simp add: sample_build_def no_collision_def)
qed

end
