(* ===== verification/Protected_Run.thy ===== *)
theory Protected_Run
  imports Committed_Result Apply_Authority
begin

text \<open>
  One approved run from dispatch to its result: \<open>baselineops-engine/src/native_execution.rs\<close> and
  \<open>native_execution/native.rs\<close>, over the protected directory of \<open>baselineops-windows/src/protected_run.rs\<close>. The
  clock, the identifier generator, the directory, the outcome of each journal write and the registry are
  functions on a world of any type; \<open>show_error\<close> and \<open>show_detail\<close> are the texts of the messages. The files of the
  run outlive the port, so the port is returned beside the result.
\<close>

section \<open>The world\<close>

datatype run_artifact_kind = RunEvidence | RunRecoverySnapshot | RunResult

fun kind_file_name :: "run_artifact_kind \<Rightarrow> string" where
  "kind_file_name RunEvidence = ''evidence.json''"
| "kind_file_name RunRecoverySnapshot = ''recovery.json''"
| "kind_file_name RunResult = ''result.json''"

definition kind_maximum_bytes :: "run_artifact_kind \<Rightarrow> usize" where
  "kind_maximum_bytes k = max_evidence_bytes"

definition validate_artifact_bytes :: "run_artifact_kind \<Rightarrow> byte list \<Rightarrow> platform_error + unit" where
  "validate_artifact_bytes k bytes =
     (if length bytes > kind_maximum_bytes k then Inl (InputTooLarge (kind_file_name k) (kind_maximum_bytes k))
      else Inr ())"

text \<open>
  \<open>write_run_file\<close> is the write of a new file in the retained directory; it returns the last component of the
  path, when that is Unicode. \<open>create_run_journal\<close> creates the journal file and makes its marker durable.
\<close>

record 'w native_world =
  now :: "'w \<Rightarrow> datetime \<times> 'w"
  new_id :: "'w \<Rightarrow> uuid \<times> 'w"
  journal_io :: "'w \<Rightarrow> io_outcome \<times> 'w"
  create_run :: "'w \<Rightarrow> (platform_error + uuid) \<times> 'w"
  create_run_journal :: "uuid \<Rightarrow> 'w \<Rightarrow> (journal_error + unit) \<times> 'w"
  write_run_file :: "uuid \<Rightarrow> string \<Rightarrow> byte list \<Rightarrow> 'w \<Rightarrow> (platform_error + string option) \<times> 'w"
  observe_policy :: "'w \<Rightarrow> (string + windows_update_observation) \<times> 'w"
  apply_policy :: "windows_update_field \<Rightarrow> policy_value_snapshot \<Rightarrow> policy_value_snapshot \<Rightarrow> 'w \<Rightarrow>
    (string + policy_value_snapshot) \<times> 'w"
  collect_host :: "'w \<Rightarrow> (platform_error + host_identity) \<times> 'w"
  is_cancelled :: "'w \<Rightarrow> bool \<times> 'w"

datatype native_execution_error =
    NativeRejected string
  | NativeApproval approval_error
  | NativePlatform platform_error
  | NativeJournal journal_error
  | NativeDomain domain_error

fun error_result_status :: "native_execution_error \<Rightarrow> result_status" where
  "error_result_status (NativeRejected _) = StRejected"
| "error_result_status (NativeApproval _) = StRejected"
| "error_result_status (NativePlatform _) = StExecutionFailed"
| "error_result_status (NativeJournal _) = StExecutionFailed"
| "error_result_status (NativeDomain _) = StExecutionFailed"

datatype native_action_phase = ActionPhaseStarted | ActionPhaseFinished

text \<open>\<open>port_progress\<close> lists what was offered to the progress channel, which may drop it. \<open>port_files\<close> are the
  files of the run that were written.\<close>

record 'w native_port =
  port_run :: uuid
  port_files :: "(string \<times> byte list) list"
  port_journal :: journal
  port_plan_id :: uuid
  port_plan_digest :: digest
  port_expires_at :: datetime
  port_action_started :: bool
  port_action_id :: uuid
  port_progress :: "(uuid \<times> native_action_phase) list option"
  port_artifacts :: "artifact list"
  port_world :: 'w

definition in_world :: "('w \<Rightarrow> 'r \<times> 'w) \<Rightarrow> 'w native_port \<Rightarrow> 'r \<times> 'w native_port" where
  "in_world f p = (let (r, w) = f (port_world p) in (r, p\<lparr>port_world := w\<rparr>))"

section \<open>Operations of the port\<close>

definition port_journal_append ::
    "'h ext \<Rightarrow> 'w native_world \<Rightarrow> journal_event \<Rightarrow> 'w native_port \<Rightarrow> (journal_error + unit) \<times> 'w native_port" where
  "port_journal_append E W event p =
     (let (ts, p) = in_world (now W) p;
          (io, p) = in_world (journal_io W) p;
          (r, j) = journal_append E io (port_journal p) ts event
      in (and_then r (\<lambda>_. Inr ()), p\<lparr>port_journal := j\<rparr>))"

definition write_run_artifact ::
    "'w native_world \<Rightarrow> run_artifact_kind \<Rightarrow> byte list \<Rightarrow> 'w native_port \<Rightarrow>
     (platform_error + string option) \<times> 'w native_port" where
  "write_run_artifact W k bytes p =
     st_then (validate_artifact_bytes k bytes, p) (\<lambda>_ p.
     st_then (in_world (write_run_file W (port_run p) (kind_file_name k) bytes) p) (\<lambda>leaf p.
       (Inr leaf, p\<lparr>port_files := (kind_file_name k, bytes) # port_files p\<rparr>)))"

definition write_artifact ::
    "'h ext \<Rightarrow> 'w native_world \<Rightarrow> run_artifact_kind \<Rightarrow> artifact_kind \<Rightarrow> byte list \<Rightarrow> 'w native_port \<Rightarrow>
     (native_execution_error + artifact) \<times> 'w native_port" where
  "write_artifact E W k akind bytes p =
     (case write_run_artifact W k bytes p of
        (Inl e, p) \<Rightarrow> (Inl (NativePlatform e), p)
      | (Inr None, p) \<Rightarrow> (Inl (NativeRejected ''protected artifact has no finite filename''), p)
      | (Inr (Some name), p) \<Rightarrow>
          let (aid, p) = in_world (new_id W) p;
              (at, p) = in_world (now W) p
          in (Inr \<lparr>artifact_id = aid, artifact_class = akind, media_type = ''application/json'',
                artifact_locator = uuid_text E (port_run p) @ ''/'' @ name, artifact_digest = of_bytes E bytes,
                artifact_size_bytes = length bytes, artifact_created_at = at, artifact_metadata = []\<rparr>, p))"

definition retain_artifact ::
    "'h ext \<Rightarrow> 'w native_world \<Rightarrow> run_artifact_kind \<Rightarrow> artifact_kind \<Rightarrow> byte list \<Rightarrow> 'w native_port \<Rightarrow>
     (native_execution_error + unit) \<times> 'w native_port" where
  "retain_artifact E W k akind bytes p =
     st_then (write_artifact E W k akind bytes p) (\<lambda>a p. (Inr (), p\<lparr>port_artifacts := port_artifacts p @ [a]\<rparr>))"

definition require_fresh :: "'w native_world \<Rightarrow> 'w native_port \<Rightarrow> (string + unit) \<times> 'w native_port" where
  "require_fresh W p =
     (let (t, p) = in_world (now W) p in
      (if t \<ge> port_expires_at p then Inl ''approval expired before the next native boundary'' else Inr (), p))"

definition port_observe ::
    "'w native_world \<Rightarrow> 'w native_port \<Rightarrow> (string + windows_update_observation) \<times> 'w native_port" where
  "port_observe W p =
     st_then (if port_action_started p then (Inr (), p) else require_fresh W p) (\<lambda>_ p.
       in_world (observe_policy W) p)"

definition recovery_json ::
    "'h ext \<Rightarrow> uuid \<Rightarrow> digest \<Rightarrow> uuid \<Rightarrow> windows_update_observation \<Rightarrow> windows_update_observation \<Rightarrow> jvalue" where
  "recovery_json E pid pd aid pre post = obj [
     field ''schema_version'' (JString ''1.0''), field ''plan_id'' (juuid E pid), field ''plan_digest'' (jdigest pd),
     field ''action_id'' (juuid E aid), field ''before'' (observation_json pre),
     field ''expected_after'' (observation_json post),
     field ''recovery'' (JString (''manual: independently inspect current policy before restoring captured values; '' @
       ''this document grants no execution authority''))]"

definition port_persist_recovery ::
    "'h ext \<Rightarrow> 'w native_world \<Rightarrow> (native_execution_error \<Rightarrow> string) \<Rightarrow> uuid \<Rightarrow> windows_update_observation \<Rightarrow>
     windows_update_observation \<Rightarrow> 'w native_port \<Rightarrow> (string + unit) \<times> 'w native_port" where
  "port_persist_recovery E W show_error aid pre post p =
     (case canonical_json_bytes E Inr (recovery_json E (port_plan_id p) (port_plan_digest p) aid pre post) of
        Inl e \<Rightarrow> (Inl (show_error (NativeDomain e)), p)
      | Inr bytes \<Rightarrow>
          (case retain_artifact E W RunRecoverySnapshot RollbackState bytes p of
             (Inl e, p) \<Rightarrow> (Inl (show_error e), p)
           | (Inr _, p) \<Rightarrow> (Inr (), p)))"

definition event_phase :: "journal_event \<Rightarrow> native_action_phase option" where
  "event_phase event = (case event of
     ActionStarted _ _ \<Rightarrow> Some ActionPhaseStarted
   | ActionFinished _ _ _ \<Rightarrow> Some ActionPhaseFinished
   | _ \<Rightarrow> None)"

definition notify :: "native_action_phase option \<Rightarrow> 'w native_port \<Rightarrow> 'w native_port" where
  "notify phase p =
     (case (port_progress p, phase) of
        (Some sent, Some ph) \<Rightarrow> p\<lparr>port_progress := Some (sent @ [(port_action_id p, ph)])\<rparr>
      | _ \<Rightarrow> p)"

definition port_append ::
    "'h ext \<Rightarrow> 'w native_world \<Rightarrow> (native_execution_error \<Rightarrow> string) \<Rightarrow> journal_event \<Rightarrow> 'w native_port \<Rightarrow>
     (string + unit) \<times> 'w native_port" where
  "port_append E W show_error event p =
     (case port_journal_append E W event p of
        (Inl e, p) \<Rightarrow> (Inl (show_error (NativeJournal e)), p)
      | (Inr _, p) \<Rightarrow>
          (Inr (), notify (event_phase event)
             (p\<lparr>port_action_started := port_action_started p \<or> event_phase event = Some ActionPhaseStarted\<rparr>)))"

definition port_mutate ::
    "'w native_world \<Rightarrow> windows_update_field \<Rightarrow> policy_value_snapshot \<Rightarrow> policy_value_snapshot \<Rightarrow> 'w native_port \<Rightarrow>
     (string + policy_value_snapshot) \<times> 'w native_port" where
  "port_mutate W f expected desired p =
     st_then (require_fresh W p) (\<lambda>_ p. in_world (apply_policy W f expected desired) p)"

definition native_action_port ::
    "'h ext \<Rightarrow> 'w native_world \<Rightarrow> (native_execution_error \<Rightarrow> string) \<Rightarrow> 'w native_port action_port" where
  "native_action_port E W show_error = \<lparr>
     act_observe = port_observe W,
     act_persist_recovery = port_persist_recovery E W show_error,
     act_append = port_append E W show_error,
     act_mutate = port_mutate W\<rparr>"

section \<open>Finalization\<close>

record 's finalization_port =
  write_pending_result :: "byte list \<Rightarrow> 's \<Rightarrow> (native_execution_error + artifact) \<times> 's"
  commit_result :: "uuid \<Rightarrow> digest \<Rightarrow> 's \<Rightarrow> (native_execution_error + unit) \<times> 's"

definition verify_artifact :: "artifact \<Rightarrow> digest \<Rightarrow> usize \<Rightarrow> native_execution_error + unit" where
  "verify_artifact a expected_digest expected_size =
     (if expected_size \<ge> u64_bound then Inl (NativeRejected ''result document size is not representable'')
      else if artifact_digest a \<noteq> expected_digest \<or> artifact_size_bytes a \<noteq> expected_size
      then Inl (NativeRejected ''pending result artifact does not match its canonical document'') else Inr ())"

definition finalize_result ::
    "'h ext \<Rightarrow> 's finalization_port \<Rightarrow> uuid \<Rightarrow> byte list \<Rightarrow> 's \<Rightarrow> (native_execution_error + artifact) \<times> 's" where
  "finalize_result E port rid bytes s =
     (let expected_digest = of_bytes E bytes in
      st_then (write_pending_result port bytes s) (\<lambda>a s.
      st_then (verify_artifact a expected_digest (length bytes), s) (\<lambda>_ s.
      st_then (commit_result port rid expected_digest s) (\<lambda>_ s.
        (Inr a, s)))))"

definition append_run_finished ::
    "'h ext \<Rightarrow> 'w native_world \<Rightarrow> uuid \<Rightarrow> digest \<Rightarrow> 'w native_port \<Rightarrow>
     (native_execution_error + unit) \<times> 'w native_port" where
  "append_run_finished E W rid d p =
     (let (r, p) = port_journal_append E W (RunFinished rid d) p in (map_err NativeJournal r, p))"

definition native_finalization_port :: "'h ext \<Rightarrow> 'w native_world \<Rightarrow> 'w native_port finalization_port" where
  "native_finalization_port E W = \<lparr>
     write_pending_result = write_artifact E W RunResult Report,
     commit_result = append_run_finished E W\<rparr>"

definition result_document_of ::
    "uuid \<Rightarrow> worker_result \<Rightarrow> bool \<Rightarrow> 'w native_port \<Rightarrow> result_document" where
  "result_document_of rid r restart p = \<lparr>document_schema = ''1.0'', document_result_id = rid,
     document_plan_id = worker_plan_id r, document_run_id = worker_run_id r,
     document_plan_digest = worker_plan_digest r, journal_prefix_hash = chain_hash (port_journal p),
     document_receipts = receipts r, document_status = final_status r, document_reason = reason r,
     document_reboot_possible = restart, document_artifacts = port_artifacts p\<rparr>"

definition finalize_document ::
    "'h ext \<Rightarrow> 'w native_world \<Rightarrow> worker_result \<Rightarrow> bool \<Rightarrow> 'w native_port \<Rightarrow>
     (native_execution_error + unit) \<times> 'w native_port" where
  "finalize_document E W r restart p =
     (let (rid, p) = in_world (new_id W) p in
      st_then (map_err NativeDomain (document_bytes E (result_document_of rid r restart p)), p) (\<lambda>bytes p.
      st_then (finalize_result E (native_finalization_port E W) rid bytes p) (\<lambda>a p.
        (Inr (), p\<lparr>port_artifacts := port_artifacts p @ [a]\<rparr>))))"

text \<open>\<open>chars().take(n)\<close>: a character is a leading byte with its continuation bytes.\<close>

fun take_chars :: "nat \<Rightarrow> string \<Rightarrow> string" where
  "take_chars n [] = []"
| "take_chars n (c # cs) =
     (if byte_in 128 191 c then c # take_chars n cs
      else case n of 0 \<Rightarrow> [] | Suc m \<Rightarrow> c # take_chars m cs)"

definition bounded_detail :: "string \<Rightarrow> string" where
  "bounded_detail d = take_chars 512 d"

definition finalization_reason :: "string \<Rightarrow> string" where
  "finalization_reason text = ''Result finalization failed: '' @ bounded_detail text @
     ''. Preserve the run for manual recovery; no further action was attempted.''"

definition finish ::
    "'h ext \<Rightarrow> 'w native_world \<Rightarrow> (native_execution_error \<Rightarrow> string) \<Rightarrow> worker_result \<Rightarrow> bool \<Rightarrow> bool \<Rightarrow>
     'w native_port \<Rightarrow> (native_execution_error + worker_result) \<times> 'w native_port" where
  "finish E W show_error r may_finish restart p =
     (let (outcome, p) = (if may_finish then finalize_document E W r restart p else (Inr (), p));
          r = (case outcome of
                 Inl e \<Rightarrow> r\<lparr>final_status := StExecutionFailed, worker_exit_code := as_i32 ExExecutionFailure,
                   reason := Some (finalization_reason (show_error e))\<rparr>
               | Inr _ \<Rightarrow> r);
          r = r\<lparr>artifact_manifest := port_artifacts p, journal_terminal_hash := Some (chain_hash (port_journal p))\<rparr>
      in (and_then (map_err NativeDomain (validate_worker_result r)) (\<lambda>_. Inr r), p))"

section \<open>Dispatch\<close>

definition port_create ::
    "'h ext \<Rightarrow> 'w native_world \<Rightarrow> approved_plan \<Rightarrow> bool \<Rightarrow> 'w \<Rightarrow>
     ((native_execution_error + 'w native_port) \<times> 'w) option" where
  "port_create E W verified progress w =
     (let plan = as_plan (approved_verified verified) in
      case create_run W w of
        (Inl e, w) \<Rightarrow> Some (Inl (NativePlatform e), w)
      | (Inr run, w) \<Rightarrow>
     (case create_run_journal W run w of
        (Inl e, w) \<Rightarrow> Some (Inl (NativeJournal e), w)
      | (Inr _, w) \<Rightarrow>
     (let (ts, w) = now W w;
          (io, w) = journal_io W w in
      case journal_append E io (initialize E committed_limits) ts
          (PlanApproved (plan_id plan) (approved_digest verified)) of
        (Inl e, j) \<Rightarrow> Some (Inl (NativeJournal e), w)
      | (Inr _, j) \<Rightarrow>
     (case plan_actions plan of
        [] \<Rightarrow> None
      | a # _ \<Rightarrow> Some (Inr \<lparr>port_run = run, port_files = [], port_journal = j, port_plan_id = plan_id plan,
           port_plan_digest = approved_digest verified, port_expires_at = plan_expires_at plan,
           port_action_started = False, port_action_id = action_id a,
           port_progress = (if progress then Some [] else None), port_artifacts = [], port_world = w\<rparr>, w)))))"

definition require_boundary ::
    "'w native_world \<Rightarrow> approved_plan \<Rightarrow> string \<Rightarrow> 'w \<Rightarrow> (native_execution_error + unit) \<times> 'w" where
  "require_boundary W verified installation_root w =
     (let plan = as_plan (approved_verified verified);
          (t, w) = now W w
      in if t \<ge> plan_expires_at plan then (Inl (NativeRejected ''approval expired before dispatch''), w)
         else if installation_root \<noteq> trusted_root verified \<or> length (plan_actions plan) \<noteq> 1
         then (Inl (NativeRejected ''installation or action scope differs from approval''), w)
         else case collect_host W w of
           (Inl _, w) \<Rightarrow> (Inl (NativeRejected ''host identity could not be revalidated''), w)
         | (Inr host, w) \<Rightarrow>
             (if host \<noteq> plan_host plan then Inl (NativeRejected ''host identity changed before dispatch'')
              else Inr (), w))"

definition result_base :: "approved_plan \<Rightarrow> result_status \<Rightarrow> string option \<Rightarrow> worker_result" where
  "result_base verified status why =
     (let plan = as_plan (approved_verified verified) in
      \<lparr>worker_plan_id = plan_id plan, worker_run_id = plan_run_id plan, worker_plan_digest = approved_digest verified,
       journal_terminal_hash = None, receipts = [], artifact_manifest = [], final_status = status, reason = why,
       worker_exit_code = as_i32 (for_status status)\<rparr>)"

fun failure_status :: "failure_phase \<Rightarrow> result_status" where
  "failure_status PhasePrecondition = StRejected"
| "failure_status PhaseRecoveryEvidence = StExecutionFailed"
| "failure_status PhaseJournal = StExecutionFailed"
| "failure_status PhaseMutation = StExecutionFailed"
| "failure_status PhasePostcondition = StExecutionFailed"

fun phase_debug :: "failure_phase \<Rightarrow> string" where
  "phase_debug PhasePrecondition = ''Precondition''"
| "phase_debug PhaseRecoveryEvidence = ''RecoveryEvidence''"
| "phase_debug PhaseJournal = ''Journal''"
| "phase_debug PhaseMutation = ''Mutation''"
| "phase_debug PhasePostcondition = ''Postcondition''"

definition recovery_note :: "bool \<Rightarrow> string" where
  "recovery_note attempted =
     (if attempted
      then '' Changes may have occurred. Review recovery.json and independently restore captured values; '' @
        ''no automatic rollback was performed. A reboot may be required.''
      else '' No native mutation was attempted.'')"

definition outcome_result ::
    "(detail \<Rightarrow> string) \<Rightarrow> approved_plan \<Rightarrow> action_outcome \<Rightarrow> worker_result" where
  "outcome_result show_detail verified out =
     (case outcome_failure out of
        Some f \<Rightarrow> result_base verified (failure_status (failure_phase_of f))
          (Some (phase_debug (failure_phase_of f) @ '' failed: '' @ bounded_detail (show_detail (failure_detail f)) @
             ''.'' @ recovery_note (mutation_attempted f)))
      | None \<Rightarrow> result_base verified StCompleted
          (if outcome_reboot_possible out then Some ''Policy changes verified. A reboot may be required.'' else None))"

definition setup_failure ::
    "(native_execution_error \<Rightarrow> string) \<Rightarrow> approved_plan \<Rightarrow> native_execution_error \<Rightarrow> worker_result" where
  "setup_failure show_error verified e =
     result_base verified StExecutionFailed
       (Some (''Protected run setup failed before action execution: '' @ bounded_detail (show_error e)))"

text \<open>The run on a created port. \<open>None\<close> is a panic.\<close>

definition run_port ::
    "'h ext \<Rightarrow> 'w native_world \<Rightarrow> (native_execution_error \<Rightarrow> string) \<Rightarrow> (detail \<Rightarrow> string) \<Rightarrow> approved_plan \<Rightarrow>
     uuid \<Rightarrow> capability_id \<Rightarrow> windows_update_plan \<Rightarrow> 'w native_port \<Rightarrow>
     ((native_execution_error + worker_result) \<times> 'w native_port) option" where
  "run_port E W show_error show_detail verified aid cap plan p =
     (let (cancelled, p) = in_world (is_cancelled W) p in
      if cancelled
      then Some (finish E W show_error (result_base verified StCancelled (Some ''Cancelled before action execution.''))
        True False p)
      else map_option (\<lambda>(out, p).
        let r = outcome_result show_detail verified out;
            r = r\<lparr>receipts := receipts r @ (case outcome_receipt out of None \<Rightarrow> [] | Some x \<Rightarrow> [x])\<rparr>
        in finish E W show_error r (may_finish_run out) (outcome_reboot_possible out) p)
        (execute_windows_update E aid cap plan (native_action_port E W show_error) p))"

definition dispatch ::
    "'h ext \<Rightarrow> 'w native_world \<Rightarrow> (native_execution_error \<Rightarrow> string) \<Rightarrow> (detail \<Rightarrow> string) \<Rightarrow>
     approved_worker_apply \<Rightarrow> string \<Rightarrow> bool \<Rightarrow> 'w \<Rightarrow>
     ((native_execution_error + worker_result) \<times> 'w native_port option) option" where
  "dispatch E W show_error show_detail granted installation_root progress w =
     (let verified = approved_plan_of granted in
      case require_boundary W verified installation_root w of
        (Inl e, w) \<Rightarrow> Some (Inl e, None)
      | (Inr _, w) \<Rightarrow>
     (case into_windows_update (approved_intents granted) of
        Inl e \<Rightarrow> Some (Inl (NativeApproval e), None)
      | Inr (aid, cap, plan) \<Rightarrow>
     (case port_create E W verified progress w of
        None \<Rightarrow> None
      | Some (Inl e, w) \<Rightarrow> Some (Inr (setup_failure show_error verified e), None)
      | Some (Inr p, w) \<Rightarrow>
          map_option (\<lambda>(r, p). (r, Some p)) (run_port E W show_error show_detail verified aid cap plan p))))"

end
