(* ===== verification/Run_Reconciles.thy ===== *)
theory Run_Reconciles
  imports Protected_Run
begin

text \<open>
  What a dispatched run leaves behind: every operation of the native port keeps its journal a reachable one that
  records exactly the acknowledged events, and a finished run is accepted by the reconciliation of
  \<open>committed_result.rs\<close> exactly when it was committed.
\<close>

section \<open>Invariants of a port\<close>

text \<open>What every operation of a port keeps, an execution keeps.\<close>

locale port_invariant =
  fixes port :: "'s action_port" and inv :: "'s \<Rightarrow> bool"
  assumes observe_keeps: "inv s \<Longrightarrow> inv (snd (act_observe port s))"
    and recovery_keeps: "inv s \<Longrightarrow> inv (snd (act_persist_recovery port aid pre post s))"
    and append_keeps: "inv s \<Longrightarrow> inv (snd (act_append port event s))"
    and mutate_keeps: "inv s \<Longrightarrow> inv (snd (act_mutate port f v w s))"
begin

lemma keeps_result:
  "inv s \<Longrightarrow> act_observe port s = (r, s') \<Longrightarrow> inv s'"
  "inv s \<Longrightarrow> act_persist_recovery port aid pre post s = (q, s') \<Longrightarrow> inv s'"
  "inv s \<Longrightarrow> act_append port event s = (q, s') \<Longrightarrow> inv s'"
  "inv s \<Longrightarrow> act_mutate port f v w s = (x, s') \<Longrightarrow> inv s'"
  using observe_keeps recovery_keeps append_keeps mutate_keeps by (metis snd_conv)+

lemma observe_complete_keeps: "inv s \<Longrightarrow> observe_complete port label s = (r, s') \<Longrightarrow> inv s'"
  by (auto simp: observe_complete_def split: prod.splits intro: keeps_result)

lemma prepare_keeps: "inv s \<Longrightarrow> prepare_action E aid cap plan port s = (r, s') \<Longrightarrow> inv s'"
  by (auto simp: prepare_action_def split: sum.splits prod.splits if_splits)
     (metis observe_complete_keeps keeps_result(2,3))+

lemma apply_mutation_keeps: "inv s \<Longrightarrow> apply_mutation port m v s = (r, s') \<Longrightarrow> inv s'"
  by (auto simp: apply_mutation_def split: prod.splits intro: keeps_result)

lemma mutate_loop_keeps: "inv s \<Longrightarrow> mutate_loop port pre ms s = Some (r, s') \<Longrightarrow> inv s'"
proof (induction ms arbitrary: s)
  case (Cons m ms)
  then show ?case
    by (auto split: option.splits prod.splits sum.splits dest: apply_mutation_keeps [OF Cons.prems(1)])
qed simp

lemma record_terminal_keeps:
  "inv s \<Longrightarrow> record_terminal E port aid cap pre att post st fl s = (out, s') \<Longrightarrow> inv s'"
  by (auto simp: record_terminal_def split: sum.splits prod.splits intro: keeps_result)

lemma finish_keeps:
  "inv s \<Longrightarrow> finish_after_mutations E port aid cap pre post att s = (out, s') \<Longrightarrow> inv s'"
  "inv s \<Longrightarrow> finish_failure E port aid cap pre phase d att s = (out, s') \<Longrightarrow> inv s'"
  by (auto simp: finish_after_mutations_def finish_failure_def split: sum.splits prod.splits if_splits)
     (metis observe_complete_keeps record_terminal_keeps)+

lemma execute_keeps:
  assumes "inv s" "execute_windows_update E aid cap plan port s = Some (out, s')"
  shows "inv s'"
proof -
  obtain r t where prep: "prepare_action E aid cap plan port s = (r, t)" by fastforce
  note t = prepare_keeps [OF assms(1) prep]
  show ?thesis
  proof (cases r)
    case (Ready q)
    then obtain x u where loop: "mutate_loop port (prepared_pre q) (wu_mutations plan) t = Some (x, u)"
      and fin: "(case x of Inl d \<Rightarrow> finish_failure E port aid cap (prepared_pre q) PhaseMutation d True u
        | Inr _ \<Rightarrow> finish_after_mutations E port aid cap (prepared_pre q) (prepared_post q) (wu_mutations plan \<noteq> []) u)
       = (out, s')"
      using assms(2) by (auto simp: execute_windows_update_def prep mutate_then_observe_def)
    from mutate_loop_keeps [OF t loop] have "inv u" .
    with fin show ?thesis by (cases x) (auto dest: finish_keeps)
  qed (use assms(2) t in \<open>simp add: execute_windows_update_def prep\<close>)
qed

end

section \<open>The events of a finished execution\<close>

definition receipt_list :: "action_outcome \<Rightarrow> action_receipt list" where
  "receipt_list out = (case outcome_receipt out of None \<Rightarrow> [] | Some r \<Rightarrow> [r])"

lemma record_terminal_receipt:
  assumes "record_terminal E port aid cap pre att post st fl s = (out, s')" "outcome_receipt out = Some r"
  shows "build_receipt E aid cap pre post st = Inr r"
  using assms
  by (auto simp: record_terminal_def journal_failure_def unmatched_start_def split: sum.splits prod.splits)

lemma finish_receipt:
  "finish_after_mutations E port aid cap pre post att s = (out, s') \<Longrightarrow> outcome_receipt out = Some r \<Longrightarrow>
     \<exists>observed st. build_receipt E aid cap pre observed st = Inr r"
  "finish_failure E port aid cap pre phase d att s = (out, s') \<Longrightarrow> outcome_receipt out = Some r \<Longrightarrow>
     \<exists>observed st. build_receipt E aid cap pre observed st = Inr r"
  by (auto simp: finish_after_mutations_def finish_failure_def unmatched_start_def
      split: sum.splits prod.splits if_splits dest: record_terminal_receipt)

lemma mutate_then_observe_receipt:
  assumes "mutate_then_observe E aid cap plan port pre post s = Some (out, s')" "outcome_receipt out = Some r"
  shows "\<exists>observed st. build_receipt E aid cap pre observed st = Inr r"
proof -
  obtain x :: "detail + unit" and u where
    "(case x of Inl d \<Rightarrow> finish_failure E port aid cap pre PhaseMutation d True u
      | Inr _ \<Rightarrow> finish_after_mutations E port aid cap pre post (wu_mutations plan \<noteq> []) u) = (out, s')"
    using assms(1) by (auto simp: mutate_then_observe_def)
  then show ?thesis
    using assms(2) by (cases x) (auto dest: finish_receipt)
qed

lemma execute_events:
  assumes "execute_windows_update E aid cap plan (traced port) (s, []) = Some (out, s', tr)" "may_finish_run out"
  shows "\<exists>dgs. list_all2 (\<lambda>r x. receipt_digest E r = Inr x) (receipt_list out) dgs \<and>
      appended tr = concat (map2 (receipt_events E) (receipt_list out) dgs)"
    and "list_all (\<lambda>r. receipt_action_id r = aid) (receipt_list out)"
    and "outcome_failure out = None \<Longrightarrow> list_all (\<lambda>r. receipt_status r = Succeeded) (receipt_list out)"
proof -
  let ?pre = "wu_observation plan" and ?post = "expected_post_state plan"
  obtain p s1 tr1 where p: "prepare_action E aid cap plan (traced port) (s, []) = (p, s1, tr1)"
    "case p of
        Ready q \<Rightarrow> q = \<lparr>prepared_pre = ?pre, prepared_post = ?post\<rparr> \<and>
          validate_update_plan cap plan = Inr ?post \<and>
          (\<exists>d. observation_digest E ?pre = Inr d \<and> tr1 = announced E aid plan d)
      | PreparationFailed out \<Rightarrow> mutates tr1 = [] \<and> outcome_receipt out = None \<and> outcome_failure out \<noteq> None \<and>
          (may_finish_run out \<longrightarrow> appended tr1 = [])"
    using prepare_traced [of E aid cap plan port s] by blast
  have "(\<exists>dgs. list_all2 (\<lambda>r x. receipt_digest E r = Inr x) (receipt_list out) dgs \<and>
      appended tr = concat (map2 (receipt_events E) (receipt_list out) dgs)) \<and>
    list_all (\<lambda>r. receipt_action_id r = aid) (receipt_list out) \<and>
    (outcome_failure out = None \<longrightarrow> list_all (\<lambda>r. receipt_status r = Succeeded) (receipt_list out))"
  proof (cases p)
    case (PreparationFailed out')
    with p assms show ?thesis
      by (auto simp: execute_windows_update_def receipt_list_def)
  next
    case (Ready q)
    with p(2) obtain d where d: "validate_update_plan cap plan = Inr ?post" "observation_digest E ?pre = Inr d"
      "tr1 = announced E aid plan d" "q = \<lparr>prepared_pre = ?pre, prepared_post = ?post\<rparr>" by auto
    then have run: "mutate_then_observe E aid cap plan (traced port) ?pre ?post (s1, tr1) = Some (out, s', tr)"
      using assms(1) p(1) Ready by (simp add: execute_windows_update_def)
    from mutate_then_observe_traced [OF d(1), of E aid port s1 tr1] run assms(2)
    obtain us r x where us: "tr = tr1 @ us" "outcome_receipt out = Some r" "receipt_digest E r = Inr x"
      "appended us = [ActionFinished (uuid_text E aid) (receipt_status r) x]"
      "outcome_failure out = None \<longleftrightarrow> receipt_status r = Succeeded"
      by (auto split: option.splits)
    from mutate_then_observe_receipt [OF run us(2)] d(2)
    have "receipt_action_id r = aid" "pre_state_digest r = d"
      by (auto simp: build_receipt_def res_simps)
    with us d(3) show ?thesis
      by (auto simp: receipt_list_def receipt_events_def intro!: exI [of _ "[x]"])
  qed
  then show "\<exists>dgs. list_all2 (\<lambda>r x. receipt_digest E r = Inr x) (receipt_list out) dgs \<and>
      appended tr = concat (map2 (receipt_events E) (receipt_list out) dgs)"
    and "list_all (\<lambda>r. receipt_action_id r = aid) (receipt_list out)"
    and "outcome_failure out = None \<Longrightarrow> list_all (\<lambda>r. receipt_status r = Succeeded) (receipt_list out)"
    by blast+
qed

section \<open>What the native port keeps\<close>

text \<open>The directory names a file by the name it was given.\<close>

definition names_files :: "'w native_world \<Rightarrow> bool" where
  "names_files W \<longleftrightarrow> (\<forall>run name bytes w leaf w'.
     write_run_file W run name bytes w = (Inr leaf, w') \<longrightarrow> leaf = Some name)"

definition recovery_artifact :: "'h ext \<Rightarrow> uuid \<Rightarrow> artifact \<Rightarrow> bool" where
  "recovery_artifact E run a \<longleftrightarrow> artifact_class a = RollbackState \<and> media_type a = ''application/json'' \<and>
     artifact_locator a = uuid_text E run @ ''/recovery.json'' \<and> artifact_size_bytes a \<le> max_evidence_bytes"

definition port_ok ::
    "'h ext \<Rightarrow> uuid \<Rightarrow> uuid \<Rightarrow> digest \<Rightarrow> 'w native_port \<Rightarrow> journal_event list \<Rightarrow> bool" where
  "port_ok E run pid pd p events \<longleftrightarrow> port_run p = run \<and> list_all (recovery_artifact E run) (port_artifacts p) \<and>
     (\<exists>rs. journal_reach E committed_limits (port_journal p) rs \<and>
        map payload rs = PlanApproved pid pd # events)"

lemma append_payload:
  "journal_append E io j ts ev = (Inr r, j') \<Longrightarrow> payload r = ev \<and> previous_hash r = chain_hash j \<and>
     chain_hash j' = record_hash r"
  by (auto simp: journal_append_def make_journal_record_def res_simps
      split: if_splits sum.splits prod.splits option.splits)

lemma port_ok_world [simp]:
  "port_ok E run pid pd (p\<lparr>port_world := w\<rparr>) evs \<longleftrightarrow> port_ok E run pid pd p evs"
  "port_ok E run pid pd (p\<lparr>port_files := fs\<rparr>) evs \<longleftrightarrow> port_ok E run pid pd p evs"
  "port_ok E run pid pd (p\<lparr>port_action_started := b\<rparr>) evs \<longleftrightarrow> port_ok E run pid pd p evs"
  "port_ok E run pid pd (p\<lparr>port_progress := x\<rparr>) evs \<longleftrightarrow> port_ok E run pid pd p evs"
  "port_ok E run pid pd (p\<lparr>port_artifacts := port_artifacts p @ [a]\<rparr>) evs \<longleftrightarrow>
     port_ok E run pid pd p evs \<and> recovery_artifact E run a"
  by (auto simp: port_ok_def)

lemma port_ok_in_world [simp]:
  "port_ok E run pid pd (snd (in_world f p)) evs \<longleftrightarrow> port_ok E run pid pd p evs"
  by (simp add: in_world_def case_prod_beta)

lemma fresh_keeps: "port_ok E run pid pd (snd (require_fresh W p)) evs \<longleftrightarrow> port_ok E run pid pd p evs"
  by (simp add: require_fresh_def in_world_def case_prod_beta)

lemma port_observe_keeps: "port_ok E run pid pd p evs \<Longrightarrow> port_ok E run pid pd (snd (port_observe W p)) evs"
  using fresh_keeps [of E run pid pd W p evs]
  by (cases "require_fresh W p"; cases "fst (require_fresh W p)") (simp_all add: port_observe_def)

lemma port_mutate_keeps: "port_ok E run pid pd p evs \<Longrightarrow> port_ok E run pid pd (snd (port_mutate W f v w p)) evs"
  using fresh_keeps [of E run pid pd W p evs]
  by (cases "require_fresh W p"; cases "fst (require_fresh W p)") (simp_all add: port_mutate_def)

lemma port_journal_append_cases:
  assumes "port_journal_append E W event p = (r, p')"
  obtains io ts q j w where "journal_append E io (port_journal p) ts event = (q, j)" "r = and_then q (\<lambda>_. Inr ())"
    "p' = p\<lparr>port_world := w, port_journal := j\<rparr>"
  using assms by (auto simp: port_journal_append_def in_world_def split: prod.splits)

lemma port_journal_append_keeps:
  assumes "port_ok E run pid pd p evs" "port_journal_append E W event p = (r, p')"
  shows "port_ok E run pid pd p' (case r of Inl _ \<Rightarrow> evs | Inr _ \<Rightarrow> evs @ [event])"
proof -
  obtain rs where rs: "journal_reach E committed_limits (port_journal p) rs"
    "map payload rs = PlanApproved pid pd # evs"
    using assms(1) by (auto simp: port_ok_def)
  obtain io ts q j w where "journal_append E io (port_journal p) ts event = (q, j)" "r = and_then q (\<lambda>_. Inr ())"
    "p' = p\<lparr>port_world := w, port_journal := j\<rparr>"
    by (rule port_journal_append_cases [OF assms(2)])
  then show ?thesis
    using assms(1) rs append_payload [of E io "port_journal p" ts event]
    by (cases q) (auto simp: port_ok_def intro: Refused Appended)
qed

lemma port_append_keeps:
  assumes "port_ok E run pid pd p evs" "port_append E W sh event p = (r, p')"
  shows "port_ok E run pid pd p' (case r of Inl _ \<Rightarrow> evs | Inr _ \<Rightarrow> evs @ [event])"
proof -
  have notify: "port_ok E run pid pd (notify ph q) es \<longleftrightarrow> port_ok E run pid pd q es" for ph q es
    by (simp add: notify_def split: option.split)
  obtain x q where "port_journal_append E W event p = (x, q)" by fastforce
  with port_journal_append_keeps [OF assms(1) this] assms(2) show ?thesis
    by (cases x) (auto simp: port_append_def notify)
qed

lemma write_artifact_frame:
  "write_artifact E W k akind bytes p = (r, p') \<Longrightarrow> port_run p' = port_run p \<and> port_journal p' = port_journal p \<and>
     port_artifacts p' = port_artifacts p"
  by (auto simp: write_artifact_def write_run_artifact_def validate_artifact_bytes_def in_world_def st_then_def
      split: prod.splits sum.splits option.splits if_splits)

lemma write_artifact_Inr:
  assumes "names_files W" "write_artifact E W k akind bytes p = (Inr a, p')"
  shows "artifact_class a = akind \<and> media_type a = ''application/json'' \<and>
      artifact_locator a = uuid_text E (port_run p) @ ''/'' @ kind_file_name k \<and> artifact_digest a = of_bytes E bytes \<and>
      artifact_size_bytes a = length bytes \<and> length bytes \<le> max_evidence_bytes \<and>
      port_files p' = (kind_file_name k, bytes) # port_files p"
proof -
  have leaf: "write_run_file W run name bytes w = (Inr leaf, w') \<Longrightarrow> leaf = Some name" for run name w leaf w'
    using assms(1) unfolding names_files_def by blast
  show ?thesis
    using assms(2)
    by (auto simp: write_artifact_def write_run_artifact_def validate_artifact_bytes_def kind_maximum_bytes_def
        in_world_def res_simps dest!: leaf split: prod.splits sum.splits option.splits if_splits)
qed

lemma port_persist_recovery_keeps:
  assumes "names_files W" "port_ok E run pid pd p evs" "port_persist_recovery E W sh aid pre post p = (r, p')"
  shows "port_ok E run pid pd p' evs"
proof (cases "canonical_json_bytes E Inr (recovery_json E (port_plan_id p) (port_plan_digest p) aid pre post)")
  case (Inr bytes)
  obtain x q where w: "write_artifact E W RunRecoverySnapshot RollbackState bytes p = (x, q)" by fastforce
  from write_artifact_frame [OF w] assms(2) have q: "port_ok E run pid pd q evs" by (simp add: port_ok_def)
  show ?thesis
  proof (cases x)
    case (Inr a)
    with write_artifact_Inr [OF assms(1) w [unfolded Inr]] assms(2) have "recovery_artifact E run a"
      by (auto simp: recovery_artifact_def port_ok_def)
    with q assms(3) w Inr \<open>canonical_json_bytes E Inr _ = Inr bytes\<close> show ?thesis
      by (simp add: port_persist_recovery_def retain_artifact_def) auto
  qed (use q w assms(3) Inr in \<open>auto simp: port_persist_recovery_def retain_artifact_def\<close>)
qed (use assms(2,3) in \<open>auto simp: port_persist_recovery_def\<close>)

interpretation native: port_invariant "traced (native_action_port E W sh)"
    "\<lambda>(p, tr). names_files W \<longrightarrow> port_ok E run pid pd p (appended tr)"
  for E :: "'h ext" and W :: "'w native_world" and sh run pid pd
proof unfold_locales
  fix s :: "'w native_port \<times> port_call list" and event aid pre post f v w
  assume s: "case s of (p, tr) \<Rightarrow> names_files W \<longrightarrow> port_ok E run pid pd p (appended tr)"
  obtain p tr where st: "s = (p, tr)" by (cases s)
  note defs = st traced_def traced_call_def native_action_port_def
  show "case snd (act_observe (traced (native_action_port E W sh)) s) of
      (p, tr) \<Rightarrow> names_files W \<longrightarrow> port_ok E run pid pd p (appended tr)"
    using s by (auto simp: defs intro: port_observe_keeps)
  show "case snd (act_mutate (traced (native_action_port E W sh)) f v w s) of
      (p, tr) \<Rightarrow> names_files W \<longrightarrow> port_ok E run pid pd p (appended tr)"
    using s by (auto simp: defs intro: port_mutate_keeps)
  show "case snd (act_persist_recovery (traced (native_action_port E W sh)) aid pre post s) of
      (p, tr) \<Rightarrow> names_files W \<longrightarrow> port_ok E run pid pd p (appended tr)"
    using s port_persist_recovery_keeps [of W E run pid pd p "appended tr" sh aid pre post]
    by (cases "port_persist_recovery E W sh aid pre post p") (simp add: defs)
  show "case snd (act_append (traced (native_action_port E W sh)) event s) of
      (p, tr) \<Rightarrow> names_files W \<longrightarrow> port_ok E run pid pd p (appended tr)"
    using s port_append_keeps [of E run pid pd p "appended tr" W sh event]
    by (cases "port_append E W sh event p"; cases "fst (port_append E W sh event p)") (auto simp: defs)
qed

section \<open>A committed run reconciles\<close>

lemma append_durable: "journal_append E io j ts ev = (Inr r, j') \<Longrightarrow> \<not> write_failed j'"
  by (auto simp: journal_append_def write_next_record_def write_durable_record_def write_record_def Let_def
      and_then_def split: if_splits sum.splits prod.splits option.splits io_outcome.splits)

lemma port_create_ok:
  assumes "port_create E W verified progress w = Some (Inr p, w')"
  shows "port_ok E (port_run p) (plan_id (as_plan (approved_verified verified))) (approved_digest verified) p []"
proof -
  obtain io ts r where "journal_append E io (initialize E committed_limits) ts
      (PlanApproved (plan_id (as_plan (approved_verified verified))) (approved_digest verified)) =
      (Inr r, port_journal p)" "port_artifacts p = []"
    using assms by (auto simp: port_create_def Let_def split: prod.splits sum.splits list.splits)
  moreover have "journal_reach E committed_limits (initialize E committed_limits) []"
    by (rule Created) (simp add: create_with_limits_def ensure_size_limit_def committed_limits_def
        max_journal_bytes_def journal_magic_def)
  ultimately show ?thesis
    using append_payload Appended by (fastforce simp: port_ok_def)
qed

text \<open>The report that a finished run adds to its artifacts.\<close>

definition result_artifact :: "'h ext \<Rightarrow> uuid \<Rightarrow> byte list \<Rightarrow> artifact \<Rightarrow> bool" where
  "result_artifact E run bytes a \<longleftrightarrow> artifact_class a = Report \<and> media_type a = ''application/json'' \<and>
     artifact_locator a = uuid_text E run @ ''/result.json'' \<and> artifact_digest a = of_bytes E bytes \<and>
     artifact_size_bytes a = length bytes \<and> length bytes \<le> max_evidence_bytes"

lemma finalize_document_Inl:
  assumes "finalize_document E W r restart p = (Inl e, p')"
  shows "port_artifacts p' = port_artifacts p"
  using assms
  by (auto simp: finalize_document_def finalize_result_def native_finalization_port_def append_run_finished_def
      in_world_def Let_def st_then_def split: prod.splits sum.splits
      dest!: write_artifact_frame elim!: port_journal_append_cases)

lemma finalize_document_Inr:
  assumes "names_files W" "port_ok E run pid pd p evs" "finalize_document E W r restart p = (Inr u, p')"
  obtains rid bytes a rs where "document_bytes E (result_document_of rid r restart p) = Inr bytes"
    "map_of (port_files p') ''result.json'' = Some bytes" "port_artifacts p' = port_artifacts p @ [a]"
    "result_artifact E run bytes a" "journal_reach E committed_limits (port_journal p') rs"
    "\<not> write_failed (port_journal p')"
    "map payload rs = PlanApproved pid pd # evs @ [RunFinished rid (of_bytes E bytes)]"
    "previous_hash (last rs) = chain_hash (port_journal p)"
proof -
  obtain rid w where id: "in_world (new_id W) p = (rid, p\<lparr>port_world := w\<rparr>)"
    by (simp add: in_world_def case_prod_beta)
  let ?p = "p\<lparr>port_world := w\<rparr>"
  have doc: "result_document_of rid r restart ?p = result_document_of rid r restart p"
    by (simp add: result_document_of_def)
  obtain bytes a q q' where b: "document_bytes E (result_document_of rid r restart p) = Inr bytes"
    "write_artifact E W RunResult Report bytes ?p = (Inr a, q)"
    "port_journal_append E W (RunFinished rid (of_bytes E bytes)) q = (Inr (), q')"
    "p' = q'\<lparr>port_artifacts := port_artifacts q' @ [a]\<rparr>"
    using assms(3)
    by (auto simp: finalize_document_def id doc finalize_result_def native_finalization_port_def
        append_run_finished_def Let_def st_then_def split: prod.splits sum.splits)
  note art = write_artifact_Inr [OF assms(1) b(2)] write_artifact_frame [OF b(2)]
  obtain io ts x j w' where j: "journal_append E io (port_journal q) ts (RunFinished rid (of_bytes E bytes)) = (Inr x, j)"
    "q' = q\<lparr>port_world := w', port_journal := j\<rparr>"
    using b(3) by (rule port_journal_append_cases) (auto simp: res_simps dest!: sym [of "Inr ()"])
  obtain rs where rs: "journal_reach E committed_limits (port_journal p) rs" "map payload rs = PlanApproved pid pd # evs"
    "port_run p = run"
    using assms(2) by (auto simp: port_ok_def)
  note x = append_payload [OF j(1)]
  show ?thesis
  proof (rule that [of rid bytes a "rs @ [x]"])
    show "journal_reach E committed_limits (port_journal p') (rs @ [x])"
      using Appended [OF rs(1)] j b(4) art(2) by simp
    show "result_artifact E run bytes a"
      using art(1) rs(3) by (simp add: result_artifact_def)
  qed (use b art j x rs append_durable [OF j(1)] in simp_all)
qed

lemma execute_may_finish:
  assumes "execute_windows_update E aid cap plan port s = Some (out, s')" "outcome_failure out = None"
  shows "may_finish_run out"
proof -
  have rt: "record_terminal E port aid cap pre att post st fl s = (out, s') \<Longrightarrow> may_finish_run out" for pre att post st fl s
    using assms(2)
    by (auto simp: record_terminal_def journal_failure_def unmatched_start_def split: sum.splits prod.splits)
  have fin: "finish_after_mutations E port aid cap pre post att s = (out, s') \<Longrightarrow> may_finish_run out"
    "finish_failure E port aid cap pre phase d att s = (out, s') \<Longrightarrow> may_finish_run out" for pre post att s phase d
    using assms(2)
    by (auto simp: finish_after_mutations_def finish_failure_def unmatched_start_def
        split: sum.splits prod.splits if_splits dest: rt)
  obtain r t where prep: "prepare_action E aid cap plan port s = (r, t)" by fastforce
  show ?thesis
  proof (cases r)
    case (Ready q)
    then obtain x :: "detail + unit" and u where
      "(case x of Inl d \<Rightarrow> finish_failure E port aid cap (prepared_pre q) PhaseMutation d True u
        | Inr _ \<Rightarrow> finish_after_mutations E port aid cap (prepared_pre q) (prepared_post q) (wu_mutations plan \<noteq> []) u)
       = (out, s')"
      using assms(1) by (auto simp: execute_windows_update_def prep mutate_then_observe_def)
    then show ?thesis by (cases x) (auto dest: fin)
  next
    case (PreparationFailed o')
    with assms(1) prep have "prepare_action E aid cap plan port s = (PreparationFailed out, s')"
      by (simp add: execute_windows_update_def)
    then show ?thesis
      using assms(2)
      by (auto simp: prepare_action_def failed_before_start_def journal_failure_def unmatched_start_def
          split: sum.splits prod.splits if_splits)
  qed
qed

lemma split_once_append: "c \<notin> set u \<Longrightarrow> split_once c (u @ c # rest) = Some (u, rest)"
  by (induction u) auto

lemma receipt_pairs_accepted:
  assumes "list_all2 (\<lambda>r dg. receipt_digest E r = Inr dg) rs dgs"
    and "map payload records = concat (map2 (receipt_events E) rs dgs)"
  shows "length records = length rs * 2 \<and>
    for_each (\<lambda>(r, pair). receipt_pair E r pair) (zip rs (chunks2 records)) = Inr ()"
  using assms
proof (induction arbitrary: records rule: list_all2_induct)
  case (Cons r rs dg dgs)
  then obtain x y rest where "records = x # y # rest" "[payload x, payload y] = receipt_events E r dg"
    "map payload rest = concat (map2 (receipt_events E) rs dgs)"
    by (auto simp: receipt_events_def)
  with Cons show ?case
    by (auto simp: receipt_pair_Inr_iff res_simps)
qed simp

lemma journal_binding_accepted:
  assumes "journal_terminal_hash expected = Some terminal"
    and "list_all2 (\<lambda>r x. receipt_digest E r = Inr x) (document_receipts d) dgs"
    and "map payload records = PlanApproved (document_plan_id d) (document_plan_digest d) #
      concat (map2 (receipt_events E) (document_receipts d) dgs) @ [RunFinished (document_result_id d) dg]"
    and "previous_hash (last records) = journal_prefix_hash d"
  shows "journal_binding E d expected dg (records, terminal) = Inr ()"
proof -
  from assms(3) obtain first mid lst where "records = first # mid @ [lst]"
    "payload first = PlanApproved (document_plan_id d) (document_plan_digest d)"
    "map payload mid = concat (map2 (receipt_events E) (document_receipts d) dgs)"
    "payload lst = RunFinished (document_result_id d) dg"
    by (auto simp: map_eq_append_conv map_eq_Cons_conv Cons_eq_map_conv)
  then show ?thesis
    using assms(1,4) receipt_pairs_accepted [OF assms(2)]
    by (simp add: journal_binding_def commit_binding_def receipt_binding_def)
qed

definition report_committed :: "worker_result \<Rightarrow> bool" where
  "report_committed r \<longleftrightarrow> artifact_manifest r \<noteq> [] \<and> artifact_class (last (artifact_manifest r)) = Report"

text \<open>The text of an identifier names a directory, and is parsed back.\<close>

definition directory_name :: "'h ext \<Rightarrow> (string \<Rightarrow> uuid option) \<Rightarrow> uuid \<Rightarrow> bool" where
  "directory_name E parse_id u \<longleftrightarrow> CHR ''/'' \<notin> set (uuid_text E u) \<and> parse_id (uuid_text E u) = Some u"

text \<open>What is read back of a finished run: the document and its records, whatever decoders read what was written.\<close>

definition reads_back ::
    "'h ext \<Rightarrow> (string \<Rightarrow> uuid option) \<Rightarrow> worker_result \<Rightarrow> 'w native_port \<Rightarrow> bool" where
  "reads_back E parse_id result p \<longleftrightarrow>
     (\<exists>d bytes rs. map_of (port_files p) ''result.json'' = Some bytes \<and> journal_file (port_journal p) = journal_bytes E rs \<and>
        (\<forall>parse de dec. load_json parse de bytes json_load_limits_default = Inr d \<longrightarrow>
           (\<forall>r\<in>set rs. dec (record_bytes E r) = Inr r) \<longrightarrow>
           reconcile E parse_id parse de dec result bytes (journal_file (port_journal p)) = Inr (d, bytes)))"

lemma artifact_scopes:
  assumes "CHR ''/'' \<notin> set (uuid_text E run)"
  shows "recovery_artifact E run a \<Longrightarrow> artifact_scope a (uuid_text E run) = Inr ()"
    and "result_artifact E run bytes a \<Longrightarrow> artifact_scope a (uuid_text E run) = Inr ()"
  using split_once_append [OF assms]
  by (simp_all add: artifact_scope_def recovery_artifact_def result_artifact_def)

lemma reconcile_finished:
  assumes names: "names_files W" "directory_name E parse_id run"
    and p: "port_ok E run (worker_plan_id r) (worker_plan_digest r) p evs"
    and fin: "finalize_document E W r restart p = (Inr u, p')"
    and valid: "validate_worker_result result = Inr ()"
    and result: "result = r\<lparr>artifact_manifest := port_artifacts p', journal_terminal_hash := Some (chain_hash (port_journal p'))\<rparr>"
    and evs: "list_all2 (\<lambda>r x. receipt_digest E r = Inr x) (receipts r) dgs"
      "evs = concat (map2 (receipt_events E) (receipts r) dgs)"
    and succ: "final_status r = StCompleted \<Longrightarrow> list_all (\<lambda>x. receipt_status x = Succeeded) (receipts r)"
  shows "report_committed result" "reads_back E parse_id result p'"
proof -
  obtain rid bytes a rs where f: "document_bytes E (result_document_of rid r restart p) = Inr bytes"
    "map_of (port_files p') ''result.json'' = Some bytes" "port_artifacts p' = port_artifacts p @ [a]"
    "result_artifact E run bytes a" "journal_reach E committed_limits (port_journal p') rs"
    "\<not> write_failed (port_journal p')"
    "map payload rs = PlanApproved (worker_plan_id r) (worker_plan_digest r) # evs @ [RunFinished rid (of_bytes E bytes)]"
    "previous_hash (last rs) = chain_hash (port_journal p)"
    by (rule finalize_document_Inr [OF names(1) p fin])
  let ?d = "result_document_of rid r restart p"
  show "report_committed result"
    using f(3,4) by (simp add: report_committed_def result result_artifact_def)
  have uuid: "CHR ''/'' \<notin> set (uuid_text E run)" "parse_id (uuid_text E run) = Some run"
    using names(2) by (auto simp: directory_name_def)
  have report: "report_artifact E parse_id result = Inr (run, a)"
    using f(3,4) p uuid(2) split_once_append [OF uuid(1), of "''result.json''"] artifact_scopes [OF uuid(1)]
    by (auto simp: report_artifact_def storage_identifier_def result result_artifact_def port_ok_def list_all_iff
        for_each_Inr_iff and_then_Inr_iff)
  obtain c where c: "journal_ok E committed_limits rs" "port_journal p' = writer E committed_limits rs c"
    using reach_writer [OF committed_limits_ok f(5,6)] by blast
  have binding: "document_binding ?d result = Inr ()"
    using succ f(3)
    by (auto simp: document_binding_def document_outcome_def result_document_of_def result list_all_iff list_ex_iff)
  show "reads_back E parse_id result p'"
    unfolding reads_back_def
  proof (intro exI conjI allI impI)
    show "map_of (port_files p') ''result.json'' = Some bytes" by (rule f(2))
    show "journal_file (port_journal p') = journal_bytes E rs"
      by (simp add: c(2) writer_def)
    fix parse :: "string \<Rightarrow> string + jvalue" and de and dec :: "byte list \<Rightarrow> string + journal_record"
    assume load: "load_json parse de bytes json_load_limits_default = Inr ?d"
      and dec: "\<forall>r\<in>set rs. dec (record_bytes E r) = Inr r"
    have "read_bytes E dec (journal_file (port_journal p')) committed_limits = Inr (rs, chain_hash (port_journal p'))"
      using c dec by (simp add: read_bytes_verified verify_with_limits_Inr_iff [OF committed_limits_ok] writer_def)
    moreover have "decode_document E parse de a bytes = Inr ?d"
      using f(1,4) load by (simp add: decode_document_def result_artifact_def result_document_of_def)
    moreover have "journal_binding E ?d result (artifact_digest a) (rs, chain_hash (port_journal p')) = Inr ()"
      using f(4,7,8) evs
      by (intro journal_binding_accepted [of _ _ _ _ dgs]) (simp_all add: result result_document_of_def result_artifact_def)
    ultimately show "reconcile E parse_id parse de dec result bytes (journal_file (port_journal p')) = Inr (?d, bytes)"
      by (simp add: reconcile_def valid report binding)
  qed
qed

lemma finish_run: "finish E W sh r may_finish restart p = (x, p') \<Longrightarrow> port_run p' = port_run p"
  by (auto simp: finish_def finalize_document_def finalize_result_def native_finalization_port_def
      append_run_finished_def in_world_def Let_def st_then_def split: prod.splits sum.splits if_splits
      dest!: write_artifact_frame elim!: port_journal_append_cases)

text \<open>A finished run, and what became of its commit.\<close>

lemma finish_reconciles:
  assumes names: "names_files W" "directory_name E parse_id run"
    and p: "port_ok E run (worker_plan_id r) (worker_plan_digest r) p evs"
    and fin: "finish E W sh r may_finish restart p = (Inr result, p')"
    and evs: "may_finish \<Longrightarrow> \<exists>dgs. list_all2 (\<lambda>r x. receipt_digest E r = Inr x) (receipts r) dgs \<and>
      evs = concat (map2 (receipt_events E) (receipts r) dgs)"
    and succ: "final_status r = StCompleted \<Longrightarrow> may_finish \<and> list_all (\<lambda>x. receipt_status x = Succeeded) (receipts r)"
  shows "(if report_committed result then reads_back E parse_id result p'
      else final_status result \<noteq> StCompleted \<and>
        (\<forall>parse de dec rb jb x. reconcile E parse_id parse de dec result rb jb \<noteq> Inr x))"
proof -
  have recovery: "list_all (recovery_artifact E run) (port_artifacts p)"
    using p by (simp add: port_ok_def)
  have rejected: "\<not> report_committed result"
      "\<forall>parse de dec rb jb x. reconcile E parse_id parse de dec result rb jb \<noteq> Inr x"
    if "artifact_manifest result = port_artifacts p"
  proof -
    have "last (port_artifacts p) \<in> set (port_artifacts p)" if "port_artifacts p \<noteq> []"
      using that by simp
    then have last: "port_artifacts p \<noteq> [] \<Longrightarrow> artifact_class (last (port_artifacts p)) = RollbackState"
      using recovery by (auto simp: list_all_iff recovery_artifact_def)
    then show "\<not> report_committed result"
      using that by (auto simp: report_committed_def)
    show "\<forall>parse de dec rb jb x. reconcile E parse_id parse de dec result rb jb \<noteq> Inr x"
      using last that by (auto simp: reconcile_def report_artifact_def res_simps)
  qed
  obtain x q where x: "(if may_finish then finalize_document E W r restart p else (Inr (), p)) = (x, q)" by fastforce
  let ?r = "case x of Inl e \<Rightarrow> r\<lparr>final_status := StExecutionFailed, worker_exit_code := as_i32 ExExecutionFailure,
       reason := Some (finalization_reason (sh e))\<rparr> | Inr _ \<Rightarrow> r"
  have result: "result = ?r\<lparr>artifact_manifest := port_artifacts q, journal_terminal_hash := Some (chain_hash (port_journal q))\<rparr>"
    "validate_worker_result result = Inr ()" "p' = q"
    using fin x by (auto simp: finish_def Let_def res_simps split: prod.splits)
  show ?thesis
  proof (cases "may_finish \<and> (\<exists>u. x = Inr u)")
    case True
    then obtain dgs where "list_all2 (\<lambda>r x. receipt_digest E r = Inr x) (receipts r) dgs"
      "evs = concat (map2 (receipt_events E) (receipts r) dgs)" using evs by blast
    from reconcile_finished [OF names p _ result(2) _ this] True x result succ
    show ?thesis by (auto split: sum.splits)
  next
    case False
    have "artifact_manifest result = port_artifacts p \<and> final_status result \<noteq> StCompleted"
    proof (cases may_finish)
      case True
      with False x obtain e where "x = Inl e" "finalize_document E W r restart p = (Inl e, q)" by (cases x) auto
      then show ?thesis using finalize_document_Inl [of E W r restart p e q] result(1) by simp
    next
      case False
      with x have "x = Inr ()" "q = p" by simp_all
      with False succ result(1) show ?thesis by auto
    qed
    with rejected show ?thesis by simp
  qed
qed

section \<open>A cancelled run, for the examples\<close>

definition drill_host :: host_identity where
  "drill_host = \<lparr>host_id = ''h'', boot_id = ''b'', session_id = ''s'', hostname = ''pc'', host_os_family = Windows,
     os_version = ''10'', architecture = ''x64'', fingerprint = []\<rparr>"

definition drill_plan :: plan where
  "drill_plan = \<lparr>plan_id = 7, plan_run_id = 2, plan_intent = IntentApply, plan_profile_id = 3,
     plan_profile_digest = [], plan_host = drill_host,
     plan_tool = \<lparr>tool_name = ''baselineops'', tool_version = ''3'', build_digest = None\<rparr>,
     plan_package_digest = [],
     plan_source = \<lparr>source_origin = LocalFile, source_locator = ''p.json'', source_digest = []\<rparr>,
     plan_input = \<lparr>input_digest = [], input_size_bytes = 1\<rparr>, plan_resources = [],
     plan_observed_state = \<lparr>captured_at = 0, state_digest = [], state_values = []\<rparr>, plan_issued_at = 0,
     plan_expires_at = 100,
     plan_actions = [\<lparr>action_id = 7, source_step = 1, action_capability = ''v3.windows-update.policy'',
       action_operation = OpApply, action_parameters = [], action_depends_on = [],
       action_continue_on_error = False, facts_digest = [], preconditions = [],
       risk = RiskLow, action_reversibility = Reversible, reboot = NotRequired, privileges = [],
       action_metadata = []\<rparr>], plan_metadata = []\<rparr>"

definition drill_granted :: "approved_worker_apply" where
  "drill_granted = \<lparr>approved_plan_of = \<lparr>approved_verified = VerifiedPlan drill_plan, approved_digest = [1],
       trusted_root = ''root''\<rparr>,
     approved_intents = [\<lparr>intent_action_id = 7, intent_capability = ''v3.windows-update.policy'',
       intent_semantic = SemanticWindowsUpdate sample_action_plan\<rparr>]\<rparr>"

definition drill_world :: "unit native_world" where
  "drill_world = \<lparr>now = (\<lambda>_. (5, ())), new_id = (\<lambda>_. (9, ())), journal_io = (\<lambda>_. (IoDurable, ())),
     create_run = (\<lambda>_. (Inr 3, ())), create_run_journal = (\<lambda>_ _. (Inr (), ())),
     write_run_file = (\<lambda>_ name _ _. (Inr (Some name), ())), observe_policy = (\<lambda>_. (Inl ''unread'', ())),
     apply_policy = (\<lambda>_ _ _ _. (Inl ''unwritten'', ())), collect_host = (\<lambda>_. (Inr drill_host, ())),
     is_cancelled = (\<lambda>_. (True, ()))\<rparr>"

definition drill_result :: worker_result where
  "drill_result = result_base (approved_plan_of drill_granted) StCancelled (Some ''Cancelled before action execution.'')"

definition drill_document :: result_document where
  "drill_document = \<lparr>document_schema = ''1.0'', document_result_id = 9, document_plan_id = 7, document_run_id = 2,
     document_plan_digest = [1], journal_prefix_hash = record_hash final_approval, document_receipts = [],
     document_status = StCancelled, document_reason = Some ''Cancelled before action execution.'',
     document_reboot_possible = False, document_artifacts = []\<rparr>"

definition drill_bytes :: "byte list" where
  "drill_bytes = render length_ext (document_json length_ext drill_document)"

definition drill_finish :: journal_record where
  "drill_finish = next_record length_ext [final_approval] 5 (RunFinished 9 (length_digest drill_bytes))"

lemma drill_sizes: "length drill_bytes \<le> 4096" "length (record_bytes length_ext drill_finish) \<le> 4096"
  by code_simp+

lemma drill_ok: "journal_ok length_ext committed_limits [final_approval, drill_finish]"
  by (rule final_finished_ok [OF drill_finish_def drill_sizes(2)])

lemma drill_appends:
  "journal_append length_ext IoDurable (initialize length_ext committed_limits) 5 (PlanApproved 7 [1]) =
     (Inr final_approval, writer length_ext committed_limits [final_approval] (lifecycle_accept lifecycle_default (PlanApproved 7 [1])))"
  "journal_append length_ext IoDurable
     (writer length_ext committed_limits [final_approval] (lifecycle_accept lifecycle_default (PlanApproved 7 [1])))
     5 (RunFinished 9 (length_digest drill_bytes)) =
     (Inr drill_finish, writer length_ext committed_limits [final_approval, drill_finish]
        (lifecycle_accept (lifecycle_accept lifecycle_default (PlanApproved 7 [1])) (RunFinished 9 (length_digest drill_bytes))))"
proof -
  have w: "initialize length_ext committed_limits = writer length_ext committed_limits [] lifecycle_default"
    by (simp add: initialize_def writer_def journal_bytes_def genesis_def)
  show "journal_append length_ext IoDurable (initialize length_ext committed_limits) 5 (PlanApproved 7 [1]) =
     (Inr final_approval, writer length_ext committed_limits [final_approval] (lifecycle_accept lifecycle_default (PlanApproved 7 [1])))"
    using journal_append_writer(1) [OF committed_limits_ok final_approval_ok(1) _ final_approval_def w, of IoDurable]
      final_approval_ok(2)
    by (simp add: from_snapshot_def)
  show "journal_append length_ext IoDurable
     (writer length_ext committed_limits [final_approval] (lifecycle_accept lifecycle_default (PlanApproved 7 [1])))
     5 (RunFinished 9 (length_digest drill_bytes)) =
     (Inr drill_finish, writer length_ext committed_limits [final_approval, drill_finish]
        (lifecycle_accept (lifecycle_accept lifecycle_default (PlanApproved 7 [1])) (RunFinished 9 (length_digest drill_bytes))))"
    using journal_append_writer(1) [OF committed_limits_ok final_approval_ok(2) _ drill_finish_def refl, of _ IoDurable]
      drill_ok
    by (simp add: from_snapshot_def lifecycle_defs lifecycle_default_def)
qed

definition drill_port :: "unit native_port" where
  "drill_port = \<lparr>port_run = 3, port_files = [], port_journal = writer length_ext committed_limits [final_approval]
       (lifecycle_accept lifecycle_default (PlanApproved 7 [1])), port_plan_id = 7, port_plan_digest = [1],
     port_expires_at = 100, port_action_started = False, port_action_id = 7, port_progress = None,
     port_artifacts = [], port_world = ()\<rparr>"

lemma drill_create:
  "port_create length_ext drill_world (approved_plan_of drill_granted) False () = Some (Inr drill_port, ())"
  by (simp add: port_create_def drill_granted_def drill_plan_def drill_world_def drill_appends drill_port_def)

lemma drill_document_bytes:
  "document_bytes length_ext (result_document_of 9 drill_result False drill_port) = Inr drill_bytes"
proof -
  have "result_document_of 9 drill_result False drill_port = drill_document"
    by (simp add: result_document_of_def drill_result_def drill_document_def drill_port_def result_base_def
        drill_granted_def drill_plan_def writer_def chain_end_def)
  then show ?thesis
    by (simp add: document_bytes_def drill_bytes_def canonical_json_bytes_def canonical_json_value_def write_bytes)
qed

lemma drill_sha [simp]: "of_bytes length_ext bs = length_digest bs" "uuid_text length_ext 3 = ''3''"
  by (simp add: of_bytes_def length_ext_def, code_simp)

definition drill_artifact :: artifact where
  "drill_artifact = \<lparr>artifact_id = 9, artifact_class = Report, media_type = ''application/json'',
     artifact_locator = ''3/result.json'', artifact_digest = length_digest drill_bytes,
     artifact_size_bytes = length drill_bytes, artifact_created_at = 5, artifact_metadata = []\<rparr>"

lemma drill_world_simps:
  "in_world (now drill_world) p = (5, p)" "in_world (new_id drill_world) p = (9, p)"
  "in_world (journal_io drill_world) p = (IoDurable, p)" "in_world (is_cancelled drill_world) p = (True, p)"
  "in_world (write_run_file drill_world run name bytes) p = (Inr (Some name), p)"
  by (cases p; simp add: in_world_def drill_world_def)+

lemma drill_port_simps:
  "port_run drill_port = 3" "port_files drill_port = []" "port_artifacts drill_port = []"
  "port_journal drill_port = writer length_ext committed_limits [final_approval]
     (lifecycle_accept lifecycle_default (PlanApproved 7 [1]))"
  by (simp_all add: drill_port_def del: lifecycle_accept.simps)

lemma drill_finalize:
  "\<exists>lc. finalize_document length_ext drill_world drill_result False drill_port =
     (Inr (), drill_port\<lparr>port_files := [(''result.json'', drill_bytes)],
        port_journal := writer length_ext committed_limits [final_approval, drill_finish] lc,
        port_artifacts := [drill_artifact]\<rparr>)"
proof -
  have "length drill_bytes < u64_bound" "\<not> max_evidence_bytes < length drill_bytes"
    using drill_sizes(1) by (simp_all add: u64_bound_def max_evidence_bytes_def)
  then have "write_artifact length_ext drill_world RunResult Report drill_bytes drill_port =
      (Inr drill_artifact, drill_port\<lparr>port_files := [(''result.json'', drill_bytes)]\<rparr>)"
    "verify_artifact drill_artifact (length_digest drill_bytes) (length drill_bytes) = Inr ()"
    by (simp_all add: write_artifact_def write_run_artifact_def validate_artifact_bytes_def kind_maximum_bytes_def
        drill_world_simps drill_port_simps(1,2,3) drill_artifact_def verify_artifact_def)
  then show ?thesis
    by (simp add: finalize_document_def drill_world_simps drill_document_bytes finalize_result_def
        native_finalization_port_def append_run_finished_def port_journal_append_def drill_port_simps drill_appends(2)
        del: lifecycle_accept.simps) blast
qed

lemma drill_valid:
  "validate_worker_result (drill_result\<lparr>artifact_manifest := [drill_artifact], journal_terminal_hash := Some h\<rparr>) = Inr ()"
proof -
  have "text_ok 255 ''application/json''" "locator_ok ''3/result.json''" "json_map_ok []"
    "text_ok 4096 ''Cancelled before action execution.''" by code_simp+
  then show ?thesis
    using drill_sizes(1)
    by (simp add: validate_worker_result_def validate_worker_preconditions_Inr_iff
      validate_worker_evidence_Inr_iff res_simps drill_result_def result_base_def Let_def drill_artifact_def
        artifacts_ok_def artifact_ok_def)
qed

lemma drill_dispatch:
  "\<exists>r p. dispatch length_ext drill_world (\<lambda>_. ''error'') (\<lambda>_. ''detail'') drill_granted ''root'' False () =
     Some (Inr r, Some p) \<and> report_committed r \<and> port_run p = 3"
proof -
  have boundary: "require_boundary drill_world (approved_plan_of drill_granted) ''root'' () = (Inr (), ())"
    by (simp add: require_boundary_def drill_world_def drill_granted_def drill_plan_def)
  have intents: "into_windows_update (approved_intents drill_granted) =
      Inr (7, ''v3.windows-update.policy'', sample_action_plan)"
    by (simp add: into_windows_update_def drill_granted_def)
  obtain lc where "finalize_document length_ext drill_world drill_result False drill_port =
     (Inr (), drill_port\<lparr>port_files := [(''result.json'', drill_bytes)],
        port_journal := writer length_ext committed_limits [final_approval, drill_finish] lc,
        port_artifacts := [drill_artifact]\<rparr>)"
    using drill_finalize by blast
  then show ?thesis
    by (simp add: dispatch_def boundary intents drill_create run_port_def drill_world_simps finish_def
        drill_valid report_committed_def flip: drill_result_def)
       (simp add: drill_artifact_def drill_port_def)
qed

text \<open>The run on a created port.\<close>

lemma run_port_reconciles:
  assumes "names_files W" "directory_name E parse_id (port_run p)"
    and q: "port_create E W (approved_plan_of granted) progress w' = Some (Inr q, w'')"
    "run_port E W sh sd (approved_plan_of granted) aid cap plan q = Some (Inr result, p)"
  shows "if report_committed result then reads_back E parse_id result p
      else final_status result \<noteq> StCompleted \<and>
        (\<forall>parse de dec rb jb x. reconcile E parse_id parse de dec result rb jb \<noteq> Inr x)"
proof -
  let ?v = "approved_plan_of granted"
  let ?plan = "as_plan (approved_verified ?v)"
  from port_create_ok [OF q(1)]
  have ok: "port_ok E (port_run q) (plan_id ?plan) (approved_digest ?v) q []" .
  obtain b q' where b: "in_world (is_cancelled W) q = (b, q')" by fastforce
  with ok have ok': "port_ok E (port_run q) (plan_id ?plan) (approved_digest ?v) q' []"
    using port_ok_in_world [of E _ _ _ "is_cancelled W" q "[]"] by simp
  have base: "worker_plan_id (result_base ?v st why) = plan_id ?plan"
    "worker_plan_digest (result_base ?v st why) = approved_digest ?v" "receipts (result_base ?v st why) = []"
    "final_status (result_base ?v st why) = st" for st why
    by (simp_all add: result_base_def Let_def)
  show ?thesis
  proof (cases b)
    case True
    with q(2) b have fin: "finish E W sh (result_base ?v StCancelled (Some ''Cancelled before action execution.''))
        True False q' = (Inr result, p)"
      by (simp add: run_port_def)
    from finish_run [OF fin] ok' have "port_run p = port_run q"
      by (simp add: port_ok_def)
    with finish_reconciles [OF assms(1,2) _ fin, of "[]"] ok' show ?thesis
      by (simp add: base)
  next
    case False
    let ?port = "native_action_port E W sh"
    obtain out q2 where ex: "execute_windows_update E aid cap plan ?port q' = Some (out, q2)" and
      fin: "finish E W sh (outcome_result sd ?v out\<lparr>receipts := receipts (outcome_result sd ?v out) @ receipt_list out\<rparr>)
        (may_finish_run out) (outcome_reboot_possible out) q2 = (Inr result, p)"
      using q(2) b False by (auto simp: run_port_def Let_def receipt_list_def)
    from ex traced_execute [of E aid cap plan ?port q' "[]"] obtain tr where
      tr: "execute_windows_update E aid cap plan (traced ?port) (q', []) = Some (out, q2, tr)" by auto
    from native.execute_keeps [of W E _ _ _ "(q', [])", OF _ tr] ok' assms(1)
    have ok2: "port_ok E (port_run q) (plan_id ?plan) (approved_digest ?v) q2 (appended tr)" by auto
    have ar: "worker_plan_id (outcome_result sd ?v out) = plan_id ?plan"
      "worker_plan_digest (outcome_result sd ?v out) = approved_digest ?v" "receipts (outcome_result sd ?v out) = []"
      "final_status (outcome_result sd ?v out) = StCompleted \<longleftrightarrow> outcome_failure out = None"
      by (auto simp: outcome_result_def base split: option.split elim: failure_status.elims)
    have "port_run p = port_run q"
      using finish_run [OF fin] ok2 by (simp add: port_ok_def)
    then show ?thesis
      using finish_reconciles [OF assms(1,2) _ fin, of "appended tr"] ok2
        execute_events [OF tr] execute_may_finish [OF ex]
      by (simp add: ar)
  qed
qed

text \<open>
  C11: the result of a dispatched run and its files agree, for every envelope that dispatch returns. When the envelope
  names a committed report, there is a run, and its result file and its journal reconcile with the envelope, for every
  decoder that reads back what was written. When it does not, as when the protected run could not be set up, no files at
  all reconcile with it, and the run is not reported as completed.
\<close>

theorem dispatch_reconciles:
  assumes "names_files W" "\<And>p. run = Some p \<Longrightarrow> directory_name E parse_id (port_run p)"
    and "dispatch E W sh sd granted root progress w = Some (Inr result, run)"
  shows "if report_committed result then \<exists>p. run = Some p \<and> reads_back E parse_id result p
      else final_status result \<noteq> StCompleted \<and>
        (\<forall>parse de dec rb jb x. reconcile E parse_id parse de dec result rb jb \<noteq> Inr x)"
proof (cases run)
  case None
  then obtain e where "result = setup_failure sh (approved_plan_of granted) e"
    using assms(3) by (auto simp: dispatch_def Let_def split: prod.splits sum.splits option.splits)
  then show ?thesis
    by (auto simp: setup_failure_def result_base_def report_committed_def reconcile_def report_artifact_def res_simps Let_def)
next
  case (Some p)
  then obtain aid cap plan q w' w'' where "port_create E W (approved_plan_of granted) progress w' = Some (Inr q, w'')"
    "run_port E W sh sd (approved_plan_of granted) aid cap plan q = Some (Inr result, p)"
    using assms(3) by (auto simp: dispatch_def Let_def split: prod.splits sum.splits option.splits)
  from run_port_reconciles [OF assms(1) assms(2) [OF Some] this] show ?thesis using Some by simp
qed

theorem dispatch_reconciles_witness:
  "\<exists>r p. dispatch length_ext drill_world (\<lambda>_. ''error'') (\<lambda>_. ''detail'') drill_granted ''root'' False () =
     Some (Inr r, Some p) \<and> report_committed r \<and> reads_back length_ext final_parse_id r p"
proof -
  obtain r p where d: "dispatch length_ext drill_world (\<lambda>_. ''error'') (\<lambda>_. ''detail'') drill_granted ''root'' False () =
     Some (Inr r, Some p)" "report_committed r" "port_run p = 3"
    using drill_dispatch by blast
  have "names_files drill_world"
    by (simp add: names_files_def drill_world_def)
  moreover have "directory_name length_ext final_parse_id (port_run p)"
    by (simp add: d(3) directory_name_def final_parse_id_def)
  ultimately show ?thesis
    using dispatch_reconciles [OF _ _ d(1), of final_parse_id] d(1,2) by auto
qed

end
