(* ===== verification/File_System.thy ===== *)
theory File_System
  imports Win_Path Ipc_Message
begin

text \<open>
  The operations of \<open>std::fs\<close> that the stores use, on a disk that maps canonical paths to nodes, and
  \<open>atomic_write\<close> of \<open>baselineops-windows/src/safe_path.rs\<close> over them. Names are looked up by \<open>name_key\<close>, which may
  fold case. Before each operation the world decides whether it fails and how much of it happened: \<open>fault\<close> is
  \<open>None\<close> when it goes through, and \<open>Some k\<close> an error that leaves a state depending on \<open>k\<close>. A link is never
  followed: an operation below one fails.
\<close>

datatype fs_node = DirNode | FileNode "byte list" | LinkNode

datatype fs_error = FsNotFound | FsAlreadyExists | FsOther

type_synonym fs_path = "string list"

record 'w fs_env =
  name_key :: "string \<Rightarrow> string"
  fault :: "'w \<Rightarrow> nat option \<times> 'w"
  temp_tag :: "'w \<Rightarrow> string \<times> 'w"

record 'w disk =
  disk_nodes :: "fs_path \<Rightarrow> fs_node option"
  disk_world :: 'w

section \<open>Operations\<close>

definition fs_key :: "'w fs_env \<Rightarrow> fs_path \<Rightarrow> fs_path" where
  "fs_key F p = map (name_key F) p"

definition node_at :: "'w fs_env \<Rightarrow> 'w disk \<Rightarrow> fs_path \<Rightarrow> fs_node option" where
  "node_at F d p = disk_nodes d (fs_key F p)"

definition set_node :: "'w fs_env \<Rightarrow> fs_path \<Rightarrow> fs_node option \<Rightarrow> 'w disk \<Rightarrow> 'w disk" where
  "set_node F p n d = d\<lparr>disk_nodes := (disk_nodes d)(fs_key F p := n)\<rparr>"

definition draw :: "('w \<Rightarrow> 'a \<times> 'w) \<Rightarrow> 'w disk \<Rightarrow> 'a \<times> 'w disk" where
  "draw f d = (let (x, w) = f (disk_world d) in (x, d\<lparr>disk_world := w\<rparr>))"

definition in_directory :: "'w fs_env \<Rightarrow> 'w disk \<Rightarrow> fs_path \<Rightarrow> bool" where
  "in_directory F d p \<longleftrightarrow> p \<noteq> [] \<and> node_at F d (butlast p) = Some DirNode"

definition create_dir :: "'w fs_env \<Rightarrow> fs_path \<Rightarrow> 'w disk \<Rightarrow> (fs_error + unit) \<times> 'w disk" where
  "create_dir F p d =
     (let (k, d) = draw (fault F) d in
      if k \<noteq> None then (Inl FsOther, d)
      else if node_at F d p \<noteq> None then (Inl FsAlreadyExists, d)
      else if \<not> in_directory F d p then (Inl FsNotFound, d)
      else (Inr (), set_node F p (Some DirNode) d))"

text \<open>\<open>create_new\<close>, \<open>write_all\<close> and \<open>sync_all\<close>; a failure may leave the file with a part of its bytes.\<close>

definition write_new_file :: "'w fs_env \<Rightarrow> fs_path \<Rightarrow> byte list \<Rightarrow> 'w disk \<Rightarrow> (fs_error + unit) \<times> 'w disk" where
  "write_new_file F p bytes d =
     (let (k, d) = draw (fault F) d in
      if node_at F d p \<noteq> None then (Inl FsAlreadyExists, d)
      else if \<not> in_directory F d p then (Inl FsNotFound, d)
      else case k of
          None \<Rightarrow> (Inr (), set_node F p (Some (FileNode bytes)) d)
        | Some 0 \<Rightarrow> (Inl FsOther, d)
        | Some (Suc n) \<Rightarrow> (Inl FsOther, set_node F p (Some (FileNode (take n bytes))) d))"

definition read_file :: "'w fs_env \<Rightarrow> fs_path \<Rightarrow> 'w disk \<Rightarrow> (fs_error + byte list) \<times> 'w disk" where
  "read_file F p d =
     (let (k, d) = draw (fault F) d in
      if k \<noteq> None then (Inl FsOther, d)
      else case node_at F d p of
          Some (FileNode bytes) \<Rightarrow> (Inr bytes, d)
        | Some _ \<Rightarrow> (Inl FsOther, d)
        | None \<Rightarrow> (Inl FsNotFound, d))"

definition symlink_metadata :: "'w fs_env \<Rightarrow> fs_path \<Rightarrow> 'w disk \<Rightarrow> (fs_error + fs_node) \<times> 'w disk" where
  "symlink_metadata F p d =
     (let (k, d) = draw (fault F) d in
      if k \<noteq> None then (Inl FsOther, d)
      else case node_at F d p of Some n \<Rightarrow> (Inr n, d) | None \<Rightarrow> (Inl FsNotFound, d))"

definition remove_file :: "'w fs_env \<Rightarrow> fs_path \<Rightarrow> 'w disk \<Rightarrow> (fs_error + unit) \<times> 'w disk" where
  "remove_file F p d =
     (let (k, d) = draw (fault F) d in
      if k \<noteq> None then (Inl FsOther, d)
      else case node_at F d p of
          Some DirNode \<Rightarrow> (Inl FsOther, d)
        | Some _ \<Rightarrow> (Inr (), set_node F p None d)
        | None \<Rightarrow> (Inl FsNotFound, d))"

text \<open>Renaming a file over another replaces it in one step.\<close>

definition rename_file :: "'w fs_env \<Rightarrow> fs_path \<Rightarrow> fs_path \<Rightarrow> 'w disk \<Rightarrow> (fs_error + unit) \<times> 'w disk" where
  "rename_file F p q d =
     (let (k, d) = draw (fault F) d in
      if k \<noteq> None then (Inl FsOther, d)
      else case node_at F d p of
          Some (FileNode bytes) \<Rightarrow>
            if node_at F d q = Some DirNode \<or> \<not> in_directory F d q then (Inl FsOther, d)
            else (Inr (), set_node F q (Some (FileNode bytes)) (set_node F p None d))
        | _ \<Rightarrow> (Inl FsNotFound, d))"

definition sync_directory :: "'w fs_env \<Rightarrow> fs_path \<Rightarrow> 'w disk \<Rightarrow> (fs_error + unit) \<times> 'w disk" where
  "sync_directory F p d =
     (let (k, d) = draw (fault F) d in
      if k \<noteq> None then (Inl FsOther, d)
      else if node_at F d p = Some DirNode then (Inr (), d) else (Inl FsNotFound, d))"

section \<open>Atomic replacement\<close>

definition temporary_name :: "string \<Rightarrow> string \<Rightarrow> string" where
  "temporary_name name tag = ''.'' @ name @ ''.'' @ tag @ ''.tmp''"

definition write_and_replace ::
    "'w fs_env \<Rightarrow> fs_path \<Rightarrow> fs_path \<Rightarrow> fs_path \<Rightarrow> byte list \<Rightarrow> 'w disk \<Rightarrow> (fs_error + unit) \<times> 'w disk" where
  "write_and_replace F dir temporary p bytes d =
     st_then (write_new_file F temporary bytes d) (\<lambda>_ d.
     st_then (rename_file F temporary p d) (\<lambda>_ d.
     st_then (sync_directory F dir d) (\<lambda>_ d. (Inr (), d))))"

definition atomic_write ::
    "'w fs_env \<Rightarrow> fs_path \<Rightarrow> byte list \<Rightarrow> 'w disk \<Rightarrow> (platform_error + unit) \<times> 'w disk" where
  "atomic_write F p bytes d =
     (if p = [] then (Inl (UntrustedPath [] ''output has no parent''), d)
      else
        let (tag, d) = draw (temp_tag F) d;
            temporary = butlast p @ [temporary_name (last p) tag];
            (r, d) = write_and_replace F (butlast p) temporary p bytes d
        in case r of
             Inr _ \<Rightarrow> (Inr (), d)
           | Inl _ \<Rightarrow> (Inl (PlatformIo ''write failed''), snd (remove_file F temporary d)))"

section \<open>Facts\<close>

lemma node_at_draw [simp]: "draw f d = (x, d') \<Longrightarrow> node_at F d' p = node_at F d p"
  by (auto simp: draw_def node_at_def split: prod.splits)

lemma node_at_set [simp]:
  "node_at F (set_node F p n d) q = (if fs_key F q = fs_key F p then n else node_at F d q)"
  by (simp add: node_at_def set_node_def)

lemmas fs_op_defs = create_dir_def write_new_file_def read_file_def symlink_metadata_def remove_file_def
  rename_file_def sync_directory_def

text \<open>Every path but those an operation names keeps its node.\<close>

definition keeps_except :: "'w fs_env \<Rightarrow> fs_path set \<Rightarrow> 'w disk \<Rightarrow> 'w disk \<Rightarrow> bool" where
  "keeps_except F ps d d' \<longleftrightarrow> (\<forall>q. fs_key F q \<notin> fs_key F ` ps \<longrightarrow> node_at F d' q = node_at F d q)"

lemma keeps_except_refl [simp]: "keeps_except F ps d d"
  by (simp add: keeps_except_def)

lemma keeps_except_trans: "keeps_except F ps d d' \<Longrightarrow> keeps_except F ps d' d'' \<Longrightarrow> keeps_except F ps d d''"
  by (simp add: keeps_except_def)

lemma keeps_except_mono: "keeps_except F ps d d' \<Longrightarrow> ps \<subseteq> qs \<Longrightarrow> keeps_except F qs d d'"
  by (auto simp: keeps_except_def)

lemma fs_op_keeps:
  "create_dir F p d = (r1, d') \<Longrightarrow> keeps_except F {p} d d'"
  "write_new_file F p bytes d = (r1, d') \<Longrightarrow> keeps_except F {p} d d'"
  "read_file F p d = (r2, d') \<Longrightarrow> keeps_except F {} d d'"
  "symlink_metadata F p d = (r3, d') \<Longrightarrow> keeps_except F {} d d'"
  "remove_file F p d = (r1, d') \<Longrightarrow> keeps_except F {p} d d'"
  "rename_file F p q d = (r1, d') \<Longrightarrow> keeps_except F {p, q} d d'"
  "sync_directory F p d = (r1, d') \<Longrightarrow> keeps_except F {} d d'"
  by (auto simp: fs_op_defs keeps_except_def split: prod.splits if_splits option.splits nat.splits fs_node.splits)

text \<open>The names that \<open>atomic_write\<close> may use for its temporary file.\<close>

definition temporaries :: "'w fs_env \<Rightarrow> fs_path \<Rightarrow> fs_path set" where
  "temporaries F p = {fs_key F (butlast p @ [temporary_name (last p) tag]) | tag. True}"

definition spares :: "'w fs_env \<Rightarrow> fs_path \<Rightarrow> 'w disk \<Rightarrow> 'w disk \<Rightarrow> bool" where
  "spares F p d d' \<longleftrightarrow>
     (\<forall>q. fs_key F q \<noteq> fs_key F p \<longrightarrow> fs_key F q \<notin> temporaries F p \<longrightarrow> node_at F d' q = node_at F d q)"

text \<open>
  Whatever fails, an atomic write leaves the old node or the whole new file, the new file when it succeeds, and
  no other path changed but the temporary one.
\<close>

lemma atomic_write_result:
  assumes "atomic_write F p bytes d = (r, d')" "p \<noteq> []" "fs_key F p \<notin> temporaries F p"
  shows "spares F p d d'"
    and "(node_at F d' p = node_at F d p \<and> r \<noteq> Inr ()) \<or> node_at F d' p = Some (FileNode bytes)"
proof -
  obtain tag d0 where t: "draw (temp_tag F) d = (tag, d0)" by fastforce
  let ?t = "butlast p @ [temporary_name (last p) tag]"
  have T: "fs_key F ?t \<in> temporaries F p" by (auto simp: temporaries_def)
  then have key: "fs_key F p \<noteq> fs_key F ?t" using assms(3) by auto
  obtain x d1 where w: "write_new_file F ?t bytes d0 = (x, d1)" by fastforce
  obtain y d2 where m: "rename_file F ?t p d1 = (y, d2)" by fastforce
  obtain z d3 where n: "sync_directory F (butlast p) d2 = (z, d3)" by fastforce
  define L R where L: "L = (if x \<noteq> Inr () then d1 else if y \<noteq> Inr () then d2 else d3)"
    and R: "R = and_then x (\<lambda>_. and_then y (\<lambda>_. z))"
  obtain v d4 where u: "remove_file F ?t L = (v, d4)" by fastforce
  note keeps = fs_op_keeps(2) [OF w] fs_op_keeps(6) [OF m] fs_op_keeps(7) [OF n] fs_op_keeps(5) [OF u]
  have last: "node_at F L q = node_at F d q" if "fs_key F q \<noteq> fs_key F p" "fs_key F q \<noteq> fs_key F ?t" for q
    using that keeps(1-3) t by (auto simp: keeps_except_def L)
  have written: "x = Inr () \<Longrightarrow> node_at F d1 ?t = Some (FileNode bytes)"
    using w by (auto simp: write_new_file_def split: prod.splits if_splits option.splits nat.splits)
  have moved: "y = Inr () \<Longrightarrow> x = Inr () \<Longrightarrow> node_at F d2 p = Some (FileNode bytes)"
    using m written by (auto simp: rename_file_def split: prod.splits if_splits option.splits fs_node.splits)
  have unmoved: "y \<noteq> Inr () \<Longrightarrow> node_at F d2 p = node_at F d1 p"
    using m by (auto simp: rename_file_def split: prod.splits if_splits option.splits fs_node.splits)
  have p: "(node_at F L p = node_at F d p \<and> \<not> (x = Inr () \<and> y = Inr () \<and> z = Inr ())) \<or>
      node_at F L p = Some (FileNode bytes)"
    using keeps(1-3) key moved unmoved t by (auto simp: keeps_except_def L)
  have "write_and_replace F (butlast p) ?t p bytes d0 = (R, L)"
    by (cases x; cases y; cases z) (simp_all add: write_and_replace_def w m n L R)
  then have run: "(r, d') = (case R of Inr _ \<Rightarrow> (Inr (), L) | Inl _ \<Rightarrow> (Inl (PlatformIo ''write failed''), d4))"
    using assms(1,2) u by (cases R) (simp_all add: atomic_write_def t)
  have all: "R = Inr () \<longleftrightarrow> x = Inr () \<and> y = Inr () \<and> z = Inr ()"
    by (cases x; cases y; cases z) (simp_all add: R)
  have d': "d' = (if R = Inr () then L else d4)" and r: "r = Inr () \<longleftrightarrow> R = Inr ()"
    using run by (cases R; simp)+
  have d4: "node_at F d4 q = node_at F L q" if "fs_key F q \<noteq> fs_key F ?t" for q
    using that keeps(4) by (simp add: keeps_except_def)
  show "spares F p d d'"
    unfolding spares_def
  proof (intro allI impI)
    fix q assume q: "fs_key F q \<noteq> fs_key F p" "fs_key F q \<notin> temporaries F p"
    then have "fs_key F q \<noteq> fs_key F ?t" using T by auto
    with last [OF q(1)] d4 d' show "node_at F d' q = node_at F d q" by simp
  qed
  show "(node_at F d' p = node_at F d p \<and> r \<noteq> Inr ()) \<or> node_at F d' p = Some (FileNode bytes)"
    using p d4 [of p] key d' r all by auto
qed

text \<open>
  The clean-up removes whatever has the temporary's name: a file that was there before makes the write fail and
  is deleted.
\<close>

lemma atomic_write_deletes_existing:
  assumes "draw (temp_tag F) d = (tag, d0)" "p \<noteq> []"
    and "node_at F d (butlast p @ [temporary_name (last p) tag]) = Some (FileNode b)" "\<And>w. fst (fault F w) = None"
  shows "\<exists>e d'. atomic_write F p bytes d = (Inl e, d') \<and>
    node_at F d' (butlast p @ [temporary_name (last p) tag]) = None"
proof -
  let ?t = "butlast p @ [temporary_name (last p) tag]"
  have quiet: "\<exists>e. draw (fault F) e1 = (None, e) \<and> (\<forall>q. node_at F e q = node_at F e1 q)" for e1
    using assms(4) [of "disk_world e1"] by (cases "fault F (disk_world e1)") (auto simp: draw_def node_at_def)
  obtain d1 where d1: "draw (fault F) d0 = (None, d1)" "\<forall>q. node_at F d1 q = node_at F d0 q" using quiet by blast
  obtain d2 where d2: "draw (fault F) d1 = (None, d2)" "\<forall>q. node_at F d2 q = node_at F d1 q" using quiet by blast
  have "node_at F d0 ?t = Some (FileNode b)" using assms(1,3) by simp
  with assms(1,2) d1 d2 show ?thesis
    by (simp add: atomic_write_def write_and_replace_def write_new_file_def remove_file_def)
qed

end
