(* ===== verification/Evidence_Store.thy ===== *)
theory Evidence_Store
  imports File_System Committed_Result
begin

text \<open>
  The protected evidence store, \<open>baselineops-engine/src/evidence.rs\<close>: artifact files below a root and a canonical
  manifest that is replaced atomically after each of them is durable. The protection of the root and the generator
  of identifiers belong to the world; \<open>dec\<close> is the typed decoder of a manifest. \<open>partition_point\<close> is the binary
  search of the standard library, which promises the boundary on a partitioned list only.
\<close>

section \<open>Definitions\<close>

datatype evidence_error =
    EvidenceIo fs_error
  | EvidenceDomain domain_error
  | EvidenceJson string
  | EvidencePlatform platform_error
  | EvidenceProtection string
  | InvalidEvidenceLimits
  | EvidenceAlreadyExists
  | UnsafeLocator string
  | QuotaExceeded
  | InvalidManifest
  | NonCanonicalManifest
  | IntegrityMismatch string
  | UnknownArtifact
  | PersistenceRollback evidence_error evidence_error
  | StoreUnusable

record evidence_limits =
  ev_max_file_bytes :: u64
  ev_max_total_bytes :: u64
  ev_max_artifacts :: usize

definition evidence_limits_validate :: "evidence_limits \<Rightarrow> evidence_error + unit" where
  "evidence_limits_validate l =
     (if ev_max_file_bytes l = 0 \<or> ev_max_total_bytes l = 0 \<or> ev_max_artifacts l = 0 \<or>
         ev_max_file_bytes l > ev_max_total_bytes l
      then Inl InvalidEvidenceLimits else Inr ())"

record evidence_write =
  write_locator :: string
  write_kind :: artifact_kind
  write_media_type :: string
  write_created_at :: datetime
  write_metadata :: json_map

record evidence_manifest =
  manifest_schema :: string
  manifest_artifacts :: "artifact list"
  manifest_total :: u64

definition empty_manifest :: evidence_manifest where
  "empty_manifest = \<lparr>manifest_schema = ''1.0'', manifest_artifacts = [], manifest_total = 0\<rparr>"

definition manifest_name :: string where "manifest_name = ''evidence-manifest.v1.json''"

definition manifest_json :: "'h ext \<Rightarrow> evidence_manifest \<Rightarrow> jvalue" where
  "manifest_json E m = obj [
     field ''schema_version'' (JString (manifest_schema m)),
     field ''artifacts'' (JArray (map (artifact_json E) (manifest_artifacts m))),
     field ''total_bytes'' (jnat (manifest_total m))]"

record 'w evidence_env =
  ev_fs :: "'w fs_env"
  ev_protect :: "fs_path \<Rightarrow> 'w \<Rightarrow> (evidence_error + unit) \<times> 'w"
  ev_verify :: "fs_path \<Rightarrow> 'w \<Rightarrow> (evidence_error + unit) \<times> 'w"
  ev_new_id :: "'w \<Rightarrow> uuid \<times> 'w"
  partition_point :: "bool list \<Rightarrow> usize"

record 'w evidence_store =
  store_root :: fs_path
  store_limits :: evidence_limits
  store_manifest :: evidence_manifest
  store_usable :: bool
  store_disk :: "'w disk"

definition on_disk :: "('w disk \<Rightarrow> 'r \<times> 'w disk) \<Rightarrow> 'w evidence_store \<Rightarrow> 'r \<times> 'w evidence_store" where
  "on_disk f s = (let (r, d) = f (store_disk s) in (r, s\<lparr>store_disk := d\<rparr>))"

definition safe_relative_path :: "string \<Rightarrow> evidence_error + fs_path" where
  "safe_relative_path locator =
     (let p = components locator in
      if locator = [] \<or> sep_char \<in> set locator \<or> CHR '':'' \<in> set locator \<or> is_absolute p
      then Inl (UnsafeLocator locator)
      else ok_or (UnsafeLocator locator) (normal_names p))"

definition insert_artifact_sorted :: "'w evidence_env \<Rightarrow> artifact list \<Rightarrow> artifact \<Rightarrow> artifact list \<times> usize" where
  "insert_artifact_sorted V as a =
     (let i = partition_point V (map (\<lambda>c. artifact_locator c < artifact_locator a) as)
      in (take i as @ a # drop i as, i))"

definition remove_at :: "usize \<Rightarrow> 'a list \<Rightarrow> 'a list" where
  "remove_at i xs = take i xs @ drop (Suc i) xs"

definition persist_manifest ::
    "'h ext \<Rightarrow> 'w evidence_env \<Rightarrow> 'w evidence_store \<Rightarrow> (evidence_error + unit) \<times> 'w evidence_store" where
  "persist_manifest E V s =
     st_then (on_disk (draw (ev_verify V (store_root s))) s) (\<lambda>_ s.
     st_then (map_err EvidenceDomain
         (canonical_json_bytes E (\<lambda>m. Inr (manifest_json E m)) (store_manifest s)), s) (\<lambda>bytes s.
       let (r, s) = on_disk (atomic_write (ev_fs V) (store_root s @ [manifest_name]) bytes) s
       in (map_err EvidencePlatform r, s)))"

definition verify_access ::
    "'w evidence_env \<Rightarrow> 'w evidence_store \<Rightarrow> (evidence_error + unit) \<times> 'w evidence_store" where
  "verify_access V s =
     (if \<not> store_usable s then (Inl StoreUnusable, s) else on_disk (draw (ev_verify V (store_root s))) s)"

definition write_quota :: "'w evidence_store \<Rightarrow> byte list \<Rightarrow> evidence_error + (u64 \<times> u64)" where
  "write_quota s bytes =
     (let size = length bytes; l = store_limits s; m = store_manifest s in
      if size \<ge> u64_bound then Inl QuotaExceeded
      else if size > ev_max_file_bytes l \<or> length (manifest_artifacts m) \<ge> ev_max_artifacts l then Inl QuotaExceeded
      else
        and_then (ok_or QuotaExceeded (checked_add_u64 (manifest_total m) size)) (\<lambda>total.
          if total > ev_max_total_bytes l then Inl QuotaExceeded else Inr (size, total)))"

definition create_safe_directory ::
    "'w fs_env \<Rightarrow> string \<Rightarrow> fs_path \<Rightarrow> 'w disk \<Rightarrow> (evidence_error + unit) \<times> 'w disk" where
  "create_safe_directory F locator p d =
     (case create_dir F p d of
        (Inl e, d) \<Rightarrow>
          if e = FsAlreadyExists
          then (case symlink_metadata F p d of
              (Inl e, d) \<Rightarrow> (Inl (EvidenceIo e), d)
            | (Inr n, d) \<Rightarrow> (if n = DirNode then Inr () else Inl (UnsafeLocator locator), d))
          else (Inl (EvidenceIo e), d)
      | (Inr _, d) \<Rightarrow>
          (case symlink_metadata F p d of
             (Inl e, d) \<Rightarrow> (Inl (EvidenceIo e), d)
           | (Inr n, d) \<Rightarrow> (if n = DirNode then Inr () else Inl (UnsafeLocator locator), d)))"

text \<open>The loop of \<open>ensure_safe_parent\<close> over the names above the file.\<close>

fun ensure_safe_parent ::
    "'w fs_env \<Rightarrow> string \<Rightarrow> fs_path \<Rightarrow> string list \<Rightarrow> 'w disk \<Rightarrow> (evidence_error + unit) \<times> 'w disk" where
  "ensure_safe_parent F locator current [] d = (Inr (), d)"
| "ensure_safe_parent F locator current (n # ns) d =
     st_then (create_safe_directory F locator (current @ [n]) d) (\<lambda>_ d.
       ensure_safe_parent F locator (current @ [n]) ns d)"

definition artifact_from :: "'h ext \<Rightarrow> uuid \<Rightarrow> evidence_write \<Rightarrow> byte list \<Rightarrow> u64 \<Rightarrow> artifact" where
  "artifact_from E aid request bytes n =
     \<lparr>artifact_id = aid, artifact_class = write_kind request, media_type = write_media_type request,
      artifact_locator = write_locator request, artifact_digest = of_bytes E bytes, artifact_size_bytes = n,
      artifact_created_at = write_created_at request, artifact_metadata = write_metadata request\<rparr>"

definition commit_artifact ::
    "'h ext \<Rightarrow> 'w evidence_env \<Rightarrow> artifact \<Rightarrow> u64 \<Rightarrow> fs_path \<Rightarrow> 'w evidence_store \<Rightarrow>
     (evidence_error + unit) \<times> 'w evidence_store" where
  "commit_artifact E V a new_total p s =
     (let previous_total = manifest_total (store_manifest s);
          (as, insertion) = insert_artifact_sorted V (manifest_artifacts (store_manifest s)) a;
          s = s\<lparr>store_manifest := (store_manifest s)\<lparr>manifest_artifacts := as, manifest_total := new_total\<rparr>\<rparr>
      in case persist_manifest E V s of
           (Inr _, s) \<Rightarrow> (Inr (), s)
         | (Inl error, s) \<Rightarrow>
             let s = s\<lparr>store_manifest := (store_manifest s)\<lparr>
                   manifest_artifacts := remove_at insertion (manifest_artifacts (store_manifest s)),
                   manifest_total := previous_total\<rparr>\<rparr>
             in case persist_manifest E V s of
                  (Inl rollback, s) \<Rightarrow> (Inl (PersistenceRollback error rollback), s\<lparr>store_usable := False\<rparr>)
                | (Inr _, s) \<Rightarrow>
                    (case on_disk (remove_file (ev_fs V) p) s of
                       (Inl cleanup, s) \<Rightarrow> (Inl (EvidenceIo cleanup), s\<lparr>store_usable := False\<rparr>)
                     | (Inr _, s) \<Rightarrow> (Inl error, s)))"

definition evidence_write_op ::
    "'h ext \<Rightarrow> 'w evidence_env \<Rightarrow> evidence_write \<Rightarrow> byte list \<Rightarrow> 'w evidence_store \<Rightarrow>
     (evidence_error + artifact) \<times> 'w evidence_store" where
  "evidence_write_op E V request bytes s =
     st_then (verify_access V s) (\<lambda>_ s.
     st_then (safe_relative_path (write_locator request), s) (\<lambda>relative s.
     st_then (write_quota s bytes, s) (\<lambda>(size, total) s.
     st_then (on_disk (ensure_safe_parent (ev_fs V) (write_locator request) (store_root s) (butlast relative)) s) (\<lambda>_ s.
     st_then (let (r, s) = on_disk (write_new_file (ev_fs V) (store_root s @ relative) bytes) s
              in (map_err EvidenceIo r, s)) (\<lambda>_ s.
       let (aid, s) = on_disk (draw (ev_new_id V)) s;
           a = artifact_from E aid request bytes size
       in st_then (commit_artifact E V a total (store_root s @ relative) s) (\<lambda>_ s. (Inr a, s)))))))"

definition read_verified_artifact ::
    "'h ext \<Rightarrow> 'w fs_env \<Rightarrow> fs_path \<Rightarrow> artifact \<Rightarrow> string \<Rightarrow> 'w disk \<Rightarrow> (evidence_error + byte list) \<times> 'w disk" where
  "read_verified_artifact E F p a locator d =
     (case read_file F p d of
        (Inl e, d) \<Rightarrow> (Inl (EvidenceIo e), d)
      | (Inr bytes, d) \<Rightarrow>
          (if length bytes \<noteq> artifact_size_bytes a \<or> of_bytes E bytes \<noteq> artifact_digest a
           then Inl (IntegrityMismatch locator) else Inr bytes, d))"

definition evidence_read ::
    "'h ext \<Rightarrow> 'w evidence_env \<Rightarrow> string \<Rightarrow> 'w evidence_store \<Rightarrow> (evidence_error + byte list) \<times> 'w evidence_store" where
  "evidence_read E V locator s =
     st_then (verify_access V s) (\<lambda>_ s.
     st_then (safe_relative_path locator, s) (\<lambda>relative s.
     st_then (ok_or UnknownArtifact (find (\<lambda>a. artifact_locator a = locator) (manifest_artifacts (store_manifest s))), s)
       (\<lambda>a s. on_disk (read_verified_artifact E (ev_fs V) (store_root s @ relative) a locator) s)))"

text \<open>\<open>create_dir_all\<close>: the missing directories from the top.\<close>

fun create_dir_all :: "'w fs_env \<Rightarrow> fs_path \<Rightarrow> string list \<Rightarrow> 'w disk \<Rightarrow> (fs_error + unit) \<times> 'w disk" where
  "create_dir_all F current [] d = (Inr (), d)"
| "create_dir_all F current (n # ns) d =
     (case node_at F d (current @ [n]) of
        Some DirNode \<Rightarrow> create_dir_all F (current @ [n]) ns d
      | Some _ \<Rightarrow> (Inl FsAlreadyExists, d)
      | None \<Rightarrow> st_then (create_dir F (current @ [n]) d) (\<lambda>_ d. create_dir_all F (current @ [n]) ns d))"

text \<open>\<open>Path::exists\<close> answers no when the query fails.\<close>

definition path_exists :: "'w fs_env \<Rightarrow> fs_path \<Rightarrow> 'w disk \<Rightarrow> bool \<times> 'w disk" where
  "path_exists F p d = (let (k, d) = draw (fault F) d in (k = None \<and> node_at F d p \<noteq> None, d))"

definition evidence_create ::
    "'h ext \<Rightarrow> 'w evidence_env \<Rightarrow> fs_path \<Rightarrow> evidence_limits \<Rightarrow> 'w disk \<Rightarrow>
     (evidence_error + 'w evidence_store) \<times> 'w disk" where
  "evidence_create E V root l d =
     st_then (evidence_limits_validate l, d) (\<lambda>_ d.
     st_then (let (r, d) = create_dir_all (ev_fs V) [] root d in (map_err EvidenceIo r, d)) (\<lambda>_ d.
     st_then (draw (ev_protect V root) d) (\<lambda>_ d.
     st_then (draw (ev_verify V root) d) (\<lambda>_ d.
       let (there, d) = path_exists (ev_fs V) (root @ [manifest_name]) d in
       if there then (Inl EvidenceAlreadyExists, d)
       else
         let (r, s) = persist_manifest E V \<lparr>store_root = root, store_limits = l, store_manifest = empty_manifest,
               store_usable = True, store_disk = d\<rparr>
         in (and_then r (\<lambda>_. Inr s), store_disk s)))))"

definition read_manifest ::
    "'h ext \<Rightarrow> 'w fs_env \<Rightarrow> (byte list \<Rightarrow> string + evidence_manifest) \<Rightarrow> fs_path \<Rightarrow> 'w disk \<Rightarrow>
     (evidence_error + evidence_manifest) \<times> 'w disk" where
  "read_manifest E F dec root d =
     (case read_file F (root @ [manifest_name]) d of
        (Inl e, d) \<Rightarrow> (Inl (EvidenceIo e), d)
      | (Inr bytes, d) \<Rightarrow>
          (and_then (map_err EvidenceJson (dec bytes)) (\<lambda>m.
           and_then (map_err EvidenceDomain (canonical_json_bytes E (\<lambda>m. Inr (manifest_json E m)) m)) (\<lambda>canonical.
             if canonical \<noteq> bytes then Inl NonCanonicalManifest else Inr m)), d))"

definition validate_manifest_header :: "evidence_manifest \<Rightarrow> evidence_limits \<Rightarrow> evidence_error + unit" where
  "validate_manifest_header m l =
     (if manifest_schema m \<noteq> ''1.0'' \<or> length (manifest_artifacts m) > ev_max_artifacts l
      then Inl InvalidManifest else Inr ())"

definition validate_manifest_artifact ::
    "'h ext \<Rightarrow> 'w fs_env \<Rightarrow> fs_path \<Rightarrow> artifact \<Rightarrow> evidence_limits \<Rightarrow> string set \<Rightarrow> 'w disk \<Rightarrow>
     (evidence_error + string set) \<times> 'w disk" where
  "validate_manifest_artifact E F root a l locators d =
     st_then (safe_relative_path (artifact_locator a), d) (\<lambda>p d.
       if artifact_locator a \<in> locators \<or> artifact_size_bytes a > ev_max_file_bytes l then (Inl InvalidManifest, d)
       else st_then (read_verified_artifact E F (root @ p) a (artifact_locator a) d) (\<lambda>_ d.
         (Inr (insert (artifact_locator a) locators), d)))"

text \<open>The loop of \<open>validate_manifest\<close>.\<close>

fun validate_manifest_loop ::
    "'h ext \<Rightarrow> 'w fs_env \<Rightarrow> fs_path \<Rightarrow> evidence_limits \<Rightarrow> artifact list \<Rightarrow> string set \<Rightarrow> u64 \<Rightarrow> 'w disk \<Rightarrow>
     (evidence_error + u64) \<times> 'w disk" where
  "validate_manifest_loop E F root l [] locators t d = (Inr t, d)"
| "validate_manifest_loop E F root l (a # as) locators t d =
     st_then (validate_manifest_artifact E F root a l locators d) (\<lambda>locators d.
     st_then (ok_or QuotaExceeded (checked_add_u64 t (artifact_size_bytes a)), d) (\<lambda>t d.
       validate_manifest_loop E F root l as locators t d))"

definition validate_manifest ::
    "'h ext \<Rightarrow> 'w fs_env \<Rightarrow> fs_path \<Rightarrow> evidence_manifest \<Rightarrow> evidence_limits \<Rightarrow> 'w disk \<Rightarrow>
     (evidence_error + unit) \<times> 'w disk" where
  "validate_manifest E F root m l d =
     st_then (validate_manifest_header m l, d) (\<lambda>_ d.
     st_then (validate_manifest_loop E F root l (manifest_artifacts m) {} 0 d) (\<lambda>total d.
       (if total \<noteq> manifest_total m \<or> total > ev_max_total_bytes l then Inl InvalidManifest else Inr (), d)))"

definition evidence_open ::
    "'h ext \<Rightarrow> 'w evidence_env \<Rightarrow> (byte list \<Rightarrow> string + evidence_manifest) \<Rightarrow> fs_path \<Rightarrow> evidence_limits \<Rightarrow> 'w disk \<Rightarrow>
     (evidence_error + 'w evidence_store) \<times> 'w disk" where
  "evidence_open E V dec root l d =
     st_then (evidence_limits_validate l, d) (\<lambda>_ d.
     st_then (draw (ev_verify V root) d) (\<lambda>_ d.
     st_then (read_manifest E (ev_fs V) dec root d) (\<lambda>m d.
     st_then (validate_manifest E (ev_fs V) root m l d) (\<lambda>_ d.
       (Inr \<lparr>store_root = root, store_limits = l, store_manifest = m, store_usable = True, store_disk = d\<rparr>, d)))))"

end
