(* ===== verification/Evidence_Safety.thy ===== *)
theory Evidence_Safety
  imports Evidence_Store
begin

text \<open>What a store keeps: the manifest on disk is that of a consistent set of artifact files.\<close>

abbreviation manifest_bytes :: "'h ext \<Rightarrow> evidence_manifest \<Rightarrow> domain_error + byte list" where
  "manifest_bytes E m \<equiv> canonical_json_bytes E (\<lambda>m. Inr (manifest_json E m)) m"

abbreviation manifest_path :: "fs_path \<Rightarrow> fs_path" where
  "manifest_path root \<equiv> root @ [manifest_name]"

definition reserved :: "'w fs_env \<Rightarrow> fs_path \<Rightarrow> fs_path set" where
  "reserved F root = insert (fs_key F (manifest_path root)) (temporaries F (manifest_path root))"

definition art_file :: "'h ext \<Rightarrow> 'w fs_env \<Rightarrow> fs_path \<Rightarrow> 'w disk \<Rightarrow> artifact \<Rightarrow> byte list \<Rightarrow> bool" where
  "art_file E F root d a b \<longleftrightarrow>
     (\<exists>p. safe_relative_path (artifact_locator a) = Inr p \<and> fs_key F (root @ p) \<notin> reserved F root \<and>
        node_at F d (root @ p) = Some (FileNode b)) \<and>
     length b = artifact_size_bytes a \<and> of_bytes E b = artifact_digest a"

definition good_manifest ::
    "'h ext \<Rightarrow> 'w fs_env \<Rightarrow> fs_path \<Rightarrow> evidence_limits \<Rightarrow> 'w disk \<Rightarrow> evidence_manifest \<Rightarrow> bool" where
  "good_manifest E F root l d m \<longleftrightarrow>
     evidence_limits_validate l = Inr () \<and> manifest_schema m = ''1.0'' \<and> length (manifest_artifacts m) \<le> ev_max_artifacts l \<and>
     distinct (map artifact_locator (manifest_artifacts m)) \<and>
     manifest_total m = sum_list (map artifact_size_bytes (manifest_artifacts m)) \<and>
     manifest_total m \<le> ev_max_total_bytes l \<and> manifest_total m < u64_bound \<and>
     (\<forall>a\<in>set (manifest_artifacts m). artifact_size_bytes a \<le> ev_max_file_bytes l \<and> (\<exists>b. art_file E F root d a b))"

definition retains ::
    "'h ext \<Rightarrow> 'w fs_env \<Rightarrow> fs_path \<Rightarrow> 'w disk \<Rightarrow> evidence_manifest \<Rightarrow> (artifact \<times> byte list) list \<Rightarrow> bool" where
  "retains E F root d m acked \<longleftrightarrow>
     (\<forall>(a, b)\<in>set acked. a \<in> set (manifest_artifacts m) \<and> art_file E F root d a b)"

definition manifest_on ::
    "'h ext \<Rightarrow> 'w fs_env \<Rightarrow> fs_path \<Rightarrow> 'w disk \<Rightarrow> evidence_manifest \<Rightarrow> bool" where
  "manifest_on E F root d m \<longleftrightarrow>
     (\<exists>b. manifest_bytes E m = Inr b \<and> node_at F d (manifest_path root) = Some (FileNode b))"

definition keeps_files :: "'w fs_env \<Rightarrow> fs_path set \<Rightarrow> 'w disk \<Rightarrow> 'w disk \<Rightarrow> bool" where
  "keeps_files F ks d d' \<longleftrightarrow>
     (\<forall>q b. fs_key F q \<notin> ks \<longrightarrow> node_at F d q = Some (FileNode b) \<longrightarrow> node_at F d' q = Some (FileNode b))"

lemma keeps_files_refl [simp]: "keeps_files F ks d d"
  by (simp add: keeps_files_def)

lemma keeps_files_trans: "keeps_files F ks d d' \<Longrightarrow> keeps_files F ks d' d'' \<Longrightarrow> keeps_files F ks d d''"
  by (simp add: keeps_files_def)

lemma keeps_files_draw: "draw f d = (x, d') \<Longrightarrow> keeps_files F ks d d'"
  by (simp add: keeps_files_def)

lemma keeps_files_mono: "keeps_files F ks d d' \<Longrightarrow> ks \<subseteq> ks' \<Longrightarrow> keeps_files F ks' d d'"
  by (auto simp: keeps_files_def)

lemma creating_keeps_files:
  "create_dir F p d = (r, d') \<Longrightarrow> keeps_files F ks d d'"
  "write_new_file F p bytes d = (r, d') \<Longrightarrow> keeps_files F ks d d'"
  "symlink_metadata F p d = (n, d') \<Longrightarrow> keeps_files F ks d d'"
  "read_file F p d = (x, d') \<Longrightarrow> keeps_files F ks d d'"
  by (auto simp: fs_op_defs keeps_files_def node_at_def set_node_def draw_def
      split: prod.splits if_splits option.splits nat.splits fs_node.splits)

lemma create_safe_directory_keeps:
  assumes "create_safe_directory F locator p d = (r, d')"
  shows "keeps_files F ks d d'"
proof -
  obtain x d1 where c: "create_dir F p d = (x, d1)" by fastforce
  obtain n d2 where m: "symlink_metadata F p d1 = (n, d2)" by fastforce
  have "d' = d1 \<or> d' = d2"
    using assms by (auto simp: create_safe_directory_def c m split: sum.splits if_splits)
  with creating_keeps_files(1) [OF c] creating_keeps_files(3) [OF m] keeps_files_trans show ?thesis by blast
qed

lemma ensure_safe_parent_keeps: "ensure_safe_parent F locator c ns d = (r, d') \<Longrightarrow> keeps_files F ks d d'"
proof (induction ns arbitrary: c d)
  case (Cons n ns)
  obtain x d1 where x: "create_safe_directory F locator (c @ [n]) d = (x, d1)" by fastforce
  with Cons show ?case
    by (cases x) (auto intro: keeps_files_trans create_safe_directory_keeps)
qed simp

lemma write_new_file_Inr:
  "write_new_file F p bytes d = (Inr (), d') \<Longrightarrow> node_at F d p = None \<and> node_at F d' p = Some (FileNode bytes)"
  by (auto simp: write_new_file_def split: prod.splits if_splits option.splits nat.splits)

lemma remove_file_keeps_files: "remove_file F p d = (r, d') \<Longrightarrow> keeps_files F {fs_key F p} d d'"
  using fs_op_keeps(5) [of F p d r d'] by (simp add: keeps_except_def keeps_files_def)

lemma art_file_keeps:
  "art_file E F root d a b \<Longrightarrow> keeps_files F (reserved F root) d d' \<Longrightarrow> art_file E F root d' a b"
  by (auto simp: art_file_def keeps_files_def)

lemma good_manifest_keeps:
  "good_manifest E F root l d m \<Longrightarrow> keeps_files F (reserved F root) d d' \<Longrightarrow> good_manifest E F root l d' m"
  unfolding good_manifest_def by (blast intro: art_file_keeps)

lemma retains_keeps:
  "retains E F root d m acked \<Longrightarrow> keeps_files F (reserved F root) d d' \<Longrightarrow> retains E F root d' m acked"
  unfolding retains_def by (blast intro: art_file_keeps)

lemma manifest_on_keeps: "manifest_on E F root d m \<Longrightarrow> keeps_files F {} d d' \<Longrightarrow> manifest_on E F root d' m"
  by (auto simp: manifest_on_def keeps_files_def)

lemmas store_keeps = good_manifest_keeps retains_keeps manifest_on_keeps

lemma persist_manifest_result:
  assumes "persist_manifest E V s = (r, s')" "fs_key (ev_fs V) (manifest_path (store_root s)) \<notin> temporaries (ev_fs V) (manifest_path (store_root s))"
  obtains d' where "s' = s\<lparr>store_disk := d'\<rparr>"
    "keeps_files (ev_fs V) (reserved (ev_fs V) (store_root s)) (store_disk s) d'"
    "manifest_on E (ev_fs V) (store_root s) d' (store_manifest s) \<or>
     (r \<noteq> Inr () \<and> node_at (ev_fs V) d' (manifest_path (store_root s)) = node_at (ev_fs V) (store_disk s) (manifest_path (store_root s)))"
proof -
  let ?F = "ev_fs V" and ?mp = "manifest_path (store_root s)"
  obtain v d1 where v: "draw (ev_verify V (store_root s)) (store_disk s) = (v, d1)" by fastforce
  show thesis
  proof (cases v)
    case (Inl e)
    with assms(1) v have "s' = s\<lparr>store_disk := d1\<rparr>" "r \<noteq> Inr ()"
      by (auto simp: persist_manifest_def on_disk_def)
    with that [of d1] v show thesis by (simp add: keeps_files_draw)
  next
    case (Inr u)
    show thesis
    proof (cases "manifest_bytes E (store_manifest s)")
      case (Inl e)
      with assms(1) v Inr have "s' = s\<lparr>store_disk := d1\<rparr>" "r \<noteq> Inr ()"
        by (auto simp: persist_manifest_def on_disk_def)
      with that [of d1] v show thesis by (simp add: keeps_files_draw)
    next
      case (Inr b)
      obtain w d2 where w: "atomic_write ?F ?mp b d1 = (w, d2)" by fastforce
      from assms(1) v \<open>v = Inr u\<close> Inr w have s': "s' = s\<lparr>store_disk := d2\<rparr>" and r: "r = map_err EvidencePlatform w"
        by (auto simp: persist_manifest_def on_disk_def)
      note W = atomic_write_result [OF w _ assms(2)]
      have "keeps_files ?F (reserved ?F (store_root s)) (store_disk s) d2"
        using W(1) v by (auto simp: keeps_files_def spares_def reserved_def)
      moreover have "r \<noteq> Inr () \<longleftrightarrow> w \<noteq> Inr ()" using r by (cases w) auto
      ultimately show thesis using that [OF s'] W(2) v Inr by (auto simp: manifest_on_def)
    qed
  qed
qed

section \<open>The invariant\<close>

definition store_inv ::
    "'h ext \<Rightarrow> 'w evidence_env \<Rightarrow> 'w evidence_store \<Rightarrow> evidence_manifest \<Rightarrow> (artifact \<times> byte list) list \<Rightarrow> bool" where
  "store_inv E V s m acked \<longleftrightarrow>
     manifest_on E (ev_fs V) (store_root s) (store_disk s) m \<and>
     good_manifest E (ev_fs V) (store_root s) (store_limits s) (store_disk s) m \<and>
     retains E (ev_fs V) (store_root s) (store_disk s) m acked \<and> (store_usable s \<longrightarrow> m = store_manifest s)"

definition names_apart :: "'w evidence_env \<Rightarrow> bool" where
  "names_apart V \<longleftrightarrow>
     (\<forall>tag. name_key (ev_fs V) (temporary_name manifest_name tag) \<noteq> name_key (ev_fs V) manifest_name)"

lemma names_apart_key: "names_apart V \<Longrightarrow> fs_key (ev_fs V) (manifest_path root) \<notin> temporaries (ev_fs V) (manifest_path root)"
  by (auto simp: names_apart_def temporaries_def fs_key_def butlast_append)

definition in_bounds :: "'w evidence_env \<Rightarrow> bool" where
  "in_bounds V \<longleftrightarrow> (\<forall>bs. partition_point V bs \<le> length bs)"

lemma store_inv_disk:
  assumes "store_inv E V s m acked" "keeps_files (ev_fs V) {} (store_disk s) d'"
  shows "store_inv E V (s\<lparr>store_disk := d'\<rparr>) m acked"
  using assms keeps_files_mono [OF assms(2), of "reserved (ev_fs V) (store_root s)"]
  by (auto simp: store_inv_def intro: store_keeps)

text \<open>A new artifact whose file is in place extends a consistent manifest.\<close>

lemma good_manifest_extend:
  assumes "good_manifest E F root l d m" "art_file E F root d a b" "artifact_locator a \<notin> artifact_locator ` set (manifest_artifacts m)"
    and "length (manifest_artifacts m) < ev_max_artifacts l" "artifact_size_bytes a \<le> ev_max_file_bytes l"
    and "manifest_total m + artifact_size_bytes a \<le> ev_max_total_bytes l" "manifest_total m + artifact_size_bytes a < u64_bound"
    and "i \<le> length (manifest_artifacts m)"
  shows "good_manifest E F root l d (m\<lparr>manifest_artifacts := take i (manifest_artifacts m) @ a # drop i (manifest_artifacts m),
           manifest_total := manifest_total m + artifact_size_bytes a\<rparr>)"
proof -
  obtain xs ys where xs: "manifest_artifacts m = xs @ ys" "length xs = i"
    using assms(8) by (metis append_take_drop_id length_take min.absorb2)
  with assms show ?thesis by (auto simp: good_manifest_def)
qed

lemma remove_at_inserted: "i \<le> length as \<Longrightarrow> remove_at i (take i as @ a # drop i as) = as"
  by (simp add: remove_at_def min_def)

text \<open>
  The roll back: while the disk has the old manifest \<open>m\<close> or the extended one \<open>mx\<close>, writing \<open>m\<close> again leaves a
  consistent store whether it succeeds or not, and so does the removal of the new file.
\<close>

lemma rollback_inv:
  fixes E V s
  defines "F \<equiv> ev_fs V" and "root \<equiv> store_root s" and "m \<equiv> store_manifest s"
  assumes y: "persist_manifest E V s = (y, s')" and V: "names_apart V"
    and or: "manifest_on E F root (store_disk s) mx \<or> manifest_on E F root (store_disk s) m"
    and good: "good_manifest E F root (store_limits s) (store_disk s) mx" "good_manifest E F root (store_limits s) (store_disk s) m"
    and kept: "retains E F root (store_disk s) m acked" "set (manifest_artifacts m) \<subseteq> set (manifest_artifacts mx)"
    and apart: "\<forall>c\<in>set (manifest_artifacts m). \<forall>q. safe_relative_path (artifact_locator c) = Inr q \<longrightarrow> fs_key F (root @ q) \<noteq> fs_key F p"
      "fs_key F p \<noteq> fs_key F (manifest_path root)"
  shows "\<exists>m'. store_inv E V (s'\<lparr>store_usable := False\<rparr>) m' acked"
    and "y = Inr () \<Longrightarrow> remove_file F p (store_disk s') = (z, d) \<Longrightarrow> store_inv E V (s'\<lparr>store_disk := d\<rparr>) m acked"
    and "store_root s' = root" "store_manifest s' = m"
proof -
  obtain d2 where s': "s' = s\<lparr>store_disk := d2\<rparr>" and k2: "keeps_files F (reserved F root) (store_disk s) d2"
    and on2: "manifest_on E F root d2 m \<or>
      (y \<noteq> Inr () \<and> node_at F d2 (manifest_path root) = node_at F (store_disk s) (manifest_path root))"
    by (rule persist_manifest_result [OF y]) (use V in \<open>simp_all add: names_apart_key F_def root_def m_def\<close>)
  show "store_root s' = root" "store_manifest s' = m" by (simp_all add: s' root_def m_def)
  note at2 = good_manifest_keeps [OF good(1) k2] good_manifest_keeps [OF good(2) k2] retains_keeps [OF kept(1) k2]
  have "retains E F root d2 mx acked" using at2(3) kept(2) by (auto simp: retains_def)
  moreover have "manifest_on E F root d2 mx \<or> manifest_on E F root d2 m" using on2 or by (auto simp: manifest_on_def)
  ultimately show "\<exists>m'. store_inv E V (s'\<lparr>store_usable := False\<rparr>) m' acked"
    using at2 by (auto simp: s' store_inv_def F_def root_def)
  assume ok: "y = Inr ()" and z: "remove_file F p (store_disk s') = (z, d)"
  have k3: "node_at F d q = node_at F d2 q" if "fs_key F q \<noteq> fs_key F p" for q
    using fs_op_keeps(5) [OF z] that by (simp add: keeps_except_def s')
  have "manifest_on E F root d m" using on2 ok k3 apart(2) by (auto simp: manifest_on_def)
  moreover have "art_file E F root d c b'" if "c \<in> set (manifest_artifacts m)" "art_file E F root d2 c b'" for c b'
    using that apart(1) k3 by (auto simp: art_file_def)
  then have "good_manifest E F root (store_limits s) d m" "retains E F root d m acked"
    using at2(2,3) unfolding good_manifest_def retains_def by blast+
  ultimately show "store_inv E V (s'\<lparr>store_disk := d\<rparr>) m acked"
    by (simp add: s' store_inv_def F_def root_def m_def)
qed

lemma store_inv_unusable: "store_inv E V s m acked \<Longrightarrow> store_inv E V (s\<lparr>store_usable := False\<rparr>) m acked"
  by (simp add: store_inv_def)

lemma commit_artifact_inv:
  fixes E V s
  defines "F \<equiv> ev_fs V" and "root \<equiv> store_root s" and "m \<equiv> store_manifest s"
  assumes run: "commit_artifact E V a (manifest_total m + artifact_size_bytes a) p s = (r, s')"
    and V: "names_apart V" "in_bounds V" and inv: "store_inv E V s m acked" and usable: "store_usable s"
    and new: "good_manifest E F root (store_limits s) (store_disk s)
        (m\<lparr>manifest_artifacts := fst (insert_artifact_sorted V (manifest_artifacts m) a),
           manifest_total := manifest_total m + artifact_size_bytes a\<rparr>)"
    and present: "art_file E F root (store_disk s) a b"
    and apart: "\<forall>c\<in>set (manifest_artifacts m). \<forall>q. safe_relative_path (artifact_locator c) = Inr q \<longrightarrow> fs_key F (root @ q) \<noteq> fs_key F p"
      "fs_key F p \<noteq> fs_key F (manifest_path root)"
  shows "\<exists>m'. store_inv E V s' m' (if r = Inr () then (a, b) # acked else acked) \<and> store_root s' = root"
proof -
  define i where "i = snd (insert_artifact_sorted V (manifest_artifacts m) a)"
  have ins: "insert_artifact_sorted V (manifest_artifacts m) a =
      (take i (manifest_artifacts m) @ a # drop i (manifest_artifacts m), i)"
    by (simp add: i_def insert_artifact_sorted_def Let_def)
  have i: "i \<le> length (manifest_artifacts m)"
    using V(2) by (simp add: i_def insert_artifact_sorted_def Let_def in_bounds_def) (metis length_map)
  define m1 where "m1 = m\<lparr>manifest_artifacts := take i (manifest_artifacts m) @ a # drop i (manifest_artifacts m),
      manifest_total := manifest_total m + artifact_size_bytes a\<rparr>"
  have good1: "good_manifest E F root (store_limits s) (store_disk s) m1" using new ins by (simp add: m1_def)
  have sub: "set (manifest_artifacts m1) = insert a (set (manifest_artifacts m))"
    unfolding m1_def by simp (metis append_take_drop_id set_append)
  have kept1: "retains E F root d m1 xs" if "retains E F root d m xs" for d xs
    using that sub by (auto simp: retains_def)
  obtain x s1 where x: "persist_manifest E V (s\<lparr>store_manifest := m1\<rparr>) = (x, s1)" by fastforce
  obtain d1 where s1: "s1 = s\<lparr>store_manifest := m1, store_disk := d1\<rparr>"
    and k1: "keeps_files F (reserved F root) (store_disk s) d1"
    and on1: "manifest_on E F root d1 m1 \<or> (x \<noteq> Inr () \<and> node_at F d1 (manifest_path root) = node_at F (store_disk s) (manifest_path root))"
    by (rule persist_manifest_result [OF x]) (use V(1) in \<open>simp_all add: names_apart_key F_def root_def\<close>)
  have inv': "manifest_on E F root (store_disk s) m" "good_manifest E F root (store_limits s) (store_disk s) m"
      "retains E F root (store_disk s) m acked"
    using inv by (simp_all add: store_inv_def F_def root_def)
  note at1 = good_manifest_keeps [OF good1 k1] good_manifest_keeps [OF inv'(2) k1] retains_keeps [OF inv'(3) k1]
    art_file_keeps [OF present k1]
  have old_or_new: "manifest_on E F root d1 m1 \<or> manifest_on E F root d1 m"
    using on1 inv'(1) by (auto simp: manifest_on_def)
  show ?thesis
  proof (cases x)
    case (Inr u)
    then have "r = Inr ()" "s' = s1"
      using run x by (simp_all add: commit_artifact_def ins m1_def m_def [symmetric])
    moreover have "retains E F root d1 m1 ((a, b) # acked)"
      using kept1 [OF at1(3)] at1(4) sub by (simp add: retains_def)
    ultimately show ?thesis
      using at1(1) on1 Inr s1 by (intro exI [of _ m1]) (simp add: store_inv_def F_def root_def)
  next
    case (Inl e)
    define s2 where "s2 = s\<lparr>store_manifest := m, store_disk := d1\<rparr>"
    have undone: "s1\<lparr>store_manifest := (store_manifest s1)\<lparr>manifest_artifacts := remove_at i (manifest_artifacts (store_manifest s1)),
        manifest_total := manifest_total m\<rparr>\<rparr> = s2"
      by (simp add: s1 s2_def m1_def remove_at_inserted [OF i])
    obtain y s3 where y: "persist_manifest E V s2 = (y, s3)" by fastforce
    obtain z d3 where z: "remove_file F p (store_disk s3) = (z, d3)" by fastforce
    note rolled = rollback_inv [where p = p and acked = acked and mx = m1, OF y V(1)]
    have R: "\<exists>m'. store_inv E V (s3\<lparr>store_usable := False\<rparr>) m' acked" "store_root s3 = root"
        "y = Inr () \<Longrightarrow> store_inv E V (s3\<lparr>store_disk := d3\<rparr>) m acked"
      using rolled at1 old_or_new apart z sub
      by (simp_all add: s2_def F_def root_def subset_insertI)
    have "r \<noteq> Inr () \<and> (s' = s3\<lparr>store_usable := False\<rparr> \<or>
        y = Inr () \<and> (s' = s3\<lparr>store_disk := d3\<rparr> \<or> s' = s3\<lparr>store_disk := d3, store_usable := False\<rparr>))"
      using run x Inl undone y z
      by (cases y; cases z) (auto simp: commit_artifact_def ins m1_def m_def [symmetric] on_disk_def F_def)
    with R store_inv_unusable [of E V "s3\<lparr>store_disk := d3\<rparr>" m acked] show ?thesis by auto
  qed
qed

section \<open>Operations keep the invariant\<close>

lemma on_disk_Pair: "f (store_disk s) = (x, d) \<Longrightarrow> on_disk f s = (x, s\<lparr>store_disk := d\<rparr>)"
  by (simp add: on_disk_def)

lemma verify_access_inv:
  assumes "store_inv E V s m acked" "verify_access V s = (r, s')"
  shows "store_inv E V s' m acked" "\<exists>d. s' = s\<lparr>store_disk := d\<rparr>" "r = Inr () \<Longrightarrow> store_usable s"
proof -
  obtain v d where v: "draw (ev_verify V (store_root s)) (store_disk s) = (v, d)" by fastforce
  show "\<exists>d. s' = s\<lparr>store_disk := d\<rparr>" "r = Inr () \<Longrightarrow> store_usable s"
    using assms(2) v by (auto simp: verify_access_def on_disk_def split: if_splits intro: exI [of _ "store_disk s"])
  show "store_inv E V s' m acked"
    using assms v store_inv_disk [OF assms(1) keeps_files_draw [OF v]]
    by (auto simp: verify_access_def on_disk_def split: if_splits)
qed

lemma write_quota_Inr:
  "write_quota s bytes = Inr (n, t) \<longleftrightarrow>
     n = length bytes \<and> t = manifest_total (store_manifest s) + n \<and> n \<le> ev_max_file_bytes (store_limits s) \<and>
     length (manifest_artifacts (store_manifest s)) < ev_max_artifacts (store_limits s) \<and>
     t \<le> ev_max_total_bytes (store_limits s) \<and> t < u64_bound"
  by (auto simp: write_quota_def Let_def checked_add_u64_def ok_or_def split: if_splits)

text \<open>The new artifact of a write, once its file is durable.\<close>

lemma fresh_artifact:
  fixes E V s d
  defines "F \<equiv> ev_fs V" and "root \<equiv> store_root s" and "m \<equiv> store_manifest s"
  assumes inv: "store_inv E V (s\<lparr>store_disk := d\<rparr>) m acked" and V: "in_bounds V"
    and p: "safe_relative_path (write_locator request) = Inr p"
    and names: "fs_key F (root @ p) \<notin> temporaries F (manifest_path root)"
    and w: "write_new_file F (root @ p) bytes d = (Inr (), d')" and d'': "keeps_files F {} d' d''"
    and q: "write_quota s bytes = Inr (n, t)" and a: "a = artifact_from E aid request bytes n"
  shows "store_inv E V (s\<lparr>store_disk := d''\<rparr>) m acked" "art_file E F root d'' a bytes"
    "t = manifest_total m + artifact_size_bytes a"
    "good_manifest E F root (store_limits s) d'' (m\<lparr>manifest_artifacts := fst (insert_artifact_sorted V (manifest_artifacts m) a),
           manifest_total := manifest_total m + artifact_size_bytes a\<rparr>)"
    "\<forall>c\<in>set (manifest_artifacts m). \<forall>q. safe_relative_path (artifact_locator c) = Inr q \<longrightarrow> fs_key F (root @ q) \<noteq> fs_key F (root @ p)"
    "fs_key F (root @ p) \<noteq> fs_key F (manifest_path root)"
proof -
  note W = write_new_file_Inr [OF w]
  have kept: "keeps_files F {} d d''" using creating_keeps_files(2) [OF w] d'' by (blast intro: keeps_files_trans)
  show inv': "store_inv E V (s\<lparr>store_disk := d''\<rparr>) m acked"
    using store_inv_disk [OF inv, of d''] kept by (simp add: F_def)
  show key: "fs_key F (root @ p) \<noteq> fs_key F (manifest_path root)"
    using inv W by (auto simp: store_inv_def manifest_on_def node_at_def F_def root_def)
  show sep: "\<forall>c\<in>set (manifest_artifacts m). \<forall>q. safe_relative_path (artifact_locator c) = Inr q \<longrightarrow> fs_key F (root @ q) \<noteq> fs_key F (root @ p)"
    using inv W by (fastforce simp: store_inv_def good_manifest_def art_file_def node_at_def F_def root_def)
  have loc: "artifact_locator a = write_locator request" "artifact_size_bytes a = n" "artifact_digest a = of_bytes E bytes"
    by (simp_all add: a artifact_from_def)
  note Q = q [unfolded write_quota_Inr]
  show art: "art_file E F root d'' a bytes"
    using p names key W d'' Q by (auto simp: art_file_def loc reserved_def keeps_files_def)
  show "t = manifest_total m + artifact_size_bytes a" using Q by (simp add: loc m_def)
  have "artifact_locator a \<notin> artifact_locator ` set (manifest_artifacts m)"
    using sep p loc by auto
  moreover have "partition_point V bs \<le> length (manifest_artifacts m)" if "length bs = length (manifest_artifacts m)" for bs
    using V that by (simp add: in_bounds_def) metis
  ultimately show "good_manifest E F root (store_limits s) d'' (m\<lparr>manifest_artifacts := fst (insert_artifact_sorted V (manifest_artifacts m) a),
           manifest_total := manifest_total m + artifact_size_bytes a\<rparr>)"
    using good_manifest_extend [of E F root "store_limits s" d'' m a bytes] art inv' Q
    by (simp add: insert_artifact_sorted_def Let_def loc store_inv_def F_def root_def m_def)
qed

lemma evidence_write_inv:
  assumes inv: "store_inv E V s m acked" and V: "names_apart V" "in_bounds V"
    and names: "\<forall>p. safe_relative_path (write_locator request) = Inr p \<longrightarrow>
      fs_key (ev_fs V) (store_root s @ p) \<notin> temporaries (ev_fs V) (manifest_path (store_root s))"
    and run: "evidence_write_op E V request bytes s = (r, s')"
  shows "\<exists>m'. store_inv E V s' m' (case r of Inr a \<Rightarrow> (a, bytes) # acked | Inl _ \<Rightarrow> acked) \<and> store_root s' = store_root s"
proof -
  obtain x s1 where x: "verify_access V s = (x, s1)" by fastforce
  note A = verify_access_inv [OF inv x]
  then obtain d1 where s1: "s1 = s\<lparr>store_disk := d1\<rparr>" by auto
  show ?thesis
  proof (cases "x = Inr () \<and> (\<exists>p n t. safe_relative_path (write_locator request) = Inr p \<and> write_quota s bytes = Inr (n, t))")
    case False
    then have "s' = s1 \<and> (\<exists>e. r = Inl e)"
      using run x s1
      by (cases x; cases "safe_relative_path (write_locator request)"; cases "write_quota s bytes")
        (auto simp: evidence_write_op_def write_quota_def)
    with A s1 show ?thesis by auto
  next
    case True
    then obtain p n t where ok: "x = Inr ()" "safe_relative_path (write_locator request) = Inr p" "write_quota s bytes = Inr (n, t)"
      by auto
    then have usable: "store_usable s" and m: "m = store_manifest s" using A(3) inv by (auto simp: store_inv_def)
    obtain y d2 where y: "ensure_safe_parent (ev_fs V) (write_locator request) (store_root s) (butlast p) d1 = (y, d2)" by fastforce
    obtain z d3 where z: "write_new_file (ev_fs V) (store_root s @ p) bytes d2 = (z, d3)" by fastforce
    obtain aid d4 where aid: "draw (ev_new_id V) d3 = (aid, d4)" by fastforce
    define a where "a = artifact_from E aid request bytes n"
    obtain c s5 where c: "commit_artifact E V a t (store_root s @ p) (s\<lparr>store_disk := d4\<rparr>) = (c, s5)" by fastforce
    have quota: "write_quota (s\<lparr>store_disk := d\<rparr>) bytes = Inr (n, t)" for d using ok by (simp add: write_quota_def)
    have inv2: "store_inv E V (s\<lparr>store_disk := d2\<rparr>) m acked"
      using store_inv_disk [OF A(1), of d2] ensure_safe_parent_keeps [OF y] s1 by simp
    have inv3: "store_inv E V (s\<lparr>store_disk := d3\<rparr>) m acked"
      using store_inv_disk [OF inv2, of d3] creating_keeps_files(2) [OF z] by simp
    have run': "(r, s') = (case y of Inl e \<Rightarrow> (Inl e, s\<lparr>store_disk := d2\<rparr>) | Inr _ \<Rightarrow>
        (case z of Inl e \<Rightarrow> (Inl (EvidenceIo e), s\<lparr>store_disk := d3\<rparr>) | Inr _ \<Rightarrow>
        (case c of Inl e \<Rightarrow> (Inl e, s5) | Inr _ \<Rightarrow> (Inr a, s5))))"
      using run x s1 ok quota y z aid c
      by (cases y; cases z; cases c) (simp_all add: evidence_write_op_def on_disk_def a_def)
    show ?thesis
    proof (cases "y = Inr () \<and> z = Inr ()")
      case False
      then show ?thesis using run' inv2 inv3 by (cases y; cases z) auto
    next
      case True
      note fresh = fresh_artifact [OF inv2 [unfolded m] V(2) ok(2) names [rule_format, OF ok(2)] _
          keeps_files_draw [OF aid] ok(3) a_def]
      have "\<exists>m'. store_inv E V s5 m' (if c = Inr () then (a, bytes) # acked else acked) \<and> store_root s5 = store_root s"
        using commit_artifact_inv [of E V a "s\<lparr>store_disk := d4\<rparr>" "store_root s @ p" c s5 acked bytes] c V usable fresh True z
        by simp
      with run' True show ?thesis by (cases c) auto
    qed
  qed
qed

lemma read_verified_artifact_keeps:
  assumes "read_verified_artifact E F p a locator d = (r, d')"
  shows "keeps_files F ks d d'"
    and "r = Inr b \<Longrightarrow> node_at F d p = Some (FileNode b) \<and> length b = artifact_size_bytes a \<and> of_bytes E b = artifact_digest a"
proof -
  obtain x d1 where x: "read_file F p d = (x, d1)" by fastforce
  with assms have "d' = d1" by (cases x) (auto simp: read_verified_artifact_def)
  with creating_keeps_files(4) [OF x] show "keeps_files F ks d d'" by simp
  show "r = Inr b \<Longrightarrow> node_at F d p = Some (FileNode b) \<and> length b = artifact_size_bytes a \<and> of_bytes E b = artifact_digest a"
    using assms x by (cases x) (auto simp: read_verified_artifact_def read_file_def
        split: prod.splits if_splits option.splits fs_node.splits)
qed

lemma evidence_read_inv:
  assumes inv: "store_inv E V s m acked" and run: "evidence_read E V locator s = (r, s')"
  shows "store_inv E V s' m acked \<and> store_root s' = store_root s"
proof -
  obtain x s1 where x: "verify_access V s = (x, s1)" by fastforce
  note A = verify_access_inv [OF inv x]
  then obtain d1 where s1: "s1 = s\<lparr>store_disk := d1\<rparr>" by auto
  have "s' = s1 \<or> (\<exists>p a d2. read_verified_artifact E (ev_fs V) p a locator d1 = (r, d2) \<and> s' = s\<lparr>store_disk := d2\<rparr>)"
    using run x s1
    by (cases x; cases "safe_relative_path locator"; cases "find (\<lambda>a. artifact_locator a = locator) (manifest_artifacts (store_manifest s))")
      (auto simp: evidence_read_def ok_or_def on_disk_def split: prod.splits)
  then show ?thesis
  proof
    assume "\<exists>p a d2. read_verified_artifact E (ev_fs V) p a locator d1 = (r, d2) \<and> s' = s\<lparr>store_disk := d2\<rparr>"
    then obtain p a d2 where R: "read_verified_artifact E (ev_fs V) p a locator d1 = (r, d2)" "s' = s\<lparr>store_disk := d2\<rparr>"
      by auto
    with store_inv_disk [OF A(1), of d2] read_verified_artifact_keeps(1) [OF R(1)] s1 show ?thesis by simp
  qed (use A s1 in auto)
qed

lemma evidence_create_inv:
  assumes run: "evidence_create E V root l d = (Inr s, d')" and V: "names_apart V"
  shows "store_inv E V s empty_manifest []" "store_root s = root" "store_disk s = d'"
proof -
  let ?s = "\<lambda>d. \<lparr>store_root = root, store_limits = l, store_manifest = empty_manifest, store_usable = True, store_disk = d\<rparr>"
  obtain d0 where fin: "(let (there, d) = path_exists (ev_fs V) (manifest_path root) d0 in
      if there then (Inl EvidenceAlreadyExists, d)
      else let (r, s) = persist_manifest E V (?s d) in (and_then r (\<lambda>_. Inr s), store_disk s)) = (Inr s, d')" "evidence_limits_validate l = Inr ()"
    using run unfolding evidence_create_def st_then_Inr_iff by auto
  obtain b d1 where e: "path_exists (ev_fs V) (manifest_path root) d0 = (b, d1)" by fastforce
  obtain r s1 where "persist_manifest E V (?s d1) = (r, s1)" by fastforce
  with fin e have p: "evidence_limits_validate l = Inr ()" "persist_manifest E V (?s d1) = (r, s1)" "r = Inr ()" "s = s1" "d' = store_disk s1"
    by (auto simp: res_simps split: if_splits)
  obtain d2 where s1: "s1 = \<lparr>store_root = root, store_limits = l, store_manifest = empty_manifest,
      store_usable = True, store_disk = d2\<rparr>" and on: "manifest_on E (ev_fs V) root d2 empty_manifest"
    by (rule persist_manifest_result [OF p(2)]) (use V p(3) in \<open>simp_all add: names_apart_key\<close>)
  then show "store_inv E V s empty_manifest []" "store_root s = root" "store_disk s = d'"
    using p by (simp_all add: store_inv_def good_manifest_def retains_def empty_manifest_def u64_bound_def)
qed

text \<open>What the validation of a manifest has established when it accepts.\<close>

lemma validate_manifest_loop_Inr:
  "validate_manifest_loop E F root l as locators t d = (Inr t', d') \<Longrightarrow> t < u64_bound \<Longrightarrow>
     keeps_files F ks d d' \<and> t' = t + sum_list (map artifact_size_bytes as) \<and> t' < u64_bound \<and>
     distinct (map artifact_locator as) \<and> artifact_locator ` set as \<inter> locators = {} \<and>
     (\<forall>a\<in>set as. artifact_size_bytes a \<le> ev_max_file_bytes l)"
proof (induction as arbitrary: locators t d)
  case (Cons a as)
  then obtain p b d1 where S: "safe_relative_path (artifact_locator a) = Inr p" "artifact_locator a \<notin> locators"
      "artifact_size_bytes a \<le> ev_max_file_bytes l" "t + artifact_size_bytes a < u64_bound"
      "read_verified_artifact E F (root @ p) a (artifact_locator a) d = (Inr b, d1)"
      "validate_manifest_loop E F root l as (insert (artifact_locator a) locators) (t + artifact_size_bytes a) d1 = (Inr t', d')"
    by (auto simp: validate_manifest_artifact_def res_simps checked_add_u64_def ok_or_def split: if_splits)
  from Cons.IH [OF S(6,4)] read_verified_artifact_keeps(1) [OF S(5)] S(2,3) show ?case
    by (auto intro: keeps_files_trans)
qed simp

lemma evidence_open_inv:
  assumes run: "evidence_open E V dec root l d = (Inr s, d')"
    and on: "manifest_on E (ev_fs V) root d m" and good: "good_manifest E (ev_fs V) root l0 d m"
    and kept: "retains E (ev_fs V) root d m acked" and m: "store_manifest s = m"
  shows "store_inv E V s m acked" "store_root s = root" "store_disk s = d'"
proof -
  let ?F = "ev_fs V"
  obtain d1 d2 where steps: "draw (ev_verify V root) d = (Inr (), d1)" "read_manifest E ?F dec root d1 = (Inr m, d2)"
      "validate_manifest E ?F root m l d2 = (Inr (), d')" "evidence_limits_validate l = Inr ()"
      and s: "s = \<lparr>store_root = root, store_limits = l, store_manifest = m, store_usable = True, store_disk = d'\<rparr>"
    using run m by (auto simp: evidence_open_def res_simps split: prod.splits)
  obtain x where x: "read_file ?F (manifest_path root) d1 = (x, d2)"
    using steps(2) by (auto simp: read_manifest_def split: prod.splits sum.splits)
  obtain t where v: "validate_manifest_loop E ?F root l (manifest_artifacts m) {} 0 d2 = (Inr t, d')"
      "t = manifest_total m" "t \<le> ev_max_total_bytes l" "length (manifest_artifacts m) \<le> ev_max_artifacts l"
    using steps(3) by (auto simp: validate_manifest_def validate_manifest_header_def res_simps split: if_splits)
  note L = validate_manifest_loop_Inr [OF v(1)]
  have k: "keeps_files ?F ks d d'" for ks
    using keeps_files_draw [OF steps(1), of ?F ks] creating_keeps_files(4) [OF x, of ks] L [of ks]
    by (auto simp: u64_bound_def intro: keeps_files_trans)
  then have "good_manifest E ?F root l0 d' m" "retains E ?F root d' m acked" "manifest_on E ?F root d' m"
    using on good kept by (auto intro: store_keeps)
  with v L steps(4) show "store_inv E V s m acked" "store_root s = root" "store_disk s = d'"
    by (auto simp: s store_inv_def good_manifest_def u64_bound_def)
qed

section \<open>Undisturbed operations\<close>

lemma find_unique_key: "distinct (map f xs) \<Longrightarrow> x \<in> set xs \<Longrightarrow> find (\<lambda>y. f y = f x) xs = Some x"
  by (induction xs) (auto simp: rev_image_eqI)

definition quiet :: "'w evidence_env \<Rightarrow> bool" where
  "quiet W \<longleftrightarrow> (\<forall>w. fst (fault (ev_fs W) w) = None) \<and> (\<forall>root w. fst (ev_verify W root w) = Inr ())"

lemma draw_const: "\<forall>w. fst (f w) = c \<Longrightarrow> \<exists>d'. draw f d = (c, d') \<and> disk_nodes d' = disk_nodes d"
  by (cases "f (disk_world d)") (auto simp: draw_def dest: spec [of _ "disk_world d"])

lemma node_at_nodes: "disk_nodes d' = disk_nodes d \<Longrightarrow> node_at F d' p = node_at F d p"
  by (simp add: node_at_def)

lemma node_at_key: "name_key F' = name_key F \<Longrightarrow> node_at F' d p = node_at F d p"
  by (simp add: node_at_def fs_key_def)

lemma art_file_node:
  fixes F F' :: "'w fs_env"
  shows "art_file E F root d a b \<Longrightarrow> name_key F' = name_key F \<Longrightarrow> disk_nodes d' = disk_nodes d \<Longrightarrow> \<exists>p.
     safe_relative_path (artifact_locator a) = Inr p \<and> node_at F' d' (root @ p) = Some (FileNode b)"
  using node_at_key [of F' F d'] node_at_nodes [of d' d F] by (auto simp: art_file_def)

lemma quiet_read_file:
  assumes "quiet W" "node_at (ev_fs W) d p = Some (FileNode b)"
  shows "\<exists>d'. read_file (ev_fs W) p d = (Inr b, d') \<and> disk_nodes d' = disk_nodes d"
proof -
  obtain d' where D: "draw (fault (ev_fs W)) d = (None, d')" "disk_nodes d' = disk_nodes d"
    using draw_const [of "fault (ev_fs W)" None d] assms(1) by (auto simp: quiet_def)
  with assms(2) show ?thesis by (simp add: read_file_def)
qed

lemma quiet_read_verified:
  assumes "quiet W" "node_at (ev_fs W) d p = Some (FileNode b)" "length b = artifact_size_bytes a" "of_bytes E b = artifact_digest a"
  shows "\<exists>d'. read_verified_artifact E (ev_fs W) p a locator d = (Inr b, d') \<and> disk_nodes d' = disk_nodes d"
  using quiet_read_file [OF assms(1,2)] assms(3,4) by (auto simp: read_verified_artifact_def)

lemma quiet_validate_loop:
  assumes "quiet W" "name_key (ev_fs W) = name_key F"
  shows "\<forall>a\<in>set as. artifact_size_bytes a \<le> ev_max_file_bytes l \<and> (\<exists>b. art_file E F root d a b) \<Longrightarrow>
     distinct (map artifact_locator as) \<Longrightarrow> artifact_locator ` set as \<inter> locators = {} \<Longrightarrow>
     t + sum_list (map artifact_size_bytes as) < u64_bound \<Longrightarrow>
     \<exists>d'. validate_manifest_loop E (ev_fs W) root l as locators t d =
       (Inr (t + sum_list (map artifact_size_bytes as)), d') \<and> disk_nodes d' = disk_nodes d"
proof (induction as arbitrary: locators t d)
  case (Cons a as)
  then obtain p b where p: "safe_relative_path (artifact_locator a) = Inr p" "node_at (ev_fs W) d (root @ p) = Some (FileNode b)"
      "length b = artifact_size_bytes a" "of_bytes E b = artifact_digest a"
    using node_at_key [OF assms(2), of d] by (auto simp: art_file_def)
  obtain d1 where d1: "read_verified_artifact E (ev_fs W) (root @ p) a (artifact_locator a) d = (Inr b, d1)"
      "disk_nodes d1 = disk_nodes d"
    using quiet_read_verified [OF assms(1) p(2-4)] by blast
  have "\<forall>a\<in>set as. artifact_size_bytes a \<le> ev_max_file_bytes l \<and> (\<exists>b. art_file E F root d1 a b)"
    using Cons.prems(1) node_at_nodes [OF d1(2), of F] by (simp add: art_file_def)
  from Cons.IH [OF this, of "insert (artifact_locator a) locators" "t + artifact_size_bytes a"] Cons.prems p d1
  show ?case by (simp add: validate_manifest_artifact_def checked_add_u64_def ok_or_def add.assoc)
qed simp

lemma quiet_open:
  assumes W: "quiet W" "name_key (ev_fs W) = name_key F"
    and on: "manifest_bytes E m = Inr bytes" "node_at F d (manifest_path root) = Some (FileNode bytes)" "dec bytes = Inr m"
    and good: "good_manifest E F root l d m"
  shows "\<exists>d'. evidence_open E W dec root l d = (Inr \<lparr>store_root = root, store_limits = l, store_manifest = m,
      store_usable = True, store_disk = d'\<rparr>, d') \<and> disk_nodes d' = disk_nodes d"
proof -
  obtain d1 where d1: "draw (ev_verify W root) d = (Inr (), d1)" "disk_nodes d1 = disk_nodes d"
    using draw_const [of "ev_verify W root" "Inr ()" d] W(1) by (auto simp: quiet_def)
  obtain d2 where d2: "read_file (ev_fs W) (manifest_path root) d1 = (Inr bytes, d2)" "disk_nodes d2 = disk_nodes d"
    using quiet_read_file [OF W(1), of d1 "manifest_path root" bytes] on(2) d1(2) W(2)
    by (auto simp: node_at_key [OF W(2)] node_at_nodes [OF d1(2)])
  have good2: "good_manifest E F root l d2 m"
    using good by (simp add: good_manifest_def art_file_def node_at_nodes [OF d2(2)])
  obtain d3 where d3: "validate_manifest_loop E (ev_fs W) root l (manifest_artifacts m) {} 0 d2 = (Inr (manifest_total m), d3)"
      "disk_nodes d3 = disk_nodes d"
    using quiet_validate_loop [OF W, of "manifest_artifacts m" l E root d2 "{}" 0] good2 d2(2)
    by (auto simp: good_manifest_def)
  show ?thesis
    using d1 d2 d3 on good
    by (simp add: evidence_open_def read_manifest_def validate_manifest_def validate_manifest_header_def good_manifest_def not_less)
qed

lemma quiet_read:
  fixes W :: "'w evidence_env" and F :: "'w fs_env"
  assumes W: "quiet W" "name_key (ev_fs W) = name_key F" and good: "good_manifest E F (store_root t) l d (store_manifest t)"
    and t: "store_usable t" "disk_nodes (store_disk t) = disk_nodes d"
    and a: "a \<in> set (manifest_artifacts (store_manifest t))" "art_file E F (store_root t) d a b"
  shows "\<exists>t'. evidence_read E W (artifact_locator a) t = (Inr b, t')"
proof -
  obtain d1 where d1: "draw (ev_verify W (store_root t)) (store_disk t) = (Inr (), d1)" "disk_nodes d1 = disk_nodes d"
    using draw_const [of "ev_verify W (store_root t)" "Inr ()" "store_disk t"] W(1) t(2) by (auto simp: quiet_def)
  obtain p where p: "safe_relative_path (artifact_locator a) = Inr p" "node_at (ev_fs W) d1 (store_root t @ p) = Some (FileNode b)"
    using art_file_node [OF a(2) W(2) d1(2)] by blast
  obtain d2 where "read_verified_artifact E (ev_fs W) (store_root t @ p) a (artifact_locator a) d1 = (Inr b, d2)"
    using quiet_read_verified [OF W(1) p(2), of a E "artifact_locator a"] a(2) by (auto simp: art_file_def)
  moreover have "find (\<lambda>c. artifact_locator c = artifact_locator a) (manifest_artifacts (store_manifest t)) = Some a"
    using a(1) good by (intro find_unique_key) (simp_all add: good_manifest_def)
  ultimately show ?thesis
    using t(1) d1 p(1) by (simp add: evidence_read_def verify_access_def on_disk_def ok_or_def)
qed

section \<open>What a store promises\<close>

text \<open>
  The stores that a sequence of operations reaches, with the writes that were acknowledged. A write does not
  use the name of a temporary file of the manifest. A store is opened again when the bytes of its manifest
  determine the manifest that the decoder returned.
\<close>

inductive evidence_reach ::
    "'h ext \<Rightarrow> 'w evidence_env \<Rightarrow> 'w evidence_store \<Rightarrow> (artifact \<times> byte list) list \<Rightarrow> bool" for E V where
  Created: "evidence_create E V root l d = (Inr s, d') \<Longrightarrow> evidence_reach E V s []"
| Wrote: "evidence_reach E V s acked \<Longrightarrow>
    (\<forall>p. safe_relative_path (write_locator request) = Inr p \<longrightarrow>
       fs_key (ev_fs V) (store_root s @ p) \<notin> temporaries (ev_fs V) (manifest_path (store_root s))) \<Longrightarrow>
    evidence_write_op E V request bytes s = (r, s') \<Longrightarrow>
    evidence_reach E V s' (case r of Inr a \<Rightarrow> (a, bytes) # acked | Inl _ \<Rightarrow> acked)"
| Was_read: "evidence_reach E V s acked \<Longrightarrow> evidence_read E V locator s = (r, s') \<Longrightarrow> evidence_reach E V s' acked"
| Opened: "evidence_reach E V s acked \<Longrightarrow> evidence_open E V dec (store_root s) l (store_disk s) = (Inr s', d) \<Longrightarrow>
    (\<And>m. manifest_bytes E m = manifest_bytes E (store_manifest s') \<Longrightarrow> m = store_manifest s') \<Longrightarrow>
    evidence_reach E V s' acked"

lemma evidence_open_bytes:
  assumes "evidence_open E V dec root l d = (Inr s, d')"
  shows "\<exists>b. node_at (ev_fs V) d (manifest_path root) = Some (FileNode b) \<and> manifest_bytes E (store_manifest s) = Inr b"
proof -
  obtain d1 d2 where steps: "draw (ev_verify V root) d = (Inr (), d1)"
      "read_manifest E (ev_fs V) dec root d1 = (Inr (store_manifest s), d2)"
    using assms by (auto simp: evidence_open_def res_simps)
  then show ?thesis
    by (auto simp: read_manifest_def read_file_def res_simps node_at_draw
        split: prod.splits sum.splits if_splits option.splits fs_node.splits)
qed

lemma evidence_reach_inv:
  assumes "evidence_reach E V s acked" "names_apart V" "in_bounds V"
  shows "\<exists>m. store_inv E V s m acked"
  using assms
proof (induction rule: evidence_reach.induct)
  case (Created root l d s d')
  then show ?case using evidence_create_inv(1) by blast
next
  case (Wrote s acked request bytes r s')
  then show ?case using evidence_write_inv by blast
next
  case (Was_read s acked locator r s')
  then show ?case using evidence_read_inv by blast
next
  case (Opened s acked dec l s' d)
  then obtain m where m: "store_inv E V s m acked" by blast
  then have "manifest_bytes E m = manifest_bytes E (store_manifest s')"
    using evidence_open_bytes [OF Opened.hyps(2)] by (auto simp: store_inv_def manifest_on_def)
  then have "m = store_manifest s'" by (rule Opened.hyps(3))
  with m have "store_inv E V s' m acked"
    by (intro evidence_open_inv(1) [where m = m and ?l0.0 = "store_limits s", OF Opened.hyps(2)]) (simp_all add: store_inv_def)
  then show ?case by blast
qed

text \<open>
  C13: acknowledged evidence survives. Whatever operations failed on the way, and wherever they stopped, the
  directory of a store holds the canonical bytes of a manifest (the one in memory, while the store is usable)
  with which the store opens again under the same limits as soon as the file system works; every artifact a
  write ever acknowledged is then read with exactly the bytes that were written.
\<close>

theorem evidence_survives:
  assumes "evidence_reach E V s acked" "names_apart V" "in_bounds V"
  shows "\<exists>m bytes. node_at (ev_fs V) (store_disk s) (manifest_path (store_root s)) = Some (FileNode bytes) \<and>
    manifest_bytes E m = Inr bytes \<and> (store_usable s \<longrightarrow> m = store_manifest s) \<and>
    (\<forall>W dec. quiet W \<and> name_key (ev_fs W) = name_key (ev_fs V) \<and> dec bytes = Inr m \<longrightarrow>
      (\<exists>t d. evidence_open E W dec (store_root s) (store_limits s) (store_disk s) = (Inr t, d) \<and> store_manifest t = m \<and>
        (\<forall>(a, b)\<in>set acked. \<exists>t'. evidence_read E W (artifact_locator a) t = (Inr b, t'))))"
proof -
  let ?F = "ev_fs V" and ?root = "store_root s"
  obtain m bytes where m: "node_at ?F (store_disk s) (manifest_path ?root) = Some (FileNode bytes)" "manifest_bytes E m = Inr bytes"
      "good_manifest E ?F ?root (store_limits s) (store_disk s) m" "retains E ?F ?root (store_disk s) m acked"
      "store_usable s \<longrightarrow> m = store_manifest s"
    using evidence_reach_inv [OF assms] by (auto simp: store_inv_def manifest_on_def)
  have "\<exists>t d. evidence_open E W dec ?root (store_limits s) (store_disk s) = (Inr t, d) \<and> store_manifest t = m \<and>
      (\<forall>(a, b)\<in>set acked. \<exists>t'. evidence_read E W (artifact_locator a) t = (Inr b, t'))"
    if W: "quiet W" "name_key (ev_fs W) = name_key ?F" "dec bytes = Inr m" for W :: "'b evidence_env" and dec
  proof -
    obtain d where o: "evidence_open E W dec ?root (store_limits s) (store_disk s) =
        (Inr \<lparr>store_root = ?root, store_limits = store_limits s, store_manifest = m, store_usable = True, store_disk = d\<rparr>, d)"
        "disk_nodes d = disk_nodes (store_disk s)"
      using quiet_open [where dec = dec, OF W(1,2) m(2,1) W(3) m(3)] by blast
    have "\<exists>t'. evidence_read E W (artifact_locator a)
        \<lparr>store_root = ?root, store_limits = store_limits s, store_manifest = m, store_usable = True, store_disk = d\<rparr> = (Inr b, t')"
      if "(a, b) \<in> set acked" for a b
      using m(3,4) o(2) that by (intro quiet_read [OF W(1,2)]) (auto simp: retains_def)
    with o(1) show ?thesis by auto
  qed
  with m show ?thesis by blast
qed

definition calm_env :: "unit evidence_env" where
  "calm_env = \<lparr>ev_fs = \<lparr>name_key = id, fault = \<lambda>w. (None, w), temp_tag = \<lambda>w. (''t'', w)\<rparr>,
     ev_protect = \<lambda>_ w. (Inr (), w), ev_verify = \<lambda>_ w. (Inr (), w), ev_new_id = \<lambda>w. (4, w),
     partition_point = \<lambda>bs. length (takeWhile id bs)\<rparr>"

definition calm_disk :: "unit disk" where
  "calm_disk = \<lparr>disk_nodes = [[] \<mapsto> DirNode, [''r''] \<mapsto> DirNode], disk_world = ()\<rparr>"

definition calm_limits :: evidence_limits where
  "calm_limits = \<lparr>ev_max_file_bytes = 8, ev_max_total_bytes = 8, ev_max_artifacts = 2\<rparr>"

definition calm_write :: evidence_write where
  "calm_write = \<lparr>write_locator = ''a'', write_kind = Report, write_media_type = ''m'', write_created_at = 6, write_metadata = []\<rparr>"

lemma manifest_bytes_eq: "manifest_bytes E m = Inr (render E (manifest_json E m))"
  by (simp add: canonical_json_bytes_def canonical_json_value_def write_bytes)

lemma calm_relative: "safe_relative_path ''a'' = Inr [''a'']"
  by code_simp

lemma calm_env_ok: "quiet calm_env" "names_apart calm_env" "in_bounds calm_env"
  by (simp_all add: quiet_def names_apart_def in_bounds_def calm_env_def temporary_name_def manifest_name_def length_takeWhile_le)

lemmas calm_defs = calm_env_def calm_limits_def calm_write_def fs_op_defs draw_def node_at_def set_node_def fs_key_def
  in_directory_def on_disk_def temporary_name_def

lemma calm_create:
  "\<exists>s d. evidence_create plain_ext calm_env [''r''] calm_limits calm_disk = (Inr s, d) \<and>
     s = \<lparr>store_root = [''r''], store_limits = calm_limits, store_manifest = empty_manifest, store_usable = True,
       store_disk = calm_disk\<lparr>disk_nodes := (disk_nodes calm_disk)([''r'', temporary_name manifest_name ''t''] := None,
         [''r'', manifest_name] \<mapsto> FileNode (render plain_ext (manifest_json plain_ext empty_manifest)))\<rparr>\<rparr>"
  by (simp add: evidence_create_def calm_defs evidence_limits_validate_def path_exists_def persist_manifest_def
      manifest_bytes_eq atomic_write_def write_and_replace_def calm_disk_def manifest_name_def)

lemma calm_written:
  assumes "s = \<lparr>store_root = [''r''], store_limits = calm_limits, store_manifest = empty_manifest, store_usable = True,
       store_disk = calm_disk\<lparr>disk_nodes := (disk_nodes calm_disk)([''r'', temporary_name manifest_name ''t''] := None,
         [''r'', manifest_name] \<mapsto> FileNode bytes)\<rparr>\<rparr>"
  shows "\<exists>a s'. evidence_write_op plain_ext calm_env calm_write [1, 2] s = (Inr a, s') \<and> store_usable s'"
  by (simp add: assms evidence_write_op_def verify_access_def write_quota_def calm_defs empty_manifest_def u64_bound_def
      checked_add_u64_def ok_or_def calm_relative commit_artifact_def insert_artifact_sorted_def persist_manifest_def
      manifest_bytes_eq atomic_write_def write_and_replace_def calm_disk_def manifest_name_def Let_def)

theorem evidence_survives_witness:
  "\<exists>s a t d t'. evidence_reach plain_ext calm_env s [(a, [1, 2])] \<and>
     evidence_open plain_ext calm_env (\<lambda>_. Inr (store_manifest s)) (store_root s) (store_limits s) (store_disk s) = (Inr t, d) \<and>
     evidence_read plain_ext calm_env (artifact_locator a) t = (Inr [1, 2], t')"
proof -
  obtain s0 d0 where s0: "evidence_create plain_ext calm_env [''r''] calm_limits calm_disk = (Inr s0, d0)" "store_root s0 = [''r'']"
    and w: "\<exists>a s. evidence_write_op plain_ext calm_env calm_write [1, 2] s0 = (Inr a, s) \<and> store_usable s"
    using calm_create calm_written by fastforce
  obtain a s where s: "evidence_write_op plain_ext calm_env calm_write [1, 2] s0 = (Inr a, s)" "store_usable s" using w by blast
  have "fs_key (ev_fs calm_env) ([''r''] @ [''a'']) \<notin> temporaries (ev_fs calm_env) (manifest_path [''r''])"
    by (simp add: temporaries_def fs_key_def calm_env_def temporary_name_def)
  then have reach: "evidence_reach plain_ext calm_env s [(a, [1, 2])]"
    using Wrote [OF Created [OF s0(1)] _ s(1)] calm_relative by (simp add: s0(2) calm_write_def)
  from evidence_survives [OF reach calm_env_ok(2,3)] obtain m bytes where m: "store_usable s \<longrightarrow> m = store_manifest s"
    and reopen: "\<forall>W dec. quiet W \<and> name_key (ev_fs W) = name_key (ev_fs calm_env) \<and> dec bytes = Inr m \<longrightarrow>
      (\<exists>t d. evidence_open plain_ext W dec (store_root s) (store_limits s) (store_disk s) = (Inr t, d) \<and> store_manifest t = m \<and>
        (\<forall>(a, b)\<in>set [(a, [1, 2])]. \<exists>t'. evidence_read plain_ext W (artifact_locator a) t = (Inr b, t')))"
    by (elim exE conjE) (rule that)
  show ?thesis
    using reopen [rule_format, of calm_env "\<lambda>_. Inr (store_manifest s)"] m s(2) calm_env_ok(1) reach by auto
qed

text \<open>
  \<open>create\<close> asks \<open>Path::exists\<close>, which answers no when the query itself fails: over a store whose manifest cannot
  be queried for a moment it succeeds and replaces that manifest by an empty one.
\<close>

definition flaky_env :: "nat evidence_env" where
  "flaky_env = \<lparr>ev_fs = \<lparr>name_key = id, fault = \<lambda>w. (if w = 0 then Some 0 else None, Suc w), temp_tag = \<lambda>w. (''t'', w)\<rparr>,
     ev_protect = \<lambda>_ w. (Inr (), w), ev_verify = \<lambda>_ w. (Inr (), w), ev_new_id = \<lambda>w. (4, w),
     partition_point = \<lambda>bs. length (takeWhile id bs)\<rparr>"

lemma create_replaces_unqueried:
  assumes "d = \<lparr>disk_nodes = [[] \<mapsto> DirNode, [''r''] \<mapsto> DirNode, [''r'', manifest_name] \<mapsto> FileNode old], disk_world = 0\<rparr>"
  shows "\<exists>s d'. evidence_create plain_ext flaky_env [''r''] calm_limits d = (Inr s, d') \<and>
    manifest_on plain_ext (ev_fs flaky_env) [''r''] d' empty_manifest"
  by (simp add: assms evidence_create_def calm_defs flaky_env_def evidence_limits_validate_def path_exists_def persist_manifest_def
      manifest_bytes_eq atomic_write_def write_and_replace_def manifest_name_def manifest_on_def)

end
