(* ===== verification/Archive.thy ===== *)
theory Archive
  imports Evidence_Safety
begin

text \<open>
  The bounded extraction of \<open>baselineops-windows/src/archive.rs\<close> and \<open>archive/extract.rs\<close>. The \<open>zip\<close> crate is a
  parameter: an archive is a list of entries, each of which may fail to open, and an entry has a name, a declared size,
  a Unix mode and a stream of bytes that nothing ties to one another. So are canonical paths and Unicode lower case.
  The disk is that of \<open>File_System\<close>, where no link is followed.
\<close>

section \<open>Entries\<close>

record zip_entry =
  zip_name :: string
  zip_is_dir :: bool
  zip_size :: u64
  zip_mode :: "32 word option"
  zip_data :: "byte list"
  zip_data_ok :: bool

record archive_policy =
  ar_max_files :: usize
  ar_max_file_bytes :: u64
  ar_max_total_bytes :: u64
  ar_max_depth :: usize

definition archive_policy_default :: archive_policy where
  "archive_policy_default = \<lparr>ar_max_files = 4096, ar_max_file_bytes = 128 * 1024 * 1024,
     ar_max_total_bytes = 512 * 1024 * 1024, ar_max_depth = 16\<rparr>"

text \<open>An addition that overflows is a panic.\<close>

datatype archive_stop = ArchiveError platform_error | ArchivePanic

definition rejected :: "string \<Rightarrow> archive_stop + 'a" where
  "rejected text = Inl (ArchiveError (ArchiveRejected text))"

definition io_result :: "(fs_error + 'a) \<times> 'd \<Rightarrow> (archive_stop + 'a) \<times> 'd" where
  "io_result = (\<lambda>(r, d). (map_err (\<lambda>_. ArchiveError (PlatformIo ''file system call failed'')) r, d))"

section \<open>Names\<close>

definition reject_invalid_name :: "string \<Rightarrow> archive_stop + unit" where
  "reject_invalid_name name =
     (if name = [] \<or> CHR 0x00 \<in> set name \<or> CHR '':'' \<in> set name
      then rejected ''archive member has an invalid or alternate-stream name'' else Inr ())"

definition component_stem :: "string \<Rightarrow> string" where
  "component_stem c = map to_ascii_upper (takeWhile (\<lambda>x. x \<noteq> CHR ''.'') c)"

definition reserved_stem :: "string \<Rightarrow> bool" where
  "reserved_stem stem \<longleftrightarrow> stem \<in> {''CON'', ''PRN'', ''AUX'', ''NUL''} \<or>
     (length stem = 4 \<and> (take 3 stem = ''COM'' \<or> take 3 stem = ''LPT'') \<and> CHR ''1'' \<le> stem ! 3 \<and> stem ! 3 \<le> CHR ''9'')"

definition validate_windows_component :: "string \<Rightarrow> archive_stop + unit" where
  "validate_windows_component c =
     (if c \<noteq> [] \<and> last c \<in> {CHR '' '', CHR ''.''} then rejected ''archive member has a Windows-ambiguous suffix''
      else if reserved_stem (component_stem c) then rejected ''archive member uses a reserved Windows device name''
      else Inr ())"

definition saturating_succ :: "usize \<Rightarrow> usize" where
  "saturating_succ n = min (n + 1) (u64_bound - 1)"

fun normalized_components :: "component list \<Rightarrow> string list \<Rightarrow> usize \<Rightarrow> archive_stop + (string list \<times> usize)" where
  "normalized_components [] clean depth = Inr (clean, depth)"
| "normalized_components (CNormal part # cs) clean depth =
     and_then (validate_windows_component part) (\<lambda>_.
       normalized_components cs (clean @ [part]) (saturating_succ depth))"
| "normalized_components (CCurDir # cs) clean depth = normalized_components cs clean depth"
| "normalized_components (_ # cs) clean depth = rejected ''archive member attempts path traversal''"

definition validate_entry_name :: "string \<Rightarrow> usize \<Rightarrow> archive_stop + string list" where
  "validate_entry_name name deepest =
     and_then (reject_invalid_name name) (\<lambda>_.
     and_then (normalized_components (components name) [] 0) (\<lambda>(clean, depth).
       if clean = [] \<or> depth > deepest then rejected ''archive member has an empty or over-deep path''
       else Inr clean))"

text \<open>The text of a relative path: its names between separators.\<close>

fun path_text :: "string list \<Rightarrow> string" where
  "path_text [] = []"
| "path_text [n] = n"
| "path_text (n # m # ns) = n @ [sep_char] @ path_text (m # ns)"

section \<open>Quotas\<close>

record archive_validation =
  av_policy :: archive_policy
  av_total_bytes :: u64
  av_file_count :: usize
  av_normalized_names :: "string list"

definition archive_validation_new :: "archive_policy \<Rightarrow> archive_validation" where
  "archive_validation_new policy =
     \<lparr>av_policy = policy, av_total_bytes = 0, av_file_count = 0, av_normalized_names = []\<rparr>"

definition is_link_or_special :: "32 word option \<Rightarrow> bool" where
  "is_link_or_special mode =
     (case mode of
        None \<Rightarrow> False
      | Some m \<Rightarrow> let file_type = m AND 0xF000 in file_type \<noteq> 0 \<and> file_type \<noteq> 0x8000 \<and> file_type \<noteq> 0x4000)"

definition reject_duplicate_or_special ::
    "(string \<Rightarrow> string) \<Rightarrow> zip_entry \<Rightarrow> string list \<Rightarrow> archive_validation \<Rightarrow> archive_stop + archive_validation" where
  "reject_duplicate_or_special lower entry relative v =
     (let normalized = lower (map (\<lambda>c. if c = sep_char then CHR ''/'' else c) (path_text relative)) in
      if normalized \<in> set (av_normalized_names v) then rejected ''archive has duplicate or case-colliding paths''
      else if is_link_or_special (zip_mode entry) then rejected ''archive contains a link or special file''
      else Inr (v\<lparr>av_normalized_names := normalized # av_normalized_names v\<rparr>))"

definition reject_file_count :: "usize \<Rightarrow> usize \<Rightarrow> archive_stop + unit" where
  "reject_file_count n maximum =
     (if n > maximum then rejected ''archive contains too many files'' else Inr ())"

definition reject_member_size :: "u64 \<Rightarrow> u64 \<Rightarrow> string list \<Rightarrow> archive_stop + unit" where
  "reject_member_size bytes maximum relative =
     (if bytes > maximum then rejected (''archive member exceeds the per-file quota: '' @ path_text relative) else Inr ())"

definition reject_total_size :: "u64 \<Rightarrow> u64 \<Rightarrow> archive_stop + unit" where
  "reject_total_size bytes maximum =
     (if bytes > maximum then rejected ''archive exceeds the total uncompressed quota'' else Inr ())"

definition enforce_file_quotas :: "u64 \<Rightarrow> string list \<Rightarrow> archive_validation \<Rightarrow> archive_stop + archive_validation" where
  "enforce_file_quotas bytes relative v =
     (let files = saturating_succ (av_file_count v); policy = av_policy v in
      and_then (reject_file_count files (ar_max_files policy)) (\<lambda>_.
      and_then (reject_member_size bytes (ar_max_file_bytes policy) relative) (\<lambda>_.
      and_then (ok_or (ArchiveError (ArchiveRejected ''archive size overflow'')) (checked_add_u64 (av_total_bytes v) bytes)) (\<lambda>total.
      and_then (reject_total_size total (ar_max_total_bytes policy)) (\<lambda>_.
        Inr (v\<lparr>av_file_count := files, av_total_bytes := total\<rparr>))))))"

definition entry_path ::
    "(string \<Rightarrow> string) \<Rightarrow> zip_entry \<Rightarrow> archive_validation \<Rightarrow> archive_stop + (archive_validation \<times> string list)" where
  "entry_path lower entry v =
     and_then (validate_entry_name (zip_name entry) (ar_max_depth (av_policy v))) (\<lambda>relative.
     and_then (reject_duplicate_or_special lower entry relative v) (\<lambda>v.
     and_then (if \<not> zip_is_dir entry then enforce_file_quotas (zip_size entry) relative v else Inr v) (\<lambda>v.
       Inr (v, relative))))"

section \<open>Extraction\<close>

definition reject_existing_link :: "'w fs_env \<Rightarrow> fs_path \<Rightarrow> 'w disk \<Rightarrow> (archive_stop + unit) \<times> 'w disk" where
  "reject_existing_link F p d =
     st_then (io_result (symlink_metadata F p d)) (\<lambda>n d.
       (if n = LinkNode then rejected ''extraction path contains a symbolic link'' else Inr (), d))"

definition create_directory :: "'w fs_env \<Rightarrow> fs_path \<Rightarrow> string list \<Rightarrow> 'w disk \<Rightarrow> (archive_stop + unit) \<times> 'w disk" where
  "create_directory F root relative d =
     st_then (io_result (create_dir_all F root relative d)) (\<lambda>_ d. reject_existing_link F (root @ relative) d)"

definition create_file_parent :: "'w fs_env \<Rightarrow> fs_path \<Rightarrow> string list \<Rightarrow> 'w disk \<Rightarrow> (archive_stop + unit) \<times> 'w disk" where
  "create_file_parent F root relative d =
     st_then (io_result (create_dir_all F root (butlast relative) d)) (\<lambda>_ d.
       reject_existing_link F (root @ butlast relative) d)"

text \<open>Flushing and synchronizing a handle.\<close>

definition sync_file :: "'w fs_env \<Rightarrow> 'w disk \<Rightarrow> (fs_error + unit) \<times> 'w disk" where
  "sync_file F d = (let (k, d) = draw (fault F) d in (if k \<noteq> None then Inl FsOther else Inr (), d))"

definition write_entry ::
    "'w fs_env \<Rightarrow> zip_entry \<Rightarrow> fs_path \<Rightarrow> u64 \<Rightarrow> string list \<Rightarrow> 'w disk \<Rightarrow> (archive_stop + unit) \<times> 'w disk" where
  "write_entry F entry output max_file_bytes relative d =
     (case checked_add_u64 max_file_bytes 1 of
        None \<Rightarrow> st_then (io_result (write_new_file F output [] d)) (\<lambda>_ d. (Inl ArchivePanic, d))
      | Some limit \<Rightarrow>
          let bytes = take limit (zip_data entry); copied = length bytes in
          st_then (io_result (write_new_file F output bytes d)) (\<lambda>_ d.
            if \<not> zip_data_ok entry \<and> length (zip_data entry) < limit
            then (Inl (ArchiveError (PlatformIo ''read failed'')), d)
            else if copied \<noteq> zip_size entry \<or> copied > max_file_bytes
            then (rejected (''archive member size changed while extracting: '' @ path_text relative), d)
            else io_result (sync_file F d)))"

definition extract_one ::
    "'w fs_env \<Rightarrow> (string \<Rightarrow> string) \<Rightarrow> fs_path \<Rightarrow> string + zip_entry \<Rightarrow> archive_validation \<Rightarrow> 'w disk \<Rightarrow>
     (archive_stop + (archive_validation \<times> fs_path list)) \<times> 'w disk" where
  "extract_one F lower root opened v d =
     st_then (map_err (\<lambda>text. ArchiveError (ArchiveRejected text)) opened, d) (\<lambda>entry d.
     st_then (entry_path lower entry v, d) (\<lambda>(v, relative) d.
       let output = root @ relative in
       if zip_is_dir entry
       then st_then (create_directory F root relative d) (\<lambda>_ d. (Inr (v, []), d))
       else
         st_then (create_file_parent F root relative d) (\<lambda>_ d.
         st_then (write_entry F entry output (ar_max_file_bytes (av_policy v)) relative d) (\<lambda>_ d.
           (Inr (v, [output]), d)))))"

fun extract_entries ::
    "'w fs_env \<Rightarrow> (string \<Rightarrow> string) \<Rightarrow> fs_path \<Rightarrow> archive_validation \<Rightarrow> fs_path list \<Rightarrow> (string + zip_entry) list \<Rightarrow>
     'w disk \<Rightarrow> (archive_stop + fs_path list) \<times> 'w disk" where
  "extract_entries F lower root v extracted [] d = (Inr extracted, d)"
| "extract_entries F lower root v extracted (opened # rest) d =
     st_then (extract_one F lower root opened v d) (\<lambda>(v, outputs) d.
       extract_entries F lower root v (extracted @ outputs) rest d)"

definition is_dir :: "'w fs_env \<Rightarrow> fs_path \<Rightarrow> 'w disk \<Rightarrow> bool \<times> 'w disk" where
  "is_dir F p d = (let (k, d) = draw (fault F) d in (k = None \<and> node_at F d p = Some DirNode, d))"

definition extract_zip_safely ::
    "'w fs_env \<Rightarrow> (string \<Rightarrow> string) \<Rightarrow> (fs_path \<Rightarrow> 'w \<Rightarrow> (fs_error + fs_path) \<times> 'w) \<Rightarrow>
     string + (string + zip_entry) list \<Rightarrow> fs_path \<Rightarrow> archive_policy \<Rightarrow> 'w disk \<Rightarrow>
     (archive_stop + fs_path list) \<times> 'w disk" where
  "extract_zip_safely F lower canonical opened destination policy d =
     st_then (io_result (create_dir_all F [] destination d)) (\<lambda>_ d.
     st_then (io_result (draw (canonical destination) d)) (\<lambda>root d.
       let (directory, d) = is_dir F root d in
       if \<not> directory then (rejected ''destination is not a directory'', d)
       else
         st_then (map_err (\<lambda>text. ArchiveError (ArchiveRejected text)) opened, d) (\<lambda>archive d.
           if length archive > min (ar_max_files policy * 2) (u64_bound - 1)
           then (rejected ''archive contains too many entries'', d)
           else extract_entries F lower root (archive_validation_new policy) [] archive d)))"

section \<open>What extraction does to the disk\<close>

text \<open>Only paths that had no node get one: a directory under the keys \<open>ds\<close>, a file under the keys \<open>fs\<close>.\<close>

definition grows :: "'w fs_env \<Rightarrow> fs_path set \<Rightarrow> fs_path set \<Rightarrow> 'w disk \<Rightarrow> 'w disk \<Rightarrow> bool" where
  "grows F ds fs d d' \<longleftrightarrow> (\<forall>q. node_at F d' q \<noteq> node_at F d q \<longrightarrow> node_at F d q = None \<and>
     (node_at F d' q = Some DirNode \<and> fs_key F q \<in> ds \<or> (\<exists>b. node_at F d' q = Some (FileNode b)) \<and> fs_key F q \<in> fs))"

lemma grows_refl [simp]: "grows F ds fs d d"
  by (simp add: grows_def)

lemma grows_trans: "grows F ds fs d d' \<Longrightarrow> grows F ds fs d' d'' \<Longrightarrow> grows F ds fs d d''"
  unfolding grows_def by (metis option.distinct(1))

lemma grows_mono: "grows F ds fs d d' \<Longrightarrow> ds \<subseteq> ds' \<Longrightarrow> fs \<subseteq> fs' \<Longrightarrow> grows F ds' fs' d d'"
  unfolding grows_def by blast

lemma grows_keeps: "grows F ds fs d d' \<Longrightarrow> node_at F d q = Some n \<Longrightarrow> node_at F d' q = Some n"
  unfolding grows_def by (metis option.distinct(1))

lemma same_key_node: "fs_key F q = fs_key F p \<Longrightarrow> node_at F d q = node_at F d p"
  by (simp add: node_at_def)

lemma grows_st_then:
  assumes "grows F ds fs d (snd r)" "\<And>a d1. r = (Inr a, d1) \<Longrightarrow> grows F ds fs d1 (snd (f a d1))"
  shows "grows F ds fs d (snd (st_then r f))"
proof (cases r)
  case (Pair x d1)
  with assms show ?thesis by (cases x) (auto intro: grows_trans)
qed

lemma grows_draw [simp]: "grows F ds fs d (snd (draw f d))"
  by (cases "draw f d") (simp add: grows_def)

lemma snd_io_result [simp]: "snd (io_result r) = snd r"
  by (simp add: io_result_def case_prod_beta)

lemma io_result_Inr [simp]: "io_result r = (Inr a, d) \<longleftrightarrow> r = (Inr a, d)"
  by (cases r) (auto simp: io_result_def)

lemma create_dir_grows: "grows F {fs_key F p} fs d (snd (create_dir F p d))"
  by (auto simp: create_dir_def grows_def node_at_draw split: prod.splits if_splits) (metis same_key_node)

lemma write_new_file_grows: "grows F ds {fs_key F p} d (snd (write_new_file F p bytes d))"
  by (auto simp: write_new_file_def grows_def node_at_draw split: prod.splits if_splits option.splits nat.splits)
    (metis same_key_node)+

lemma metadata_grows [simp]: "grows F ds fs d (snd (symlink_metadata F p d))"
  by (auto simp: symlink_metadata_def grows_def node_at_draw split: prod.splits if_splits option.splits)

lemma reject_existing_link_grows [simp]: "grows F ds fs d (snd (reject_existing_link F p d))"
  unfolding reject_existing_link_def by (rule grows_st_then) simp_all

lemma sync_file_grows [simp]: "grows F ds fs d (snd (sync_file F d))"
  by (auto simp: sync_file_def grows_def node_at_draw split: prod.splits)

lemma create_dir_all_grows:
  "grows F {fs_key F (current @ take k ns) |k. 0 < k \<and> k \<le> length ns} fs d (snd (create_dir_all F current ns d))"
proof (induction ns arbitrary: current d)
  case (Cons n ns)
  let ?ks = "{fs_key F (current @ take k (n # ns)) |k. 0 < k \<and> k \<le> length (n # ns)}"
  have sub: "{fs_key F ((current @ [n]) @ take k ns) |k. 0 < k \<and> k \<le> length ns} \<subseteq> ?ks"
  proof safe
    fix k assume "0 < k" "k \<le> length ns"
    then show "\<exists>j. fs_key F ((current @ [n]) @ take k ns) = fs_key F (current @ take j (n # ns)) \<and> 0 < j \<and> j \<le> length (n # ns)"
      by (intro exI [of _ "Suc k"]) simp
  qed
  have one: "fs_key F (current @ [n]) \<in> ?ks" by (auto intro!: exI [of _ 1])
  note rest = grows_mono [OF Cons.IH sub subset_refl]
  have "grows F ?ks fs d (snd (create_dir F (current @ [n]) d))"
    using grows_mono [OF create_dir_grows, of F "current @ [n]" ?ks fs] one by blast
  then show ?case
    using rest by (auto split: option.split fs_node.split intro!: grows_st_then simp del: take_Suc_Cons)
qed simp

section \<open>Names of members\<close>

text \<open>A name between separators that Windows reads as itself: no stream, no device, no suffix it would drop.\<close>

definition safe_member_name :: "string \<Rightarrow> bool" where
  "safe_member_name n \<longleftrightarrow> plain_name n \<and> CHR '':'' \<notin> set n \<and> CHR 0x00 \<notin> set n \<and> validate_windows_component n = Inr ()"

definition member_keys :: "'w fs_env \<Rightarrow> fs_path \<Rightarrow> fs_path set" where
  "member_keys F root = {fs_key F (root @ ns) |ns. ns \<noteq> [] \<and> list_all safe_member_name ns}"

lemma normalized_components_names:
  assumes "normalized_components cs clean depth = Inr (names, dp)" "depth < u64_bound"
  shows "\<exists>ns. names = clean @ ns \<and> set cs \<subseteq> insert CCurDir (CNormal ` set ns) \<and> CNormal ` set ns \<subseteq> set cs \<and>
    list_all (\<lambda>n. validate_windows_component n = Inr ()) ns \<and> dp = min (depth + length ns) (u64_bound - 1)"
  using assms
proof (induction cs clean depth rule: normalized_components.induct)
  case (2 part cs clean depth)
  have "saturating_succ depth < u64_bound" by (simp add: saturating_succ_def u64_bound_def min_def)
  with 2 obtain ns where ns: "names = (clean @ [part]) @ ns" "set cs \<subseteq> insert CCurDir (CNormal ` set ns)"
      "CNormal ` set ns \<subseteq> set cs" "list_all (\<lambda>n. validate_windows_component n = Inr ()) ns"
      "dp = min (saturating_succ depth + length ns) (u64_bound - 1)" "validate_windows_component part = Inr ()"
    by (auto simp: res_simps)
  then show ?case by (intro exI [of _ "part # ns"]) (auto simp: saturating_succ_def min_def)
qed (auto simp: rejected_def)

lemma validate_entry_name_safe:
  assumes "validate_entry_name name deepest = Inr names"
  shows "names \<noteq> []" "list_all safe_member_name names" "min (length names) (u64_bound - 1) \<le> deepest"
proof -
  obtain dp where ok: "CHR 0x00 \<notin> set name" "CHR '':'' \<notin> set name"
      and n: "normalized_components (components name) [] 0 = Inr (names, dp)" and ne: "names \<noteq> []" "dp \<le> deepest"
    using assms by (auto simp: validate_entry_name_def reject_invalid_name_def rejected_def res_simps split: if_splits)
  have "(0 :: nat) < u64_bound" by (simp add: u64_bound_def)
  note cs = normalized_components_names [OF n this]
  show "names \<noteq> []" by (rule ne)
  show "min (length names) (u64_bound - 1) \<le> deepest" using cs ne by auto
  have "parse_prefix name = None"
  proof (rule ccontr)
    assume "parse_prefix name \<noteq> None"
    then obtain q where "parse_prefix name = Some q" by blast
    then have "CPrefix q \<in> set (components name)" by (simp add: components_def Let_def)
    then show False using cs by auto
  qed
  then have "plain_name n \<and> set n \<subseteq> set name" if "n \<in> set names" for n
    using components_normal [of name n] cs that by auto
  then show "list_all safe_member_name names"
    using cs ok by (auto simp: list_all_iff safe_member_name_def)
qed

lemma member_key: "ns \<noteq> [] \<Longrightarrow> list_all safe_member_name ns \<Longrightarrow> fs_key F (root @ ns) \<in> member_keys F root"
  by (auto simp: member_keys_def)

lemma create_members_grows:
  assumes "list_all safe_member_name ns"
  shows "grows F (member_keys F root) fs d (snd (create_dir_all F root ns d))"
proof (rule grows_mono [OF create_dir_all_grows _ subset_refl], safe)
  fix k :: nat assume "0 < k" "k \<le> length ns"
  moreover have "list_all safe_member_name (take k ns)" using assms by (auto simp: list_all_iff dest: in_set_takeD)
  ultimately show "fs_key F (root @ take k ns) \<in> member_keys F root" by (auto intro: member_key)
qed

lemma create_directory_grows:
  "list_all safe_member_name ns \<Longrightarrow> grows F (member_keys F root) fs d (snd (create_directory F root ns d))"
  unfolding create_directory_def by (rule grows_st_then) (simp_all add: create_members_grows)

lemma create_file_parent_grows:
  assumes "list_all safe_member_name ns"
  shows "grows F (member_keys F root) fs d (snd (create_file_parent F root ns d))"
proof -
  have "list_all safe_member_name (butlast ns)" using assms by (auto simp: list_all_iff dest: in_set_butlastD)
  then show ?thesis
    unfolding create_file_parent_def by (intro grows_st_then) (simp_all add: create_members_grows)
qed

section \<open>Extraction of one member\<close>

lemma write_entry_grows: "grows F ds {fs_key F p} d (snd (write_entry F e p m relative d))"
  unfolding write_entry_def Let_def
  by (cases "checked_add_u64 m 1")
    (simp_all del: checked_add_u64_Some checked_add_u64_None add: write_new_file_grows grows_st_then rejected_def)

lemma write_entry_Inr:
  assumes "write_entry F e p m relative d = (Inr u, d')"
  shows "node_at F d p = None \<and> (\<exists>b. node_at F d' p = Some (FileNode b) \<and> length b = zip_size e \<and> length b \<le> m)"
proof -
  obtain limit where limit: "checked_add_u64 m 1 = Some limit"
    using assms by (cases "checked_add_u64 m 1")
      (auto simp: write_entry_def res_simps simp del: One_nat_def checked_add_u64_None checked_add_u64_Some)
  let ?b = "take limit (zip_data e)"
  obtain d1 where w: "write_new_file F p ?b d = (Inr (), d1)" "length ?b = zip_size e" "length ?b \<le> m"
      "io_result (sync_file F d1) = (Inr u, d')"
    using assms limit
    by (auto simp: write_entry_def Let_def res_simps rejected_def simp del: One_nat_def checked_add_u64_Some split: if_splits)
  have "node_at F d' p = node_at F d1 p"
    using w(4) by (auto simp: sync_file_def node_at_draw split: prod.splits)
  with write_new_file_Inr [OF w(1)] w(2,3) show ?thesis by auto
qed

lemma entry_path_Inr:
  assumes "entry_path lower e v = Inr (v', names)"
  shows "names \<noteq> []" "list_all safe_member_name names" "av_policy v' = av_policy v"
    "min (length names) (u64_bound - 1) \<le> ar_max_depth (av_policy v)"
    "zip_is_dir e \<Longrightarrow> av_file_count v' = av_file_count v \<and> av_total_bytes v' = av_total_bytes v"
    "\<not> zip_is_dir e \<Longrightarrow> av_file_count v' = saturating_succ (av_file_count v) \<and> av_file_count v' \<le> ar_max_files (av_policy v) \<and>
       av_total_bytes v' = av_total_bytes v + zip_size e \<and> av_total_bytes v' \<le> ar_max_total_bytes (av_policy v)"
  using assms validate_entry_name_safe [of "zip_name e" "ar_max_depth (av_policy v)" names]
  by (auto simp: entry_path_def res_simps reject_duplicate_or_special_def enforce_file_quotas_def Let_def rejected_def
      reject_file_count_def reject_member_size_def reject_total_size_def split: if_splits)

text \<open>A file that was written below the root, where there was nothing before.\<close>

definition member_file :: "'w fs_env \<Rightarrow> fs_path \<Rightarrow> archive_policy \<Rightarrow> 'w disk \<Rightarrow> 'w disk \<Rightarrow> fs_path \<Rightarrow> bool" where
  "member_file F root policy d d' p \<longleftrightarrow>
     (\<exists>ns b. p = root @ ns \<and> ns \<noteq> [] \<and> list_all safe_member_name ns \<and>
        min (length ns) (u64_bound - 1) \<le> ar_max_depth policy \<and> node_at F d p = None \<and>
        node_at F d' p = Some (FileNode b) \<and> length b \<le> ar_max_file_bytes policy)"

definition file_size :: "'w fs_env \<Rightarrow> 'w disk \<Rightarrow> fs_path \<Rightarrow> nat" where
  "file_size F d p = (case node_at F d p of Some (FileNode b) \<Rightarrow> length b | _ \<Rightarrow> 0)"

lemma extract_one_grows:
  "grows F (member_keys F root) (member_keys F root) d (snd (extract_one F lower root opened v d))"
proof (cases opened)
  case (Inr e)
  show ?thesis
  proof (cases "entry_path lower e v")
    case (Inr r)
    obtain v' ns where r: "r = (v', ns)" by (cases r)
    note ok = entry_path_Inr [OF Inr [unfolded r]]
    have "grows F (member_keys F root) (member_keys F root) d1
        (snd (write_entry F e (root @ ns) (ar_max_file_bytes (av_policy v')) ns d1))" for d1
      by (rule grows_mono [OF write_entry_grows subset_refl]) (simp add: member_key [OF ok(1,2)])
    then show ?thesis
      using \<open>opened = Inr e\<close> Inr r ok(2)
      by (auto simp: extract_one_def Let_def intro!: grows_st_then create_directory_grows create_file_parent_grows)
  qed (simp add: extract_one_def \<open>opened = Inr e\<close>)
qed (simp add: extract_one_def)

lemma extract_one_Inr:
  assumes "extract_one F lower root opened v d = (Inr (v', outs), d')"
  shows "grows F (member_keys F root) (fs_key F ` set outs) d d' \<and> av_policy v' = av_policy v \<and>
    (outs = [] \<and> av_file_count v' = av_file_count v \<and> av_total_bytes v' = av_total_bytes v \<or>
     (\<exists>p. outs = [p] \<and> member_file F root (av_policy v) d d' p \<and>
        av_file_count v' = saturating_succ (av_file_count v) \<and> av_file_count v' \<le> ar_max_files (av_policy v) \<and>
        av_total_bytes v' = av_total_bytes v + file_size F d' p \<and> av_total_bytes v' \<le> ar_max_total_bytes (av_policy v)))"
proof -
  obtain e ns where e: "opened = Inr e" "entry_path lower e v = Inr (v', ns)"
    using assms by (auto simp: extract_one_def res_simps Let_def split: if_splits)
  note ok = entry_path_Inr [OF e(2)]
  show ?thesis
  proof (cases "zip_is_dir e")
    case True
    then have "outs = []" "snd (create_directory F root ns d) = d'"
      using assms e by (auto simp: extract_one_def res_simps Let_def)
    with create_directory_grows [OF ok(2), of F root "{}" d] ok(3,5) True show ?thesis by simp
  next
    case False
    then obtain d1 where outs: "outs = [root @ ns]" and c: "create_file_parent F root ns d = (Inr (), d1)"
        and w: "write_entry F e (root @ ns) (ar_max_file_bytes (av_policy v')) ns d1 = (Inr (), d')"
      using assms e by (auto simp: extract_one_def res_simps Let_def)
    have c_grows: "grows F (member_keys F root) {fs_key F (root @ ns)} d d1"
      using create_file_parent_grows [OF ok(2), of F root "{fs_key F (root @ ns)}" d] c by simp
    have w_grows: "grows F (member_keys F root) {fs_key F (root @ ns)} d1 d'"
      using write_entry_grows [of F "member_keys F root" "root @ ns" d1 e "ar_max_file_bytes (av_policy v')" ns] w by simp
    obtain b where b: "node_at F d1 (root @ ns) = None" "node_at F d' (root @ ns) = Some (FileNode b)" "length b = zip_size e"
        "length b \<le> ar_max_file_bytes (av_policy v')"
      using write_entry_Inr [OF w] by blast
    then have "node_at F d (root @ ns) = None"
      using grows_keeps [OF c_grows, of "root @ ns"] by (metis not_None_eq)
    with b ok False have "member_file F root (av_policy v) d d' (root @ ns)" by (auto simp: member_file_def)
    with outs grows_trans [OF c_grows w_grows] ok False b show ?thesis
      by (auto simp: file_size_def)
  qed
qed

lemma extract_entries_grows:
  "grows F (member_keys F root) (member_keys F root) d (snd (extract_entries F lower root v ex es d))"
proof (induction es arbitrary: v ex d)
  case (Cons x es)
  then show ?case by (auto intro!: grows_st_then extract_one_grows)
qed simp

lemma member_file_later:
  assumes "member_file F root policy d d1 p" "grows F ds fs d1 d'"
  shows "member_file F root policy d d' p" "file_size F d' p = file_size F d1 p"
  using assms grows_keeps [OF assms(2)] by (fastforce simp: member_file_def file_size_def)+

lemma member_file_earlier:
  assumes "member_file F root policy d1 d' p" "grows F ds fs d d1"
  shows "member_file F root policy d d' p"
  using assms grows_keeps [OF assms(2), of p] unfolding member_file_def by (metis option.exhaust)

lemma extract_entries_Inr:
  assumes "extract_entries F lower root v ex es d = (Inr paths, d')" "av_file_count v + length es < u64_bound"
    and "av_file_count v \<le> ar_max_files (av_policy v)" "av_total_bytes v \<le> ar_max_total_bytes (av_policy v)"
  shows "\<exists>new. paths = ex @ new \<and> grows F (member_keys F root) (fs_key F ` set new) d d' \<and>
    list_all (member_file F root (av_policy v) d d') new \<and> distinct (map (fs_key F) new) \<and>
    av_file_count v + length new \<le> ar_max_files (av_policy v) \<and>
    av_total_bytes v + sum_list (map (file_size F d') new) \<le> ar_max_total_bytes (av_policy v)"
  using assms
proof (induction es arbitrary: v ex d)
  case (Cons x es)
  obtain v1 outs d1 where x: "extract_one F lower root x v d = (Inr (v1, outs), d1)"
      and r: "extract_entries F lower root v1 (ex @ outs) es d1 = (Inr paths, d')"
    using Cons.prems(1) by (auto simp: res_simps)
  note one = extract_one_Inr [OF x]
  have le: "av_file_count v1 + length es < u64_bound" "av_file_count v1 \<le> ar_max_files (av_policy v1)"
      "av_total_bytes v1 \<le> ar_max_total_bytes (av_policy v1)"
      "av_file_count v1 = av_file_count v + length outs"
    using one Cons.prems(2-4) by (auto simp: saturating_succ_def)
  obtain new where new: "paths = (ex @ outs) @ new" "grows F (member_keys F root) (fs_key F ` set new) d1 d'"
      "list_all (member_file F root (av_policy v1) d1 d') new" "distinct (map (fs_key F) new)"
      "av_file_count v1 + length new \<le> ar_max_files (av_policy v1)"
      "av_total_bytes v1 + sum_list (map (file_size F d') new) \<le> ar_max_total_bytes (av_policy v1)"
    using Cons.IH [OF r le(1-3)] by auto
  have grow: "grows F (member_keys F root) (fs_key F ` set (outs @ new)) d d'"
    using one new(2) by (auto intro: grows_trans grows_mono)
  have earlier: "list_all (member_file F root (av_policy v) d d') new"
    using new(3) one by (auto simp: list_all_iff intro: member_file_earlier)
  show ?case
  proof (cases "outs = []")
    case True
    with one new le grow earlier show ?thesis by auto
  next
    case False
    then obtain p where p: "outs = [p]" "member_file F root (av_policy v) d d1 p" "av_total_bytes v1 = av_total_bytes v + file_size F d1 p"
      using one by auto
    note later = member_file_later [OF p(2) new(2)]
    have "fs_key F p \<notin> fs_key F ` set new"
    proof safe
      fix q assume "fs_key F p = fs_key F q" "q \<in> set new"
      then have "node_at F d1 p = None" using new(3) same_key_node [of F p q d1] by (auto simp: member_file_def list_all_iff)
      then show False using p(2) by (auto simp: member_file_def)
    qed
    with p new le grow earlier later one show ?thesis by (intro exI [of _ "outs @ new"]) auto
  qed
qed auto

text \<open>The extraction after the destination has its canonical path.\<close>

definition extract_below ::
    "'w fs_env \<Rightarrow> (string \<Rightarrow> string) \<Rightarrow> string + (string + zip_entry) list \<Rightarrow> archive_policy \<Rightarrow> fs_path \<Rightarrow> 'w disk \<Rightarrow>
     (archive_stop + fs_path list) \<times> 'w disk" where
  "extract_below F lower opened policy root d =
     (let (directory, d) = is_dir F root d in
       if \<not> directory then (rejected ''destination is not a directory'', d)
       else
         st_then (map_err (\<lambda>text. ArchiveError (ArchiveRejected text)) opened, d) (\<lambda>archive d.
           if length archive > min (ar_max_files policy * 2) (u64_bound - 1)
           then (rejected ''archive contains too many entries'', d)
           else extract_entries F lower root (archive_validation_new policy) [] archive d))"

lemma is_dir_grows: "is_dir F p d = (b, d') \<Longrightarrow> grows F ds fs d d'"
  by (auto simp: is_dir_def grows_def node_at_draw split: prod.splits)

lemma extract_below_grows: "grows F (member_keys F root) (member_keys F root) d (snd (extract_below F lower opened policy root d))"
proof -
  obtain b d1 where i: "is_dir F root d = (b, d1)" by fastforce
  have "grows F (member_keys F root) (member_keys F root) d1 (snd (extract_below F lower opened policy root d))"
    using i by (auto simp: extract_below_def intro!: grows_st_then extract_entries_grows)
  with is_dir_grows [OF i] show ?thesis by (blast intro: grows_trans)
qed

lemma extract_below_Inr:
  assumes "extract_below F lower opened policy root d = (Inr paths, d')"
  shows "grows F (member_keys F root) (fs_key F ` set paths) d d' \<and> list_all (member_file F root policy d d') paths \<and>
    distinct (map (fs_key F) paths) \<and> length paths \<le> ar_max_files policy \<and>
    sum_list (map (file_size F d') paths) \<le> ar_max_total_bytes policy"
proof -
  obtain b d1 where i: "is_dir F root d = (b, d1)" by fastforce
  obtain archive where a: "\<not> min (ar_max_files policy * 2) (u64_bound - 1) < length archive"
      and e: "extract_entries F lower root (archive_validation_new policy) [] archive d1 = (Inr paths, d')"
    using assms by (auto simp: extract_below_def i res_simps rejected_def split: if_splits)
  have "av_file_count (archive_validation_new policy) + length archive < u64_bound"
    using a by (simp add: archive_validation_new_def u64_bound_def min_def split: if_splits)
  from extract_entries_Inr [OF e this] is_dir_grows [OF i] show ?thesis
    by (auto simp: archive_validation_new_def list_all_iff intro: grows_trans member_file_earlier)
qed

lemma extract_zip_safely_eq:
  "extract_zip_safely F lower canonical opened destination policy d =
     st_then (io_result (create_dir_all F [] destination d)) (\<lambda>_ d.
     st_then (io_result (draw (canonical destination) d)) (\<lambda>root d. extract_below F lower opened policy root d))"
  by (simp add: extract_zip_safely_def extract_below_def)


text \<open>A sample: an empty disk with a root directory, and an archive of one file in a directory.\<close>

definition calm :: "unit fs_env" where
  "calm = \<lparr>name_key = (\<lambda>n. n), fault = (\<lambda>w. (None, w)), temp_tag = (\<lambda>w. ([], w))\<rparr>"

definition blank_disk :: "unit disk" where
  "blank_disk = \<lparr>disk_nodes = (\<lambda>p. if p = [] then Some DirNode else None), disk_world = ()\<rparr>"

definition sample_member :: zip_entry where
  "sample_member = \<lparr>zip_name = ''bin/./a.exe'', zip_is_dir = False, zip_size = 2, zip_mode = Some 0x81A4, zip_data = [1, 2],
     zip_data_ok = True\<rparr>"

lemma sample_names: "validate_windows_component ''bin'' = Inr ()" "validate_windows_component ''a.exe'' = Inr ()"
  by code_simp+

lemma sample_extraction:
  "\<exists>d'. extract_zip_safely calm id (\<lambda>p w. (Inr p, w)) (Inr [Inr sample_member]) [''out''] archive_policy_default blank_disk =
     (Inr [[''out'', ''bin'', ''a.exe'']], d')"
  by (simp add: extract_zip_safely_def create_dir_def draw_def calm_def blank_disk_def node_at_def fs_key_def in_directory_def
      set_node_def is_dir_def io_result_def archive_policy_default_def u64_bound_def extract_one_def entry_path_def sample_member_def
      validate_entry_name_def reject_invalid_name_def components_def parse_prefix_def strip_norm_def norm_sep_def
      is_ascii_alphabetic_def is_ascii_lowercase_def is_ascii_uppercase_def is_sep_def sep_char_def include_cur_dir_def
      body_components_def List.map_filter_def single_component_def sample_names saturating_succ_def reject_duplicate_or_special_def archive_validation_new_def
      is_link_or_special_def enforce_file_quotas_def reject_file_count_def reject_member_size_def reject_total_size_def
      checked_add_u64_def create_file_parent_def reject_existing_link_def symlink_metadata_def write_entry_def
      write_new_file_def sync_file_def Let_def)


end
