(* ===== verification/Package.thy ===== *)
theory Package
  imports Archive
begin

text \<open>
  Verification of a release package, \<open>baselineops-engine/src/package.rs\<close>: the archive is copied, extracted below a
  fresh directory, its manifest is authenticated, and its members are compared with the manifest. The signature
  checks, the JSON decoder, the \<open>zip\<close> reader and the names of temporary files are parameters. The temporary files
  are removed when the verification returns; the disk that the definitions return is the one before that.
\<close>

section \<open>Manifest\<close>

definition manifest_path_text :: string where "manifest_path_text = ''manifest.json''"
definition manifest_signature_path :: string where "manifest_signature_path = ''manifest.json.p7''"

definition required_executables :: "string list" where
  "required_executables = [''bin/baselineops.exe'', ''bin/baselineops-gui.exe'', ''bin/baselineops-worker.exe'']"

record manifest_file =
  mf_path :: string
  mf_size :: u64
  mf_sha256 :: digest

record package_manifest =
  pm_schema :: string
  pm_product :: string
  pm_version :: string
  pm_target :: string
  pm_signer :: string
  pm_files :: "manifest_file list"

record package_verification =
  pv_manifest :: package_manifest
  pv_sha256 :: digest
  pv_files :: usize
  pv_signatures :: usize

datatype package_error =
    PkgIo
  | PkgPlatform archive_stop
  | PkgJson string
  | InvalidManifest string
  | InventoryMismatch string
  | PkgSignature string

definition invalid_manifest_identity :: "package_error + 'a" where
  "invalid_manifest_identity = Inl (InvalidManifest ''manifest identity, target, version, or signer is invalid'')"

definition validate_manifest_identity :: "package_manifest \<Rightarrow> package_error + unit" where
  "validate_manifest_identity m =
     (if pm_schema m \<noteq> ''1.0'' then invalid_manifest_identity
      else if pm_product m \<noteq> ''BaselineOps for Windows'' then invalid_manifest_identity
      else if blank (pm_version m) then invalid_manifest_identity
      else if pm_target m \<noteq> ''x86_64-pc-windows-msvc'' then invalid_manifest_identity
      else if blank (pm_signer m) then invalid_manifest_identity
      else Inr ())"

definition is_safe_manifest_path :: "string \<Rightarrow> bool" where
  "is_safe_manifest_path v \<longleftrightarrow>
     \<not> (v = [] \<or> sep_char \<in> set v \<or> CHR '':'' \<in> set v) \<and> \<not> is_absolute (components v) \<and>
     \<not> list_ex (\<lambda>w. w = [] \<or> w = ''.'' \<or> w = ''..'') (split_on (\<lambda>c. c = CHR ''/'') v) \<and>
     list_all (\<lambda>c. case c of CNormal _ \<Rightarrow> True | _ \<Rightarrow> False) (components v)"

fun validate_manifest_paths :: "manifest_file list \<Rightarrow> string set \<Rightarrow> package_error + unit" where
  "validate_manifest_paths [] seen = Inr ()"
| "validate_manifest_paths (f # fs) seen =
     (if \<not> is_safe_manifest_path (mf_path f) \<or> map to_ascii_lower (mf_path f) \<in> seen
      then Inl (InvalidManifest (''manifest path is unsafe or ambiguous: '' @ mf_path f))
      else validate_manifest_paths fs (insert (map to_ascii_lower (mf_path f)) seen))"

definition validate_required_executables :: "manifest_file list \<Rightarrow> package_error + unit" where
  "validate_required_executables fs =
     for_each (\<lambda>required.
       if \<not> list_ex (\<lambda>f. mf_path f = required) fs
       then Inl (InvalidManifest (''manifest omits required executable: '' @ required)) else Inr ()) required_executables"

definition package_validate_manifest :: "package_manifest \<Rightarrow> package_error + unit" where
  "package_validate_manifest m =
     and_then (validate_manifest_identity m) (\<lambda>_.
     and_then (validate_manifest_paths (pm_files m) {}) (\<lambda>_.
       validate_required_executables (pm_files m)))"

definition validate_manifest_signer :: "package_manifest \<Rightarrow> string \<Rightarrow> package_error + unit" where
  "validate_manifest_signer m expected =
     (if pm_signer m \<noteq> expected then Inl (PkgSignature ''manifest signer differs from the trusted release signer'')
      else Inr ())"

section \<open>Files\<close>

record 'w package_env =
  pk_fs :: "'w fs_env"
  pk_lower :: "string \<Rightarrow> string"
  pk_canonical :: "fs_path \<Rightarrow> 'w \<Rightarrow> (fs_error + fs_path) \<times> 'w"
  pk_temporary :: "'w \<Rightarrow> fs_path \<times> 'w"
  pk_open_zip :: "byte list \<Rightarrow> string + (string + zip_entry) list"
  pk_parse_manifest :: "byte list \<Rightarrow> string + package_manifest"
  pk_verify_detached :: "byte list \<Rightarrow> byte list \<Rightarrow> string \<Rightarrow> package_error + unit"
  pk_verify_signature :: "fs_path \<Rightarrow> string \<Rightarrow> 'w disk \<Rightarrow> package_error + unit"

definition pkg_io :: "(fs_error + 'a) \<times> 'd \<Rightarrow> (package_error + 'a) \<times> 'd" where
  "pkg_io = (\<lambda>(r, d). (map_err (\<lambda>_. PkgIo) r, d))"

definition pkg_platform :: "(archive_stop + 'a) \<times> 'd \<Rightarrow> (package_error + 'a) \<times> 'd" where
  "pkg_platform = (\<lambda>(r, d). (map_err PkgPlatform r, d))"

text \<open>The reads of a file into a buffer of 64 KiB.\<close>

function chunks_of :: "nat \<Rightarrow> 'a list \<Rightarrow> 'a list list" where
  "chunks_of n xs = (if n = 0 \<or> xs = [] then [] else take n xs # chunks_of n (drop n xs))"
  by auto
termination by (relation "measure (\<lambda>(n, xs). length xs)") auto

declare chunks_of.simps [simp del]

definition hash_file :: "'h ext \<Rightarrow> 'w fs_env \<Rightarrow> fs_path \<Rightarrow> 'w disk \<Rightarrow> (package_error + digest) \<times> 'w disk" where
  "hash_file E F p d =
     st_then (pkg_io (read_file F p d)) (\<lambda>bytes d.
       (Inr (h_finalize E (foldl (h_update E) (h_default E) (chunks_of (64 * 1024) bytes))), d))"

definition metadata_len :: "'w fs_env \<Rightarrow> fs_path \<Rightarrow> 'w disk \<Rightarrow> (fs_error + u64) \<times> 'w disk" where
  "metadata_len F p d =
     (let (k, d) = draw (fault F) d in
      if k \<noteq> None then (Inl FsOther, d)
      else case node_at F d p of
          Some (FileNode bytes) \<Rightarrow> (Inr (length bytes), d)
        | Some DirNode \<Rightarrow> (Inr 0, d)
        | _ \<Rightarrow> (Inl FsNotFound, d))"

definition snapshot_package :: "'w package_env \<Rightarrow> fs_path \<Rightarrow> 'w disk \<Rightarrow> (package_error + fs_path) \<times> 'w disk" where
  "snapshot_package V package d =
     st_then (pkg_io (read_file (pk_fs V) package d)) (\<lambda>bytes d.
       let (snapshot, d) = draw (pk_temporary V) d in
       st_then (pkg_io (write_new_file (pk_fs V) snapshot bytes d)) (\<lambda>_ d. (Inr snapshot, d)))"

section \<open>Inventory\<close>

type_synonym inventory = "(string \<times> fs_path \<times> u64) list"

text \<open>\<open>to_string_lossy\<close> with forward slashes.\<close>

definition member_text :: "string list \<Rightarrow> string" where
  "member_text ns = map (\<lambda>c. if c = sep_char then CHR ''/'' else c) (path_text ns)"

definition extracted_member ::
    "'w fs_env \<Rightarrow> fs_path \<Rightarrow> fs_path \<Rightarrow> 'w disk \<Rightarrow> (package_error + (string \<times> fs_path \<times> u64)) \<times> 'w disk" where
  "extracted_member F root p d =
     (if take (length root) p \<noteq> root then (Inl (InvalidManifest ''extracted path escaped package root''), d)
      else st_then (pkg_io (metadata_len F p d)) (\<lambda>n d. (Inr (member_text (drop (length root) p), p, n), d)))"

fun extracted_inventory ::
    "'w fs_env \<Rightarrow> fs_path \<Rightarrow> fs_path list \<Rightarrow> inventory \<Rightarrow> 'w disk \<Rightarrow> (package_error + inventory) \<times> 'w disk" where
  "extracted_inventory F root [] actual d = (Inr actual, d)"
| "extracted_inventory F root (p # ps) actual d =
     st_then (extracted_member F root p d) (\<lambda>(name, entry) d.
       extracted_inventory F root ps (bt_insert name entry actual) d)"

definition require_unique_special_member :: "inventory \<Rightarrow> string \<Rightarrow> package_error + fs_path" where
  "require_unique_special_member actual member =
     map_sum id fst (ok_or (PkgSignature (''package is missing required '' @ member)) (map_of actual member))"

definition signed_manifest_bytes ::
    "'w fs_env \<Rightarrow> inventory \<Rightarrow> 'w disk \<Rightarrow> (package_error + (byte list \<times> byte list)) \<times> 'w disk" where
  "signed_manifest_bytes F actual d =
     st_then (require_unique_special_member actual manifest_path_text, d) (\<lambda>p d.
     st_then (pkg_io (read_file F p d)) (\<lambda>manifest d.
     st_then (require_unique_special_member actual manifest_signature_path, d) (\<lambda>q d.
     st_then (pkg_io (read_file F q d)) (\<lambda>signature d. (Inr (manifest, signature), d)))))"

definition parse_authenticated_manifest ::
    "'w package_env \<Rightarrow> byte list \<Rightarrow> string \<Rightarrow> package_error + package_manifest" where
  "parse_authenticated_manifest V bytes expected =
     and_then (map_err PkgJson (pk_parse_manifest V bytes)) (\<lambda>m.
     and_then (package_validate_manifest m) (\<lambda>_.
     and_then (validate_manifest_signer m expected) (\<lambda>_. Inr m)))"

definition authenticated_manifest ::
    "'w package_env \<Rightarrow> inventory \<Rightarrow> string \<Rightarrow> 'w disk \<Rightarrow> (package_error + package_manifest) \<times> 'w disk" where
  "authenticated_manifest V actual signer d =
     st_then (signed_manifest_bytes (pk_fs V) actual d) (\<lambda>(manifest_bytes, signature_bytes) d.
     st_then (pk_verify_detached V manifest_bytes signature_bytes signer, d) (\<lambda>_ d.
       (parse_authenticated_manifest V manifest_bytes signer, d)))"

definition verify_inventory_count :: "inventory \<Rightarrow> package_manifest \<Rightarrow> package_error + unit" where
  "verify_inventory_count actual m =
     (if length actual \<noteq> length (pm_files m)
      then Inl (InventoryMismatch (''manifest lists '' @ nat_text (length (pm_files m)) @ '' files but package contains '' @
        nat_text (length actual)))
      else Inr ())"

definition verify_inventory_file ::
    "'h ext \<Rightarrow> 'w fs_env \<Rightarrow> inventory \<Rightarrow> manifest_file \<Rightarrow> 'w disk \<Rightarrow> (package_error + unit) \<times> 'w disk" where
  "verify_inventory_file E F actual expected d =
     st_then (ok_or (InventoryMismatch (''manifest file is absent: '' @ mf_path expected))
         (map_of actual (mf_path expected)), d) (\<lambda>(p, n) d.
       if n \<noteq> mf_size expected then (Inl (InventoryMismatch (''size or digest mismatch: '' @ mf_path expected)), d)
       else st_then (hash_file E F p d) (\<lambda>h d.
         (if h \<noteq> mf_sha256 expected then Inl (InventoryMismatch (''size or digest mismatch: '' @ mf_path expected))
          else Inr (), d)))"

fun st_each :: "('a \<Rightarrow> 's \<Rightarrow> ('e + unit) \<times> 's) \<Rightarrow> 'a list \<Rightarrow> 's \<Rightarrow> ('e + unit) \<times> 's" where
  "st_each f [] s = (Inr (), s)"
| "st_each f (x # xs) s = st_then (f x s) (\<lambda>_ s. st_each f xs s)"

definition verify_inventory ::
    "'h ext \<Rightarrow> 'w fs_env \<Rightarrow> package_manifest \<Rightarrow> inventory \<Rightarrow> 'w disk \<Rightarrow> (package_error + inventory) \<times> 'w disk" where
  "verify_inventory E F m actual d =
     (let actual = filter (\<lambda>(name, _). name \<noteq> manifest_path_text) actual;
          actual = filter (\<lambda>(name, _). name \<noteq> manifest_signature_path) actual in
      st_then (verify_inventory_count actual m, d) (\<lambda>_ d.
      st_then (st_each (verify_inventory_file E F actual) (pm_files m) d) (\<lambda>_ d. (Inr actual, d))))"

definition verify_executable ::
    "'w package_env \<Rightarrow> inventory \<Rightarrow> string \<Rightarrow> string \<Rightarrow> 'w disk \<Rightarrow> (package_error + unit) \<times> 'w disk" where
  "verify_executable V actual signer executable d =
     st_then (ok_or (InventoryMismatch (''required executable is absent: '' @ executable)) (map_of actual executable), d)
       (\<lambda>(p, _) d. (pk_verify_signature V p signer d, d))"

definition verify_required_signatures ::
    "'w package_env \<Rightarrow> inventory \<Rightarrow> string \<Rightarrow> 'w disk \<Rightarrow> (package_error + unit) \<times> 'w disk" where
  "verify_required_signatures V actual signer d = st_each (verify_executable V actual signer) required_executables d"

section \<open>Verification\<close>

definition with_package_inventory ::
    "'w package_env \<Rightarrow> fs_path \<Rightarrow> (inventory \<Rightarrow> 'w disk \<Rightarrow> (package_error + 'a) \<times> 'w disk) \<Rightarrow> 'w disk \<Rightarrow>
     (package_error + 'a) \<times> 'w disk" where
  "with_package_inventory V package verify d =
     (let F = pk_fs V; (extraction, d) = draw (pk_temporary V) d in
      st_then (pkg_io (create_dir F extraction d)) (\<lambda>_ d.
      st_then (pkg_io (draw (pk_canonical V extraction) d)) (\<lambda>root d.
      st_then (pkg_io (read_file F package d)) (\<lambda>bytes d.
      st_then (pkg_platform (extract_zip_safely F (pk_lower V) (pk_canonical V) (pk_open_zip V bytes) root
          archive_policy_default d)) (\<lambda>extracted d.
      st_then (extracted_inventory F root extracted [] d) (\<lambda>actual d. verify actual d))))))"

definition verify_payload ::
    "'h ext \<Rightarrow> 'w package_env \<Rightarrow> fs_path \<Rightarrow> string \<Rightarrow> 'w disk \<Rightarrow> (package_error + package_manifest) \<times> 'w disk" where
  "verify_payload E V package signer =
     with_package_inventory V package (\<lambda>actual d.
       st_then (authenticated_manifest V actual signer d) (\<lambda>m d.
       st_then (verify_inventory E (pk_fs V) m actual d) (\<lambda>actual d.
       st_then (verify_required_signatures V actual signer d) (\<lambda>_ d. (Inr m, d)))))"

definition verify_package ::
    "'h ext \<Rightarrow> 'w package_env \<Rightarrow> fs_path \<Rightarrow> string \<Rightarrow> 'w disk \<Rightarrow> (package_error + package_verification) \<times> 'w disk" where
  "verify_package E V package signer d =
     (if blank signer then (Inl (PkgSignature ''an external release signer subject is required''), d)
      else
        st_then (snapshot_package V package d) (\<lambda>snapshot d.
        st_then (hash_file E (pk_fs V) snapshot d) (\<lambda>sha d.
        st_then (verify_payload E V snapshot signer d) (\<lambda>m d.
          (Inr \<lparr>pv_manifest = m, pv_sha256 = sha, pv_files = length (pm_files m),
             pv_signatures = length required_executables\<rparr>, d)))))"

section \<open>Reading changes nothing\<close>

definition same_nodes :: "'w fs_env \<Rightarrow> 'w disk \<Rightarrow> 'w disk \<Rightarrow> bool" where
  "same_nodes F d d' \<longleftrightarrow> (\<forall>q. node_at F d' q = node_at F d q)"

lemma same_nodes_refl [simp]: "same_nodes F d d"
  by (simp add: same_nodes_def)

lemma same_nodes_trans: "same_nodes F d d' \<Longrightarrow> same_nodes F d' d'' \<Longrightarrow> same_nodes F d d''"
  by (simp add: same_nodes_def)

lemma same_nodes_st_then:
  assumes "same_nodes F d (snd r)" "\<And>a d1. r = (Inr a, d1) \<Longrightarrow> same_nodes F d1 (snd (f a d1))"
  shows "same_nodes F d (snd (st_then r f))"
proof (cases r)
  case (Pair x d1)
  with assms show ?thesis by (cases x) (auto intro: same_nodes_trans)
qed

lemma same_nodes_st_each: "(\<And>x d. same_nodes F d (snd (f x d))) \<Longrightarrow> same_nodes F d (snd (st_each f xs d))"
  by (induction xs arbitrary: d) (auto intro: same_nodes_st_then)

lemma snd_pkg_io [simp]: "snd (pkg_io r) = snd r"
  by (simp add: pkg_io_def case_prod_beta)

lemma pkg_io_Inr [simp]: "pkg_io r = (Inr a, d) \<longleftrightarrow> r = (Inr a, d)"
  by (cases r) (auto simp: pkg_io_def)

lemma pkg_platform_Inr [simp]: "pkg_platform r = (Inr a, d) \<longleftrightarrow> r = (Inr a, d)"
  by (cases r) (auto simp: pkg_platform_def)

lemma reads_same_nodes [simp]:
  "same_nodes F d (snd (read_file F p d))" "same_nodes F d (snd (metadata_len F p d))"
  by (auto simp: read_file_def metadata_len_def same_nodes_def node_at_draw split: prod.splits option.splits fs_node.splits)

lemma draw_same_nodes [simp]: "same_nodes F d (snd (draw f d))"
  by (cases "draw f d") (simp add: same_nodes_def)

lemma hash_file_same [simp]: "same_nodes F d (snd (hash_file E F p d))"
  unfolding hash_file_def by (rule same_nodes_st_then) simp_all

lemma extracted_inventory_same: "same_nodes F d (snd (extracted_inventory F root ps actual d))"
proof (induction ps arbitrary: actual d)
  case (Cons p ps)
  have "same_nodes F d (snd (extracted_member F root p d))"
    by (auto simp: extracted_member_def intro!: same_nodes_st_then)
  with Cons show ?case by (auto intro!: same_nodes_st_then)
qed simp

lemma authenticated_manifest_same: "same_nodes (pk_fs V) d (snd (authenticated_manifest V actual signer d))"
  unfolding authenticated_manifest_def signed_manifest_bytes_def
  by (auto intro!: same_nodes_st_then)

lemma verify_inventory_same: "same_nodes F d (snd (verify_inventory E F m actual d))"
  unfolding verify_inventory_def Let_def verify_inventory_file_def
  by (auto intro!: same_nodes_st_then same_nodes_st_each)

lemma verify_executable_same: "same_nodes F d (snd (verify_executable V actual signer x d))"
  unfolding verify_executable_def by (auto intro!: same_nodes_st_then)

lemma verify_required_signatures_same: "same_nodes (pk_fs V) d (snd (verify_required_signatures V actual signer d))"
  unfolding verify_required_signatures_def by (intro same_nodes_st_each verify_executable_same)

lemma chunks_of_concat: "0 < n \<Longrightarrow> concat (chunks_of n xs) = xs"
  by (induction n xs rule: chunks_of.induct) (subst chunks_of.simps, simp)

lemma read_file_Inr: "read_file F p d = (Inr b, d') \<Longrightarrow> node_at F d p = Some (FileNode b) \<and> same_nodes F d d'"
  by (auto simp: read_file_def same_nodes_def node_at_draw split: prod.splits if_splits option.splits fs_node.splits)

lemma hash_file_Inr:
  assumes "hasher_contract E" "hash_file E F p d = (Inr h, d')"
  shows "\<exists>b. node_at F d p = Some (FileNode b) \<and> h = of_bytes E b"
proof -
  obtain b where b: "read_file F p d = (Inr b, d')"
      "h = h_finalize E (foldl (h_update E) (h_default E) (chunks_of (64 * 1024) b))"
    using assms(2) by (auto simp: hash_file_def res_simps)
  have "h = of_bytes E b"
    using assms(1) chunks_of_concat [of "64 * 1024" b] unfolding b(2) hasher_contract_def of_bytes_def by simp
  with read_file_Inr [OF b(1)] show ?thesis by blast
qed

section \<open>What a verified inventory is\<close>

text \<open>Each entry of an inventory is an extracted path under its relative name, with the size of its file.\<close>

definition inventory_of :: "'w fs_env \<Rightarrow> 'w disk \<Rightarrow> fs_path \<Rightarrow> fs_path list \<Rightarrow> inventory \<Rightarrow> bool" where
  "inventory_of F d root paths actual \<longleftrightarrow> map_entries_ok actual \<and>
     fst ` set actual = (\<lambda>p. member_text (drop (length root) p)) ` set paths \<and>
     (\<forall>p\<in>set paths. take (length root) p = root) \<and>
     (\<forall>name p n. map_of actual name = Some (p, n) \<longrightarrow> p \<in> set paths \<and>
        name = member_text (drop (length root) p) \<and>
        (\<forall>b. node_at F d p = Some (FileNode b) \<longrightarrow> n = length b))"

lemma extracted_inventory_of:
  assumes "extracted_inventory F root ps actual d = (Inr actual', d')" "inventory_of F d root before actual"
  shows "inventory_of F d' root (before @ ps) actual'"
  using assms
proof (induction ps arbitrary: before actual d)
  case (Cons p ps)
  obtain d1 n where p: "take (length root) p = root" "metadata_len F p d = (Inr n, d1)"
      and r: "extracted_inventory F root ps (bt_insert (member_text (drop (length root) p)) (p, n) actual) d1 = (Inr actual', d')"
    using Cons.prems(1) by (auto simp: extracted_member_def res_simps split: if_splits)
  have same: "node_at F d1 q = node_at F d q" for q
    using reads_same_nodes(2) [of F d p] p(2) by (simp add: same_nodes_def)
  have n: "node_at F d p = Some (FileNode b) \<Longrightarrow> n = length b" for b
    using p(2) by (auto simp: metadata_len_def node_at_draw split: prod.splits if_splits)
  have "inventory_of F d1 root (before @ [p]) (bt_insert (member_text (drop (length root) p)) (p, n) actual)"
    using Cons.prems(2) p(1) n set_bt_insert [of actual "member_text (drop (length root) p)" "(p, n)"]
    by (auto simp: inventory_of_def same map_of_bt_insert map_entries_ok_insert split: if_splits)
  from Cons.IH [OF r this] show ?case by simp
qed simp

lemma validate_manifest_paths_Inr:
  "validate_manifest_paths fs seen = Inr () \<Longrightarrow> distinct (map mf_path fs) \<and> (\<forall>f\<in>set fs. map to_ascii_lower (mf_path f) \<notin> seen)"
  by (induction fs seen rule: validate_manifest_paths.induct) (force split: if_splits)+

lemma st_each_Inr:
  assumes "st_each f xs s = (Inr u, t)" "x \<in> set xs" "\<And>x s. same_nodes F s (snd (f x s))"
  shows "\<exists>s1 s2. f x s1 = (Inr (), s2) \<and> same_nodes F s s1"
  using assms(1,2)
proof (induction xs arbitrary: s)
  case (Cons y ys)
  obtain s1 where y: "f y s = (Inr (), s1)" "st_each f ys s1 = (Inr u, t)" using Cons.prems(1) by (auto simp: res_simps)
  have "same_nodes F s s1" using assms(3) [of s y] y(1) by simp
  show ?case
  proof (cases "x = y")
    case True
    with y show ?thesis by (metis same_nodes_refl)
  next
    case False
    with Cons.prems(2) Cons.IH [OF y(2)] \<open>same_nodes F s s1\<close> show ?thesis by (auto intro: same_nodes_trans)
  qed
qed simp

lemma verify_inventory_file_Inr:
  assumes "hasher_contract E" "verify_inventory_file E F actual f d = (Inr u, d')" "inventory_of F d root paths whole"
    and "\<And>name e. map_of actual name = Some e \<Longrightarrow> map_of whole name = Some e"
  shows "\<exists>p n b. map_of actual (mf_path f) = Some (p, n) \<and> p \<in> set paths \<and> take (length root) p = root \<and>
    mf_path f = member_text (drop (length root) p) \<and> node_at F d p = Some (FileNode b) \<and> length b = mf_size f \<and>
    of_bytes E b = mf_sha256 f"
proof -
  obtain p where p: "map_of actual (mf_path f) = Some (p, mf_size f)" "hash_file E F p d = (Inr (mf_sha256 f), d')"
    using assms(2) by (auto simp: verify_inventory_file_def res_simps split: if_splits)
  obtain b where "node_at F d p = Some (FileNode b)" "mf_sha256 f = of_bytes E b" using hash_file_Inr [OF assms(1) p(2)] by blast
  with p assms(3) assms(4) [OF p(1)] show ?thesis unfolding inventory_of_def by fastforce
qed

lemma verify_inventory_Inr:
  assumes "hasher_contract E" "verify_inventory E F m actual d = (Inr rest, d')" "inventory_of F d root paths actual"
    and "validate_manifest_paths (pm_files m) {} = Inr ()"
  shows "fst ` set rest = mf_path ` set (pm_files m)"
    and "fst ` set actual \<subseteq> {manifest_path_text, manifest_signature_path} \<union> mf_path ` set (pm_files m)"
    and "\<forall>f\<in>set (pm_files m). \<exists>p b. p \<in> set paths \<and> take (length root) p = root \<and> mf_path f = member_text (drop (length root) p) \<and>
      node_at F d p = Some (FileNode b) \<and> length b = mf_size f \<and> of_bytes E b = mf_sha256 f"
    and "\<And>name e. map_of rest name = Some e \<Longrightarrow> map_of actual name = Some e"
proof -
  have rest: "rest = filter (\<lambda>(name, _). name \<noteq> manifest_signature_path) (filter (\<lambda>(name, _). name \<noteq> manifest_path_text) actual)"
      and len: "length rest = length (pm_files m)" and each: "st_each (verify_inventory_file E F rest) (pm_files m) d = (Inr (), d')"
    using assms(2) by (auto simp: verify_inventory_def verify_inventory_count_def Let_def res_simps split: if_splits)
  have dist: "distinct (map fst actual)" using assms(3) by (simp add: inventory_of_def map_entries_ok_distinct)
  then have dist': "distinct (map fst rest)" by (simp add: rest distinct_map_filter)
  show part: "map_of actual name = Some e" if "map_of rest name = Some e" for name e
    using that dist dist' by (auto simp: rest)
  have same: "same_nodes F s (snd (verify_inventory_file E F rest x s))" for x s
    unfolding verify_inventory_file_def by (auto intro!: same_nodes_st_then)
  have listed: "\<exists>p n b. map_of rest (mf_path f) = Some (p, n) \<and> p \<in> set paths \<and> take (length root) p = root \<and>
      mf_path f = member_text (drop (length root) p) \<and> node_at F d p = Some (FileNode b) \<and> length b = mf_size f \<and>
      of_bytes E b = mf_sha256 f" if f: "f \<in> set (pm_files m)" for f
  proof -
    obtain s1 s2 where s: "verify_inventory_file E F rest f s1 = (Inr (), s2)" "same_nodes F d s1"
      using st_each_Inr [OF each f same] by blast
    have "inventory_of F s1 root paths actual" using assms(3) s(2) by (simp add: inventory_of_def same_nodes_def)
    from verify_inventory_file_Inr [OF assms(1) s(1) this part] s(2) show ?thesis by (simp add: same_nodes_def)
  qed
  then show "\<forall>f\<in>set (pm_files m). \<exists>p b. p \<in> set paths \<and> take (length root) p = root \<and> mf_path f = member_text (drop (length root) p) \<and>
      node_at F d p = Some (FileNode b) \<and> length b = mf_size f \<and> of_bytes E b = mf_sha256 f"
    by blast
  have "mf_path ` set (pm_files m) \<subseteq> fst ` set rest" using listed by (force dest: map_of_SomeD)
  moreover have "card (mf_path ` set (pm_files m)) = card (fst ` set rest)"
    using validate_manifest_paths_Inr [OF assms(4)] dist' len distinct_card [of "map mf_path (pm_files m)"] distinct_card [of "map fst rest"]
    by simp
  ultimately show names: "fst ` set rest = mf_path ` set (pm_files m)" by (intro card_subset_eq [symmetric]) auto
  show "fst ` set actual \<subseteq> {manifest_path_text, manifest_signature_path} \<union> mf_path ` set (pm_files m)"
    unfolding names [symmetric] by (auto simp: rest image_iff)
qed

section \<open>A verified package\<close>

definition package_holds :: "'w fs_env \<Rightarrow> 'w disk \<Rightarrow> fs_path \<Rightarrow> string \<Rightarrow> byte list \<Rightarrow> bool" where
  "package_holds F d root name b \<longleftrightarrow> (\<exists>ns. member_text ns = name \<and> node_at F d (root @ ns) = Some (FileNode b))"

lemma package_holdsI:
  "take (length root) p = root \<Longrightarrow> node_at F d p = Some (FileNode b) \<Longrightarrow> package_holds F d root (member_text (drop (length root) p)) b"
  unfolding package_holds_def by (metis append_take_drop_id)

lemma require_member_Inr:
  "require_unique_special_member actual member = Inr p \<longleftrightarrow> (\<exists>n. map_of actual member = Some (p, n))"
  by (cases "map_of actual member") (auto simp: require_unique_special_member_def ok_or_def)

lemma authenticated_manifest_Inr:
  assumes "authenticated_manifest V actual signer d = (Inr m, d')" "inventory_of (pk_fs V) d root paths actual"
  shows "\<exists>mb sb. package_holds (pk_fs V) d root manifest_path_text mb \<and> package_holds (pk_fs V) d root manifest_signature_path sb \<and>
    pk_verify_detached V mb sb signer = Inr () \<and> pk_parse_manifest V mb = Inr m \<and> package_validate_manifest m = Inr () \<and>
    pm_signer m = signer"
proof -
  let ?F = "pk_fs V"
  obtain p q mb sb n1 n2 d1 d2 where r: "map_of actual manifest_path_text = Some (p, n1)" "read_file ?F p d = (Inr mb, d1)"
      "map_of actual manifest_signature_path = Some (q, n2)" "read_file ?F q d1 = (Inr sb, d2)"
      and ok: "pk_verify_detached V mb sb signer = Inr ()" "pk_parse_manifest V mb = Inr m" "package_validate_manifest m = Inr ()"
        "pm_signer m = signer"
    using assms(1) by (auto simp: authenticated_manifest_def signed_manifest_bytes_def parse_authenticated_manifest_def
        validate_manifest_signer_def require_member_Inr res_simps split: if_splits)
  have nodes: "node_at ?F d p = Some (FileNode mb)" "node_at ?F d q = Some (FileNode sb)"
    using read_file_Inr [OF r(2)] read_file_Inr [OF r(4)] by (simp_all add: same_nodes_def)
  have "take (length root) p = root" "member_text (drop (length root) p) = manifest_path_text"
      "take (length root) q = root" "member_text (drop (length root) q) = manifest_signature_path"
    using assms(2) r(1,3) by (auto simp: inventory_of_def)
  with package_holdsI [OF _ nodes(1)] package_holdsI [OF _ nodes(2)] ok show ?thesis by metis
qed

lemma snapshot_package_Inr:
  assumes "snapshot_package V package d = (Inr snapshot, d')"
  shows "\<exists>b. node_at (pk_fs V) d package = Some (FileNode b) \<and> node_at (pk_fs V) d' snapshot = Some (FileNode b) \<and>
    grows (pk_fs V) {} {fs_key (pk_fs V) snapshot} d d'"
proof -
  let ?F = "pk_fs V"
  obtain b f1 where b: "read_file ?F package d = (Inr b, f1)"
      "write_new_file ?F snapshot b (snd (draw (pk_temporary V) f1)) = (Inr (), d')"
    using assms by (auto simp: snapshot_package_def res_simps case_prod_beta)
  have "same_nodes ?F f1 (snd (draw (pk_temporary V) f1))" by simp
  then have "grows ?F {} {fs_key ?F snapshot} d d'"
    using write_new_file_grows [of ?F "{}" snapshot "snd (draw (pk_temporary V) f1)" b] b(2) read_file_Inr [OF b(1)]
    by (simp add: grows_def same_nodes_def)
  with read_file_Inr [OF b(1)] write_new_file_Inr [OF b(2)] show ?thesis by blast
qed

lemma with_package_inventory_Inr:
  assumes "with_package_inventory V package verify d = (Inr x, d')"
  obtains extraction root bytes paths actual d1 d2 d3 where
    "grows (pk_fs V) {fs_key (pk_fs V) extraction} {} d d1"
    "node_at (pk_fs V) d1 package = Some (FileNode bytes)"
    "extract_zip_safely (pk_fs V) (pk_lower V) (pk_canonical V) (pk_open_zip V bytes) root archive_policy_default d1 = (Inr paths, d2)"
    "inventory_of (pk_fs V) d3 root paths actual" "same_nodes (pk_fs V) d2 d3" "verify actual d3 = (Inr x, d')"
proof -
  let ?F = "pk_fs V"
  obtain extraction e0 where t: "draw (pk_temporary V) d = (extraction, e0)" by fastforce
  obtain e1 e2 e3 e4 e5 root bytes paths actual where c: "create_dir ?F extraction e0 = (Inr (), e1)"
      and y: "draw (pk_canonical V extraction) e1 = (Inr root, e2)" and b: "read_file ?F package e2 = (Inr bytes, e3)"
      and e: "extract_zip_safely ?F (pk_lower V) (pk_canonical V) (pk_open_zip V bytes) root archive_policy_default e3 = (Inr paths, e4)"
      and i: "extracted_inventory ?F root paths [] e4 = (Inr actual, e5)" and v: "verify actual e5 = (Inr x, d')"
    using assms t by (auto simp: with_package_inventory_def Let_def res_simps split: prod.splits)
  have n: "same_nodes ?F d e0" "same_nodes ?F e1 e2" "same_nodes ?F e2 e3" "same_nodes ?F e4 e5"
    using draw_same_nodes [of ?F d "pk_temporary V"] t draw_same_nodes [of ?F e1 "pk_canonical V extraction"] y
      read_file_Inr [OF b] extracted_inventory_same [of ?F e4 root paths "[]"] i by simp_all
  have "grows ?F {fs_key ?F extraction} {} d e3"
    using create_dir_grows [of ?F extraction "{}" e0] c n by (simp add: grows_def same_nodes_def)
  moreover have "node_at ?F e3 package = Some (FileNode bytes)" using read_file_Inr [OF b] by (simp add: same_nodes_def)
  moreover have "inventory_of ?F e4 root [] []" by (simp add: inventory_of_def)
  from extracted_inventory_of [OF i this] have "inventory_of ?F e5 root paths actual" by simp
  ultimately show thesis using that e n(4) v by blast
qed


text \<open>A sample: a package of the manifest, its signature and the three executables.\<close>

definition steady :: "nat fs_env" where
  "steady = \<lparr>name_key = (\<lambda>n. n), fault = (\<lambda>w. (None, w)), temp_tag = (\<lambda>w. ([], w))\<rparr>"

definition stored :: "string \<Rightarrow> byte list \<Rightarrow> string + zip_entry" where
  "stored name b = Inr \<lparr>zip_name = name, zip_is_dir = False, zip_size = length b, zip_mode = None, zip_data = b, zip_data_ok = True\<rparr>"

definition sample_members :: "(string + zip_entry) list" where
  "sample_members = [stored ''manifest.json'' [7], stored ''manifest.json.p7'' [8], stored ''bin/baselineops.exe'' [1],
     stored ''bin/baselineops-gui.exe'' [2], stored ''bin/baselineops-worker.exe'' [3]]"

definition listed_file :: "string \<Rightarrow> byte list \<Rightarrow> manifest_file" where
  "listed_file name b = \<lparr>mf_path = name, mf_size = length b, mf_sha256 = of_bytes id_ext b\<rparr>"

definition sample_manifest :: package_manifest where
  "sample_manifest = \<lparr>pm_schema = ''1.0'', pm_product = ''BaselineOps for Windows'', pm_version = ''1'',
     pm_target = ''x86_64-pc-windows-msvc'', pm_signer = ''Signer'',
     pm_files = [listed_file ''bin/baselineops.exe'' [1], listed_file ''bin/baselineops-gui.exe'' [2],
       listed_file ''bin/baselineops-worker.exe'' [3]]\<rparr>"

definition sample_package_env :: "nat package_env" where
  "sample_package_env = \<lparr>pk_fs = steady, pk_lower = id, pk_canonical = (\<lambda>p w. (Inr p, w)),
     pk_temporary = (\<lambda>w. ([if w = 0 then ''s'' else ''x''], w + 1)), pk_open_zip = (\<lambda>_. Inr sample_members),
     pk_parse_manifest = (\<lambda>_. Inr sample_manifest), pk_verify_detached = (\<lambda>_ _ _. Inr ()),
     pk_verify_signature = (\<lambda>_ _ _. Inr ())\<rparr>"

definition release_disk :: "nat disk" where
  "release_disk = \<lparr>disk_nodes = [[] \<mapsto> DirNode, [''release.zip''] \<mapsto> FileNode [9]], disk_world = 0\<rparr>"

lemma sample_components:
  "validate_entry_name ''manifest.json'' 16 = Inr [''manifest.json'']"
  "validate_entry_name ''manifest.json.p7'' 16 = Inr [''manifest.json.p7'']"
  "validate_entry_name ''bin/baselineops.exe'' 16 = Inr [''bin'', ''baselineops.exe'']"
  "validate_entry_name ''bin/baselineops-gui.exe'' 16 = Inr [''bin'', ''baselineops-gui.exe'']"
  "validate_entry_name ''bin/baselineops-worker.exe'' 16 = Inr [''bin'', ''baselineops-worker.exe'']"
proof -
  have c: "components ''manifest.json'' = [CNormal ''manifest.json'']" "components ''manifest.json.p7'' = [CNormal ''manifest.json.p7'']"
      "components ''bin/baselineops.exe'' = [CNormal ''bin'', CNormal ''baselineops.exe'']"
      "components ''bin/baselineops-gui.exe'' = [CNormal ''bin'', CNormal ''baselineops-gui.exe'']"
      "components ''bin/baselineops-worker.exe'' = [CNormal ''bin'', CNormal ''baselineops-worker.exe'']"
    by code_simp+
  have v: "validate_windows_component ''manifest.json'' = Inr ()" "validate_windows_component ''manifest.json.p7'' = Inr ()"
      "validate_windows_component ''bin'' = Inr ()" "validate_windows_component ''baselineops.exe'' = Inr ()"
      "validate_windows_component ''baselineops-gui.exe'' = Inr ()" "validate_windows_component ''baselineops-worker.exe'' = Inr ()"
    by code_simp+
  show "validate_entry_name ''manifest.json'' 16 = Inr [''manifest.json'']"
    "validate_entry_name ''manifest.json.p7'' 16 = Inr [''manifest.json.p7'']"
    "validate_entry_name ''bin/baselineops.exe'' 16 = Inr [''bin'', ''baselineops.exe'']"
    "validate_entry_name ''bin/baselineops-gui.exe'' 16 = Inr [''bin'', ''baselineops-gui.exe'']"
    "validate_entry_name ''bin/baselineops-worker.exe'' 16 = Inr [''bin'', ''baselineops-worker.exe'']"
    by (simp_all add: validate_entry_name_def reject_invalid_name_def c v saturating_succ_def u64_bound_def)
qed

lemma sample_manifest_valid: "package_validate_manifest sample_manifest = Inr ()"
  unfolding package_validate_manifest_def validate_manifest_identity_def sample_manifest_def listed_file_def
  by code_simp

definition extracted_disk :: "nat disk" where
  "extracted_disk = \<lparr>disk_nodes = [[] \<mapsto> DirNode,
     [''release.zip''] \<mapsto> FileNode [9], [''s''] \<mapsto> FileNode [9], [''x''] \<mapsto> DirNode,
     [''x'', ''manifest.json''] \<mapsto> FileNode [7], [''x'', ''manifest.json.p7''] \<mapsto> FileNode [8], [''x'', ''bin''] \<mapsto> DirNode,
     [''x'', ''bin'', ''baselineops.exe''] \<mapsto> FileNode [1], [''x'', ''bin'', ''baselineops-gui.exe''] \<mapsto> FileNode [2],
     [''x'', ''bin'', ''baselineops-worker.exe''] \<mapsto> FileNode [3]], disk_world = 2\<rparr>"

lemmas fs_eval = draw_def steady_def node_at_def fs_key_def in_directory_def set_node_def is_dir_def io_result_def
  create_dir_def symlink_metadata_def write_new_file_def sync_file_def read_file_def

lemma sample_package_extraction:
  "extract_zip_safely steady id (\<lambda>p w. (Inr p, w)) (Inr sample_members) [''x''] archive_policy_default
     \<lparr>disk_nodes = [[] \<mapsto> DirNode, [''release.zip''] \<mapsto> FileNode [9], [''s''] \<mapsto> FileNode [9], [''x''] \<mapsto> DirNode], disk_world = 2\<rparr> =
   (Inr [[''x'', ''manifest.json''], [''x'', ''manifest.json.p7''], [''x'', ''bin'', ''baselineops.exe''],
      [''x'', ''bin'', ''baselineops-gui.exe''], [''x'', ''bin'', ''baselineops-worker.exe'']], extracted_disk)"
  by (simp add: extract_zip_safely_def fs_eval archive_policy_default_def u64_bound_def extract_one_def entry_path_def
      sample_members_def stored_def sample_components reject_duplicate_or_special_def archive_validation_new_def saturating_succ_def sep_char_def
      is_link_or_special_def enforce_file_quotas_def reject_file_count_def reject_member_size_def reject_total_size_def
      checked_add_u64_def create_file_parent_def reject_existing_link_def write_entry_def Let_def extracted_disk_def)

lemma sample_verified:
  "verify_package id_ext sample_package_env [''release.zip''] ''Signer'' release_disk =
     (Inr \<lparr>pv_manifest = sample_manifest, pv_sha256 = [9], pv_files = 3, pv_signatures = 3\<rparr>, extracted_disk)"
proof -
  have chunk: "chunks_of 65536 [b] = [[b]]" for b :: byte by (subst chunks_of.simps, subst chunks_of.simps) simp
  have files: "pm_files sample_manifest = [listed_file ''bin/baselineops.exe'' [1], listed_file ''bin/baselineops-gui.exe'' [2],
      listed_file ''bin/baselineops-worker.exe'' [3]]" "pm_signer sample_manifest = ''Signer''"
    by (simp_all add: sample_manifest_def)
  have env: "pk_fs sample_package_env = steady" "pk_lower sample_package_env = id"
      "pk_canonical sample_package_env = (\<lambda>p w. (Inr p, w))" "pk_open_zip sample_package_env b = Inr sample_members"
      "pk_temporary sample_package_env = (\<lambda>w. ([if w = 0 then ''s'' else ''x''], w + 1))"
      "pk_parse_manifest sample_package_env b = Inr sample_manifest" "pk_verify_detached sample_package_env a b c = Inr ()"
      "pk_verify_signature sample_package_env p c d = Inr ()" for a b c d p
    by (simp_all add: sample_package_env_def)
  let ?inv = "[(''bin/baselineops-gui.exe'', [''x'', ''bin'', ''baselineops-gui.exe''], 1),
       (''bin/baselineops-worker.exe'', [''x'', ''bin'', ''baselineops-worker.exe''], 1),
       (''bin/baselineops.exe'', [''x'', ''bin'', ''baselineops.exe''], 1),
       (''manifest.json'', [''x'', ''manifest.json''], 1), (''manifest.json.p7'', [''x'', ''manifest.json.p7''], 1)] :: inventory"
  let ?rest = "take 3 ?inv"
  let ?d1 = "\<lparr>disk_nodes = [[] \<mapsto> DirNode, [''release.zip''] \<mapsto> FileNode [9], [''s''] \<mapsto> FileNode [9]], disk_world = 1\<rparr> :: nat disk"
  let ?d2 = "\<lparr>disk_nodes = [[] \<mapsto> DirNode, [''release.zip''] \<mapsto> FileNode [9], [''s''] \<mapsto> FileNode [9], [''x''] \<mapsto> DirNode],
     disk_world = 2\<rparr> :: nat disk"
  have blank: "\<not> blank ''Signer''" by code_simp
  have rd: "read_file steady p d = (case disk_nodes d p of Some (FileNode b) \<Rightarrow> (Inr b, d) | Some _ \<Rightarrow> (Inl FsOther, d) | None \<Rightarrow> (Inl FsNotFound, d))"
    for p and d :: "nat disk" by (simp add: fs_eval)
  have nodes: "disk_nodes extracted_disk [''x'', ''manifest.json''] = Some (FileNode [7])"
      "disk_nodes extracted_disk [''x'', ''manifest.json.p7''] = Some (FileNode [8])"
      "disk_nodes extracted_disk [''x'', ''bin'', ''baselineops.exe''] = Some (FileNode [1])"
      "disk_nodes extracted_disk [''x'', ''bin'', ''baselineops-gui.exe''] = Some (FileNode [2])"
      "disk_nodes extracted_disk [''x'', ''bin'', ''baselineops-worker.exe''] = Some (FileNode [3])"
    by (simp_all add: extracted_disk_def)
  have hash: "disk_nodes d p = Some (FileNode [b]) \<Longrightarrow> hash_file id_ext steady p d = (Inr [b], d)" for p b and d :: "nat disk"
    by (simp add: hash_file_def rd pkg_io_def chunk)
  have snap: "snapshot_package sample_package_env [''release.zip''] release_disk = (Inr [''s''], ?d1)"
    by (simp add: snapshot_package_def env pkg_io_def release_disk_def fs_eval)
  have dir: "draw (pk_temporary sample_package_env) ?d1 = ([''x''], ?d1\<lparr>disk_world := 2\<rparr>)"
      "create_dir steady [''x''] (?d1\<lparr>disk_world := 2\<rparr>) = (Inr (), ?d2)"
      "draw (\<lambda>w. (Inr [''x''] :: fs_error + fs_path, w)) ?d2 = (Inr [''x''], ?d2)" "read_file steady [''s''] ?d2 = (Inr [9], ?d2)"
    by (simp_all add: env fs_eval)
  have inv: "extracted_inventory steady [''x''] [[''x'', ''manifest.json''], [''x'', ''manifest.json.p7''], [''x'', ''bin'', ''baselineops.exe''],
      [''x'', ''bin'', ''baselineops-gui.exe''], [''x'', ''bin'', ''baselineops-worker.exe'']] [] extracted_disk = (Inr ?inv, extracted_disk)"
    by (simp add: extracted_member_def pkg_io_def metadata_len_def fs_eval nodes [unfolded extracted_disk_def] extracted_disk_def
        member_text_def sep_char_def)
  have am: "authenticated_manifest sample_package_env ?inv ''Signer'' extracted_disk = (Inr sample_manifest, extracted_disk)"
    by (simp add: authenticated_manifest_def signed_manifest_bytes_def require_unique_special_member_def ok_or_def manifest_path_text_def
        manifest_signature_path_def env rd nodes pkg_io_def parse_authenticated_manifest_def sample_manifest_valid
        validate_manifest_signer_def files)
  have vi: "verify_inventory id_ext steady sample_manifest ?inv extracted_disk = (Inr ?rest, extracted_disk)"
    by (simp add: verify_inventory_def verify_inventory_count_def verify_inventory_file_def manifest_path_text_def
        manifest_signature_path_def files listed_file_def ok_or_def hash nodes of_bytes_def)
  have vs: "verify_required_signatures sample_package_env ?rest ''Signer'' extracted_disk = (Inr (), extracted_disk)"
    by (simp add: verify_required_signatures_def required_executables_def verify_executable_def ok_or_def env)
  have pay: "verify_payload id_ext sample_package_env [''s''] ''Signer'' ?d1 = (Inr sample_manifest, extracted_disk)"
    unfolding verify_payload_def with_package_inventory_def Let_def env(1,2) dir(1)
    by (simp only: case_prod_conv dir pkg_io_def pkg_platform_def map_err_simps st_then_simps env sample_package_extraction inv am vi vs)
  have hs: "hash_file id_ext steady [''s''] ?d1 = (Inr [9], ?d1)" by (rule hash) simp
  have n: "length (pm_files sample_manifest) = 3" "length required_executables = 3"
    by (simp_all add: files required_executables_def)
  show ?thesis
    unfolding verify_package_def env(1) by (simp only: blank snap st_then_simps if_False hs pay n)
qed


end
