(* ===== verification/Worker_Broker.thy ===== *)
theory Worker_Broker
  imports Ipc_Control Protected_Run Result_Validate Package
begin

text \<open>
  The elevated worker, \<open>rust/apps/baselineops-worker/src\<close>: \<open>main.rs\<close>, \<open>broker.rs\<close>, \<open>broker/session.rs\<close>, \<open>control.rs\<close>
  and \<open>responses.rs\<close>. The pipe, the clock, random identifiers and the channels to the executor thread are
  functions of arbitrary behaviour on a world. The executor thread has a world of its own, whose behaviour is
  arbitrary as well, so that every interleaving of the two threads is covered. The decoders of \<open>serde\<close>, the process
  that is at the other end of the pipe, and what Windows says of the installation are parameters.
\<close>

section \<open>Errors and the pipe\<close>

text \<open>\<open>anyhow::Error\<close>: an error of one of the crates, or a text.\<close>

datatype any_error =
    AnyPlatform platform_error
  | AnyDomain domain_error
  | AnyPlanning planning_error
  | AnyPackage package_error
  | AnyText string

definition any_from :: "('e \<Rightarrow> any_error) \<Rightarrow> ('e + 'a) \<times> 's \<Rightarrow> (any_error + 'a) \<times> 's" where
  "any_from f = (\<lambda>(r, s). (map_err f r, s))"

lemma any_from_simps [simp]:
  "any_from f (Inl e, s) = (Inl (f e), s)" "any_from f (Inr a, s) = (Inr a, s)"
  by (simp_all add: any_from_def)

lemma any_from_Inr_iff [res_simps]: "any_from f r = (Inr a, s) \<longleftrightarrow> r = (Inr a, s)"
  by (cases r) (auto simp: any_from_def)

record 'w broker_env =
  pipe_receive :: "'w \<Rightarrow> (platform_error + byte list) \<times> 'w"
  pipe_receive_timeout :: "duration \<Rightarrow> 'w \<Rightarrow> (platform_error + byte list option) \<times> 'w"
  pipe_send :: "byte list \<Rightarrow> 'w \<Rightarrow> (platform_error + unit) \<times> 'w"
  pipe_send_timeout :: "byte list \<Rightarrow> duration \<Rightarrow> 'w \<Rightarrow> (platform_error + unit) \<times> 'w"
  instant_now :: "'w \<Rightarrow> instant \<times> 'w"
  new_nonce :: "'w \<Rightarrow> string \<times> 'w"
  ser_message :: "broker_message \<Rightarrow> string + byte list"
  de_message :: "byte list \<Rightarrow> string + broker_message"

text \<open>
  The first messages of an exchange, in the worker and in the client: one frame, decoded, validated and new to the
  replay cache. \<open>None\<close> is a replay cache that does not return.
\<close>

definition receive_message ::
    "('w, 'z) broker_env_scheme \<Rightarrow> replay_nonce_cache \<Rightarrow> 'w \<Rightarrow>
     ((any_error + broker_message) \<times> replay_nonce_cache \<times> 'w) option" where
  "receive_message B cache w =
     (case pipe_receive B w of
        (Inl e, w) \<Rightarrow> Some (Inl (AnyPlatform e), cache, w)
      | (Inr frame, w) \<Rightarrow>
     (case and_then (frame_decode (de_message B) frame) (\<lambda>m. and_then (message_validate m) (\<lambda>_. Inr m)) of
        Inl e \<Rightarrow> Some (Inl (AnyPlatform e), cache, w)
      | Inr m \<Rightarrow>
          let (t, w) = instant_now B w in
          map_option (\<lambda>(x, cache). (map_err AnyPlatform (and_then x (\<lambda>_. Inr m)), cache, w))
            (replay_accept cache (nonce m) t)))"

definition worker_send_message ::
    "('w, 'z) broker_env_scheme \<Rightarrow> broker_message \<Rightarrow> 'w \<Rightarrow> (any_error + unit) \<times> 'w" where
  "worker_send_message B m w =
     (case frame_encode (ser_message B) m of
        Inl e \<Rightarrow> (Inl (AnyPlatform e), w)
      | Inr frame \<Rightarrow> any_from AnyPlatform (pipe_send B frame w))"

section \<open>Requests of the client\<close>

record proposal_request =
  request_plan :: plan
  request_profile_source :: string

record approval_request =
  request_approved_digest :: string

definition validate_worker_resources :: "resource_binding list \<Rightarrow> any_error + unit" where
  "validate_worker_resources resources =
     (if resources \<noteq> []
      then Inl (AnyText (''resource-dependent Apply requires authenticated retained-handle transfer; '' @
        ''resource metadata alone is not worker authority''))
      else Inr ())"

definition parse_proposal_request ::
    "(jvalue \<Rightarrow> string + proposal_request) \<Rightarrow> broker_message \<Rightarrow> any_error + proposal_request" where
  "parse_proposal_request dec m =
     (if message_kind m \<noteq> ''plan.propose'' then Inl (AnyText ''worker only accepts plan.propose messages'')
      else
        and_then (map_err (\<lambda>_. AnyText ''invalid bounded proposal request'') (dec (message_payload m))) (\<lambda>request.
        and_then (validate_worker_resources (plan_resources (request_plan request))) (\<lambda>_. Inr request)))"

definition parse_approval_request ::
    "(jvalue \<Rightarrow> string + approval_request) \<Rightarrow> broker_message \<Rightarrow> any_error + approval_request" where
  "parse_approval_request dec m =
     (if message_kind m \<noteq> ''plan.approve'' then Inl (AnyText ''worker only accepts plan.approve messages'')
      else
        and_then (map_err (\<lambda>_. AnyText ''invalid bounded approval request'') (dec (message_payload m))) (\<lambda>request.
          if length (request_approved_digest request) \<noteq> 64 \<or> \<not> list_all lower_hex (request_approved_digest request)
          then Inl (AnyText ''approved digest must be lowercase SHA-256 hex'')
          else Inr request))"

definition validate_request_binding ::
    "'h ext \<Rightarrow> broker_message \<Rightarrow> proposal_request \<Rightarrow> string \<Rightarrow> any_error + unit" where
  "validate_request_binding E m request pipe_name =
     and_then (map_err AnyDomain (plan_digest E (request_plan request))) (\<lambda>submitted.
       map_err AnyPlatform (require_request (message_binding m) pipe_name
         (uuid_text E (plan_id (request_plan request))) (to_hex submitted)))"

section \<open>Live facts\<close>

text \<open>What the worker asks of the machine, and the parameters of its libraries.\<close>

record 'x machine_env =
  machine_world :: "'x native_world"
  installed_digest :: "'x \<Rightarrow> (string + digest) \<times> 'x"
  machine_native :: "'x \<Rightarrow> (native_handler \<Rightarrow> executor) \<times> 'x"
  machine_root :: string
  machine_planner :: planner_env
  machine_time_max :: datetime
  parse_json :: "string \<Rightarrow> string + jvalue"
  de_profile :: "jvalue \<Rightarrow> string + profile"
  show_domain :: "domain_error \<Rightarrow> string"
  show_reason :: "unsupported \<Rightarrow> string"
  show_any :: "any_error \<Rightarrow> string"
  show_approval :: "approval_error \<Rightarrow> string"
  show_native :: "native_execution_error \<Rightarrow> string"
  show_detail :: "detail \<Rightarrow> string"

definition max_input_bytes :: u64 where "max_input_bytes = 1024 * 1024"

record loaded_profile =
  loaded_profile_of :: profile
  loaded_source_digest :: digest
  loaded_size_bytes :: u64

definition load_brokered_profile ::
    "'h ext \<Rightarrow> 'x machine_env \<Rightarrow> source_identity \<Rightarrow> string \<Rightarrow> any_error + loaded_profile" where
  "load_brokered_profile E M reviewed source =
     (if source_origin reviewed \<noteq> LocalFile
      then Inl (AnyText ''apply accepts only a locally validated profile source'')
      else if length source > max_input_bytes
      then Inl (AnyText ''brokered profile source exceeds the worker input bound'')
      else
        and_then (map_err AnyDomain (load_profile_json (parse_json M) (de_profile M) (as_bytes source)
          json_load_limits_default)) (\<lambda>profile.
        let d = of_bytes E (as_bytes source) in
        if d \<noteq> source_digest reviewed
        then Inl (AnyText ''brokered profile source digest does not match the reviewed source binding'')
        else Inr \<lparr>loaded_profile_of = profile, loaded_source_digest = d, loaded_size_bytes = length source\<rparr>))"

definition observe_profile ::
    "'h ext \<Rightarrow> 'x machine_env \<Rightarrow> profile \<Rightarrow> 'x \<Rightarrow> (any_error + observed_state) \<times> 'x" where
  "observe_profile E M profile x =
     (let (t, x) = now (machine_world M) x; (native, x) = machine_native M x in
      (map_err AnyText (reobserve_profile E (show_domain M) profile (native_observe True native (show_reason M)) t), x))"

definition package_version :: string where "package_version = ''3.0.0-alpha.1''"

definition apply_context ::
    "'x machine_env \<Rightarrow> source_identity \<Rightarrow> loaded_profile \<Rightarrow> digest \<Rightarrow> observed_state \<Rightarrow> 'x \<Rightarrow>
     (any_error + (profile \<times> plan_build_context)) \<times> 'x" where
  "apply_context M reviewed loaded package_digest observed x =
     st_then (any_from AnyPlatform (collect_host (machine_world M) x)) (\<lambda>host x.
       (Inr (loaded_profile_of loaded,
         \<lparr>build_intent = IntentApply, build_host = host,
          build_tool = \<lparr>tool_name = ''baselineops'', tool_version = package_version, build_digest = Some package_digest\<rparr>,
          build_package_digest = package_digest, build_source = reviewed,
          build_input = \<lparr>input_digest = loaded_source_digest loaded, input_size_bytes = loaded_size_bytes loaded\<rparr>,
          build_resources = [], build_observed_state = observed, lifetime = 300 * 10 ^ 9\<rparr>), x))"

definition reload_apply_inputs ::
    "'h ext \<Rightarrow> 'x machine_env \<Rightarrow> source_identity \<Rightarrow> string \<Rightarrow> 'x \<Rightarrow>
     (any_error + (profile \<times> plan_build_context)) \<times> 'x" where
  "reload_apply_inputs E M reviewed source x =
     st_then (load_brokered_profile E M reviewed source, x) (\<lambda>loaded x.
     st_then (any_from AnyText (installed_digest M x)) (\<lambda>package x.
     st_then (observe_profile E M (loaded_profile_of loaded) x) (\<lambda>observed x.
       apply_context M reviewed loaded package observed x)))"

definition reload_context ::
    "'h ext \<Rightarrow> 'x machine_env \<Rightarrow> proposal_request \<Rightarrow> 'x \<Rightarrow> (any_error + (profile \<times> plan_build_context)) \<times> 'x" where
  "reload_context E M request x =
     st_then (reload_apply_inputs E M (plan_source (request_plan request)) (request_profile_source request) x)
       (\<lambda>(profile, context) x.
     st_then (validate_worker_resources (plan_resources (request_plan request)), x) (\<lambda>_ x.
     st_then (map_err AnyDomain (from_resources E (source_digest (build_source context))
         (input_size_bytes (build_input context)) (build_resources context)), x) (\<lambda>input x.
       (Inr (profile, context\<lparr>build_input := input\<rparr>), x))))"

definition live_context :: "'x machine_env \<Rightarrow> plan_build_context \<Rightarrow> 'x \<Rightarrow> plan_validation_context \<times> 'x" where
  "live_context M c x =
     (let (t, x) = now (machine_world M) x in
      (\<lparr>context_now = t, context_intent = build_intent c, context_host = build_host c, context_tool = build_tool c,
        context_package_digest = build_package_digest c, context_source = build_source c,
        context_input = build_input c, context_observed_state_digest = state_digest (build_observed_state c)\<rparr>, x))"

section \<open>The proposal\<close>

definition proposal_payload :: "'h ext \<Rightarrow> worker_apply_authority \<Rightarrow> jvalue" where
  "proposal_payload E authority = obj [
     field ''plan'' (plan_json E (session_plan (authority_session authority))),
     field ''digest'' (jdigest (session_digest (authority_session authority)))]"

definition proposal_message ::
    "'h ext \<Rightarrow> ('w, 'z) broker_env_scheme \<Rightarrow> worker_apply_authority \<Rightarrow> string \<Rightarrow> string \<Rightarrow> 'w \<Rightarrow>
     (any_error + broker_message) \<times> 'w" where
  "proposal_message E B authority pipe_name request_nonce w =
     (let (n, w) = new_nonce B w;
          m = \<lparr>message_version = protocol_version,
            message_binding = \<lparr>bound_session_id = pipe_name,
              bound_plan_id = uuid_text E (plan_id (session_plan (authority_session authority))),
              bound_plan_digest = to_hex (session_digest (authority_session authority)), reply_to = Some request_nonce\<rparr>,
            nonce = n, message_kind = ''plan.proposal'', message_payload = proposal_payload E authority\<rparr>
      in (map_err AnyPlatform (and_then (message_validate m) (\<lambda>_. Inr m)), w))"

text \<open>Preparation ends without a value when the retained intents panic.\<close>

definition prepare_proposal ::
    "'h ext \<Rightarrow> ('w, 'z) broker_env_scheme \<Rightarrow> 'x machine_env \<Rightarrow> proposal_request \<Rightarrow> string \<Rightarrow> broker_message \<Rightarrow> 'x \<Rightarrow> 'w \<Rightarrow>
     ((any_error + (worker_apply_authority \<times> broker_message)) \<times> 'x \<times> 'w) option" where
  "prepare_proposal E B M request pipe_name request_message x w =
     (case reload_context E M request x of
        (Inl e, x) \<Rightarrow> Some (Inl e, x, w)
      | (Inr (profile, context), x) \<Rightarrow>
          let (t, x) = now (machine_world M) x; (pid, x) = new_id (machine_world M) x; (rid, x) = new_id (machine_world M) x in
          (case prepare_worker_apply E (machine_time_max M) (machine_planner M) (request_plan request) profile context t pid rid of
             None \<Rightarrow> None
           | Some (Inl e) \<Rightarrow> Some (Inl (AnyPlanning e), x, w)
           | Some (Inr authority) \<Rightarrow>
               (case proposal_message E B authority pipe_name (nonce request_message) w of
                  (Inl e, w) \<Rightarrow> Some (Inl e, x, w)
                | (Inr m, w) \<Rightarrow> Some (Inr (authority, m), x, w))))"
section \<open>Results\<close>

definition worker_result_json :: "'h ext \<Rightarrow> worker_result \<Rightarrow> jvalue" where
  "worker_result_json E r = obj [
     field ''schemaVersion'' (JString ''3.0''), field ''planId'' (juuid E (worker_plan_id r)),
     field ''runId'' (juuid E (worker_run_id r)), field ''planDigest'' (jdigest (worker_plan_digest r)),
     opt_field ''journalTerminalHash'' jdigest (journal_terminal_hash r),
     vec_field ''receipts'' (receipt_json E) (receipts r), vec_field ''artifactManifest'' (artifact_json E) (artifact_manifest r),
     field ''finalStatus'' (JString (result_status_text (final_status r))), opt_field ''reason'' JString (reason r),
     field ''exitCode'' (jint (worker_exit_code r))]"

record result_binding =
  binding_plan_id :: uuid
  binding_run_id :: uuid
  binding_digest :: digest

definition binding_failure :: "result_binding \<Rightarrow> result_status \<Rightarrow> string \<Rightarrow> any_error + worker_result" where
  "binding_failure b status why =
     (let r = \<lparr>worker_plan_id = binding_plan_id b, worker_run_id = binding_run_id b, worker_plan_digest = binding_digest b,
        journal_terminal_hash = None, receipts = [], artifact_manifest = [], final_status = status,
        reason = Some (take_chars 768 why), worker_exit_code = as_i32 (for_status status)\<rparr>
      in and_then (map_err AnyDomain (validate_worker_result r)) (\<lambda>_. Inr r))"

definition after_revalidation ::
    "'x machine_env \<Rightarrow> result_binding \<Rightarrow> (any_error + 't) \<times> 'x \<Rightarrow> ('t \<Rightarrow> 'x \<Rightarrow> (any_error + worker_result) option) \<Rightarrow>
     (any_error + worker_result) option" where
  "after_revalidation M b reload execute =
     (case reload of
        (Inr current, x) \<Rightarrow> execute current x
      | (Inl e, x) \<Rightarrow> Some (binding_failure b StRejected (''Live approval revalidation failed: '' @ show_any M e)))"

definition result_message ::
    "'h ext \<Rightarrow> ('w, 'z) broker_env_scheme \<Rightarrow> broker_message \<Rightarrow> string \<Rightarrow> worker_result \<Rightarrow> 'w \<Rightarrow>
     (any_error + broker_message) \<times> 'w" where
  "result_message E B proposed approval_nonce r w =
     st_then (map_err AnyDomain (validate_worker_result r), w) (\<lambda>_ w.
       if bound_plan_id (message_binding proposed) \<noteq> uuid_text E (worker_plan_id r) \<or>
          bound_plan_digest (message_binding proposed) \<noteq> to_hex (worker_plan_digest r)
       then (Inl (AnyText ''result does not match the retained worker proposal''), w)
       else
         let (n, w) = new_nonce B w;
             m = \<lparr>message_version = protocol_version,
               message_binding = (message_binding proposed)\<lparr>reply_to := Some approval_nonce\<rparr>,
               nonce = n, message_kind = ''plan.result'', message_payload = worker_result_json E r\<rparr>
         in (map_err AnyPlatform (and_then (message_validate m) (\<lambda>_. Inr m)), w))"

section \<open>The executor thread\<close>

definition approval_digest ::
    "(jvalue \<Rightarrow> string + approval_request) \<Rightarrow> broker_message \<Rightarrow> any_error + digest" where
  "approval_digest dec approval =
     and_then (parse_approval_request dec approval) (\<lambda>request.
       map_err AnyText (from_str (request_approved_digest request)))"

definition execution_result ::
    "'h ext \<Rightarrow> 'x machine_env \<Rightarrow> approval_error + approved_worker_apply \<Rightarrow> result_binding \<Rightarrow> 'x \<Rightarrow>
     (any_error + worker_result) option" where
  "execution_result E M approval b x =
     (case approval of
        Inr verified \<Rightarrow>
          (case dispatch E (machine_world M) (show_native M) (show_detail M) verified (machine_root M) True x of
             None \<Rightarrow> None
           | Some (Inr r, _) \<Rightarrow> Some (Inr r)
           | Some (Inl e, _) \<Rightarrow> Some (binding_failure b (error_result_status e)
               (''Native dispatch did not produce a trustworthy result: '' @ show_native M e @
                ''. Preserve any protected run for manual review.'')))
      | Inl (ApplyIneligible _ why) \<Rightarrow> Some (binding_failure b StUnsupported why)
      | Inl e \<Rightarrow> Some (binding_failure b StRejected (show_approval M e)))"

text \<open>The result that the executor thread sends; \<open>None\<close> when it panics or does not end.\<close>

definition apply_result ::
    "'h ext \<Rightarrow> 'x machine_env \<Rightarrow> (jvalue \<Rightarrow> string + approval_request) \<Rightarrow> worker_apply_authority \<Rightarrow> proposal_request \<Rightarrow>
     broker_message \<Rightarrow> 'x \<Rightarrow> (any_error + worker_result) option" where
  "apply_result E M dec authority request approval x =
     (let p = session_plan (authority_session authority);
          b = \<lparr>binding_plan_id = plan_id p, binding_run_id = plan_run_id p,
            binding_digest = session_digest (authority_session authority)\<rparr>
      in after_revalidation M b
        (st_then (approval_digest dec approval, x) (\<lambda>approved x.
         st_then (reload_context E M request x) (\<lambda>(_, context) x.
           let (live, x) = live_context M context x in (Inr (approved, live), x))))
        (\<lambda>(approved, live) x.
          execution_result E M (worker_approve E authority approved live (machine_root M)) b x))"

section \<open>Control of a running session\<close>

text \<open>The state of a channel that carries at most one result, and the two channels from the executor thread.\<close>

datatype try_recv = TryReady | TryEmpty | TryDisconnected

record 'w worker_env = "'w broker_env" +
  next_progress :: "'w \<Rightarrow> (uuid \<times> native_action_phase) option \<times> 'w"
  try_result :: "'w \<Rightarrow> try_recv \<times> 'w"
  cancel_token :: "'w \<Rightarrow> 'w"
  accept_peer :: "'w \<Rightarrow> (string + unit) \<times> 'w"
  dec_request :: "jvalue \<Rightarrow> string + proposal_request"
  dec_approval :: "jvalue \<Rightarrow> string + approval_request"

definition require_time :: "('w, 'z) broker_env_scheme \<Rightarrow> instant \<Rightarrow> 'w \<Rightarrow> (any_error + duration) \<times> 'w" where
  "require_time B limit w =
     (let (t, w) = instant_now B w in
      if limit - t = 0 then (Inl (AnyText ''worker control session exceeded its deadline''), w) else (Inr (limit - t), w))"

definition transport_receive ::
    "('w, 'z) broker_env_scheme \<Rightarrow> duration \<Rightarrow> 'w \<Rightarrow> (any_error + broker_message option) \<times> 'w" where
  "transport_receive B timeout w =
     (case pipe_receive_timeout B timeout w of
        (Inl e, w) \<Rightarrow> (Inl (AnyPlatform e), w)
      | (Inr None, w) \<Rightarrow> (Inr None, w)
      | (Inr (Some frame), w) \<Rightarrow>
          (map_err AnyPlatform (and_then (frame_decode (de_message B) frame) (\<lambda>m. Inr (Some m))), w))"

definition transport_send ::
    "('w, 'z) broker_env_scheme \<Rightarrow> broker_message \<Rightarrow> duration \<Rightarrow> 'w \<Rightarrow> (any_error + unit) \<times> 'w" where
  "transport_send B m timeout w =
     (case and_then (message_validate m) (\<lambda>_. frame_encode (ser_message B) m) of
        Inl e \<Rightarrow> (Inl (AnyPlatform e), w)
      | Inr frame \<Rightarrow> any_from AnyPlatform (pipe_send_timeout B frame timeout w))"

definition report ::
    "'h ext \<Rightarrow> ('w, 'z) broker_env_scheme \<Rightarrow> approval_control \<Rightarrow> progress_phase \<Rightarrow> uuid option \<Rightarrow> instant \<Rightarrow> 'w \<Rightarrow>
     (any_error + unit) \<times> 'w" where
  "report E B c stage action limit w =
     (let (n, w) = new_nonce B w in
      st_then (map_err AnyPlatform (progress_message E c \<lparr>phase = stage, progress_action = action\<rparr> n), w) (\<lambda>m w.
      st_then (require_time B limit w) (\<lambda>timeout w. transport_send B m timeout w)))"

fun progress_stage :: "native_action_phase \<Rightarrow> progress_phase" where
  "progress_stage ActionPhaseStarted = PhaseActionStarted"
| "progress_stage ActionPhaseFinished = PhaseActionFinished"

text \<open>\<open>progress.try_iter().take(n)\<close>, each item reported before the next is taken.\<close>

fun forward_items ::
    "nat \<Rightarrow> 'h ext \<Rightarrow> ('w, 'z) worker_env_scheme \<Rightarrow> approval_control \<Rightarrow> instant \<Rightarrow> 'w \<Rightarrow> (any_error + unit) \<times> 'w" where
  "forward_items 0 E B c limit w = (Inr (), w)"
| "forward_items (Suc n) E B c limit w =
     (case next_progress B w of
        (None, w) \<Rightarrow> (Inr (), w)
      | (Some (action, ph), w) \<Rightarrow>
          st_then (report E B c (progress_stage ph) (Some action) limit w) (\<lambda>_ w. forward_items n E B c limit w))"

definition forward_progress ::
    "'h ext \<Rightarrow> ('w, 'z) worker_env_scheme \<Rightarrow> approval_control \<Rightarrow> instant \<Rightarrow> 'w \<Rightarrow> (any_error + unit) \<times> 'w" where
  "forward_progress E B c limit w = forward_items 4 E B c limit w"

definition take_finished ::
    "'h ext \<Rightarrow> ('w, 'z) worker_env_scheme \<Rightarrow> any_error + worker_result \<Rightarrow> approval_control \<Rightarrow> instant \<Rightarrow> 'w \<Rightarrow>
     (any_error + worker_result option) \<times> 'w" where
  "take_finished E B sent c limit w =
     (case try_result B w of
        (TryReady, w) \<Rightarrow>
          st_then (forward_progress E B c limit w) (\<lambda>_ w.
          st_then (require_time B limit w) (\<lambda>_ w. (and_then sent (\<lambda>r. Inr (Some r)), w)))
      | (TryEmpty, w) \<Rightarrow> (Inr None, w)
      | (TryDisconnected, w) \<Rightarrow> (Inl (AnyText ''sealed executor closed without a result''), w))"

text \<open>One turn of waiting: at most fifty milliseconds, and the deadline holds before and after.\<close>

definition poll_message ::
    "('w, 'z) broker_env_scheme \<Rightarrow> instant \<Rightarrow> 'w \<Rightarrow> (any_error + broker_message option) \<times> 'w" where
  "poll_message B limit w =
     st_then (require_time B limit w) (\<lambda>remaining w.
     st_then (transport_receive B (min remaining (50 * 10 ^ 6)) w) (\<lambda>received w.
       case received of
         None \<Rightarrow> (Inr None, w)
       | Some m \<Rightarrow> st_then (require_time B limit w) (\<lambda>_ w. (Inr (Some m), w))))"

definition receive_cancellation ::
    "'h ext \<Rightarrow> ('w, 'z) worker_env_scheme \<Rightarrow> approval_control \<Rightarrow> instant \<Rightarrow> 'w \<Rightarrow>
     ((any_error + unit) \<times> approval_control \<times> 'w) option" where
  "receive_cancellation E B c limit w =
     (case poll_message B limit w of
        (Inl e, w) \<Rightarrow> Some (Inl e, c, w)
      | (Inr None, w) \<Rightarrow> Some (Inr (), c, w)
      | (Inr (Some m), w) \<Rightarrow>
          let (t, w) = instant_now B w in
          (case accept_cancellation c m t of
             None \<Rightarrow> None
           | Some (Inl e, c) \<Rightarrow> Some (Inl (AnyPlatform e), c, w)
           | Some (Inr _, c) \<Rightarrow>
               (case report E B c CancellationPending None limit (cancel_token B w) of (r, w) \<Rightarrow> Some (r, c, w))))"

partial_function (option) pump ::
    "'h ext \<Rightarrow> ('w, 'z) worker_env_scheme \<Rightarrow> any_error + worker_result \<Rightarrow> instant \<Rightarrow> approval_control \<Rightarrow> 'w \<Rightarrow>
     ((any_error + worker_result) \<times> 'w) option" where
  "pump E B sent limit c w =
     (case st_then (require_time B limit w) (\<lambda>_ w.
        st_then (forward_progress E B c limit w) (\<lambda>_ w. take_finished E B sent c limit w)) of
        (Inl e, w) \<Rightarrow> Some (Inl e, w)
      | (Inr (Some r), w) \<Rightarrow> Some (Inr r, w)
      | (Inr None, w) \<Rightarrow>
          Option.bind (receive_cancellation E B c limit w) (\<lambda>(x, c, w).
            case x of Inl e \<Rightarrow> Some (Inl e, w) | Inr _ \<Rightarrow> pump E B sent limit c w))"

definition control_session ::
    "'h ext \<Rightarrow> ('w, 'z) worker_env_scheme \<Rightarrow> broker_message \<Rightarrow> any_error + worker_result \<Rightarrow> instant \<Rightarrow> 'w \<Rightarrow>
     ((any_error + worker_result) \<times> 'w) option" where
  "control_session E B approval sent limit w =
     map_option (\<lambda>(r, w). (r, case r of Inl _ \<Rightarrow> cancel_token B w | Inr _ \<Rightarrow> w))
       (let (t, w) = instant_now B w in
        case approval_control_new approval t of
          None \<Rightarrow> None
        | Some (Inl e) \<Rightarrow> Some (Inl (AnyPlatform e), w)
        | Some (Inr c) \<Rightarrow>
            (case report E B c Preparing None limit w of
               (Inl e, w) \<Rightarrow> Some (Inl e, w)
             | (Inr _, w) \<Rightarrow> pump E B sent limit c w))"

definition send_terminal ::
    "'h ext \<Rightarrow> ('w, 'z) broker_env_scheme \<Rightarrow> broker_message \<Rightarrow> string \<Rightarrow> worker_result \<Rightarrow> instant \<Rightarrow> 'w \<Rightarrow>
     (any_error + unit) \<times> 'w" where
  "send_terminal E B proposed approval_nonce r limit w =
     st_then (require_time B limit w) (\<lambda>_ w.
     st_then (result_message E B proposed approval_nonce r w) (\<lambda>reply w.
     st_then (require_time B limit w) (\<lambda>timeout w. transport_send B reply timeout w)))"

section \<open>The session\<close>

definition accept_client :: "('w, 'z) worker_env_scheme \<Rightarrow> 'w \<Rightarrow> (any_error + replay_nonce_cache) \<times> 'w" where
  "accept_client B w =
     st_then (any_from AnyText (accept_peer B w)) (\<lambda>_ w. (map_err AnyPlatform (replay_new two_minutes 8), w))"

definition receive_proposal_request ::
    "'h ext \<Rightarrow> ('w, 'z) worker_env_scheme \<Rightarrow> replay_nonce_cache \<Rightarrow> string \<Rightarrow> 'w \<Rightarrow>
     ((any_error + (proposal_request \<times> broker_message)) \<times> replay_nonce_cache \<times> 'w) option" where
  "receive_proposal_request E B cache pipe_name w =
     map_option (\<lambda>(x, s). (and_then x (\<lambda>m.
       and_then (parse_proposal_request (dec_request B) m) (\<lambda>request.
       and_then (validate_request_binding E m request pipe_name) (\<lambda>_. Inr (request, m)))), s))
       (receive_message B cache w)"

definition receive_approval ::
    "('w, 'z) worker_env_scheme \<Rightarrow> replay_nonce_cache \<Rightarrow> string \<Rightarrow> broker_message \<Rightarrow> 'w \<Rightarrow>
     ((any_error + broker_message) \<times> replay_nonce_cache \<times> 'w) option" where
  "receive_approval B cache pipe_name proposed w =
     map_option (\<lambda>(x, s). (and_then x (\<lambda>approval.
       and_then (map_err AnyPlatform (require_reply_to (message_binding approval) pipe_name
         (bound_plan_id (message_binding proposed)) (bound_plan_digest (message_binding proposed)) (nonce proposed))) (\<lambda>_.
       and_then (parse_approval_request (dec_approval B) approval) (\<lambda>_. Inr approval))), s))
       (receive_message B cache w)"

definition exchange_proposal ::
    "('w, 'z) worker_env_scheme \<Rightarrow> replay_nonce_cache \<Rightarrow> string \<Rightarrow> broker_message \<Rightarrow> 'w \<Rightarrow>
     ((any_error + broker_message) \<times> replay_nonce_cache \<times> 'w) option" where
  "exchange_proposal B cache pipe_name proposed w =
     (case worker_send_message B proposed w of
        (Inl e, w) \<Rightarrow> Some (Inl e, cache, w)
      | (Inr _, w) \<Rightarrow> receive_approval B cache pipe_name proposed w)"

text \<open>\<open>std::thread::scope\<close> waits for the executor thread: without its end there is no result.\<close>

definition execute_session ::
    "'h ext \<Rightarrow> ('w, 'z) worker_env_scheme \<Rightarrow> 'x machine_env \<Rightarrow> worker_apply_authority \<Rightarrow> proposal_request \<Rightarrow> broker_message \<Rightarrow>
     instant \<Rightarrow> 'x \<Rightarrow> 'w \<Rightarrow> ((any_error + worker_result) \<times> 'w) option" where
  "execute_session E B M authority request approval limit x w =
     Option.bind (apply_result E M (dec_approval B) authority request approval x) (\<lambda>sent.
       control_session E B approval sent limit w)"

definition run_windows ::
    "'h ext \<Rightarrow> ('w, 'z) worker_env_scheme \<Rightarrow> 'x machine_env \<Rightarrow> string \<Rightarrow> 'x \<Rightarrow> 'w \<Rightarrow> ((any_error + exit_code) \<times> 'w) option" where
  "run_windows E B M pipe_name x w =
     (case accept_client B w of
        (Inl e, w) \<Rightarrow> Some (Inl e, w)
      | (Inr cache, w) \<Rightarrow>
     (case receive_proposal_request E B cache pipe_name w of
        None \<Rightarrow> None
      | Some (Inl e, _, w) \<Rightarrow> Some (Inl e, w)
      | Some (Inr (request, request_message), cache, w) \<Rightarrow>
     (case prepare_proposal E B M request pipe_name request_message x w of
        None \<Rightarrow> None
      | Some (Inl e, _, w) \<Rightarrow> Some (Inl e, w)
      | Some (Inr (authority, message), x, w) \<Rightarrow>
     (case exchange_proposal B cache pipe_name message w of
        None \<Rightarrow> None
      | Some (Inl e, _, w) \<Rightarrow> Some (Inl e, w)
      | Some (Inr approval, _, w) \<Rightarrow>
          let (t, w) = instant_now B w; limit = t + two_minutes in
          (case execute_session E B M authority request approval limit x w of
             None \<Rightarrow> None
           | Some (Inl e, w) \<Rightarrow> Some (Inl e, w)
           | Some (Inr r, w) \<Rightarrow>
               (case send_terminal E B message (nonce approval) r limit w of
                  (Inl e, w) \<Rightarrow> Some (Inl e, w)
                | (Inr _, w) \<Rightarrow> Some (Inr (for_status (final_status r)), w)))))))"

text \<open>The process: \<open>admitted\<close> stands for the containment of the worker and the trust in its own installation.\<close>

definition worker_run ::
    "'h ext \<Rightarrow> ('w, 'z) worker_env_scheme \<Rightarrow> 'x machine_env \<Rightarrow> (any_error + unit) \<Rightarrow> string \<Rightarrow> 'x \<Rightarrow> 'w \<Rightarrow>
     ((any_error + exit_code) \<times> 'w) option" where
  "worker_run E B M admitted pipe_name x w =
     (case admitted of
        Inl e \<Rightarrow> Some (Inl e, w)
      | Inr _ \<Rightarrow>
     (case installed_digest M x of
        (Inl e, x) \<Rightarrow> Some (Inl (AnyText e), w)
      | (Inr _, x) \<Rightarrow> run_windows E B M pipe_name x w))"

definition worker_main ::
    "'h ext \<Rightarrow> ('w, 'z) worker_env_scheme \<Rightarrow> 'x machine_env \<Rightarrow> (any_error + unit) \<Rightarrow> string \<Rightarrow> 'x \<Rightarrow> 'w \<Rightarrow> int option" where
  "worker_main E B M admitted pipe_name x w =
     map_option (\<lambda>(r, _). as_i32 (case r of Inl _ \<Rightarrow> ExRejected | Inr code \<Rightarrow> code))
       (worker_run E B M admitted pipe_name x w)"

end
