(* ===== verification/Client_Apply.thy ===== *)
theory Client_Apply
  imports Worker_Broker Win_Path
begin

text \<open>
  The client of the worker, \<open>rust/apps/baselineops-cli/src\<close>: \<open>apply.rs\<close>, \<open>apply/trust.rs\<close>, \<open>apply/input.rs\<close>,
  \<open>apply/protocol.rs\<close> and \<open>protocol.rs\<close>. It starts the elevated worker, shows the operator the plan that the worker
  proposes, sends the approval of its digest, and reports the result. The pipe, the clock, the console, the elevation
  and what Windows says of processes and files are functions of arbitrary behaviour on a world.
\<close>

section \<open>Startup\<close>

datatype launch_status = LaunchExited int | LaunchCancelled | LaunchTimedOut

text \<open>What joining the launcher thread returns: a panic, an error, or the end of the worker process.\<close>

datatype launch_completion = LauncherPanicked | LauncherFailed platform_error | LauncherReturned launch_status

record process_identity =
  token_session_id :: "32 word"
  token_user_sid :: string
  token_logon_sid :: string
  token_integrity_rid :: "32 word"
  token_image_path :: string

record worker_proposal =
  proposed_plan :: plan
  proposed_digest :: string

record 'w client_env = "'w broker_env" +
  installed_package :: "'w \<Rightarrow> (any_error + (digest \<times> string)) \<times> 'w"
  own_identity :: "'w \<Rightarrow> (platform_error + process_identity) \<times> 'w"
  new_session :: "'w \<Rightarrow> string \<times> 'w"
  launch_worker :: "string \<Rightarrow> 'w \<Rightarrow> 'w"
  try_connect :: "string \<Rightarrow> 'w \<Rightarrow> (platform_error + unit) \<times> 'w"
  launcher_finished :: "'w \<Rightarrow> bool \<times> 'w"
  join_launcher :: "'w \<Rightarrow> launch_completion \<times> 'w"
  sleep_for :: "duration \<Rightarrow> 'w \<Rightarrow> 'w"
  server_peer :: "'w \<Rightarrow> (platform_error + 32 word) \<times> 'w"
  server_identity :: "'w \<Rightarrow> (platform_error + process_identity) \<times> 'w"
  verified_server_image :: "'w \<Rightarrow> (platform_error + string) \<times> 'w"
  read_source :: "string \<Rightarrow> 'w \<Rightarrow> (any_error + string) \<times> 'w"
  install_console :: "'w \<Rightarrow> (platform_error + unit) \<times> 'w"
  console_cancelled :: "'w \<Rightarrow> bool \<times> 'w"
  print_json :: "jvalue \<Rightarrow> 'w \<Rightarrow> (string + unit) \<times> 'w"
  write_progress :: "worker_progress \<Rightarrow> 'w \<Rightarrow> 'w"
  read_approval :: "'w \<Rightarrow> ((string + string) \<times> 'w) option"
  parse_source :: "string \<Rightarrow> string + jvalue"
  dec_profile :: "jvalue \<Rightarrow> string + profile"
  dec_proposal :: "jvalue \<Rightarrow> string + worker_proposal"
  dec_progress :: "jvalue \<Rightarrow> string + worker_progress"
  dec_result :: "jvalue \<Rightarrow> string + worker_result"

datatype startup_poll = Connected | LauncherFinished | Retry | ConnectionFailed platform_error

definition select_startup_poll :: "platform_error + unit \<Rightarrow> bool \<Rightarrow> bool \<Rightarrow> startup_poll" where
  "select_startup_poll connection exited before_deadline =
     (case connection of
        Inr _ \<Rightarrow> Connected
      | Inl e \<Rightarrow> if exited then LauncherFinished else if before_deadline then Retry else ConnectionFailed e)"

fun early_launch_status_error :: "launch_status \<Rightarrow> any_error" where
  "early_launch_status_error LaunchCancelled = AnyPlatform ElevationCancelled"
| "early_launch_status_error LaunchTimedOut =
     AnyText ''elevated worker timed out before authenticated pipe connection''"
| "early_launch_status_error (LaunchExited code) = AnyText (''elevated worker exited with code '' @
     (if code < 0 then ''-'' @ nat_text (nat (- code)) else nat_text (nat code)) @ '' before authenticated pipe connection'')"

fun early_worker_completion_error :: "launch_completion \<Rightarrow> any_error" where
  "early_worker_completion_error (LauncherFailed e) = AnyPlatform e"
| "early_worker_completion_error LauncherPanicked = AnyText ''elevation launcher panicked before pipe connection''"
| "early_worker_completion_error (LauncherReturned status) = early_launch_status_error status"

partial_function (option) connect_loop ::
    "('w, 'z) client_env_scheme \<Rightarrow> string \<Rightarrow> instant \<Rightarrow> 'w \<Rightarrow> ((any_error + unit) \<times> 'w) option" where
  "connect_loop C name limit w =
     (let (connection, w) = try_connect C name w; (exited, w) = launcher_finished C w; (t, w) = instant_now C w in
      case select_startup_poll connection exited (t < limit) of
        Connected \<Rightarrow> Some (Inr (), w)
      | LauncherFinished \<Rightarrow> (let (completion, w) = join_launcher C w in Some (Inl (early_worker_completion_error completion), w))
      | Retry \<Rightarrow> connect_loop C name limit (sleep_for C (50 * 10 ^ 6) w)
      | ConnectionFailed e \<Rightarrow> Some (Inl (AnyPlatform e), w))"

definition connect :: "('w, 'z) client_env_scheme \<Rightarrow> string \<Rightarrow> 'w \<Rightarrow> ((any_error + unit) \<times> 'w) option" where
  "connect C name w = (let (t, w) = instant_now C w in connect_loop C name (t + 20 * 10 ^ 9) w)"

definition verify_package_digest :: "plan \<Rightarrow> digest \<Rightarrow> any_error + unit" where
  "verify_package_digest p installed =
     (if plan_package_digest p \<noteq> installed
      then Inl (AnyPackage (PkgSignature ''plan package digest does not match the authenticated installed manifest'')) else Inr ())"

definition same_windows_path :: "string \<Rightarrow> string \<Rightarrow> bool" where
  "same_windows_path actual expected \<longleftrightarrow> map to_ascii_lower actual = map to_ascii_lower expected"

definition verify_server_identity ::
    "32 word \<Rightarrow> process_identity \<Rightarrow> process_identity \<Rightarrow> string \<Rightarrow> any_error + unit" where
  "verify_server_identity peer_session cli server expected =
     (if token_session_id server \<noteq> token_session_id cli \<or> peer_session \<noteq> token_session_id cli \<or>
         token_user_sid server \<noteq> token_user_sid cli \<or> token_logon_sid server \<noteq> token_logon_sid cli \<or>
         token_integrity_rid server < 0x3000
      then Inl (AnyText ''named-pipe server token is not the expected elevated logon identity'')
      else if \<not> same_windows_path (token_image_path server) expected
      then Inl (AnyText ''named-pipe server image is not the expected protected worker'')
      else Inr ())"

definition authenticate_worker_server ::
    "('w, 'z) client_env_scheme \<Rightarrow> 32 word \<Rightarrow> process_identity \<Rightarrow> string \<Rightarrow> 'w \<Rightarrow> (any_error + unit) \<times> 'w" where
  "authenticate_worker_server C peer_session cli expected w =
     st_then (any_from AnyPlatform (server_identity C w)) (\<lambda>server w.
     st_then (verify_server_identity peer_session cli server expected, w) (\<lambda>_ w.
     st_then (any_from AnyPlatform (verified_server_image C w)) (\<lambda>verified w.
       if \<not> same_windows_path verified expected
       then (Inl (AnyText ''named-pipe server final handle identity differs from trusted worker''), w)
       else (Inr (), w))))"

text \<open>\<open>WorkerExchange\<close> is the name of the pipe with the replay cache; the pipe and the launcher are in the world.\<close>

definition start_worker ::
    "('w, 'z) client_env_scheme \<Rightarrow> plan \<Rightarrow> 'w \<Rightarrow> ((any_error + (string \<times> replay_nonce_cache)) \<times> 'w) option" where
  "start_worker C p w =
     (case st_then (installed_package C w) (\<lambda>(installed, executable) w.
        st_then (verify_package_digest p installed, w) (\<lambda>_ w.
        st_then (any_from AnyPlatform (own_identity C w)) (\<lambda>cli w. (Inr (executable, cli), w)))) of
        (Inl e, w) \<Rightarrow> Some (Inl e, w)
      | (Inr (executable, cli), w) \<Rightarrow>
          let (pipe_name, w) = new_session C w; w = launch_worker C pipe_name w in
          (case connect C pipe_name w of
             None \<Rightarrow> None
           | Some (Inl e, w) \<Rightarrow> Some (Inl e, w)
           | Some (Inr _, w) \<Rightarrow> Some (
               st_then (any_from AnyPlatform (server_peer C w)) (\<lambda>peer_session w.
               st_then (authenticate_worker_server C peer_session cli executable w) (\<lambda>_ w.
                 (map_err AnyPlatform (and_then (replay_new two_minutes 4) (\<lambda>cache. Inr (pipe_name, cache))), w))))))"

section \<open>The request\<close>

definition validate_profile_source ::
    "'h ext \<Rightarrow> ('w, 'z) client_env_scheme \<Rightarrow> plan \<Rightarrow> string \<Rightarrow> any_error + unit" where
  "validate_profile_source E C p source =
     (if of_bytes E (as_bytes source) \<noteq> source_digest (plan_source p)
      then Inl (AnyText ''profile source digest changed since the plan was created'')
      else
        and_then (map_err AnyDomain (load_json (parse_source C) (dec_profile C) (as_bytes source) json_load_limits_default)) (\<lambda>profile.
        and_then (map_err AnyDomain (profile_validate profile)) (\<lambda>_.
        and_then (map_err AnyDomain (canonical_json_digest E (\<lambda>v. Inr (profile_json E v)) profile)) (\<lambda>d.
          if d \<noteq> plan_profile_digest p \<or> profile_id profile \<noteq> plan_profile_id p
          then Inl (AnyText ''profile source no longer matches the reviewed plan identity'') else Inr ()))))"

text \<open>\<open>read_source\<close> stands for the resolution of the locator to an existing file and for its bounded read.\<close>

definition load_profile_source ::
    "'h ext \<Rightarrow> ('w, 'z) client_env_scheme \<Rightarrow> plan \<Rightarrow> 'w \<Rightarrow> (any_error + string) \<times> 'w" where
  "load_profile_source E C p w =
     (if source_origin (plan_source p) \<noteq> LocalFile
      then (Inl (AnyText ''apply accepts only a locally validated profile source''), w)
      else
        st_then (read_source C (source_locator (plan_source p)) w) (\<lambda>source w.
        st_then (validate_profile_source E C p source, w) (\<lambda>_ w. (Inr source, w))))"

definition request_payload :: "'h ext \<Rightarrow> plan \<Rightarrow> string \<Rightarrow> jvalue" where
  "request_payload E p source = obj [field ''plan'' (plan_json E p), field ''profileSource'' (JString source)]"

definition client_proposal_request ::
    "'h ext \<Rightarrow> ('w, 'z) client_env_scheme \<Rightarrow> plan \<Rightarrow> string \<Rightarrow> 'w \<Rightarrow> (any_error + broker_message) \<times> 'w" where
  "client_proposal_request E C p pipe_name w =
     st_then (load_profile_source E C p w) (\<lambda>source w.
     st_then (map_err AnyDomain (plan_digest E p), w) (\<lambda>d w.
       let (n, w) = new_nonce C w in
       (Inr \<lparr>message_version = protocol_version,
          message_binding = \<lparr>bound_session_id = pipe_name, bound_plan_id = uuid_text E (plan_id p),
            bound_plan_digest = to_hex d, reply_to = None\<rparr>,
          nonce = n, message_kind = ''plan.propose'', message_payload = request_payload E p source\<rparr>, w)))"

definition client_send_message ::
    "('w, 'z) broker_env_scheme \<Rightarrow> broker_message \<Rightarrow> 'w \<Rightarrow> (any_error + unit) \<times> 'w" where
  "client_send_message C m w =
     (case and_then (message_validate m) (\<lambda>_. frame_encode (ser_message C) m) of
        Inl e \<Rightarrow> (Inl (AnyPlatform e), w)
      | Inr frame \<Rightarrow> any_from AnyPlatform (pipe_send C frame w))"

definition verify_proposal_digest :: "'h ext \<Rightarrow> worker_proposal \<Rightarrow> any_error + unit" where
  "verify_proposal_digest E response =
     and_then (map_err AnyDomain (validate_structure E (proposed_plan response))) (\<lambda>_.
     and_then (map_err AnyText (from_str (proposed_digest response))) (\<lambda>declared.
     and_then (map_err AnyDomain (plan_digest E (proposed_plan response))) (\<lambda>d.
       if d \<noteq> declared
       then Inl (AnyText ''worker proposal is not bound to this exact pipe session and request'') else Inr ())))"

definition verify_proposal_request_binding ::
    "'h ext \<Rightarrow> broker_message \<Rightarrow> worker_proposal \<Rightarrow> string \<Rightarrow> broker_message \<Rightarrow> any_error + unit" where
  "verify_proposal_request_binding E m response pipe_name request =
     (if bound_session_id (message_binding m) \<noteq> pipe_name \<or>
         bound_plan_id (message_binding m) \<noteq> uuid_text E (plan_id (proposed_plan response)) \<or>
         bound_plan_digest (message_binding m) \<noteq> proposed_digest response \<or>
         reply_to (message_binding m) \<noteq> Some (nonce request)
      then Inl (AnyText ''worker proposal is not bound to this exact pipe session and request'') else Inr ())"

definition verify_proposal_binding ::
    "'h ext \<Rightarrow> broker_message \<Rightarrow> worker_proposal \<Rightarrow> string \<Rightarrow> broker_message \<Rightarrow> any_error + unit" where
  "verify_proposal_binding E m response pipe_name request =
     and_then (verify_proposal_digest E response) (\<lambda>_. verify_proposal_request_binding E m response pipe_name request)"

definition receive_proposal ::
    "'h ext \<Rightarrow> ('w, 'z) client_env_scheme \<Rightarrow> replay_nonce_cache \<Rightarrow> string \<Rightarrow> broker_message \<Rightarrow> 'w \<Rightarrow>
     ((any_error + (worker_proposal \<times> string)) \<times> 'w) option" where
  "receive_proposal E C cache pipe_name request w =
     map_option (\<lambda>(x, cache, w). (and_then x (\<lambda>m.
       if message_kind m \<noteq> ''plan.proposal'' then Inl (AnyText ''worker did not return a plan proposal'')
       else
         and_then (map_err AnyText (dec_proposal C (message_payload m))) (\<lambda>response.
         and_then (verify_proposal_binding E m response pipe_name request) (\<lambda>_. Inr (response, nonce m)))), w))
       (receive_message C cache w)"

definition propose ::
    "'h ext \<Rightarrow> ('w, 'z) client_env_scheme \<Rightarrow> replay_nonce_cache \<Rightarrow> string \<Rightarrow> plan \<Rightarrow> 'w \<Rightarrow>
     ((any_error + (worker_proposal \<times> string)) \<times> 'w) option" where
  "propose E C cache pipe_name p w =
     (case st_then (client_proposal_request E C p pipe_name w) (\<lambda>request w.
        st_then (client_send_message C request w) (\<lambda>_ w. (Inr request, w))) of
        (Inl e, w) \<Rightarrow> Some (Inl e, w)
      | (Inr request, w) \<Rightarrow> receive_proposal E C cache pipe_name request w)"

section \<open>The approval\<close>

text \<open>The prompt waits for a line without a limit: \<open>None\<close> is an operator who never answers.\<close>

definition client_approval_digest ::
    "('w, 'z) client_env_scheme \<Rightarrow> string option \<Rightarrow> 'w \<Rightarrow> ((any_error + string) \<times> 'w) option" where
  "client_approval_digest C provided w =
     (case provided of
        Some v \<Rightarrow> Some (Inr v, w)
      | None \<Rightarrow>
          map_option (\<lambda>line.
            st_then (any_from AnyText line) (\<lambda>v w.
              if v = [] then (Inl (AnyText ''worker proposal was not approved''), w) else (Inr v, w)))
            (read_approval C w))"

definition client_approval_request ::
    "'h ext \<Rightarrow> ('w, 'z) client_env_scheme \<Rightarrow> string \<Rightarrow> worker_proposal \<Rightarrow> string \<Rightarrow> string \<Rightarrow> 'w \<Rightarrow>
     (any_error + broker_message) \<times> 'w" where
  "client_approval_request E C pipe_name response proposal_nonce operator_digest w =
     (if operator_digest \<noteq> proposed_digest response
      then (Inl (AnyText ''--approve-digest does not match the worker proposal''), w)
      else
        let (n, w) = new_nonce C w in
        (Inr \<lparr>message_version = protocol_version,
           message_binding = \<lparr>bound_session_id = pipe_name, bound_plan_id = uuid_text E (plan_id (proposed_plan response)),
             bound_plan_digest = proposed_digest response, reply_to = Some proposal_nonce\<rparr>,
           nonce = n, message_kind = ''plan.approve'',
           message_payload = obj [field ''approvedDigest'' (JString operator_digest)]\<rparr>, w))"

section \<open>Control and result\<close>

definition remaining_control_time ::
    "('w, 'z) broker_env_scheme \<Rightarrow> instant \<Rightarrow> 'w \<Rightarrow> (any_error + duration) \<times> 'w" where
  "remaining_control_time C limit w =
     (let (t, w) = instant_now C w in
      if limit - t = 0 then (Inl (AnyText ''worker control exchange exceeded its two-minute deadline''), w)
      else (Inr (limit - t), w))"

definition send_control_message ::
    "('w, 'z) broker_env_scheme \<Rightarrow> broker_message \<Rightarrow> instant \<Rightarrow> 'w \<Rightarrow> (any_error + unit) \<times> 'w" where
  "send_control_message C m limit w =
     st_then (remaining_control_time C limit w) (\<lambda>timeout w. transport_send C m timeout w)"

datatype approval_send = SendApproval | SendCancellation

definition send_approval_with_cancellation ::
    "('w \<Rightarrow> bool \<times> 'w) \<Rightarrow> (approval_send \<Rightarrow> 'w \<Rightarrow> (any_error + unit) \<times> 'w) \<Rightarrow> 'w \<Rightarrow> (any_error + bool) \<times> 'w" where
  "send_approval_with_cancellation cancelled send w =
     (let (stop, w) = cancelled w in
      if stop then (Inl (AnyPlatform ElevationCancelled), w)
      else
        st_then (send SendApproval w) (\<lambda>_ w.
          let (stop, w) = cancelled w in
          if \<not> stop then (Inr False, w) else st_then (send SendCancellation w) (\<lambda>_ w. (Inr True, w))))"

definition send_cancellation ::
    "('w, 'z) broker_env_scheme \<Rightarrow> approval_control \<Rightarrow> instant \<Rightarrow> 'w \<Rightarrow> (any_error + unit) \<times> 'w" where
  "send_cancellation C c limit w =
     (let (n, w) = new_nonce C w in
      st_then (map_err AnyPlatform (cancellation c n), w) (\<lambda>m w. send_control_message C m limit w))"

definition authorize_control ::
    "('w, 'z) client_env_scheme \<Rightarrow> broker_message \<Rightarrow> approval_control \<Rightarrow> instant \<Rightarrow> 'w \<Rightarrow> (any_error + bool) \<times> 'w" where
  "authorize_control C approval c limit w =
     send_approval_with_cancellation (console_cancelled C)
       (\<lambda>outbound w. case outbound of
           SendApproval \<Rightarrow> send_control_message C approval limit w
         | SendCancellation \<Rightarrow> send_cancellation C c limit w) w"

definition start_control ::
    "('w, 'z) client_env_scheme \<Rightarrow> broker_message \<Rightarrow> 'w \<Rightarrow> ((any_error + (approval_control \<times> instant)) \<times> 'w) option" where
  "start_control C approval w =
     (let (started, w) = instant_now C w in
      case approval_control_new approval started of
        None \<Rightarrow> None
      | Some (Inl e) \<Rightarrow> Some (Inl (AnyPlatform e), w)
      | Some (Inr c) \<Rightarrow> Some (
          st_then (any_from AnyPlatform (install_console C w)) (\<lambda>_ w. (Inr (c, started + two_minutes), w))))"

definition receive_control_message ::
    "('w, 'z) broker_env_scheme \<Rightarrow> instant \<Rightarrow> 'w \<Rightarrow> (any_error + broker_message option) \<times> 'w" where
  "receive_control_message C limit w =
     st_then (remaining_control_time C limit w) (\<lambda>remaining w.
       case pipe_receive_timeout C (min (50 * 10 ^ 6) remaining) w of
         (Inl e, w) \<Rightarrow> (Inl (AnyPlatform e), w)
       | (Inr None, w) \<Rightarrow> (Inr None, w)
       | (Inr (Some frame), w) \<Rightarrow>
           st_then (remaining_control_time C limit w) (\<lambda>_ w.
             (map_err AnyPlatform (and_then (frame_decode (de_message C) frame) (\<lambda>m. Inr (Some m))), w)))"

definition progress_action_belongs_to_plan :: "uuid option \<Rightarrow> uuid list \<Rightarrow> bool" where
  "progress_action_belongs_to_plan action planned \<longleftrightarrow>
     (case action of None \<Rightarrow> True | Some a \<Rightarrow> list_ex (\<lambda>candidate. candidate = a) planned)"

definition validate_progress_action :: "worker_progress \<Rightarrow> plan \<Rightarrow> any_error + unit" where
  "validate_progress_action p plan =
     (case progress_action p of
        None \<Rightarrow> Inr ()
      | Some a \<Rightarrow>
          if \<not> progress_action_belongs_to_plan (Some a) (map action_id (plan_actions plan))
          then Inl (AnyText ''worker progress names an action outside the approved proposal'') else Inr ())"

definition parse_worker_result ::
    "(jvalue \<Rightarrow> string + worker_result) \<Rightarrow> broker_message \<Rightarrow> uuid \<Rightarrow> uuid \<Rightarrow> digest \<Rightarrow> any_error + worker_result" where
  "parse_worker_result dec reply expected_plan_id expected_run_id expected_digest =
     (if message_kind reply \<noteq> ''plan.result''
      then Inl (AnyText ''worker did not return the required plan.result reply kind'')
      else
        and_then (map_err AnyText (dec (message_payload reply))) (\<lambda>r.
        and_then (map_err AnyDomain (validate_worker_result r)) (\<lambda>_.
          if worker_plan_id r \<noteq> expected_plan_id \<or> worker_run_id r \<noteq> expected_run_id \<or> worker_plan_digest r \<noteq> expected_digest
          then Inl (AnyText ''worker result payload is not bound to the approved plan and run'') else Inr r)))"

definition parse_proposed_result ::
    "(jvalue \<Rightarrow> string + worker_result) \<Rightarrow> broker_message \<Rightarrow> worker_proposal \<Rightarrow> any_error + worker_result" where
  "parse_proposed_result dec reply response =
     and_then (map_err AnyText (from_str (proposed_digest response))) (\<lambda>d.
       parse_worker_result dec reply (plan_id (proposed_plan response)) (plan_run_id (proposed_plan response)) d)"

definition accept_control_message ::
    "('w, 'z) client_env_scheme \<Rightarrow> approval_control \<Rightarrow> broker_message \<Rightarrow> worker_proposal \<Rightarrow> 'w \<Rightarrow>
     ((any_error + worker_result option) \<times> approval_control \<times> 'w) option" where
  "accept_control_message C c reply response w =
     (let (t, w) = instant_now C w in
      case accept_worker_message (dec_progress C) c reply t of
        None \<Rightarrow> None
      | Some (Inl e, c) \<Rightarrow> Some (Inl (AnyPlatform e), c, w)
      | Some (Inr (Some p), c) \<Rightarrow>
          (case validate_progress_action p (proposed_plan response) of
             Inl e \<Rightarrow> Some (Inl e, c, w)
           | Inr _ \<Rightarrow> Some (Inr None, c, write_progress C p w))
      | Some (Inr None, c) \<Rightarrow> Some (and_then (parse_proposed_result (dec_result C) reply response) (\<lambda>r. Inr (Some r)), c, w))"

definition send_requested_cancellation ::
    "('w, 'z) client_env_scheme \<Rightarrow> approval_control \<Rightarrow> bool \<Rightarrow> instant \<Rightarrow> 'w \<Rightarrow> (any_error + bool) \<times> 'w" where
  "send_requested_cancellation C c sent limit w =
     (if sent then (Inr sent, w)
      else
        let (stop, w) = console_cancelled C w in
        if \<not> stop then (Inr sent, w) else st_then (send_cancellation C c limit w) (\<lambda>_ w. (Inr True, w)))"

text \<open>One turn: a message, if there is one, and the cancellation that was asked for.\<close>

partial_function (option) receive_result ::
    "('w, 'z) client_env_scheme \<Rightarrow> worker_proposal \<Rightarrow> instant \<Rightarrow> approval_control \<Rightarrow> bool \<Rightarrow> 'w \<Rightarrow>
     ((any_error + worker_result) \<times> 'w) option" where
  "receive_result C response limit c sent w =
     (case receive_control_message C limit w of
        (Inl e, w) \<Rightarrow> Some (Inl e, w)
      | (Inr reply, w) \<Rightarrow>
          Option.bind (case reply of None \<Rightarrow> Some (Inr None, c, w) | Some m \<Rightarrow> accept_control_message C c m response w)
            (\<lambda>(x, c, w).
              case x of
                Inl e \<Rightarrow> Some (Inl e, w)
              | Inr (Some r) \<Rightarrow> Some (Inr r, w)
              | Inr None \<Rightarrow>
                  (case send_requested_cancellation C c sent limit w of
                     (Inl e, w) \<Rightarrow> Some (Inl e, w)
                   | (Inr sent, w) \<Rightarrow> receive_result C response limit c sent w)))"

definition map_worker_exit_status :: "launch_status \<Rightarrow> exit_code" where
  "map_worker_exit_status status =
     (case status of
        LaunchExited code \<Rightarrow>
          if code = as_i32 ExCompleted then ExCompleted
          else if code = as_i32 ExWarnings then ExWarnings
          else if code = as_i32 ExUnsupported then ExUnsupported
          else if code = as_i32 ExRejected then ExRejected
          else if code = as_i32 ExCancelled then ExCancelled
          else ExExecutionFailure
      | LaunchTimedOut \<Rightarrow> ExExecutionFailure
      | LaunchCancelled \<Rightarrow> ExCancelled)"

definition worker_exit :: "('w, 'z) client_env_scheme \<Rightarrow> 'w \<Rightarrow> (any_error + exit_code) \<times> 'w" where
  "worker_exit C w =
     (case join_launcher C w of
        (LauncherPanicked, w) \<Rightarrow> (Inl (AnyText ''elevation launcher panicked''), w)
      | (LauncherFailed e, w) \<Rightarrow> (Inl (AnyPlatform e), w)
      | (LauncherReturned status, w) \<Rightarrow> (Inr (map_worker_exit_status status), w))"

definition reconcile_worker_exit :: "worker_result \<Rightarrow> exit_code \<Rightarrow> any_error + unit" where
  "reconcile_worker_exit r code =
     (if code \<noteq> for_status (final_status r)
      then Inl (AnyText ''worker process exit disagrees with its authenticated plan.result payload'') else Inr ())"

definition client_finish ::
    "'h ext \<Rightarrow> ('w, 'z) client_env_scheme \<Rightarrow> worker_proposal \<Rightarrow> broker_message \<Rightarrow> 'w \<Rightarrow> ((any_error + exit_code) \<times> 'w) option" where
  "client_finish E C response approval w =
     (case start_control C approval w of
        None \<Rightarrow> None
      | Some (Inl e, w) \<Rightarrow> Some (Inl e, w)
      | Some (Inr (c, limit), w) \<Rightarrow>
     (case authorize_control C approval c limit w of
        (Inl e, w) \<Rightarrow> Some (Inl e, w)
      | (Inr sent, w) \<Rightarrow>
     (case receive_result C response limit c sent w of
        None \<Rightarrow> None
      | Some (Inl e, w) \<Rightarrow> Some (Inl e, w)
      | Some (Inr r, w) \<Rightarrow> Some (
          st_then (worker_exit C w) (\<lambda>code w.
          st_then (reconcile_worker_exit r code, w) (\<lambda>_ w.
          st_then (any_from AnyText (print_json C (worker_result_json E r) w)) (\<lambda>_ w. (Inr code, w))))))))"

definition shown_proposal :: "'h ext \<Rightarrow> worker_proposal \<Rightarrow> jvalue" where
  "shown_proposal E response = obj [
     field ''status'' (JString ''proposal''), field ''digest'' (JString (proposed_digest response)),
     field ''plan'' (plan_json E (proposed_plan response))]"

definition apply_run ::
    "'h ext \<Rightarrow> ('w, 'z) client_env_scheme \<Rightarrow> plan \<Rightarrow> string option \<Rightarrow> 'w \<Rightarrow> ((any_error + exit_code) \<times> 'w) option" where
  "apply_run E C p preapproved w =
     (case start_worker C p w of
        None \<Rightarrow> None
      | Some (Inl e, w) \<Rightarrow> Some (Inl e, w)
      | Some (Inr (pipe_name, cache), w) \<Rightarrow>
     (case propose E C cache pipe_name p w of
        None \<Rightarrow> None
      | Some (Inl e, w) \<Rightarrow> Some (Inl e, w)
      | Some (Inr (response, proposal_nonce), w) \<Rightarrow>
     (case any_from AnyText (print_json C (shown_proposal E response) w) of
        (Inl e, w) \<Rightarrow> Some (Inl e, w)
      | (Inr _, w) \<Rightarrow>
     (case client_approval_digest C preapproved w of
        None \<Rightarrow> None
      | Some operator \<Rightarrow>
     (case st_then operator (\<lambda>operator w.
          client_approval_request E C pipe_name response proposal_nonce operator w) of
        (Inl e, w) \<Rightarrow> Some (Inl e, w)
      | (Inr approval, w) \<Rightarrow> client_finish E C response approval w)))))"

end
