(* ===== verification/Worker_Session.thy ===== *)
theory Worker_Session
  imports Worker_Broker
begin

text \<open>
  What a session of the worker guarantees. The locale \<open>pipe_relation\<close> carries a relation between worlds through
  every function that uses the pipe and the clock; it serves the passing of time, which bounds the session, and
  the record of the frames that were sent.
\<close>

section \<open>Relations kept by the pipe\<close>

text \<open>All progress frames of a session are allowed.\<close>

definition progress_ok :: "'h ext \<Rightarrow> ('w, 'z) broker_env_scheme \<Rightarrow> (byte list \<Rightarrow> bool) \<Rightarrow> approval_control \<Rightarrow> bool" where
  "progress_ok E B Ok c \<longleftrightarrow>
     (\<forall>p m f n. progress_message E c p n = Inr m \<longrightarrow> frame_encode (ser_message B) m = Inr f \<longrightarrow> Ok f)"

lemma progress_ok_binding: "control_binding c' = control_binding c \<Longrightarrow> progress_ok E B Ok c' = progress_ok E B Ok c"
  by (simp add: progress_ok_def progress_message_def control_message_def)

lemma accept_envelope_binding:
  "accept_envelope c m t = Some (x, d) \<Longrightarrow> control_binding d = control_binding c"
  by (auto simp: accept_envelope_def Let_def split: sum.splits if_splits option.splits Option.bind_splits)

lemma accept_cancellation_binding:
  "accept_cancellation c m t = Some (x, d) \<Longrightarrow> control_binding d = control_binding c"
  by (auto simp: accept_cancellation_def dest!: accept_envelope_binding split: sum.splits if_splits Option.bind_splits)

lemma receive_cancellation_binding:
  "receive_cancellation E B c limit w = Some (x, c', w') \<Longrightarrow> control_binding c' = control_binding c"
  by (auto simp: receive_cancellation_def Let_def dest: accept_cancellation_binding
      split: prod.splits sum.splits option.splits)

locale pipe_relation =
  fixes B :: "('w, 'z) broker_env_scheme"
    and R :: "'w \<Rightarrow> 'w \<Rightarrow> bool"
    and Ok :: "byte list \<Rightarrow> bool"
  assumes refl: "R w w"
    and trans: "R a b \<Longrightarrow> R b c \<Longrightarrow> R a c"
    and receive: "R w (snd (pipe_receive B w))"
    and receive_timeout: "R w (snd (pipe_receive_timeout B d w))"
    and send: "Ok f \<Longrightarrow> R w (snd (pipe_send B f w))"
    and send_timeout: "Ok f \<Longrightarrow> R w (snd (pipe_send_timeout B f d w))"
    and instant: "R w (snd (instant_now B w))"
    and nonce_draw: "R w (snd (new_nonce B w))"
begin

lemma st_then:
  assumes "R w (snd r)" "\<And>a w'. r = (Inr a, w') \<Longrightarrow> R w' (snd (f a w'))"
  shows "R w (snd (st_then r f))"
  using assms trans by (cases r; cases "fst r") (auto simp: st_then_def)

lemma st_then_from:
  assumes "R w (snd r)" "\<And>a w'. r = (Inr a, w') \<Longrightarrow> R w w' \<Longrightarrow> R w (snd (f a w'))"
  shows "R w (snd (st_then r f))"
  using assms by (cases r; cases "fst r") (auto simp: st_then_def)

lemma any_from: "R w (snd r) \<Longrightarrow> R w (snd (any_from g r))"
  by (cases r) (simp add: any_from_def)

lemma require_time: "R w (snd (require_time B limit w))"
  using instant [of w] by (cases "instant_now B w") (simp add: require_time_def)

lemma transport_receive: "R w (snd (transport_receive B d w))"
  using receive_timeout [of w d] by (auto simp: transport_receive_def split: prod.splits sum.splits option.splits)

lemma transport_send:
  assumes "\<And>f. frame_encode (ser_message B) m = Inr f \<Longrightarrow> Ok f"
  shows "R w (snd (transport_send B m d w))"
proof (cases "and_then (message_validate m) (\<lambda>_. frame_encode (ser_message B) m)")
  case (Inr f)
  then have "Ok f" using assms by (auto simp: res_simps)
  then show ?thesis using Inr by (simp add: transport_send_def any_from send_timeout)
qed (simp add: transport_send_def refl)

lemma poll_message: "R w (snd (poll_message B limit w))"
  unfolding poll_message_def
  by (auto intro!: st_then_from trans [OF _ transport_receive] trans [OF _ require_time] refl split: option.split)

lemma worker_send_message:
  assumes "\<And>f. frame_encode (ser_message B) m = Inr f \<Longrightarrow> Ok f"
  shows "R w (snd (worker_send_message B m w))"
  using assms by (auto simp: worker_send_message_def refl any_from send split: sum.split)

lemma report:
  assumes "\<And>m f n. progress_message E c \<lparr>phase = stage, progress_action = action\<rparr> n = Inr m \<Longrightarrow>
    frame_encode (ser_message B) m = Inr f \<Longrightarrow> Ok f"
  shows "R w (snd (report E B c stage action limit w))"
proof -
  obtain n w1 where n: "new_nonce B w = (n, w1)" by fastforce
  have "R w1 (snd (report E B c stage action limit w))"
    unfolding report_def n Let_def case_prod_conv
  proof (intro st_then require_time)
    fix m w2 t w3
    assume "(map_err AnyPlatform (progress_message E c \<lparr>phase = stage, progress_action = action\<rparr> n), w1) = (Inr m, w2)"
    then show "R w3 (snd (transport_send B m t w3))"
      using assms [of n m] by (intro transport_send) auto
  qed (simp add: refl)
  then show ?thesis using nonce_draw [of w] n trans by fastforce
qed

lemma receive_message:
  "receive_message B cache w = Some (x, cache', w') \<Longrightarrow> R w w'"
  using receive [of w] instant [of "snd (pipe_receive B w)"] trans
  by (cases "pipe_receive B w"; cases "instant_now B (snd (pipe_receive B w))")
     (auto simp: receive_message_def split: sum.splits)

end

locale worker_relation = pipe_relation B R Ok
  for B :: "('w, 'z) worker_env_scheme" and R :: "'w \<Rightarrow> 'w \<Rightarrow> bool" and Ok :: "byte list \<Rightarrow> bool" +
  assumes progress: "R w (snd (next_progress B w))"
    and result: "R w (snd (try_result B w))"
    and cancel: "R w (cancel_token B w)"
    and peer: "R w (snd (accept_peer B w))"
begin

lemma report_progress: "progress_ok E B Ok c \<Longrightarrow> R w (snd (report E B c stage action limit w))"
  by (rule report) (auto simp: progress_ok_def)

lemma forward_items: "progress_ok E B Ok c \<Longrightarrow> R w0 w \<Longrightarrow> R w0 (snd (forward_items n E B c limit w))"
proof (induction n arbitrary: w)
  case (Suc n)
  have "R w0 (snd (next_progress B w))" using Suc.prems(2) progress trans by blast
  then show ?case
    using Suc.IH [OF Suc.prems(1)]
    by (auto split: prod.split option.split intro!: st_then_from trans [OF _ report_progress [OF Suc.prems(1)]])
qed simp

lemma forward_progress: "progress_ok E B Ok c \<Longrightarrow> R w (snd (forward_progress E B c limit w))"
  by (simp add: forward_progress_def forward_items refl)

lemma take_finished: "progress_ok E B Ok c \<Longrightarrow> R w (snd (take_finished E B sent c limit w))"
  using result [of w]
  by (auto simp: take_finished_def split: prod.split try_recv.split
      intro!: st_then_from trans [OF _ forward_progress] trans [OF _ require_time])

lemma receive_cancellation:
  assumes "progress_ok E B Ok c" "receive_cancellation E B c limit w = Some (x, c', w')"
  shows "R w w'"
proof -
  obtain y w1 where y: "poll_message B limit w = (y, w1)" by fastforce
  obtain t w2 where t: "instant_now B w1 = (t, w2)" by fastforce
  have 1: "R w w1" using poll_message [of w limit] y by simp
  have 2: "R w w2" using trans [OF 1 instant] t by (metis snd_conv)
  have 3: "R w (snd (report E B d st a limit (cancel_token B w2)))" if "progress_ok E B Ok d" for d st a
    using trans [OF trans [OF 2 cancel] report_progress [OF that]] .
  show ?thesis
  proof (cases "\<exists>m. y = Inr (Some m)")
    case False
    then show ?thesis using assms(2) 1 by (auto simp: receive_cancellation_def y split: sum.splits option.splits)
  next
    case True
    then obtain m where m: "y = Inr (Some m)" by blast
    obtain z d where z: "accept_cancellation c m t = Some (z, d)"
      using assms(2) by (auto simp: receive_cancellation_def y m t split: option.splits)
    have "progress_ok E B Ok d"
      using assms(1) progress_ok_binding [OF accept_cancellation_binding [OF z]] by blast
    note 3 [OF this, of CancellationPending None]
    then show ?thesis using assms(2) 2 z
      by (auto simp: receive_cancellation_def y m t split: sum.splits prod.splits)
  qed
qed

end

context worker_relation
begin

lemma turn:
  "progress_ok E B Ok c \<Longrightarrow> R w (snd (st_then (require_time B limit w) (\<lambda>_ w.
     st_then (forward_progress E B c limit w) (\<lambda>_ w. take_finished E B sent c limit w))))"
  using st_then require_time forward_progress take_finished by meson

lemma pump:
  fixes E :: "'h ext"
  assumes "pump E B sent limit c w = Some y" "progress_ok E B Ok c"
  shows "R w (snd y)"
proof -
  have "E' = E \<longrightarrow> B' = B \<longrightarrow> progress_ok E B Ok c \<longrightarrow> R w (snd y)" if "pump E' B' sent limit c w = Some y" for E' B' sent limit c w y
    using that
  proof (rule pump.raw_induct [of "\<lambda>E' B' s limit c w y. E' = E \<longrightarrow> B' = B \<longrightarrow> progress_ok E B Ok c \<longrightarrow> R w (snd y)", rotated])
    fix f :: "'h ext \<Rightarrow> ('w, 'z) worker_env_scheme \<Rightarrow> any_error + worker_result \<Rightarrow> instant \<Rightarrow> approval_control \<Rightarrow> 'w \<Rightarrow>
        ((any_error + worker_result) \<times> 'w) option"
      and E' :: "'h ext" and B' :: "('w, 'z) worker_env_scheme" and s limit c w y
    let ?turn = "st_then (require_time B' limit w) (\<lambda>_ w.
        st_then (forward_progress E' B' c limit w) (\<lambda>_ w. take_finished E' B' s c limit w))"
    assume IH: "\<And>E' B' s limit c w y. f E' B' s limit c w = Some y \<Longrightarrow>
        E' = E \<longrightarrow> B' = B \<longrightarrow> progress_ok E B Ok c \<longrightarrow> R w (snd y)"
    assume y: "(case ?turn of
          (Inl e, w) \<Rightarrow> Some (Inl e, w)
        | (Inr (Some r), w) \<Rightarrow> Some (Inr r, w)
        | (Inr None, w) \<Rightarrow>
            Option.bind (receive_cancellation E' B' c limit w) (\<lambda>(x, c, w).
              case x of Inl e \<Rightarrow> Some (Inl e, w) | Inr _ \<Rightarrow> f E' B' s limit c w)) = Some y"
    show "E' = E \<longrightarrow> B' = B \<longrightarrow> progress_ok E B Ok c \<longrightarrow> R w (snd y)"
    proof (intro impI)
      assume same: "E' = E" "B' = B" and ok: "progress_ok E B Ok c"
      obtain z w1 where z: "?turn = (z, w1)" by fastforce
      have w1: "R w w1" using turn [OF ok, of w limit s] z same by simp
      show "R w (snd y)"
      proof (cases "z = Inr None")
        case True
        then obtain x c' w2 where x: "receive_cancellation E B c limit w1 = Some (x, c', w2)"
          using y z same by (auto split: Option.bind_splits)
        have w2: "R w w2" using trans [OF w1 receive_cancellation [OF ok x]] .
        have "progress_ok E B Ok c'" using ok progress_ok_binding [OF receive_cancellation_binding [OF x]] by blast
        then show ?thesis using y z x True same w2 IH [of E B s limit c' w2 y] trans by (cases x) auto
      qed (use y z w1 in \<open>auto split: sum.splits option.splits\<close>)
    qed
  qed
  then show ?thesis using assms by blast
qed

end

section \<open>The session ends\<close>

text \<open>
  What is assumed of time: the monotonic clock does not go back, and a wait that returns without a message because
  its positive timeout has passed took time.
\<close>

definition ticking :: "('w, 'z) worker_env_scheme \<Rightarrow> ('w \<Rightarrow> instant) \<Rightarrow> bool" where
  "ticking B clock \<longleftrightarrow> (\<forall>w.
     clock w \<le> fst (instant_now B w) \<and> fst (instant_now B w) \<le> clock (snd (instant_now B w)) \<and>
     clock w \<le> clock (snd (pipe_receive B w)) \<and> (\<forall>d. clock w \<le> clock (snd (pipe_receive_timeout B d w))) \<and>
     (\<forall>f. clock w \<le> clock (snd (pipe_send B f w))) \<and> (\<forall>f d. clock w \<le> clock (snd (pipe_send_timeout B f d w))) \<and>
     clock w \<le> clock (snd (new_nonce B w)) \<and> clock w \<le> clock (snd (next_progress B w)) \<and>
     clock w \<le> clock (snd (try_result B w)) \<and> clock w \<le> clock (cancel_token B w) \<and>
     clock w \<le> clock (snd (accept_peer B w)) \<and>
     (\<forall>d. 0 < d \<longrightarrow> fst (pipe_receive_timeout B d w) = Inr None \<longrightarrow> clock w < clock (snd (pipe_receive_timeout B d w))))"

lemma ticking_relation: "ticking B clock \<Longrightarrow> worker_relation B (\<lambda>w w'. clock w \<le> clock w') (\<lambda>_. True)"
proof unfold_locales
  fix w d f
  assume t: "ticking B clock"
  show "clock w \<le> clock (snd (instant_now B w))" using t unfolding ticking_def by (meson order_trans)
qed (auto simp: ticking_def)

lemma ticking_pipe:
  assumes "ticking B clock"
  shows "clock w \<le> clock (snd (pipe_receive B w))" "instant_now B w = (t, w') \<Longrightarrow> clock w \<le> t \<and> t \<le> clock w'"
  using assms unfolding ticking_def by (simp, metis fst_conv snd_conv)

lemma require_time_Inr:
  assumes "ticking B clock" "require_time B limit w = (Inr d, w')"
  shows "clock w < limit" "clock w' \<ge> clock w" "0 < d"
proof -
  obtain t where t: "instant_now B w = (t, w')" "t < limit" "d = limit - t"
    using assms(2) by (cases "instant_now B w") (auto simp: require_time_def split: if_splits)
  have "clock w \<le> t" "t \<le> clock w'" using assms(1) t(1) unfolding ticking_def by (metis fst_conv snd_conv)+
  then show "clock w < limit" "clock w' \<ge> clock w" "0 < d" using t by auto
qed

text \<open>A turn without a message took time.\<close>

lemma poll_message_ticks:
  assumes B: "ticking B clock" and "poll_message B limit w = (Inr None, w')"
  shows "clock w < limit \<and> clock w < clock w'"
proof -
  obtain d w1 where d: "require_time B limit w = (Inr d, w1)"
    "pipe_receive_timeout B (min d (50 * 10 ^ 6)) w1 = (Inr None, w')"
    using assms(2)
    by (auto simp: poll_message_def transport_receive_def res_simps split: option.splits prod.splits sum.splits)
  note r = require_time_Inr [OF B d(1)]
  have "clock w1 < clock w'" using B r(3) d(2) unfolding ticking_def by (metis fst_conv snd_conv min_less_iff_conj zero_less_numeral zero_less_power mult_pos_pos)
  then show ?thesis using r by simp
qed

lemma accept_cancellation_once:
  assumes "accept_cancellation c m t = Some (Inr u, d)"
  shows "\<not> cancellation_seen c \<and> cancellation_seen d"
proof -
  obtain x c' where e: "accept_envelope c m t = Some (x, c')"
    using assms by (auto simp: accept_cancellation_def split: Option.bind_splits)
  have "cancellation_seen c' = cancellation_seen c"
    using e by (auto simp: accept_envelope_def Let_def split: sum.splits if_splits option.splits Option.bind_splits)
  then show ?thesis using assms e by (auto simp: accept_cancellation_def split: sum.splits if_splits)
qed

definition session_at :: "('w \<Rightarrow> instant) \<Rightarrow> broker_message \<Rightarrow> instant \<Rightarrow> approval_control \<Rightarrow> 'w \<Rightarrow> bool" where
  "session_at clock a start c w \<longleftrightarrow> (\<exists>t log. session_inv a start t c \<and> log_ok a start c log \<and> t \<le> clock w)"

lemma session_at_later: "session_at clock a start c w \<Longrightarrow> clock w \<le> clock w' \<Longrightarrow> session_at clock a start c w'"
  unfolding session_at_def by (meson order_trans)

definition turns_left :: "('w \<Rightarrow> instant) \<Rightarrow> instant \<Rightarrow> approval_control \<Rightarrow> 'w \<Rightarrow> nat" where
  "turns_left clock limit c w = (limit - clock w) + (if cancellation_seen c then 0 else 1)"

lemma receive_cancellation_returns:
  assumes B: "ticking B clock" and s: "session_at clock a start c w"
  obtains x c' w' where "receive_cancellation E B c limit w = Some (x, c', w')"
    "x = Inr () \<Longrightarrow> session_at clock a start c' w' \<and> turns_left clock limit c' w' < turns_left clock limit c w"
proof -
  note R = ticking_relation [OF B]
  have p: "progress_ok E B (\<lambda>_. True) d" for d by (simp add: progress_ok_def)
  obtain y w1 where y: "poll_message B limit w = (y, w1)" by fastforce
  have w1: "clock w \<le> clock w1"
    using pipe_relation.poll_message [OF worker_relation.axioms(1) [OF R], of w limit] y by simp
  consider e where "y = Inl e" | "y = Inr None" | m where "y = Inr (Some m)" by (cases y) auto
  then show thesis
  proof cases
    case 1
    then show thesis using that [of "Inl e" c w1] y by (simp add: receive_cancellation_def)
  next
    case 2
    then have "clock w < limit \<and> clock w < clock w1" using poll_message_ticks [OF B] y by blast
    then have "turns_left clock limit c w1 < turns_left clock limit c w" unfolding turns_left_def by auto
    then show thesis
      using that [of "Inr ()" c w1] y 2 session_at_later [OF s w1] by (simp add: receive_cancellation_def)
  next
    case (3 m)
    obtain t w2 where t: "instant_now B w1 = (t, w2)" by fastforce
    have t2: "clock w1 \<le> t" "t \<le> clock w2" using B t unfolding ticking_def by (metis fst_conv snd_conv)+
    obtain t0 log where s0: "session_inv a start t0 c" "log_ok a start c log" "t0 \<le> t"
      using s w1 t2 unfolding session_at_def by fastforce
    obtain z d where z: "accept_cancellation c m t = Some (z, d)" "session_inv a start t d"
      "log_ok a start d (case z of Inl e \<Rightarrow> log | Inr u \<Rightarrow> log @ [(m, t)])"
      using cancellation_session [OF s0] by blast
    obtain r w3 where r: "report E B d CancellationPending None limit (cancel_token B w2) = (r, w3)" by fastforce
    have "clock w2 \<le> clock w3"
      using worker_relation.cancel [OF R, of w2] worker_relation.report_progress [OF R p, of "cancel_token B w2"] r
      by (metis order_trans snd_conv)
    then have "session_at clock a start d w3" "clock w \<le> clock w3"
      using z t2 w1 unfolding session_at_def by (meson order_trans)+
    moreover have "z = Inr () \<Longrightarrow> \<not> cancellation_seen c \<and> cancellation_seen d"
      using z(1) accept_cancellation_once by blast
    ultimately show thesis
      using that [of r d w3] that [of "Inl (AnyPlatform (projl z))" d w2] y t z(1) r 3
      by (cases z) (auto simp: receive_cancellation_def turns_left_def)
  qed
qed

lemma pump_returns:
  assumes B: "ticking B clock"
  shows "session_at clock a start c w \<Longrightarrow> \<exists>y. pump E B sent limit c w = Some y"
proof (induction "turns_left clock limit c w" arbitrary: c w rule: less_induct)
  case less
  note R = ticking_relation [OF B]
  have p: "progress_ok E B (\<lambda>_. True) d" for d by (simp add: progress_ok_def)
  let ?turn = "st_then (require_time B limit w) (\<lambda>_ w.
        st_then (forward_progress E B c limit w) (\<lambda>_ w. take_finished E B sent c limit w))"
  have "clock w \<le> clock (snd ?turn)"
    using pipe_relation.st_then [OF worker_relation.axioms(1) [OF R]] pipe_relation.require_time [OF worker_relation.axioms(1) [OF R]]
      worker_relation.forward_progress [OF R p] worker_relation.take_finished [OF R p]
    by meson
  then obtain y w1 where y: "?turn = (y, w1)" "clock w \<le> clock w1" by (cases ?turn) auto
  show ?case
  proof (cases "y = Inr None")
    case True
    obtain x c' w' where x: "receive_cancellation E B c limit w1 = Some (x, c', w')"
      "x = Inr () \<Longrightarrow> session_at clock a start c' w' \<and> turns_left clock limit c' w' < turns_left clock limit c w1"
      using receive_cancellation_returns [OF B session_at_later [OF less.prems y(2)]] by blast
    have "turns_left clock limit c w1 \<le> turns_left clock limit c w" using y(2) by (simp add: turns_left_def)
    then show ?thesis
      using less.hyps [of c' w'] x True y(1) by (cases x) (auto simp: pump.simps [of E B sent limit c w])
  next
    case False
    then show ?thesis using y(1) by (cases y) (auto simp: pump.simps [of E B sent limit c w] split: option.split)
  qed
qed

lemma control_session_returns_value:
  assumes B: "ticking B clock"
  shows "\<exists>y. control_session E B approval sent limit w = Some y"
proof -
  note R = ticking_relation [OF B]
  have p: "progress_ok E B (\<lambda>_. True) d" for d by (simp add: progress_ok_def)
  obtain t w1 where t: "instant_now B w = (t, w1)" by fastforce
  have t1: "t \<le> clock w1" using B t unfolding ticking_def by (metis fst_conv snd_conv)
  consider e where "approval_control_new approval t = Some (Inl e)"
    | c where "approval_control_new approval t = Some (Inr c)" "session_inv approval t t c" "log_ok approval t c []"
    using approval_session [of approval t]
    by (cases "message_validate approval"; cases "message_kind approval = ''plan.approve''") (auto simp: approval_control_new_def)
  then show ?thesis
  proof cases
    case (2 c)
    obtain r w2 where r: "report E B c Preparing None limit w1 = (r, w2)" by fastforce
    have "clock w1 \<le> clock w2"
      using worker_relation.report_progress [OF R p, of w1] r by (metis snd_conv)
    then have "session_at clock approval t c w2" using 2 t1 unfolding session_at_def by (meson order_trans)
    then show ?thesis using pump_returns [OF B] 2(1) t r by (cases r) (auto simp: control_session_def)
  qed (simp add: control_session_def t)
qed

section \<open>What the worker returns\<close>

definition locked_result :: "worker_apply_authority \<Rightarrow> worker_result \<Rightarrow> bool" where
  "locked_result authority r \<longleftrightarrow> final_status r \<in> {StUnsupported, StRejected} \<and> receipts r = [] \<and>
     artifact_manifest r = [] \<and> journal_terminal_hash r = None \<and>
     worker_plan_id r = plan_id (session_plan (authority_session authority)) \<and>
     worker_run_id r = plan_run_id (session_plan (authority_session authority)) \<and>
     worker_plan_digest r = session_digest (authority_session authority)"

lemma approve_locked: "\<exists>e. worker_approve E authority d lv root = Inl e"
proof (cases "approve_at_root E (authority_session authority) d lv root")
  case (Inr v)
  let ?p = "session_plan (authority_session authority)"
  have v: "plan_structure_ok E ?p" "approved_verified v = VerifiedPlan ?p"
    using Inr by (auto simp: approve_at_root_Inr_iff)
  then obtain action others where a: "plan_actions ?p = action # others"
    by (cases "plan_actions ?p") (auto simp: plan_structure_ok_def plan_actions_ok_def graph_fields_ok_def)
  obtain msg where "validate_action_eligibility (action_capability action) = Inl (ApplyIneligible (action_capability action) msg)"
    using eligibility_locked by blast
  then show ?thesis by (simp add: worker_approve_def Inr v(2) validate_apply_eligibility_def a)
qed (simp add: worker_approve_def)

lemma binding_failure_Inr:
  "binding_failure b status why = Inr r \<Longrightarrow> validate_worker_result r = Inr () \<and> final_status r = status \<and> receipts r = [] \<and>
     artifact_manifest r = [] \<and> journal_terminal_hash r = None \<and> worker_plan_id r = binding_plan_id b \<and>
     worker_run_id r = binding_run_id b \<and> worker_plan_digest r = binding_digest b"
  by (auto simp: binding_failure_def Let_def res_simps)

text \<open>The executor thread always sends a result, and it is an error or a refusal that names the retained plan.\<close>

lemma apply_result_locked:
  obtains sent where "apply_result E M dec authority request approval x = Some sent"
    "\<And>r. sent = Inr r \<Longrightarrow> locked_result authority r \<and> validate_worker_result r = Inr ()"
proof -
  let ?p = "session_plan (authority_session authority)"
  let ?b = "\<lparr>binding_plan_id = plan_id ?p, binding_run_id = plan_run_id ?p,
    binding_digest = session_digest (authority_session authority)\<rparr>"
  have fail: "locked_result authority r \<and> validate_worker_result r = Inr ()"
    if "binding_failure ?b status why = Inr r" "status \<in> {StUnsupported, StRejected}" for status why r
    using binding_failure_Inr [OF that(1)] that(2) by (auto simp: locked_result_def)
  have exec: "\<exists>status why. execution_result E M (worker_approve E authority d lv root) ?b y = Some (binding_failure ?b status why) \<and>
      status \<in> {StUnsupported, StRejected}" for d lv root y
  proof -
    obtain e where "worker_approve E authority d lv root = Inl e" using approve_locked by blast
    then show ?thesis by (cases e) (auto simp: execution_result_def)
  qed
  have "\<exists>status why. apply_result E M dec authority request approval x = Some (binding_failure ?b status why) \<and>
      status \<in> {StUnsupported, StRejected}"
    using exec by (auto simp: apply_result_def after_revalidation_def Let_def split: prod.split sum.split)
  then show thesis using that fail by metis
qed

lemma take_finished_result:
  "take_finished E B sent c limit w = (Inr (Some r), w') \<Longrightarrow> sent = Inr r"
  by (auto simp: take_finished_def res_simps split: prod.splits try_recv.splits)

lemma pump_result:
  fixes E :: "'a ext" and B :: "('b, 'c) worker_env_scheme"
  assumes "pump E B sent limit c w = Some y"
  shows "fst y = Inr r \<longrightarrow> sent = Inr r"
  using assms
proof (rule pump.raw_induct [of "\<lambda>E B s limit c w y. fst y = Inr r \<longrightarrow> s = Inr r", rotated])
  fix f :: "'a ext \<Rightarrow> ('b, 'c) worker_env_scheme \<Rightarrow> any_error + worker_result \<Rightarrow> instant \<Rightarrow> approval_control \<Rightarrow> 'b \<Rightarrow>
      ((any_error + worker_result) \<times> 'b) option"
    and E B s limit c w y
  assume IH: "\<And>E B s limit c w y. f E B s limit c w = Some y \<Longrightarrow> fst y = Inr r \<longrightarrow> s = Inr r"
  assume "(case st_then (require_time B limit w) (\<lambda>_ w.
        st_then (forward_progress E B c limit w) (\<lambda>_ w. take_finished E B s c limit w)) of
        (Inl e, w) \<Rightarrow> Some (Inl e, w)
      | (Inr (Some r), w) \<Rightarrow> Some (Inr r, w)
      | (Inr None, w) \<Rightarrow>
          Option.bind (receive_cancellation E B c limit w) (\<lambda>(x, c, w).
            case x of Inl e \<Rightarrow> Some (Inl e, w) | Inr _ \<Rightarrow> f E B s limit c w)) = Some y"
  then show "fst y = Inr r \<longrightarrow> s = Inr r"
    by (auto split: prod.splits sum.splits option.splits Option.bind_splits simp: res_simps
        dest: IH take_finished_result)
qed

lemma control_session_result: "control_session E B approval sent limit w = Some (Inr r, w') \<Longrightarrow> sent = Inr r"
  by (auto simp: control_session_def dest: pump_result [where r = r] split: prod.splits option.splits sum.splits)

text \<open>The replay cache of the first messages never hangs.\<close>

lemma receive_message_returns:
  assumes receive: "\<And>w. clock w \<le> clock (snd (pipe_receive B w))"
    and now: "\<And>w t w'. instant_now B w = (t, w') \<Longrightarrow> clock w \<le> t \<and> t \<le> clock w'"
    and cache: "replay_reach t cache" "t \<le> clock w"
  obtains y cache' w' t' where "receive_message B cache w = Some (y, cache', w')" "replay_reach t' cache'" "t' \<le> clock w'"
proof -
  obtain x w1 where x: "pipe_receive B w = (x, w1)" by fastforce
  have w1: "clock w \<le> clock w1" using receive [of w] x by simp
  show thesis
  proof (cases x)
    case (Inl e)
    then show thesis using that cache w1 x by (simp add: receive_message_def)
  next
    case (Inr frame)
    let ?d = "and_then (frame_decode (de_message B) frame) (\<lambda>m. and_then (message_validate m) (\<lambda>_. Inr m))"
    show thesis
    proof (cases ?d)
      case (Inl e)
      then show thesis using that cache w1 x Inr by (simp add: receive_message_def)
    next
      case (Inr m)
      obtain t1 w2 where t1: "instant_now B w1 = (t1, w2)" by fastforce
      have t2: "clock w1 \<le> t1" "t1 \<le> clock w2" using now [OF t1] by auto
      then have le: "t \<le> t1" using cache(2) w1 by simp
      obtain y cache' where c: "replay_accept cache (nonce m) t1 = Some (y, cache')"
        using replay_accept_window [OF replay_reach_inv [OF cache(1)] le] by blast
      then have "replay_reach t1 cache'" using cache(1) le AcceptCall by blast
      then show thesis using that t2 c x Inr t1 \<open>x = Inr frame\<close> by (simp add: receive_message_def)
    qed
  qed
qed

lemma prepare_proposal_returns: "\<exists>y. prepare_proposal E B M request pipe_name m x w = Some y"
proof -
  have "prepare_worker_apply E time_max P p profile ctx t pid rid \<noteq> None" for time_max P p profile ctx t pid rid
    by (rule prepare_worker_apply_exact [of E time_max P p profile ctx t pid rid]) auto
  then have "\<exists>y. prepare_worker_apply E time_max P p profile ctx t pid rid = Some y" for time_max P p profile ctx t pid rid
    by blast
  then show ?thesis
    by (auto simp: prepare_proposal_def Let_def split: prod.split sum.split option.split) (metis option.distinct(1))
qed

lemma execute_session_returns:
  assumes "ticking B clock"
  obtains r w' where "execute_session E B M authority request approval limit x w = Some (r, w')"
    "\<And>v. r = Inr v \<Longrightarrow> locked_result authority v"
proof -
  obtain sent where s: "apply_result E M (dec_approval B) authority request approval x = Some sent"
    "\<And>r. sent = Inr r \<Longrightarrow> locked_result authority r"
    using apply_result_locked by metis
  obtain r w' where c: "control_session E B approval sent limit w = Some (r, w')"
    using control_session_returns_value [OF assms] by fastforce
  then have "r = Inr v \<Longrightarrow> sent = Inr v" for v using control_session_result [of E B approval sent limit w v w'] by simp
  then show thesis using that [of r w'] s c by (auto simp: execute_session_def)
qed

lemma prepare_proposal_time:
  assumes "ticking B clock" "prepare_proposal E B M request pipe_name m x w = Some (p, x1, w1)"
  shows "clock w \<le> clock w1"
proof -
  have "clock w \<le> clock (snd (proposal_message E B authority pipe_name n w))" for authority n
    using assms(1) by (auto simp: ticking_def proposal_message_def Let_def split: prod.split) (metis snd_conv)
  then show ?thesis
    using assms(2) by (auto simp: prepare_proposal_def Let_def split: prod.splits sum.splits option.splits) (metis snd_conv)+
qed

lemma exchange_proposal_returns:
  assumes B: "ticking B clock" and "replay_reach t cache" "t \<le> clock w"
  shows "\<exists>q cache' w'. exchange_proposal B cache pipe_name m w = Some (q, cache', w')"
proof -
  obtain s w1 where s: "worker_send_message B m w = (s, w1)" by fastforce
  have "clock w \<le> clock w1"
    using pipe_relation.worker_send_message [OF worker_relation.axioms(1) [OF ticking_relation [OF B]], of m w] s by simp
  then have "t \<le> clock w1" using assms(3) by simp
  then obtain y cache' w' where "receive_message B cache w1 = Some (y, cache', w')"
    using receive_message_returns [where B = B and clock = clock, OF ticking_pipe [OF B] assms(2)] by metis
  then show ?thesis by (cases s) (auto simp: exchange_proposal_def \<open>worker_send_message B m w = (s, w1)\<close> receive_approval_def)
qed

lemma run_windows_returns:
  assumes B: "ticking B clock"
  shows "\<exists>r w'. run_windows E B M pipe_name x w = Some (r, w') \<and> (\<forall>code. r = Inr code \<longrightarrow> code \<in> {ExUnsupported, ExRejected})"
proof -
  note R = ticking_relation [OF B]
  have stop: ?thesis if "run_windows E B M pipe_name x w = Some (Inl e, w')" for e w' using that by simp
  obtain a w1 where a: "accept_client B w = (a, w1)" by fastforce
  show ?thesis
  proof (cases a)
    case (Inl e)
    then show ?thesis using a by (simp add: run_windows_def)
  next
    case (Inr cache)
    note a = a [unfolded Inr]
    have "replay_new two_minutes 8 = Inr cache" using a by (auto simp: accept_client_def res_simps)
    then have reach: "replay_reach (clock w1) cache" by (rule NewCache)
    obtain y cache1 w2 t2 where y: "receive_message B cache w1 = Some (y, cache1, w2)" "replay_reach t2 cache1" "t2 \<le> clock w2"
      using receive_message_returns [where B = B and clock = clock, OF ticking_pipe [OF B] reach order_refl] by blast
    obtain z where z: "receive_proposal_request E B cache pipe_name w1 = Some (z, cache1, w2)"
      by (simp add: receive_proposal_request_def y)
    show ?thesis
    proof (cases z)
      case (Inl e)
      then show ?thesis using a z by (simp add: run_windows_def)
    next
      case (Inr rm)
      obtain request m where rm: "rm = (request, m)" by fastforce
      note z = z [unfolded Inr rm]
      obtain p x1 w3 where p: "prepare_proposal E B M request pipe_name m x w2 = Some (p, x1, w3)"
        using prepare_proposal_returns by (metis prod_cases3)
      have "clock w2 \<le> clock w3" using prepare_proposal_time [OF B p] .
      then have t3: "t2 \<le> clock w3" using y(3) by simp
      show ?thesis
      proof (cases p)
        case (Inl e)
        then show ?thesis using a z p by (simp add: run_windows_def)
      next
        case (Inr am)
        obtain authority message where am: "am = (authority, message)" by fastforce
        note p = p [unfolded Inr am]
        obtain q cache2 w4 where q: "exchange_proposal B cache1 pipe_name message w3 = Some (q, cache2, w4)"
          using exchange_proposal_returns [OF B y(2) t3] by blast
        show ?thesis
        proof (cases q)
          case (Inl e)
          then show ?thesis using a z p q by (simp add: run_windows_def)
        next
          case (Inr approval)
          note q = q [unfolded Inr]
          obtain t w5 where t: "instant_now B w4 = (t, w5)" by fastforce
          obtain r w6 where r: "execute_session E B M authority request approval (t + two_minutes) x1 w5 = Some (r, w6)"
            "\<And>v. r = Inr v \<Longrightarrow> locked_result authority v"
            using execute_session_returns [OF B] by metis
          obtain u w7 where u: "send_terminal E B message (nonce approval) (projr r) (t + two_minutes) w6 = (u, w7)" by fastforce
          have "for_status (final_status v) \<in> {ExUnsupported, ExRejected}" if "r = Inr v" for v
            using r(2) [OF that] by (auto simp: locked_result_def)
          then show ?thesis using a z p q t r(1) u by (cases r; cases u) (auto simp: run_windows_def)
        qed
      qed
    qed
  qed
qed

text \<open>
  C7: the worker ends and refuses. Whatever the client sends, whatever the machine and the pipe do, and however the
  threads interleave, the process ends with the exit code of an unsupported or a rejected request, as long as time
  passes while it waits.
\<close>

theorem worker_refuses:
  assumes "ticking B clock"
  shows "worker_main E B M admitted pipe_name x w \<in> {Some 3, Some 4}"
proof -
  obtain r x1 where r: "installed_digest M x = (r, x1)" by fastforce
  obtain y w' where "run_windows E B M pipe_name x1 w = Some (y, w')"
    "\<forall>code. y = Inr code \<longrightarrow> code \<in> {ExUnsupported, ExRejected}"
    using run_windows_returns [OF assms] by metis
  then show ?thesis
    by (cases admitted; cases r; cases y) (auto simp: worker_main_def worker_run_def r)
qed

text \<open>A world of nothing but time: no client, no message, no result.\<close>

definition idle_env :: "nat worker_env" where
  "idle_env = \<lparr>pipe_receive = (\<lambda>w. (Inl ReplayDetected, w)), pipe_receive_timeout = (\<lambda>d w. (Inr None, w + d)),
     pipe_send = (\<lambda>f w. (Inr (), w)), pipe_send_timeout = (\<lambda>f d w. (Inr (), w)), instant_now = (\<lambda>w. (w, w)),
     new_nonce = (\<lambda>w. (''a1'', w)), ser_message = (\<lambda>m. Inr []), de_message = (\<lambda>b. Inl ''none''),
     next_progress = (\<lambda>w. (None, w)), try_result = (\<lambda>w. (TryEmpty, w)), cancel_token = id,
     accept_peer = (\<lambda>w. (Inr (), w)), dec_request = (\<lambda>v. Inl ''none''), dec_approval = (\<lambda>v. Inl ''none'')\<rparr>"

lemma idle_ticking: "ticking idle_env id"
  by (simp add: ticking_def idle_env_def)

theorem worker_refuses_witness:
  "\<forall>M (x :: unit). worker_main id_ext idle_env M (Inr ()) ''a1'' x 0 \<in> {Some 3, Some 4}"
  by (intro allI) (rule worker_refuses [OF idle_ticking])

section \<open>What the worker sends\<close>

text \<open>The same environment with a record of the frames that were handed to the pipe.\<close>

definition logged_op :: "('w \<Rightarrow> 'r \<times> 'w) \<Rightarrow> 'w \<times> 'e list \<Rightarrow> 'r \<times> 'w \<times> 'e list" where
  "logged_op f = (\<lambda>(w, log). let (r, w) = f w in (r, w, log))"

definition logged_send :: "'e \<Rightarrow> ('w \<Rightarrow> 'r \<times> 'w) \<Rightarrow> 'w \<times> 'e list \<Rightarrow> 'r \<times> 'w \<times> 'e list" where
  "logged_send event f = (\<lambda>(w, log). let (r, w) = f w in (r, w, log @ [event]))"

definition logged :: "'w worker_env \<Rightarrow> ('w \<times> byte list list) worker_env" where
  "logged B = \<lparr>pipe_receive = logged_op (pipe_receive B), pipe_receive_timeout = (\<lambda>d. logged_op (pipe_receive_timeout B d)),
     pipe_send = (\<lambda>f. logged_send f (pipe_send B f)), pipe_send_timeout = (\<lambda>f d. logged_send f (pipe_send_timeout B f d)),
     instant_now = logged_op (instant_now B), new_nonce = logged_op (new_nonce B), ser_message = ser_message B,
     de_message = de_message B, next_progress = logged_op (next_progress B), try_result = logged_op (try_result B),
     cancel_token = (\<lambda>(w, log). (cancel_token B w, log)), accept_peer = logged_op (accept_peer B),
     dec_request = dec_request B, dec_approval = dec_approval B\<rparr>"

definition log_extends :: "('e \<Rightarrow> bool) \<Rightarrow> 'w \<times> 'e list \<Rightarrow> 'w \<times> 'e list \<Rightarrow> bool" where
  "log_extends Ok a b \<longleftrightarrow> (\<exists>fs. snd b = snd a @ fs \<and> list_all Ok fs)"

lemma log_extends_refl [simp]: "log_extends Ok w w"
  by (auto simp: log_extends_def intro: exI [of _ "[]"])

lemma log_extends_trans: "log_extends Ok a b \<Longrightarrow> log_extends Ok b c \<Longrightarrow> log_extends Ok a c"
  by (auto simp: log_extends_def)

lemma log_extends_same: "snd b = snd a \<Longrightarrow> log_extends Ok a b"
  by (auto simp: log_extends_def)

lemma log_unchanged: "log_extends (\<lambda>_. False) a b \<Longrightarrow> snd b = snd a"
  by (auto simp: log_extends_def list_all_iff)

lemma logged_op_log [simp]: "snd (snd (logged_op f w)) = snd w"
  by (simp add: logged_op_def split_beta Let_def)

lemma logged_op_extends [simp]: "log_extends Ok w (snd (logged_op f w))"
  by (auto simp: log_extends_def intro: exI [of _ "[]"])

lemma logged_send_log [simp]: "snd (snd (logged_send frame f w)) = snd w @ [frame]"
  by (simp add: logged_send_def split_beta Let_def)

lemma logged_send_any: "any_from g (logged_send frame f w) = (x, w') \<Longrightarrow> snd w' = snd w @ [frame]"
  by (auto simp: any_from_def logged_send_def split_beta Let_def)

lemma logged_send_extends: "Ok frame \<Longrightarrow> log_extends Ok w (snd (logged_send frame f w))"
  by (auto simp: log_extends_def intro: exI [of _ "[frame]"])

interpretation logged: worker_relation "logged B" "log_extends Ok" Ok for B :: "'w worker_env" and Ok
  by unfold_locales (auto simp: logged_def logged_send_extends split: prod.splits intro: log_extends_trans log_extends_same)

text \<open>The messages that a session may send after the approval \<open>a\<close>.\<close>

definition progress_frame :: "'w worker_env \<Rightarrow> broker_message \<Rightarrow> byte list \<Rightarrow> bool" where
  "progress_frame B a f \<longleftrightarrow>
     (\<exists>m. frame_encode (ser_message B) m = Inr f \<and> message_kind m = ''plan.progress'' \<and> bound_to a m)"

lemma progress_frames:
  "control_binding c = (message_binding a)\<lparr>reply_to := Some (nonce a)\<rparr> \<Longrightarrow> progress_ok E (logged B) (progress_frame B a) c"
  by (auto simp: progress_ok_def progress_message_def control_message_def progress_frame_def bound_to_def logged_def res_simps Let_def)

lemma logged_fields [simp]:
  "ser_message (logged B) = ser_message B" "new_nonce (logged B) = logged_op (new_nonce B)"
  "pipe_send (logged B) f = logged_send f (pipe_send B f)" "pipe_send_timeout (logged B) f d = logged_send f (pipe_send_timeout B f d)"
  "cancel_token (logged B) = (\<lambda>(w, log). (cancel_token B w, log))"
  by (simp_all add: logged_def)

lemma logged_require_time: "require_time (logged B) limit w = (r, w') \<Longrightarrow> snd w' = snd w"
  using log_unchanged [OF logged.require_time, of B limit w] by simp

lemma logged_receive_message: "receive_message (logged B) cache w = Some (x, cache', w') \<Longrightarrow> snd w' = snd w"
  using logged.receive_message [of _ cache w x cache' w' "\<lambda>_. False"] log_unchanged by blast

lemma logged_send_message:
  assumes "transport_send (logged B) m d w = (x, w')"
  obtains e where "x = Inl e" "snd w' = snd w" | f where "frame_encode (ser_message B) m = Inr f" "snd w' = snd w @ [f]"
proof (cases "and_then (message_validate m) (\<lambda>_. frame_encode (ser_message B) m)")
  case (Inr f)
  then have "any_from AnyPlatform (logged_send f (pipe_send_timeout B f d) w) = (x, w')"
    using assms by (simp add: transport_send_def)
  then have "snd w' = snd w @ [f]" by (rule logged_send_any)
  then show thesis using that(2) Inr by (auto simp: res_simps)
qed (use assms that(1) in \<open>auto simp: transport_send_def\<close>)

lemma control_session_log:
  assumes "control_session E (logged B) a sent limit w = Some (x, w')"
  shows "log_extends (progress_frame B a) w w'"
proof -
  let ?R = "log_extends (progress_frame B a)"
  obtain t w1 where t: "instant_now (logged B) w = (t, w1)" by (metis surj_pair)
  have w1: "?R w w1" using logged.instant [of _ w B] t by (metis snd_conv)
  have token: "?R w (case x of Inl _ \<Rightarrow> cancel_token (logged B) v | Inr _ \<Rightarrow> v)" if "?R w v" for v
    using that log_extends_trans [OF that logged.cancel] by (cases x) simp_all
  show ?thesis
  proof (cases "approval_control_new a t")
    case (Some r)
    show ?thesis
    proof (cases r)
      case (Inl e)
      then show ?thesis using assms Some token [OF w1] by (auto simp: control_session_def t simp del: logged_fields)
    next
      case (Inr c)
      have ok: "progress_ok E (logged B) (progress_frame B a) c"
        using Some Inr by (intro progress_frames)
          (auto simp: approval_control_new_def Let_def res_simps split: sum.splits if_splits Option.bind_splits)
      obtain y w2 where y: "report E (logged B) c Preparing None limit w1 = (y, w2)" by (metis surj_pair)
      have w2: "?R w w2" using log_extends_trans [OF w1 logged.report_progress [OF ok]] y by (metis snd_conv)
      have "pump E (logged B) sent limit c w2 = Some (x, v) \<Longrightarrow> ?R w v" for v
        using log_extends_trans [OF w2] logged.pump [OF _ ok] by (metis snd_conv)
      then show ?thesis using assms Some Inr token [OF w2] token y
        by (cases y) (auto simp: control_session_def t simp del: logged_fields)
    qed
  qed (use assms in \<open>simp add: control_session_def t\<close>)
qed

text \<open>The three stages of a transcript.\<close>

definition offers ::
    "'h ext \<Rightarrow> 'w worker_env \<Rightarrow> string \<Rightarrow> proposal_request \<Rightarrow> broker_message \<Rightarrow> worker_apply_authority \<Rightarrow> broker_message \<Rightarrow>
     byte list \<Rightarrow> bool" where
  "offers E B pipe_name request asked authority offer first \<longleftrightarrow>
     message_kind asked = ''plan.propose'' \<and> bound_session_id (message_binding asked) = pipe_name \<and>
     bound_plan_id (message_binding asked) = uuid_text E (plan_id (request_plan request)) \<and>
     (\<exists>d. plan_digest E (request_plan request) = Inr d \<and> bound_plan_digest (message_binding asked) = to_hex d) \<and>
     (\<exists>intent. session_plan (authority_session authority) = (request_plan request)\<lparr>plan_intent := intent\<rparr>) \<and>
     plan_digest E (session_plan (authority_session authority)) = Inr (session_digest (authority_session authority)) \<and>
     message_kind offer = ''plan.proposal'' \<and> message_payload offer = proposal_payload E authority \<and>
     message_binding offer = \<lparr>bound_session_id = pipe_name, bound_plan_id = uuid_text E (plan_id (request_plan request)),
       bound_plan_digest = to_hex (session_digest (authority_session authority)), reply_to = Some (nonce asked)\<rparr> \<and>
     frame_encode (ser_message B) offer = Inr first"

definition approves :: "broker_message \<Rightarrow> broker_message \<Rightarrow> bool" where
  "approves offer approval \<longleftrightarrow> message_kind approval = ''plan.approve'' \<and>
     message_binding approval = (message_binding offer)\<lparr>reply_to := Some (nonce offer)\<rparr>"

definition concludes ::
    "'h ext \<Rightarrow> 'w worker_env \<Rightarrow> worker_apply_authority \<Rightarrow> broker_message \<Rightarrow> worker_result \<Rightarrow> byte list \<Rightarrow> bool" where
  "concludes E B authority approval r frame \<longleftrightarrow> locked_result authority r \<and> validate_worker_result r = Inr () \<and>
     (\<exists>m. frame_encode (ser_message B) m = Inr frame \<and> bound_to approval m \<and> message_kind m = ''plan.result'' \<and>
        message_payload m = worker_result_json E r)"

lemma prepare_proposal_log:
  assumes "prepare_proposal E (logged B) M request pipe_name asked x w = Some (p, x', w')"
  shows "snd w' = snd w" "p = Inr (authority, m) \<Longrightarrow> message_binding m = \<lparr>bound_session_id = pipe_name,
      bound_plan_id = uuid_text E (plan_id (request_plan request)),
      bound_plan_digest = to_hex (session_digest (authority_session authority)), reply_to = Some (nonce asked)\<rparr> \<and>
    message_kind m = ''plan.proposal'' \<and> message_payload m = proposal_payload E authority \<and>
    (\<exists>intent. session_plan (authority_session authority) = (request_plan request)\<lparr>plan_intent := intent\<rparr>) \<and>
    plan_digest E (session_plan (authority_session authority)) = Inr (session_digest (authority_session authority))"
proof -
  have "snd (snd (proposal_message E (logged B) a pipe_name n w)) = snd w" for a n
    using logged_op_log [of "new_nonce B" w] by (auto simp: proposal_message_def Let_def simp del: logged_op_log split: prod.splits)
  then show "snd w' = snd w"
    using assms by (auto simp: prepare_proposal_def Let_def split: prod.splits sum.splits option.splits) (metis snd_conv)+
  assume "p = Inr (authority, m)"
  then obtain profile ctx t pid rid where p: "prepare_worker_apply E (machine_time_max M) (machine_planner M) (request_plan request)
      profile ctx t pid rid = Some (Inr authority)"
    and m: "proposal_message E (logged B) authority pipe_name (nonce asked) w = (Inr m, w')"
    using assms by (auto simp: prepare_proposal_def Let_def split: prod.splits sum.splits option.splits)
  have "(\<exists>intent. session_plan (authority_session authority) = (request_plan request)\<lparr>plan_intent := intent\<rparr>) \<and>
    plan_digest E (session_plan (authority_session authority)) = Inr (session_digest (authority_session authority))"
    by (rule prepare_worker_apply_exact [of E "machine_time_max M" "machine_planner M" "request_plan request" profile ctx t pid rid])
       (use p in auto)
  moreover from this have "plan_id (session_plan (authority_session authority)) = plan_id (request_plan request)" by auto
  ultimately show "message_binding m = \<lparr>bound_session_id = pipe_name, bound_plan_id = uuid_text E (plan_id (request_plan request)),
      bound_plan_digest = to_hex (session_digest (authority_session authority)), reply_to = Some (nonce asked)\<rparr> \<and>
    message_kind m = ''plan.proposal'' \<and> message_payload m = proposal_payload E authority \<and>
    (\<exists>intent. session_plan (authority_session authority) = (request_plan request)\<lparr>plan_intent := intent\<rparr>) \<and>
    plan_digest E (session_plan (authority_session authority)) = Inr (session_digest (authority_session authority))"
    using m by (auto simp: proposal_message_def Let_def res_simps split: prod.splits)
qed

lemma receive_approval_approves:
  assumes "receive_approval (logged B) cache pipe_name offer w = Some (x, cache', w')"
    "bound_session_id (message_binding offer) = pipe_name"
  shows "snd w' = snd w" "x = Inr approval \<Longrightarrow> approves offer approval"
  using assms logged_receive_message [of B cache w]
  by (auto simp: receive_approval_def require_reply_to_def matches_active_exchange_def parse_approval_request_def approves_def
      res_simps split: if_splits intro!: broker_binding.equality)

lemma exchange_proposal_log:
  assumes "exchange_proposal (logged B) cache pipe_name offer w = Some (x, cache', w')"
    "bound_session_id (message_binding offer) = pipe_name"
  obtains e where "x = Inl e" "snd w' = snd w"
  | f where "frame_encode (ser_message B) offer = Inr f" "snd w' = snd w @ [f]" "\<And>a. x = Inr a \<Longrightarrow> approves offer a"
proof (cases "frame_encode (ser_message B) offer")
  case (Inl e)
  then show thesis using assms(1) that(1) by (auto simp: exchange_proposal_def worker_send_message_def)
next
  case (Inr f)
  obtain y w1 where y: "any_from AnyPlatform (logged_send f (pipe_send B f) w) = (y, w1)" by (metis surj_pair)
  then have w1: "snd w1 = snd w @ [f]" by (rule logged_send_any)
  consider e where "x = Inl e" "w' = w1" | "receive_approval (logged B) cache pipe_name offer w1 = Some (x, cache', w')"
    using assms(1) y Inr by (cases y) (auto simp: exchange_proposal_def worker_send_message_def)
  then have "snd w' = snd w1 \<and> (\<forall>a. x = Inr a \<longrightarrow> approves offer a)"
    by cases (use receive_approval_approves [of B cache pipe_name offer w1 x cache' w'] assms(2) in auto)
  then show thesis using that(2) Inr w1 by simp
qed

lemma result_message_log:
  assumes "result_message E (logged B) offer n r w = (x, w')"
  shows "snd w' = snd w" "x = Inr m \<Longrightarrow> message_kind m = ''plan.result'' \<and> message_payload m = worker_result_json E r \<and>
    message_binding m = (message_binding offer)\<lparr>reply_to := Some n\<rparr> \<and> validate_worker_result r = Inr ()"
proof -
  have "snd (snd (result_message E (logged B) offer n r w)) = snd w"
    using logged_op_log [of "new_nonce B" w]
    by (cases "validate_worker_result r") (auto simp: result_message_def Let_def simp del: logged_op_log split: prod.splits)
  then show "snd w' = snd w" using assms by simp
  show "x = Inr m \<Longrightarrow> message_kind m = ''plan.result'' \<and> message_payload m = worker_result_json E r \<and>
      message_binding m = (message_binding offer)\<lparr>reply_to := Some n\<rparr> \<and> validate_worker_result r = Inr ()"
    using assms by (auto simp: result_message_def res_simps Let_def split: prod.splits if_splits)
qed

lemma send_terminal_log:
  assumes "send_terminal E (logged B) offer (nonce approval) r limit w = (x, w')" "approves offer approval" "locked_result authority r"
  obtains e where "x = Inl e" "snd w' = snd w" | f where "snd w' = snd w @ [f]" "concludes E B authority approval r f"
proof -
  obtain t1 w1 where 1: "require_time (logged B) limit w = (t1, w1)" by (metis surj_pair)
  obtain t2 w2 where 2: "result_message E (logged B) offer (nonce approval) r w1 = (t2, w2)" by (metis surj_pair)
  obtain t3 w3 where 3: "require_time (logged B) limit w2 = (t3, w3)" by (metis surj_pair)
  note l = logged_require_time [OF 1] result_message_log(1) [OF 2] logged_require_time [OF 3]
  show thesis
  proof (cases "isl t1 \<or> isl t2 \<or> isl t3")
    case True
    then show thesis using that(1) assms(1) 1 2 3 l
      by (cases t1; cases t2; cases t3) (auto simp: send_terminal_def)
  next
    case False
    then obtain a m d where t: "t1 = Inr a" "t2 = Inr m" "t3 = Inr d" by (cases t1; cases t2; cases t3) auto
    then have send: "transport_send (logged B) m d w3 = (x, w')" using assms(1) 1 2 3 by (simp add: send_terminal_def)
    have m: "bound_to approval m" using result_message_log(2) [OF 2 t(2)] assms(2) by (simp add: bound_to_def approves_def)
    from send show thesis
    proof (cases rule: logged_send_message)
      case (1 e)
      then show thesis using that(1) l by simp
    next
      case (2 f)
      then show thesis
        using that(2) [of f] l m result_message_log(2) [OF \<open>result_message _ _ _ _ _ _ = _\<close> t(2)] assms(3)
        by (auto simp: concludes_def)
    qed
  qed
qed

text \<open>The transcripts of a session with the given end.\<close>

definition transcript :: "'h ext \<Rightarrow> 'w worker_env \<Rightarrow> string \<Rightarrow> any_error + exit_code \<Rightarrow> byte list list \<Rightarrow> bool" where
  "transcript E B pipe_name res log \<longleftrightarrow>
     (case log of
        [] \<Rightarrow> isl res
      | first # rest \<Rightarrow>
          \<exists>request asked authority offer. offers E B pipe_name request asked authority offer first \<and>
            (rest = [] \<and> isl res \<or>
             (\<exists>approval progress. approves offer approval \<and> list_all (progress_frame B approval) progress \<and>
               (rest = progress \<and> isl res \<or>
                (\<exists>r final. rest = progress @ [final] \<and> concludes E B authority approval r final \<and>
                   (isl res \<or> res = Inr (for_status (final_status r))))))))"

lemma transcript_started:
  "offers E B pipe_name request asked authority offer first \<Longrightarrow> transcript E B pipe_name (Inl e) [first]"
  by (auto simp: transcript_def)

lemma transcript_running:
  "offers E B pipe_name request asked authority offer first \<Longrightarrow> approves offer approval \<Longrightarrow>
     list_all (progress_frame B approval) progress \<Longrightarrow> transcript E B pipe_name (Inl e) (first # progress)"
  unfolding transcript_def list.case using sum.disc(1) [of e] by blast

lemma transcript_finished:
  "offers E B pipe_name request asked authority offer first \<Longrightarrow> approves offer approval \<Longrightarrow>
     list_all (progress_frame B approval) progress \<Longrightarrow> concludes E B authority approval r final \<Longrightarrow>
     isl res \<or> res = Inr (for_status (final_status r)) \<Longrightarrow> transcript E B pipe_name res (first # progress @ [final])"
  unfolding transcript_def list.case by blast

lemma execute_session_log:
  assumes "execute_session E (logged B) M authority request approval limit x w = Some (r, w')"
  shows "log_extends (progress_frame B approval) w w'" "r = Inr v \<Longrightarrow> locked_result authority v"
proof -
  obtain sent where s: "apply_result E M (dec_approval (logged B)) authority request approval x = Some sent"
    "control_session E (logged B) approval sent limit w = Some (r, w')"
    using assms by (auto simp: execute_session_def split: Option.bind_splits)
  show "log_extends (progress_frame B approval) w w'" by (rule control_session_log [OF s(2)])
  assume r: "r = Inr v"
  show "locked_result authority v"
    by (rule apply_result_locked [of E M "dec_approval (logged B)" authority request approval x])
       (use s control_session_result [OF s(2) [unfolded r]] in auto)
qed

text \<open>How a session ends once the proposal was exchanged, and the stages before that.\<close>

definition ends_after ::
    "'h ext \<Rightarrow> 'w worker_env \<Rightarrow> 'x machine_env \<Rightarrow> worker_apply_authority \<Rightarrow> proposal_request \<Rightarrow> broker_message \<Rightarrow> 'x \<Rightarrow>
     any_error + broker_message \<Rightarrow> 'w \<Rightarrow> any_error + exit_code \<Rightarrow> 'w \<Rightarrow> bool" where
  "ends_after E B M authority request offer x q w res w' \<longleftrightarrow>
     (case q of
        Inl e \<Rightarrow> res = Inl e \<and> w' = w
      | Inr approval \<Rightarrow> \<exists>t w1 r w2. instant_now B w = (t, w1) \<and>
          execute_session E B M authority request approval (t + two_minutes) x w1 = Some (r, w2) \<and>
          (case r of
             Inl e \<Rightarrow> res = Inl e \<and> w' = w2
           | Inr v \<Rightarrow> \<exists>u. send_terminal E B offer (nonce approval) v (t + two_minutes) w2 = (u, w') \<and>
               res = (case u of Inl e \<Rightarrow> Inl e | Inr _ \<Rightarrow> Inr (for_status (final_status v)))))"

lemma ends_afterI:
  assumes "(case q of Inl e \<Rightarrow> Some (Inl e, w) | Inr approval \<Rightarrow>
      let (t, w) = instant_now B w; limit = t + two_minutes in
      (case execute_session E B M authority request approval limit x w of
         None \<Rightarrow> None
       | Some (Inl e, w) \<Rightarrow> Some (Inl e, w)
       | Some (Inr r, w) \<Rightarrow>
           (case send_terminal E B offer (nonce approval) r limit w of
              (Inl e, w) \<Rightarrow> Some (Inl e, w)
            | (Inr _, w) \<Rightarrow> Some (Inr (for_status (final_status r)), w)))) = Some (res, w')"
  shows "ends_after E B M authority request offer x q w res w'"
proof (cases q)
  case (Inr approval)
  obtain t w1 where t: "instant_now B w = (t, w1)" by (metis surj_pair)
  obtain r w2 where r: "execute_session E B M authority request approval (t + two_minutes) x w1 = Some (r, w2)"
    using assms Inr t by (auto simp: Let_def split: option.splits)
  obtain u w3 where u: "send_terminal E B offer (nonce approval) (projr r) (t + two_minutes) w2 = (u, w3)"
    by (metis surj_pair)
  have "case r of Inl e \<Rightarrow> res = Inl e \<and> w' = w2
      | Inr v \<Rightarrow> \<exists>u. send_terminal E B offer (nonce approval) v (t + two_minutes) w2 = (u, w') \<and>
          res = (case u of Inl e \<Rightarrow> Inl e | Inr _ \<Rightarrow> Inr (for_status (final_status v)))"
    using assms Inr t r u by (cases r; cases u) (auto simp: Let_def)
  then show ?thesis using t r Inr unfolding ends_after_def by auto
qed (use assms in \<open>simp add: ends_after_def\<close>)

lemma run_windows_stages:
  assumes "run_windows E B M pipe_name x w = Some (res, w')"
  obtains (refused) e where "accept_client B w = (Inl e, w')" "res = Inl e"
  | (request) cache w1 e cache1 where "accept_client B w = (Inr cache, w1)"
      "receive_proposal_request E B cache pipe_name w1 = Some (Inl e, cache1, w')" "res = Inl e"
  | (prepare) cache w1 request asked cache1 w2 e x1 where "accept_client B w = (Inr cache, w1)"
      "receive_proposal_request E B cache pipe_name w1 = Some (Inr (request, asked), cache1, w2)"
      "prepare_proposal E B M request pipe_name asked x w2 = Some (Inl e, x1, w')" "res = Inl e"
  | (exchange) cache w1 request asked cache1 w2 authority offer x1 w3 q cache2 w4 where "accept_client B w = (Inr cache, w1)"
      "receive_proposal_request E B cache pipe_name w1 = Some (Inr (request, asked), cache1, w2)"
      "prepare_proposal E B M request pipe_name asked x w2 = Some (Inr (authority, offer), x1, w3)"
      "exchange_proposal B cache1 pipe_name offer w3 = Some (q, cache2, w4)"
      "ends_after E B M authority request offer x1 q w4 res w'"
proof -
  obtain a w1 where a: "accept_client B w = (a, w1)" by (metis surj_pair)
  show thesis
  proof (cases a)
    case (Inl e)
    then show thesis using refused assms a by (auto simp: run_windows_def)
  next
    case (Inr cache)
    note run = assms [unfolded run_windows_def a Inr prod.case sum.case]
    obtain z cache1 w2 where z: "receive_proposal_request E B cache pipe_name w1 = Some (z, cache1, w2)"
      using run by (auto split: option.splits)
    consider e where "z = Inl e" | rq asked where "z = Inr (rq, asked)" by (cases z) auto
    then show thesis
    proof cases
      case 1
      then show thesis using request run a Inr z by auto
    next
      case (2 rq asked)
      note run = run [unfolded z 2 prod.case sum.case option.case]
      obtain p x1 w3 where p: "prepare_proposal E B M rq pipe_name asked x w2 = Some (p, x1, w3)"
        using run by (auto split: option.splits)
      consider e where "p = Inl e" | authority offer where "p = Inr (authority, offer)" by (cases p) auto
      then show thesis
      proof cases
        case 1
        then show thesis using prepare run a Inr z 2 p by auto
      next
        case (2 authority offer)
        note run = run [unfolded p 2 prod.case sum.case option.case]
        obtain q cache2 w4 where q: "exchange_proposal B cache1 pipe_name offer w3 = Some (q, cache2, w4)"
          using run by (auto split: option.splits)
        note run = run [unfolded q prod.case option.case]
        show thesis
          by (rule exchange [OF a [unfolded Inr] z [unfolded \<open>z = _\<close>] p [unfolded 2] q])
             (rule ends_afterI, use run in simp)
      qed
    qed
  qed
qed

lemma exchange_transcript:
  assumes offer: "\<And>first. frame_encode (ser_message B) offer = Inr first \<Longrightarrow> offers E B pipe_name request asked authority offer first"
    and session: "bound_session_id (message_binding offer) = pipe_name" and empty: "snd w = []"
    and ex: "exchange_proposal (logged B) cache pipe_name offer w = Some (q, cache', w1)"
    and ends: "ends_after E (logged B) M authority request' offer x q w1 res w'"
  shows "transcript E B pipe_name res (snd w')"
  using ex session
proof (cases rule: exchange_proposal_log)
  case (1 e)
  then show ?thesis using ends empty by (simp add: transcript_def ends_after_def)
next
  case (2 first)
  note offer = offer [OF 2(1)]
  show ?thesis
  proof (cases q)
    case (Inl e)
    then show ?thesis using ends 2(2) empty transcript_started [OF offer] by (simp add: ends_after_def)
  next
    case (Inr approval)
    obtain t w2 r w3 where t: "instant_now (logged B) w1 = (t, w2)"
      and r: "execute_session E (logged B) M authority request' approval (t + two_minutes) x w2 = Some (r, w3)"
      and fin: "case r of Inl e \<Rightarrow> res = Inl e \<and> w' = w3
        | Inr v \<Rightarrow> \<exists>u. send_terminal E (logged B) offer (nonce approval) v (t + two_minutes) w3 = (u, w') \<and>
            res = (case u of Inl e \<Rightarrow> Inl e | Inr _ \<Rightarrow> Inr (for_status (final_status v)))"
      using ends Inr unfolding ends_after_def by auto
    have a: "approves offer approval" by (rule 2(3) [OF Inr])
    have "snd w2 = [first]" using log_unchanged [OF logged.instant, of B w1] t 2(2) empty by simp
    then obtain progress where p: "snd w3 = first # progress" "list_all (progress_frame B approval) progress"
      using execute_session_log(1) [OF r] by (auto simp: log_extends_def)
    show ?thesis
    proof (cases r)
      case (Inl e)
      then show ?thesis using fin p transcript_running [OF offer a p(2)] by simp
    next
      case (Inr v)
      then obtain u where u: "send_terminal E (logged B) offer (nonce approval) v (t + two_minutes) w3 = (u, w')"
        "res = (case u of Inl e \<Rightarrow> Inl e | Inr _ \<Rightarrow> Inr (for_status (final_status v)))"
        using fin by auto
      have res: "isl res \<or> res = Inr (for_status (final_status v))" using u(2) by (cases u) auto
      from u(1) a execute_session_log(2) [OF r Inr] show ?thesis
      proof (cases rule: send_terminal_log)
        case (1 e)
        then show ?thesis using u(2) p transcript_running [OF offer a p(2)] by simp
      next
        case (2 final)
        then show ?thesis using transcript_finished [OF offer a p(2) 2(2) res] p(1) by simp
      qed
    qed
  qed
qed

text \<open>
  C8: the transcript of a worker session, whatever its end. Nothing is sent before a request was read that is bound to
  the session and to the digest of the plan it submits. The first frame is a proposal that answers it, with that plan up
  to its intent and the digest of the plan that the worker retained. What follows answers one approval of exactly this
  proposal: progress messages, and last at most one result that names the retained plan, run and digest and reports no
  receipt, artifact or journal. Only a session that sent its result returns an exit code, that of the result.
\<close>

theorem worker_transcript:
  "case run_windows E (logged B) M pipe_name x (w, []) of
     None \<Rightarrow> True
   | Some (res, _, log) \<Rightarrow> transcript E B pipe_name res log"
proof -
  have client: "snd w1 = []" if "accept_client (logged B) (w, []) = (a, w1)" for a w1
    using log_unchanged [OF logged.peer, of B "(w, [])"] that
    by (auto simp: accept_client_def any_from_def st_then_def split: prod.splits sum.splits)
  have reading: "snd w2 = snd w1" if "receive_proposal_request E (logged B) cache pipe_name w1 = Some (z, cache1, w2)"
    for w1 w2 cache cache1 z
    using that logged_receive_message [of B cache w1] by (auto simp: receive_proposal_request_def)
  have "transcript E B pipe_name res (snd w')" if "run_windows E (logged B) M pipe_name x (w, []) = Some (res, w')" for res w'
    using that
  proof (cases rule: run_windows_stages)
    case (refused e)
    then show ?thesis using client by (simp add: transcript_def)
  next
    case (request cache w1 e cache1)
    then show ?thesis using client reading by (simp add: transcript_def)
  next
    case (prepare cache w1 request asked cache1 w2 e x1)
    then show ?thesis
      using client reading prepare_proposal_log(1) [OF prepare(3)] by (simp add: transcript_def)
  next
    case (exchange cache w1 request asked cache1 w2 authority offer x1 w3 q cache2 w4)
    note m = prepare_proposal_log(2) [OF exchange(3) refl]
    have "message_kind asked = ''plan.propose'' \<and> bound_session_id (message_binding asked) = pipe_name \<and>
        bound_plan_id (message_binding asked) = uuid_text E (plan_id (request_plan request)) \<and>
        (\<exists>d. plan_digest E (request_plan request) = Inr d \<and> bound_plan_digest (message_binding asked) = to_hex d)"
      using exchange(2) by (auto simp: receive_proposal_request_def parse_proposal_request_def validate_request_binding_def
          require_request_def matches_active_exchange_def res_simps split: if_splits)
    then show ?thesis
      using m client [OF exchange(1)] prepare_proposal_log(1) [OF exchange(3)] exchange
        reading
      by (intro exchange_transcript [where request = request and asked = asked, OF _ _ _ exchange(4,5)]) (simp_all add: offers_def)
  qed
  then show ?thesis by (auto split: option.split)
qed

end
