(* ===== verification/Client_Session.thy ===== *)
theory Client_Session
  imports Client_Apply Worker_Session
begin

text \<open>
  What a run of the client guarantees: that it ends, what it sends and shows, and in which order.
\<close>

section \<open>Relations kept by the client\<close>

locale client_relation = pipe_relation C R Ok
  for C :: "('w, 'z) client_env_scheme" and R :: "'w \<Rightarrow> 'w \<Rightarrow> bool" and Ok :: "byte list \<Rightarrow> bool" +
  assumes installed: "R w (snd (installed_package C w))"
    and own: "R w (snd (own_identity C w))"
    and session: "R w (snd (new_session C w))"
    and launch: "R w (launch_worker C name w)"
    and connecting: "R w (snd (try_connect C name w))"
    and launcher: "R w (snd (launcher_finished C w))"
    and join: "R w (snd (join_launcher C w))"
    and sleep: "R w (sleep_for C d w)"
    and peer: "R w (snd (server_peer C w))"
    and server: "R w (snd (server_identity C w))"
    and image: "R w (snd (verified_server_image C w))"
    and source: "R w (snd (read_source C locator w))"
    and console: "R w (snd (install_console C w))"
    and cancelled: "R w (snd (console_cancelled C w))"
    and progress: "R w (write_progress C p w)"
    and approval: "read_approval C w = Some answer \<Longrightarrow> R w (snd answer)"
begin

lemma remaining_control_time: "R w (snd (remaining_control_time C limit w))"
  using instant [of w] by (cases "instant_now C w") (simp add: remaining_control_time_def)

lemma receive_control_message: "R w (snd (receive_control_message C limit w))"
proof -
  have "R w (snd (case pipe_receive_timeout C d v of
         (Inl e, w) \<Rightarrow> (Inl (AnyPlatform e), w)
       | (Inr None, w) \<Rightarrow> (Inr None, w)
       | (Inr (Some frame), w) \<Rightarrow>
           st_then (remaining_control_time C limit w) (\<lambda>_ w.
             (map_err AnyPlatform (and_then (frame_decode (de_message C) frame) (\<lambda>m. Inr (Some m))), w))))"
    if "R w v" for d v
    using trans [OF that receive_timeout [of v d]]
    by (auto split: prod.split sum.split option.split intro!: st_then_from trans [OF _ remaining_control_time])
  then show ?thesis unfolding receive_control_message_def by (intro st_then_from remaining_control_time)
qed

lemma accept_control_message:
  assumes "accept_control_message C c m response w = Some (x, c', w')"
  shows "R w w'"
proof -
  obtain t w1 where t: "instant_now C w = (t, w1)" by fastforce
  have "R w w1" using instant [of w] t by simp
  then show ?thesis
    using assms trans [OF _ progress]
    by (auto simp: accept_control_message_def t split: option.splits sum.splits)
qed

lemma send_control_message:
  assumes "\<And>f. frame_encode (ser_message C) m = Inr f \<Longrightarrow> Ok f"
  shows "R w (snd (send_control_message C m limit w))"
  unfolding send_control_message_def by (intro st_then remaining_control_time transport_send assms)

lemma send_cancellation:
  assumes "\<And>f. Ok f"
  shows "R w (snd (send_cancellation C c limit w))"
proof -
  obtain n w1 where n: "new_nonce C w = (n, w1)" by fastforce
  have "R w1 (snd (send_cancellation C c limit w))"
    unfolding send_cancellation_def n Let_def case_prod_conv by (intro st_then send_control_message assms) (simp add: refl)
  then show ?thesis using nonce_draw [of w] n trans by fastforce
qed

lemma send_requested_cancellation:
  assumes "\<And>f. Ok f"
  shows "R w (snd (send_requested_cancellation C c sent limit w))"
proof -
  obtain b w1 where b: "console_cancelled C w = (b, w1)" by fastforce
  have w1: "R w w1" using cancelled [of w] b by simp
  have "R w1 (snd (st_then (send_cancellation C c limit w1) (\<lambda>_ w. (Inr True, w))))"
    by (intro st_then send_cancellation assms) (simp add: refl)
  then show ?thesis using w1 trans b by (auto simp: send_requested_cancellation_def refl)
qed

lemma authorize_control:
  assumes "\<And>f. Ok f"
  shows "R w (snd (authorize_control C m c limit w))"
proof -
  obtain b w1 where b: "console_cancelled C w = (b, w1)" by fastforce
  obtain s w2 where s: "send_control_message C m limit w1 = (s, w2)" by fastforce
  obtain b2 w3 where b2: "console_cancelled C w2 = (b2, w3)" by fastforce
  obtain t w4 where t: "send_cancellation C c limit w3 = (t, w4)" by fastforce
  have "R w w1" "R w1 w2" "R w2 w3" "R w3 w4"
    using cancelled [of w] b send_control_message [OF assms, where w = w1 and m = m and limit = limit] s cancelled [of w2] b2
      send_cancellation [OF assms, where w = w3 and c = c and limit = limit] t
    by simp_all
  then have "R w w1" "R w w2" "R w w3" "R w w4" using trans by blast+
  then show ?thesis using b s b2 t
    by (cases s; cases t) (auto simp: authorize_control_def send_approval_with_cancellation_def)
qed

lemma connect_loop:
  assumes "connect_loop C name limit w = Some y"
  shows "R w (snd y)"
proof -
  have "C' = C \<longrightarrow> R w (snd y)" if "connect_loop C' name limit w = Some y" for C' name limit w y
    using that
  proof (rule connect_loop.raw_induct [of "\<lambda>C' name limit w y. C' = C \<longrightarrow> R w (snd y)", rotated])
    fix f :: "('w, 'z) client_env_scheme \<Rightarrow> string \<Rightarrow> instant \<Rightarrow> 'w \<Rightarrow> ((any_error + unit) \<times> 'w) option"
      and C' :: "('w, 'z) client_env_scheme" and name limit w y
    assume IH: "\<And>C' name limit w y. f C' name limit w = Some y \<Longrightarrow> C' = C \<longrightarrow> R w (snd y)"
    assume y: "(let (connection, w) = try_connect C' name w; (exited, w) = launcher_finished C' w; (t, w) = instant_now C' w in
      case select_startup_poll connection exited (t < limit) of
        Connected \<Rightarrow> Some (Inr (), w)
      | LauncherFinished \<Rightarrow> (let (completion, w) = join_launcher C' w in Some (Inl (early_worker_completion_error completion), w))
      | Retry \<Rightarrow> f C' name limit (sleep_for C' (50 * 10 ^ 6) w)
      | ConnectionFailed e \<Rightarrow> Some (Inl (AnyPlatform e), w)) = Some y"
    show "C' = C \<longrightarrow> R w (snd y)"
    proof
      assume same: "C' = C"
      obtain a w1 where 1: "try_connect C name w = (a, w1)" by fastforce
      obtain b w2 where 2: "launcher_finished C w1 = (b, w2)" by fastforce
      obtain t w3 where 3: "instant_now C w2 = (t, w3)" by fastforce
      obtain j w4 where 4: "join_launcher C w3 = (j, w4)" by fastforce
      have "R w w1" "R w1 w2" "R w2 w3" "R w3 w4" "R w3 (sleep_for C (50 * 10 ^ 6) w3)"
        using connecting [of w name] 1 launcher [of w1] 2 instant [of w2] 3 join [of w3] 4 sleep by simp_all
      then have R: "R w w3" "R w w4" "R w (sleep_for C (50 * 10 ^ 6) w3)" using trans by meson+
      show "R w (snd y)"
      proof (cases "select_startup_poll a b (t < limit)")
        case Retry
        then have "f C name limit (sleep_for C (50 * 10 ^ 6) w3) = Some y" using y by (simp add: same 1 2 3)
        then show ?thesis using trans [OF R(3)] IH by blast
      qed (use y R in \<open>auto simp: same 1 2 3 4\<close>)
    qed
  qed
  then show ?thesis using assms by blast
qed

lemma connect:
  assumes "connect C name w = Some y"
  shows "R w (snd y)"
proof -
  obtain t w1 where t: "instant_now C w = (t, w1)" by fastforce
  then show ?thesis using assms instant [of w] trans connect_loop unfolding connect_def by fastforce
qed

lemma authenticate_worker_server: "R w (snd (authenticate_worker_server C peer_session cli expected w))"
  unfolding authenticate_worker_server_def
  by (auto intro!: st_then_from any_from server trans [OF _ any_from [OF image]] refl)

lemma start_worker:
  assumes "start_worker C p w = Some (x, w')"
  shows "R w w'"
proof -
  let ?first = "st_then (installed_package C w) (\<lambda>(installed, executable) w.
        st_then (verify_package_digest p installed, w) (\<lambda>_ w.
        st_then (any_from AnyPlatform (own_identity C w)) (\<lambda>cli w. (Inr (executable, cli), w))))"
  have first: "R w (snd ?first)"
    by (auto intro!: st_then_from installed trans [OF _ any_from [OF own]] split: prod.split)
  obtain y w1 where y: "?first = (y, w1)" by fastforce
  obtain n w2 where n: "new_session C w1 = (n, w2)" by fastforce
  have R: "R w w1" "R w (launch_worker C n w2)"
    using first y trans [OF _ trans [OF session [of w1] launch [of _ n]]] n by (auto intro: trans)
  show ?thesis
  proof (cases y)
    case (Inl e)
    then show ?thesis using assms y R by (simp add: start_worker_def)
  next
    case (Inr ec)
    obtain executable cli where ec: "ec = (executable, cli)" by fastforce
    obtain z w3 where z: "connect C n (launch_worker C n w2) = Some (z, w3)"
      using assms y Inr ec n by (auto simp: start_worker_def split: option.splits)
    have w3: "R w w3" using trans [OF R(2)] connect [OF z] by simp
    have "R w (snd (st_then (any_from AnyPlatform (server_peer C w3)) (\<lambda>peer_session w.
               st_then (authenticate_worker_server C peer_session cli executable w) (\<lambda>_ w.
                 (map_err AnyPlatform (and_then (replay_new two_minutes 4) (\<lambda>cache. Inr (n, cache))), w)))))"
      by (intro st_then_from trans [OF w3 any_from [OF peer]] trans [OF _ authenticate_worker_server]) auto
    then show ?thesis using assms y Inr ec n z w3 by (cases z) (auto simp: start_worker_def)
  qed
qed

end

section \<open>What the client sends and shows\<close>

datatype client_event = Sent "byte list" | Shown jvalue

text \<open>The environment with a record of the frames that were handed to the pipe and of the documents that were printed.\<close>

definition logged_client :: "'w client_env \<Rightarrow> ('w \<times> client_event list) client_env" where
  "logged_client C = \<lparr>pipe_receive = logged_op (pipe_receive C), pipe_receive_timeout = (\<lambda>d. logged_op (pipe_receive_timeout C d)),
     pipe_send = (\<lambda>f. logged_send (Sent f) (pipe_send C f)),
     pipe_send_timeout = (\<lambda>f d. logged_send (Sent f) (pipe_send_timeout C f d)),
     instant_now = logged_op (instant_now C), new_nonce = logged_op (new_nonce C), ser_message = ser_message C,
     de_message = de_message C, installed_package = logged_op (installed_package C), own_identity = logged_op (own_identity C),
     new_session = logged_op (new_session C), launch_worker = (\<lambda>n (w, log). (launch_worker C n w, log)),
     try_connect = (\<lambda>n. logged_op (try_connect C n)), launcher_finished = logged_op (launcher_finished C),
     join_launcher = logged_op (join_launcher C), sleep_for = (\<lambda>d (w, log). (sleep_for C d w, log)),
     server_peer = logged_op (server_peer C), server_identity = logged_op (server_identity C),
     verified_server_image = logged_op (verified_server_image C), read_source = (\<lambda>l. logged_op (read_source C l)),
     install_console = logged_op (install_console C), console_cancelled = logged_op (console_cancelled C),
     print_json = (\<lambda>v. logged_send (Shown v) (print_json C v)), write_progress = (\<lambda>p (w, log). (write_progress C p w, log)),
     read_approval = (\<lambda>(w, log). map_option (\<lambda>(r, w). (r, w, log)) (read_approval C w)), parse_source = parse_source C, dec_profile = dec_profile C,
     dec_proposal = dec_proposal C, dec_progress = dec_progress C, dec_result = dec_result C\<rparr>"

interpretation client: client_relation "logged_client C" "log_extends P" "\<lambda>f. P (Sent f)" for C :: "'w client_env" and P
  by unfold_locales
    (auto simp: logged_client_def logged_send_extends split: prod.splits intro: log_extends_trans log_extends_same)

lemma logged_client_fields [simp]:
  "ser_message (logged_client C) = ser_message C" "new_nonce (logged_client C) = logged_op (new_nonce C)"
  "pipe_send (logged_client C) f = logged_send (Sent f) (pipe_send C f)"
  "pipe_send_timeout (logged_client C) f d = logged_send (Sent f) (pipe_send_timeout C f d)"
  "print_json (logged_client C) v = logged_send (Shown v) (print_json C v)" "dec_proposal (logged_client C) = dec_proposal C"
  by (simp_all add: logged_client_def)

lemma client_send_message_log:
  assumes "client_send_message (logged_client C) m w = (x, w')"
  obtains e where "x = Inl e" "snd w' = snd w"
  | f where "frame_encode (ser_message C) m = Inr f" "snd w' = snd w @ [Sent f]" "message_validate m = Inr ()"
proof (cases "and_then (message_validate m) (\<lambda>_. frame_encode (ser_message C) m)")
  case (Inr f)
  then have "any_from AnyPlatform (logged_send (Sent f) (pipe_send C f) w) = (x, w')"
    using assms by (simp add: client_send_message_def)
  then have "snd w' = snd w @ [Sent f]" by (rule logged_send_any)
  then show thesis using that(2) Inr by (auto simp: res_simps)
qed (use assms that(1) in \<open>auto simp: client_send_message_def\<close>)

lemma send_control_message_log:
  assumes "send_control_message (logged_client C) m limit w = (x, w')"
  obtains e where "x = Inl e" "snd w' = snd w"
  | f where "frame_encode (ser_message C) m = Inr f" "snd w' = snd w @ [Sent f]"
proof -
  obtain t w1 where t: "remaining_control_time (logged_client C) limit w = (t, w1)" by (metis surj_pair)
  have w1: "snd w1 = snd w" using log_unchanged [OF client.remaining_control_time, of C limit w] t by simp
  show thesis
  proof (cases t)
    case (Inl e)
    then show thesis using that(1) [of e] assms t w1 by (auto simp: send_control_message_def)
  next
    case (Inr d)
    then have send: "transport_send (logged_client C) m d w1 = (x, w')" using assms t by (simp add: send_control_message_def)
    show thesis
    proof (cases "and_then (message_validate m) (\<lambda>_. frame_encode (ser_message C) m)")
      case (Inl e)
      then show thesis using that(1) send w1 by (auto simp: transport_send_def)
    next
      case (Inr f)
      then have "any_from AnyPlatform (logged_send (Sent f) (pipe_send_timeout C f d) w1) = (x, w')"
        using send by (simp add: transport_send_def)
      then have "snd w' = snd w1 @ [Sent f]" by (rule logged_send_any)
      then show thesis using that(2) Inr w1 by (auto simp: res_simps)
    qed
  qed
qed

text \<open>A cancellation that answers the approval \<open>a\<close>.\<close>

definition cancel_event :: "'w client_env \<Rightarrow> broker_message \<Rightarrow> client_event \<Rightarrow> bool" where
  "cancel_event C a ev \<longleftrightarrow> (\<exists>m f. ev = Sent f \<and> frame_encode (ser_message C) m = Inr f \<and>
     message_kind m = ''plan.cancel'' \<and> message_payload m = JObject [] \<and> bound_to a m)"

lemma send_cancellation_log:
  assumes "send_cancellation (logged_client C) c limit w = (x, w')"
    "control_binding c = (message_binding a)\<lparr>reply_to := Some (nonce a)\<rparr>"
  shows "(isl x \<and> snd w' = snd w) \<or> (\<exists>ev. cancel_event C a ev \<and> snd w' = snd w @ [ev])"
proof -
  obtain n w1 where n: "logged_op (new_nonce C) w = (n, w1)" by (metis surj_pair)
  have w1: "snd w1 = snd w" using n by (metis logged_op_log snd_conv)
  show ?thesis
  proof (cases "cancellation c n")
    case (Inl e)
    then show ?thesis using assms n w1 by (auto simp: send_cancellation_def)
  next
    case (Inr m)
    then have send: "send_control_message (logged_client C) m limit w1 = (x, w')"
      using assms n by (simp add: send_cancellation_def)
    have "message_kind m = ''plan.cancel'' \<and> message_payload m = JObject [] \<and> bound_to a m"
      using Inr assms(2) by (auto simp: cancellation_def control_message_def bound_to_def res_simps Let_def)
    then show ?thesis using w1 by (cases rule: send_control_message_log [OF send]) (auto simp: cancel_event_def)
  qed
qed

text \<open>Up to one cancellation, none when one was sent before.\<close>

definition sends_cancel :: "'w client_env \<Rightarrow> broker_message \<Rightarrow> bool \<Rightarrow> client_event list \<Rightarrow> bool" where
  "sends_cancel C a sent evs \<longleftrightarrow> list_all (cancel_event C a) evs \<and> length evs \<le> (if sent then 0 else 1)"

lemma cancels_Nil [simp]: "sends_cancel C a sent []"
  by (simp add: sends_cancel_def)

lemma send_requested_cancellation_log:
  assumes "send_requested_cancellation (logged_client C) c sent limit w = (x, w')"
    "control_binding c = (message_binding a)\<lparr>reply_to := Some (nonce a)\<rparr>"
  shows "\<exists>evs. snd w' = snd w @ evs \<and> sends_cancel C a sent evs \<and> (\<forall>sent' more. x = Inr sent' \<longrightarrow> sends_cancel C a sent' more \<longrightarrow>
    sends_cancel C a sent (evs @ more))"
proof (cases sent)
  case True
  then show ?thesis using assms by (auto simp: send_requested_cancellation_def intro!: exI [of _ "[]"])
next
  case False
  obtain stop w1 where stop: "console_cancelled (logged_client C) w = (stop, w1)" by (metis surj_pair)
  have w1: "snd w1 = snd w" using log_unchanged [OF client.cancelled, of C w] stop by simp
  show ?thesis
  proof (cases stop)
    case False
    then show ?thesis using assms stop w1 \<open>\<not> sent\<close>
      by (auto simp: send_requested_cancellation_def intro!: exI [of _ "[]"])
  next
    case True
    obtain y w2 where y: "send_cancellation (logged_client C) c limit w1 = (y, w2)" by (metis surj_pair)
    have x: "w' = w2" "x = (case y of Inl e \<Rightarrow> Inl e | Inr _ \<Rightarrow> Inr True)"
      using assms(1) stop True \<open>\<not> sent\<close> y by (cases y; auto simp: send_requested_cancellation_def)+
    have "sends_cancel C a True more \<longleftrightarrow> more = []" for more by (auto simp: sends_cancel_def)
    then show ?thesis
      using send_cancellation_log [OF y assms(2)] x w1 \<open>\<not> sent\<close> by (cases y) (auto simp: sends_cancel_def)
  qed
qed

lemma accept_worker_message_binding:
  "accept_worker_message dec c m t = Some (x, d) \<Longrightarrow> control_binding d = control_binding c"
  by (auto simp: accept_worker_message_def dest!: accept_envelope_binding split: sum.splits if_splits Option.bind_splits)

lemma accept_control_message_binding:
  "accept_control_message C c m response w = Some (x, d, w') \<Longrightarrow> control_binding d = control_binding c"
  by (auto simp: accept_control_message_def Let_def dest: accept_worker_message_binding split: prod.splits sum.splits option.splits)

text \<open>What the client accepts as the result of a proposal.\<close>

definition answers :: "worker_proposal \<Rightarrow> worker_result \<Rightarrow> bool" where
  "answers response r \<longleftrightarrow> validate_worker_result r = Inr () \<and> worker_plan_id r = plan_id (proposed_plan response) \<and>
     worker_run_id r = plan_run_id (proposed_plan response) \<and> from_str (proposed_digest response) = Inr (worker_plan_digest r)"

lemma parse_proposed_result_answers: "parse_proposed_result dec reply response = Inr r \<Longrightarrow> answers response r"
  by (auto simp: parse_proposed_result_def parse_worker_result_def answers_def res_simps split: if_splits)

lemma accept_control_message_answers:
  "accept_control_message C c m response w = Some (Inr (Some r), d, w') \<Longrightarrow> answers response r"
  by (auto simp: accept_control_message_def Let_def res_simps dest: parse_proposed_result_answers
      split: prod.splits sum.splits option.splits)

lemma control_step_log:
  assumes "(case m of None \<Rightarrow> Some (Inr None, c, w) | Some m \<Rightarrow> accept_control_message (logged_client C) c m response w) = Some (x, d, w')"
  shows "snd w' = snd w" "control_binding d = control_binding c" "x = Inr (Some r) \<Longrightarrow> answers response r"
proof -
  have "snd w' = snd w \<and> control_binding d = control_binding c \<and> (x = Inr (Some r) \<longrightarrow> answers response r)"
  proof (cases m)
    case (Some n)
    then have n: "accept_control_message (logged_client C) c n response w = Some (x, d, w')" using assms by simp
    show ?thesis
      using log_unchanged [OF client.accept_control_message [OF n]] accept_control_message_binding [OF n]
        accept_control_message_answers [of "logged_client C" c n response w r d w'] n by auto
  qed (use assms in auto)
  then show "snd w' = snd w" "control_binding d = control_binding c" "x = Inr (Some r) \<Longrightarrow> answers response r" by auto
qed

lemma receive_result_log:
  fixes C :: "'w client_env"
  assumes "receive_result (logged_client C) response limit c sent w = Some y"
    "control_binding c = (message_binding a)\<lparr>reply_to := Some (nonce a)\<rparr>"
  shows "(\<exists>evs. snd (snd y) = snd w @ evs \<and> sends_cancel C a sent evs) \<and> (\<forall>r. fst y = Inr r \<longrightarrow> answers response r)"
proof -
  let ?P = "\<lambda>C' (response :: worker_proposal) (limit :: instant) c sent (w :: 'w \<times> client_event list)
      (y :: (any_error + worker_result) \<times> 'w \<times> client_event list).
    C' = logged_client C \<longrightarrow> control_binding c = (message_binding a)\<lparr>reply_to := Some (nonce a)\<rparr> \<longrightarrow>
    (\<exists>evs. snd (snd y) = snd w @ evs \<and> sends_cancel C a sent evs) \<and> (\<forall>r. fst y = Inr r \<longrightarrow> answers response r)"
  have "?P (logged_client C) response limit c sent w y"
    using assms(1)
  proof (rule receive_result.raw_induct [of ?P, rotated])
    fix f :: "('w \<times> client_event list) client_env \<Rightarrow> worker_proposal \<Rightarrow> instant \<Rightarrow> approval_control \<Rightarrow> bool \<Rightarrow>
        'w \<times> client_event list \<Rightarrow> ((any_error + worker_result) \<times> 'w \<times> client_event list) option"
      and C' response limit c sent w y
    assume IH: "\<And>C' response limit c sent w y. f C' response limit c sent w = Some y \<Longrightarrow> ?P C' response limit c sent w y"
    assume y: "(case receive_control_message C' limit w of
        (Inl e, w) \<Rightarrow> Some (Inl e, w)
      | (Inr reply, w) \<Rightarrow>
          Option.bind (case reply of None \<Rightarrow> Some (Inr None, c, w) | Some m \<Rightarrow> accept_control_message C' c m response w)
            (\<lambda>(x, c, w). case x of
                Inl e \<Rightarrow> Some (Inl e, w)
              | Inr (Some r) \<Rightarrow> Some (Inr r, w)
              | Inr None \<Rightarrow>
                  (case send_requested_cancellation C' c sent limit w of
                     (Inl e, w) \<Rightarrow> Some (Inl e, w)
                   | (Inr sent, w) \<Rightarrow> f C' response limit c sent w))) = Some y"
    show "?P C' response limit c sent w y"
    proof (intro impI)
      assume same: "C' = logged_client C" and b: "control_binding c = (message_binding a)\<lparr>reply_to := Some (nonce a)\<rparr>"
      obtain reply w1 where reply: "receive_control_message (logged_client C) limit w = (reply, w1)" by (metis surj_pair)
      have w1: "snd w1 = snd w" using log_unchanged [OF client.receive_control_message, of C limit w] reply by simp
      show "(\<exists>evs. snd (snd y) = snd w @ evs \<and> sends_cancel C a sent evs) \<and> (\<forall>r. fst y = Inr r \<longrightarrow> answers response r)"
      proof (cases reply)
        case (Inl e)
        then show ?thesis using y same reply w1 by auto
      next
        case (Inr m)
        let ?step = "case m of None \<Rightarrow> Some (Inr None, c, w1) | Some m \<Rightarrow> accept_control_message (logged_client C) c m response w1"
        obtain x d w2 where x: "?step = Some (x, d, w2)"
          using y same reply Inr by (auto split: Option.bind_splits)
        note w2 = control_step_log [OF x]
        note y = y [unfolded same reply Inr prod.case sum.case x Option.bind.simps]
        show ?thesis
        proof (cases "x = Inr None")
          case False
          then show ?thesis using y w1 w2 by (cases x) (auto split: option.splits)
        next
          case True
          obtain z w3 where z: "send_requested_cancellation (logged_client C) d sent limit w2 = (z, w3)" by (metis surj_pair)
          obtain evs where e: "snd w3 = snd w2 @ evs" "sends_cancel C a sent evs"
            "\<And>sent' more. z = Inr sent' \<Longrightarrow> sends_cancel C a sent' more \<Longrightarrow> sends_cancel C a sent (evs @ more)"
            using send_requested_cancellation_log [OF z] w2(2) b by metis
          show ?thesis
          proof (cases z)
            case (Inl err)
            then show ?thesis using y True z e w1 w2 by auto
          next
            case (Inr sent')
            then have "?P (logged_client C) response limit d sent' w3 y" using IH y True z by simp
            then obtain more where "snd (snd y) = snd w3 @ more" "sends_cancel C a sent' more" "\<forall>r. fst y = Inr r \<longrightarrow> answers response r"
              using w2(2) b by auto
            then show ?thesis using e Inr w1 w2(1) by auto
          qed
        qed
      qed
    qed
  qed
  then show ?thesis using assms(2) by blast
qed

section \<open>The transcript\<close>

definition requests :: "'h ext \<Rightarrow> 'w client_env \<Rightarrow> plan \<Rightarrow> string \<Rightarrow> byte list \<Rightarrow> bool" where
  "requests E C p pipe_name f \<longleftrightarrow>
     (\<exists>m d source. frame_encode (ser_message C) m = Inr f \<and> message_kind m = ''plan.propose'' \<and>
        plan_digest E p = Inr d \<and> message_payload m = request_payload E p source \<and>
        of_bytes E (as_bytes source) = source_digest (plan_source p) \<and>
        message_binding m = \<lparr>bound_session_id = pipe_name, bound_plan_id = uuid_text E (plan_id p),
          bound_plan_digest = to_hex d, reply_to = None\<rparr>)"

definition verified_proposal :: "'h ext \<Rightarrow> 'w client_env \<Rightarrow> worker_proposal \<Rightarrow> bool" where
  "verified_proposal E C response \<longleftrightarrow> (\<exists>v. dec_proposal C v = Inr response) \<and> plan_structure_ok E (proposed_plan response) \<and>
     (\<exists>d. plan_digest E (proposed_plan response) = Inr d \<and> proposed_digest response = to_hex d)"

definition client_approves ::
    "'h ext \<Rightarrow> string \<Rightarrow> worker_proposal \<Rightarrow> string option \<Rightarrow> broker_message \<Rightarrow> bool" where
  "client_approves E pipe_name response preapproved m \<longleftrightarrow> message_kind m = ''plan.approve'' \<and>
     message_payload m = obj [field ''approvedDigest'' (JString (proposed_digest response))] \<and>
     bound_session_id (message_binding m) = pipe_name \<and>
     bound_plan_id (message_binding m) = uuid_text E (plan_id (proposed_plan response)) \<and>
     bound_plan_digest (message_binding m) = proposed_digest response \<and>
     preapproved \<in> {None, Some (proposed_digest response)}"

text \<open>The last part of a run: the approval, its cancellation, the result.\<close>

definition control_transcript ::
    "'h ext \<Rightarrow> 'w client_env \<Rightarrow> worker_proposal \<Rightarrow> broker_message \<Rightarrow> any_error + exit_code \<Rightarrow> client_event list \<Rightarrow> bool" where
  "control_transcript E C response approval res events \<longleftrightarrow>
     events = [] \<and> isl res \<or>
     (\<exists>f stop. frame_encode (ser_message C) approval = Inr f \<and> sends_cancel C approval False stop \<and>
        (events = Sent f # stop \<and> isl res \<or>
         (\<exists>r. events = Sent f # stop @ [Shown (worker_result_json E r)] \<and> answers response r \<and>
            (isl res \<or> res = Inr (for_status (final_status r))))))"

definition client_transcript_ok ::
    "'h ext \<Rightarrow> 'w client_env \<Rightarrow> plan \<Rightarrow> string option \<Rightarrow> any_error + exit_code \<Rightarrow> client_event list \<Rightarrow> bool" where
  "client_transcript_ok E C p preapproved res events \<longleftrightarrow>
     events = [] \<and> isl res \<or>
     (\<exists>pipe_name f. requests E C p pipe_name f \<and>
        (events = [Sent f] \<and> isl res \<or>
         (\<exists>response. verified_proposal E C response \<and>
            (events = [Sent f, Shown (shown_proposal E response)] \<and> isl res \<or>
             (\<exists>approval rest. client_approves E pipe_name response preapproved approval \<and>
                events = Sent f # Shown (shown_proposal E response) # rest \<and>
                control_transcript E C response approval res rest)))))"

lemma client_proposal_request_log:
  assumes "client_proposal_request E (logged_client C) p pipe_name w = (x, w')"
  shows "snd w' = snd w" "x = Inr m \<Longrightarrow> frame_encode (ser_message C) m = Inr f \<Longrightarrow> requests E C p pipe_name f"
proof -
  obtain a w1 where a: "load_profile_source E (logged_client C) p w = (a, w1)" by (metis surj_pair)
  obtain n w2 where n: "logged_op (new_nonce C) w1 = (n, w2)" by (metis surj_pair)
  have "snd (snd (load_profile_source E (logged_client C) p w)) = snd w"
    unfolding load_profile_source_def
    by (auto intro!: log_unchanged client.st_then_from client.any_from client.source)
  then have "snd w1 = snd w" "snd w2 = snd w1" using a n by (simp, metis logged_op_log snd_conv)
  then show "snd w' = snd w"
    using assms a n by (cases a; cases "plan_digest E p") (auto simp: client_proposal_request_def)
  assume ok: "x = Inr m" "frame_encode (ser_message C) m = Inr f"
  then obtain source d where sd: "a = Inr source" "plan_digest E p = Inr d"
    using assms a by (cases a; cases "plan_digest E p") (auto simp: client_proposal_request_def)
  then have src: "of_bytes E (as_bytes source) = source_digest (plan_source p)"
    using a by (auto simp: load_profile_source_def validate_profile_source_def res_simps split: if_splits)
  show "requests E C p pipe_name f"
    unfolding requests_def
    by (intro exI [of _ m] exI [of _ d] exI [of _ source])
       (use assms a n ok sd src in \<open>auto simp: client_proposal_request_def\<close>)
qed

lemma receive_proposal_verified:
  assumes "receive_proposal E (logged_client C) cache pipe_name m w = Some (x, w')"
  shows "snd w' = snd w" "x = Inr (response, n) \<Longrightarrow> verified_proposal E C response"
proof -
  obtain y cache' where y: "receive_message (logged_client C) cache w = Some (y, cache', w')"
    using assms by (auto simp: receive_proposal_def)
  show "snd w' = snd w" using log_unchanged [OF client.receive_message [OF y]] by simp
  show "x = Inr (response, n) \<Longrightarrow> verified_proposal E C response"
    using assms y
    by (auto simp: receive_proposal_def verify_proposal_binding_def verify_proposal_digest_def verified_proposal_def
        from_str_Inr_iff validate_structure_Inr_iff res_simps split: if_splits)
qed

lemma propose_log:
  assumes "propose E (logged_client C) cache pipe_name p w = Some (x, w')"
  shows "(isl x \<and> snd w' = snd w) \<or> (\<exists>f. requests E C p pipe_name f \<and> snd w' = snd w @ [Sent f] \<and>
    (\<forall>response n. x = Inr (response, n) \<longrightarrow> verified_proposal E C response))"
proof -
  obtain a w1 where a: "client_proposal_request E (logged_client C) p pipe_name w = (a, w1)" by (metis surj_pair)
  note r = client_proposal_request_log [OF a]
  show ?thesis
  proof (cases a)
    case (Inl e)
    then show ?thesis using assms a r(1) by (auto simp: propose_def)
  next
    case (Inr m)
    obtain s w2 where s: "client_send_message (logged_client C) m w1 = (s, w2)" by (metis surj_pair)
    from s show ?thesis
    proof (cases rule: client_send_message_log)
      case (1 e)
      then show ?thesis using assms a Inr s r(1) by (auto simp: propose_def)
    next
      case (2 f)
      have "snd w' = snd w2 \<and> (\<forall>response n. x = Inr (response, n) \<longrightarrow> verified_proposal E C response)"
        using assms a Inr s receive_proposal_verified [of E C cache pipe_name m w2 x w'] by (cases s) (auto simp: propose_def)
      then show ?thesis using r(2) [OF Inr 2(1)] 2(2) r(1) by auto
    qed
  qed
qed

lemma authorize_control_log:
  assumes "authorize_control (logged_client C) approval c limit w = (x, w')"
    "control_binding c = (message_binding approval)\<lparr>reply_to := Some (nonce approval)\<rparr>"
  shows "(isl x \<and> snd w' = snd w) \<or>
    (\<exists>f stop. frame_encode (ser_message C) approval = Inr f \<and> snd w' = snd w @ Sent f # stop \<and> sends_cancel C approval False stop \<and>
       (\<forall>sent more. x = Inr sent \<longrightarrow> sends_cancel C approval sent more \<longrightarrow> sends_cancel C approval False (stop @ more)))"
proof -
  obtain b w1 where b: "console_cancelled (logged_client C) w = (b, w1)" by (metis surj_pair)
  have w1: "snd w1 = snd w" using log_unchanged [OF client.cancelled, of C w] b by simp
  obtain s w2 where s: "send_control_message (logged_client C) approval limit w1 = (s, w2)" by (metis surj_pair)
  obtain b2 w3 where b2: "console_cancelled (logged_client C) w2 = (b2, w3)" by (metis surj_pair)
  have w3: "snd w3 = snd w2" using log_unchanged [OF client.cancelled, of C w2] b2 by simp
  obtain t w4 where t: "send_cancellation (logged_client C) c limit w3 = (t, w4)" by (metis surj_pair)
  note t' = send_cancellation_log [OF t assms(2)]
  have cf: "sends_cancel C approval True more \<longleftrightarrow> more = []" for more by (auto simp: sends_cancel_def)
  have x: "(x, w') = (if b then (Inl (AnyPlatform ElevationCancelled), w1) else case s of Inl e \<Rightarrow> (Inl e, w2) | Inr _ \<Rightarrow>
      if \<not> b2 then (Inr False, w3) else (case t of Inl e \<Rightarrow> (Inl e, w4) | Inr _ \<Rightarrow> (Inr True, w4)))"
    using assms(1) b s b2 t
    by (cases s; cases t) (auto simp: authorize_control_def send_approval_with_cancellation_def)
  show ?thesis
  proof (cases b)
    case True
    then show ?thesis using x w1 by simp
  next
    case False
    from s show ?thesis
    proof (cases rule: send_control_message_log)
      case (1 e)
      then show ?thesis using x False w1 by simp
    next
      case (2 f)
      then show ?thesis using x False w1 w3 t' cf
        by (cases s; cases b2; cases t) (auto simp: sends_cancel_def)
    qed
  qed
qed

lemma start_control_log:
  assumes "start_control (logged_client C) approval w = Some (x, w')"
  shows "snd w' = snd w" "x = Inr (c, limit) \<Longrightarrow> control_binding c = (message_binding approval)\<lparr>reply_to := Some (nonce approval)\<rparr>"
proof -
  obtain t w1 where t: "instant_now (logged_client C) w = (t, w1)" by (metis surj_pair)
  have w1: "snd w1 = snd w" using log_unchanged [OF client.instant, of C w] t by simp
  obtain i w2 where i: "install_console (logged_client C) w1 = (i, w2)" by (metis surj_pair)
  have w2: "snd w2 = snd w1" using log_unchanged [OF client.console, of C w1] i by simp
  show "snd w' = snd w"
    using assms t w1 w2 i by (cases i) (auto simp: start_control_def split: option.splits sum.splits)
  show "x = Inr (c, limit) \<Longrightarrow> control_binding c = (message_binding approval)\<lparr>reply_to := Some (nonce approval)\<rparr>"
    using assms t i
    by (cases i) (auto simp: start_control_def approval_control_new_def Let_def res_simps
        split: option.splits sum.splits if_splits Option.bind_splits)
qed

text \<open>The end of a run, after the result was received.\<close>

lemma report_result_log:
  assumes "st_then (worker_exit (logged_client C) w) (\<lambda>code w.
      st_then (reconcile_worker_exit r code, w) (\<lambda>_ w.
      st_then (any_from AnyText (print_json (logged_client C) v w)) (\<lambda>_ w. (Inr code, w)))) = (res, w')"
  shows "(isl res \<and> snd w' = snd w) \<or> (snd w' = snd w @ [Shown v] \<and> (isl res \<or> res = Inr (for_status (final_status r))))"
proof -
  obtain j w1 where j: "worker_exit (logged_client C) w = (j, w1)" by (metis surj_pair)
  have "snd (snd (worker_exit (logged_client C) w)) = snd w"
    using log_unchanged [OF client.join, of C w] by (auto simp: worker_exit_def split: prod.split launch_completion.split)
  then have w1: "snd w1 = snd w" using j by simp
  obtain y w2 where y: "any_from AnyText (logged_send (Shown v) (print_json C v) w1) = (y, w2)" by (metis surj_pair)
  note w2 = logged_send_any [OF y]
  show ?thesis using assms j y w1 w2
    by (cases j; cases y) (auto simp: reconcile_worker_exit_def split: if_splits)
qed

lemma client_finish_log:
  assumes "client_finish E (logged_client C) response approval w = Some (res, w')"
  shows "\<exists>rest. snd w' = snd w @ rest \<and> control_transcript E C response approval res rest"
proof -
  obtain x w1 where x: "start_control (logged_client C) approval w = Some (x, w1)"
    using assms by (auto simp: client_finish_def split: option.splits)
  note w1 = start_control_log [OF x]
  consider e where "x = Inl e" | c limit where "x = Inr (c, limit)" by (cases x) auto
  then show ?thesis
  proof cases
    case 1
    then show ?thesis using assms x w1(1) by (auto simp: client_finish_def control_transcript_def)
  next
    case (2 c limit)
    note b = w1(2) [OF 2]
    obtain s w2 where s: "authorize_control (logged_client C) approval c limit w1 = (s, w2)" by (metis surj_pair)
    from authorize_control_log [OF s b] show ?thesis
    proof (elim disjE exE conjE)
      assume "isl s" "snd w2 = snd w1"
      then show ?thesis using assms x 2 s w1(1) by (cases s) (auto simp: client_finish_def control_transcript_def)
    next
      fix f stop
      assume f: "frame_encode (ser_message C) approval = Inr f" "snd w2 = snd w1 @ Sent f # stop" "sends_cancel C approval False stop"
        and more: "\<forall>sent more. s = Inr sent \<longrightarrow> sends_cancel C approval sent more \<longrightarrow> sends_cancel C approval False (stop @ more)"
      show ?thesis
      proof (cases s)
        case (Inl e)
        then show ?thesis using assms x 2 s w1(1) f by (auto simp: client_finish_def control_transcript_def)
      next
        case (Inr sent)
        obtain y w3 where y: "receive_result (logged_client C) response limit c sent w2 = Some (y, w3)"
          using assms x 2 s Inr by (auto simp: client_finish_def split: option.splits)
        obtain evs where e: "snd w3 = snd w2 @ evs" "sends_cancel C approval sent evs" "\<And>r. y = Inr r \<Longrightarrow> answers response r"
          using receive_result_log [OF y b] by auto
        have stop: "sends_cancel C approval False (stop @ evs)" using more Inr e(2) by blast
        show ?thesis
        proof (cases y)
          case (Inl err)
          then show ?thesis using assms x 2 s Inr y e(1) f(1,2) stop w1(1)
            by (auto simp: client_finish_def control_transcript_def)
        next
          case r: (Inr r)
          have "st_then (worker_exit (logged_client C) w3) (\<lambda>code w. st_then (reconcile_worker_exit r code, w) (\<lambda>_ w.
              st_then (any_from AnyText (print_json (logged_client C) (worker_result_json E r) w)) (\<lambda>_ w. (Inr code, w)))) = (res, w')"
            using assms x 2 s Inr y r by (simp add: client_finish_def del: logged_client_fields)
          from report_result_log [OF this] show ?thesis
            using e(1) e(3) [OF r] f(1,2) stop w1(1) by (auto simp: control_transcript_def)
        qed
      qed
    qed
  qed
qed

lemma client_approval_request_log:
  assumes operator: "client_approval_digest (logged_client C) preapproved w = Some operator"
    and request: "st_then operator (\<lambda>operator w.
      client_approval_request E (logged_client C) pipe_name response n operator w) = (x, w')"
  shows "snd w' = snd w" "x = Inr m \<Longrightarrow> client_approves E pipe_name response preapproved m"
proof -
  obtain d w1 where d: "operator = (d, w1)" by (metis surj_pair)
  obtain k w2 where k: "logged_op (new_nonce C) w1 = (k, w2)" by (metis surj_pair)
  have "snd (snd operator) = snd w"
  proof (cases preapproved)
    case None
    then obtain line where line: "read_approval (logged_client C) w = Some line"
        "operator = st_then (any_from AnyText line) (\<lambda>v w.
           if v = [] then (Inl (AnyText ''worker proposal was not approved''), w) else (Inr v, w))"
      using operator by (auto simp: client_approval_digest_def)
    have "snd (snd line) = snd w" using log_unchanged [OF client.approval [OF line(1)]] by simp
    then show ?thesis unfolding line(2) by (cases line; cases "fst line") (auto simp: any_from_def)
  qed (use operator in \<open>auto simp: client_approval_digest_def\<close>)
  then have w: "snd w1 = snd w" "snd w2 = snd w1" using d k by (simp, metis logged_op_log snd_conv)
  then show "snd w' = snd w"
    using request d k by (cases d) (auto simp: client_approval_request_def split: if_splits)
  assume "x = Inr m"
  then show "client_approves E pipe_name response preapproved m"
    using operator request d k
    by (cases d; cases preapproved) (auto simp: client_approval_request_def client_approval_digest_def client_approves_def split: if_splits)
qed

text \<open>From the proposal on.\<close>

lemma proposal_transcript:
  assumes f: "requests E C p pipe_name f" "snd w = [Sent f]"
    and v: "\<forall>response n. y = Inr (response, n) \<longrightarrow> verified_proposal E C response"
    and run: "(case y of Inl e \<Rightarrow> Some (Inl e, w) | Inr (response, n) \<Rightarrow>
      (case any_from AnyText (print_json (logged_client C) (shown_proposal E response) w) of
        (Inl e, w) \<Rightarrow> Some (Inl e, w)
      | (Inr _, w) \<Rightarrow>
      (case client_approval_digest (logged_client C) preapproved w of
        None \<Rightarrow> None
      | Some operator \<Rightarrow>
      (case st_then operator (\<lambda>operator w.
          client_approval_request E (logged_client C) pipe_name response n operator w) of
        (Inl e, w) \<Rightarrow> Some (Inl e, w)
      | (Inr approval, w) \<Rightarrow> client_finish E (logged_client C) response approval w)))) = Some (res, w')"
  shows "client_transcript_ok E C p preapproved res (snd w')"
proof -
  consider e where "y = Inl e" | response n where "y = Inr (response, n)" by (cases y) auto
  then show ?thesis
  proof cases
    case 1
    then show ?thesis using f run by (auto simp: client_transcript_ok_def)
  next
    case (2 response n)
    have v: "verified_proposal E C response" using v 2 by blast
    obtain s w1 where s: "any_from AnyText (logged_send (Shown (shown_proposal E response)) (print_json C (shown_proposal E response)) w) = (s, w1)"
      by (metis surj_pair)
    have w1: "snd w1 = [Sent f, Shown (shown_proposal E response)]" using logged_send_any [OF s] f(2) by simp
    show ?thesis
    proof (cases s)
      case (Inl err)
      then have "isl res \<and> snd w' = [Sent f, Shown (shown_proposal E response)]" using run 2 s w1 by auto
      then show ?thesis using f(1) v by (auto simp: client_transcript_ok_def)
    next
      case (Inr u)
      obtain operator where o: "client_approval_digest (logged_client C) preapproved w1 = Some operator"
        using run 2 s Inr by (auto split: option.splits)
      obtain a w2 where a: "st_then operator (\<lambda>operator w.
          client_approval_request E (logged_client C) pipe_name response n operator w) = (a, w2)" by (metis surj_pair)
      note a' = client_approval_request_log [OF o a]
      show ?thesis
      proof (cases a)
        case (Inl err)
        then have "isl res \<and> snd w' = [Sent f, Shown (shown_proposal E response)]"
          using run 2 s Inr o a w1 a'(1) by auto
        then show ?thesis using f(1) v by (auto simp: client_transcript_ok_def)
      next
        case m: (Inr m)
        then have "client_finish E (logged_client C) response m w2 = Some (res, w')" using run 2 s Inr o a by simp
        then obtain rest where "snd w' = snd w2 @ rest" "control_transcript E C response m res rest"
          using client_finish_log by blast
        then show ?thesis using f(1) v a'(1) a'(2) [OF m] w1 unfolding client_transcript_ok_def by auto
      qed
    qed
  qed
qed

lemma client_run_transcript:
  assumes run: "apply_run E (logged_client C) p preapproved (w, []) = Some (res, w')"
  shows "client_transcript_ok E C p preapproved res (snd w')"
proof -
  obtain x w1 where x: "start_worker (logged_client C) p (w, []) = Some (x, w1)"
    using run by (auto simp: apply_run_def split: option.splits)
  have w1: "snd w1 = []" using log_unchanged [OF client.start_worker [OF x]] by simp
  consider e where "x = Inl e" | pipe_name cache where "x = Inr (pipe_name, cache)" by (cases x) auto
  then show ?thesis
  proof cases
    case 1
    then show ?thesis using run x w1 by (auto simp: apply_run_def client_transcript_ok_def)
  next
    case (2 pipe_name cache)
    note run = run [unfolded apply_run_def x 2 option.case prod.case sum.case]
    obtain y w2 where y: "propose E (logged_client C) cache pipe_name p w1 = Some (y, w2)"
      using run by (auto split: option.splits)
    from propose_log [OF y] show ?thesis
    proof (elim disjE exE conjE)
      assume "isl y" "snd w2 = snd w1"
      then show ?thesis using run y w1 by (cases y) (auto simp: client_transcript_ok_def)
    next
      fix f
      assume f: "requests E C p pipe_name f" "snd w2 = snd w1 @ [Sent f]"
        and v: "\<forall>response n. y = Inr (response, n) \<longrightarrow> verified_proposal E C response"
      show ?thesis by (rule proposal_transcript [OF f(1) _ v]) (use run y f(2) w1 in simp_all)
    qed
  qed
qed

text \<open>
  C9: the transcript of a run of the client, whatever its end. The first frame asks for exactly the given plan, with the
  profile whose digest the plan names. The proposal that answers it is shown before anything is approved, and it is
  structurally valid and carries its own digest. At most one approval follows, of exactly the digest shown, and after it
  at most one cancellation. A result is shown only when it answers the shown plan, run and digest, and the run returns an
  exit code only when it has shown such a result and the process of the worker ended with the code of its status.
\<close>

theorem client_transcript:
  "case apply_run E (logged_client C) p preapproved (w, []) of
     None \<Rightarrow> True
   | Some (res, _, events) \<Rightarrow> client_transcript_ok E C p preapproved res events"
  using client_run_transcript by (fastforce split: option.split)

section \<open>The client ends\<close>

text \<open>
  What is assumed of time, as for the worker: the clock does not go back, and a wait that passes without a message and a
  pause take time.
\<close>

definition client_ticking :: "('w, 'z) client_env_scheme \<Rightarrow> ('w \<Rightarrow> instant) \<Rightarrow> bool" where
  "client_ticking C clock \<longleftrightarrow> client_relation C (\<lambda>w w'. clock w \<le> clock w') (\<lambda>_. True) \<and>
     (\<forall>w v. clock w \<le> clock (snd (print_json C v w))) \<and>
     (\<forall>w. clock w \<le> fst (instant_now C w) \<and> fst (instant_now C w) \<le> clock (snd (instant_now C w))) \<and>
     (\<forall>w d. 0 < d \<longrightarrow> clock w < clock (sleep_for C d w)) \<and>
     (\<forall>w d. 0 < d \<longrightarrow> fst (pipe_receive_timeout C d w) = Inr None \<longrightarrow> clock w < clock (snd (pipe_receive_timeout C d w)))"

lemma client_tickingD:
  assumes "client_ticking C clock"
  shows "client_relation C (\<lambda>w w'. clock w \<le> clock w') (\<lambda>_. True)"
    "instant_now C w = (t, w') \<Longrightarrow> clock w \<le> t \<and> t \<le> clock w'"
    "0 < d \<Longrightarrow> clock w < clock (sleep_for C d w)"
    "0 < d \<Longrightarrow> pipe_receive_timeout C d w = (Inr None, w') \<Longrightarrow> clock w < clock w'"
  using assms unfolding client_ticking_def by (metis fst_conv snd_conv)+

lemma connect_loop_returns:
  assumes C: "client_ticking C clock"
  shows "\<exists>y. connect_loop C name limit w = Some y"
proof (induction "limit - clock w" arbitrary: w rule: less_induct)
  case less
  note R = client_tickingD(1) [OF C]
  obtain a w1 where 1: "try_connect C name w = (a, w1)" by fastforce
  obtain b w2 where 2: "launcher_finished C w1 = (b, w2)" by fastforce
  obtain t w3 where 3: "instant_now C w2 = (t, w3)" by fastforce
  have le: "clock w \<le> clock w1" "clock w1 \<le> clock w2" "clock w2 \<le> t" "t \<le> clock w3"
    "clock w3 < clock (sleep_for C (50 * 10 ^ 6) w3)"
    using client_relation.connecting [OF R, of w name] 1 client_relation.launcher [OF R, of w1] 2
      client_tickingD(2) [OF C 3] client_tickingD(3) [OF C, of "50 * 10 ^ 6" w3] by simp_all
  show ?case
  proof (cases "select_startup_poll a b (t < limit) = Retry")
    case True
    then have "t < limit" by (auto simp: select_startup_poll_def split: sum.splits if_splits)
    then have "limit - clock (sleep_for C (50 * 10 ^ 6) w3) < limit - clock w" using le by linarith
    from less [OF this] show ?thesis using True by (simp add: connect_loop.simps [of C name limit w] 1 2 3)
  next
    case False
    then show ?thesis
      by (cases "join_launcher C w3") (auto simp: connect_loop.simps [of C name limit w] 1 2 3 split: startup_poll.split)
  qed
qed

lemma connect_returns:
  assumes "client_ticking C clock"
  shows "\<exists>x w'. connect C name w = Some (x, w')"
proof -
  obtain t w1 where t: "instant_now C w = (t, w1)" by fastforce
  obtain y where "connect_loop C name (t + 20 * 10 ^ 9) w1 = Some y" using connect_loop_returns [OF assms] by blast
  then show ?thesis using t by (cases y) (simp add: connect_def)
qed

lemma remaining_control_time_Inr:
  assumes "client_ticking C clock" "remaining_control_time C limit w = (Inr d, w')"
  shows "clock w < limit" "clock w \<le> clock w'" "0 < d"
proof -
  obtain t where t: "instant_now C w = (t, w')" "t < limit" "d = limit - t"
    using assms(2) by (cases "instant_now C w") (auto simp: remaining_control_time_def split: if_splits)
  then show "clock w < limit" "clock w \<le> clock w'" "0 < d" using client_tickingD(2) [OF assms(1) t(1)] by auto
qed

lemma receive_control_message_ticks:
  assumes C: "client_ticking C clock" and "receive_control_message C limit w = (Inr None, w')"
  shows "clock w < limit \<and> clock w < clock w'"
proof -
  obtain d w1 where d1: "remaining_control_time C limit w = (Inr d, w1)"
    using assms(2) by (auto simp: receive_control_message_def st_then_Inr_iff)
  obtain x w2 where x: "pipe_receive_timeout C (min (50 * 10 ^ 6) d) w1 = (x, w2)" by fastforce
  have "x = Inr None \<and> w2 = w'"
    using assms(2) d1 x by (cases x; cases "projr x") (auto simp: receive_control_message_def res_simps)
  note d = d1 x [unfolded this [THEN conjunct1] this [THEN conjunct2]]
  note r = remaining_control_time_Inr [OF C d(1)]
  then have "clock w1 < clock w'" by (intro client_tickingD(4) [OF C _ d(2)]) simp
  then show ?thesis using r by simp
qed

lemma accept_worker_message_received:
  assumes "session_inv a start t0 c" "log_ok a start c log" "t0 \<le> t"
  shows "\<exists>x d log'. accept_worker_message dec c m t = Some (x, d) \<and> session_inv a start t d \<and> log_ok a start d log' \<and>
    (\<forall>p. x = Inr p \<longrightarrow> received d = Suc (received c))"
proof -
  obtain x d where x: "accept_worker_message dec c m t = Some (x, d)" "session_inv a start t d"
    "log_ok a start d (case x of Inl e \<Rightarrow> log | Inr p \<Rightarrow> log @ [(m, t)])"
    using worker_message_session [OF assms] by blast
  obtain y e where y: "accept_envelope c m t = Some (y, e)" "y = Inr () \<Longrightarrow> received e = Suc (received c)"
    using accept_envelope_session [OF assms(1,3), of m] by metis
  have "received d = Suc (received c)" if "x = Inr p" for p
    using x(1) y that by (auto simp: accept_worker_message_def split: sum.splits if_splits)
  then show ?thesis using x by blast
qed

definition messages_left :: "('w \<Rightarrow> instant) \<Rightarrow> instant \<Rightarrow> approval_control \<Rightarrow> 'w \<Rightarrow> nat" where
  "messages_left clock limit c w = (limit - clock w) + (127 - received c)"

text \<open>A turn of the loop: it ends the loop, or fewer turns are left.\<close>

lemma control_step_returns:
  assumes C: "client_ticking C clock" and s: "session_at clock a start c w"
    and r: "receive_control_message C limit w = (Inr m, w1)"
  obtains x d w2 where
    "(case m of None \<Rightarrow> Some (Inr None, c, w1) | Some m \<Rightarrow> accept_control_message C c m response w1) = Some (x, d, w2)"
    "clock w \<le> clock w2" "x = Inr None \<Longrightarrow> session_at clock a start d w2 \<and> messages_left clock limit d w2 < messages_left clock limit c w"
proof -
  note R = client_tickingD(1) [OF C]
  have w1: "clock w \<le> clock w1" using client_relation.receive_control_message [OF R, of w limit] r by simp
  show thesis
  proof (cases m)
    case None
    then have "clock w < limit \<and> clock w < clock w1" using receive_control_message_ticks [OF C] r by blast
    then have "messages_left clock limit c w1 < messages_left clock limit c w" unfolding messages_left_def by linarith
    then show thesis using that [of "Inr None" c w1] None w1 session_at_later [OF s w1] by simp
  next
    case (Some n)
    obtain t w2 where t: "instant_now C w1 = (t, w2)" by fastforce
    have t2: "clock w1 \<le> t" "t \<le> clock w2" using client_tickingD(2) [OF C t] by auto
    obtain t0 log where s0: "session_inv a start t0 c" "log_ok a start c log" "t0 \<le> t"
      using s w1 t2 unfolding session_at_def by fastforce
    obtain x d log' where x: "accept_worker_message (dec_progress C) c n t = Some (x, d)" "session_inv a start t d"
      "log_ok a start d log'" "\<And>p. x = Inr p \<Longrightarrow> received d = Suc (received c)"
      using accept_worker_message_received [OF s0] by metis
    have "\<exists>z w3. accept_control_message C c n response w1 = Some (z, d, w3) \<and> (z = Inr None \<longrightarrow> (\<exists>p. x = Inr p))"
      using x(1) t by (cases x; cases "projr x") (auto simp: accept_control_message_def split: sum.split)
    then obtain z w3 where z: "accept_control_message C c n response w1 = Some (z, d, w3)" "z = Inr None \<Longrightarrow> \<exists>p. x = Inr p"
      by blast
    have w3: "clock w1 \<le> clock w3" using client_relation.accept_control_message [OF R z(1)] .
    have "clock w2 \<le> clock w3"
      using z(1) t x(1) client_relation.progress [OF R, of w2]
      by (auto simp: accept_control_message_def split: sum.splits option.splits)
    then have "session_at clock a start d w3" using x(2,3) t2(2) unfolding session_at_def by (meson order_trans)
    moreover have "messages_left clock limit d w3 < messages_left clock limit c w" if "x = Inr p" for p
    proof -
      have "received d = Suc (received c)" "received d \<le> 127" using x(4) [OF that] x(2) by (simp_all add: session_inv_def)
      then show ?thesis using w1 w3 unfolding messages_left_def by linarith
    qed
    ultimately show thesis using that [of z d w3] z Some w1 w3 by auto
  qed
qed

lemma send_requested_cancellation_time:
  assumes "client_ticking C clock" "send_requested_cancellation C c sent limit w = (x, w')"
  shows "clock w \<le> clock w'"
  using client_relation.send_requested_cancellation [OF client_tickingD(1) [OF assms(1)], where c = c and w = w and sent = sent and limit = limit] assms(2)
  by simp

lemma receive_result_returns:
  assumes C: "client_ticking C clock"
  shows "session_at clock a start c w \<Longrightarrow> \<exists>y. receive_result C response limit c sent w = Some y"
proof (induction "messages_left clock limit c w" arbitrary: c sent w rule: less_induct)
  case less
  note R = client_tickingD(1) [OF C]
  obtain m w1 where m: "receive_control_message C limit w = (m, w1)" by fastforce
  show ?case
  proof (cases m)
    case (Inl e)
    then show ?thesis using m by (simp add: receive_result.simps [of C response limit c sent w])
  next
    case (Inr r)
    obtain x d w2 where x: "(case r of None \<Rightarrow> Some (Inr None, c, w1) | Some m \<Rightarrow> accept_control_message C c m response w1) = Some (x, d, w2)"
      "x = Inr None \<Longrightarrow> session_at clock a start d w2 \<and> messages_left clock limit d w2 < messages_left clock limit c w"
      using control_step_returns [OF C less.prems m [unfolded Inr]] by metis
    obtain z w3 where z: "send_requested_cancellation C d sent limit w2 = (z, w3)" by fastforce
    have w3: "clock w2 \<le> clock w3" using send_requested_cancellation_time [OF C z] .
    have "messages_left clock limit d w3 \<le> messages_left clock limit d w2" using w3 by (simp add: messages_left_def)
    then have "x = Inr None \<Longrightarrow> \<exists>y. receive_result C response limit d sent' w3 = Some y" for sent'
      using less.hyps [of d w3] x(2) session_at_later [of clock a start d w2 w3] w3 by fastforce
    then show ?thesis
      using m Inr x(1) z by (cases x; cases z) (auto simp: receive_result.simps [of C response limit c sent w] split: option.split)
  qed
qed

lemma client_finish_returns:
  assumes C: "client_ticking C clock"
  shows "\<exists>y. client_finish E C response approval w = Some y"
proof -
  note R = client_tickingD(1) [OF C]
  obtain t w1 where t: "instant_now C w = (t, w1)" by fastforce
  have t1: "t \<le> clock w1" using client_tickingD(2) [OF C t] by simp
  obtain i w2 where i: "install_console C w1 = (i, w2)" by fastforce
  have w2: "clock w1 \<le> clock w2" using client_relation.console [OF R, of w1] i by simp
  consider e where "approval_control_new approval t = Some (Inl e)"
    | c where "approval_control_new approval t = Some (Inr c)" "session_inv approval t t c" "log_ok approval t c []"
    using approval_session [of approval t]
    by (cases "message_validate approval"; cases "message_kind approval = ''plan.approve''") (auto simp: approval_control_new_def)
  then show ?thesis
  proof cases
    case 1
    then show ?thesis using t by (simp add: client_finish_def start_control_def)
  next
    case (2 c)
    obtain s w3 where s: "authorize_control C approval c (t + two_minutes) w2 = (s, w3)" by fastforce
    have "clock w2 \<le> clock w3" using client_relation.authorize_control [OF R, of w2] s by (metis snd_conv)
    then have "session_at clock approval t c w3" using 2 t1 w2 unfolding session_at_def by (meson order_trans)
    from receive_result_returns [OF C this] obtain r w4 where
      "receive_result C response (t + two_minutes) c (projr s) w3 = Some (r, w4)" by fastforce
    then show ?thesis
      using 2(1) t i s by (cases i; cases s; cases r) (simp_all add: client_finish_def start_control_def)
  qed
qed

lemma start_worker_returns:
  assumes C: "client_ticking C clock"
  obtains x w' where "start_worker C p w = Some (x, w')" "\<And>n cache t. x = Inr (n, cache) \<Longrightarrow> replay_reach t cache"
proof -
  let ?first = "st_then (installed_package C w) (\<lambda>(installed, executable) w.
        st_then (verify_package_digest p installed, w) (\<lambda>_ w.
        st_then (any_from AnyPlatform (own_identity C w)) (\<lambda>cli w. (Inr (executable, cli), w))))"
  obtain y w1 where y: "?first = (y, w1)" by fastforce
  obtain n w2 where n: "new_session C w1 = (n, w2)" by fastforce
  obtain z w3 where z: "connect C n (launch_worker C n w2) = Some (z, w3)"
    using connect_returns [OF C] by blast
  have "\<exists>x w'. start_worker C p w = Some (x, w')"
    using y n z by (cases y; cases z) (auto simp: start_worker_def)
  then obtain x w' where x: "start_worker C p w = Some (x, w')" by blast
  have "replay_reach t cache" if "x = Inr (n', cache)" for n' cache t
    using x y n z that
    by (cases y; cases z) (auto simp: start_worker_def res_simps st_then_Inr_iff intro: NewCache)
  then show thesis using that x by blast
qed

lemma propose_returns:
  assumes C: "client_ticking C clock" and reach: "\<And>t. replay_reach t cache"
  shows "\<exists>x w'. propose E C cache pipe_name p w = Some (x, w')"
proof -
  note R = client_relation.axioms(1) [OF client_tickingD(1) [OF C]]
  obtain a w1 where a: "st_then (client_proposal_request E C p pipe_name w) (\<lambda>request w.
        st_then (client_send_message C request w) (\<lambda>_ w. (Inr request, w))) = (a, w1)" by fastforce
  obtain y cache' w2 where "receive_message C cache w1 = Some (y, cache', w2)"
    using receive_message_returns [where B = C and clock = clock and w = w1, OF pipe_relation.receive [OF R] client_tickingD(2) [OF C] reach order_refl] by metis
  then show ?thesis using a by (cases a) (auto simp: propose_def receive_proposal_def)
qed

lemma client_approval_digest_returns:
  assumes "\<not> (preapproved = None \<and> (\<exists>w'. read_approval C w' = None))"
  shows "client_approval_digest C preapproved w \<noteq> None"
  using assms by (cases preapproved) (auto simp: client_approval_digest_def)


text \<open>A world of nothing but time, in which the package cannot be read.\<close>

definition idle_client :: "nat client_env" where
  "idle_client = \<lparr>pipe_receive = (\<lambda>w. (Inl ReplayDetected, w)), pipe_receive_timeout = (\<lambda>d w. (Inr None, w + d)),
     pipe_send = (\<lambda>f w. (Inr (), w)), pipe_send_timeout = (\<lambda>f d w. (Inr (), w)), instant_now = (\<lambda>w. (w, w)),
     new_nonce = (\<lambda>w. (''a1'', w)), ser_message = (\<lambda>m. Inr []), de_message = (\<lambda>b. Inl ''none''),
     installed_package = (\<lambda>w. (Inr ([], ''w''), w)), own_identity = (\<lambda>w. (Inl ReplayDetected, w)), new_session = (\<lambda>w. (''a1'', w)),
     launch_worker = (\<lambda>n w. w), try_connect = (\<lambda>n w. (Inl ReplayDetected, w)), launcher_finished = (\<lambda>w. (False, w)),
     join_launcher = (\<lambda>w. (LauncherPanicked, w)), sleep_for = (\<lambda>d w. w + d), server_peer = (\<lambda>w. (Inr 0, w)),
     server_identity = (\<lambda>w. (Inl ReplayDetected, w)), verified_server_image = (\<lambda>w. (Inr [], w)),
     read_source = (\<lambda>l w. (Inr [], w)), install_console = (\<lambda>w. (Inr (), w)), console_cancelled = (\<lambda>w. (False, w)),
     print_json = (\<lambda>v w. (Inr (), w)), write_progress = (\<lambda>p w. w), read_approval = (\<lambda>w. None),
     parse_source = (\<lambda>t. Inl ''none''), dec_profile = (\<lambda>v. Inl ''none''), dec_proposal = (\<lambda>v. Inl ''none''),
     dec_progress = (\<lambda>v. Inl ''none''), dec_result = (\<lambda>v. Inl ''none'')\<rparr>"

lemma idle_client_ticking: "client_ticking idle_client id"
proof -
  have "client_relation idle_client (\<lambda>w w'. id w \<le> id w') (\<lambda>_. True)"
    by unfold_locales (simp_all add: idle_client_def)
  then show ?thesis by (simp add: client_ticking_def idle_client_def)
qed


end
