(* ===== verification/Broker_Agreement.thy ===== *)
theory Broker_Agreement
  imports Client_Session
begin

text \<open>
  The two ends of the pipe together: an approval that the worker accepts approves the plan that the operator was shown.
\<close>

section \<open>Frames determine messages\<close>

definition codec_contract :: "(broker_message \<Rightarrow> string + byte list) \<Rightarrow> (byte list \<Rightarrow> string + broker_message) \<Rightarrow> bool" where
  "codec_contract ser de \<longleftrightarrow> (\<forall>m b. ser m = Inr b \<longrightarrow> de b = Inr m)"

lemma decode_encode:
  assumes "codec_contract ser de" "frame_encode ser m = Inr f" "frame_decode de f = Inr n"
  shows "n = m"
proof -
  obtain body where b: "ser m = Inr body" "bounded_body f = Inr body"
    using assms(2) by (auto simp: frame_encode_Inr_iff bounded_body_Inr_iff)
  then show ?thesis using assms(1,3) by (auto simp: frame_decode_def codec_contract_def)
qed

lemma digest_determines_plan:
  assumes "hasher_contract E" "string_contract E" "number_contract E" "uuid_contract E" "time_contract E"
    and "plan_ok p" "plan_ok q" "no_collision E (plan_json E p) (plan_json E q)"
    and "plan_digest E p = Inr d" "plan_digest E q = Inr d"
  shows "p = q"
proof -
  have "canonical_json_digest E Inr (plan_json E p) = canonical_json_digest E Inr (plan_json E q)"
    using assms(9,10) by (simp add: plan_digest_def canonical_json_digest_eq [OF assms(1)])
  then have "plan_json E p = plan_json E q"
    using canonical_digest_inj [OF assms(1-3) plan_json_ok plan_json_ok assms(8)] assms(4,6,7) by blast
  then show ?thesis using plan_json_inj [OF assms(4,5,6,7)] by blast
qed

section \<open>Agreement\<close>

text \<open>The approval is the only frame of a run that can be taken for an approval, and it follows the shown proposal.\<close>

lemma sent_approval:
  assumes codec: "codec_contract (ser_message C) de"
    and ok: "client_transcript_ok E C p preapproved res events"
    and f: "Sent f \<in> set events" "frame_decode de f = Inr approval" "message_kind approval = ''plan.approve''"
  obtains request response pipe_name rest where "events = Sent request # Shown (shown_proposal E response) # Sent f # rest"
    "verified_proposal E C response" "client_approves E pipe_name response preapproved approval"
proof -
  have kind: "message_kind m = ''plan.approve''" if "frame_encode (ser_message C) m = Inr f" for m
    using decode_encode [OF codec that f(2)] f(3) by simp
  have cancel: "\<not> cancel_event C a (Sent f)" for a using kind by (auto simp: cancel_event_def)
  have request: "\<not> requests E C p pipe_name f" for pipe_name using kind by (auto simp: requests_def)
  obtain pipe_name g response m rest where e: "requests E C p pipe_name g" "verified_proposal E C response"
      "client_approves E pipe_name response preapproved m" "events = Sent g # Shown (shown_proposal E response) # rest"
      "control_transcript E C response m res rest"
    using ok f(1) request by (auto simp: client_transcript_ok_def)
  have "Sent f \<in> set rest" using f(1) e(1,4) request by auto
  then obtain h stop where h: "frame_encode (ser_message C) m = Inr h" "sends_cancel C m False stop"
      "\<exists>more. rest = Sent h # stop @ more \<and> Sent f \<notin> set more"
    using e(5) unfolding control_transcript_def by force
  have "Sent f \<notin> set stop" using h(2) cancel by (auto simp: sends_cancel_def list_all_iff)
  then have "h = f" using h(3) \<open>Sent f \<in> set rest\<close> by auto
  then show thesis
    using that [of g response _ pipe_name] e h decode_encode [OF codec _ f(2), of m] by auto
qed

text \<open>
  C6: the operator saw the plan that the worker retained. When a worker has offered a plan, accepts an approval of its
  offer, and that approval is a frame that a client sent, then the client had shown the operator a plan before it sent the
  frame, and it is the retained plan, unless the two texts collide under SHA-256. The pipe may have dropped, reordered or replayed anything, and the decoders of the client may be wrong in
  every way that yields well-formed plans.
\<close>

theorem operator_saw_retained_plan:
  assumes "hasher_contract E" "string_contract E" "number_contract E" "uuid_contract E" "time_contract E"
    and "codec_contract (ser_message C) de" "\<forall>v r. dec_proposal C v = Inr r \<longrightarrow> plan_ok (proposed_plan r)"
    and "apply_run E (logged_client C) p preapproved (w, []) = Some (res, w', events)"
    and "Sent f \<in> set events" "frame_decode de f = Inr approval"
    and "offers E B pipe_name request asked authority offer first" "approves offer approval"
    and "plan_ok (session_plan (authority_session authority))"
  shows "\<exists>response before after. events = before @ Shown (shown_proposal E response) # after \<and> Sent f \<in> set after \<and>
    (no_collision E (plan_json E (proposed_plan response)) (plan_json E (session_plan (authority_session authority))) \<longrightarrow>
       proposed_plan response = session_plan (authority_session authority))"
proof -
  have "client_transcript_ok E C p preapproved res events"
    using client_run_transcript [OF assms(8)] by simp
  moreover have "message_kind approval = ''plan.approve''" using assms(12) by (simp add: approves_def)
  ultimately obtain g response n rest where r: "events = Sent g # Shown (shown_proposal E response) # Sent f # rest"
      "verified_proposal E C response" "client_approves E n response preapproved approval"
    using sent_approval [OF assms(6) _ assms(9,10)] by metis
  obtain d where d: "plan_digest E (proposed_plan response) = Inr d" "proposed_digest response = to_hex d" "plan_ok (proposed_plan response)"
    using r(2) assms(7) by (auto simp: verified_proposal_def)
  have "to_hex d = to_hex (session_digest (authority_session authority))"
    using r(3) d(2) assms(11,12) by (simp add: client_approves_def approves_def offers_def)
  then have "d = session_digest (authority_session authority)" by (simp add: to_hex_inj)
  then have "plan_digest E (session_plan (authority_session authority)) = Inr d"
    using assms(11) by (simp add: offers_def)
  then have "no_collision E (plan_json E (proposed_plan response)) (plan_json E (session_plan (authority_session authority))) \<longrightarrow>
      proposed_plan response = session_plan (authority_session authority)"
    using digest_determines_plan [OF assms(1-5) d(3) assms(13) _ d(1)] by blast
  then show ?thesis using r(1)
    by (intro exI [of _ response] exI [of _ "[Sent g]"] exI [of _ "Sent f # rest"]) simp
qed

section \<open>A sample agreement\<close>

text \<open>A hash with one value, which is the worst that a hash can be: the digests of the run are then all known.\<close>

definition zero_digest :: digest where "zero_digest = replicate 32 0"

definition zero_ext :: "byte list ext" where
  "zero_ext = plain_ext\<lparr>sha256 := (\<lambda>_. zero_digest), h_finalize := (\<lambda>_. zero_digest)\<rparr>"

lemma zero_ext_simps [simp]:
  "sha256 zero_ext = (\<lambda>_. zero_digest)" "h_finalize zero_ext = (\<lambda>_. zero_digest)"
  "json_string zero_ext = plain_string" "number_text zero_ext = plain_number"
  "uuid_text zero_ext = uuid_text plain_ext" "time_text zero_ext = time_text plain_ext"
  by (simp_all add: zero_ext_def)

lemma zero_ext_contracts:
  "hasher_contract zero_ext" "string_contract zero_ext" "number_contract zero_ext" "uuid_contract zero_ext"
  "time_contract zero_ext"
  using plain_string_contract plain_number_contract plain_uuid_contract plain_time_contract
  by (simp_all add: hasher_contract_def string_contract_def json_string_bytes_def number_contract_def
      uuid_contract_def time_contract_def)

definition zero_action :: planned_action where
  "zero_action = sample_action\<lparr>facts_digest := zero_digest\<rparr>"

definition zero_state :: observed_state where
  "zero_state = \<lparr>captured_at = 0, state_digest = zero_digest,
     state_values = [(1, \<lparr>observed_capability = ''c'', parameters_digest = zero_digest, observed_at = 0, facts = []\<rparr>)]\<rparr>"

definition zero_plan :: plan where
  "zero_plan = (sample_plan 9)\<lparr>plan_profile_digest := zero_digest, plan_package_digest := zero_digest,
     plan_host := (sample_host ''pc'')\<lparr>fingerprint := zero_digest\<rparr>,
     plan_source := \<lparr>source_origin = LocalFile, source_locator = ''p.json'', source_digest = zero_digest\<rparr>,
     plan_observed_state := zero_state, plan_actions := [zero_action]\<rparr>"

lemma zero_plan_structure: "plan_structure_ok zero_ext zero_plan"
proof -
  have "plan_actions_ok [zero_action]"
    by (auto simp: plan_actions_ok_def graph_fields_ok_def closed_deps_def acyclic_deps_def res_simps
        action_fields_ok_def zero_action_def sample_action_def text_ok_def byte_in_def json_map_ok_def)
  moreover have "observations_bound zero_ext zero_plan" "observations_valid zero_ext zero_state"
    by (simp_all add: observations_bound_def observation_bound_def observations_valid_def calculated_digest_def zero_plan_def
        zero_state_def zero_action_def sample_action_def parameters_json_digest_def text_ok_def byte_in_def json_map_ok_def
        canonical_json_digest_eq [OF zero_ext_contracts(1)])
  moreover have "host_ok zero_ext (plan_host zero_plan)"
    by (simp add: host_ok_def zero_plan_def sample_host_def Let_def calculated_fingerprint_def
        canonical_json_digest_eq [OF zero_ext_contracts(1)]) (simp add: text_ok_def byte_in_def)
  ultimately show ?thesis
    by (simp add: plan_structure_ok_def) (simp add: zero_plan_def sample_plan_def text_ok_def byte_in_def json_map_ok_def)
qed

lemma zero_plan_ok: "plan_ok zero_plan"
  by (simp add: plan_ok_def zero_plan_def sample_plan_def u64_bound_def planned_action_ok_def zero_action_def sample_action_def
      zero_state_def observed_state_ok_def map_entries_ok_def)

lemma zero_plan_digest: "plan_digest zero_ext zero_plan = Inr zero_digest"
  by (simp add: plan_digest_total [OF zero_ext_contracts(1)])

text \<open>The three messages of the exchange, and a codec for exactly them.\<close>

definition agreed_binding :: "string option \<Rightarrow> broker_binding" where
  "agreed_binding r = \<lparr>bound_session_id = ''a1'', bound_plan_id = ''1'', bound_plan_digest = to_hex zero_digest, reply_to = r\<rparr>"

definition agreed_authority :: worker_apply_authority where
  "agreed_authority = \<lparr>authority_session = \<lparr>session_plan = zero_plan, session_digest = zero_digest\<rparr>, authority_intents = []\<rparr>"

definition agreed_request :: broker_message where
  "agreed_request = \<lparr>message_version = protocol_version, message_binding = agreed_binding None, nonce = ''c3'',
     message_kind = ''plan.propose'', message_payload = request_payload zero_ext zero_plan ''s''\<rparr>"

definition agreed_offer :: broker_message where
  "agreed_offer = \<lparr>message_version = protocol_version, message_binding = agreed_binding (Some ''c3''), nonce = ''b2'',
     message_kind = ''plan.proposal'', message_payload = proposal_payload zero_ext agreed_authority\<rparr>"

definition agreed_approval :: broker_message where
  "agreed_approval = \<lparr>message_version = protocol_version, message_binding = agreed_binding (Some ''b2''), nonce = ''c3'',
     message_kind = ''plan.approve'', message_payload = obj [field ''approvedDigest'' (JString (to_hex zero_digest))]\<rparr>"

definition agreed_ser :: "broker_message \<Rightarrow> string + byte list" where
  "agreed_ser m = (if m = agreed_request then Inr [1] else if m = agreed_offer then Inr [2]
     else if m = agreed_approval then Inr [3] else Inl ''unknown'')"

definition agreed_de :: "byte list \<Rightarrow> string + broker_message" where
  "agreed_de b = (if b = [1] then Inr agreed_request else if b = [2] then Inr agreed_offer
     else if b = [3] then Inr agreed_approval else Inl ''unknown'')"

definition agreed_response :: worker_proposal where
  "agreed_response = \<lparr>proposed_plan = zero_plan, proposed_digest = to_hex zero_digest\<rparr>"

definition agreed_token :: process_identity where
  "agreed_token = \<lparr>token_session_id = 1, token_user_sid = ''u'', token_logon_sid = ''l'', token_integrity_rid = 0x3000,
     token_image_path = ''w''\<rparr>"

text \<open>A client whose worker answers the request with the offer and is gone after the approval.\<close>

definition agreed_client :: "unit client_env" where
  "agreed_client = \<lparr>pipe_receive = (\<lambda>w. (frame_encode agreed_ser agreed_offer, w)),
     pipe_receive_timeout = (\<lambda>d w. (Inl ReplayDetected, w)),
     pipe_send = (\<lambda>f w. (Inr (), w)), pipe_send_timeout = (\<lambda>f d w. (Inr (), w)), instant_now = (\<lambda>w. (0, w)),
     new_nonce = (\<lambda>w. (''c3'', w)), ser_message = agreed_ser, de_message = agreed_de,
     installed_package = (\<lambda>w. (Inr (zero_digest, ''w''), w)), own_identity = (\<lambda>w. (Inr agreed_token, w)),
     new_session = (\<lambda>w. (''a1'', w)), launch_worker = (\<lambda>n w. w), try_connect = (\<lambda>n w. (Inr (), w)),
     launcher_finished = (\<lambda>w. (False, w)), join_launcher = (\<lambda>w. (LauncherPanicked, w)), sleep_for = (\<lambda>d w. w),
     server_peer = (\<lambda>w. (Inr 1, w)), server_identity = (\<lambda>w. (Inr agreed_token, w)), verified_server_image = (\<lambda>w. (Inr ''w'', w)),
     read_source = (\<lambda>l w. (Inr ''s'', w)), install_console = (\<lambda>w. (Inr (), w)), console_cancelled = (\<lambda>w. (False, w)),
     print_json = (\<lambda>v w. (Inr (), w)), write_progress = (\<lambda>p w. w), read_approval = (\<lambda>w. Some (Inr [], w)),
     parse_source = (\<lambda>t. Inr JNull), dec_profile = (\<lambda>v. Inr sample_profile), dec_proposal = (\<lambda>v. Inr agreed_response),
     dec_progress = (\<lambda>v. Inl ''none''), dec_result = (\<lambda>v. Inl ''none'')\<rparr>"

lemma agreed_codec: "codec_contract agreed_ser agreed_de"
  by (auto simp: codec_contract_def agreed_ser_def agreed_de_def split: if_splits)

lemma agreed_kinds:
  "message_kind agreed_request = ''plan.propose''" "message_kind agreed_offer = ''plan.proposal''"
  "message_kind agreed_approval = ''plan.approve''"
  by (simp_all add: agreed_request_def agreed_offer_def agreed_approval_def)

lemma agreed_distinct: "agreed_offer \<noteq> agreed_request" "agreed_approval \<noteq> agreed_request" "agreed_approval \<noteq> agreed_offer"
  using agreed_kinds by auto

lemma agreed_frames:
  "frame_encode agreed_ser agreed_request = Inr [0, 0, 0, 1, 1]" "frame_encode agreed_ser agreed_offer = Inr [0, 0, 0, 1, 2]"
  "frame_encode agreed_ser agreed_approval = Inr [0, 0, 0, 1, 3]"
  using agreed_distinct
  by (simp_all add: frame_encode_Inr_iff agreed_ser_def max_frame_bytes_def be.frame_def u32_to_be_bytes_def u32_to_le_bytes_def)

lemma zero_hex: "valid_hex (to_hex zero_digest) sha256_hex_bytes" "from_str (to_hex zero_digest) = Inr zero_digest"
proof -
  show "valid_hex (to_hex zero_digest) sha256_hex_bytes" by code_simp
  show "from_str (to_hex zero_digest) = Inr zero_digest"
    by (rule from_str_to_hex) (simp add: digest_ok_def zero_digest_def)
qed

lemma agreed_valid:
  "message_validate agreed_request = Inr ()" "message_validate agreed_offer = Inr ()" "message_validate agreed_approval = Inr ()"
proof -
  have hex: "valid_nonce ''c3''" "valid_nonce ''b2''" "validate_session_id ''a1'' = Inr ()" "validate_plan_id ''1'' = Inr ()"
    "validate_kind ''plan.propose'' = Inr ()" "validate_kind ''plan.proposal'' = Inr ()" "validate_kind ''plan.approve'' = Inr ()"
    by code_simp+
  have binding: "binding_validate (agreed_binding r) = Inr ()" if "r \<in> {None, Some ''c3'', Some ''b2''}" for r
    using that hex zero_hex(1) by (auto simp: binding_validate_def agreed_binding_def)
  have object: "is_object (obj fs)" for fs by (simp add: obj_def is_object_def)
  show "message_validate agreed_request = Inr ()" "message_validate agreed_offer = Inr ()" "message_validate agreed_approval = Inr ()"
    using hex binding object
    by (simp_all add: message_validate_def validate_version_def validate_nonce_def agreed_request_def agreed_offer_def
        agreed_approval_def request_payload_def proposal_payload_def)
qed

definition agreed_cache :: replay_nonce_cache where
  "agreed_cache = \<lparr>ttl = two_minutes, capacity = 4, seen = Map.empty, nonce_order = []\<rparr>"

lemma agreed_fields:
  "pipe_receive (logged_client agreed_client) w = (Inr [0, 0, 0, 1, 2], w)"
  "pipe_receive_timeout (logged_client agreed_client) d w = (Inl ReplayDetected, w)"
  "instant_now (logged_client agreed_client) w = (0, w)" "logged_op (new_nonce agreed_client) w = (''c3'', w)"
  "installed_package (logged_client agreed_client) w = (Inr (zero_digest, ''w''), w)"
  "own_identity (logged_client agreed_client) w = (Inr agreed_token, w)"
  "new_session (logged_client agreed_client) w = (''a1'', w)" "launch_worker (logged_client agreed_client) n w = w"
  "try_connect (logged_client agreed_client) n w = (Inr (), w)" "launcher_finished (logged_client agreed_client) w = (False, w)"
  "server_peer (logged_client agreed_client) w = (Inr 1, w)" "server_identity (logged_client agreed_client) w = (Inr agreed_token, w)"
  "verified_server_image (logged_client agreed_client) w = (Inr ''w'', w)"
  "read_source (logged_client agreed_client) l w = (Inr ''s'', w)"
  "install_console (logged_client agreed_client) w = (Inr (), w)" "console_cancelled (logged_client agreed_client) w = (False, w)"
  by (cases w, simp add: logged_client_def agreed_client_def logged_op_def agreed_frames)+

lemma agreed_outputs:
  "logged_send e (pipe_send agreed_client f) (w, log) = (Inr (), w, log @ [e])"
  "logged_send e (pipe_send_timeout agreed_client f d) (w, log) = (Inr (), w, log @ [e])"
  "logged_send e (print_json agreed_client v) (w, log) = (Inr (), w, log @ [e])"
  by (simp_all add: logged_send_def agreed_client_def)

lemma agreed_codecs:
  "ser_message agreed_client = agreed_ser" "de_message (logged_client agreed_client) = agreed_de"
  "parse_source (logged_client agreed_client) = (\<lambda>_. Inr JNull)" "dec_profile (logged_client agreed_client) = (\<lambda>_. Inr sample_profile)"
  "dec_proposal agreed_client = (\<lambda>_. Inr agreed_response)"
  by (simp_all add: logged_client_def agreed_client_def)

lemmas agreed_world = agreed_fields agreed_outputs agreed_codecs

lemma agreed_plan:
  "plan_id zero_plan = 1" "plan_profile_id zero_plan = profile_id sample_profile" "plan_profile_digest zero_plan = zero_digest"
  "plan_package_digest zero_plan = zero_digest"
  "plan_source zero_plan = \<lparr>source_origin = LocalFile, source_locator = ''p.json'', source_digest = zero_digest\<rparr>"
  by (simp_all add: zero_plan_def sample_plan_def sample_profile_def)

lemma agreed_plan_text: "nat_text (unat (plan_id zero_plan)) = ''1''"
  by (simp add: agreed_plan nat_text.simps) code_simp

lemma agreed_start: "start_worker (logged_client agreed_client) zero_plan w = Some (Inr (''a1'', agreed_cache), w)"
proof -
  have "connect_loop (logged_client agreed_client) n limit w = Some (Inr (), w)" for n limit
    by (subst connect_loop.simps) (simp add: agreed_world select_startup_poll_def)
  moreover have "authenticate_worker_server (logged_client agreed_client) 1 agreed_token ''w'' w = (Inr (), w)"
    by (simp add: authenticate_worker_server_def verify_server_identity_def same_windows_path_def agreed_world st_then_def)
       (simp add: agreed_token_def)
  ultimately show ?thesis
    by (simp add: start_worker_def agreed_world connect_def verify_package_digest_def agreed_plan replay_new_def
        two_minutes_def agreed_cache_def st_then_def)
qed

lemma agreed_source: "load_profile_source zero_ext (logged_client agreed_client) zero_plan w = (Inr ''s'', w)"
proof -
  have "profile_validate sample_profile = Inr [1]" by code_simp
  moreover have "load_json (\<lambda>_. Inr JNull) (\<lambda>_. Inr sample_profile) (as_bytes ''s'') json_load_limits_default = Inr sample_profile"
  proof -
    have "utf8_valid (as_bytes ''s'')" "length (as_bytes ''s'') = 1" by code_simp+
    moreover have "within_limits json_load_limits_default JNull"
      by (simp add: within_limits_def json_load_limits_default_def)
    ultimately show ?thesis by (simp add: load_json_Inr_iff json_load_limits_default_def)
  qed
  ultimately show ?thesis
    by (simp add: load_profile_source_def validate_profile_source_def agreed_world agreed_plan
        of_bytes_def canonical_json_digest_eq [OF zero_ext_contracts(1)] st_then_def)
qed

lemma agreed_decodes: "frame_decode agreed_de [0, 0, 0, 1, 2] = Inr agreed_offer" "frame_decode agreed_de [0, 0, 0, 1, 3] = Inr agreed_approval"
  by (simp_all add: frame_decode_def bounded_body_def Let_def u32_from_be_bytes_def max_frame_bytes_def agreed_de_def)

lemma agreed_propose:
  "propose zero_ext (logged_client agreed_client) agreed_cache ''a1'' zero_plan ((), []) =
     Some (Inr (agreed_response, ''b2''), (), [Sent [0, 0, 0, 1, 1]])"
proof -
  have request: "client_proposal_request zero_ext (logged_client agreed_client) zero_plan ''a1'' w = (Inr agreed_request, w)" for w
    by (simp add: client_proposal_request_def agreed_source zero_plan_digest agreed_world agreed_plan_text agreed_request_def agreed_binding_def st_then_def)
  have "valid_nonce ''b2''" by code_simp
  moreover have "evict_expired agreed_cache 0 = agreed_cache" "seen agreed_cache ''b2'' = None"
    by (simp_all add: evict_expired_def agreed_cache_def)
  moreover have "evict_capacity agreed_cache = Some agreed_cache"
    by (subst evict_capacity.simps) (simp add: agreed_cache_def)
  ultimately obtain cache where "replay_accept agreed_cache ''b2'' 0 = Some (Inr (), cache)"
    by (simp add: replay_accept_def)
  moreover have "nonce agreed_offer = ''b2''" by (simp add: agreed_offer_def)
  ultimately have receive: "receive_message (logged_client agreed_client) agreed_cache w = Some (Inr agreed_offer, cache, w)" for w
    by (simp add: receive_message_def agreed_world agreed_decodes agreed_valid)
  obtain order where "validate_structure zero_ext zero_plan = Inr order"
    using plan_structure_order [OF zero_plan_structure] zero_plan_structure by (auto simp: validate_structure_Inr_iff)
  then have "verify_proposal_binding zero_ext agreed_offer agreed_response ''a1'' agreed_request = Inr ()"
    by (simp add: verify_proposal_binding_def verify_proposal_digest_def verify_proposal_request_binding_def agreed_response_def
        zero_hex zero_plan_digest agreed_plan_text agreed_offer_def agreed_request_def agreed_binding_def)
  then show ?thesis
    by (simp add: propose_def request client_send_message_def agreed_valid agreed_world agreed_frames receive_proposal_def receive
        agreed_kinds st_then_def) (simp add: agreed_offer_def)
qed

lemma agreed_finish:
  "client_finish zero_ext (logged_client agreed_client) agreed_response agreed_approval ((), log) =
     Some (Inl (AnyPlatform ReplayDetected), (), log @ [Sent [0, 0, 0, 1, 3]])"
proof -
  obtain c where "approval_control_new agreed_approval 0 = Some (Inr c)"
    using approval_session [OF agreed_valid(3) agreed_kinds(3)] by blast
  then have "start_control (logged_client agreed_client) agreed_approval w = Some (Inr (c, two_minutes), w)" for w
    by (simp add: start_control_def agreed_world st_then_def)
  moreover have "authorize_control (logged_client agreed_client) agreed_approval c two_minutes ((), log) =
      (Inr False, (), log @ [Sent [0, 0, 0, 1, 3]])" for c
    by (simp add: authorize_control_def send_approval_with_cancellation_def send_control_message_def remaining_control_time_def
        transport_send_def agreed_world agreed_valid agreed_frames two_minutes_def st_then_def)
  moreover have "receive_result (logged_client agreed_client) r two_minutes c b w = Some (Inl (AnyPlatform ReplayDetected), w)" for r c b w
    by (subst receive_result.simps)
       (simp add: receive_control_message_def remaining_control_time_def agreed_world two_minutes_def st_then_def)
  ultimately show ?thesis by (simp add: client_finish_def)
qed

lemma agreed_run:
  "apply_run zero_ext (logged_client agreed_client) zero_plan (Some (to_hex zero_digest)) ((), []) =
     Some (Inl (AnyPlatform ReplayDetected), (), [Sent [0, 0, 0, 1, 1], Shown (shown_proposal zero_ext agreed_response), Sent [0, 0, 0, 1, 3]])"
proof -
  have "client_approval_request zero_ext (logged_client agreed_client) ''a1'' agreed_response ''b2'' (to_hex zero_digest) w =
      (Inr agreed_approval, w)" for w
    by (simp add: client_approval_request_def agreed_response_def agreed_world agreed_approval_def agreed_binding_def agreed_plan_text)
  then show ?thesis
    by (simp add: apply_run_def agreed_start agreed_propose agreed_world client_approval_digest_def agreed_finish st_then_def)
qed

theorem operator_saw_retained_plan_witness:
  "\<exists>response before after. [Sent [0, 0, 0, 1, 1], Shown (shown_proposal zero_ext agreed_response), Sent [0, 0, 0, 1, 3]] =
     before @ Shown (shown_proposal zero_ext response) # after \<and> Sent [0, 0, 0, 1, 3] \<in> set after \<and> proposed_plan response = zero_plan"
proof -
  let ?B = "idle_env\<lparr>ser_message := agreed_ser\<rparr>"
  let ?asked = "\<lparr>request_plan = zero_plan, request_profile_source = ''s''\<rparr>"
  have "zero_plan = zero_plan\<lparr>plan_intent := plan_intent zero_plan\<rparr>" by simp
  then have "\<exists>intent. zero_plan = zero_plan\<lparr>plan_intent := intent\<rparr>" by blast
  then have offers: "offers zero_ext ?B ''a1'' ?asked agreed_request agreed_authority agreed_offer [0, 0, 0, 1, 2]"
    by (simp add: offers_def agreed_kinds agreed_frames agreed_plan_text zero_plan_digest)
       (simp add: agreed_request_def agreed_offer_def agreed_authority_def agreed_binding_def agreed_plan_text zero_plan_digest)
  have approves: "approves agreed_offer agreed_approval"
    by (simp add: approves_def agreed_offer_def agreed_approval_def agreed_binding_def)
  have decoder: "\<forall>v r. dec_proposal agreed_client v = Inr r \<longrightarrow> plan_ok (proposed_plan r)"
    by (simp add: agreed_codecs) (simp add: agreed_response_def zero_plan_ok)
  have codec: "codec_contract (ser_message agreed_client) agreed_de" by (simp add: agreed_codecs agreed_codec)
  have plan: "session_plan (authority_session agreed_authority) = zero_plan" by (simp add: agreed_authority_def)
  obtain response before after where r:
    "[Sent [0, 0, 0, 1, 1], Shown (shown_proposal zero_ext agreed_response), Sent [0, 0, 0, 1, 3]] =
       before @ Shown (shown_proposal zero_ext response) # after" "Sent [0, 0, 0, 1, 3] \<in> set after"
    "no_collision zero_ext (plan_json zero_ext (proposed_plan response)) (plan_json zero_ext zero_plan) \<Longrightarrow> proposed_plan response = zero_plan"
    using operator_saw_retained_plan [OF zero_ext_contracts codec decoder agreed_run _ agreed_decodes(2) offers approves]
    by (auto simp: plan zero_plan_ok)
  have "Shown (shown_proposal zero_ext response) \<in> set [Sent [0, 0, 0, 1, 1], Shown (shown_proposal zero_ext agreed_response), Sent [0, 0, 0, 1, 3]]"
    unfolding r(1) by simp
  then have "shown_proposal zero_ext response = shown_proposal zero_ext agreed_response" by simp
  note obj_eq_vals [OF this [unfolded shown_proposal_def], of "''plan''"]
  then have "plan_json zero_ext (proposed_plan response) = plan_json zero_ext zero_plan" by (simp add: agreed_response_def)
  then show ?thesis using r by (auto simp: no_collision_def)
qed

end
