(* ===== verification/Spec2Isabelle.thy ===== *)
theory Spec2Isabelle
  imports Result_Validate Scheduler Ipc_Control Run_Reconciles Package Broker_Agreement
begin

text \<open>
  A verification library for BaselineOps, a Windows endpoint baseline tool written in Rust. A standard-user client
  loads a profile, observes the host, and proposes a plan; an operator approves the digest of the plan; an elevated
  worker rebuilds the plan from live facts, verifies it, and executes it under a hash-chained journal; the client
  reconciles the result with the files of the run. The library models the contracts, validators, policies, planner,
  approval gates, scheduler, journal, local broker, the one native executor with its protected run, the committed
  result, the evidence store, and the two processes at the ends of the broker pipe, and proves the properties that the split of authority rests on.

  \<^bold>\<open>Parts and theories.\<close> Paths are below \<open>src/rust/crates\<close>.

  \<^item> \<open>Rust_Prelude\<close>, \<open>External_Code\<close>, \<open>Btree_Map\<close>: the model of \<open>Result\<close>, the question mark, loops, checked
    arithmetic and text; the third-party crates (\<open>serde_json\<close>, \<open>sha2\<close>, \<open>uuid\<close>, \<open>chrono\<close>) as a record of functions
    with one named contract each; ordered maps, with the laws of insertion as the locale \<open>insertion_map\<close>.
  \<^item> \<open>Sha_Digest\<close>, \<open>Json_Canonical\<close>, \<open>Json_Load\<close>: \<open>baselineops-domain/src/canonical.rs\<close>, \<open>load.rs\<close>. The
    canonical text is injective, the streamed digest is the digest of the text, and the bounds of the loader
    are exact.
  \<^item> \<open>Kahn\<close>, \<open>Dependency_Graph\<close>: the worklist shared by the validator and the scheduler, and
    \<open>validate/graph.rs\<close>. Acceptance is characterised, the order is safe, and the cycle report is a cycle.
  \<^item> \<open>Domain_Model\<close>, \<open>Domain_Serde\<close>, \<open>Domain_Validate\<close>, \<open>Plan_Validate\<close>, \<open>Result_Validate\<close>: \<open>model/\<close>,
    \<open>ids.rs\<close>, \<open>validate.rs\<close> and \<open>validate/\<close>. Every validator has an exact condition, and a plan becomes execution
    authority exactly when every live binding matches.
  \<^item> \<open>Planner\<close>: \<open>baselineops-engine/src/planner.rs\<close>. Plans follow the profile, a reviewed plan is rebuilt to
    itself or refused, and an unchanged one is rebuilt until it expires.
  \<^item> \<open>Capability_Registry\<close>: \<open>baselineops-capabilities/src/types.rs\<close>, \<open>catalog.rs\<close>, \<open>registry.rs\<close> and the engine's
    \<open>native_registry.rs\<close>, with all fifty-two descriptors.
  \<^item> \<open>Drift_Policy\<close>, \<open>Registry_Policies\<close>, \<open>Network_Policies\<close>, \<open>Defense_Policies\<close>, \<open>Evidence_Policies\<close>: the policies
    of \<open>baselineops-capabilities/src\<close> that lead to a plan. Ten propose changes: Office and Edge, PowerShell logging,
    Security Options, firewall logging, firewall profiles, SMB encryption, remote access, Defender, emergency isolation
    and Windows Update (below). The locale \<open>field_policy\<close> states what a policy over independent fields promises, and
    every such planner interprets it: a proposal that was carried out in part is planned again to exactly what is
    left. Five only keep evidence; the locale \<open>appending_check\<close> gives their audits as the concatenation of the
    findings of their parts, and none passes for lack of evidence.
  \<^item> \<open>Semantic_Plan\<close>: \<open>semantic_plan.rs\<close>, the planner of every capability. A proposal has the type of its capability
    and never changes what was not observed.
  \<^item> \<open>Apply_Authority\<close>: \<open>registry_deriver.rs\<close>, \<open>approval.rs\<close>, \<open>apply_authority.rs\<close> and \<open>native_intents.rs\<close>. The
    approved digest determines the plan that runs, and production apply is locked by two independent gates.
  \<^item> \<open>Windows_Update\<close>: \<open>windows_update_policy.rs\<close> and the registry adapter
    \<open>baselineops-windows/src/windows_update.rs\<close>, \<open>windows_update/mutation.rs\<close>. Plans converge, and the adapter
    never writes over a value it did not expect.
  \<^item> \<open>Native_Action\<close>, \<open>Native_Trace\<close>: \<open>native_execution/action.rs\<close> over an arbitrary port, and its calls: a change is
    announced durably before it is made.
  \<^item> \<open>Committed_Result\<close>: \<open>committed_result.rs\<close> and \<open>committed_result/\<close>. A reconciled result is sealed: it and its
    journal are determined by the envelope of the worker.
  \<^item> \<open>Protected_Run\<close>, \<open>Run_Reconciles\<close>: \<open>native_execution.rs\<close>, \<open>native_execution/native.rs\<close> and its finalization, over
    a world of arbitrary behaviour. The locale \<open>port_invariant\<close> carries an invariant of the port through a whole run;
    with it, what a dispatched run returns reconciles with the files it left behind, from approval to reading back.
  \<^item> \<open>Win_Path\<close>, \<open>File_System\<close>: paths as \<open>std::path\<close> reads them on Windows, a file system whose every call may fail,
    and the atomic write of \<open>baselineops-windows/src/safe_path.rs\<close>.
  \<^item> \<open>Evidence_Store\<close>, \<open>Evidence_Safety\<close>: \<open>baselineops-engine/src/evidence.rs\<close>. The states a store can reach are an
    inductive relation over its operations and their failures; acknowledged evidence survives all of them.
  \<^item> \<open>Archive\<close>, \<open>Package\<close>: \<open>baselineops-windows/src/archive.rs\<close>, \<open>archive/extract.rs\<close> and the engine's
    \<open>package.rs\<close>, over the same file system. Whatever an archive holds and whatever fails, extraction leaves the files
    that were there and writes below its root within the quotas; a verified package holds exactly the signed files.
  \<^item> \<open>Scheduler\<close>: \<open>scheduler.rs\<close>, \<open>scheduler/order.rs\<close>, with the capability runner as an arbitrary environment.
  \<^item> \<open>Framing\<close>, \<open>Journal_Lifecycle\<close>, \<open>Journal\<close>, \<open>Journal_Chain\<close>, \<open>Journal_Safety\<close>: \<open>journal.rs\<close> and \<open>journal/\<close>.
    The locale \<open>length_prefixed\<close> states what frames rely on, for both byte orders. The journal is read back, sealed
    by its terminal hash, and atomic under a crash at any byte; the lifecycle machine accepts exactly the runs.
  \<^item> \<open>Ipc_Message\<close>, \<open>Ipc_Replay\<close>, \<open>Ipc_Control\<close>: \<open>baselineops-windows/src/ipc/\<close>. Frames round-trip, the replay
    cache refines an abstract window, and a control session is safe and always returns.
  \<^item> \<open>Worker_Broker\<close>, \<open>Worker_Session\<close>: the elevated worker, \<open>src/rust/apps/baselineops-worker/src\<close>, over a pipe, a clock
    and an executor thread of arbitrary behaviour. The locales \<open>pipe_relation\<close> and \<open>worker_relation\<close> carry a relation between
    worlds through the session, once for time and once for the record of the frames sent: the worker always ends and
    refuses, and its frames are bound to one offer and one approval.
  \<^item> \<open>Client_Apply\<close>, \<open>Client_Session\<close>: the client, \<open>apply.rs\<close>, \<open>apply/\<close> and \<open>protocol.rs\<close> of
    \<open>src/rust/apps/baselineops-cli/src\<close>, in the same way, with the locale \<open>client_relation\<close>. It always ends, shows a plan
    before it approves it, and reports only results that answer the plan it showed.
  \<^item> \<open>Broker_Agreement\<close>: both ends together. The plan behind an approval that the worker accepts is the
    plan that the operator saw.

  \<^bold>\<open>Conventions.\<close> A struct is a record, an enum a datatype, an error a value of a sum type, a panic \<open>None\<close> or a
  constructor of the error. Strings are lists of the bytes of their UTF-8 text. \<open>u64\<close> and \<open>usize\<close> are natural
  numbers with their checked operations and bounds written out; registry values and frame lengths keep their width.
  Time is an integer number of nanoseconds. The state of the machine, a file or a registry is passed explicitly.

  \<^bold>\<open>Termination.\<close> Loops over data are structural. The worklists of \<open>Kahn\<close> recurse on a measure. The eviction loop of
  the replay cache, the pump of the worker and the two loops of the client have no bound of their own: they are partial
  functions whose value \<open>None\<close> stands for running on. The eviction is proved to return on every reachable cache, and the
  others to return as long as time passes while they wait. There is no fuel.

  \<^bold>\<open>Assumptions.\<close> SHA-256 is any function; a theorem that needs that two given texts do not collide says so. The
  contracts of the external crates are hypotheses by name, and \<open>External_Code\<close> satisfies all of them. The decoders
  that \<open>serde\<close> derives, the registry, the journal file under a write error, and the capability executors are
  arguments of arbitrary behaviour.

  \<^bold>\<open>Not modelled.\<close> The audits that only report findings and never lead to a plan; the observation executors around
  Win32; installed packages, reports and the support-bundle parser; path resolution and bounded reading of \<open>safe_path.rs\<close>; of the
  applications the graphical one, the other commands of the client, and the release trust of the worker. The unsafe Win32 adapters have no semantics here beyond the ports. The typed decoders of \<open>serde\<close> are
  parameters. The PowerShell toolkit and the repository automation are not Rust.
\<close>

end
